(* ===== verification/Prelude.thy ===== *)
theory Prelude
  imports Complex_Main "HOL-Library.Multiset"
begin

text \<open>
  Shared vocabulary of the development: the result type of fallible operations, finite
  floating-point values as the layout code uses them, UTF-8 byte strings, bounded suffixes
  of a stream, and the list lemmas the component theories rely on.

  Rust's \<open>String\<close> is a UTF-8 byte sequence, so it is Isabelle's \<open>string\<close> read as
  bytes: \<open>length\<close> is \<open>str::len\<close>.
\<close>

named_theorems pane_simps \<open>equations that push pane listings through tree operations\<close>
named_theorems record_simps \<open>unfolding rules for the writers of a session record\<close>

section \<open>Fallible operations\<close>

text \<open>\<open>anyhow::Result<T>\<close>: \<open>Inl\<close> carries the error, \<open>Inr\<close> the value.\<close>

type_synonym ('e, 'a) result = "'e + 'a"

abbreviation Err :: "'e \<Rightarrow> 'e + 'a" where "Err \<equiv> Inl"
abbreviation Ok :: "'a \<Rightarrow> 'e + 'a" where "Ok \<equiv> Inr"

text \<open>The \<open>?\<close> operator: continue on success, return the error otherwise.\<close>

definition and_then :: "'e + 'a \<Rightarrow> ('a \<Rightarrow> 'e + 'b) \<Rightarrow> 'e + 'b" where
  "and_then r f = (case r of Inl e \<Rightarrow> Inl e | Inr x \<Rightarrow> f x)"

lemma and_then_simps [simp]:
  "and_then (Inl e) f = Inl e"
  "and_then (Inr x) f = f x"
  by (simp_all add: and_then_def)

lemma and_then_eq_Inr:
  "and_then r f = Inr y \<longleftrightarrow> (\<exists>x. r = Inr x \<and> f x = Inr y)"
  by (cases r) simp_all

lemma and_then_eq_Inl:
  "and_then r f = Inl e \<longleftrightarrow> r = Inl e \<or> (\<exists>x. r = Inr x \<and> f x = Inl e)"
  by (cases r) simp_all

lemma and_then_cong [fundef_cong]:
  assumes "r = r'" and "\<And>x. r' = Inr x \<Longrightarrow> f x = f' x"
  shows "and_then r f = and_then r' f'"
  using assms by (cases r') simp_all

text \<open>
  What reading a JSON file gives: no file, a file that cannot be read or decoded, or its decoded
  content. A write replaces the file through a temporary file and a rename, so a failed one leaves
  the old content.
\<close>

datatype 'a stored = Missing | Unreadable | Decoded 'a

definition write_atomic :: "bool \<Rightarrow> 'a \<Rightarrow> 'a stored \<Rightarrow> 'a stored" where
  "write_atomic ok content file = (if ok then Decoded content else file)"

section \<open>Floating-point values\<close>

text \<open>
  A float is NaN, an infinity or an exact rational; \<open>-0.0\<close> and \<open>0.0\<close> are one value,
  which every comparison of the source identifies as well. Arithmetic rounds to the nearest value with \<open>p\<close>
  significant bits, ties to even (\<open>p = 24\<close> for \<open>f32\<close>, \<open>53\<close> for \<open>f64\<close>). The exponent is not
  bounded: the quantities computed here (pane ratios, aspect ratios) stay far from the limits
  of either format.
\<close>

datatype flt = NaN | NegInf | Fin rat | PosInf

fun bit_len :: "nat \<Rightarrow> nat" where
  "bit_len n = (if n = 0 then 0 else Suc (bit_len (n div 2)))"

declare bit_len.simps [simp del]

definition exp2 :: "int \<Rightarrow> rat" where
  "exp2 e = (if 0 \<le> e then 2 ^ nat e else 1 / 2 ^ nat (- e))"

text \<open>The exponent of a positive rational: \<open>2 powr e \<le> q < 2 powr (e + 1)\<close>.\<close>

definition exponent_of :: "rat \<Rightarrow> int" where
  "exponent_of q = (case quotient_of q of (a, b) \<Rightarrow>
     let e = int (bit_len (nat a)) - int (bit_len (nat b))
     in if exp2 e \<le> q then e else e - 1)"

definition round_half_even :: "rat \<Rightarrow> int" where
  "round_half_even q = (let f = \<lfloor>q\<rfloor>; r = q - of_int f in
     if r < 1 / 2 then f else if 1 / 2 < r then f + 1 else if even f then f else f + 1)"

definition round_sig :: "nat \<Rightarrow> rat \<Rightarrow> rat" where
  "round_sig p q =
     (if q = 0 then 0
      else let m = \<bar>q\<bar>; s = exp2 (int p - 1 - exponent_of m)
           in sgn q * (of_int (round_half_even (m * s)) / s))"

definition fl :: "nat \<Rightarrow> rat \<Rightarrow> flt" where
  "fl p q = Fin (round_sig p q)"

fun flt_lt :: "flt \<Rightarrow> flt \<Rightarrow> bool" where
  "flt_lt (Fin a) (Fin b) = (a < b)"
| "flt_lt NegInf (Fin b) = True"
| "flt_lt NegInf PosInf = True"
| "flt_lt (Fin a) PosInf = True"
| "flt_lt _ _ = False"

fun flt_eq :: "flt \<Rightarrow> flt \<Rightarrow> bool" where
  "flt_eq (Fin a) (Fin b) = (a = b)"
| "flt_eq NegInf NegInf = True"
| "flt_eq PosInf PosInf = True"
| "flt_eq _ _ = False"

definition flt_le :: "flt \<Rightarrow> flt \<Rightarrow> bool" where
  "flt_le a b = (flt_lt a b \<or> flt_eq a b)"

text \<open>\<open>f32::clamp\<close>: two comparisons, so NaN passes through.\<close>

definition flt_clamp :: "flt \<Rightarrow> flt \<Rightarrow> flt \<Rightarrow> flt" where
  "flt_clamp x lo hi = (let y = (if flt_lt x lo then lo else x) in if flt_lt hi y then hi else y)"

fun flt_abs :: "flt \<Rightarrow> flt" where
  "flt_abs NaN = NaN"
| "flt_abs (Fin a) = Fin \<bar>a\<bar>"
| "flt_abs _ = PosInf"

fun flt_add :: "nat \<Rightarrow> flt \<Rightarrow> flt \<Rightarrow> flt" where
  "flt_add p (Fin a) (Fin b) = fl p (a + b)"
| "flt_add p NaN _ = NaN"
| "flt_add p _ NaN = NaN"
| "flt_add p PosInf NegInf = NaN"
| "flt_add p NegInf PosInf = NaN"
| "flt_add p PosInf _ = PosInf"
| "flt_add p _ PosInf = PosInf"
| "flt_add p NegInf _ = NegInf"
| "flt_add p _ NegInf = NegInf"

lemma flt_eq_iff: "flt_eq a b \<longleftrightarrow> a = b \<and> a \<noteq> NaN"
  by (cases a; cases b) auto

section \<open>Byte strings\<close>

text \<open>
  A UTF-8 continuation byte is one of \<open>0x80 .. 0xBF\<close>; an index is a character boundary
  (\<open>str::is_char_boundary\<close>) at 0, at the length, and before any other byte.
\<close>

definition is_cont :: "char \<Rightarrow> bool" where
  "is_cont c = (128 \<le> (of_char c :: nat) \<and> (of_char c :: nat) < 192)"

definition is_char_boundary :: "string \<Rightarrow> nat \<Rightarrow> bool" where
  "is_char_boundary s i =
     (i = 0 \<or> i = length s \<or> (i < length s \<and> \<not> is_cont (s ! i)))"

text \<open>The UTF-8 encodings of the characters with the \<open>White_Space\<close> property, which \<open>str::trim\<close> removes.\<close>

definition ws_encodings :: "string list" where
  "ws_encodings =
     [[CHR 0x09], [CHR 0x0A], [CHR 0x0B], [CHR 0x0C], [CHR 0x0D], [CHR 0x20],
      [CHR 0xC2, CHR 0x85], [CHR 0xC2, CHR 0xA0], [CHR 0xE1, CHR 0x9A, CHR 0x80],
      [CHR 0xE2, CHR 0x80, CHR 0x80], [CHR 0xE2, CHR 0x80, CHR 0x81],
      [CHR 0xE2, CHR 0x80, CHR 0x82], [CHR 0xE2, CHR 0x80, CHR 0x83],
      [CHR 0xE2, CHR 0x80, CHR 0x84], [CHR 0xE2, CHR 0x80, CHR 0x85],
      [CHR 0xE2, CHR 0x80, CHR 0x86], [CHR 0xE2, CHR 0x80, CHR 0x87],
      [CHR 0xE2, CHR 0x80, CHR 0x88], [CHR 0xE2, CHR 0x80, CHR 0x89],
      [CHR 0xE2, CHR 0x80, CHR 0x8A], [CHR 0xE2, CHR 0x80, CHR 0xA8],
      [CHR 0xE2, CHR 0x80, CHR 0xA9], [CHR 0xE2, CHR 0x80, CHR 0xAF],
      [CHR 0xE2, CHR 0x81, CHR 0x9F], [CHR 0xE3, CHR 0x80, CHR 0x80]]"

fun strip_one :: "string list \<Rightarrow> string \<Rightarrow> string option" where
  "strip_one [] s = None"
| "strip_one (e # es) s =
     (if e \<noteq> [] \<and> take (length e) s = e then Some (drop (length e) s) else strip_one es s)"

lemma strip_one_shorter [termination_simp]:
  "strip_one es s = Some t \<Longrightarrow> length t < length s"
proof (induction es s rule: strip_one.induct)
  case (2 e es s)
  show ?case
  proof (cases "e \<noteq> [] \<and> take (length e) s = e")
    case True
    then have "length e \<le> length s"
      by (metis length_take min.cobounded1)
    with True "2.prems" show ?thesis
      by (cases e) auto
  next
    case False
    with 2 show ?thesis by auto
  qed
qed simp

function strip_all :: "string list \<Rightarrow> string \<Rightarrow> string" where
  "strip_all es s = (case strip_one es s of None \<Rightarrow> s | Some t \<Rightarrow> strip_all es t)"
  by pat_completeness auto
termination
  by (relation "measure (\<lambda>(es, s). length s)") (auto dest: strip_one_shorter)

declare strip_all.simps [simp del]

definition trim_start_ws :: "string \<Rightarrow> string" where
  "trim_start_ws = strip_all ws_encodings"

definition trim_end_ws :: "string \<Rightarrow> string" where
  "trim_end_ws s = rev (strip_all (map rev ws_encodings) (rev s))"

definition trim :: "string \<Rightarrow> string" where
  "trim s = trim_end_ws (trim_start_ws s)"

text \<open>A number in decimal, as \<open>{}\<close> prints it.\<close>

fun dec :: "nat \<Rightarrow> string" where
  "dec n = (if n < 10 then [char_of (48 + n)] else dec (n div 10) @ [char_of (48 + n mod 10)])"

declare dec.simps [simp del]

text \<open>\<open>str::parse::<u32>\<close>: an optional plus sign, then digits, in range.\<close>

definition digit_val :: "char \<Rightarrow> nat option" where
  "digit_val c = (let n = (of_char c :: nat) in if 48 \<le> n \<and> n \<le> 57 then Some (n - 48) else None)"

fun digits_val :: "nat \<Rightarrow> string \<Rightarrow> nat option" where
  "digits_val acc [] = Some acc"
| "digits_val acc (c # cs) =
     (case digit_val c of None \<Rightarrow> None | Some d \<Rightarrow> digits_val (10 * acc + d) cs)"

definition parse_u32 :: "string \<Rightarrow> nat option" where
  "parse_u32 s =
     (let ds = (case s of [] \<Rightarrow> [] | c # rest \<Rightarrow> if c = CHR ''+'' then rest else s) in
      if ds = [] then None
      else (case digits_val 0 ds of
              Some n \<Rightarrow> if n < 2 ^ 32 then Some n else None
            | None \<Rightarrow> None))"

section \<open>The newest part of a stream\<close>

text \<open>\<open>lastn n xs\<close> keeps the newest \<open>n\<close> elements: what a bounded buffer holds of a stream.\<close>

definition lastn :: "nat \<Rightarrow> 'a list \<Rightarrow> 'a list" where
  "lastn n xs = drop (length xs - n) xs"

lemma length_lastn [simp]: "length (lastn n xs) = min n (length xs)"
  by (simp add: lastn_def)

lemma lastn_all [simp]: "length xs \<le> n \<Longrightarrow> lastn n xs = xs"
  by (simp add: lastn_def)

lemma lastn_Nil [simp]: "lastn n [] = []"
  by (simp add: lastn_def)

lemma lastn_append:
  "lastn n (xs @ ys) = lastn (n - length ys) xs @ lastn n ys"
  by (cases "length ys \<le> n") (simp_all add: lastn_def)

lemma lastn_lastn_append: "lastn n (lastn n xs @ ys) = lastn n (xs @ ys)"
  by (cases "length xs \<le> n") (simp_all add: lastn_def add.commute)

lemma set_lastn: "set (lastn n xs) \<subseteq> set xs"
  by (simp add: lastn_def set_drop_subset)

text \<open>
  A log that keeps the newest \<open>cap\<close> entries: one push appends and drops the oldest beyond the cap;
  any number of pushes then leaves the newest \<open>cap\<close> entries of the whole stream.
\<close>

locale bounded_log =
  fixes push :: "'s \<Rightarrow> 'a \<Rightarrow> 's" and contents :: "'s \<Rightarrow> 'a list" and cap :: nat
  assumes push_contents:
    "length (contents s) \<le> cap \<Longrightarrow> contents (push s x) = lastn cap (contents s @ [x])"
begin

lemma push_bounded: "length (contents s) \<le> cap \<Longrightarrow> length (contents (push s x)) \<le> cap"
  by (simp add: push_contents)

lemma pushes:
  "length (contents s) \<le> cap \<Longrightarrow> contents (foldl push s xs) = lastn cap (contents s @ xs)"
proof (induction xs rule: rev_induct)
  case (snoc x xs)
  then have "contents (foldl push s xs) = lastn cap (contents s @ xs)" by simp
  then show ?case by (simp add: push_contents lastn_lastn_append)
qed simp

end

section \<open>Lists\<close>

lemma find_Some_split:
  assumes "List.find P xs = Some x"
  obtains ys zs where "xs = ys @ x # zs" and "P x" and "\<forall>y \<in> set ys. \<not> P y"
  using assms
proof (induction xs arbitrary: thesis)
  case (Cons a xs)
  show ?case
  proof (cases "P a")
    case True
    with Cons.prems show ?thesis by force
  next
    case False
    with Cons.prems(2) have "List.find P xs = Some x" by simp
    then obtain ys zs where "xs = ys @ x # zs" "P x" "\<forall>y \<in> set ys. \<not> P y"
      using Cons.IH by blast
    with False Cons.prems(1) [of "a # ys" zs] show ?thesis by simp
  qed
qed simp

lemma mset_insert_at: "mset (take i xs @ x # drop i xs) = mset (xs @ [x])"
proof -
  have "mset xs = mset (take i xs) + mset (drop i xs)"
    by (metis append_take_drop_id mset_append)
  then show ?thesis by simp
qed

end
