(* ===== verification/Grid.thy ===== *)
theory Grid
  imports Prelude
begin

text \<open>
  The pane tree of one tab (\<open>crates/daemon/src/tabs.rs\<close>, with the wire types of
  \<open>crates/protocol/src/lib.rs\<close>): panes joined by binary splits, and the operations that
  split, close, extract, insert, rebind and resize panes.

  A function that mutates a \<open>&mut GridNode\<close> and answers a flag returns the flag with the
  node as it is left. The flat view of a tree is its pane list, left to right
  (\<open>collect_panes\<close>); the lemmas describe every operation as an edit of that list
  (\<open>subst_pane\<close>: replace the one pane with a given id by a list of panes).
\<close>

section \<open>Data\<close>

datatype SplitDirection = Horizontal | Vertical

datatype SplitPlace = First | Second

datatype PaneDropEdge =
    Left | Right | Top | Bottom
  | Replace
  | OuterLeft | OuterRight | OuterTop | OuterBottom

datatype GridNode =
    Pane string "string option" "string option"
  | Split SplitDirection flt GridNode GridNode

record PaneRef =
  pane_id :: string
  session_id :: "string option"
  host :: "string option"

datatype tab_error =
    NewNodeNotPane
  | PaneNotFound string
  | DestinationPaneNotFound string
  | SplitPathDepth nat
  | SplitPathIndex nat
  | SplitPathEnd
  | NotAGridTab string
  | UnknownTab string
  | TabAlreadyExists string
  | EmptyRearrange
  | RearrangeProducedEmpty
  | RefitProducedEmpty
  | OnlyPaneOfTab
  | MergeNeedsTwo
  | MergeProducedEmpty
  | ExtractNeedsPane
  | ExtractedNotPane string
  | ExtractProducedEmpty
  | ReorderSetMismatch nat nat
  | UnknownTabInReorder string

definition MIN_RATIO :: flt where "MIN_RATIO = fl 24 (5 / 100)"
definition MAX_RATIO :: flt where "MAX_RATIO = fl 24 (95 / 100)"
definition DEFAULT_RATIO :: flt where "DEFAULT_RATIO = fl 24 (1 / 2)"

definition to_node :: "PaneRef \<Rightarrow> GridNode" where
  "to_node p = Pane (pane_id p) (session_id p) (host p)"

definition placeholder :: GridNode where
  "placeholder = Pane [] None None"

definition clamp_ratio :: "flt \<Rightarrow> flt" where
  "clamp_ratio ratio = (if ratio = NaN then DEFAULT_RATIO else flt_clamp ratio MIN_RATIO MAX_RATIO)"

text \<open>The derived \<open>PartialEq\<close>: ratios compare as floats, so a NaN ratio differs from itself.\<close>

fun node_eq :: "GridNode \<Rightarrow> GridNode \<Rightarrow> bool" where
  "node_eq (Pane p s h) (Pane p' s' h') = (p = p' \<and> s = s' \<and> h = h')"
| "node_eq (Split d r a b) (Split d' r' a' b') =
     (d = d' \<and> flt_eq r r' \<and> node_eq a a' \<and> node_eq b b')"
| "node_eq _ _ = False"

section \<open>Reading a tree\<close>

fun pane_exists :: "GridNode \<Rightarrow> string \<Rightarrow> bool" where
  "pane_exists (Pane pid _ _) target = (pid = target)"
| "pane_exists (Split _ _ a b) target = (pane_exists a target \<or> pane_exists b target)"

fun collect_in :: "GridNode \<Rightarrow> PaneRef list \<Rightarrow> PaneRef list" where
  "collect_in (Pane pid sid h) out = out @ [\<lparr>pane_id = pid, session_id = sid, host = h\<rparr>]"
| "collect_in (Split _ _ a b) out = collect_in b (collect_in a out)"

definition collect_panes :: "GridNode \<Rightarrow> PaneRef list" where
  "collect_panes node = collect_in node []"

text \<open>\<open>PaneSessionLookup\<close>: \<open>None\<close> is \<open>Missing\<close>, \<open>Some (session, host)\<close> is \<open>Found\<close>.\<close>

fun pane_session :: "GridNode \<Rightarrow> string \<Rightarrow> (string option \<times> string option) option" where
  "pane_session (Pane pid sid h) target = (if pid = target then Some (sid, h) else None)"
| "pane_session (Split _ _ a b) target =
     (case pane_session a target of
        Some found \<Rightarrow> Some found
      | None \<Rightarrow> pane_session b target)"

definition panes_where ::
    "GridNode \<Rightarrow> (string option \<Rightarrow> string option \<Rightarrow> bool) \<Rightarrow> string list" where
  "panes_where grid matches =
     map pane_id (filter (\<lambda>pane. matches (host pane) (session_id pane)) (collect_panes grid))"

definition panes_for_session :: "GridNode \<Rightarrow> string \<Rightarrow> string list" where
  "panes_for_session grid sid = panes_where grid (\<lambda>h s. h = None \<and> s = Some sid)"

fun has_any_session :: "GridNode \<Rightarrow> bool" where
  "has_any_session (Pane _ sid _) = (sid \<noteq> None)"
| "has_any_session (Split _ _ a b) = (has_any_session a \<or> has_any_session b)"

section \<open>Changing a tree\<close>

text \<open>A fresh pane; the id is the UUID drawn by \<open>new_id\<close>.\<close>

definition new_pane :: "string \<Rightarrow> string option \<Rightarrow> string option \<Rightarrow> GridNode" where
  "new_pane fresh sid h = Pane fresh sid h"

fun split_in ::
    "GridNode \<Rightarrow> string \<Rightarrow> SplitDirection \<Rightarrow> SplitPlace \<Rightarrow> GridNode option
      \<Rightarrow> bool \<times> GridNode \<times> GridNode option" where
  "split_in (Pane pid sid h) target direction place slot =
     (if pid = target then
        (case slot of
           None \<Rightarrow> (False, Pane pid sid h, None)
         | Some np \<Rightarrow>
             (True,
              (case place of
                 First \<Rightarrow> Split direction DEFAULT_RATIO np (Pane pid sid h)
               | Second \<Rightarrow> Split direction DEFAULT_RATIO (Pane pid sid h) np),
              None))
      else (False, Pane pid sid h, slot))"
| "split_in (Split d r a b) target direction place slot =
     (case split_in a target direction place slot of (done_a, a', np) \<Rightarrow>
        if done_a then (True, Split d r a' b, np)
        else (case split_in b target direction place np of (done_b, b', np') \<Rightarrow>
                (done_b, Split d r a' b', np')))"

definition split_pane ::
    "GridNode \<Rightarrow> string \<Rightarrow> SplitDirection \<Rightarrow> SplitPlace \<Rightarrow> GridNode
      \<Rightarrow> tab_error + (string \<times> GridNode)" where
  "split_pane node target direction place fresh_pane =
     (case fresh_pane of
        Split _ _ _ _ \<Rightarrow> Err NewNodeNotPane
      | Pane new_pane_id _ _ \<Rightarrow>
          (case split_in node target direction place (Some fresh_pane) of (found, node', _) \<Rightarrow>
             if found then Ok (new_pane_id, node') else Err (PaneNotFound target)))"

fun is_pane :: "string \<Rightarrow> GridNode \<Rightarrow> bool" where
  "is_pane target (Pane pid _ _) = (pid = target)"
| "is_pane target (Split _ _ _ _) = False"

fun remove_pane_in_split :: "GridNode \<Rightarrow> string \<Rightarrow> bool \<times> GridNode" where
  "remove_pane_in_split (Pane pid sid h) target = (False, Pane pid sid h)"
| "remove_pane_in_split (Split d r a b) target =
     (if is_pane target a then (True, b)
      else if is_pane target b then (True, a)
      else (case remove_pane_in_split a target of (found_a, a') \<Rightarrow>
              if found_a then (True, Split d r a' b)
              else (case remove_pane_in_split b target of (found_b, b') \<Rightarrow>
                      (found_b, Split d r a' b'))))"

text \<open>\<open>close_pane\<close>: the flag says the close emptied the tab.\<close>

definition close_pane :: "GridNode \<Rightarrow> string \<Rightarrow> tab_error + (bool \<times> GridNode)" where
  "close_pane grid target =
     (if is_pane target grid then Ok (True, grid)
      else (case remove_pane_in_split grid target of (found, grid') \<Rightarrow>
              if found then Ok (False, grid') else Err (PaneNotFound target)))"

text \<open>Walk to the split a path names; \<open>depth\<close> counts the indices already followed.\<close>

fun set_ratio_at :: "GridNode \<Rightarrow> nat \<Rightarrow> nat list \<Rightarrow> flt \<Rightarrow> tab_error + GridNode" where
  "set_ratio_at (Split d r a b) depth [] ratio = Ok (Split d (clamp_ratio ratio) a b)"
| "set_ratio_at (Pane _ _ _) depth [] ratio = Err SplitPathEnd"
| "set_ratio_at (Pane _ _ _) depth (idx # path) ratio = Err (SplitPathDepth depth)"
| "set_ratio_at (Split d r a b) depth (idx # path) ratio =
     (if idx = 0 then and_then (set_ratio_at a (Suc depth) path ratio) (\<lambda>a'. Ok (Split d r a' b))
      else if idx = 1 then and_then (set_ratio_at b (Suc depth) path ratio) (\<lambda>b'. Ok (Split d r a b'))
      else Err (SplitPathIndex idx))"

definition set_pane_ratio :: "GridNode \<Rightarrow> nat list \<Rightarrow> flt \<Rightarrow> tab_error + GridNode" where
  "set_pane_ratio grid split_path ratio = set_ratio_at grid 0 split_path ratio"

fun replace_session_in ::
    "GridNode \<Rightarrow> string \<Rightarrow> string option \<Rightarrow> string option \<Rightarrow> bool \<times> GridNode" where
  "replace_session_in (Pane pid sid h) target new_sid new_host =
     (if pid = target then (True, Pane pid new_sid new_host) else (False, Pane pid sid h))"
| "replace_session_in (Split d r a b) target new_sid new_host =
     (case replace_session_in a target new_sid new_host of (found_a, a') \<Rightarrow>
        if found_a then (True, Split d r a' b)
        else (case replace_session_in b target new_sid new_host of (found_b, b') \<Rightarrow>
                (found_b, Split d r a' b')))"

definition replace_pane_session ::
    "GridNode \<Rightarrow> string \<Rightarrow> string option \<Rightarrow> string option \<Rightarrow> tab_error + GridNode" where
  "replace_pane_session grid target sid h =
     (case replace_session_in grid target sid h of (found, grid') \<Rightarrow>
        if found then Ok grid' else Err (PaneNotFound target))"

definition swap_pane_sessions :: "GridNode \<Rightarrow> string \<Rightarrow> string \<Rightarrow> tab_error + GridNode" where
  "swap_pane_sessions grid first second =
     (if first = second then Ok grid
      else (case pane_session grid first of
              None \<Rightarrow> Err (PaneNotFound first)
            | Some (first_session, first_host) \<Rightarrow>
                (case pane_session grid second of
                   None \<Rightarrow> Err (PaneNotFound second)
                 | Some (second_session, second_host) \<Rightarrow>
                     and_then (replace_pane_session grid first second_session second_host)
                       (\<lambda>grid'. replace_pane_session grid' second first_session first_host))))"

fun prune_sessions_not_in :: "GridNode \<Rightarrow> string set \<Rightarrow> bool \<times> GridNode" where
  "prune_sessions_not_in (Pane pid sid h) keep =
     (case (h, sid) of
        (None, Some s) \<Rightarrow>
          if s \<notin> keep then (True, Pane pid None h) else (False, Pane pid sid h)
      | _ \<Rightarrow> (False, Pane pid sid h))"
| "prune_sessions_not_in (Split d r x y) keep =
     (case prune_sessions_not_in x keep of (a, x') \<Rightarrow>
        (case prune_sessions_not_in y keep of (b, y') \<Rightarrow> (a \<or> b, Split d r x' y')))"

fun rebind_grid ::
    "GridNode \<Rightarrow> string option \<Rightarrow> string \<Rightarrow> string \<Rightarrow> bool \<times> GridNode" where
  "rebind_grid (Pane pid sid h) target old new =
     (if h = target \<and> sid = Some old then (True, Pane pid (Some new) h)
      else (False, Pane pid sid h))"
| "rebind_grid (Split d r x y) target old new =
     (case rebind_grid x target old new of (a, x') \<Rightarrow>
        (case rebind_grid y target old new of (b, y') \<Rightarrow> (a \<or> b, Split d r x' y')))"

fun rehost_grid ::
    "GridNode \<Rightarrow> string \<Rightarrow> string option \<Rightarrow> string list \<Rightarrow> bool \<times> GridNode" where
  "rehost_grid (Pane pid sid h) from to session_ids =
     (let listed = (case sid of None \<Rightarrow> False | Some s \<Rightarrow> s \<in> set session_ids)
      in if h = Some from \<and> listed then (True, Pane pid sid to) else (False, Pane pid sid h))"
| "rehost_grid (Split d r x y) from to session_ids =
     (case rehost_grid x from to session_ids of (a, x') \<Rightarrow>
        (case rehost_grid y from to session_ids of (b, y') \<Rightarrow> (a \<or> b, Split d r x' y')))"

text \<open>The extracted pane, with the tree left behind.\<close>

fun extract_in_split :: "GridNode \<Rightarrow> string \<Rightarrow> (GridNode \<times> GridNode) option" where
  "extract_in_split (Pane _ _ _) target = None"
| "extract_in_split (Split d r a b) target =
     (if is_pane target a then Some (a, b)
      else if is_pane target b then Some (b, a)
      else (case extract_in_split a target of
              Some (extracted, a') \<Rightarrow> Some (extracted, Split d r a' b)
            | None \<Rightarrow>
                (case extract_in_split b target of
                   Some (extracted, b') \<Rightarrow> Some (extracted, Split d r a b')
                 | None \<Rightarrow> None)))"

text \<open>\<open>extract_pane\<close>: the pane, whether the source is now empty, and the tree left behind.\<close>

definition extract_pane :: "GridNode \<Rightarrow> string \<Rightarrow> tab_error + (GridNode \<times> bool \<times> GridNode)" where
  "extract_pane grid target =
     (if is_pane target grid then Ok (grid, True, placeholder)
      else (case extract_in_split grid target of
              Some (extracted, grid') \<Rightarrow> Ok (extracted, False, grid')
            | None \<Rightarrow> Err (PaneNotFound target)))"

fun outer_edge_layout :: "PaneDropEdge \<Rightarrow> (SplitDirection \<times> bool) option" where
  "outer_edge_layout OuterLeft = Some (Horizontal, True)"
| "outer_edge_layout OuterRight = Some (Horizontal, False)"
| "outer_edge_layout OuterTop = Some (Vertical, True)"
| "outer_edge_layout OuterBottom = Some (Vertical, False)"
| "outer_edge_layout _ = None"

fun insert_at_pane :: "GridNode \<Rightarrow> PaneDropEdge \<Rightarrow> GridNode \<Rightarrow> GridNode" where
  "insert_at_pane (Split d r a b) edge source = Split d r a b"
| "insert_at_pane (Pane pid sid h) edge source =
     (case edge of
        Replace \<Rightarrow>
          (case source of
             Pane _ src_sid src_host \<Rightarrow> Pane pid src_sid src_host
           | Split _ _ _ _ \<Rightarrow> Pane pid None None)
      | Left \<Rightarrow> Split Horizontal DEFAULT_RATIO source (Pane pid sid h)
      | Right \<Rightarrow> Split Horizontal DEFAULT_RATIO (Pane pid sid h) source
      | Top \<Rightarrow> Split Vertical DEFAULT_RATIO source (Pane pid sid h)
      | Bottom \<Rightarrow> Split Vertical DEFAULT_RATIO (Pane pid sid h) source
      | _ \<Rightarrow> Pane pid sid h)"

fun insert_in :: "GridNode \<Rightarrow> string \<Rightarrow> PaneDropEdge \<Rightarrow> GridNode \<Rightarrow> GridNode" where
  "insert_in (Pane pid sid h) target edge source =
     (if pid = target then insert_at_pane (Pane pid sid h) edge source else Pane pid sid h)"
| "insert_in (Split d r a b) target edge source =
     (if pane_exists a target then Split d r (insert_in a target edge source) b
      else Split d r a (insert_in b target edge source))"

definition insert_adjacent ::
    "GridNode \<Rightarrow> string \<Rightarrow> PaneDropEdge \<Rightarrow> GridNode \<Rightarrow> tab_error + GridNode" where
  "insert_adjacent grid dst_target edge source =
     (case outer_edge_layout edge of
        Some (direction, source_first) \<Rightarrow>
          Ok (if source_first then Split direction DEFAULT_RATIO source grid
              else Split direction DEFAULT_RATIO grid source)
      | None \<Rightarrow>
          if \<not> pane_exists grid dst_target then Err (DestinationPaneNotFound dst_target)
          else Ok (insert_in grid dst_target edge source))"

section \<open>The pane list of a tree\<close>

abbreviation pane_ids :: "GridNode \<Rightarrow> string list" where
  "pane_ids g \<equiv> map pane_id (collect_panes g)"

lemma collect_in_append: "collect_in g out = out @ collect_in g []"
proof (induction g arbitrary: out)
  case (Split d r a b)
  then show ?case by (metis append.assoc collect_in.simps(2))
qed simp

lemma collect_panes_simps [simp, pane_simps]:
  "collect_panes (Pane pid sid h) = [\<lparr>pane_id = pid, session_id = sid, host = h\<rparr>]"
  "collect_panes (Split d r a b) = collect_panes a @ collect_panes b"
  by (simp_all add: collect_panes_def collect_in_append [of b "collect_in a []"])

lemma collect_panes_not_Nil [simp]: "collect_panes g \<noteq> []"
  by (induction g) simp_all

lemma collect_to_node [simp]: "collect_panes (to_node p) = [p]"
  by (simp add: to_node_def)

lemma pane_exists_iff [simp]: "pane_exists g t \<longleftrightarrow> t \<in> set (pane_ids g)"
  by (induction g) auto

lemma is_pane_collect: "is_pane t g \<Longrightarrow> \<exists>s h. g = Pane t s h"
  by (cases g) auto

text \<open>
  Replace the pane with id \<open>t\<close> by a list of panes: the flat effect of every operation
  that acts on one pane.
\<close>

definition subst_pane :: "string \<Rightarrow> (PaneRef \<Rightarrow> PaneRef list) \<Rightarrow> PaneRef list \<Rightarrow> PaneRef list" where
  "subst_pane t f ps = concat (map (\<lambda>p. if pane_id p = t then f p else [p]) ps)"

lemma subst_pane_simps [simp]:
  "subst_pane t f [] = []"
  "subst_pane t f (p # ps) = (if pane_id p = t then f p else [p]) @ subst_pane t f ps"
  "subst_pane t f (ps @ qs) = subst_pane t f ps @ subst_pane t f qs"
  by (simp_all add: subst_pane_def)

lemma subst_pane_absent: "t \<notin> pane_id ` set ps \<Longrightarrow> subst_pane t f ps = ps"
  by (induction ps) auto

lemma subst_pane_cong:
  "(\<And>p. p \<in> set ps \<Longrightarrow> pane_id p = t \<Longrightarrow> f p = g p) \<Longrightarrow> subst_pane t f ps = subst_pane t g ps"
  by (induction ps) auto

lemma subst_pane_remove: "subst_pane t (\<lambda>_. []) ps = filter (\<lambda>p. pane_id p \<noteq> t) ps"
  by (induction ps) auto

lemma subst_pane_split:
  assumes "distinct (map pane_id ps)" and "t \<in> pane_id ` set ps"
  obtains xs p ys where "ps = xs @ p # ys" and "pane_id p = t"
    and "t \<notin> pane_id ` set xs" and "t \<notin> pane_id ` set ys"
    and "\<And>f. subst_pane t f ps = xs @ f p @ ys"
proof -
  from assms(2) obtain p where "p \<in> set ps" and t: "pane_id p = t" by auto
  then obtain xs ys where ps: "ps = xs @ p # ys" by (auto simp: in_set_conv_decomp)
  with assms(1) t have "t \<notin> pane_id ` set xs" "t \<notin> pane_id ` set ys" by auto
  with ps t show thesis by (intro that [of xs p ys]) (auto simp: subst_pane_absent)
qed

lemma mset_subst_pane:
  assumes "distinct (map pane_id ps)" and "p \<in> set ps" and "pane_id p = t"
  shows "mset (subst_pane t f ps) + {#p#} = mset ps + mset (f p)"
proof -
  from assms have "t \<in> pane_id ` set ps" by blast
  with assms(1) obtain xs q ys where *: "ps = xs @ q # ys" "pane_id q = t"
      "t \<notin> pane_id ` set xs" "t \<notin> pane_id ` set ys" "subst_pane t f ps = xs @ f q @ ys"
    by (rule subst_pane_split) blast
  with assms have "q = p" by (auto simp: image_iff)
  with * show ?thesis by simp
qed

section \<open>Ratios\<close>

definition ratio_ok :: "flt \<Rightarrow> bool" where
  "ratio_ok r \<longleftrightarrow> flt_le MIN_RATIO r \<and> flt_le r MAX_RATIO"

fun ratios_ok :: "GridNode \<Rightarrow> bool" where
  "ratios_ok (Pane _ _ _) = True"
| "ratios_ok (Split _ r a b) = (ratio_ok r \<and> ratios_ok a \<and> ratios_ok b)"

lemma min_le_max: "flt_le MIN_RATIO MAX_RATIO"
  by code_simp

lemma default_ratio_ok [simp]: "ratio_ok DEFAULT_RATIO"
  by code_simp

lemma min_max_fin: "\<exists>a b. MIN_RATIO = Fin a \<and> MAX_RATIO = Fin b \<and> a \<le> b"
  using min_le_max by (auto simp: MIN_RATIO_def MAX_RATIO_def fl_def flt_le_def)

lemma flt_clamp_between:
  "a \<le> b \<Longrightarrow> r \<noteq> NaN \<Longrightarrow>
     flt_le (Fin a) (flt_clamp r (Fin a) (Fin b)) \<and> flt_le (flt_clamp r (Fin a) (Fin b)) (Fin b)"
  by (cases r) (auto simp: flt_clamp_def flt_le_def Let_def)

lemma clamp_ratio_ok [simp]: "ratio_ok (clamp_ratio r)"
proof (cases "r = NaN")
  case True
  then show ?thesis by (simp add: clamp_ratio_def)
next
  case False
  obtain a b where ab: "MIN_RATIO = Fin a" "MAX_RATIO = Fin b" "a \<le> b"
    using min_max_fin by blast
  with False flt_clamp_between [OF ab(3) False] show ?thesis
    by (simp only: clamp_ratio_def ratio_ok_def if_False)
qed

lemma ratios_ok_to_node [simp]: "ratios_ok (to_node p)"
  by (simp add: to_node_def)

section \<open>Operations as edits of the pane list\<close>

definition split_with :: "SplitPlace \<Rightarrow> PaneRef \<Rightarrow> PaneRef \<Rightarrow> PaneRef list" where
  "split_with place np p = (case place of First \<Rightarrow> [np, p] | Second \<Rightarrow> [p, np])"

lemma split_in_absent:
  "t \<notin> set (pane_ids g) \<Longrightarrow> split_in g t d pl slot = (False, g, slot)"
  by (induction g arbitrary: slot) auto

lemma split_in_present:
  assumes "distinct (pane_ids g)" and "t \<in> set (pane_ids g)"
  shows "\<exists>g'. split_in g t d pl (Some np) = (True, g', None) \<and>
    (\<forall>q. collect_panes np = [q] \<longrightarrow>
       collect_panes g' = subst_pane t (split_with pl q) (collect_panes g)) \<and>
    (ratios_ok g \<longrightarrow> ratios_ok np \<longrightarrow> ratios_ok g')"
  using assms
proof (induction g)
  case (Pane pid sid h)
  then show ?case by (auto simp: split_with_def split: SplitPlace.splits)
next
  case (Split dir r a b)
  show ?case
  proof (cases "t \<in> set (pane_ids a)")
    case True
    with Split.prems have "t \<notin> set (pane_ids b)" by auto
    with True Split show ?thesis by (auto simp: subst_pane_absent)
  next
    case False
    with Split show ?thesis by (auto simp: split_in_absent subst_pane_absent)
  qed
qed

lemma split_pane_absent:
  "t \<notin> set (pane_ids g) \<Longrightarrow> split_pane g t d pl (Pane npid s h) = Err (PaneNotFound t)"
  by (simp add: split_pane_def split_in_absent)

lemma split_pane_present:
  assumes "distinct (pane_ids g)" and "t \<in> set (pane_ids g)"
  obtains g' where "split_pane g t d pl (Pane npid s h) = Ok (npid, g')"
    and "collect_panes g' =
      subst_pane t (split_with pl \<lparr>pane_id = npid, session_id = s, host = h\<rparr>) (collect_panes g)"
    and "ratios_ok g \<Longrightarrow> ratios_ok g'"
  using split_in_present [OF assms, of d pl "Pane npid s h"] that
  by (auto simp: split_pane_def)

lemma extract_in_split_absent:
  "t \<notin> set (pane_ids g) \<Longrightarrow> extract_in_split g t = None"
  by (induction g) (auto dest: is_pane_collect)

lemma extract_in_split_present:
  assumes "distinct (pane_ids g)" and "t \<in> set (pane_ids g)" and "\<not> is_pane t g"
  shows "\<exists>s h g'. extract_in_split g t = Some (Pane t s h, g') \<and>
    \<lparr>pane_id = t, session_id = s, host = h\<rparr> \<in> set (collect_panes g) \<and>
    collect_panes g' = subst_pane t (\<lambda>_. []) (collect_panes g) \<and>
    (ratios_ok g \<longrightarrow> ratios_ok g')"
  using assms
proof (induction g)
  case (Split dir r a b)
  show ?case
  proof (cases "is_pane t a \<or> is_pane t b")
    case True
    with Split.prems(1) show ?thesis
      by (auto dest!: is_pane_collect simp: subst_pane_absent)
  next
    case False
    show ?thesis
    proof (cases "t \<in> set (pane_ids a)")
      case True
      with Split.prems have tb: "t \<notin> set (pane_ids b)" by auto
      from Split.prems True False obtain s h a' where
          "extract_in_split a t = Some (Pane t s h, a')"
          "\<lparr>pane_id = t, session_id = s, host = h\<rparr> \<in> set (collect_panes a)"
          "collect_panes a' = subst_pane t (\<lambda>_. []) (collect_panes a)"
          "ratios_ok a \<longrightarrow> ratios_ok a'"
        using Split.IH(1) by auto
      with False tb show ?thesis by (auto simp: subst_pane_absent)
    next
      case ta: False
      from Split.prems ta False obtain s h b' where
          "extract_in_split b t = Some (Pane t s h, b')"
          "\<lparr>pane_id = t, session_id = s, host = h\<rparr> \<in> set (collect_panes b)"
          "collect_panes b' = subst_pane t (\<lambda>_. []) (collect_panes b)"
          "ratios_ok b \<longrightarrow> ratios_ok b'"
        using Split.IH(2) by auto
      with False ta show ?thesis
        by (auto simp: subst_pane_absent extract_in_split_absent)
    qed
  qed
qed simp

lemma remove_pane_eq_extract:
  "remove_pane_in_split g t =
     (case extract_in_split g t of None \<Rightarrow> (False, g) | Some (_, g') \<Rightarrow> (True, g'))"
  by (induction g) (auto split: option.splits prod.splits)

lemma extract_pane_absent:
  "t \<notin> set (pane_ids g) \<Longrightarrow> extract_pane g t = Err (PaneNotFound t)"
  by (auto simp: extract_pane_def extract_in_split_absent dest: is_pane_collect)

lemma extract_pane_single: "is_pane t g \<Longrightarrow> extract_pane g t = Ok (g, True, placeholder)"
  by (simp add: extract_pane_def)

lemma extract_pane_present:
  assumes "distinct (pane_ids g)" and "t \<in> set (pane_ids g)" and "\<not> is_pane t g"
  obtains s h g' where "extract_pane g t = Ok (Pane t s h, False, g')"
    and "\<lparr>pane_id = t, session_id = s, host = h\<rparr> \<in> set (collect_panes g)"
    and "collect_panes g' = filter (\<lambda>p. pane_id p \<noteq> t) (collect_panes g)"
    and "ratios_ok g \<Longrightarrow> ratios_ok g'"
  using extract_in_split_present [OF assms] assms(3) that
  by (auto simp: extract_pane_def subst_pane_remove)

lemma close_pane_extract:
  "close_pane g t =
     (case extract_pane g t of
        Err e \<Rightarrow> Err e
      | Ok (_, emptied, g') \<Rightarrow> Ok (emptied, if emptied then g else g'))"
  by (auto simp: close_pane_def extract_pane_def remove_pane_eq_extract split: option.splits prod.splits)

lemma replace_session_in_absent:
  "t \<notin> set (pane_ids g) \<Longrightarrow> replace_session_in g t s h = (False, g)"
  by (induction g) auto

lemma replace_session_in_present:
  assumes "distinct (pane_ids g)" and "t \<in> set (pane_ids g)"
  shows "\<exists>g'. replace_session_in g t s h = (True, g') \<and>
    collect_panes g' = subst_pane t (\<lambda>p. [p\<lparr>session_id := s, host := h\<rparr>]) (collect_panes g) \<and>
    (ratios_ok g \<longrightarrow> ratios_ok g')"
  using assms
proof (induction g)
  case (Split dir r a b)
  show ?case
  proof (cases "t \<in> set (pane_ids a)")
    case True
    with Split.prems have "t \<notin> set (pane_ids b)" by auto
    with True Split show ?thesis by (auto simp: subst_pane_absent)
  next
    case False
    with Split show ?thesis by (auto simp: replace_session_in_absent subst_pane_absent)
  qed
qed auto

lemma pane_session_eq:
  "pane_session g t =
     map_option (\<lambda>p. (session_id p, host p)) (List.find (\<lambda>p. pane_id p = t) (collect_panes g))"
proof (induction g)
  case (Split d r a b)
  have "List.find P (xs @ ys) = (case List.find P xs of None \<Rightarrow> List.find P ys | Some x \<Rightarrow> Some x)"
    for P :: "PaneRef \<Rightarrow> bool" and xs ys
    by (induction xs) auto
  with Split show ?case by (auto split: option.splits)
qed simp

lemma prune_sessions_collect:
  "collect_panes (snd (prune_sessions_not_in g keep)) =
     map (\<lambda>p. if host p = None \<and> (\<exists>s. session_id p = Some s \<and> s \<notin> keep)
              then p\<lparr>session_id := None\<rparr> else p) (collect_panes g)"
  by (induction g) (auto split: option.splits prod.splits simp: case_prod_beta)

lemma rebind_grid_collect:
  "collect_panes (snd (rebind_grid g target old new)) =
     map (\<lambda>p. if host p = target \<and> session_id p = Some old
              then p\<lparr>session_id := Some new\<rparr> else p) (collect_panes g)"
  by (induction g) (auto split: prod.splits simp: case_prod_beta)

lemma rebind_grid_flag:
  "fst (rebind_grid g target old new) \<longleftrightarrow>
     (\<exists>p \<in> set (collect_panes g). host p = target \<and> session_id p = Some old)"
  by (induction g) (auto split: prod.splits simp: case_prod_beta)

lemma rehost_grid_collect:
  "collect_panes (snd (rehost_grid g from to sids)) =
     map (\<lambda>p. if host p = Some from \<and> (\<exists>s \<in> set sids. session_id p = Some s)
              then p\<lparr>host := to\<rparr> else p) (collect_panes g)"
  by (induction g) (auto split: prod.splits option.splits simp: case_prod_beta Let_def)

lemma prune_sessions_flag:
  "fst (prune_sessions_not_in g keep) \<longleftrightarrow>
     (\<exists>p \<in> set (collect_panes g). host p = None \<and> (\<exists>s. session_id p = Some s \<and> s \<notin> keep))"
  by (induction g) (auto split: option.splits prod.splits simp: case_prod_beta)

lemma rehost_grid_flag:
  "fst (rehost_grid g from to sids) \<longleftrightarrow>
     (\<exists>p \<in> set (collect_panes g). host p = Some from \<and> (\<exists>s \<in> set sids. session_id p = Some s))"
  by (induction g) (auto split: prod.splits option.splits simp: case_prod_beta Let_def)

lemma edit_idle_simps:
  "\<not> fst (prune_sessions_not_in g keep) \<Longrightarrow> snd (prune_sessions_not_in g keep) = g"
  "\<not> fst (rebind_grid g target old new) \<Longrightarrow> snd (rebind_grid g target old new) = g"
  "\<not> fst (rehost_grid g from to sids) \<Longrightarrow> snd (rehost_grid g from to sids) = g"
  by (induction g) (auto split: prod.splits option.splits simp: case_prod_beta Let_def)

lemma edit_ratios:
  "ratios_ok (snd (prune_sessions_not_in g keep)) = ratios_ok g"
  "ratios_ok (snd (rebind_grid g target old new)) = ratios_ok g"
  "ratios_ok (snd (rehost_grid g from to sids)) = ratios_ok g"
  by (induction g) (auto split: prod.splits option.splits simp: case_prod_beta Let_def)

section \<open>Rebinding edits\<close>

text \<open>
  The contract of a bulk edit that changes bindings only: the panes a predicate picks are
  rewritten in place, their ids stay, and the flag says whether any was picked.
\<close>

locale pane_edit =
  fixes edit :: "GridNode \<Rightarrow> bool \<times> GridNode"
    and picks :: "PaneRef \<Rightarrow> bool"
    and rewrite :: "PaneRef \<Rightarrow> PaneRef"
  assumes edit_panes: "collect_panes (snd (edit g)) =
      map (\<lambda>p. if picks p then rewrite p else p) (collect_panes g)"
    and edit_flag: "fst (edit g) \<longleftrightarrow> (\<exists>p \<in> set (collect_panes g). picks p)"
    and edit_idle: "\<not> fst (edit g) \<Longrightarrow> snd (edit g) = g"
    and edit_ratios_ok: "ratios_ok (snd (edit g)) \<longleftrightarrow> ratios_ok g"
    and rewrite_id: "pane_id (rewrite p) = pane_id p"
begin

definition apply_edit :: "PaneRef \<Rightarrow> PaneRef" where
  "apply_edit p = (if picks p then rewrite p else p)"

lemma apply_edit_id [simp]: "pane_id (apply_edit p) = pane_id p"
  by (simp add: apply_edit_def rewrite_id)

lemma edit_panes': "collect_panes (snd (edit g)) = map apply_edit (collect_panes g)"
  by (simp add: edit_panes apply_edit_def cong: map_cong)

lemma edit_ids: "pane_ids (snd (edit g)) = pane_ids g"
  by (simp add: edit_panes')

end

interpretation prune: pane_edit "\<lambda>g. prune_sessions_not_in g keep"
    "\<lambda>p. host p = None \<and> (\<exists>s. session_id p = Some s \<and> s \<notin> keep)" "\<lambda>p. p\<lparr>session_id := None\<rparr>"
  for keep
  by unfold_locales
     (simp_all add: prune_sessions_collect prune_sessions_flag edit_ratios edit_idle_simps)

interpretation rebind: pane_edit "\<lambda>g. rebind_grid g target old new"
    "\<lambda>p. host p = target \<and> session_id p = Some old" "\<lambda>p. p\<lparr>session_id := Some new\<rparr>"
  for target old new
  by unfold_locales
     (simp_all add: rebind_grid_collect rebind_grid_flag edit_ratios edit_idle_simps)

interpretation rehost: pane_edit "\<lambda>g. rehost_grid g from to sids"
    "\<lambda>p. host p = Some from \<and> (\<exists>s \<in> set sids. session_id p = Some s)" "\<lambda>p. p\<lparr>host := to\<rparr>"
  for "from" to sids
  by unfold_locales
     (simp_all add: rehost_grid_collect rehost_grid_flag edit_ratios edit_idle_simps)

section \<open>Insertion\<close>

definition insert_with :: "PaneDropEdge \<Rightarrow> PaneRef list \<Rightarrow> PaneRef \<Rightarrow> PaneRef list" where
  "insert_with edge qs p =
     (if edge = Replace then
        (case qs of [q] \<Rightarrow> [p\<lparr>session_id := session_id q, host := host q\<rparr>]
         | _ \<Rightarrow> [p\<lparr>session_id := None, host := None\<rparr>])
      else if edge = Left \<or> edge = Top then qs @ [p] else p # qs)"

lemma case_append_not_single:
  "xs \<noteq> [] \<Longrightarrow> ys \<noteq> [] \<Longrightarrow> (case xs @ ys of [] \<Rightarrow> z | [q] \<Rightarrow> f q | q # r # rs \<Rightarrow> z) = z"
  by (cases xs; cases ys) (auto simp: neq_Nil_conv split: list.splits)

lemma insert_at_pane_collect:
  "outer_edge_layout edge = None \<Longrightarrow>
     collect_panes (insert_at_pane (Pane pid sid h) edge src) =
       insert_with edge (collect_panes src) \<lparr>pane_id = pid, session_id = sid, host = h\<rparr>"
  by (cases edge; cases src) (simp_all add: insert_with_def case_append_not_single)

lemma insert_at_pane_ratios:
  "ratios_ok src \<Longrightarrow> ratios_ok (insert_at_pane (Pane pid sid h) edge src)"
  by (cases edge; cases src) simp_all

lemma insert_in_collect:
  assumes "distinct (pane_ids g)" and "t \<in> set (pane_ids g)" and "outer_edge_layout edge = None"
  shows "collect_panes (insert_in g t edge src) =
      subst_pane t (insert_with edge (collect_panes src)) (collect_panes g)"
    and "ratios_ok g \<Longrightarrow> ratios_ok src \<Longrightarrow> ratios_ok (insert_in g t edge src)"
  using assms
proof (induction g)
  case (Pane pid sid h)
  case 1
  then show ?case by (simp add: insert_at_pane_collect del: insert_at_pane.simps)
next
  case (Pane pid sid h)
  case 2
  then show ?case by (simp add: insert_at_pane_ratios del: insert_at_pane.simps)
next
  case (Split d r a b)
  case 1
  show ?case
  proof (cases "t \<in> set (pane_ids a)")
    case True
    with 1 have "t \<notin> set (pane_ids b)" by auto
    with True 1 Split.IH(1) show ?thesis by (simp add: subst_pane_absent)
  next
    case False
    with 1 Split.IH(3) show ?thesis by (simp add: subst_pane_absent)
  qed
next
  case (Split d r a b)
  case 2
  then show ?case
    using Split by (cases "t \<in> set (pane_ids a)") auto
qed

lemma is_pane_iff: "is_pane t g \<longleftrightarrow> pane_ids g = [t]"
  by (cases g) (auto simp: append_eq_Cons_conv)

lemma close_pane_present:
  assumes "distinct (pane_ids g)" and "t \<in> set (pane_ids g)" and "pane_ids g \<noteq> [t]"
  obtains g' where "close_pane g t = Ok (False, g')"
    and "collect_panes g' = filter (\<lambda>p. pane_id p \<noteq> t) (collect_panes g)"
    and "ratios_ok g \<Longrightarrow> ratios_ok g'"
proof -
  from assms(3) have "\<not> is_pane t g" by (simp add: is_pane_iff)
  from extract_pane_present [OF assms(1,2) this] obtain s h g' where
      "extract_pane g t = Ok (Pane t s h, False, g')"
      "collect_panes g' = filter (\<lambda>p. pane_id p \<noteq> t) (collect_panes g)"
      "ratios_ok g \<Longrightarrow> ratios_ok g'" by blast
  then show thesis by (intro that [of g']) (simp_all add: close_pane_extract)
qed

lemma close_pane_last: "pane_ids g = [t] \<Longrightarrow> close_pane g t = Ok (True, g)"
  by (simp add: close_pane_def is_pane_iff)

lemma close_pane_absent:
  "t \<notin> set (pane_ids g) \<Longrightarrow> close_pane g t = Err (PaneNotFound t)"
  by (simp add: close_pane_extract extract_pane_absent)

lemma set_ratio_at_collect:
  "set_ratio_at g n path r = Ok g' \<Longrightarrow>
     collect_panes g' = collect_panes g \<and> (ratios_ok g \<longrightarrow> ratios_ok g')"
  by (induction g n path r arbitrary: g' rule: set_ratio_at.induct)
     (auto simp: and_then_eq_Inr split: if_splits)

end
