(* ===== verification/Layout.thy ===== *)
theory Layout
  imports Grid
begin

text \<open>
  The layout builders of \<open>crates/daemon/src/tabs.rs\<close>: balanced strips, two-dimensional
  grids and the automatic column count. They take a list of panes and build a tree whose
  panes, left to right, are that list (\<open>layout_builder\<close>).

  A builder answers \<open>None\<close> for the empty list. The inner recursions guard the empty list
  with a debug assertion only; there they answer \<open>None\<close> too, and no caller reaches that.
  \<open>f64::ln\<close> has no specified precision in Rust, so it is the parameter \<open>ln64\<close>.
\<close>

section \<open>Definitions\<close>

datatype RearrangeLayout =
    LayoutHorizontal
  | LayoutVertical
  | LayoutBalanced
  | LayoutGrid nat "flt option"
  | LayoutUnknown

text \<open>\<open>(mid as f32) / (n as f32)\<close>: both conversions and the division round.\<close>

definition f32_ratio :: "nat \<Rightarrow> nat \<Rightarrow> flt" where
  "f32_ratio mid n = fl 24 (round_sig 24 (of_nat mid) / round_sig 24 (of_nat n))"

function build_balanced_inner :: "PaneRef list \<Rightarrow> SplitDirection \<Rightarrow> GridNode option" where
  "build_balanced_inner panes direction =
     (if panes = [] then None
      else if length panes = 1 then Some (to_node (panes ! 0))
      else let n = length panes; mid = n div 2 in
        (case (build_balanced_inner (take mid panes) direction,
               build_balanced_inner (drop mid panes) direction) of
           (Some fst_half, Some snd_half) \<Rightarrow>
             Some (Split direction (clamp_ratio (f32_ratio mid n)) fst_half snd_half)
         | _ \<Rightarrow> None))"
  by pat_completeness auto
termination
  by (relation "measure (\<lambda>(panes, direction). length panes)") (auto simp: Suc_lessI neq_Nil_conv)

declare build_balanced_inner.simps [simp del]

definition build_balanced :: "PaneRef list \<Rightarrow> SplitDirection \<Rightarrow> GridNode option" where
  "build_balanced panes direction =
     (if panes = [] then None else build_balanced_inner panes direction)"

text \<open>
  \<open>ceil(sqrt(n))\<close>. The conversion to \<open>f64\<close> and the correctly rounded square root do not change the
  ceiling while \<open>n\<close> is below \<open>2 ^ 50\<close>.
\<close>

definition auto_grid_cols :: "nat \<Rightarrow> nat" where
  "auto_grid_cols n = (if n = 0 then 1 else max (nat \<lceil>sqrt (real n)\<rceil>) 1)"

definition as_f64 :: "nat \<Rightarrow> rat" where
  "as_f64 n = of_nat (min n (2 ^ 32 - 1))"

definition div_ceil :: "nat \<Rightarrow> nat \<Rightarrow> nat" where
  "div_ceil n d = n div d + (if n mod d > 0 then 1 else 0)"

text \<open>The score of \<open>cols\<close> columns: distance of the cells from square, plus the penalties.\<close>

definition grid_score :: "(flt \<Rightarrow> flt) \<Rightarrow> nat \<Rightarrow> rat \<Rightarrow> nat \<Rightarrow> flt" where
  "grid_score ln64 n aspect cols =
     (let rows = div_ceil n cols;
          empties = rows * cols - n;
          cell_aspect = fl 53 (round_sig 53 (aspect * as_f64 rows) / as_f64 cols);
          weight = fl 53 (round_sig 53 (3 / 10) * as_f64 empties);
          score = flt_add 53 (flt_abs (ln64 cell_aspect)) weight
      in if (cols = 1 \<or> cols = n) \<and> 5 \<le> n then flt_add 53 score (fl 53 (4 / 10)) else score)"

fun best_fit_loop :: "(nat \<Rightarrow> flt) \<Rightarrow> nat list \<Rightarrow> nat \<Rightarrow> flt \<Rightarrow> nat" where
  "best_fit_loop score [] best best_score = best"
| "best_fit_loop score (cols # rest) best best_score =
     (if flt_lt (score cols) best_score then best_fit_loop score rest cols (score cols)
      else best_fit_loop score rest best best_score)"

definition best_fit_grid_cols :: "(flt \<Rightarrow> flt) \<Rightarrow> nat \<Rightarrow> flt \<Rightarrow> nat" where
  "best_fit_grid_cols ln64 n aspect =
     (if n \<le> 1 then 1
      else let a = (case aspect of Fin q \<Rightarrow> (if 0 < q then q else round_sig 53 (16 / 9))
                    | _ \<Rightarrow> round_sig 53 (16 / 9))
           in best_fit_loop (grid_score ln64 n a) [1..<Suc n] 1 PosInf)"

definition auto_cols :: "(flt \<Rightarrow> flt) \<Rightarrow> nat \<Rightarrow> flt option \<Rightarrow> nat" where
  "auto_cols ln64 n aspect =
     (case aspect of
        Some a \<Rightarrow> min (best_fit_grid_cols ln64 n a) (2 ^ 32 - 1)
      | None \<Rightarrow> auto_grid_cols n)"

text \<open>\<open>slice::chunks\<close>; a chunk size of 0 panics, and \<open>build_grid\<close> never asks for one.\<close>

function chunks :: "nat \<Rightarrow> 'a list \<Rightarrow> 'a list list" where
  "chunks k xs = (if xs = [] \<or> k = 0 then [] else take k xs # chunks k (drop k xs))"
  by pat_completeness auto
termination
  by (relation "measure (\<lambda>(k, xs). length xs)") auto

declare chunks.simps [simp del]

function stack_balanced :: "GridNode list \<Rightarrow> SplitDirection \<Rightarrow> GridNode option" where
  "stack_balanced nodes direction =
     (if nodes = [] then None
      else if length nodes = 1 then Some (nodes ! 0)
      else let n = length nodes; mid = n div 2 in
        (case (stack_balanced (take mid nodes) direction,
               stack_balanced (drop mid nodes) direction) of
           (Some fst_half, Some snd_half) \<Rightarrow>
             Some (Split direction (clamp_ratio (f32_ratio mid n)) fst_half snd_half)
         | _ \<Rightarrow> None))"
  by pat_completeness auto
termination
  by (relation "measure (\<lambda>(nodes, direction). length nodes)") (auto simp: Suc_lessI neq_Nil_conv)

declare stack_balanced.simps [simp del]

definition build_grid ::
    "(flt \<Rightarrow> flt) \<Rightarrow> PaneRef list \<Rightarrow> nat \<Rightarrow> flt option \<Rightarrow> GridNode option" where
  "build_grid ln64 panes cols aspect =
     (if panes = [] then None
      else let cols' = (if cols = 0 then auto_cols ln64 (length panes) aspect else cols) in
        (case those (map (\<lambda>chunk. build_balanced chunk Horizontal) (chunks cols' panes)) of
           None \<Rightarrow> None
         | Some row_nodes \<Rightarrow> stack_balanced row_nodes Vertical))"

definition build_for_layout ::
    "(flt \<Rightarrow> flt) \<Rightarrow> PaneRef list \<Rightarrow> RearrangeLayout \<Rightarrow> GridNode option" where
  "build_for_layout ln64 panes layout =
     (case layout of
        LayoutHorizontal \<Rightarrow> build_balanced panes Horizontal
      | LayoutBalanced \<Rightarrow> build_balanced panes Horizontal
      | LayoutVertical \<Rightarrow> build_balanced panes Vertical
      | LayoutGrid cols aspect \<Rightarrow> build_grid ln64 panes cols aspect
      | LayoutUnknown \<Rightarrow> build_balanced panes Horizontal)"

definition rearrange_grid ::
    "(flt \<Rightarrow> flt) \<Rightarrow> GridNode \<Rightarrow> RearrangeLayout \<Rightarrow> tab_error + GridNode" where
  "rearrange_grid ln64 grid layout =
     (let all_panes = collect_panes grid in
      if all_panes = [] then Err EmptyRearrange
      else let bound = filter (\<lambda>pane. session_id pane \<noteq> None) all_panes;
               panes = (if bound = [] then all_panes else bound)
           in (case build_for_layout ln64 panes layout of
                 Some g \<Rightarrow> Ok g
               | None \<Rightarrow> Err RearrangeProducedEmpty))"

definition built_layout :: "RearrangeLayout \<Rightarrow> RearrangeLayout" where
  "built_layout layout = (case layout of LayoutUnknown \<Rightarrow> LayoutBalanced | other \<Rightarrow> other)"

definition is_auto_refit :: "RearrangeLayout option \<Rightarrow> RearrangeLayout \<Rightarrow> bool" where
  "is_auto_refit picked layout =
     ((case picked of Some (LayoutGrid cols _) \<Rightarrow> cols = 0 | _ \<Rightarrow> False) \<and>
      (case layout of LayoutGrid cols _ \<Rightarrow> cols = 0 | _ \<Rightarrow> False))"

text \<open>The column count by search: an equation for \<open>auto_grid_cols\<close> that evaluates.\<close>

function ceil_sqrt_from :: "nat \<Rightarrow> nat \<Rightarrow> nat" where
  "ceil_sqrt_from n k = (if n \<le> k * k then k else ceil_sqrt_from n (Suc k))"
  by pat_completeness auto
termination
proof (relation "measure (\<lambda>(n, k). n - k)")
  fix n k :: nat
  assume "\<not> n \<le> k * k"
  then have "k < n" by (metis le_square linorder_not_less order_trans)
  then show "((n, Suc k), n, k) \<in> measure (\<lambda>(n, k). n - k)" by simp
qed simp

declare ceil_sqrt_from.simps [simp del]

section \<open>The contract of a builder\<close>

text \<open>
  Every builder lays out exactly the panes it is given, in order, with all ratios in range.
  What the tab operations need of a rebuild follows from that alone.
\<close>

locale layout_builder =
  fixes build :: "PaneRef list \<Rightarrow> GridNode option"
  assumes build_Nil: "build [] = None"
    and build_panes: "ps \<noteq> [] \<Longrightarrow> \<exists>g. build ps = Some g \<and> collect_panes g = ps \<and> ratios_ok g"
begin

lemma build_None_iff: "build ps = None \<longleftrightarrow> ps = []"
  using build_Nil build_panes by (cases "ps = []") force+

lemma build_SomeD:
  assumes "build ps = Some g"
  shows "collect_panes g = ps" and "ratios_ok g"
proof -
  from assms build_Nil have "ps \<noteq> []" by auto
  with assms build_panes show "collect_panes g = ps" "ratios_ok g" by force+
qed

lemma rebuild_total:
  obtains g' where "build (collect_panes g) = Some g'"
    and "collect_panes g' = collect_panes g" and "ratios_ok g'"
  using build_panes [OF collect_panes_not_Nil [of g]] by blast

lemma rebuild_idem:
  "build (collect_panes g) = Some g' \<Longrightarrow> build (collect_panes g') = Some g'"
  by (simp add: build_SomeD)

end

section \<open>Balanced strips\<close>

fun height :: "GridNode \<Rightarrow> nat" where
  "height (Pane _ _ _) = 0"
| "height (Split _ _ a b) = Suc (max (height a) (height b))"

lemma halves_not_Nil:
  "1 < length xs \<Longrightarrow> take (length xs div 2) xs \<noteq> [] \<and> drop (length xs div 2) xs \<noteq> []"
  by (cases xs) auto

lemma build_balanced_inner_spec:
  "ps \<noteq> [] \<Longrightarrow> \<exists>g. build_balanced_inner ps d = Some g \<and> collect_panes g = ps \<and> ratios_ok g \<and>
     2 ^ height g < 2 * length ps"
proof (induction ps d rule: build_balanced_inner.induct)
  case (1 ps d)
  show ?case
  proof (cases "length ps = 1")
    case True
    then obtain p where "ps = [p]" by (auto simp: length_Suc_conv)
    then show ?thesis by (simp add: build_balanced_inner.simps [of "[p]"] to_node_def)
  next
    case False
    define mid where "mid = length ps div 2"
    from False "1.prems" have len: "1 < length ps" by (cases ps) auto
    have *: "take mid ps \<noteq> []" "drop mid ps \<noteq> []"
      using halves_not_Nil [OF len] by (simp_all add: mid_def)
    from "1.IH"(1) [OF "1.prems" False refl mid_def * (1)] obtain ga where
      ga: "build_balanced_inner (take mid ps) d = Some ga" "collect_panes ga = take mid ps"
        "ratios_ok ga" "2 ^ height ga < 2 * length (take mid ps)" by blast
    from "1.IH"(2) [OF "1.prems" False refl mid_def * (2)] obtain gb where
      gb: "build_balanced_inner (drop mid ps) d = Some gb" "collect_panes gb = drop mid ps"
        "ratios_ok gb" "2 ^ height gb < 2 * length (drop mid ps)" by blast
    let ?g = "Split d (clamp_ratio (f32_ratio mid (length ps))) ga gb"
    have "build_balanced_inner ps d = Some ?g"
      using "1.prems" False ga(1) gb(1)
      by (simp add: build_balanced_inner.simps [of ps] Let_def mid_def)
    moreover have "2 ^ height ?g < 2 * length ps"
    proof -
      have half: "2 ^ h < length ps" if "2 ^ h < 2 * m" "m \<le> length ps - mid" "0 < m" for h m
      proof (cases h)
        case 0
        with len show ?thesis by simp
      next
        case (Suc k)
        with that show ?thesis by (simp add: mid_def)
      qed
      have "2 ^ height ga < length ps" "2 ^ height gb < length ps"
        using half [OF ga(4)] half [OF gb(4)] len by (auto simp: mid_def)
      then show ?thesis by (simp add: max_def)
    qed
    ultimately show ?thesis using ga gb by auto
  qed
qed

lemma build_balanced_Nil: "build_balanced [] d = None"
  by (simp add: build_balanced_def)

interpretation balanced: layout_builder "\<lambda>panes. build_balanced panes direction"
  for direction
  by unfold_locales
     (auto simp: build_balanced_def dest: build_balanced_inner_spec [of _ direction])

section \<open>Grids\<close>

lemma concat_chunks: "0 < k \<Longrightarrow> concat (chunks k xs) = xs"
proof (induction k xs rule: chunks.induct)
  case (1 k xs)
  then show ?case
    by (cases "xs = []") (simp_all add: chunks.simps [of k xs] chunks.simps [of k "[]"])
qed

lemma chunks_bounds: "c \<in> set (chunks k xs) \<Longrightarrow> c \<noteq> [] \<and> length c \<le> k"
proof (induction k xs rule: chunks.induct)
  case (1 k xs)
  then show ?case
    by (auto simp: chunks.simps [of k xs] split: if_splits)
qed

lemma chunks_not_Nil: "0 < k \<Longrightarrow> xs \<noteq> [] \<Longrightarrow> chunks k xs \<noteq> []"
  by (simp add: chunks.simps [of k xs])

lemma those_map_Some:
  "(\<And>x. x \<in> set xs \<Longrightarrow> \<exists>y. f x = Some y \<and> P x y) \<Longrightarrow>
     \<exists>ys. those (map f xs) = Some ys \<and> list_all2 P xs ys"
proof (induction xs)
  case (Cons a xs)
  then obtain y ys where "f a = Some y" "P a y" "those (map f xs) = Some ys" "list_all2 P xs ys"
    by (metis list.set_intros)
  then show ?case by auto
qed simp

lemma stack_balanced_spec:
  "ns \<noteq> [] \<Longrightarrow> \<exists>g. stack_balanced ns d = Some g \<and>
     collect_panes g = concat (map collect_panes ns) \<and>
     ((\<forall>n \<in> set ns. ratios_ok n) \<longrightarrow> ratios_ok g)"
proof (induction ns d rule: stack_balanced.induct)
  case (1 ns d)
  show ?case
  proof (cases "length ns = 1")
    case True
    then obtain p where "ns = [p]" by (auto simp: length_Suc_conv)
    then show ?thesis by (simp add: stack_balanced.simps [of "[p]"])
  next
    case False
    define mid where "mid = length ns div 2"
    from False "1.prems" have len: "1 < length ns" by (cases ns) auto
    have *: "take mid ns \<noteq> []" "drop mid ns \<noteq> []"
      using halves_not_Nil [OF len] by (simp_all add: mid_def)
    from "1.IH"(1) [OF "1.prems" False refl mid_def * (1)] obtain ga where
      ga: "stack_balanced (take mid ns) d = Some ga"
        "collect_panes ga = concat (map collect_panes (take mid ns))"
        "(\<forall>n \<in> set (take mid ns). ratios_ok n) \<longrightarrow> ratios_ok ga" by blast
    from "1.IH"(2) [OF "1.prems" False refl mid_def * (2)] obtain gb where
      gb: "stack_balanced (drop mid ns) d = Some gb"
        "collect_panes gb = concat (map collect_panes (drop mid ns))"
        "(\<forall>n \<in> set (drop mid ns). ratios_ok n) \<longrightarrow> ratios_ok gb" by blast
    have "concat (map collect_panes (take mid ns)) @ concat (map collect_panes (drop mid ns)) =
        concat (map collect_panes ns)"
      by (metis append_take_drop_id concat_append map_append)
    with "1.prems" False ga gb show ?thesis
      by (auto simp: stack_balanced.simps [of ns] Let_def mid_def dest: in_set_takeD in_set_dropD)
  qed
qed

lemma ceil_sqrt_from_spec:
  "(0 < k \<longrightarrow> (k - 1) * (k - 1) < n) \<Longrightarrow>
     n \<le> ceil_sqrt_from n k * ceil_sqrt_from n k \<and>
     (0 < ceil_sqrt_from n k \<longrightarrow> (ceil_sqrt_from n k - 1) * (ceil_sqrt_from n k - 1) < n)"
proof (induction n k rule: ceil_sqrt_from.induct)
  case (1 n k)
  then show ?case
    by (cases "n \<le> k * k") (simp_all add: ceil_sqrt_from.simps [of n k])
qed

lemma auto_grid_cols_code [code]:
  "auto_grid_cols n = (if n = 0 then 1 else ceil_sqrt_from n 0)"
proof (cases "n = 0")
  case True
  then show ?thesis by (simp add: auto_grid_cols_def)
next
  case False
  let ?c = "ceil_sqrt_from n 0"
  have c: "n \<le> ?c * ?c" "0 < ?c \<longrightarrow> (?c - 1) * (?c - 1) < n" using ceil_sqrt_from_spec [of 0 n] by auto
  with False have pos: "0 < ?c" by (cases ?c) auto
  have "real n \<le> (real ?c)\<^sup>2" using c(1) by (simp add: power2_eq_square flip: of_nat_mult)
  then have le: "sqrt (real n) \<le> real ?c" by (simp add: real_le_lsqrt)
  have "(real ?c - 1)\<^sup>2 = real ((?c - 1) * (?c - 1))" using pos by (simp add: power2_eq_square of_nat_diff)
  also have "\<dots> < real n" using c(2) pos by (simp only: of_nat_less_iff)
  finally have "real ?c - 1 < sqrt (real n)" by (simp add: real_less_rsqrt)
  with le have "\<lceil>sqrt (real n)\<rceil> = int ?c" by (intro ceiling_unique) simp_all
  with False pos show ?thesis by (simp add: auto_grid_cols_def)
qed

lemma best_fit_loop_in:
  "best_fit_loop score cs best bs \<in> insert best (set cs)"
  by (induction score cs best bs rule: best_fit_loop.induct) auto

lemma best_fit_bounds:
  "1 \<le> best_fit_grid_cols ln64 n aspect \<and> best_fit_grid_cols ln64 n aspect \<le> max 1 n"
proof -
  have *: "best_fit_loop (grid_score ln64 n a) [1..<Suc n] 1 PosInf \<in> insert 1 {1..<Suc n}" for a
    using best_fit_loop_in [of "grid_score ln64 n a" "[1..<Suc n]" 1 PosInf] by (simp only: set_upt)
  show ?thesis
  proof (cases "n \<le> 1")
    case False
    define a where "a = (case aspect of Fin q \<Rightarrow> (if 0 < q then q else round_sig 53 (16 / 9))
      | _ \<Rightarrow> round_sig 53 (16 / 9))"
    with False have "best_fit_grid_cols ln64 n aspect =
        best_fit_loop (grid_score ln64 n a) [1..<Suc n] 1 PosInf"
      by (simp only: best_fit_grid_cols_def Let_def if_False a_def)
    with * [of a] False show ?thesis by auto
  qed (simp add: best_fit_grid_cols_def)
qed

lemma auto_cols_pos: "0 < auto_cols ln64 n aspect"
  using best_fit_bounds [of ln64 n]
  by (auto simp: auto_cols_def auto_grid_cols_def Suc_le_eq split: option.split)

lemma build_grid_spec:
  assumes "ps \<noteq> []"
  shows "\<exists>g. build_grid ln64 ps cols aspect = Some g \<and> collect_panes g = ps \<and> ratios_ok g"
proof -
  define k where "k = (if cols = 0 then auto_cols ln64 (length ps) aspect else cols)"
  have k: "0 < k" using auto_cols_pos by (simp add: k_def)
  have "\<exists>g. build_balanced c Horizontal = Some g \<and> (collect_panes g = c \<and> ratios_ok g)"
    if "c \<in> set (chunks k ps)" for c
    using balanced.build_panes chunks_bounds [OF that] by blast
  from those_map_Some [of "chunks k ps" "\<lambda>c. build_balanced c Horizontal"
      "\<lambda>c g. collect_panes g = c \<and> ratios_ok g", OF this]
  obtain rows where
    rows: "those (map (\<lambda>c. build_balanced c Horizontal) (chunks k ps)) = Some rows"
      "list_all2 (\<lambda>c g. collect_panes g = c \<and> ratios_ok g) (chunks k ps) rows" by blast
  then have cp: "map collect_panes rows = chunks k ps" and ok: "\<forall>g \<in> set rows. ratios_ok g"
    by (auto simp: list_all2_conv_all_nth in_set_conv_nth intro!: nth_equalityI)
  have "rows \<noteq> []" using cp chunks_not_Nil [OF k assms] by auto
  with stack_balanced_spec [of rows Vertical] rows(1) cp ok assms k show ?thesis
    by (auto simp: build_grid_def Let_def concat_chunks simp flip: k_def)
qed

interpretation grid: layout_builder "\<lambda>panes. build_grid ln64 panes cols aspect"
  for ln64 cols aspect
  by unfold_locales (simp add: build_grid_def, rule build_grid_spec)

interpretation layout: layout_builder "\<lambda>panes. build_for_layout ln64 panes l"
  for ln64 l
  by unfold_locales
     (auto simp: build_for_layout_def balanced.build_Nil grid.build_Nil
       intro: balanced.build_panes grid.build_panes split: RearrangeLayout.split)

end
