(* ===== verification/Tabs.thy ===== *)
theory Tabs
  imports Layout
begin

text \<open>
  The tab list of one client and the operations on it: the rest of
  \<open>crates/daemon/src/tabs.rs\<close>, with \<open>TabEntry\<close> and \<open>TabContent\<close> of
  \<open>crates/protocol/src/lib.rs\<close>.

  An operation on \<open>&mut Vec<TabEntry>\<close> returns its answer with the list as it is left. Where
  it fails it returns the error alone: the source says such a list may be half-changed, and the
  callers roll it back (\<open>try_mutate_client_layout\<close>, modelled in the server layer). The UUIDs
  drawn by \<open>new_id\<close> and the time read from \<open>Utc::now\<close> are arguments.
\<close>

section \<open>Data\<close>

datatype TabContent =
    TabGrid GridNode
  | TabDiff string string "string option" "string option" "string option"
  | TabViewer string
  | TabDashboard
  | TabUnknown

record TabEntry =
  tab_id :: string
  tab_name :: string
  content :: TabContent
  created_at :: int
  picked_layout :: "RearrangeLayout option"

datatype MergeLayout = TileHorizontal | TileVertical

datatype ClosedTab = ClosedUpdated TabEntry | ClosedRemoved string

datatype MovedTab = MovedUpdated TabEntry | MovedRemoved string

record PaneMove =
  mv_src_tab_id :: string
  mv_src_pane_id :: string
  mv_dst_tab_id :: string
  mv_dst_pane_id :: string
  mv_edge :: PaneDropEdge
  mv_touch :: bool

record PaneSwap =
  sw_src_tab_id :: string
  sw_src_pane_id :: string
  sw_dst_tab_id :: string
  sw_dst_pane_id :: string

record SessionCloseResult =
  updated :: "TabEntry list"
  removed_tab_ids :: "string list"

record ExtractOutcome =
  new_tab :: TabEntry
  source_left :: "TabEntry option"

section \<open>Reaching a tab and its grid\<close>

fun tab_grid :: "TabContent \<Rightarrow> GridNode option" where
  "tab_grid (TabGrid g) = Some g"
| "tab_grid _ = None"

abbreviation grid_of :: "TabEntry \<Rightarrow> GridNode option" where
  "grid_of t \<equiv> tab_grid (content t)"

definition grid_or_err :: "TabEntry \<Rightarrow> tab_error + GridNode" where
  "grid_or_err tab = (case grid_of tab of Some g \<Rightarrow> Ok g | None \<Rightarrow> Err (NotAGridTab (tab_id tab)))"

text \<open>A mutable borrow is an update: the continuation answers and says what the borrow holds now.\<close>

definition grid_or_err_mut ::
    "TabEntry \<Rightarrow> (GridNode \<Rightarrow> tab_error + ('r \<times> GridNode)) \<Rightarrow> tab_error + ('r \<times> TabEntry)" where
  "grid_or_err_mut tab f =
     and_then (grid_or_err tab) (\<lambda>g. and_then (f g) (\<lambda>(r, g'). Ok (r, tab\<lparr>content := TabGrid g'\<rparr>)))"

fun find_tab_mut ::
    "TabEntry list \<Rightarrow> string \<Rightarrow> (TabEntry \<Rightarrow> tab_error + ('r \<times> TabEntry))
      \<Rightarrow> tab_error + ('r \<times> TabEntry list)" where
  "find_tab_mut [] tid f = Err (UnknownTab tid)"
| "find_tab_mut (t # ts) tid f =
     (if tab_id t = tid then and_then (f t) (\<lambda>(r, t'). Ok (r, t' # ts))
      else and_then (find_tab_mut ts tid f) (\<lambda>(r, ts'). Ok (r, t # ts')))"

section \<open>Making and restoring tabs\<close>

definition used_number :: "string \<Rightarrow> nat option" where
  "used_number nm =
     (if nm = ''Tab'' then Some 1
      else if take 4 nm = ''Tab '' then parse_u32 (drop 4 nm) else None)"

definition used_numbers :: "TabEntry list \<Rightarrow> nat list" where
  "used_numbers existing = List.map_filter (\<lambda>t. used_number (tab_name t)) existing"

text \<open>
  \<open>while used.contains(&n) { n += 1 }\<close>. The counter stays at most one above the number of tabs,
  so the \<open>u32\<close> never wraps for a list that fits in memory with fewer than \<open>2 ^ 32 - 1\<close> tabs.
\<close>

function next_free :: "nat list \<Rightarrow> nat \<Rightarrow> nat" where
  "next_free used n = (if n \<in> set used then next_free used (Suc n) else n)"
  by pat_completeness auto
termination
proof (relation "measure (\<lambda>(used, n). card {k \<in> set used. n \<le> k})")
  fix used :: "nat list" and n :: nat
  assume "n \<in> set used"
  moreover have "{k \<in> set used. Suc n \<le> k} = {k \<in> set used. n \<le> k} - {n}" by auto
  ultimately have "card {k \<in> set used. Suc n \<le> k} < card {k \<in> set used. n \<le> k}"
    by (simp only:) (rule card_Diff1_less, simp_all)
  then show "((used, Suc n), used, n) \<in> measure (\<lambda>(used, n). card {k \<in> set used. n \<le> k})"
    by (simp only: in_measure case_prod_conv)
qed simp

declare next_free.simps [simp del]

definition next_default_name :: "TabEntry list \<Rightarrow> string" where
  "next_default_name existing =
     (let n = next_free (used_numbers existing) 1 in
      if n = 1 then ''Tab'' else ''Tab '' @ dec n)"

definition make_tab ::
    "string \<Rightarrow> string \<Rightarrow> int \<Rightarrow> string option \<Rightarrow> string option \<Rightarrow> string option
      \<Rightarrow> TabEntry list \<Rightarrow> TabEntry" where
  "make_tab fresh_id fresh_pane now nm initial_session_id initial_host existing =
     \<lparr>tab_id = fresh_id,
      tab_name = (case nm of Some n \<Rightarrow> n | None \<Rightarrow> next_default_name existing),
      content = TabGrid (Pane fresh_pane initial_session_id initial_host),
      created_at = now,
      picked_layout = None\<rparr>"

definition restore_tab ::
    "TabEntry list \<Rightarrow> TabEntry \<Rightarrow> nat \<Rightarrow> tab_error + (TabEntry \<times> TabEntry list)" where
  "restore_tab tabs tab index =
     (if list_ex (\<lambda>existing. tab_id existing = tab_id tab) tabs then Err (TabAlreadyExists (tab_id tab))
      else let insert_at = min index (length tabs)
           in Ok (tab, take insert_at tabs @ tab # drop insert_at tabs))"

definition restore_tab_snapshot ::
    "TabEntry list \<Rightarrow> TabEntry \<Rightarrow> tab_error + (TabEntry \<times> TabEntry list)" where
  "restore_tab_snapshot tabs tab = find_tab_mut tabs (tab_id tab) (\<lambda>_. Ok (tab, tab))"

text \<open>Copies draw their ids in walk order, a tab's panes before the tab itself.\<close>

fun clone_grid_fresh_pane_ids :: "(nat \<Rightarrow> string) \<Rightarrow> nat \<Rightarrow> GridNode \<Rightarrow> GridNode \<times> nat" where
  "clone_grid_fresh_pane_ids uuid k (Pane _ sid h) = (Pane (uuid k) sid h, Suc k)"
| "clone_grid_fresh_pane_ids uuid k (Split d r a b) =
     (case clone_grid_fresh_pane_ids uuid k a of (a', k') \<Rightarrow>
        (case clone_grid_fresh_pane_ids uuid k' b of (b', k'') \<Rightarrow> (Split d r a' b', k'')))"

definition clone_content :: "(nat \<Rightarrow> string) \<Rightarrow> nat \<Rightarrow> TabContent \<Rightarrow> TabContent \<times> nat" where
  "clone_content uuid k c =
     (case c of
        TabGrid g \<Rightarrow> (case clone_grid_fresh_pane_ids uuid k g of (g', k') \<Rightarrow> (TabGrid g', k'))
      | other \<Rightarrow> (other, k))"

fun clone_tabs_fresh_ids :: "(nat \<Rightarrow> string) \<Rightarrow> nat \<Rightarrow> TabEntry list \<Rightarrow> TabEntry list" where
  "clone_tabs_fresh_ids uuid k [] = []"
| "clone_tabs_fresh_ids uuid k (t # ts) =
     (case clone_content uuid k (content t) of (c, k') \<Rightarrow>
        \<lparr>tab_id = uuid k', tab_name = tab_name t, content = c, created_at = created_at t,
         picked_layout = picked_layout t\<rparr> # clone_tabs_fresh_ids uuid (Suc k') ts)"

section \<open>Layout picks\<close>

definition pick_layout ::
    "(flt \<Rightarrow> flt) \<Rightarrow> TabEntry \<Rightarrow> RearrangeLayout \<Rightarrow> tab_error + (unit \<times> TabEntry)" where
  "pick_layout ln64 tab layout =
     (let refit = is_auto_refit (picked_layout tab) layout in
      and_then
        (grid_or_err_mut tab (\<lambda>grid.
           if refit then
             (case build_for_layout ln64 (collect_panes grid) layout of
                Some g \<Rightarrow> Ok ((), g)
              | None \<Rightarrow> Err RefitProducedEmpty)
           else and_then (rearrange_grid ln64 grid layout) (\<lambda>g. Ok ((), g))))
        (\<lambda>(_, tab'). Ok ((), tab'\<lparr>picked_layout := Some (built_layout layout)\<rparr>)))"

definition touch :: "TabEntry \<Rightarrow> TabEntry" where
  "touch tab = tab\<lparr>picked_layout := None\<rparr>"

definition reapply_if_untouched :: "(flt \<Rightarrow> flt) \<Rightarrow> TabEntry \<Rightarrow> bool \<times> TabEntry" where
  "reapply_if_untouched ln64 tab =
     (case picked_layout tab of
        None \<Rightarrow> (False, tab)
      | Some layout \<Rightarrow>
          (case grid_of tab of
             None \<Rightarrow> (False, tab)
           | Some grid \<Rightarrow>
               (case build_for_layout ln64 (collect_panes grid) layout of
                  None \<Rightarrow> (False, tab)
                | Some rebuilt \<Rightarrow> (True, tab\<lparr>content := TabGrid rebuilt\<rparr>))))"

abbreviation reapplied :: "(flt \<Rightarrow> flt) \<Rightarrow> TabEntry \<Rightarrow> TabEntry" where
  "reapplied ln64 tab \<equiv> snd (reapply_if_untouched ln64 tab)"

section \<open>Closing and rebinding panes across tabs\<close>

text \<open>Close the listed panes in turn, stopping when the last pane goes; a missing id is skipped.\<close>

fun close_listed :: "GridNode \<Rightarrow> string list \<Rightarrow> bool \<times> GridNode" where
  "close_listed grid [] = (False, grid)"
| "close_listed grid (pid # rest) =
     (case close_pane grid pid of
        Ok (True, grid') \<Rightarrow> (True, grid')
      | Ok (False, grid') \<Rightarrow> close_listed grid' rest
      | Err _ \<Rightarrow> close_listed grid rest)"

text \<open>The loop over the tabs: the list as it is left, the surviving changed tabs, the emptied ones.\<close>

fun close_loop ::
    "(flt \<Rightarrow> flt) \<Rightarrow> (GridNode \<Rightarrow> string list) \<Rightarrow> TabEntry list
      \<Rightarrow> TabEntry list \<times> TabEntry list \<times> string list" where
  "close_loop ln64 select [] = ([], [], [])"
| "close_loop ln64 select (tab # rest) =
     (case close_loop ln64 select rest of (rest', upd, rem) \<Rightarrow>
        (case grid_of tab of
           None \<Rightarrow> (tab # rest', upd, rem)
         | Some grid \<Rightarrow>
             (let ids = select grid in
              if ids = [] then (tab # rest', upd, rem)
              else (case close_listed grid ids of (emptied, grid') \<Rightarrow>
                      (let tab' = tab\<lparr>content := TabGrid grid'\<rparr> in
                       if emptied then (tab' # rest', upd, tab_id tab # rem)
                       else let tab'' = reapplied ln64 tab' in (tab'' # rest', tab'' # upd, rem))))))"

definition close_panes_where ::
    "(flt \<Rightarrow> flt) \<Rightarrow> TabEntry list \<Rightarrow> (GridNode \<Rightarrow> string list)
      \<Rightarrow> SessionCloseResult \<times> TabEntry list" where
  "close_panes_where ln64 tabs select =
     (case close_loop ln64 select tabs of (tabs', upd, rem) \<Rightarrow>
        (\<lparr>updated = upd, removed_tab_ids = rem\<rparr>, filter (\<lambda>t. tab_id t \<notin> set rem) tabs'))"

definition close_session_panes ::
    "(flt \<Rightarrow> flt) \<Rightarrow> TabEntry list \<Rightarrow> string \<Rightarrow> SessionCloseResult \<times> TabEntry list" where
  "close_session_panes ln64 tabs sid = close_panes_where ln64 tabs (\<lambda>grid. panes_for_session grid sid)"

definition forget_host_panes ::
    "(flt \<Rightarrow> flt) \<Rightarrow> TabEntry list \<Rightarrow> string \<Rightarrow> string list \<Rightarrow> bool
      \<Rightarrow> SessionCloseResult \<times> TabEntry list" where
  "forget_host_panes ln64 tabs target session_ids all =
     close_panes_where ln64 tabs (\<lambda>grid. panes_where grid (\<lambda>pane_host sid.
       pane_host = Some target \<and>
       (all \<or> (case sid of None \<Rightarrow> False | Some s \<Rightarrow> s \<in> set session_ids))))"

text \<open>
  The common shape of \<open>rebind_session\<close> and \<open>rehost_panes\<close>: edit every grid in place and
  collect the tabs whose edit reported a change.
\<close>

fun edit_grids ::
    "(GridNode \<Rightarrow> bool \<times> GridNode) \<Rightarrow> TabEntry list \<Rightarrow> TabEntry list \<times> TabEntry list" where
  "edit_grids f [] = ([], [])"
| "edit_grids f (tab # rest) =
     (case edit_grids f rest of (upd, rest') \<Rightarrow>
        (case grid_of tab of
           None \<Rightarrow> (upd, tab # rest')
         | Some grid \<Rightarrow>
             (case f grid of (changed, grid') \<Rightarrow>
                let tab' = tab\<lparr>content := TabGrid grid'\<rparr>
                in ((if changed then tab' # upd else upd), tab' # rest'))))"

definition rebind_session ::
    "TabEntry list \<Rightarrow> string option \<Rightarrow> string \<Rightarrow> string \<Rightarrow> TabEntry list \<times> TabEntry list" where
  "rebind_session tabs target old new = edit_grids (\<lambda>grid. rebind_grid grid target old new) tabs"

definition shows_session :: "TabEntry list \<Rightarrow> string option \<Rightarrow> string \<Rightarrow> bool" where
  "shows_session tabs target session =
     list_ex (\<lambda>grid. list_ex (\<lambda>pane. host pane = target \<and> session_id pane = Some session)
                        (collect_panes grid))
       (List.map_filter grid_of tabs)"

definition rehost_panes ::
    "TabEntry list \<Rightarrow> string \<Rightarrow> string option \<Rightarrow> string list \<Rightarrow> TabEntry list \<times> TabEntry list" where
  "rehost_panes tabs from to session_ids =
     edit_grids (\<lambda>grid. rehost_grid grid from to session_ids) tabs"

section \<open>One-tab operations\<close>

definition split_tab_pane ::
    "(flt \<Rightarrow> flt) \<Rightarrow> TabEntry \<Rightarrow> string \<Rightarrow> SplitDirection \<Rightarrow> SplitPlace \<Rightarrow> GridNode
      \<Rightarrow> tab_error + (string \<times> TabEntry)" where
  "split_tab_pane ln64 tab target direction place np =
     and_then (grid_or_err_mut tab (\<lambda>grid. split_pane grid target direction place np))
       (\<lambda>(new_pane_id, tab'). Ok (new_pane_id, reapplied ln64 tab'))"

definition close_tab_pane ::
    "(flt \<Rightarrow> flt) \<Rightarrow> TabEntry \<Rightarrow> string \<Rightarrow> tab_error + (bool \<times> TabEntry)" where
  "close_tab_pane ln64 tab target =
     and_then (grid_or_err_mut tab (\<lambda>grid. close_pane grid target))
       (\<lambda>(emptied, tab'). Ok (emptied, if \<not> emptied then reapplied ln64 tab' else tab'))"

definition set_tab_pane_ratio ::
    "TabEntry \<Rightarrow> nat list \<Rightarrow> flt \<Rightarrow> tab_error + (unit \<times> TabEntry)" where
  "set_tab_pane_ratio tab split_path ratio =
     and_then
       (grid_or_err_mut tab (\<lambda>grid.
          and_then (set_pane_ratio grid split_path ratio) (\<lambda>grid'. Ok ((), grid'))))
       (\<lambda>(_, tab'). Ok ((), touch tab'))"

definition close_pane_in_tabs ::
    "(flt \<Rightarrow> flt) \<Rightarrow> TabEntry list \<Rightarrow> string \<Rightarrow> string
      \<Rightarrow> tab_error + (ClosedTab \<times> TabEntry list)" where
  "close_pane_in_tabs ln64 tabs tid pid =
     and_then
       (find_tab_mut tabs tid (\<lambda>tab.
          and_then (close_tab_pane ln64 tab pid) (\<lambda>(emptied, tab'). Ok ((emptied, tab'), tab'))))
       (\<lambda>((emptied, tab'), tabs').
          if emptied then Ok (ClosedRemoved tid, filter (\<lambda>t. tab_id t \<noteq> tid) tabs')
          else Ok (ClosedUpdated tab', tabs'))"

section \<open>Moving and swapping panes\<close>

definition move_within_tab ::
    "TabEntry list \<Rightarrow> PaneMove \<Rightarrow> tab_error + (MovedTab list \<times> TabEntry list)" where
  "move_within_tab tabs mv =
     find_tab_mut tabs (mv_src_tab_id mv) (\<lambda>tab.
       and_then (grid_or_err tab) (\<lambda>before.
       and_then
         (if mv_edge mv = Replace then
            swap_pane_sessions before (mv_src_pane_id mv) (mv_dst_pane_id mv)
          else
            and_then (extract_pane before (mv_src_pane_id mv)) (\<lambda>(extracted, source_empty, grid).
              if source_empty then Err OnlyPaneOfTab
              else insert_adjacent grid (mv_dst_pane_id mv) (mv_edge mv) extracted))
         (\<lambda>grid.
            let tab' = tab\<lparr>content := TabGrid grid\<rparr> in
            if node_eq grid before then Ok ([], tab')
            else Ok ([MovedUpdated (touch tab')], touch tab'))))"

text \<open>The two halves of \<open>move_across_tabs\<close>: take the pane out of the source tab, with the source's event.\<close>

definition take_source ::
    "(flt \<Rightarrow> flt) \<Rightarrow> TabEntry list \<Rightarrow> PaneMove
      \<Rightarrow> tab_error + ((GridNode \<times> MovedTab) \<times> TabEntry list)" where
  "take_source ln64 tabs mv =
     and_then
       (find_tab_mut tabs (mv_src_tab_id mv) (\<lambda>src_tab.
          and_then
            (grid_or_err_mut src_tab (\<lambda>grid.
               and_then (extract_pane grid (mv_src_pane_id mv))
                 (\<lambda>(extracted, source_empty, grid'). Ok ((extracted, source_empty), grid'))))
            (\<lambda>((extracted, source_empty), src_tab').
               let src_tab'' = (if source_empty then src_tab' else reapplied ln64 src_tab')
               in Ok ((extracted, source_empty, src_tab''), src_tab''))))
       (\<lambda>((extracted, source_empty, src_tab), tabs').
          if source_empty then
            Ok ((extracted, MovedRemoved (mv_src_tab_id mv)),
                filter (\<lambda>t. tab_id t \<noteq> mv_src_tab_id mv) tabs')
          else Ok ((extracted, MovedUpdated src_tab), tabs'))"

text \<open>Put it into the destination tab; the answer is that tab as it is left.\<close>

definition insert_destination ::
    "(flt \<Rightarrow> flt) \<Rightarrow> TabEntry list \<Rightarrow> PaneMove \<Rightarrow> GridNode
      \<Rightarrow> tab_error + (TabEntry \<times> TabEntry list)" where
  "insert_destination ln64 tabs mv extracted =
     find_tab_mut tabs (mv_dst_tab_id mv) (\<lambda>dst_tab.
       and_then
         (grid_or_err_mut dst_tab (\<lambda>grid.
            and_then (insert_adjacent grid (mv_dst_pane_id mv) (mv_edge mv) extracted)
              (\<lambda>grid'. Ok ((), grid'))))
         (\<lambda>(_, dst_tab').
            let dst_tab'' = (if mv_touch mv then touch dst_tab' else reapplied ln64 dst_tab')
            in Ok (dst_tab'', dst_tab'')))"

definition move_across_tabs ::
    "(flt \<Rightarrow> flt) \<Rightarrow> TabEntry list \<Rightarrow> PaneMove \<Rightarrow> tab_error + (MovedTab list \<times> TabEntry list)" where
  "move_across_tabs ln64 tabs mv =
     and_then (take_source ln64 tabs mv) (\<lambda>((extracted, source_event), tabs').
       and_then (insert_destination ln64 tabs' mv extracted) (\<lambda>(dst_tab, tabs'').
         Ok ([MovedUpdated dst_tab, source_event], tabs'')))"

definition move_pane ::
    "(flt \<Rightarrow> flt) \<Rightarrow> TabEntry list \<Rightarrow> PaneMove \<Rightarrow> tab_error + (MovedTab list \<times> TabEntry list)" where
  "move_pane ln64 tabs mv =
     (if mv_src_tab_id mv = mv_dst_tab_id mv then move_within_tab tabs mv
      else move_across_tabs ln64 tabs mv)"

definition pane_session_at ::
    "TabEntry list \<Rightarrow> string \<Rightarrow> string \<Rightarrow> tab_error + (string option \<times> string option)" where
  "pane_session_at tabs tid pid =
     (case List.find (\<lambda>tab. tab_id tab = tid) tabs of
        None \<Rightarrow> Err (UnknownTab tid)
      | Some tab \<Rightarrow>
          and_then (grid_or_err tab) (\<lambda>grid.
            (case pane_session grid pid of
               Some found \<Rightarrow> Ok found
             | None \<Rightarrow> Err (PaneNotFound pid))))"

text \<open>Write a pane's binding and mark its tab arranged by hand; the answer is the tab as it is left.\<close>

definition write_binding ::
    "TabEntry list \<Rightarrow> string \<Rightarrow> string \<Rightarrow> string option \<Rightarrow> string option
      \<Rightarrow> tab_error + (TabEntry \<times> TabEntry list)" where
  "write_binding tabs tid pid sid h =
     find_tab_mut tabs tid (\<lambda>tab.
       and_then
         (grid_or_err_mut tab (\<lambda>grid.
            and_then (replace_pane_session grid pid sid h) (\<lambda>grid'. Ok ((), grid'))))
         (\<lambda>(_, tab'). Ok (touch tab', touch tab')))"

definition swap_panes ::
    "TabEntry list \<Rightarrow> PaneSwap \<Rightarrow> tab_error + (MovedTab list \<times> TabEntry list)" where
  "swap_panes tabs swap =
     (if sw_src_tab_id swap = sw_dst_tab_id swap then
        find_tab_mut tabs (sw_src_tab_id swap) (\<lambda>tab.
          and_then
            (grid_or_err_mut tab (\<lambda>grid.
               and_then (swap_pane_sessions grid (sw_src_pane_id swap) (sw_dst_pane_id swap))
                 (\<lambda>grid'. Ok ((), grid'))))
            (\<lambda>(_, tab'). Ok ([MovedUpdated (touch tab')], touch tab')))
      else
        and_then (pane_session_at tabs (sw_src_tab_id swap) (sw_src_pane_id swap))
          (\<lambda>(src_session, src_host).
        and_then (pane_session_at tabs (sw_dst_tab_id swap) (sw_dst_pane_id swap))
          (\<lambda>(dst_session, dst_host).
        and_then (write_binding tabs (sw_src_tab_id swap) (sw_src_pane_id swap) dst_session dst_host)
          (\<lambda>(src, tabs').
        and_then (write_binding tabs' (sw_dst_tab_id swap) (sw_dst_pane_id swap) src_session src_host)
          (\<lambda>(dst, tabs''). Ok ([MovedUpdated src, MovedUpdated dst], tabs''))))))"

section \<open>Merging, extracting and ordering tabs\<close>

fun collect_merge :: "TabEntry list \<Rightarrow> string list \<Rightarrow> tab_error + PaneRef list" where
  "collect_merge tabs [] = Ok []"
| "collect_merge tabs (tid # rest) =
     (case List.find (\<lambda>t. tab_id t = tid) tabs of
        None \<Rightarrow> Err (UnknownTab tid)
      | Some entry \<Rightarrow>
          and_then (grid_or_err entry) (\<lambda>grid.
            and_then (collect_merge tabs rest) (\<lambda>collected. Ok (collect_panes grid @ collected))))"

definition merge_tabs ::
    "string \<Rightarrow> int \<Rightarrow> TabEntry list \<Rightarrow> string list \<Rightarrow> string option \<Rightarrow> MergeLayout
      \<Rightarrow> tab_error + (TabEntry \<times> TabEntry list)" where
  "merge_tabs fresh_id now tabs tab_ids nm layout =
     (if length tab_ids < 2 then Err MergeNeedsTwo
      else and_then (collect_merge tabs tab_ids) (\<lambda>collected.
        let direction = (case layout of TileHorizontal \<Rightarrow> Horizontal | TileVertical \<Rightarrow> Vertical) in
        (case build_balanced collected direction of
           None \<Rightarrow> Err MergeProducedEmpty
         | Some grid \<Rightarrow>
             let tabs' = filter (\<lambda>t. tab_id t \<notin> set tab_ids) tabs;
                 entry = \<lparr>tab_id = fresh_id,
                   tab_name = (case nm of Some n \<Rightarrow> n | None \<Rightarrow> next_default_name tabs'),
                   content = TabGrid grid, created_at = now, picked_layout = None\<rparr>
             in Ok (entry, tabs' @ [entry]))))"

text \<open>The panes pulled out, whether the tree is now empty, and the tree left behind.\<close>

fun extract_listed ::
    "GridNode \<Rightarrow> string list \<Rightarrow> PaneRef list \<Rightarrow> tab_error + (PaneRef list \<times> bool \<times> GridNode)" where
  "extract_listed grid [] extracted = Ok (extracted, False, grid)"
| "extract_listed grid (pid # rest) extracted =
     and_then (extract_pane grid pid) (\<lambda>(node, is_empty, grid').
       (case node of
          Split _ _ _ _ \<Rightarrow> Err (ExtractedNotPane pid)
        | Pane p s h \<Rightarrow>
            let extracted' = extracted @ [\<lparr>pane_id = p, session_id = s, host = h\<rparr>] in
            if is_empty then Ok (extracted', True, grid') else extract_listed grid' rest extracted'))"

definition extract_to_new_tab ::
    "(flt \<Rightarrow> flt) \<Rightarrow> string \<Rightarrow> int \<Rightarrow> TabEntry list \<Rightarrow> string \<Rightarrow> string list \<Rightarrow> string option
      \<Rightarrow> RearrangeLayout option \<Rightarrow> tab_error + (ExtractOutcome \<times> TabEntry list)" where
  "extract_to_new_tab ln64 fresh_id now tabs source_tab_id pids nm layout =
     (if pids = [] then Err ExtractNeedsPane
      else and_then
        (find_tab_mut tabs source_tab_id (\<lambda>src.
           and_then
             (grid_or_err_mut src (\<lambda>grid.
                and_then (extract_listed grid pids [])
                  (\<lambda>(extracted, source_empty, grid'). Ok ((extracted, source_empty), grid'))))
             (\<lambda>((extracted, source_empty), src').
                Ok ((extracted, source_empty),
                    if source_empty then src' else reapplied ln64 src'))))
        (\<lambda>((extracted, source_empty), tabs').
           let tabs'' = (if source_empty then filter (\<lambda>t. tab_id t \<noteq> source_tab_id) tabs' else tabs');
               src = (if source_empty then None
                      else List.find (\<lambda>t. tab_id t = source_tab_id) tabs'')
           in (case build_for_layout ln64 extracted
                      (case layout of Some l \<Rightarrow> l | None \<Rightarrow> LayoutHorizontal) of
                 None \<Rightarrow> Err ExtractProducedEmpty
               | Some grid \<Rightarrow>
                   let entry = \<lparr>tab_id = fresh_id,
                         tab_name = (case nm of Some n \<Rightarrow> n | None \<Rightarrow> next_default_name tabs''),
                         content = TabGrid grid, created_at = now,
                         picked_layout = map_option built_layout layout\<rparr>
                   in Ok (\<lparr>new_tab = entry, source_left = src\<rparr>, tabs'' @ [entry]))))"

fun position :: "('a \<Rightarrow> bool) \<Rightarrow> 'a list \<Rightarrow> nat option" where
  "position P [] = None"
| "position P (x # xs) = (if P x then Some 0 else map_option Suc (position P xs))"

definition reorder_key :: "string list \<Rightarrow> TabEntry \<Rightarrow> nat" where
  "reorder_key ordered_ids t =
     (case position (\<lambda>i. i = tab_id t) ordered_ids of Some i \<Rightarrow> i | None \<Rightarrow> 2 ^ 64 - 1)"

definition reorder_tabs ::
    "TabEntry list \<Rightarrow> string list \<Rightarrow> tab_error + (unit \<times> TabEntry list)" where
  "reorder_tabs tabs ordered_ids =
     (if length ordered_ids \<noteq> length tabs then
        Err (ReorderSetMismatch (length ordered_ids) (length tabs))
      else (case List.find (\<lambda>i. \<not> list_ex (\<lambda>t. tab_id t = i) tabs) ordered_ids of
              Some i \<Rightarrow> Err (UnknownTabInReorder i)
            | None \<Rightarrow> Ok ((), sort_key (reorder_key ordered_ids) tabs)))"

section \<open>The panes of a tab list\<close>

definition tab_panes :: "TabEntry \<Rightarrow> PaneRef list" where
  "tab_panes t = (case grid_of t of None \<Rightarrow> [] | Some g \<Rightarrow> collect_panes g)"

definition all_panes :: "TabEntry list \<Rightarrow> PaneRef list" where
  "all_panes tabs = concat (map tab_panes tabs)"

definition tab_ratios_ok :: "TabEntry \<Rightarrow> bool" where
  "tab_ratios_ok t = (case grid_of t of None \<Rightarrow> True | Some g \<Rightarrow> ratios_ok g)"

text \<open>What the tab list of a client keeps: no id is used twice, and every ratio is in range.\<close>

definition wf_tabs :: "TabEntry list \<Rightarrow> bool" where
  "wf_tabs tabs \<longleftrightarrow>
     distinct (map tab_id tabs) \<and> distinct (map pane_id (all_panes tabs)) \<and>
     list_all tab_ratios_ok tabs"

lemma tab_panes_simps [simp]:
  "tab_panes (t\<lparr>content := TabGrid g\<rparr>) = collect_panes g"
  "tab_panes (t\<lparr>picked_layout := pl\<rparr>) = tab_panes t"
  "grid_of t = Some g \<Longrightarrow> tab_panes t = collect_panes g"
  "grid_of t = None \<Longrightarrow> tab_panes t = []"
  by (simp_all add: tab_panes_def)

lemma tab_ratios_ok_simps [simp]:
  "tab_ratios_ok (t\<lparr>content := TabGrid g\<rparr>) = ratios_ok g"
  "tab_ratios_ok (t\<lparr>picked_layout := pl\<rparr>) = tab_ratios_ok t"
  "grid_of t = Some g \<Longrightarrow> tab_ratios_ok t = ratios_ok g"
  "grid_of t = None \<Longrightarrow> tab_ratios_ok t"
  by (simp_all add: tab_ratios_ok_def)

lemma tab_panes_new [simp]:
  "tab_panes \<lparr>tab_id = i, tab_name = n, content = TabGrid g, created_at = c, picked_layout = p\<rparr> =
     collect_panes g"
  "tab_ratios_ok \<lparr>tab_id = i, tab_name = n, content = TabGrid g, created_at = c, picked_layout = p\<rparr> =
     ratios_ok g"
  by (simp_all add: tab_panes_def tab_ratios_ok_def)

lemma all_panes_simps [simp]:
  "all_panes [] = []"
  "all_panes (t # ts) = tab_panes t @ all_panes ts"
  "all_panes (ts @ us) = all_panes ts @ all_panes us"
  by (simp_all add: all_panes_def)

lemma shows_session_iff:
  "shows_session tabs target sid \<longleftrightarrow>
     (\<exists>p \<in> set (all_panes tabs). host p = target \<and> session_id p = Some sid)"
  unfolding shows_session_def
  by (induction tabs) (auto simp: map_filter_simps list_ex_iff tab_panes_def split: option.splits)

lemma all_panes_mset_permute:
  "mset ts = mset us \<Longrightarrow> mset (all_panes ts) = mset (all_panes us)"
  by (simp add: all_panes_def mset_concat) (metis mset_map sum_mset_sum_list)

lemma touch_simps [simp]:
  "tab_id (touch t) = tab_id t"
  "tab_panes (touch t) = tab_panes t"
  "tab_ratios_ok (touch t) = tab_ratios_ok t"
  "content (touch t) = content t"
  "picked_layout (touch t) = None"
  by (simp_all add: touch_def)

lemma reapplied_simps [simp]:
  "tab_id (reapplied ln64 t) = tab_id t"
  "tab_name (reapplied ln64 t) = tab_name t"
  "tab_panes (reapplied ln64 t) = tab_panes t"
  "picked_layout (reapplied ln64 t) = picked_layout t"
  by (auto simp: reapply_if_untouched_def layout.build_SomeD split: option.split)

lemma reapplied_ratios [simp]: "tab_ratios_ok t \<Longrightarrow> tab_ratios_ok (reapplied ln64 t)"
  by (auto simp: reapply_if_untouched_def layout.build_SomeD split: option.split)

lemma reapplied_grid_of [simp]: "grid_of (reapplied ln64 t) = None \<longleftrightarrow> grid_of t = None"
  by (auto simp: reapply_if_untouched_def split: option.split)

lemma find_tab_mut_split:
  assumes "tid \<notin> tab_id ` set xs" and "tab_id t = tid"
  shows "find_tab_mut (xs @ t # ys) tid f = and_then (f t) (\<lambda>(r, t'). Ok (r, xs @ t' # ys))"
  using assms by (induction xs) (auto simp: and_then_def split: sum.split)

lemma find_tab_mut_absent: "tid \<notin> tab_id ` set tabs \<Longrightarrow> find_tab_mut tabs tid f = Err (UnknownTab tid)"
  by (induction tabs) auto

lemma tab_split:
  assumes "tid \<in> tab_id ` set tabs"
  obtains xs t ys where "tabs = xs @ t # ys" and "tid \<notin> tab_id ` set xs" and "tab_id t = tid"
proof -
  from assms have "\<exists>t \<in> set tabs. tab_id t = tid" by auto
  from split_list_first_prop [OF this] obtain xs t ys where
    "tabs = xs @ t # ys" "tab_id t = tid" "\<forall>x \<in> set xs. tab_id x \<noteq> tid" by blast
  then show thesis by (intro that [of xs t ys]) auto
qed

lemma find_tab_mut_Ok:
  assumes "find_tab_mut tabs tid f = Ok (r, tabs')"
  obtains xs t t' ys where "tabs = xs @ t # ys" and "tid \<notin> tab_id ` set xs" and "tab_id t = tid"
    and "f t = Ok (r, t')" and "tabs' = xs @ t' # ys"
proof -
  from assms have "tid \<in> tab_id ` set tabs" by (metis Inl_Inr_False find_tab_mut_absent)
  then obtain xs t ys where *: "tabs = xs @ t # ys" "tid \<notin> tab_id ` set xs" "tab_id t = tid"
    by (rule tab_split)
  with assms that show thesis
    by (auto simp: find_tab_mut_split and_then_eq_Inr)
qed

lemma grid_or_err_mut_Ok:
  "grid_or_err_mut t f = Ok (r, t') \<longleftrightarrow>
     (\<exists>g g'. grid_of t = Some g \<and> f g = Ok (r, g') \<and> t' = t\<lparr>content := TabGrid g'\<rparr>)"
  by (auto simp: grid_or_err_mut_def grid_or_err_def and_then_eq_Inr split: option.splits)

section \<open>Bulk edits of every grid\<close>

context pane_edit
begin

lemma edit_grids_panes: "all_panes (snd (edit_grids edit tabs)) = map apply_edit (all_panes tabs)"
  by (induction tabs)
     (auto simp: case_prod_beta Let_def edit_panes' split: option.split)

lemma edit_grids_ids: "map tab_id (snd (edit_grids edit tabs)) = map tab_id tabs"
  by (induction tabs)
     (auto simp: case_prod_beta Let_def split: option.split)

lemma edit_grids_ratios:
  "list_all tab_ratios_ok (snd (edit_grids edit tabs)) = list_all tab_ratios_ok tabs"
  by (induction tabs)
     (auto simp: case_prod_beta Let_def edit_ratios_ok split: option.split)

lemma edit_grids_wf: "wf_tabs (snd (edit_grids edit tabs)) = wf_tabs tabs"
  by (simp add: wf_tabs_def edit_grids_ids edit_grids_ratios edit_grids_panes comp_def)

lemma edit_grids_zip:
  "list_all2 (\<lambda>t t'. tab_id t' = tab_id t \<and> (t' \<noteq> t \<longrightarrow> t' \<in> set (fst (edit_grids edit tabs))))
     tabs (snd (edit_grids edit tabs))"
proof (induction tabs)
  case (Cons t ts)
  have "t\<lparr>content := TabGrid g\<rparr> = t" if "grid_of t = Some g" for g
    using that by (cases "content t") auto
  with Cons edit_idle show ?case
    by (auto simp: case_prod_beta Let_def split: option.split elim!: list_all2_mono)
qed simp

lemma edit_grids_subset: "set (fst (edit_grids edit tabs)) \<subseteq> set (snd (edit_grids edit tabs))"
  by (induction tabs) (auto simp: case_prod_beta Let_def split: option.split)

lemma edit_grids_updated:
  "map tab_id (fst (edit_grids edit tabs)) =
     map tab_id (filter (\<lambda>t. \<exists>p \<in> set (tab_panes t). picks p) tabs)"
  by (induction tabs)
     (auto simp: case_prod_beta Let_def edit_flag split: option.split)

end

section \<open>Closing selected panes\<close>

lemma close_listed_spec:
  assumes "distinct (pane_ids g)" and "distinct ids" and "set ids \<subseteq> set (pane_ids g)"
  shows "fst (close_listed g ids) \<longleftrightarrow> set ids = set (pane_ids g)"
    and "set ids \<noteq> set (pane_ids g) \<Longrightarrow>
      collect_panes (snd (close_listed g ids)) = filter (\<lambda>p. pane_id p \<notin> set ids) (collect_panes g)"
    and "set ids \<noteq> set (pane_ids g) \<Longrightarrow> ratios_ok g \<Longrightarrow> ratios_ok (snd (close_listed g ids))"
proof -
  have "(fst (close_listed g ids) \<longleftrightarrow> set ids = set (pane_ids g)) \<and>
    (set ids \<noteq> set (pane_ids g) \<longrightarrow>
      collect_panes (snd (close_listed g ids)) = filter (\<lambda>p. pane_id p \<notin> set ids) (collect_panes g) \<and>
      (ratios_ok g \<longrightarrow> ratios_ok (snd (close_listed g ids))))"
    using assms
  proof (induction ids arbitrary: g)
    case (Cons pid rest)
    show ?case
    proof (cases "pane_ids g = [pid]")
      case True
      with Cons.prems show ?thesis by (simp add: close_pane_last)
    next
      case False
      from Cons.prems have "pid \<in> set (pane_ids g)" by simp
      from close_pane_present [OF Cons.prems(1) this False] obtain g' where
        g': "close_pane g pid = Ok (False, g')"
          "collect_panes g' = filter (\<lambda>p. pane_id p \<noteq> pid) (collect_panes g)"
          "ratios_ok g \<Longrightarrow> ratios_ok g'" by blast
      have ids: "set (pane_ids g') = set (pane_ids g) - {pid}" by (auto simp: g'(2))
      have "distinct (pane_ids g')"
        using Cons.prems(1) by (simp add: g'(2) distinct_map_filter)
      with Cons.prems ids have IH: "(fst (close_listed g' rest) \<longleftrightarrow> set rest = set (pane_ids g')) \<and>
        (set rest \<noteq> set (pane_ids g') \<longrightarrow>
          collect_panes (snd (close_listed g' rest)) =
            filter (\<lambda>p. pane_id p \<notin> set rest) (collect_panes g') \<and>
          (ratios_ok g' \<longrightarrow> ratios_ok (snd (close_listed g' rest))))"
        by (intro Cons.IH) auto
      have "set rest = set (pane_ids g') \<longleftrightarrow> set (pid # rest) = set (pane_ids g)"
        using Cons.prems ids by auto
      with IH g' show ?thesis by (auto intro: filter_cong)
    qed
  qed (use collect_panes_not_Nil [of g] in simp)
  then show "fst (close_listed g ids) \<longleftrightarrow> set ids = set (pane_ids g)"
    and "set ids \<noteq> set (pane_ids g) \<Longrightarrow>
      collect_panes (snd (close_listed g ids)) = filter (\<lambda>p. pane_id p \<notin> set ids) (collect_panes g)"
    and "set ids \<noteq> set (pane_ids g) \<Longrightarrow> ratios_ok g \<Longrightarrow> ratios_ok (snd (close_listed g ids))"
    by auto
qed

text \<open>
  The contract of a selector: it lists the ids of the panes a predicate picks. A close of the
  selected panes then removes exactly those panes, and exactly the tabs they filled.
\<close>

locale pane_select =
  fixes select :: "GridNode \<Rightarrow> string list" and picks :: "PaneRef \<Rightarrow> bool"
  assumes select_panes: "select g = map pane_id (filter picks (collect_panes g))"
begin

definition emptied :: "TabEntry \<Rightarrow> bool" where
  "emptied t \<longleftrightarrow> tab_panes t \<noteq> [] \<and> list_all picks (tab_panes t)"

definition hit :: "TabEntry \<Rightarrow> bool" where
  "hit t \<longleftrightarrow> list_ex picks (tab_panes t)"

lemma emptied_hit: "emptied t \<Longrightarrow> hit t"
  by (cases "tab_panes t") (auto simp: emptied_def hit_def)

lemma picks_by_id:
  assumes "distinct (map pane_id ps)" and "p \<in> set ps"
  shows "pane_id p \<in> set (map pane_id (filter picks ps)) \<longleftrightarrow> picks p"
  using assms by (auto dest: inj_onD simp: distinct_map)

lemma close_selected:
  assumes "distinct (pane_ids g)"
  shows "fst (close_listed g (select g)) \<longleftrightarrow> list_all picks (collect_panes g)"
    and "\<not> list_all picks (collect_panes g) \<Longrightarrow>
      collect_panes (snd (close_listed g (select g))) = filter (\<lambda>p. \<not> picks p) (collect_panes g)"
    and "\<not> list_all picks (collect_panes g) \<Longrightarrow> ratios_ok g \<Longrightarrow>
      ratios_ok (snd (close_listed g (select g)))"
proof -
  let ?ids = "map pane_id (filter picks (collect_panes g))"
  have ids: "distinct ?ids" "set ?ids \<subseteq> set (pane_ids g)"
    using assms by (auto simp: distinct_map_filter)
  have all: "set ?ids = set (pane_ids g) \<longleftrightarrow> list_all picks (collect_panes g)"
    using picks_by_id [OF assms] by (auto simp: list_all_iff)
  note * = close_listed_spec [OF assms ids]
  show "fst (close_listed g (select g)) \<longleftrightarrow> list_all picks (collect_panes g)"
    using *(1) all by (simp add: select_panes)
  assume "\<not> list_all picks (collect_panes g)"
  with all have ne: "set ?ids \<noteq> set (pane_ids g)" by blast
  show "collect_panes (snd (close_listed g (select g))) = filter (\<lambda>p. \<not> picks p) (collect_panes g)"
    unfolding select_panes *(2) [OF ne]
    by (intro filter_cong refl) (use picks_by_id [OF assms] in simp)
  show "ratios_ok g \<Longrightarrow> ratios_ok (snd (close_listed g (select g)))"
    using *(3) [OF ne] by (simp add: select_panes)
qed

definition keeps :: "TabEntry \<Rightarrow> TabEntry \<Rightarrow> bool" where
  "keeps t t' \<longleftrightarrow> tab_id t' = tab_id t \<and> (\<not> hit t \<longrightarrow> t' = t) \<and> (\<not> emptied t \<longrightarrow>
     tab_panes t' = filter (\<lambda>p. \<not> picks p) (tab_panes t) \<and> (tab_ratios_ok t \<longrightarrow> tab_ratios_ok t'))"

lemma select_Nil: "grid_of t = Some g \<Longrightarrow> select g = [] \<longleftrightarrow> \<not> hit t"
  by (auto simp: hit_def select_panes filter_empty_conv list_ex_iff)

lemma not_hit_filter: "\<not> hit t \<Longrightarrow> filter (\<lambda>p. \<not> picks p) (tab_panes t) = tab_panes t"
  by (auto simp: hit_def list_ex_iff intro: filter_True)

lemma close_loop_step:
  assumes "distinct (map pane_id (tab_panes t))"
  shows "\<exists>t'. keeps t t' \<and> close_loop ln64 select (t # ts) =
    (case close_loop ln64 select ts of (ts', upd, rem) \<Rightarrow>
       (t' # ts', (if hit t \<and> \<not> emptied t then t' # upd else upd),
        (if emptied t then tab_id t # rem else rem)))"
proof (cases "grid_of t")
  case None
  then have "\<not> hit t" "\<not> emptied t" "keeps t t" by (auto simp: hit_def emptied_def keeps_def)
  with None show ?thesis by (intro exI [of _ t]) (simp split: prod.split)
next
  case (Some g)
  then have g: "distinct (pane_ids g)" "tab_panes t = collect_panes g" using assms by auto
  show ?thesis
  proof (cases "hit t")
    case False
    then have "\<not> emptied t" "keeps t t"
      using emptied_hit by (auto simp: keeps_def not_hit_filter)
    with False Some select_Nil [OF Some] show ?thesis
      by (intro exI [of _ t]) (simp split: prod.split)
  next
    case True
    obtain e g' where eg: "close_listed g (select g) = (e, g')" by fastforce
    have e: "e \<longleftrightarrow> emptied t"
      using close_selected(1) [OF g(1)] eg by (simp add: emptied_def g(2))
    let ?t = "t\<lparr>content := TabGrid g'\<rparr>"
    let ?t' = "if e then ?t else reapplied ln64 ?t"
    have "keeps t ?t'"
      using close_selected(2,3) [OF g(1)] eg Some True
      by (auto simp: keeps_def emptied_def g(2) tab_ratios_ok_simps)
    with True Some select_Nil [OF Some] eg e show ?thesis
      by (intro exI [of _ ?t']) (simp add: Let_def split: prod.split)
  qed
qed

lemma close_loop_spec:
  assumes "\<forall>t \<in> set tabs. distinct (map pane_id (tab_panes t))"
  shows "\<exists>tabs'. list_all2 keeps tabs tabs' \<and>
    close_loop ln64 select tabs =
      (tabs', map snd (filter (\<lambda>(t, t'). hit t \<and> \<not> emptied t) (zip tabs tabs')),
       map tab_id (filter emptied tabs))"
  using assms
proof (induction tabs)
  case (Cons t ts)
  then obtain ts' where "list_all2 keeps ts ts'" "close_loop ln64 select ts =
      (ts', map snd (filter (\<lambda>(t, t'). hit t \<and> \<not> emptied t) (zip ts ts')),
       map tab_id (filter emptied ts))" by auto
  moreover obtain t' where "keeps t t'" "close_loop ln64 select (t # ts) =
    (case close_loop ln64 select ts of (ts', upd, rem) \<Rightarrow>
       (t' # ts', (if hit t \<and> \<not> emptied t then t' # upd else upd),
        (if emptied t then tab_id t # rem else rem)))"
    using close_loop_step [of t ln64 ts] Cons.prems by auto
  ultimately show ?case by (intro exI [of _ "t' # ts'"]) simp
qed simp

lemma keeps_ids: "list_all2 keeps tabs tabs' \<Longrightarrow> map tab_id tabs' = map tab_id tabs"
  by (induction rule: list_all2_induct) (auto simp: keeps_def)

lemma retain_survivors:
  assumes "list_all2 keeps tabs tabs'" and "distinct (map tab_id tabs)"
  shows "list_all2 keeps (filter (\<lambda>t. \<not> emptied t) tabs)
    (filter (\<lambda>t'. tab_id t' \<notin> tab_id ` {t \<in> set tabs. emptied t}) tabs')"
  using assms
proof (induction rule: list_all2_induct)
  case (Cons t ts t' ts')
  then have "tab_id t' = tab_id t" "tab_id t \<notin> tab_id ` set ts" by (auto simp: keeps_def)
  moreover have "filter (\<lambda>t'. tab_id t' \<notin> tab_id ` {u \<in> set (t # ts). emptied u}) ts' =
      filter (\<lambda>t'. tab_id t' \<notin> tab_id ` {u \<in> set ts. emptied u}) ts'"
    using calculation(2) keeps_ids [OF Cons.hyps(2)]
    by (intro filter_cong) (auto, metis image_eqI image_set)
  ultimately show ?case using Cons by auto
qed simp

lemma keeps_panes:
  "list_all2 keeps (filter (\<lambda>t. \<not> emptied t) tabs) tabs' \<Longrightarrow>
     all_panes tabs' = filter (\<lambda>p. \<not> picks p) (all_panes tabs)"
proof (induction tabs arbitrary: tabs')
  case (Cons t ts)
  show ?case
  proof (cases "emptied t")
    case True
    then have "filter (\<lambda>p. \<not> picks p) (tab_panes t) = []"
      by (auto simp: emptied_def list_all_iff filter_empty_conv)
    with True Cons show ?thesis by simp
  next
    case False
    with Cons.prems obtain u us where u: "tabs' = u # us" "keeps t u"
        "list_all2 keeps (filter (\<lambda>t. \<not> emptied t) ts) us"
      by (auto simp: list_all2_Cons1)
    from u(2) False have "tab_panes u = filter (\<lambda>p. \<not> picks p) (tab_panes t)"
      by (simp add: keeps_def)
    with u Cons.IH show ?thesis by simp
  qed
qed simp

lemma keeps_ratios:
  "list_all2 keeps (filter (\<lambda>t. \<not> emptied t) tabs) tabs' \<Longrightarrow> list_all tab_ratios_ok tabs \<Longrightarrow>
     list_all tab_ratios_ok tabs'"
  by (induction tabs arbitrary: tabs') (auto simp: list_all2_Cons1 keeps_def split: if_splits)

lemma tab_distinct: "wf_tabs tabs \<Longrightarrow> t \<in> set tabs \<Longrightarrow> distinct (map pane_id (tab_panes t))"
  by (auto simp: wf_tabs_def dest!: split_list)

lemma close_panes_where_zip:
  assumes "wf_tabs tabs" and "close_panes_where ln64 tabs select = (res, tabs')"
  obtains us where "list_all2 keeps tabs us"
    and "updated res = map snd (filter (\<lambda>(t, t'). hit t \<and> \<not> emptied t) (zip tabs us))"
    and "removed_tab_ids res = map tab_id (filter emptied tabs)"
    and "tabs' = filter (\<lambda>t'. tab_id t' \<notin> set (map tab_id (filter emptied tabs))) us"
proof -
  from tab_distinct [OF assms(1)] close_loop_spec [of tabs ln64] obtain us where
    us: "list_all2 keeps tabs us" "close_loop ln64 select tabs =
      (us, map snd (filter (\<lambda>(t, t'). hit t \<and> \<not> emptied t) (zip tabs us)),
       map tab_id (filter emptied tabs))" by blast
  with assms(2) show thesis by (intro that [of us]) (auto simp: close_panes_where_def)
qed

lemma close_panes_where_spec:
  assumes "wf_tabs tabs" and "close_panes_where ln64 tabs select = (res, tabs')"
  shows "all_panes tabs' = filter (\<lambda>p. \<not> picks p) (all_panes tabs)"
    and "map tab_id tabs' = map tab_id (filter (\<lambda>t. \<not> emptied t) tabs)"
    and "removed_tab_ids res = map tab_id (filter emptied tabs)"
    and "map tab_id (updated res) = map tab_id (filter (\<lambda>t. hit t \<and> \<not> emptied t) tabs)"
    and "wf_tabs tabs'"
proof -
  from close_panes_where_zip [OF assms] obtain us where us: "list_all2 keeps tabs us"
    and upd: "updated res = map snd (filter (\<lambda>(t, t'). hit t \<and> \<not> emptied t) (zip tabs us))"
    and rem: "removed_tab_ids res = map tab_id (filter emptied tabs)"
    and tabs': "tabs' = filter (\<lambda>t'. tab_id t' \<notin> tab_id ` {t \<in> set tabs. emptied t}) us" by auto
  have keep: "list_all2 keeps (filter (\<lambda>t. \<not> emptied t) tabs) tabs'"
    unfolding tabs' using retain_survivors [OF us] assms(1) by (simp add: wf_tabs_def)
  show panes: "all_panes tabs' = filter (\<lambda>p. \<not> picks p) (all_panes tabs)"
    by (rule keeps_panes [OF keep])
  show ids: "map tab_id tabs' = map tab_id (filter (\<lambda>t. \<not> emptied t) tabs)"
    by (rule keeps_ids [OF keep])
  show "removed_tab_ids res = map tab_id (filter emptied tabs)" by (rule rem)
  show "map tab_id (updated res) = map tab_id (filter (\<lambda>t. hit t \<and> \<not> emptied t) tabs)"
    unfolding upd using us by (induction rule: list_all2_induct) (auto simp: keeps_def)
  show "wf_tabs tabs'"
    using assms(1) keeps_ratios [OF keep]
    by (simp add: wf_tabs_def panes ids distinct_map_filter)
qed

end

interpretation session_panes: pane_select "\<lambda>grid. panes_for_session grid sid"
    "\<lambda>p. host p = None \<and> session_id p = Some sid"
  for sid
  by unfold_locales (simp add: panes_for_session_def panes_where_def)

interpretation host_panes: pane_select
    "\<lambda>grid. panes_where grid (\<lambda>pane_host s. pane_host = Some target \<and>
       (all \<or> (case s of None \<Rightarrow> False | Some s \<Rightarrow> s \<in> set session_ids)))"
    "\<lambda>p. host p = Some target \<and>
       (all \<or> (case session_id p of None \<Rightarrow> False | Some s \<Rightarrow> s \<in> set session_ids))"
  for target session_ids all
  by unfold_locales (simp add: panes_where_def)

end
