(* ===== verification/Tab_Ops.thy ===== *)
theory Tab_Ops
  imports Tabs
begin

text \<open>
  What the tab operations of \<open>crates/daemon/src/tabs.rs\<close> do, on every branch: which panes a
  list holds afterwards, in which tab, and that the list stays well formed (\<open>wf_tabs\<close>).
\<close>

section \<open>Replacing one tab\<close>

lemma wf_tabs_tab:
  assumes "wf_tabs (xs @ t # ys)"
  shows "distinct (map pane_id (tab_panes t))" and "tab_ratios_ok t"
    and "tab_id t \<notin> tab_id ` set xs" and "tab_id t \<notin> tab_id ` set ys"
    and "pane_id ` set (tab_panes t) \<inter> pane_id ` set (all_panes (xs @ ys)) = {}"
  using assms by (auto simp: wf_tabs_def)

lemma wf_tabs_update:
  assumes "wf_tabs (xs @ t # ys)" and "tab_id t' = tab_id t"
    and "distinct (map pane_id (tab_panes t'))"
    and "pane_id ` set (tab_panes t') \<inter> pane_id ` set (all_panes (xs @ ys)) = {}"
    and "tab_ratios_ok t'"
  shows "wf_tabs (xs @ t' # ys)"
proof -
  from assms(1,2) have "distinct (map tab_id (xs @ t' # ys))"
    "list_all tab_ratios_ok (xs @ ys)" "distinct (map pane_id (all_panes (xs @ ys)))"
    by (auto simp: wf_tabs_def)
  moreover from assms(4) have
    "pane_id ` set (tab_panes t') \<inter> pane_id ` set (all_panes xs) = {}"
    "pane_id ` set (tab_panes t') \<inter> pane_id ` set (all_panes ys) = {}"
    by auto
  ultimately show ?thesis using assms(3,5) by (simp add: wf_tabs_def Int_Un_distrib Int_commute)
qed

lemma wf_tabs_shrink:
  assumes "wf_tabs (xs @ t # ys)" and "tab_id t' = tab_id t"
    and "distinct (map pane_id (tab_panes t'))"
    and "pane_id ` set (tab_panes t') \<subseteq> pane_id ` set (tab_panes t)"
    and "tab_ratios_ok t'"
  shows "wf_tabs (xs @ t' # ys)"
  using wf_tabs_update [OF assms(1,2,3) _ assms(5)] wf_tabs_tab(5) [OF assms(1)] assms(4) by blast

lemma wf_tabs_remove: "wf_tabs (xs @ t # ys) \<Longrightarrow> wf_tabs (xs @ ys)"
  by (auto simp: wf_tabs_def)

lemma wf_tabs_push:
  assumes "wf_tabs tabs" and "tab_id t \<notin> tab_id ` set tabs"
    and "distinct (map pane_id (tab_panes t))"
    and "pane_id ` set (tab_panes t) \<inter> pane_id ` set (all_panes tabs) = {}"
    and "tab_ratios_ok t"
  shows "wf_tabs (tabs @ [t])"
  using assms by (auto simp: wf_tabs_def)

lemma wf_tabs_permute:
  assumes "mset tabs' = mset tabs"
  shows "wf_tabs tabs' \<longleftrightarrow> wf_tabs tabs"
proof -
  have "distinct (map tab_id tabs') \<longleftrightarrow> distinct (map tab_id tabs)"
    using assms by (metis mset_eq_imp_distinct_iff mset_map)
  moreover have "distinct (map pane_id (all_panes tabs')) \<longleftrightarrow> distinct (map pane_id (all_panes tabs))"
    using all_panes_mset_permute [OF assms] by (metis mset_eq_imp_distinct_iff mset_map)
  moreover have "set tabs' = set tabs" using assms by (metis set_mset_mset)
  ultimately show ?thesis by (simp add: wf_tabs_def list_all_iff)
qed

lemma filter_other_tabs:
  assumes "wf_tabs (xs @ t # ys)" and "tab_id t = tid" and "tab_id t' = tid"
  shows "filter (\<lambda>u. tab_id u \<noteq> tid) (xs @ t' # ys) = xs @ ys"
proof -
  have "filter (\<lambda>u. tab_id u \<noteq> tid) xs = xs" "filter (\<lambda>u. tab_id u \<noteq> tid) ys = ys"
    using wf_tabs_tab(3,4) [OF assms(1)] assms(2)
    by (auto simp: image_iff intro!: filter_True)
  with assms(3) show ?thesis by simp
qed

lemma tab_unique:
  assumes "wf_tabs tabs" and "tabs = xs @ t # ys" and "u \<in> set tabs" and "tab_id u = tab_id t"
  shows "u = t"
proof -
  from assms(1,2) wf_tabs_tab(3,4) [of xs t ys]
  have "tab_id t \<notin> tab_id ` set xs" "tab_id t \<notin> tab_id ` set ys" by auto
  with assms(2,3,4) show ?thesis by (auto simp: image_iff)
qed

lemma pane_unique_tab:
  assumes "wf_tabs (xs @ t # ys)" and "p \<in> pane_id ` set (tab_panes t)"
  shows "p \<notin> pane_id ` set (all_panes xs)" and "p \<notin> pane_id ` set (all_panes ys)"
  using wf_tabs_tab(5) [OF assms(1)] assms(2) by auto

section \<open>Splitting\<close>

lemma split_tab_pane_spec:
  assumes "distinct (map pane_id (tab_panes t))" and "target \<in> pane_id ` set (tab_panes t)"
  obtains t' where "split_tab_pane ln64 t target d pl (new_pane fresh s h) = Ok (fresh, t')"
    and "tab_id t' = tab_id t" and "picked_layout t' = picked_layout t"
    and "tab_panes t' = subst_pane target
      (split_with pl \<lparr>pane_id = fresh, session_id = s, host = h\<rparr>) (tab_panes t)"
    and "tab_ratios_ok t \<Longrightarrow> tab_ratios_ok t'"
proof -
  from assms(2) obtain g where g: "grid_of t = Some g" by (cases "grid_of t") auto
  with assms have "distinct (pane_ids g)" "target \<in> set (pane_ids g)" by auto
  then obtain g' where g': "split_pane g target d pl (Pane fresh s h) = Ok (fresh, g')"
      "collect_panes g' = subst_pane target
        (split_with pl \<lparr>pane_id = fresh, session_id = s, host = h\<rparr>) (collect_panes g)"
      "ratios_ok g \<Longrightarrow> ratios_ok g'"
    by (rule split_pane_present [where d = d and pl = pl and npid = fresh and s = s and h = h]) blast
  let ?t = "t\<lparr>content := TabGrid g'\<rparr>"
  show thesis
    by (rule that [of "reapplied ln64 ?t"])
       (use g g' in \<open>simp_all add: split_tab_pane_def new_pane_def grid_or_err_mut_def grid_or_err_def\<close>)
qed

lemma set_split_with: "set (split_with pl np p) = {np, p}"
  by (cases pl) (auto simp: split_with_def)

lemma subst_split_ids:
  assumes "distinct (map pane_id ps)" and "t \<in> pane_id ` set ps" and "pane_id np \<notin> pane_id ` set ps"
  shows "distinct (map pane_id (subst_pane t (split_with pl np) ps))"
    and "pane_id ` set (subst_pane t (split_with pl np) ps) = insert (pane_id np) (pane_id ` set ps)"
proof -
  from assms(1,2) obtain xs p ys where *: "ps = xs @ p # ys" "pane_id p = t"
      "\<And>f. subst_pane t f ps = xs @ f p @ ys"
    by (rule subst_pane_split) blast
  show "distinct (map pane_id (subst_pane t (split_with pl np) ps))"
    unfolding *(3) using assms *(1) by (cases pl) (auto simp: split_with_def)
  show "pane_id ` set (subst_pane t (split_with pl np) ps) = insert (pane_id np) (pane_id ` set ps)"
    unfolding *(3) using *(1) by (auto simp: set_split_with)
qed

lemma split_tab_pane_wf:
  assumes wf: "wf_tabs (xs @ t # ys)" and "target \<in> pane_id ` set (tab_panes t)"
    and "fresh \<notin> pane_id ` set (all_panes (xs @ t # ys))"
    and split: "split_tab_pane ln64 t target d pl (new_pane fresh s h) = Ok (r, t')"
  shows "wf_tabs (xs @ t' # ys)"
proof -
  let ?np = "\<lparr>pane_id = fresh, session_id = s, host = h\<rparr>"
  from split_tab_pane_spec [OF wf_tabs_tab(1) [OF wf] assms(2), of ln64 d pl fresh s h] split
  have t': "tab_id t' = tab_id t" "tab_ratios_ok t'"
    "tab_panes t' = subst_pane target (split_with pl ?np) (tab_panes t)"
    using wf_tabs_tab(2) [OF wf] by auto
  have "pane_id ?np \<notin> pane_id ` set (tab_panes t)" using assms(3) by auto
  note ids = subst_split_ids [OF wf_tabs_tab(1) [OF wf] assms(2) this, of pl]
  show ?thesis
    by (rule wf_tabs_update [OF wf t'(1) _ _ t'(2)])
       (use ids assms(3) wf_tabs_tab(5) [OF wf] t'(3) in auto)
qed

section \<open>Closing one pane\<close>

lemma filter_pane_absent: "t \<notin> pane_id ` set ps \<Longrightarrow> filter (\<lambda>p. pane_id p \<noteq> t) ps = ps"
  by (rule filter_True) (auto simp: image_iff)

lemma tab_grid_of_pane:
  assumes "pid \<in> pane_id ` set (tab_panes t)"
  obtains g where "grid_of t = Some g" and "pid \<in> set (pane_ids g)"
  using assms by (cases "grid_of t") auto

lemma close_tab_pane_spec:
  assumes "distinct (map pane_id (tab_panes t))" and "pid \<in> pane_id ` set (tab_panes t)"
  obtains t' where
      "close_tab_pane ln64 t pid = Ok (map pane_id (tab_panes t) = [pid], t')"
    and "tab_id t' = tab_id t" and "picked_layout t' = picked_layout t"
    and "map pane_id (tab_panes t) \<noteq> [pid] \<Longrightarrow>
      tab_panes t' = filter (\<lambda>p. pane_id p \<noteq> pid) (tab_panes t)"
    and "tab_ratios_ok t \<Longrightarrow> tab_ratios_ok t'"
proof -
  from assms(2) obtain g where g: "grid_of t = Some g" "pid \<in> set (pane_ids g)"
    by (rule tab_grid_of_pane)
  then have d: "distinct (pane_ids g)" and ps: "tab_panes t = collect_panes g" using assms by auto
  show thesis
  proof (cases "pane_ids g = [pid]")
    case True
    with g ps show thesis
      by (intro that [of "t\<lparr>content := TabGrid g\<rparr>"])
         (simp_all add: close_tab_pane_def grid_or_err_mut_def grid_or_err_def close_pane_last)
  next
    case False
    from close_pane_present [OF d g(2) False] obtain g' where
      "close_pane g pid = Ok (False, g')"
      "collect_panes g' = filter (\<lambda>p. pane_id p \<noteq> pid) (collect_panes g)"
      "ratios_ok g \<Longrightarrow> ratios_ok g'" by blast
    with g ps False show thesis
      by (intro that [of "reapplied ln64 (t\<lparr>content := TabGrid g'\<rparr>)"])
         (simp_all add: close_tab_pane_def grid_or_err_mut_def grid_or_err_def)
  qed
qed

lemma close_tab_pane_err:
  "pid \<notin> pane_id ` set (tab_panes t) \<Longrightarrow>
     close_tab_pane ln64 t pid =
       Err (if grid_of t = None then NotAGridTab (tab_id t) else PaneNotFound pid)"
  by (cases "grid_of t")
     (auto simp: close_tab_pane_def grid_or_err_mut_def grid_or_err_def close_pane_absent)

lemma close_pane_in_tabs_spec:
  assumes wf: "wf_tabs (xs @ t # ys)" and "tab_id t = tid" and pid: "pid \<in> pane_id ` set (tab_panes t)"
  obtains res tabs' where "close_pane_in_tabs ln64 (xs @ t # ys) tid pid = Ok (res, tabs')"
    and "all_panes tabs' = filter (\<lambda>p. pane_id p \<noteq> pid) (all_panes (xs @ t # ys))"
    and "wf_tabs tabs'"
    and "map pane_id (tab_panes t) = [pid] \<Longrightarrow> res = ClosedRemoved tid \<and> tabs' = xs @ ys"
    and "map pane_id (tab_panes t) \<noteq> [pid] \<Longrightarrow>
      \<exists>t'. res = ClosedUpdated t' \<and> tab_id t' = tid \<and> tabs' = xs @ t' # ys"
proof -
  let ?last = "map pane_id (tab_panes t) = [pid]"
  note x = wf_tabs_tab(3) [OF wf, unfolded assms(2)] and pu = pane_unique_tab [OF wf pid]
  from close_tab_pane_spec [OF wf_tabs_tab(1) [OF wf] pid] obtain t' where
    t': "close_tab_pane ln64 t pid = Ok (?last, t')" "tab_id t' = tab_id t"
      "\<not> ?last \<Longrightarrow> tab_panes t' = filter (\<lambda>p. pane_id p \<noteq> pid) (tab_panes t)"
      "tab_ratios_ok t'"
    using wf_tabs_tab(2) [OF wf] by metis
  show thesis
  proof (cases ?last)
    case True
    then have "filter (\<lambda>p. pane_id p \<noteq> pid) (tab_panes t) = []" by (auto simp: filter_empty_conv)
    then have panes: "all_panes (xs @ ys) = filter (\<lambda>p. pane_id p \<noteq> pid) (all_panes (xs @ t # ys))"
      by (simp add: filter_pane_absent pu)
    have "filter (\<lambda>u. tab_id u \<noteq> tid) (xs @ t' # ys) = xs @ ys"
      using filter_other_tabs [OF wf assms(2)] t'(2) assms(2) by simp
    with True t'(1) have res:
      "close_pane_in_tabs ln64 (xs @ t # ys) tid pid = Ok (ClosedRemoved tid, xs @ ys)"
      by (simp add: close_pane_in_tabs_def find_tab_mut_split x assms(2) del: filter_append)
    show thesis
      by (rule that [OF res panes]) (use True wf_tabs_remove [OF wf] in simp_all)
  next
    case False
    have "wf_tabs (xs @ t' # ys)"
      by (rule wf_tabs_shrink [OF wf t'(2) _ _ t'(4)])
         (use t'(3) [OF False] wf_tabs_tab(1) [OF wf] in \<open>auto simp: distinct_map_filter\<close>)
    with False t' show thesis
      by (intro that [of "ClosedUpdated t'" "xs @ t' # ys"])
         (simp_all add: close_pane_in_tabs_def find_tab_mut_split x assms(2) filter_pane_absent pu)
  qed
qed

section \<open>Inserting and moving\<close>

lemma mset_insert_with:
  "edge \<noteq> Replace \<Longrightarrow> mset (insert_with edge qs p) = add_mset p (mset qs)"
  by (simp add: insert_with_def)

lemma mset_subst_insert:
  assumes "distinct (map pane_id ps)" and "t \<in> pane_id ` set ps" and "edge \<noteq> Replace"
  shows "mset (subst_pane t (insert_with edge qs) ps) = mset ps + mset qs"
proof -
  from assms(1,2) obtain xs p ys where
    "ps = xs @ p # ys" "\<And>f. subst_pane t f ps = xs @ f p @ ys" by (rule subst_pane_split) blast
  with assms(3) show ?thesis by (simp add: mset_insert_with)
qed

lemma insert_adjacent_err:
  "insert_adjacent g dst edge src = Err e \<longleftrightarrow>
     outer_edge_layout edge = None \<and> dst \<notin> set (pane_ids g) \<and> e = DestinationPaneNotFound dst"
  by (auto simp: insert_adjacent_def split: option.splits)

lemma insert_adjacent_mset:
  assumes "distinct (pane_ids g)" and "insert_adjacent g dst edge src = Ok g'" and "edge \<noteq> Replace"
  shows "mset (collect_panes g') = mset (collect_panes g) + mset (collect_panes src)"
proof (cases "outer_edge_layout edge")
  case None
  with assms(2) have "dst \<in> set (pane_ids g)" "g' = insert_in g dst edge src"
    by (auto simp: insert_adjacent_def split: if_splits)
  with assms None show ?thesis
    by (simp add: insert_in_collect mset_subst_insert)
next
  case (Some l)
  with assms(2) show ?thesis
    by (cases l) (auto simp: insert_adjacent_def add.commute split: if_splits)
qed

lemma insert_adjacent_ratios:
  assumes "distinct (pane_ids g)" and "insert_adjacent g dst edge src = Ok g'"
    and "ratios_ok g" and "ratios_ok src"
  shows "ratios_ok g'"
proof (cases "outer_edge_layout edge")
  case None
  with assms show ?thesis
    by (auto simp: insert_adjacent_def insert_in_collect(2) split: if_splits)
next
  case (Some l)
  with assms show ?thesis
    by (cases l) (auto simp: insert_adjacent_def split: if_splits)
qed

text \<open>Pulling a pane out of a tree, on every branch.\<close>

lemma extract_pane_Ok:
  assumes "distinct (pane_ids g)" and "extract_pane g t = Ok (node, emp, g')"
  obtains s h where "node = Pane t s h"
    and "\<lparr>pane_id = t, session_id = s, host = h\<rparr> \<in> set (collect_panes g)"
    and "emp \<longleftrightarrow> pane_ids g = [t]"
    and "emp \<Longrightarrow> g' = placeholder \<and> collect_panes g = [\<lparr>pane_id = t, session_id = s, host = h\<rparr>]"
    and "\<not> emp \<Longrightarrow> collect_panes g' = filter (\<lambda>p. pane_id p \<noteq> t) (collect_panes g)"
    and "\<not> emp \<Longrightarrow> ratios_ok g \<Longrightarrow> ratios_ok g'"
proof -
  have t: "t \<in> set (pane_ids g)"
    using assms(2) extract_pane_absent by (metis Inl_Inr_False)
  show thesis
  proof (cases "is_pane t g")
    case True
    then obtain s h where "g = Pane t s h" by (auto dest: is_pane_collect)
    with assms(2) show thesis by (intro that [of s h]) (auto simp: extract_pane_single)
  next
    case False
    from extract_pane_present [OF assms(1) t False] obtain s h g2 where
      "extract_pane g t = Ok (Pane t s h, False, g2)"
      "\<lparr>pane_id = t, session_id = s, host = h\<rparr> \<in> set (collect_panes g)"
      "collect_panes g2 = filter (\<lambda>p. pane_id p \<noteq> t) (collect_panes g)"
      "ratios_ok g \<Longrightarrow> ratios_ok g2" by blast
    with assms(2) False show thesis by (intro that [of s h]) (auto simp: is_pane_iff)
  qed
qed

lemma mset_filter_out:
  fixes ps :: "PaneRef list"
  assumes "distinct (map pane_id ps)" and "p \<in> set ps"
  shows "add_mset p (mset (filter (\<lambda>q. pane_id q \<noteq> pane_id p) ps)) = mset ps"
  using mset_subst_pane [OF assms refl, of "\<lambda>_. []"] by (simp add: subst_pane_remove)

lemma mset_ids_distinct:
  fixes ps qs :: "PaneRef list"
  assumes "mset ps = mset qs"
  shows "distinct (map pane_id ps) \<longleftrightarrow> distinct (map pane_id qs)" and "set ps = set qs"
  using assms by (metis mset_eq_imp_distinct_iff mset_map, metis set_mset_mset)

text \<open>A swap of two bindings in one tree.\<close>

definition bind_as :: "PaneRef \<Rightarrow> PaneRef \<Rightarrow> PaneRef" where
  "bind_as q p = p\<lparr>session_id := session_id q, host := host q\<rparr>"

text \<open>The pane list with the bindings of panes \<open>p\<close> and \<open>q\<close> exchanged.\<close>

definition swap_bindings :: "PaneRef \<Rightarrow> PaneRef \<Rightarrow> PaneRef list \<Rightarrow> PaneRef list" where
  "swap_bindings p q = map (\<lambda>r. if pane_id r = pane_id p then bind_as q r
                              else if pane_id r = pane_id q then bind_as p r else r)"

lemma swap_bindings_ids [simp]: "map pane_id (swap_bindings p q ps) = map pane_id ps"
  by (auto simp: swap_bindings_def bind_as_def)

lemma swap_bindings_image [simp]: "pane_id ` set (swap_bindings p q ps) = pane_id ` set ps"
  by (metis image_set swap_bindings_ids)

lemma swap_bindings_append [simp]:
  "swap_bindings p q (ps @ qs) = swap_bindings p q ps @ swap_bindings p q qs"
  by (simp add: swap_bindings_def)

lemma swap_bindings_absent:
  "pane_id p \<notin> pane_id ` set ps \<Longrightarrow> pane_id q \<notin> pane_id ` set ps \<Longrightarrow> swap_bindings p q ps = ps"
  unfolding swap_bindings_def by (rule map_idI) (auto simp: image_iff)

lemma subst_single: "subst_pane t (\<lambda>p. [f p]) ps = map (\<lambda>p. if pane_id p = t then f p else p) ps"
  by (induction ps) auto

lemma find_pane:
  fixes ps :: "PaneRef list"
  assumes "distinct (map pane_id ps)" and "p \<in> set ps"
  shows "List.find (\<lambda>q. pane_id q = pane_id p) ps = Some p"
  using assms
proof (induction ps)
  case (Cons a ps)
  then show ?case by (auto simp: image_iff)
qed simp

lemma pane_session_found:
  assumes "distinct (pane_ids g)" and "p \<in> set (collect_panes g)"
  shows "pane_session g (pane_id p) = Some (session_id p, host p)"
  by (simp add: pane_session_eq find_pane [OF assms])

lemma pane_session_None: "pane_session g t = None \<longleftrightarrow> t \<notin> set (pane_ids g)"
  by (auto simp: pane_session_eq find_None_iff)

lemma replace_pane_session_Ok:
  assumes "distinct (pane_ids g)" and "p \<in> set (collect_panes g)"
  obtains g' where "replace_pane_session g (pane_id p) s h = Ok g'"
    and "collect_panes g' =
      map (\<lambda>q. if pane_id q = pane_id p then q\<lparr>session_id := s, host := h\<rparr> else q) (collect_panes g)"
    and "ratios_ok g \<Longrightarrow> ratios_ok g'"
proof -
  from assms(2) have "pane_id p \<in> set (pane_ids g)" by simp
  from replace_session_in_present [OF assms(1) this, of s h] that show thesis
    by (auto simp: replace_pane_session_def subst_single)
qed

lemma swap_pane_sessions_spec:
  assumes d: "distinct (pane_ids g)" and p: "p \<in> set (collect_panes g)" and q: "q \<in> set (collect_panes g)"
  obtains g' where "swap_pane_sessions g (pane_id p) (pane_id q) = Ok g'"
    and "collect_panes g' = swap_bindings p q (collect_panes g)"
    and "ratios_ok g \<Longrightarrow> ratios_ok g'"
proof (cases "pane_id p = pane_id q")
  case True
  with d p q have "p = q" by (auto simp: distinct_map dest: inj_onD)
  moreover have "swap_bindings p p (collect_panes g) = collect_panes g"
  proof -
    have *: "r = p" if "r \<in> set (collect_panes g)" "pane_id r = pane_id p" for r
      using d p that by (auto simp: distinct_map dest: inj_onD)
    show ?thesis
      unfolding swap_bindings_def by (rule map_idI) (auto simp: bind_as_def dest!: *)
  qed
  ultimately show thesis by (intro that [of g]) (simp_all add: swap_pane_sessions_def)
next
  case False
  from replace_pane_session_Ok [OF d p, where s = "session_id q" and h = "host q"] obtain g1 where
    g1: "replace_pane_session g (pane_id p) (session_id q) (host q) = Ok g1"
      "collect_panes g1 = map (\<lambda>r. if pane_id r = pane_id p
         then r\<lparr>session_id := session_id q, host := host q\<rparr> else r) (collect_panes g)"
      "ratios_ok g \<Longrightarrow> ratios_ok g1" by blast
  have d1: "distinct (pane_ids g1)" using d by (simp add: g1(2) comp_def if_distrib cong: if_cong)
  have q1: "q \<in> set (collect_panes g1)" using q False by (force simp: g1(2))
  from replace_pane_session_Ok [OF d1 q1, where s = "session_id p" and h = "host p"] obtain g2 where
    g2: "replace_pane_session g1 (pane_id q) (session_id p) (host p) = Ok g2"
      "collect_panes g2 = map (\<lambda>r. if pane_id r = pane_id q
         then r\<lparr>session_id := session_id p, host := host p\<rparr> else r) (collect_panes g1)"
      "ratios_ok g1 \<Longrightarrow> ratios_ok g2" by blast
  have "swap_pane_sessions g (pane_id p) (pane_id q) = Ok g2"
    using False g1(1) g2(1) by (simp add: swap_pane_sessions_def pane_session_found [OF d] p q)
  moreover have "collect_panes g2 = swap_bindings p q (collect_panes g)"
    using False by (auto simp: g2(2) g1(2) swap_bindings_def bind_as_def)
  ultimately show thesis using g1(3) g2(3) by (intro that [of g2]) auto
qed

lemma swap_pane_sessions_Ok:
  assumes "swap_pane_sessions g a b = Ok g'" and d: "distinct (pane_ids g)"
  shows "pane_ids g' = pane_ids g" and "ratios_ok g \<Longrightarrow> ratios_ok g'"
proof -
  have "pane_ids g' = pane_ids g \<and> (ratios_ok g \<longrightarrow> ratios_ok g')"
  proof (cases "a = b")
    case True
    with assms(1) show ?thesis by (simp add: swap_pane_sessions_def)
  next
    case False
    with assms(1) have "pane_session g a \<noteq> None" "pane_session g b \<noteq> None"
      by (auto simp: swap_pane_sessions_def split: option.splits)
    then obtain p q where p: "p \<in> set (collect_panes g)" "pane_id p = a"
      and q: "q \<in> set (collect_panes g)" "pane_id q = b" by (auto simp: pane_session_None)
    from swap_pane_sessions_spec [OF d p(1) q(1)] obtain g2 where
      "swap_pane_sessions g a b = Ok g2" "collect_panes g2 = swap_bindings p q (collect_panes g)"
      "ratios_ok g \<Longrightarrow> ratios_ok g2" by (auto simp: p(2) q(2))
    with assms(1) show ?thesis by simp
  qed
  then show "pane_ids g' = pane_ids g" and "ratios_ok g \<Longrightarrow> ratios_ok g'" by blast+
qed

text \<open>Rearranging one tree by a move within its tab.\<close>

definition move_in_grid :: "GridNode \<Rightarrow> PaneMove \<Rightarrow> tab_error + GridNode" where
  "move_in_grid before mv =
     (if mv_edge mv = Replace then
        swap_pane_sessions before (mv_src_pane_id mv) (mv_dst_pane_id mv)
      else
        and_then (extract_pane before (mv_src_pane_id mv)) (\<lambda>(extracted, source_empty, grid).
          if source_empty then Err OnlyPaneOfTab
          else insert_adjacent grid (mv_dst_pane_id mv) (mv_edge mv) extracted))"

lemma move_within_tab_alt:
  "move_within_tab tabs mv =
     find_tab_mut tabs (mv_src_tab_id mv) (\<lambda>tab.
       and_then (grid_or_err tab) (\<lambda>before.
       and_then (move_in_grid before mv) (\<lambda>grid.
         let tab' = tab\<lparr>content := TabGrid grid\<rparr> in
         if node_eq grid before then Ok ([], tab')
         else Ok ([MovedUpdated (touch tab')], touch tab'))))"
  by (simp add: move_within_tab_def move_in_grid_def)

lemma move_in_grid_mset:
  assumes d: "distinct (pane_ids g)" and mv: "move_in_grid g mv = Ok g'" and "mv_edge mv \<noteq> Replace"
  shows "mset (collect_panes g') = mset (collect_panes g)" and "ratios_ok g \<Longrightarrow> ratios_ok g'"
proof -
  from mv assms(3) obtain node g1 where
    ex: "extract_pane g (mv_src_pane_id mv) = Ok (node, False, g1)"
    and ins: "insert_adjacent g1 (mv_dst_pane_id mv) (mv_edge mv) node = Ok g'"
    by (auto simp: move_in_grid_def and_then_eq_Inr split: if_splits)
  from extract_pane_Ok [OF d ex] obtain s h where
    node: "node = Pane (mv_src_pane_id mv) s h"
    and p: "\<lparr>pane_id = mv_src_pane_id mv, session_id = s, host = h\<rparr> \<in> set (collect_panes g)"
    and g1: "collect_panes g1 = filter (\<lambda>p. pane_id p \<noteq> mv_src_pane_id mv) (collect_panes g)"
      "ratios_ok g \<Longrightarrow> ratios_ok g1" by metis
  have d1: "distinct (pane_ids g1)" using d by (simp add: g1(1) distinct_map_filter)
  show "mset (collect_panes g') = mset (collect_panes g)"
    using insert_adjacent_mset [OF d1 ins assms(3)] mset_filter_out [OF d p]
    by (simp add: node g1(1))
  show "ratios_ok g \<Longrightarrow> ratios_ok g'"
    using insert_adjacent_ratios [OF d1 ins] g1(2) by (simp add: node)
qed

lemma move_within_tab_Ok:
  assumes "move_within_tab tabs mv = Ok (evs, tabs')"
  obtains xs t ys g g' t' where "tabs = xs @ t # ys" and "tab_id t = mv_src_tab_id mv"
    and "mv_src_tab_id mv \<notin> tab_id ` set xs"
    and "grid_of t = Some g" and "move_in_grid g mv = Ok g'" and "tabs' = xs @ t' # ys"
    and "tab_id t' = tab_id t" and "grid_of t' = Some g'"
    and "evs = (if node_eq g' g then [] else [MovedUpdated t'])"
    and "picked_layout t' = (if node_eq g' g then picked_layout t else None)"
proof -
  obtain xs t t' ys where
    *: "tabs = xs @ t # ys" "mv_src_tab_id mv \<notin> tab_id ` set xs" "tab_id t = mv_src_tab_id mv"
      "tabs' = xs @ t' # ys" and
    f: "and_then (grid_or_err t) (\<lambda>before. and_then (move_in_grid before mv) (\<lambda>grid.
         let tab' = t\<lparr>content := TabGrid grid\<rparr> in
         if node_eq grid before then Ok ([], tab')
         else Ok ([MovedUpdated (touch tab')], touch tab'))) = Ok (evs, t')"
    by (rule find_tab_mut_Ok [OF assms [unfolded move_within_tab_alt]]) blast
  from f obtain g g' where "grid_of t = Some g" "move_in_grid g mv = Ok g'"
    "evs = (if node_eq g' g then [] else [MovedUpdated t'])"
    "t' = (if node_eq g' g then t\<lparr>content := TabGrid g'\<rparr> else touch (t\<lparr>content := TabGrid g'\<rparr>))"
    by (auto simp: and_then_eq_Inr grid_or_err_def Let_def split: option.splits if_splits)
  with * show thesis by (intro that [of xs t ys g g' t']) (auto simp: touch_def)
qed

lemma move_within_tab_mset:
  assumes wf: "wf_tabs tabs" and mv: "move_within_tab tabs mv = Ok (evs, tabs')"
    and "mv_edge mv \<noteq> Replace"
  shows "mset (all_panes tabs') = mset (all_panes tabs)" and "wf_tabs tabs'"
    and "map tab_id tabs' = map tab_id tabs"
proof -
  from move_within_tab_Ok [OF mv] obtain xs t ys g g' t' where
    *: "tabs = xs @ t # ys" "grid_of t = Some g" "move_in_grid g mv = Ok g'" "tabs' = xs @ t' # ys"
      "tab_id t' = tab_id t" "grid_of t' = Some g'" by metis
  note wf' = wf [unfolded *(1)]
  have d: "distinct (pane_ids g)" and r: "ratios_ok g" using wf_tabs_tab(1,2) [OF wf'] *(2) by simp_all
  note m = move_in_grid_mset [OF d *(3) assms(3)]
  show "mset (all_panes tabs') = mset (all_panes tabs)" using * m(1) by simp
  show "map tab_id tabs' = map tab_id tabs" using * by simp
  show "wf_tabs tabs'"
    unfolding *(4)
    by (rule wf_tabs_shrink [OF wf' *(5)])
       (use * m(2) [OF r] d mset_ids_distinct [OF m(1)] in auto)
qed

text \<open>A move across tabs: the source half leaves the list a close would leave.\<close>

lemma take_source_spec:
  assumes wf: "wf_tabs tabs" and take: "take_source ln64 tabs mv = Ok ((node, ev), tabs')"
  obtains p where "p \<in> set (all_panes tabs)" and "node = to_node p" and "pane_id p = mv_src_pane_id mv"
    and "all_panes tabs' = filter (\<lambda>q. pane_id q \<noteq> pane_id p) (all_panes tabs)"
    and "wf_tabs tabs'" and "set (map tab_id tabs') \<subseteq> set (map tab_id tabs)"
proof -
  let ?src = "mv_src_pane_id mv" and ?tid = "mv_src_tab_id mv"
  from take obtain emp st us where
    find: "find_tab_mut tabs ?tid (\<lambda>src_tab.
          and_then
            (grid_or_err_mut src_tab (\<lambda>grid.
               and_then (extract_pane grid ?src)
                 (\<lambda>(extracted, source_empty, grid'). Ok ((extracted, source_empty), grid'))))
            (\<lambda>((extracted, source_empty), src_tab').
               let src_tab'' = (if source_empty then src_tab' else reapplied ln64 src_tab')
               in Ok ((extracted, source_empty, src_tab''), src_tab''))) = Ok ((node, emp, st), us)"
    and tabs': "emp \<longrightarrow> tabs' = filter (\<lambda>t. tab_id t \<noteq> ?tid) us" "\<not> emp \<longrightarrow> tabs' = us"
    by (auto simp: take_source_def and_then_eq_Inr split: if_splits)
  from find obtain xs t ys g g' where *: "tabs = xs @ t # ys" "tab_id t = ?tid"
      "us = xs @ st # ys" "grid_of t = Some g" "extract_pane g ?src = Ok (node, emp, g')"
      "st = (if emp then t\<lparr>content := TabGrid g'\<rparr> else reapplied ln64 (t\<lparr>content := TabGrid g'\<rparr>))"
    by (rule find_tab_mut_Ok)
       (auto simp: and_then_eq_Inr grid_or_err_mut_Ok Let_def)
  note wf' = wf [unfolded *(1)]
  have d: "distinct (pane_ids g)" and r: "ratios_ok g" using wf_tabs_tab(1,2) [OF wf'] *(4) by simp_all
  from extract_pane_Ok [OF d *(5)] obtain s h where
    node: "node = Pane ?src s h"
    and p: "\<lparr>pane_id = ?src, session_id = s, host = h\<rparr> \<in> set (collect_panes g)"
    and emp: "emp \<Longrightarrow> collect_panes g = [\<lparr>pane_id = ?src, session_id = s, host = h\<rparr>]"
    and nemp: "\<not> emp \<Longrightarrow> collect_panes g' = filter (\<lambda>p. pane_id p \<noteq> ?src) (collect_panes g)"
      "\<not> emp \<Longrightarrow> ratios_ok g'"
    using r by metis
  have src: "?src \<in> pane_id ` set (tab_panes t)" using p *(4) by force
  note pu = pane_unique_tab [OF wf' src]
  have st: "tab_id st = ?tid" using *(2,6) by simp
  show thesis
  proof (rule that [of "\<lparr>pane_id = ?src, session_id = s, host = h\<rparr>"])
    show "all_panes tabs' = filter (\<lambda>q. pane_id q \<noteq> pane_id \<lparr>pane_id = ?src, session_id = s, host = h\<rparr>)
        (all_panes tabs)"
      using *(1,3,4,6) filter_other_tabs [OF wf' *(2) st] emp nemp(1) pu
      by (cases emp) (simp_all add: tabs' filter_pane_absent del: filter_append,
        simp_all add: filter_pane_absent)
    show "wf_tabs tabs'"
    proof (cases emp)
      case True
      with *(3) filter_other_tabs [OF wf' *(2) st] wf_tabs_remove [OF wf'] show ?thesis
        by (simp add: tabs' del: filter_append)
    next
      case False
      have "wf_tabs (xs @ st # ys)"
        by (rule wf_tabs_shrink [OF wf'])
           (use *(4,6) False nemp d in \<open>auto simp: distinct_map_filter\<close>)
      with False *(3) show ?thesis by (simp add: tabs')
    qed
    show "set (map tab_id tabs') \<subseteq> set (map tab_id tabs)"
      using *(1,2,3) st tabs' by (cases emp) auto
  qed (use *(1,4) p in \<open>auto simp: node to_node_def\<close>)
qed

lemma insert_destination_mset:
  assumes wf: "wf_tabs tabs" and ins: "insert_destination ln64 tabs mv (to_node p) = Ok (dst, tabs')"
    and "mv_edge mv \<noteq> Replace" and new: "pane_id p \<notin> pane_id ` set (all_panes tabs)"
  shows "mset (all_panes tabs') = add_mset p (mset (all_panes tabs))" and "wf_tabs tabs'"
    and "map tab_id tabs' = map tab_id tabs" and "dst \<in> set tabs'" and "p \<in> set (tab_panes dst)"
    and "tab_id dst = mv_dst_tab_id mv"
proof -
  from ins [unfolded insert_destination_def] obtain xs t ys g g' where *: "tabs = xs @ t # ys"
      "tabs' = xs @ dst # ys" "grid_of t = Some g" "tab_id t = mv_dst_tab_id mv"
      "insert_adjacent g (mv_dst_pane_id mv) (mv_edge mv) (to_node p) = Ok g'"
      "dst = (if mv_touch mv then touch (t\<lparr>content := TabGrid g'\<rparr>)
              else reapplied ln64 (t\<lparr>content := TabGrid g'\<rparr>))"
    by (rule find_tab_mut_Ok) (auto simp: and_then_eq_Inr grid_or_err_mut_Ok Let_def)
  note wf' = wf [unfolded *(1)]
  have d: "distinct (pane_ids g)" and r: "ratios_ok g" using wf_tabs_tab(1,2) [OF wf'] *(3) by simp_all
  have m: "mset (collect_panes g') = add_mset p (mset (collect_panes g))"
    using insert_adjacent_mset [OF d *(5) assms(3)] by simp
  have dst: "tab_panes dst = collect_panes g'" "tab_id dst = tab_id t" "tab_ratios_ok dst"
    using *(6) insert_adjacent_ratios [OF d *(5) r] by simp_all
  have set': "set (collect_panes g') = insert p (set (collect_panes g))"
    using m by (metis set_mset_add_mset_insert set_mset_mset)
  have "mset (pane_ids g') = mset (map pane_id (p # collect_panes g))" using m by simp
  from mset_eq_imp_distinct_iff [OF this] have d': "distinct (pane_ids g')"
    using d new *(1,3) by auto
  show "mset (all_panes tabs') = add_mset p (mset (all_panes tabs))" using * m dst(1) by simp
  show "wf_tabs tabs'"
    unfolding *(2)
    by (rule wf_tabs_update [OF wf' dst(2)])
       (use dst d' set' new *(1,3) wf_tabs_tab(5) [OF wf'] in auto)
  show "map tab_id tabs' = map tab_id tabs" "dst \<in> set tabs'" using *(1,2) dst(2) by simp_all
  show "p \<in> set (tab_panes dst)" using dst(1) set' by simp
  show "tab_id dst = mv_dst_tab_id mv" using dst(2) *(4) by simp
qed

text \<open>Dropping onto the centre of a pane in another tab overwrites that pane's binding.\<close>

definition rebind_pane :: "string \<Rightarrow> string option \<Rightarrow> string option \<Rightarrow> PaneRef list \<Rightarrow> PaneRef list" where
  "rebind_pane pid s h = map (\<lambda>q. if pane_id q = pid then q\<lparr>session_id := s, host := h\<rparr> else q)"

lemma rebind_pane_simps [simp]:
  "rebind_pane pid s h (ps @ qs) = rebind_pane pid s h ps @ rebind_pane pid s h qs"
  "map pane_id (rebind_pane pid s h ps) = map pane_id ps"
  by (auto simp: rebind_pane_def)

lemma rebind_pane_ids [simp]: "pane_id ` set (rebind_pane pid s h ps) = pane_id ` set ps"
  by (metis image_set rebind_pane_simps(2))

lemma rebind_pane_absent: "pid \<notin> pane_id ` set ps \<Longrightarrow> rebind_pane pid s h ps = ps"
  unfolding rebind_pane_def by (rule map_idI) (auto simp: image_iff)

lemma wf_tabs_rebind:
  assumes wf: "wf_tabs (xs @ t # ys)" and "tab_id t' = tab_id t" and "tab_ratios_ok t'"
    and "tab_panes t' = rebind_pane pid s h (tab_panes t)" and "pid \<in> pane_id ` set (tab_panes t)"
  shows "wf_tabs (xs @ t' # ys)"
    and "all_panes (xs @ t' # ys) = rebind_pane pid s h (all_panes (xs @ t # ys))"
  by (rule wf_tabs_shrink [OF wf assms(2)])
     (use assms wf_tabs_tab(1) [OF wf] pane_unique_tab [OF wf assms(5)]
      in \<open>simp_all add: rebind_pane_absent\<close>)

lemma insert_destination_replace:
  assumes wf: "wf_tabs tabs" and ins: "insert_destination ln64 tabs mv (to_node p) = Ok (dst, tabs')"
    and "mv_edge mv = Replace"
  shows "all_panes tabs' = rebind_pane (mv_dst_pane_id mv) (session_id p) (host p) (all_panes tabs)"
    and "wf_tabs tabs'" and "map tab_id tabs' = map tab_id tabs"
proof -
  from ins [unfolded insert_destination_def] obtain xs t ys g g' where *: "tabs = xs @ t # ys"
      "tabs' = xs @ dst # ys" "grid_of t = Some g"
      "insert_adjacent g (mv_dst_pane_id mv) Replace (to_node p) = Ok g'"
      "dst = (if mv_touch mv then touch (t\<lparr>content := TabGrid g'\<rparr>)
              else reapplied ln64 (t\<lparr>content := TabGrid g'\<rparr>))"
    unfolding assms(3)
    by (rule find_tab_mut_Ok) (auto simp: and_then_eq_Inr grid_or_err_mut_Ok Let_def)
  note wf' = wf [unfolded *(1)]
  have d: "distinct (pane_ids g)" and r: "ratios_ok g" using wf_tabs_tab(1,2) [OF wf'] *(3) by simp_all
  from *(4) have mem: "mv_dst_pane_id mv \<in> set (pane_ids g)"
    and g': "g' = insert_in g (mv_dst_pane_id mv) Replace (to_node p)"
    by (auto simp: insert_adjacent_def split: if_splits)
  have "insert_with Replace [p] = (\<lambda>q. [q\<lparr>session_id := session_id p, host := host p\<rparr>])"
    by (auto simp: insert_with_def)
  then have panes: "collect_panes g' =
      rebind_pane (mv_dst_pane_id mv) (session_id p) (host p) (collect_panes g)"
    using insert_in_collect(1) [OF d mem, of Replace "to_node p"]
    by (simp add: g' rebind_pane_def subst_single)
  have dst: "tab_panes dst = collect_panes g'" "tab_id dst = tab_id t" "tab_ratios_ok dst"
    using *(5) insert_adjacent_ratios [OF d *(4) r] by simp_all
  note w = wf_tabs_rebind [OF wf' dst(2,3), of "mv_dst_pane_id mv" "session_id p" "host p"]
  show "all_panes tabs' = rebind_pane (mv_dst_pane_id mv) (session_id p) (host p) (all_panes tabs)"
    and "wf_tabs tabs'" and "map tab_id tabs' = map tab_id tabs"
    using w mem *(1,2,3) dst panes by simp_all
qed

section \<open>Swapping\<close>

lemma write_binding_spec:
  assumes wf: "wf_tabs (xs @ t # ys)" and tid: "tab_id t = tid" and p: "p \<in> set (tab_panes t)"
  obtains t' where "write_binding (xs @ t # ys) tid (pane_id p) s h = Ok (t', xs @ t' # ys)"
    and "tab_id t' = tid" and "picked_layout t' = None"
    and "tab_panes t' = rebind_pane (pane_id p) s h (tab_panes t)"
    and "all_panes (xs @ t' # ys) = rebind_pane (pane_id p) s h (all_panes (xs @ t # ys))"
    and "wf_tabs (xs @ t' # ys)"
proof -
  from p obtain g where g: "grid_of t = Some g" by (cases "grid_of t") auto
  have d: "distinct (pane_ids g)" and r: "ratios_ok g" using wf_tabs_tab(1,2) [OF wf] g by simp_all
  from p g have "p \<in> set (collect_panes g)" by simp
  from replace_pane_session_Ok [OF d this, where s = s and h = h] obtain g' where
    g': "replace_pane_session g (pane_id p) s h = Ok g'"
      "collect_panes g' = rebind_pane (pane_id p) s h (collect_panes g)" "ratios_ok g'"
    using r by (auto simp: rebind_pane_def)
  let ?t = "touch (t\<lparr>content := TabGrid g'\<rparr>)"
  have "write_binding (xs @ t # ys) tid (pane_id p) s h = Ok (?t, xs @ ?t # ys)"
    using g g'(1) tid wf_tabs_tab(3) [OF wf]
    by (simp add: write_binding_def find_tab_mut_split grid_or_err_mut_def grid_or_err_def)
  moreover have "tab_panes ?t = rebind_pane (pane_id p) s h (tab_panes t)" using g g'(2) by simp
  moreover note wf_tabs_rebind [OF wf _ _ this]
  ultimately show thesis using g'(3) tid p by (intro that [of ?t]) simp_all
qed

lemma pane_session_at_spec:
  assumes wf: "wf_tabs (xs @ t # ys)" and "tab_id t = tid" and p: "p \<in> set (tab_panes t)"
  shows "pane_session_at (xs @ t # ys) tid (pane_id p) = Ok (session_id p, host p)"
proof -
  from p obtain g where g: "grid_of t = Some g" by (cases "grid_of t") auto
  have "List.find (\<lambda>u. tab_id u = tid) (xs @ t # ys) = Some t"
    using wf_tabs_tab(3) [OF wf] assms(2) by (induction xs) auto
  with g p pane_session_found [of g p] wf_tabs_tab(1) [OF wf] show ?thesis
    by (simp add: pane_session_at_def grid_or_err_def)
qed

lemma rebind_pane_swap:
  assumes "distinct (map pane_id ps)" and "p \<in> set ps" and "q \<in> set ps" and "pane_id p \<noteq> pane_id q"
  shows "rebind_pane (pane_id q) (session_id p) (host p)
    (rebind_pane (pane_id p) (session_id q) (host q) ps) = swap_bindings p q ps"
  using assms(4) by (auto simp: rebind_pane_def swap_bindings_def bind_as_def)

lemma swap_panes_same_tab:
  assumes wf: "wf_tabs (xs @ t # ys)" and t: "tab_id t = tid"
    and p: "p \<in> set (tab_panes t)" and q: "q \<in> set (tab_panes t)"
  obtains t' where
      "swap_panes (xs @ t # ys) \<lparr>sw_src_tab_id = tid, sw_src_pane_id = pane_id p,
         sw_dst_tab_id = tid, sw_dst_pane_id = pane_id q\<rparr> = Ok ([MovedUpdated t'], xs @ t' # ys)"
    and "all_panes (xs @ t' # ys) = swap_bindings p q (all_panes (xs @ t # ys))"
    and "wf_tabs (xs @ t' # ys)" and "tab_id t' = tid" and "picked_layout t' = None"
proof -
  from p obtain g where g: "grid_of t = Some g" by (cases "grid_of t") auto
  have d: "distinct (pane_ids g)" and r: "ratios_ok g" using wf_tabs_tab(1,2) [OF wf] g by simp_all
  from swap_pane_sessions_spec [OF d, of p q] p q g r obtain g' where
    g': "swap_pane_sessions g (pane_id p) (pane_id q) = Ok g'"
      "collect_panes g' = swap_bindings p q (collect_panes g)" "ratios_ok g'" by auto
  let ?t = "touch (t\<lparr>content := TabGrid g'\<rparr>)"
  have "swap_panes (xs @ t # ys) \<lparr>sw_src_tab_id = tid, sw_src_pane_id = pane_id p,
      sw_dst_tab_id = tid, sw_dst_pane_id = pane_id q\<rparr> = Ok ([MovedUpdated ?t], xs @ ?t # ys)"
    using g g'(1) t wf_tabs_tab(3) [OF wf]
    by (simp add: swap_panes_def find_tab_mut_split grid_or_err_mut_def grid_or_err_def)
  moreover have "wf_tabs (xs @ ?t # ys)"
    by (rule wf_tabs_shrink [OF wf])
       (use g g' d in simp_all)
  moreover have "all_panes (xs @ ?t # ys) = swap_bindings p q (all_panes (xs @ t # ys))"
    using g g'(2) pane_unique_tab [OF wf] p q by (simp add: swap_bindings_absent)
  ultimately show thesis using t by (intro that [of ?t]) simp_all
qed

lemma swap_panes_cross_tab:
  assumes wf: "wf_tabs tabs" and t: "t \<in> set tabs" "p \<in> set (tab_panes t)"
    and u: "u \<in> set tabs" "q \<in> set (tab_panes u)" and ne: "tab_id t \<noteq> tab_id u"
  obtains t' u' tabs' where
      "swap_panes tabs \<lparr>sw_src_tab_id = tab_id t, sw_src_pane_id = pane_id p,
         sw_dst_tab_id = tab_id u, sw_dst_pane_id = pane_id q\<rparr> =
       Ok ([MovedUpdated t', MovedUpdated u'], tabs')"
    and "all_panes tabs' = swap_bindings p q (all_panes tabs)" and "wf_tabs tabs'"
    and "map tab_id tabs' = map tab_id tabs"
    and "tab_id t' = tab_id t" and "tab_id u' = tab_id u"
    and "picked_layout t' = None" and "picked_layout u' = None"
    and "t' \<in> set tabs'" and "u' \<in> set tabs'"
proof -
  let ?sw = "\<lparr>sw_src_tab_id = tab_id t, sw_src_pane_id = pane_id p,
         sw_dst_tab_id = tab_id u, sw_dst_pane_id = pane_id q\<rparr>"
  from t(1) obtain xs ys where ts: "tabs = xs @ t # ys" by (auto dest: split_list)
  from u(1) obtain xs' ys' where us: "tabs = xs' @ u # ys'" by (auto dest: split_list)
  note wft = wf [unfolded ts] and wfu = wf [unfolded us]
  have read: "pane_session_at tabs (tab_id t) (pane_id p) = Ok (session_id p, host p)"
    "pane_session_at tabs (tab_id u) (pane_id q) = Ok (session_id q, host q)"
    using pane_session_at_spec [OF wft refl t(2)] pane_session_at_spec [OF wfu refl u(2)]
    by (simp_all flip: ts us)
  from write_binding_spec [OF wft refl t(2), where s = "session_id q" and h = "host q"]
  obtain t' where t': "write_binding tabs (tab_id t) (pane_id p) (session_id q) (host q) =
      Ok (t', xs @ t' # ys)" "tab_id t' = tab_id t" "picked_layout t' = None"
      "all_panes (xs @ t' # ys) = rebind_pane (pane_id p) (session_id q) (host q) (all_panes tabs)"
      "wf_tabs (xs @ t' # ys)" unfolding ts by blast
  have "u \<in> set (xs @ t' # ys)" using u(1) ne ts by auto
  from split_list [OF this] obtain xs2 ys2 where us2: "xs @ t' # ys = xs2 @ u # ys2" by blast
  from write_binding_spec [OF t'(5) [unfolded us2] refl u(2), where s = "session_id p" and h = "host p"]
  obtain u' where u': "write_binding (xs2 @ u # ys2) (tab_id u) (pane_id q) (session_id p) (host p) =
      Ok (u', xs2 @ u' # ys2)" "tab_id u' = tab_id u" "picked_layout u' = None"
      "all_panes (xs2 @ u' # ys2) =
        rebind_pane (pane_id q) (session_id p) (host p) (all_panes (xs2 @ u # ys2))"
      "wf_tabs (xs2 @ u' # ys2)" by blast
  have pq: "p \<in> set (all_panes tabs)" "q \<in> set (all_panes tabs)" "pane_id p \<noteq> pane_id q"
    using t u ne pane_unique_tab [OF wft, of "pane_id p"] by (auto simp: ts all_panes_def)
  have "swap_panes tabs ?sw = Ok ([MovedUpdated t', MovedUpdated u'], xs2 @ u' # ys2)"
    using ne read t'(1) u'(1) us2 by (simp add: swap_panes_def)
  moreover have "all_panes (xs2 @ u' # ys2) = swap_bindings p q (all_panes tabs)"
  proof -
    from wf have "distinct (map pane_id (all_panes tabs))" by (simp add: wf_tabs_def)
    from rebind_pane_swap [OF this pq] show ?thesis by (simp only: u'(4) us2 [symmetric] t'(4))
  qed
  moreover have "map tab_id (xs2 @ u' # ys2) = map tab_id tabs"
    using arg_cong [OF us2, of "map tab_id"] ts t'(2) u'(2) by simp
  moreover have "t' \<in> set (xs @ t' # ys)" "t' \<noteq> u" using t'(2) ne by auto
  then have "t' \<in> set (xs2 @ u' # ys2)" unfolding us2 by auto
  moreover have "u' \<in> set (xs2 @ u' # ys2)" by simp
  ultimately show thesis using t' u' by (intro that) blast+
qed

section \<open>Merging\<close>

lemma mset_filter_disj:
  "(\<And>x. \<not> (A x \<and> B x)) \<Longrightarrow> mset (filter (\<lambda>x. A x \<or> B x) xs) = mset (filter A xs) + mset (filter B xs)"
  by (induction xs) auto

lemma all_panes_filter_disj:
  assumes "\<And>x. \<not> (A x \<and> B x)"
  shows "mset (all_panes (filter (\<lambda>x. A x \<or> B x) tabs)) =
    mset (all_panes (filter A tabs)) + mset (all_panes (filter B tabs))"
proof -
  have "mset (filter (\<lambda>x. A x \<or> B x) tabs) = mset (filter A tabs @ filter B tabs)"
    using mset_filter_disj [OF assms] by simp
  from all_panes_mset_permute [OF this] show ?thesis by simp
qed

lemma find_tab:
  assumes "wf_tabs tabs" and "List.find (\<lambda>t. tab_id t = i) tabs = Some t"
  shows "t \<in> set tabs" and "tab_id t = i" and "filter (\<lambda>t. tab_id t = i) tabs = [t]"
proof -
  from assms(2) obtain xs ys where *: "tabs = xs @ t # ys" "tab_id t = i" by (rule find_Some_split)
  then show "t \<in> set tabs" "tab_id t = i" by simp_all
  note wf = assms(1) [unfolded *(1)]
  have "filter (\<lambda>t. tab_id t = i) xs = []" "filter (\<lambda>t. tab_id t = i) ys = []"
    using wf_tabs_tab(3,4) [OF wf] *(2) by (auto simp: filter_empty_conv image_iff)
  with * show "filter (\<lambda>t. tab_id t = i) tabs = [t]" by simp
qed

lemma collect_merge_panes:
  assumes "wf_tabs tabs" and "distinct ids" and "collect_merge tabs ids = Ok ps"
  shows "mset ps = mset (all_panes (filter (\<lambda>t. tab_id t \<in> set ids) tabs))"
    and "ps = concat (map (\<lambda>i. concat (map tab_panes (filter (\<lambda>t. tab_id t = i) tabs))) ids)"
    and "set ids \<subseteq> tab_id ` set tabs"
proof -
  have "mset ps = mset (all_panes (filter (\<lambda>t. tab_id t \<in> set ids) tabs)) \<and>
    ps = concat (map (\<lambda>i. concat (map tab_panes (filter (\<lambda>t. tab_id t = i) tabs))) ids) \<and>
    set ids \<subseteq> tab_id ` set tabs"
    using assms(2,3)
  proof (induction ids arbitrary: ps)
    case (Cons i ids)
    then obtain t g qs where t: "List.find (\<lambda>t. tab_id t = i) tabs = Some t" "grid_of t = Some g"
        and qs: "collect_merge tabs ids = Ok qs" "ps = collect_panes g @ qs"
      by (auto simp: and_then_eq_Inr grid_or_err_def split: option.splits)
    note f = find_tab [OF assms(1) t(1)]
    have "mset (all_panes (filter (\<lambda>t. tab_id t \<in> set (i # ids)) tabs)) =
        mset (tab_panes t) + mset (all_panes (filter (\<lambda>t. tab_id t \<in> set ids) tabs))"
      using all_panes_filter_disj [of "\<lambda>t. tab_id t = i" "\<lambda>t. tab_id t \<in> set ids" tabs] Cons.prems(1) f(3)
      by auto
    with Cons.IH [OF _ qs(1)] Cons.prems(1) qs(2) t(2) f show ?case by auto
  qed simp
  then show "mset ps = mset (all_panes (filter (\<lambda>t. tab_id t \<in> set ids) tabs))"
    and "ps = concat (map (\<lambda>i. concat (map tab_panes (filter (\<lambda>t. tab_id t = i) tabs))) ids)"
    and "set ids \<subseteq> tab_id ` set tabs" by blast+
qed

lemma all_panes_partition:
  "mset (all_panes (filter (\<lambda>t. \<not> P t) tabs)) + mset (all_panes (filter P tabs)) = mset (all_panes tabs)"
  by (induction tabs) auto

lemma merge_tabs_Ok:
  assumes "merge_tabs fresh now tabs ids nm l = Ok (entry, tabs')"
  obtains ps where "collect_merge tabs ids = Ok ps" and "2 \<le> length ids"
    and "tab_panes entry = ps" and "tab_ratios_ok entry" and "tab_id entry = fresh"
    and "tabs' = filter (\<lambda>t. tab_id t \<notin> set ids) tabs @ [entry]"
  using assms that
  by (auto simp: merge_tabs_def and_then_eq_Inr Let_def balanced.build_SomeD
    split: if_splits option.splits MergeLayout.splits)

lemma merge_tabs_spec:
  assumes wf: "wf_tabs tabs" and ids: "distinct ids"
    and merge: "merge_tabs fresh now tabs ids nm l = Ok (entry, tabs')"
  shows "mset (all_panes tabs') = mset (all_panes tabs)"
    and "tab_panes entry = concat (map (\<lambda>i. concat (map tab_panes (filter (\<lambda>t. tab_id t = i) tabs))) ids)"
    and "fresh \<notin> tab_id ` set tabs \<Longrightarrow> wf_tabs tabs'"
proof -
  from merge_tabs_Ok [OF merge] obtain ps where ps: "collect_merge tabs ids = Ok ps"
      "tab_panes entry = ps" "tab_ratios_ok entry" "tab_id entry = fresh"
      "tabs' = filter (\<lambda>t. tab_id t \<notin> set ids) tabs @ [entry]" by blast
  note c = collect_merge_panes [OF wf ids ps(1)]
  show m: "mset (all_panes tabs') = mset (all_panes tabs)"
    using all_panes_partition [of "\<lambda>t. tab_id t \<in> set ids" tabs] c(1) ps(2,5) by simp
  show "tab_panes entry = concat (map (\<lambda>i. concat (map tab_panes (filter (\<lambda>t. tab_id t = i) tabs))) ids)"
    using c(2) ps(2) by simp
  assume "fresh \<notin> tab_id ` set tabs"
  with wf ps(3,4,5) mset_ids_distinct(1) [OF m] show "wf_tabs tabs'"
    by (auto simp: wf_tabs_def distinct_map_filter list_all_iff)
qed

section \<open>Extracting to a new tab\<close>

lemma extract_listed_spec:
  assumes "distinct (pane_ids g)" and "extract_listed g pids acc = Ok (ex, emp, g')"
  shows "if emp then mset ex = mset acc + mset (collect_panes g)
    else mset ex + mset (collect_panes g') = mset acc + mset (collect_panes g) \<and>
         collect_panes g' = filter (\<lambda>p. pane_id p \<notin> set pids) (collect_panes g) \<and>
         map pane_id ex = map pane_id acc @ pids \<and> (ratios_ok g \<longrightarrow> ratios_ok g')"
  using assms
proof (induction g pids acc rule: extract_listed.induct)
  case (2 g pid rest acc)
  from "2.prems"(2) obtain node e1 g1 where
    ext: "extract_pane g pid = Ok (node, e1, g1)" by (auto simp: and_then_eq_Inr)
  from extract_pane_Ok [OF "2.prems"(1) ext] obtain s h where
    node: "node = Pane pid s h"
    and p: "\<lparr>pane_id = pid, session_id = s, host = h\<rparr> \<in> set (collect_panes g)"
    and e1: "e1 \<Longrightarrow> collect_panes g = [\<lparr>pane_id = pid, session_id = s, host = h\<rparr>]"
    and ne: "\<not> e1 \<Longrightarrow> collect_panes g1 = filter (\<lambda>p. pane_id p \<noteq> pid) (collect_panes g)"
      "\<not> e1 \<Longrightarrow> ratios_ok g \<Longrightarrow> ratios_ok g1" by metis
  let ?p = "\<lparr>pane_id = pid, session_id = s, host = h\<rparr>"
  show ?case
  proof (cases e1)
    case True
    with "2.prems"(2) ext node e1 show ?thesis by auto
  next
    case False
    with "2.prems"(2) ext node have rest: "extract_listed g1 rest (acc @ [?p]) = Ok (ex, emp, g')"
      by simp
    have "distinct (pane_ids g1)" using "2.prems"(1) by (simp add: ne(1) [OF False] distinct_map_filter)
    note IH = "2.IH" [OF ext refl refl node refl False this rest]
    have m: "mset (collect_panes g) = add_mset ?p (mset (collect_panes g1))"
      using mset_filter_out [OF "2.prems"(1) p] by (simp add: ne(1) [OF False])
    have f: "filter (\<lambda>p. pane_id p \<notin> set rest) (collect_panes g1) =
        filter (\<lambda>p. pane_id p \<notin> set (pid # rest)) (collect_panes g)"
      by (simp add: ne(1) [OF False])
    show ?thesis
    proof (cases emp)
      case True
      with IH m show ?thesis by simp
    next
      case emp: False
      note I = IH [unfolded if_not_P [OF emp]]
      have "mset ex + mset (collect_panes g') = mset acc + mset (collect_panes g)"
        using conjunct1 [OF I] m by simp
      moreover have "collect_panes g' = filter (\<lambda>p. pane_id p \<notin> set (pid # rest)) (collect_panes g)"
        using conjunct1 [OF conjunct2 [OF I]] f by (rule trans)
      ultimately show ?thesis using conjunct2 [OF conjunct2 [OF I]] emp ne(2) [OF False] by simp
    qed
  qed
qed simp

lemma extract_to_new_tab_Ok:
  assumes "extract_to_new_tab ln64 fresh now tabs tid pids nm l = Ok (out, tabs')"
  obtains xs t ys g ex emp g' t' where "tabs = xs @ t # ys" and "tab_id t = tid"
    and "grid_of t = Some g" and "extract_listed g pids [] = Ok (ex, emp, g')" and "pids \<noteq> []"
    and "tab_id t' = tid" and "tab_panes t' = collect_panes g'"
    and "\<not> emp \<Longrightarrow> ratios_ok g' \<Longrightarrow> tab_ratios_ok t'"
    and "tab_panes (new_tab out) = ex" and "tab_ratios_ok (new_tab out)"
    and "tab_id (new_tab out) = fresh"
    and "tabs' = (if emp then filter (\<lambda>t. tab_id t \<noteq> tid) (xs @ t' # ys) else xs @ t' # ys) @ [new_tab out]"
    and "source_left out = (if emp then None else Some t')"
proof -
  from assms obtain ex emp us where
    find: "find_tab_mut tabs tid (\<lambda>src.
           and_then
             (grid_or_err_mut src (\<lambda>grid.
                and_then (extract_listed grid pids [])
                  (\<lambda>(extracted, source_empty, grid'). Ok ((extracted, source_empty), grid'))))
             (\<lambda>((extracted, source_empty), src').
                Ok ((extracted, source_empty),
                    if source_empty then src' else reapplied ln64 src'))) = Ok ((ex, emp), us)"
    and pids: "pids \<noteq> []"
    and nt: "build_for_layout ln64 ex (case l of Some l \<Rightarrow> l | None \<Rightarrow> LayoutHorizontal) =
        tab_grid (content (new_tab out))" "tab_id (new_tab out) = fresh"
      "tab_grid (content (new_tab out)) \<noteq> None"
    and tabs': "tabs' = (if emp then filter (\<lambda>t. tab_id t \<noteq> tid) us else us) @ [new_tab out]"
    and src: "source_left out = (if emp then None else List.find (\<lambda>t. tab_id t = tid) us)"
    unfolding extract_to_new_tab_def
    by (cases "pids = []") (auto simp: and_then_eq_Inr Let_def split: option.split_asm if_split_asm)
  from find obtain xs t ys g g' t' where *: "tabs = xs @ t # ys" "tid \<notin> tab_id ` set xs"
      "tab_id t = tid" "us = xs @ t' # ys"
      "grid_of t = Some g" "extract_listed g pids [] = Ok (ex, emp, g')"
      "t' = (if emp then t\<lparr>content := TabGrid g'\<rparr> else reapplied ln64 (t\<lparr>content := TabGrid g'\<rparr>))"
    by (rule find_tab_mut_Ok) (auto simp: and_then_eq_Inr grid_or_err_mut_Ok)
  from nt(1,3) have "tab_panes (new_tab out) = ex" "tab_ratios_ok (new_tab out)"
    by (auto simp: layout.build_SomeD)
  moreover have "List.find (\<lambda>t. tab_id t = tid) us = Some t'"
    using * by (induction xs arbitrary: us tabs) auto
  moreover have "tab_id t' = tid" "tab_panes t' = collect_panes g'" "\<not> emp \<Longrightarrow> ratios_ok g' \<Longrightarrow> tab_ratios_ok t'"
    using *(3,7) by simp_all
  ultimately show thesis
    using *(1-6) nt(2) tabs' src pids by (intro that [of xs t ys g ex emp g' t']) simp_all
qed

lemma extract_to_new_tab_spec:
  assumes wf: "wf_tabs tabs"
    and ext: "extract_to_new_tab ln64 fresh now tabs tid pids nm l = Ok (out, tabs')"
  shows "mset (all_panes tabs') = mset (all_panes tabs)"
    and "fresh \<notin> tab_id ` set tabs \<Longrightarrow> wf_tabs tabs'"
    and "source_left out \<noteq> None \<Longrightarrow> map pane_id (tab_panes (new_tab out)) = pids"
proof -
  obtain xs t ys g ex emp g' t' where
    *: "tabs = xs @ t # ys" "tab_id t = tid"
      "grid_of t = Some g" "extract_listed g pids [] = Ok (ex, emp, g')" "pids \<noteq> []"
    and t': "tab_id t' = tid" "tab_panes t' = collect_panes g'"
      "\<not> emp \<Longrightarrow> ratios_ok g' \<Longrightarrow> tab_ratios_ok t'"
    and out: "tab_panes (new_tab out) = ex" "tab_ratios_ok (new_tab out)" "tab_id (new_tab out) = fresh"
    and tabs': "tabs' = (if emp then filter (\<lambda>t. tab_id t \<noteq> tid) (xs @ t' # ys) else xs @ t' # ys) @ [new_tab out]"
    and src: "source_left out = (if emp then None else Some t')"
    by (rule extract_to_new_tab_Ok [OF ext]) (rule that)
  note wf' = wf [unfolded *(1)]
  have d: "distinct (pane_ids g)" and r: "ratios_ok g" using wf_tabs_tab(1,2) [OF wf'] *(3) by simp_all
  note e = extract_listed_spec [OF d *(4)]
  have left: "tabs' = (if emp then xs @ ys else xs @ t' # ys) @ [new_tab out]"
    using filter_other_tabs [OF wf' *(2) t'(1)] tabs' by simp
  show m: "mset (all_panes tabs') = mset (all_panes tabs)"
  proof (cases emp)
    case True
    with e *(1,3) out(1) show ?thesis by (simp add: left)
  next
    case False
    from conjunct1 [OF e [unfolded if_not_P [OF False]]]
    have "mset (collect_panes g') + mset ex = mset (collect_panes g)" by (simp add: add.commute)
    with False *(1,3) t'(2) out(1) show ?thesis by (simp add: left)
  qed
  show "source_left out \<noteq> None \<Longrightarrow> map pane_id (tab_panes (new_tab out)) = pids"
    using e src out(1) by (auto split: if_splits)
  assume "fresh \<notin> tab_id ` set tabs"
  with wf mset_ids_distinct(1) [OF m] e r t' out *(1,2) show "wf_tabs tabs'"
    by (cases emp) (auto simp: wf_tabs_def left)
qed

section \<open>Ordering and restoring\<close>

lemma position_nth:
  "distinct xs \<Longrightarrow> i < length xs \<Longrightarrow> position (\<lambda>y. y = xs ! i) xs = Some i"
  by (induction xs arbitrary: i) (auto simp: nth_Cons split: nat.split)

lemma reorder_tabs_spec:
  assumes wf: "wf_tabs tabs" and "distinct ids" and "reorder_tabs tabs ids = Ok ((), tabs')"
  shows "map tab_id tabs' = ids" and "mset tabs' = mset tabs"
proof -
  from assms(3) have len: "length ids = length tabs" and sub: "set ids \<subseteq> tab_id ` set tabs"
    and tabs': "tabs' = sort_key (reorder_key ids) tabs"
    by (auto simp: reorder_tabs_def find_None_iff list_ex_iff image_iff split: if_splits option.splits)
  show m: "mset tabs' = mset tabs" by (simp add: tabs')
  have "card (set ids) = card (tab_id ` set tabs)"
    using len assms(1,2) by (simp add: distinct_card wf_tabs_def flip: image_set) (metis distinct_card length_map image_set)
  with sub have ids: "set ids = tab_id ` set tabs" by (simp add: card_subset_eq)
  define kf where "kf i = (case position (\<lambda>j. j = i) ids of Some k \<Rightarrow> k | None \<Rightarrow> 2 ^ 64 - 1)" for i
  have key: "reorder_key ids t = kf (tab_id t)" for t by (simp add: reorder_key_def kf_def)
  have pos: "map kf ids = [0..<length ids]"
    using position_nth [OF assms(2)] by (intro nth_equalityI) (simp_all add: kf_def)
  have inj: "inj_on kf (set ids)" using pos by (metis distinct_map distinct_upt)
  have eqs: "map kf (map tab_id tabs') = map (reorder_key ids) tabs'" by (simp add: key)
  have set': "set (map tab_id tabs') = set ids"
    using m ids by (metis image_set set_mset_mset)
  have "distinct (map tab_id tabs')"
    using wf m by (metis mset_eq_imp_distinct_iff mset_map wf_tabs_def)
  with inj set' have "distinct (map kf (map tab_id tabs'))" by (simp only: distinct_map)
  moreover have "sorted (map kf (map tab_id tabs'))" unfolding eqs unfolding tabs' by (rule sorted_sort_key)
  moreover have "set (map kf (map tab_id tabs')) = set (map kf ids)" using set' by (simp only: set_map)
  moreover have "sorted (map kf ids)" "distinct (map kf ids)" by (simp_all only: pos sorted_upt distinct_upt)
  ultimately have "map kf (map tab_id tabs') = map kf ids" by (metis sorted_distinct_set_unique)
  then show "map tab_id tabs' = ids" using inj set' by (metis inj_on_map_eq_map sup.idem)
qed

lemma restore_tab_spec:
  "restore_tab tabs tab i =
     (if tab_id tab \<in> tab_id ` set tabs then Err (TabAlreadyExists (tab_id tab))
      else Ok (tab, take i tabs @ tab # drop i tabs))"
proof -
  have "list_ex (\<lambda>e. tab_id e = tab_id tab) tabs \<longleftrightarrow> tab_id tab \<in> tab_id ` set tabs"
    by (induction tabs) auto
  then show ?thesis by (simp add: restore_tab_def Let_def min_def)
qed

lemma restore_tab_wf:
  assumes "wf_tabs tabs" and "restore_tab tabs tab i = Ok (r, tabs')"
    and "distinct (map pane_id (tab_panes tab))" and "tab_ratios_ok tab"
    and "pane_id ` set (tab_panes tab) \<inter> pane_id ` set (all_panes tabs) = {}"
  shows "wf_tabs tabs'"
proof -
  from assms(2) have *: "tab_id tab \<notin> tab_id ` set tabs" "tabs' = take i tabs @ tab # drop i tabs"
    by (auto simp: restore_tab_spec split: if_splits)
  have "mset tabs' = mset (tabs @ [tab])"
    unfolding *(2) by (rule mset_insert_at)
  with wf_tabs_permute wf_tabs_push [OF assms(1) *(1) assms(3,5,4)] show ?thesis by blast
qed

section \<open>Default names\<close>

lemma digit_val_char: "n < 10 \<Longrightarrow> digit_val (char_of (48 + n)) = Some n"
  by (simp add: digit_val_def of_char_of Let_def)

lemma digits_val_append: "digits_val acc (xs @ ys) =
    (case digits_val acc xs of None \<Rightarrow> None | Some n \<Rightarrow> digits_val n ys)"
  by (induction xs arbitrary: acc) (auto split: option.splits)

lemma digits_val_show: "digits_val 0 (dec n) = Some n"
proof (induction n rule: dec.induct)
  case (1 n)
  show ?case
  proof (cases "n < 10")
    case True
    then show ?thesis by (simp add: dec.simps [of n] digit_val_char)
  next
    case False
    with 1 show ?thesis
      by (simp add: dec.simps [of n] digits_val_append digit_val_char)
  qed
qed

lemma dec_head: "\<exists>c cs. dec n = c # cs \<and> c \<noteq> CHR ''+''"
proof (induction n rule: dec.induct)
  case (1 n)
  show ?case
  proof (cases "n < 10")
    case True
    have "char_of (48 + n) \<noteq> CHR ''+''"
    proof
      assume "char_of (48 + n) = CHR ''+''"
      with digit_val_char [OF True] have "digit_val CHR ''+'' = Some n" by simp
      then show False by (simp add: digit_val_def)
    qed
    with True show ?thesis by (simp add: dec.simps [of n])
  next
    case False
    with 1 show ?thesis by (auto simp: dec.simps [of n])
  qed
qed

lemma parse_show: "n < 2 ^ 32 \<Longrightarrow> parse_u32 (dec n) = Some n"
  using dec_head [of n] digits_val_show [of n]
  by (auto simp: parse_u32_def Let_def)

lemma next_free_spec:
  "next_free used n \<notin> set used \<and> n \<le> next_free used n \<and> (\<forall>k. n \<le> k \<and> k < next_free used n \<longrightarrow> k \<in> set used)"
proof (induction used n rule: next_free.induct)
  case (1 used n)
  have "k = n \<or> Suc n \<le> k" if "n \<le> k" for k using that by auto
  with 1 show ?case
    by (cases "n \<in> set used") (auto simp: next_free.simps [of used n])
qed

lemma next_free_bound: "next_free used 1 \<le> Suc (length used)"
proof -
  have "{1..<next_free used 1} \<subseteq> set used" using next_free_spec [of used 1] by auto
  from card_mono [OF finite_set this] have "card {1..<next_free used 1} \<le> card (set used)" .
  then show ?thesis using card_length [of used] by simp
qed

end
