(* ===== verification/Tab_Server.thy ===== *)
theory Tab_Server
  imports Tab_Ops
begin

text \<open>
  The daemon's tab handlers (\<open>crates/daemon/src/server/tabs.rs\<close>) over the stored layouts
  (\<open>crates/daemon/src/state.rs\<close>), and the copy of its own tab list a client keeps
  (\<open>apps/native/src/tabs.rs\<close>, the fields \<open>tabs\<close> and \<open>pending_reorders\<close> of \<open>TabsModel\<close>).

  A handler gets the hub, the requester and the message, and returns its \<open>Result\<close>, the messages
  it sends in order and the hub afterwards. What it reads from outside is \<open>Env\<close>: the UUIDs it
  draws in order, the clock, whether the write of \<open>state.json\<close> succeeds, which repositories are
  registered, the ids of the live sessions, and \<open>f64::ln\<close>. A panic is an error value; the hub
  then holds what was changed before it.
\<close>

section \<open>Data\<close>

record ClientLayout =
  layout_name :: "string option"
  layout_tabs :: "TabEntry list"

record Hub =
  layouts :: "string \<Rightarrow> ClientLayout option"
  legacy_tabs :: "TabEntry list"

record Env =
  ln64 :: "flt \<Rightarrow> flt"
  uuid :: "nat \<Rightarrow> string"
  now :: int
  disk_ok :: bool
  repo_known :: "string \<Rightarrow> bool"
  live_sessions :: "string list"

datatype server_error =
    Refused tab_error
  | WriteFailed
  | EmptyPath
  | UnknownRepo string
  | Panicked

datatype TabEvent = EvUpdated TabEntry | EvRemoved string | EvReordered "string list"

datatype error_code = OpenFailed | TabRefused | InvalidRequest

datatype DaemonMessage =
    TabsMsg "TabEntry list"
  | DiffTabOpened string string
  | ViewerTabOpened string string
  | DashboardTabOpened string string
  | ErrorMsg "server_error option" "string option" error_code

text \<open>What a handler sends: a scoped broadcast, or a message to the requester only.\<close>

datatype Sent = EmitTab string TabEvent | Reply DaemonMessage

datatype InitLayoutKind = InitEmpty | CloneLegacy | CloneClient string | AllSessions | InitUnknown

record DiffTabKey =
  key_repo :: string
  key_path :: string
  key_against :: "string option"
  key_worktree :: "string option"
  key_host :: "string option"

record OpenTabOutcome =
  opened_tab_id :: string
  created :: "TabEntry option"

type_synonym HostRebind = "string \<times> string"

datatype RebindScope = AllClients | OneClient string

datatype ClientMessage =
    OpenDiffTab string DiffTabKey
  | OpenViewerTab string string
  | OpenDashboardTab string
  | ListTabs
  | CreateTab "string option" "string option" "string option" "string option"
  | CloseTab string
  | RestoreTab TabEntry nat
  | RestoreTabSnapshot TabEntry
  | RenameTab string string
  | ReorderTabs "string list" "string option"
  | InitLayout InitLayoutKind
  | SplitPane string string SplitDirection SplitPlace "string option" "string option" "string option"
  | ClosePane string string "string option"
  | SetPaneRatio string "nat list" flt
  | ReplacePaneSession string string "string option" "string option"
  | MovePane PaneMove "string option"
  | SwapPanes PaneSwap "string option"
  | RearrangeTab string RearrangeLayout
  | MergeTabs "string list" "string option" MergeLayout "string option"
  | ExtractToNewTab string "string list" "string option" "RearrangeLayout option" "string option"
  | ForgetHostSessions string "string list" bool "string option"
  | RebindHostSessions string "HostRebind list" "string option"
  | RehostPanes string "string option" "string list" "string option"

type_synonym handled = "(server_error + unit) \<times> Sent list \<times> Hub"

section \<open>The stored layouts\<close>

definition default_layout :: ClientLayout where
  "default_layout = \<lparr>layout_name = None, layout_tabs = []\<rparr>"

definition layout_entry :: "Hub \<Rightarrow> string \<Rightarrow> ClientLayout" where
  "layout_entry s cid = (case layouts s cid of Some l \<Rightarrow> l | None \<Rightarrow> default_layout)"

definition client_layout :: "Hub \<Rightarrow> string \<Rightarrow> TabEntry list" where
  "client_layout s cid = (case layouts s cid of None \<Rightarrow> [] | Some l \<Rightarrow> layout_tabs l)"

definition has_client_layout :: "Hub \<Rightarrow> string \<Rightarrow> bool" where
  "has_client_layout s cid = (layouts s cid \<noteq> None)"

definition put_tabs :: "Hub \<Rightarrow> string \<Rightarrow> TabEntry list \<Rightarrow> Hub" where
  "put_tabs s cid tabs =
     s\<lparr>layouts := (layouts s)(cid \<mapsto> (layout_entry s cid)\<lparr>layout_tabs := tabs\<rparr>)\<rparr>"

text \<open>\<open>mutate\<close> changes the live state and then writes the file: a failed write leaves the change.\<close>

definition mutate :: "Env \<Rightarrow> Hub \<Rightarrow> (Hub \<Rightarrow> 'r \<times> Hub) \<Rightarrow> (server_error + 'r) \<times> Hub" where
  "mutate env s f = (case f s of (r, s') \<Rightarrow> (if disk_ok env then Ok r else Err WriteFailed, s'))"

text \<open>\<open>try_mutate\<close> works on a copy, which replaces the live state once the file is written.\<close>

definition try_mutate ::
    "Env \<Rightarrow> Hub \<Rightarrow> (Hub \<Rightarrow> tab_error + ('r \<times> Hub)) \<Rightarrow> (server_error + 'r) \<times> Hub" where
  "try_mutate env s f =
     (case f s of
        Err e \<Rightarrow> (Err (Refused e), s)
      | Ok (r, candidate) \<Rightarrow> if disk_ok env then (Ok r, candidate) else (Err WriteFailed, s))"

definition mutate_client_layout ::
    "Env \<Rightarrow> Hub \<Rightarrow> string \<Rightarrow> (TabEntry list \<Rightarrow> 'r \<times> TabEntry list) \<Rightarrow> (server_error + 'r) \<times> Hub" where
  "mutate_client_layout env s cid f =
     mutate env s (\<lambda>s. case f (layout_tabs (layout_entry s cid)) of (r, tabs) \<Rightarrow> (r, put_tabs s cid tabs))"

definition try_mutate_client_layout ::
    "Env \<Rightarrow> Hub \<Rightarrow> string \<Rightarrow> (TabEntry list \<Rightarrow> tab_error + ('r \<times> TabEntry list))
      \<Rightarrow> (server_error + 'r) \<times> Hub" where
  "try_mutate_client_layout env s cid f =
     try_mutate env s (\<lambda>s. and_then (f (layout_tabs (layout_entry s cid)))
       (\<lambda>(r, tabs). Ok (r, put_tabs s cid tabs)))"

definition set_client_layout ::
    "Env \<Rightarrow> Hub \<Rightarrow> string \<Rightarrow> string option \<Rightarrow> TabEntry list \<Rightarrow> (server_error + unit) \<times> Hub" where
  "set_client_layout env s cid nm tabs =
     mutate env s (\<lambda>s. ((), s\<lparr>layouts := (layouts s)(cid \<mapsto> \<lparr>layout_name = nm, layout_tabs = tabs\<rparr>)\<rparr>))"

definition set_client_name ::
    "Env \<Rightarrow> Hub \<Rightarrow> string \<Rightarrow> string option \<Rightarrow> (server_error + unit) \<times> Hub" where
  "set_client_name env s cid nm =
     (if nm = None then (Ok (), s)
      else mutate env s (\<lambda>s. ((),
        (case layouts s cid of
           Some l \<Rightarrow> s\<lparr>layouts := (layouts s)(cid \<mapsto> l\<lparr>layout_name := nm\<rparr>)\<rparr>
         | None \<Rightarrow> s))))"

definition clear_legacy_tabs :: "Env \<Rightarrow> Hub \<Rightarrow> (server_error + unit) \<times> Hub" where
  "clear_legacy_tabs env s = mutate env s (\<lambda>s. ((), s\<lparr>legacy_tabs := []\<rparr>))"

definition ensure_client_layout :: "Env \<Rightarrow> Hub \<Rightarrow> string \<Rightarrow> string option \<Rightarrow> Hub" where
  "ensure_client_layout env s cid nm =
     (if has_client_layout s cid then snd (set_client_name env s cid nm)
      else snd (set_client_layout env s cid nm (legacy_tabs s)))"

text \<open>
  A fallible closure under \<open>mutate\<close>: it is not rolled back. The three closures used this way fail
  before their first write, so an error leaves the tabs as they were.
\<close>

definition in_place ::
    "(TabEntry list \<Rightarrow> tab_error + ('r \<times> TabEntry list)) \<Rightarrow> TabEntry list
      \<Rightarrow> (tab_error + 'r) \<times> TabEntry list" where
  "in_place f tabs = (case f tabs of Err e \<Rightarrow> (Err e, tabs) | Ok (r, tabs') \<Rightarrow> (Ok r, tabs'))"

text \<open>\<open>??\<close>: the write's error first, then the closure's.\<close>

definition flatten :: "server_error + (tab_error + 'r) \<Rightarrow> server_error + 'r" where
  "flatten r = and_then r (\<lambda>r'. case r' of Err e \<Rightarrow> Err (Refused e) | Ok x \<Rightarrow> Ok x)"

section \<open>Opening tabs\<close>

text \<open>\<open>&rev[..7]\<close> panics when byte 7 is inside a character.\<close>

definition short_rev :: "string \<Rightarrow> string option" where
  "short_rev revision =
     (if 7 < length revision then
        (if is_char_boundary revision 7 then Some (take 7 revision) else None)
      else Some revision)"

definition path_basename :: "string \<Rightarrow> string" where
  "path_basename path = rev (takeWhile (\<lambda>c. c \<noteq> CHR ''/'' \<and> c \<noteq> CHR 0x5C) (rev path))"

definition viewer_tab_name :: "string \<Rightarrow> string" where
  "viewer_tab_name path =
     (let basename = path_basename path in if basename = [] then path else basename)"

definition diff_tab_name :: "string \<Rightarrow> string option \<Rightarrow> string option" where
  "diff_tab_name path against =
     (let basename = path_basename path in
      (case against of
         None \<Rightarrow> Some (basename @ '' (changes)'')
       | Some r \<Rightarrow>
           if r = ''HEAD'' then Some (basename @ '' (staged)'')
           else map_option (\<lambda>short. basename @ '' @ '' @ short) (short_rev r)))"

definition diff_content :: "DiffTabKey \<Rightarrow> TabContent" where
  "diff_content k = TabDiff (key_repo k) (key_path k) (key_against k) (key_worktree k) (key_host k)"

text \<open>Find a tab by its content, else push a new one under the drawn id.\<close>

definition focus_or_push ::
    "Env \<Rightarrow> (TabContent \<Rightarrow> bool) \<Rightarrow> string \<Rightarrow> TabContent \<Rightarrow> TabEntry list
      \<Rightarrow> OpenTabOutcome \<times> TabEntry list" where
  "focus_or_push env matches nm c tabs =
     (case List.find (\<lambda>t. matches (content t)) tabs of
        Some existing \<Rightarrow> (\<lparr>opened_tab_id = tab_id existing, created = None\<rparr>, tabs)
      | None \<Rightarrow>
          let fresh = \<lparr>tab_id = uuid env 0, tab_name = nm, content = c, created_at = now env,
                       picked_layout = None\<rparr>
          in (\<lparr>opened_tab_id = uuid env 0, created = Some fresh\<rparr>, tabs @ [fresh]))"

definition open_diff_tab ::
    "Env \<Rightarrow> Hub \<Rightarrow> string \<Rightarrow> DiffTabKey \<Rightarrow> (server_error + OpenTabOutcome) \<times> Hub" where
  "open_diff_tab env s cid key =
     (if key_host key = None \<and> \<not> repo_known env (key_repo key) then
        (Err (UnknownRepo (key_repo key)), s)
      else
        (case (List.find (\<lambda>t. content t = diff_content key) (layout_tabs (layout_entry s cid)),
               diff_tab_name (key_path key) (key_against key)) of
           (None, None) \<Rightarrow> (Err Panicked, put_tabs s cid (layout_tabs (layout_entry s cid)))
         | (_, nm) \<Rightarrow>
             mutate_client_layout env s cid
               (focus_or_push env (\<lambda>c. c = diff_content key)
                  (case nm of Some n \<Rightarrow> n | None \<Rightarrow> []) (diff_content key))))"

definition open_viewer_tab ::
    "Env \<Rightarrow> Hub \<Rightarrow> string \<Rightarrow> string \<Rightarrow> (server_error + OpenTabOutcome) \<times> Hub" where
  "open_viewer_tab env s cid path =
     (if trim path = [] then (Err EmptyPath, s)
      else mutate_client_layout env s cid
        (focus_or_push env (\<lambda>c. c = TabViewer path) (viewer_tab_name path) (TabViewer path)))"

definition open_dashboard_tab ::
    "Env \<Rightarrow> Hub \<Rightarrow> string \<Rightarrow> (server_error + OpenTabOutcome) \<times> Hub" where
  "open_dashboard_tab env s cid =
     mutate_client_layout env s cid
       (focus_or_push env (\<lambda>c. c = TabDashboard) ''Dashboard'' TabDashboard)"

definition holds_another_dashboard :: "TabEntry list \<Rightarrow> TabEntry \<Rightarrow> bool" where
  "holds_another_dashboard tabs tab =
     (content tab = TabDashboard \<and>
      list_ex (\<lambda>t. tab_id t \<noteq> tab_id tab \<and> content t = TabDashboard) tabs)"

definition build_all_sessions_layout :: "Env \<Rightarrow> TabEntry list" where
  "build_all_sessions_layout env =
     (let n = length (live_sessions env);
          panes = map (\<lambda>i. \<lparr>pane_id = uuid env i, session_id = Some (live_sessions env ! i),
                            host = None\<rparr>) [0..<n]
      in (case build_grid (ln64 env) panes 0 None of
            None \<Rightarrow> []
          | Some grid \<Rightarrow>
              [\<lparr>tab_id = uuid env n, tab_name = ''All sessions'', content = TabGrid grid,
                created_at = now env, picked_layout = None\<rparr>]))"

section \<open>Panes of other daemons and of removed sessions\<close>

definition moved_event :: "MovedTab \<Rightarrow> TabEvent" where
  "moved_event m = (case m of MovedUpdated tab \<Rightarrow> EvUpdated tab | MovedRemoved i \<Rightarrow> EvRemoved i)"

definition close_outputs :: "string \<Rightarrow> SessionCloseResult \<Rightarrow> Sent list" where
  "close_outputs cid res =
     map (\<lambda>tab. EmitTab cid (EvUpdated tab)) (updated res) @
     map (\<lambda>i. EmitTab cid (EvRemoved i)) (removed_tab_ids res)"

definition rehost_panes_of ::
    "Env \<Rightarrow> Hub \<Rightarrow> string \<Rightarrow> string \<Rightarrow> string option \<Rightarrow> string list
      \<Rightarrow> (server_error + unit) \<times> Sent list \<times> Hub" where
  "rehost_panes_of env s cid from to session_ids =
     (let (changed, tabs) = rehost_panes (layout_tabs (layout_entry s cid)) from to session_ids;
          (written, s') = mutate_client_layout env s cid (\<lambda>_. ((), tabs))
      in (written, map (\<lambda>tab. EmitTab cid (EvUpdated tab)) changed, s'))"

definition closes_any_pane :: "TabEntry list \<Rightarrow> string \<Rightarrow> string list \<Rightarrow> bool \<Rightarrow> bool" where
  "closes_any_pane tabs target session_ids all =
     (if all then
        list_ex (\<lambda>grid. list_ex (\<lambda>pane. host pane = Some target) (collect_panes grid))
          (List.map_filter grid_of tabs)
      else list_ex (\<lambda>sid. shows_session tabs (Some target) sid) session_ids)"

definition forget_host_panes_of ::
    "Env \<Rightarrow> Hub \<Rightarrow> string \<Rightarrow> string \<Rightarrow> string list \<Rightarrow> bool
      \<Rightarrow> (server_error + unit) \<times> Sent list \<times> Hub" where
  "forget_host_panes_of env s cid target session_ids all =
     (if \<not> (case layouts s cid of None \<Rightarrow> False
             | Some l \<Rightarrow> closes_any_pane (layout_tabs l) target session_ids all)
      then (Ok (), [], s)
      else let (res, tabs) =
                 forget_host_panes (ln64 env) (layout_tabs (layout_entry s cid)) target session_ids all;
               (written, s') = mutate_client_layout env s cid (\<lambda>_. ((), tabs))
           in (written, close_outputs cid res, s'))"

text \<open>
  The layouts are a \<open>HashMap\<close>: \<open>order\<close> is the list of clients in the order its iterator yields them.
\<close>

fun close_in_layouts ::
    "(TabEntry list \<Rightarrow> SessionCloseResult \<times> TabEntry list) \<Rightarrow> string list \<Rightarrow> Hub \<Rightarrow> Sent list \<times> Hub" where
  "close_in_layouts close [] s = ([], s)"
| "close_in_layouts close (cid # order) s =
     (case layouts s cid of
        None \<Rightarrow> close_in_layouts close order s
      | Some l \<Rightarrow>
          (let (res, tabs) = close (layout_tabs l);
               (outs, s') = close_in_layouts close order (put_tabs s cid tabs)
           in (close_outputs cid res @ outs, s')))"

text \<open>A failed write returns before the events are sent, although the layouts have changed.\<close>

definition close_panes_in_all_layouts ::
    "Env \<Rightarrow> Hub \<Rightarrow> string list \<Rightarrow> (TabEntry list \<Rightarrow> SessionCloseResult \<times> TabEntry list)
      \<Rightarrow> (server_error + unit) \<times> Sent list \<times> Hub" where
  "close_panes_in_all_layouts env s order close =
     (case mutate env s (close_in_layouts close order) of
        (Ok outs, s') \<Rightarrow> (Ok (), outs, s')
      | (Err e, s') \<Rightarrow> (Err e, [], s'))"

definition close_session_panes_all :: "Env \<Rightarrow> Hub \<Rightarrow> string list \<Rightarrow> string \<Rightarrow> Sent list \<times> Hub" where
  "close_session_panes_all env s order sid =
     (case close_panes_in_all_layouts env s order (\<lambda>tabs. close_session_panes (ln64 env) tabs sid) of
        (_, outs, s') \<Rightarrow> (outs, s'))"

fun rebind_in_layout ::
    "string option \<Rightarrow> HostRebind list \<Rightarrow> TabEntry list \<Rightarrow> TabEntry list
      \<Rightarrow> TabEntry list \<times> TabEntry list" where
  "rebind_in_layout target [] changed tabs = (changed, tabs)"
| "rebind_in_layout target ((old, new) # rebinds) changed tabs =
     (case rebind_session tabs target old new of (upd, tabs') \<Rightarrow>
        rebind_in_layout target rebinds
          (foldl (\<lambda>acc tab. filter (\<lambda>earlier. tab_id earlier \<noteq> tab_id tab) acc @ [tab]) changed upd)
          tabs')"

definition rebind_outputs :: "string \<Rightarrow> TabEntry list \<Rightarrow> Sent list" where
  "rebind_outputs cid changed = map (\<lambda>tab. EmitTab cid (EvUpdated tab)) changed"

fun rebind_in_layouts ::
    "string option \<Rightarrow> HostRebind list \<Rightarrow> string list \<Rightarrow> Hub \<Rightarrow> Sent list \<times> Hub" where
  "rebind_in_layouts target rebinds [] s = ([], s)"
| "rebind_in_layouts target rebinds (cid # order) s =
     (case layouts s cid of
        None \<Rightarrow> rebind_in_layouts target rebinds order s
      | Some l \<Rightarrow>
          (let (changed, tabs) = rebind_in_layout target rebinds [] (layout_tabs l);
               (outs, s') = rebind_in_layouts target rebinds order (put_tabs s cid tabs)
           in (rebind_outputs cid changed @ outs, s')))"

definition shows_old :: "string option \<Rightarrow> HostRebind list \<Rightarrow> TabEntry list \<Rightarrow> bool" where
  "shows_old target rebinds tabs = list_ex (\<lambda>(old, new). shows_session tabs target old) rebinds"

definition rebind_panes ::
    "Env \<Rightarrow> Hub \<Rightarrow> string list \<Rightarrow> RebindScope \<Rightarrow> string option \<Rightarrow> HostRebind list
      \<Rightarrow> (server_error + unit) \<times> Sent list \<times> Hub" where
  "rebind_panes env s order scope target rebinds =
     (let cids = (case scope of AllClients \<Rightarrow> order | OneClient cid \<Rightarrow> [cid]);
          any_pane = list_ex (\<lambda>cid. case layouts s cid of None \<Rightarrow> False
                               | Some l \<Rightarrow> shows_old target rebinds (layout_tabs l)) cids
      in if \<not> any_pane then (Ok (), [], s)
         else (case rebind_in_layouts target rebinds cids s of (outs, s') \<Rightarrow>
                 (if disk_ok env then Ok () else Err WriteFailed, outs, s')))"

definition rebind_session_panes ::
    "Env \<Rightarrow> Hub \<Rightarrow> string list \<Rightarrow> string \<Rightarrow> string \<Rightarrow> Sent list \<times> Hub" where
  "rebind_session_panes env s order old new =
     (case rebind_panes env s order AllClients None [(old, new)] of (_, outs, s') \<Rightarrow> (outs, s'))"

section \<open>The handlers\<close>

definition opened ::
    "string \<Rightarrow> string \<Rightarrow> (string \<Rightarrow> string \<Rightarrow> DaemonMessage)
      \<Rightarrow> (server_error + OpenTabOutcome) \<times> Hub \<Rightarrow> handled" where
  "opened cid rid answer r =
     (case r of
        (Ok outcome, s) \<Rightarrow>
          (Ok (),
           (case created outcome of Some t \<Rightarrow> [EmitTab cid (EvUpdated t)] | None \<Rightarrow> []) @
             [Reply (answer rid (opened_tab_id outcome))], s)
      | (Err Panicked, s) \<Rightarrow> (Err Panicked, [], s)
      | (Err e, s) \<Rightarrow> (Ok (), [Reply (ErrorMsg (Some e) (Some rid) OpenFailed)], s))"

definition send_tab_failure :: "server_error \<Rightarrow> string option \<Rightarrow> Sent list" where
  "send_tab_failure e req = [Reply (ErrorMsg (Some e) req TabRefused)]"

text \<open>The two ways a handler ends: it answers a failure itself, or it returns it.\<close>

definition answer_failure ::
    "string option \<Rightarrow> (server_error + 'r) \<times> Hub \<Rightarrow> ('r \<Rightarrow> Sent list) \<Rightarrow> handled" where
  "answer_failure req r outs =
     (case r of (Ok x, s) \<Rightarrow> (Ok (), outs x, s) | (Err e, s) \<Rightarrow> (Ok (), send_tab_failure e req, s))"

definition return_failure :: "(server_error + 'r) \<times> Hub \<Rightarrow> ('r \<Rightarrow> Sent list) \<Rightarrow> handled" where
  "return_failure r outs =
     (case r of (Ok x, s) \<Rightarrow> (Ok (), outs x, s) | (Err e, s) \<Rightarrow> (Err e, [], s))"

definition handle_create_tab ::
    "Env \<Rightarrow> Hub \<Rightarrow> string \<Rightarrow> string option \<Rightarrow> string option \<Rightarrow> string option \<Rightarrow> string option \<Rightarrow> handled" where
  "handle_create_tab env s cid nm sid h req =
     answer_failure req
       (mutate_client_layout env s cid (\<lambda>tabs.
          let tab = make_tab (uuid env 0) (uuid env 1) (now env) nm sid h tabs in (tab, tabs @ [tab])))
       (\<lambda>tab. [EmitTab cid (EvUpdated tab)])"

definition handle_close_tab :: "Env \<Rightarrow> Hub \<Rightarrow> string \<Rightarrow> string \<Rightarrow> handled" where
  "handle_close_tab env s cid tid =
     return_failure
       (mutate_client_layout env s cid (\<lambda>tabs.
          let tabs' = filter (\<lambda>t. tab_id t \<noteq> tid) tabs in (length tabs \<noteq> length tabs', tabs')))
       (\<lambda>removed. if removed then [EmitTab cid (EvRemoved tid)] else [])"

definition handle_restore_tab :: "Env \<Rightarrow> Hub \<Rightarrow> string \<Rightarrow> TabEntry \<Rightarrow> nat \<Rightarrow> handled" where
  "handle_restore_tab env s cid tab index =
     (if content tab = TabUnknown then (Ok (), [Reply (ErrorMsg None None InvalidRequest)], s)
      else return_failure
        (try_mutate_client_layout env s cid (\<lambda>tabs.
           if holds_another_dashboard tabs tab then Ok (None, tabs)
           else and_then (restore_tab tabs tab index)
             (\<lambda>(restored, tabs'). Ok (Some (restored, map tab_id tabs'), tabs'))))
        (\<lambda>r. case r of
               Some (restored, ordered_ids) \<Rightarrow>
                 [EmitTab cid (EvUpdated restored), EmitTab cid (EvReordered ordered_ids)]
             | None \<Rightarrow> []))"

definition handle_restore_snapshot :: "Env \<Rightarrow> Hub \<Rightarrow> string \<Rightarrow> TabEntry \<Rightarrow> handled" where
  "handle_restore_snapshot env s cid tab =
     (if content tab = TabUnknown then (Ok (), [Reply (ErrorMsg None None InvalidRequest)], s)
      else return_failure
        (try_mutate_client_layout env s cid (\<lambda>tabs.
           if holds_another_dashboard tabs tab then Ok (None, tabs)
           else and_then (restore_tab_snapshot tabs tab) (\<lambda>(restored, tabs'). Ok (Some restored, tabs'))))
        (\<lambda>r. case r of Some restored \<Rightarrow> [EmitTab cid (EvUpdated restored)] | None \<Rightarrow> []))"

text \<open>Run an operation on one tab; the answer is the tab as it is left.\<close>

definition on_tab ::
    "string \<Rightarrow> (TabEntry \<Rightarrow> tab_error + ('r \<times> TabEntry)) \<Rightarrow> TabEntry list
      \<Rightarrow> tab_error + (TabEntry \<times> TabEntry list)" where
  "on_tab tid f tabs =
     find_tab_mut tabs tid (\<lambda>tab. and_then (f tab) (\<lambda>(_, tab'). Ok (tab', tab')))"

definition handle_rename_tab :: "Env \<Rightarrow> Hub \<Rightarrow> string \<Rightarrow> string \<Rightarrow> string \<Rightarrow> handled" where
  "handle_rename_tab env s cid tid nm =
     (case mutate_client_layout env s cid
             (in_place (on_tab tid (\<lambda>tab. Ok ((), tab\<lparr>tab_name := nm\<rparr>)))) of
        (r, s') \<Rightarrow> return_failure (flatten r, s') (\<lambda>tab. [EmitTab cid (EvUpdated tab)]))"

definition handle_reorder_tabs ::
    "Env \<Rightarrow> Hub \<Rightarrow> string \<Rightarrow> string list \<Rightarrow> string option \<Rightarrow> handled" where
  "handle_reorder_tabs env s cid ordered_ids req =
     answer_failure req
       (try_mutate_client_layout env s cid (\<lambda>tabs. reorder_tabs tabs ordered_ids))
       (\<lambda>_. [EmitTab cid (EvReordered ordered_ids)])"

definition init_tabs :: "Env \<Rightarrow> Hub \<Rightarrow> InitLayoutKind \<Rightarrow> TabEntry list" where
  "init_tabs env s kind =
     (case kind of
        InitEmpty \<Rightarrow> [] | InitUnknown \<Rightarrow> []
      | CloneLegacy \<Rightarrow> legacy_tabs s
      | CloneClient source \<Rightarrow> clone_tabs_fresh_ids (uuid env) 0 (client_layout s source)
      | AllSessions \<Rightarrow> build_all_sessions_layout env)"

definition handle_init_layout ::
    "Env \<Rightarrow> Hub \<Rightarrow> string \<Rightarrow> string option \<Rightarrow> InitLayoutKind \<Rightarrow> handled" where
  "handle_init_layout env s cid client_name kind =
     (case set_client_layout env s cid client_name (init_tabs env s kind) of
        (Err e, s') \<Rightarrow> (Err e, [], s')
      | (Ok _, s') \<Rightarrow>
          (case (if kind = CloneLegacy then clear_legacy_tabs env s' else (Ok (), s')) of
             (Err e, s'') \<Rightarrow> (Err e, [], s'')
           | (Ok _, s'') \<Rightarrow> (Ok (), [Reply (TabsMsg (client_layout s'' cid))], s'')))"

definition handle_split_pane ::
    "Env \<Rightarrow> Hub \<Rightarrow> string \<Rightarrow> string \<Rightarrow> string \<Rightarrow> SplitDirection \<Rightarrow> SplitPlace \<Rightarrow> string option
      \<Rightarrow> string option \<Rightarrow> string option \<Rightarrow> handled" where
  "handle_split_pane env s cid tid pid direction place sid h req =
     answer_failure req
       (try_mutate_client_layout env s cid (on_tab tid (\<lambda>tab.
          split_tab_pane (ln64 env) tab pid direction place (new_pane (uuid env 0) sid h))))
       (\<lambda>tab. [EmitTab cid (EvUpdated tab)])"

definition handle_close_pane ::
    "Env \<Rightarrow> Hub \<Rightarrow> string \<Rightarrow> string \<Rightarrow> string \<Rightarrow> string option \<Rightarrow> handled" where
  "handle_close_pane env s cid tid pid req =
     answer_failure req
       (try_mutate_client_layout env s cid (\<lambda>tabs. close_pane_in_tabs (ln64 env) tabs tid pid))
       (\<lambda>r. case r of
              ClosedRemoved i \<Rightarrow> [EmitTab cid (EvRemoved i)]
            | ClosedUpdated tab \<Rightarrow> [EmitTab cid (EvUpdated tab)])"

definition handle_set_pane_ratio ::
    "Env \<Rightarrow> Hub \<Rightarrow> string \<Rightarrow> string \<Rightarrow> nat list \<Rightarrow> flt \<Rightarrow> handled" where
  "handle_set_pane_ratio env s cid tid path ratio =
     (case mutate_client_layout env s cid
             (in_place (on_tab tid (\<lambda>tab. set_tab_pane_ratio tab path ratio))) of
        (r, s') \<Rightarrow> return_failure (flatten r, s') (\<lambda>tab. [EmitTab cid (EvUpdated tab)]))"

definition handle_replace_pane_session ::
    "Env \<Rightarrow> Hub \<Rightarrow> string \<Rightarrow> string \<Rightarrow> string \<Rightarrow> string option \<Rightarrow> string option \<Rightarrow> handled" where
  "handle_replace_pane_session env s cid tid pid sid h =
     (case mutate_client_layout env s cid
             (in_place (on_tab tid (\<lambda>tab. grid_or_err_mut tab (\<lambda>grid.
                and_then (replace_pane_session grid pid sid h) (\<lambda>grid'. Ok ((), grid')))))) of
        (r, s') \<Rightarrow> return_failure (flatten r, s') (\<lambda>tab. [EmitTab cid (EvUpdated tab)]))"

definition handle_move_pane :: "Env \<Rightarrow> Hub \<Rightarrow> string \<Rightarrow> PaneMove \<Rightarrow> string option \<Rightarrow> handled" where
  "handle_move_pane env s cid mv req =
     (if mv_src_pane_id mv = mv_dst_pane_id mv then (Ok (), [], s)
      else answer_failure req
        (try_mutate_client_layout env s cid (\<lambda>tabs. move_pane (ln64 env) tabs mv))
        (\<lambda>moved. map (\<lambda>m. EmitTab cid (moved_event m)) moved))"

definition handle_swap_panes :: "Env \<Rightarrow> Hub \<Rightarrow> string \<Rightarrow> PaneSwap \<Rightarrow> string option \<Rightarrow> handled" where
  "handle_swap_panes env s cid swap req =
     (if sw_src_tab_id swap = sw_dst_tab_id swap \<and> sw_src_pane_id swap = sw_dst_pane_id swap
      then (Ok (), [], s)
      else answer_failure req
        (try_mutate_client_layout env s cid (\<lambda>tabs. swap_panes tabs swap))
        (\<lambda>changed. map (\<lambda>m. EmitTab cid (moved_event m)) changed))"

definition handle_rearrange_tab :: "Env \<Rightarrow> Hub \<Rightarrow> string \<Rightarrow> string \<Rightarrow> RearrangeLayout \<Rightarrow> handled" where
  "handle_rearrange_tab env s cid tid layout =
     return_failure
       (try_mutate_client_layout env s cid (on_tab tid (\<lambda>tab. pick_layout (ln64 env) tab layout)))
       (\<lambda>tab. [EmitTab cid (EvUpdated tab)])"

definition handle_merge_tabs ::
    "Env \<Rightarrow> Hub \<Rightarrow> string \<Rightarrow> string list \<Rightarrow> string option \<Rightarrow> MergeLayout \<Rightarrow> string option \<Rightarrow> handled" where
  "handle_merge_tabs env s cid tab_ids nm layout req =
     answer_failure req
       (try_mutate_client_layout env s cid (\<lambda>tabs.
          merge_tabs (uuid env 0) (now env) tabs tab_ids nm layout))
       (\<lambda>tab. EmitTab cid (EvUpdated tab) # map (\<lambda>i. EmitTab cid (EvRemoved i)) tab_ids)"

definition handle_extract ::
    "Env \<Rightarrow> Hub \<Rightarrow> string \<Rightarrow> string \<Rightarrow> string list \<Rightarrow> string option \<Rightarrow> RearrangeLayout option
      \<Rightarrow> string option \<Rightarrow> handled" where
  "handle_extract env s cid source_tab_id pids nm layout req =
     answer_failure req
       (try_mutate_client_layout env s cid (\<lambda>tabs.
          extract_to_new_tab (ln64 env) (uuid env 0) (now env) tabs source_tab_id pids nm layout))
       (\<lambda>out. [EmitTab cid (EvUpdated (new_tab out)),
               (case source_left out of
                  Some survivor \<Rightarrow> EmitTab cid (EvUpdated survivor)
                | None \<Rightarrow> EmitTab cid (EvRemoved source_tab_id))])"

text \<open>The bulk operations: what they sent is sent even when the write failed, then the failure is answered.\<close>

definition answer_after ::
    "string option \<Rightarrow> (server_error + unit) \<times> Sent list \<times> Hub \<Rightarrow> handled" where
  "answer_after req r =
     (case r of
        (Ok _, outs, s) \<Rightarrow> (Ok (), outs, s)
      | (Err e, outs, s) \<Rightarrow> (Ok (), outs @ send_tab_failure e req, s))"

definition handle :: "Env \<Rightarrow> Hub \<Rightarrow> string \<Rightarrow> string option \<Rightarrow> ClientMessage \<Rightarrow> handled" where
  "handle env s cid client_name msg =
     (case msg of
        OpenDiffTab rid key \<Rightarrow> opened cid rid DiffTabOpened (open_diff_tab env s cid key)
      | OpenViewerTab rid path \<Rightarrow> opened cid rid ViewerTabOpened (open_viewer_tab env s cid path)
      | OpenDashboardTab rid \<Rightarrow> opened cid rid DashboardTabOpened (open_dashboard_tab env s cid)
      | ListTabs \<Rightarrow> (Ok (), [Reply (TabsMsg (client_layout s cid))], s)
      | CreateTab nm sid h req \<Rightarrow> handle_create_tab env s cid nm sid h req
      | CloseTab tid \<Rightarrow> handle_close_tab env s cid tid
      | RestoreTab tab index \<Rightarrow> handle_restore_tab env s cid tab index
      | RestoreTabSnapshot tab \<Rightarrow> handle_restore_snapshot env s cid tab
      | RenameTab tid nm \<Rightarrow> handle_rename_tab env s cid tid nm
      | ReorderTabs ids req \<Rightarrow> handle_reorder_tabs env s cid ids req
      | InitLayout kind \<Rightarrow> handle_init_layout env s cid client_name kind
      | SplitPane tid pid direction place sid h req \<Rightarrow>
          handle_split_pane env s cid tid pid direction place sid h req
      | ClosePane tid pid req \<Rightarrow> handle_close_pane env s cid tid pid req
      | SetPaneRatio tid path ratio \<Rightarrow> handle_set_pane_ratio env s cid tid path ratio
      | ReplacePaneSession tid pid sid h \<Rightarrow> handle_replace_pane_session env s cid tid pid sid h
      | MovePane mv req \<Rightarrow> handle_move_pane env s cid mv req
      | SwapPanes swap req \<Rightarrow> handle_swap_panes env s cid swap req
      | RearrangeTab tid layout \<Rightarrow> handle_rearrange_tab env s cid tid layout
      | MergeTabs ids nm layout req \<Rightarrow> handle_merge_tabs env s cid ids nm layout req
      | ExtractToNewTab tid pids nm layout req \<Rightarrow> handle_extract env s cid tid pids nm layout req
      | ForgetHostSessions h sids all req \<Rightarrow>
          answer_after req (forget_host_panes_of env s cid h sids all)
      | RebindHostSessions h rebinds req \<Rightarrow>
          answer_after req (rebind_panes env s [] (OneClient cid) (Some h) rebinds)
      | RehostPanes from to sids req \<Rightarrow> answer_after req (rehost_panes_of env s cid from to sids))"

section \<open>A client's copy\<close>

text \<open>Request id, the order before it applied, the order it sent; oldest first.\<close>

type_synonym pending_reorder = "string \<times> string list \<times> string list"

record TabsModel =
  m_tabs :: "TabEntry list"
  pending_reorders :: "pending_reorder list"

fun upsert_tab :: "TabEntry list \<Rightarrow> TabEntry \<Rightarrow> TabEntry list" where
  "upsert_tab [] tab = [tab]"
| "upsert_tab (t # ts) tab = (if tab_id t = tab_id tab then tab # ts else t # upsert_tab ts tab)"

definition remove_tab :: "TabEntry list \<Rightarrow> string \<Rightarrow> TabEntry list" where
  "remove_tab tabs tid = filter (\<lambda>t. tab_id t \<noteq> tid) tabs"

text \<open>Collecting into a \<open>HashMap\<close> keeps the last tab of an id; each id of the order takes its tab out.\<close>

fun take_in_order :: "(string \<Rightarrow> TabEntry option) \<Rightarrow> string list \<Rightarrow> TabEntry list" where
  "take_in_order by_id [] = []"
| "take_in_order by_id (i # ids) =
     (case by_id i of
        Some tab \<Rightarrow> tab # take_in_order (by_id(i := None)) ids
      | None \<Rightarrow> take_in_order by_id ids)"

definition reorder :: "TabEntry list \<Rightarrow> string list \<Rightarrow> TabEntry list" where
  "reorder tabs ordered_ids = take_in_order (map_of (rev (map (\<lambda>t. (tab_id t, t)) tabs))) ordered_ids"

definition reorder_local :: "TabsModel \<Rightarrow> string list \<Rightarrow> bool \<times> TabsModel" where
  "reorder_local m ordered =
     (if mset (map tab_id (m_tabs m)) \<noteq> mset ordered then (False, m)
      else (True, m\<lparr>m_tabs := reorder (m_tabs m) ordered\<rparr>))"

definition note_reorder :: "TabsModel \<Rightarrow> string \<Rightarrow> string list \<Rightarrow> TabsModel" where
  "note_reorder m req sent_order =
     m\<lparr>pending_reorders := pending_reorders m @ [(req, map tab_id (m_tabs m), sent_order)]\<rparr>"

fun restore_slots :: "TabEntry list \<Rightarrow> string list \<Rightarrow> TabEntry list \<Rightarrow> TabEntry list" where
  "restore_slots slots [] restored = restored @ slots"
| "restore_slots slots (i # order) restored =
     (case List.find (\<lambda>t. tab_id t = i) slots of
        Some tab \<Rightarrow> restore_slots (remove1 tab slots) order (restored @ [tab])
      | None \<Rightarrow> restore_slots slots order restored)"

definition restore_order :: "TabEntry list \<Rightarrow> string list \<Rightarrow> TabEntry list" where
  "restore_order tabs order = restore_slots tabs order []"

definition fail_reorder :: "TabsModel \<Rightarrow> string \<Rightarrow> TabsModel" where
  "fail_reorder m req =
     (let pending = pending_reorders m in
      (case position (\<lambda>(i, _, _). i = req) pending of
         None \<Rightarrow> m
       | Some i0 \<Rightarrow>
           (case pending ! i0 of (_, previous, _) \<Rightarrow>
              (case drop (Suc i0) pending of
                 (i, _, sent) # later \<Rightarrow>
                   m\<lparr>pending_reorders := take i0 pending @ (i, previous, sent) # later\<rparr>
               | [] \<Rightarrow>
                   m\<lparr>m_tabs := restore_order (m_tabs m) previous,
                     pending_reorders := take i0 pending\<rparr>))))"

definition settle_reorder :: "TabsModel \<Rightarrow> string list \<Rightarrow> TabsModel" where
  "settle_reorder m ordered_ids =
     (let pending = pending_reorders m in
      (case position (\<lambda>(_, _, sent). sent = ordered_ids) pending of
         None \<Rightarrow> m\<lparr>m_tabs := reorder (m_tabs m) ordered_ids\<rparr>
       | Some i0 \<Rightarrow>
           let left = drop (Suc i0) pending in
           if left = [] then m\<lparr>m_tabs := reorder (m_tabs m) ordered_ids, pending_reorders := []\<rparr>
           else m\<lparr>pending_reorders := left\<rparr>))"

text \<open>\<open>TabsModel::apply\<close> on what the connection of client \<open>cid\<close> forwards.\<close>

fun apply_event :: "TabsModel \<Rightarrow> TabEvent \<Rightarrow> TabsModel" where
  "apply_event m (EvUpdated tab) = m\<lparr>m_tabs := upsert_tab (m_tabs m) tab\<rparr>"
| "apply_event m (EvRemoved tid) = m\<lparr>m_tabs := remove_tab (m_tabs m) tid\<rparr>"
| "apply_event m (EvReordered ids) = settle_reorder m ids"

fun apply_sent :: "string \<Rightarrow> TabsModel \<Rightarrow> Sent \<Rightarrow> TabsModel" where
  "apply_sent cid m (EmitTab c ev) = (if c = cid then apply_event m ev else m)"
| "apply_sent cid m (Reply (TabsMsg tabs)) = m\<lparr>m_tabs := tabs, pending_reorders := []\<rparr>"
| "apply_sent cid m (Reply _) = m"

definition fold_sent :: "string \<Rightarrow> TabsModel \<Rightarrow> Sent list \<Rightarrow> TabsModel" where
  "fold_sent cid m outs = foldl (apply_sent cid) m outs"

end
