(* ===== verification/Tab_Mirror.thy ===== *)
theory Tab_Mirror
  imports Tab_Server
begin

text \<open>
  The daemon and a client agree: folding what a handler sends into the client's copy of its tab
  list gives the list the daemon now stores. Each operation of \<open>tabs.rs\<close> contributes one lemma
  over \<open>apply_tabs\<close>, the fold of a client that waits for no reorder.
\<close>

section \<open>The fold on a tab list\<close>

fun apply_tabs :: "TabEntry list \<Rightarrow> TabEvent \<Rightarrow> TabEntry list" where
  "apply_tabs ts (EvUpdated tab) = upsert_tab ts tab"
| "apply_tabs ts (EvRemoved tid) = remove_tab ts tid"
| "apply_tabs ts (EvReordered ids) = reorder ts ids"

lemma apply_event_idle:
  "pending_reorders m = [] \<Longrightarrow> apply_event m ev = m\<lparr>m_tabs := apply_tabs (m_tabs m) ev\<rparr>"
  by (cases ev) (simp_all add: settle_reorder_def)

fun events_for :: "string \<Rightarrow> Sent list \<Rightarrow> TabEvent list" where
  "events_for cid [] = []"
| "events_for cid (EmitTab c ev # outs) = (if c = cid then ev # events_for cid outs else events_for cid outs)"
| "events_for cid (Reply r # outs) = events_for cid outs"

definition no_lists :: "Sent list \<Rightarrow> bool" where
  "no_lists outs = list_all (\<lambda>out. case out of Reply (TabsMsg _) \<Rightarrow> False | _ \<Rightarrow> True) outs"

lemma events_for_append [simp]:
  "events_for cid (outs @ outs') = events_for cid outs @ events_for cid outs'"
  by (induction cid outs rule: events_for.induct) simp_all

lemma no_lists_simps [simp]:
  "no_lists []"
  "no_lists (EmitTab c ev # outs) = no_lists outs"
  "no_lists (Reply (ErrorMsg e r code) # outs) = no_lists outs"
  "no_lists (Reply (DiffTabOpened i j) # outs) = no_lists outs"
  "no_lists (Reply (ViewerTabOpened i j) # outs) = no_lists outs"
  "no_lists (Reply (DashboardTabOpened i j) # outs) = no_lists outs"
  "no_lists (outs @ outs') = (no_lists outs \<and> no_lists outs')"
  by (simp_all add: no_lists_def)

lemma no_lists_map [simp]: "no_lists (map (\<lambda>x. EmitTab (f x) (g x)) xs)"
  by (induction xs) simp_all

lemma events_for_map [simp]:
  "events_for cid (map (\<lambda>x. EmitTab cid (g x)) xs) = map g xs"
  by (induction xs) simp_all

lemma events_for_map_other [simp]:
  "c \<noteq> cid \<Longrightarrow> events_for cid (map (\<lambda>x. EmitTab c (g x)) xs) = []"
  by (induction xs) simp_all

lemma apply_sent_idle:
  "pending_reorders m = [] \<Longrightarrow> no_lists [out] \<Longrightarrow>
     apply_sent cid m out = m\<lparr>m_tabs := foldl apply_tabs (m_tabs m) (events_for cid [out])\<rparr>"
  by (induction cid m out rule: apply_sent.induct) (simp_all add: apply_event_idle no_lists_def)

lemma fold_sent_idle:
  "pending_reorders m = [] \<Longrightarrow> no_lists outs \<Longrightarrow>
     fold_sent cid m outs = m\<lparr>m_tabs := foldl apply_tabs (m_tabs m) (events_for cid outs)\<rparr>"
  unfolding fold_sent_def
proof (induction outs arbitrary: m)
  case (Cons out outs)
  have "no_lists [out]" "no_lists outs" using Cons.prems by (simp_all add: no_lists_def)
  with Cons show ?case
    by (simp add: apply_sent_idle) (cases out; simp)
qed simp

section \<open>Updates, removals and orders\<close>

lemma upsert_split:
  "tab_id t' \<notin> tab_id ` set xs \<Longrightarrow> tab_id t = tab_id t' \<Longrightarrow> upsert_tab (xs @ t # ys) t' = xs @ t' # ys"
  by (induction xs) auto

lemma upsert_new: "tab_id t \<notin> tab_id ` set ts \<Longrightarrow> upsert_tab ts t = ts @ [t]"
  by (induction ts) auto

lemma upsert_ids: "tab_id c \<in> tab_id ` set L \<Longrightarrow> map tab_id (upsert_tab L c) = map tab_id L"
  by (induction L) auto

lemma upsert_zip:
  assumes "list_all2 (\<lambda>t u. tab_id u = tab_id t \<and> (t \<noteq> u \<longrightarrow> u = c \<or> Q u)) L cur"
    and "distinct (map tab_id cur)" and "c \<in> set cur"
  shows "list_all2 (\<lambda>t u. tab_id u = tab_id t \<and> (t \<noteq> u \<longrightarrow> Q u)) (upsert_tab L c) cur"
  using assms
proof (induction L arbitrary: cur)
  case (Cons t L)
  then obtain u us where cur: "cur = u # us" "tab_id u = tab_id t" "t \<noteq> u \<longrightarrow> u = c \<or> Q u"
      "list_all2 (\<lambda>t u. tab_id u = tab_id t \<and> (t \<noteq> u \<longrightarrow> u = c \<or> Q u)) L us"
    by (auto simp: list_all2_Cons1)
  show ?case
  proof (cases "tab_id t = tab_id c")
    case True
    then have "u = c" using cur(1,2) Cons.prems(2,3) by (auto simp: image_iff)
    moreover have "c \<notin> set us" using Cons.prems(2) cur(1) \<open>u = c\<close> by auto
    with cur(4) have "list_all2 (\<lambda>t u. tab_id u = tab_id t \<and> (t \<noteq> u \<longrightarrow> Q u)) L us"
      by (auto simp: list_all2_conv_all_nth in_set_conv_nth)
    ultimately show ?thesis using True cur by simp
  next
    case False
    then have "u \<noteq> c" "c \<in> set us" using cur Cons.prems(3) by auto
    with False cur Cons.IH [OF cur(4)] Cons.prems(2) show ?thesis by auto
  qed
qed simp

text \<open>Updates that carry the current version of every changed tab, each perhaps several times.\<close>

lemma foldl_upsert:
  assumes "list_all2 (\<lambda>t u. tab_id u = tab_id t \<and> (t \<noteq> u \<longrightarrow> u \<in> set ch)) L cur"
    and "distinct (map tab_id cur)" and "set ch \<subseteq> set cur"
  shows "foldl upsert_tab L ch = cur"
  using assms
proof (induction ch arbitrary: L)
  case Nil
  then show ?case by (simp add: list_all2_conv_all_nth list_eq_iff_nth_eq)
next
  case (Cons c ch)
  then have "list_all2 (\<lambda>t u. tab_id u = tab_id t \<and> (t \<noteq> u \<longrightarrow> u \<in> set ch)) (upsert_tab L c) cur"
    by (intro upsert_zip) simp_all
  with Cons show ?case by simp
qed

lemma foldl_apply_updated: "foldl apply_tabs L (map EvUpdated ts) = foldl upsert_tab L ts"
  by (induction ts arbitrary: L) simp_all

lemma foldl_apply_removed:
  "foldl apply_tabs L (map EvRemoved ids) = filter (\<lambda>t. tab_id t \<notin> set ids) L"
  by (induction ids arbitrary: L) (simp_all add: remove_tab_def conj_commute)

lemma take_in_order_map:
  "distinct ids \<Longrightarrow> \<forall>i \<in> set ids. by_id i = Some (f i) \<Longrightarrow> take_in_order by_id ids = map f ids"
proof (induction ids arbitrary: by_id)
  case (Cons i ids)
  then have "\<forall>j \<in> set ids. (by_id(i := None)) j = Some (f j)" by auto
  with Cons show ?case by simp
qed simp

lemma map_of_tabs:
  assumes "distinct (map tab_id tabs)" and "t \<in> set tabs"
  shows "map_of (rev (map (\<lambda>t. (tab_id t, t)) tabs)) (tab_id t) = Some t"
proof -
  have "distinct (map fst (rev (map (\<lambda>t. (tab_id t, t)) tabs)))"
    using assms(1) by (simp add: comp_def flip: rev_map)
  with assms(2) show ?thesis by (simp del: rev_map)
qed

lemma reorder_eq:
  assumes "distinct (map tab_id tabs)" and "mset tabs' = mset tabs"
  shows "reorder tabs (map tab_id tabs') = tabs'"
proof -
  let ?m = "map_of (rev (map (\<lambda>t. (tab_id t, t)) tabs))"
  have mem: "t \<in> set tabs" if "t \<in> set tabs'" for t using that assms(2) by (metis set_mset_mset)
  have "distinct (map tab_id tabs')" using assms by (metis mset_eq_imp_distinct_iff mset_map)
  then have "take_in_order ?m (map tab_id tabs') = map (\<lambda>i. the (?m i)) (map tab_id tabs')"
    by (intro take_in_order_map) (auto simp: map_of_tabs [OF assms(1)] mem)
  also have "\<dots> = tabs'" by (auto simp: map_of_tabs [OF assms(1)] mem intro!: map_idI)
  finally show ?thesis by (simp add: reorder_def)
qed

section \<open>One operation at a time\<close>

lemma on_tab_sync:
  assumes "on_tab tid f L = Ok (t', L')" and "\<And>t r u. f t = Ok (r, u) \<Longrightarrow> tab_id u = tab_id t"
  shows "upsert_tab L t' = L'"
proof -
  from assms(1) [unfolded on_tab_def] obtain xs t r ys where
    "L = xs @ t # ys" "tid \<notin> tab_id ` set xs" "tab_id t = tid" "f t = Ok (r, t')" "L' = xs @ t' # ys"
    by (rule find_tab_mut_Ok) (auto simp: and_then_eq_Inr)
  with assms(2) show ?thesis by (auto intro: upsert_split)
qed

lemma grid_or_err_mut_id: "grid_or_err_mut t f = Ok (r, u) \<Longrightarrow> tab_id u = tab_id t"
  by (auto simp: grid_or_err_mut_Ok)

lemma tab_ops_keep_id:
  "split_tab_pane lg t p d pl np = Ok (i, u) \<Longrightarrow> tab_id u = tab_id t"
  "set_tab_pane_ratio t path ratio = Ok (w, u) \<Longrightarrow> tab_id u = tab_id t"
  "pick_layout lg t l = Ok (w, u) \<Longrightarrow> tab_id u = tab_id t"
  "close_tab_pane lg t p = Ok (b, u) \<Longrightarrow> tab_id u = tab_id t"
  by (auto simp: split_tab_pane_def set_tab_pane_ratio_def pick_layout_def close_tab_pane_def Let_def
    and_then_eq_Inr dest!: grid_or_err_mut_id split: if_splits)

lemma focus_or_push_sync:
  assumes "focus_or_push env P nm c L = (out, L')" and "uuid env 0 \<notin> tab_id ` set L"
  shows "(case created out of Some t \<Rightarrow> upsert_tab L t | None \<Rightarrow> L) = L'"
  using assms by (auto simp: focus_or_push_def Let_def upsert_new split: option.splits)

lemma close_pane_in_tabs_sync:
  assumes "close_pane_in_tabs lg L tid pid = Ok (res, L')"
  shows "(case res of ClosedRemoved i \<Rightarrow> remove_tab L i | ClosedUpdated t \<Rightarrow> upsert_tab L t) = L'"
proof -
  from assms obtain emp t us where
    find: "find_tab_mut L tid (\<lambda>tab.
        and_then (close_tab_pane lg tab pid) (\<lambda>(emptied, tab'). Ok ((emptied, tab'), tab'))) =
      Ok ((emp, t), us)"
    and res: "emp \<longrightarrow> res = ClosedRemoved tid \<and> L' = filter (\<lambda>t. tab_id t \<noteq> tid) us"
      "\<not> emp \<longrightarrow> res = ClosedUpdated t \<and> L' = us"
    by (auto simp: close_pane_in_tabs_def and_then_eq_Inr split: if_splits)
  from find obtain xs u ys where *: "L = xs @ u # ys" "tid \<notin> tab_id ` set xs" "tab_id u = tid"
      "close_tab_pane lg u pid = Ok (emp, t)" "us = xs @ t # ys"
    by (rule find_tab_mut_Ok) (auto simp: and_then_eq_Inr)
  have "tab_id t = tid" using tab_ops_keep_id(4) [OF *(4)] *(3) by simp
  with * res show ?thesis by (cases emp) (simp_all add: remove_tab_def upsert_split)
qed

lemma node_eq_imp_eq: "node_eq a b \<Longrightarrow> a = b"
  by (induction a b rule: node_eq.induct) (auto simp: flt_eq_iff)

lemma content_id: "grid_of t = Some g \<Longrightarrow> t\<lparr>content := TabGrid g\<rparr> = t"
  by (cases "content t") auto

lemma move_within_sync:
  assumes "move_within_tab L mv = Ok (evs, L')"
  shows "foldl apply_tabs L (map moved_event evs) = L'"
proof -
  obtain xs t t' ys where
    *: "L = xs @ t # ys" "mv_src_tab_id mv \<notin> tab_id ` set xs" "tab_id t = mv_src_tab_id mv"
      "L' = xs @ t' # ys" and
    f: "and_then (grid_or_err t) (\<lambda>before. and_then (move_in_grid before mv) (\<lambda>grid.
         let tab' = t\<lparr>content := TabGrid grid\<rparr> in
         if node_eq grid before then Ok ([], tab')
         else Ok ([MovedUpdated (touch tab')], touch tab'))) = Ok (evs, t')"
    by (rule find_tab_mut_Ok [OF assms [unfolded move_within_tab_alt]]) blast
  from f have "evs = [] \<and> t' = t \<or> evs = [MovedUpdated t'] \<and> tab_id t' = tab_id t"
    by (auto simp: and_then_eq_Inr grid_or_err_def Let_def content_id
      dest!: node_eq_imp_eq split: option.splits if_splits)
  with * show ?thesis by (auto simp: moved_event_def upsert_split)
qed

lemma take_source_shape:
  assumes "take_source lg L mv = Ok ((node, ev), L1)"
  obtains xs t t' ys where "L = xs @ t # ys" and "mv_src_tab_id mv \<notin> tab_id ` set xs"
    and "tab_id t = mv_src_tab_id mv" and "tab_id t' = tab_id t"
    and "ev = MovedRemoved (tab_id t) \<and> L1 = filter (\<lambda>u. tab_id u \<noteq> tab_id t) (xs @ t' # ys) \<or>
         ev = MovedUpdated t' \<and> L1 = xs @ t' # ys"
proof -
  from assms obtain emp st us where
    find: "find_tab_mut L (mv_src_tab_id mv) (\<lambda>src_tab.
          and_then
            (grid_or_err_mut src_tab (\<lambda>grid.
               and_then (extract_pane grid (mv_src_pane_id mv))
                 (\<lambda>(extracted, source_empty, grid'). Ok ((extracted, source_empty), grid'))))
            (\<lambda>((extracted, source_empty), src_tab').
               let src_tab'' = (if source_empty then src_tab' else reapplied lg src_tab')
               in Ok ((extracted, source_empty, src_tab''), src_tab''))) = Ok ((node, emp, st), us)"
    and res: "emp \<longrightarrow> ev = MovedRemoved (mv_src_tab_id mv) \<and> L1 = filter (\<lambda>t. tab_id t \<noteq> mv_src_tab_id mv) us"
      "\<not> emp \<longrightarrow> ev = MovedUpdated st \<and> L1 = us"
    by (auto simp: take_source_def and_then_eq_Inr split: if_splits)
  from find obtain xs t ys where "L = xs @ t # ys" "mv_src_tab_id mv \<notin> tab_id ` set xs"
      "tab_id t = mv_src_tab_id mv" "us = xs @ st # ys" "tab_id st = tab_id t"
    by (rule find_tab_mut_Ok) (auto simp: and_then_eq_Inr grid_or_err_mut_Ok Let_def)
  with res show thesis by (intro that [of xs t ys st]) auto
qed

lemma insert_destination_shape:
  assumes "insert_destination lg L mv node = Ok (dst, L')"
  obtains xs t ys where "L = xs @ t # ys" and "mv_dst_tab_id mv \<notin> tab_id ` set xs"
    and "tab_id t = mv_dst_tab_id mv" and "tab_id dst = tab_id t" and "L' = xs @ dst # ys"
proof -
  from assms [unfolded insert_destination_def] show thesis
    by (rule find_tab_mut_Ok)
       (auto simp: and_then_eq_Inr grid_or_err_mut_Ok Let_def intro: that)
qed

text \<open>
  An update commutes with a removal or an update of another tab, so the destination's event may
  come first although the source changed first.
\<close>

lemma upsert_remove_commute:
  assumes "tab_id d \<noteq> i" and "tab_id d \<in> tab_id ` set L"
  shows "remove_tab (upsert_tab L d) i = upsert_tab (remove_tab L i) d"
  using assms by (induction L) (auto simp: remove_tab_def)

lemma upsert_upsert_commute:
  assumes "tab_id d \<noteq> tab_id e" and "tab_id d \<in> tab_id ` set L" and "tab_id e \<in> tab_id ` set L"
  shows "upsert_tab (upsert_tab L d) e = upsert_tab (upsert_tab L e) d"
proof -
  have "upsert_tab (upsert_tab L d) e = upsert_tab (upsert_tab L e) d"
    if "tab_id d \<noteq> tab_id e" "tab_id d \<in> tab_id ` set L \<or> tab_id e \<in> tab_id ` set L" for L
    using that
  proof (induction L)
    case (Cons t L)
    then show ?case by (cases "tab_id t = tab_id d"; cases "tab_id t = tab_id e") auto
  qed simp
  with assms show ?thesis by blast
qed

lemma move_across_sync:
  assumes "mv_src_tab_id mv \<noteq> mv_dst_tab_id mv" and "move_across_tabs lg L mv = Ok (evs, L')"
  shows "foldl apply_tabs L (map moved_event evs) = L'"
proof -
  from assms(2) obtain node ev L1 dst where
    take: "take_source lg L mv = Ok ((node, ev), L1)" and
    ins: "insert_destination lg L1 mv node = Ok (dst, L')" and evs: "evs = [MovedUpdated dst, ev]"
    by (auto simp: move_across_tabs_def and_then_eq_Inr)
  obtain xs t t' ys where 1: "L = xs @ t # ys" "mv_src_tab_id mv \<notin> tab_id ` set xs"
      "tab_id t = mv_src_tab_id mv" "tab_id t' = tab_id t"
      "ev = MovedRemoved (tab_id t) \<and> L1 = filter (\<lambda>u. tab_id u \<noteq> tab_id t) (xs @ t' # ys) \<or>
       ev = MovedUpdated t' \<and> L1 = xs @ t' # ys"
    by (rule take_source_shape [OF take]) (rule that)
  obtain as d bs where 2: "L1 = as @ d # bs" "mv_dst_tab_id mv \<notin> tab_id ` set as"
      "tab_id d = mv_dst_tab_id mv" "tab_id dst = tab_id d" "L' = as @ dst # bs"
    by (rule insert_destination_shape [OF ins]) (rule that)
  have L': "upsert_tab L1 dst = L'" using 2 by (simp add: upsert_split)
  have "d \<in> set L1" using 2(1) by simp
  moreover have "set L1 \<subseteq> insert t' (set L)" using 1(1,5) by (auto split: if_splits)
  ultimately have "d \<in> set L" using 1(3,4) 2(3) assms(1) by auto
  then have mem: "tab_id dst \<in> tab_id ` set L" using 2(4) by simp
  from 1(5) show ?thesis
  proof
    assume *: "ev = MovedRemoved (tab_id t) \<and> L1 = filter (\<lambda>u. tab_id u \<noteq> tab_id t) (xs @ t' # ys)"
    then have "L1 = remove_tab L (tab_id t)" using 1(1,4) by (simp add: remove_tab_def)
    with * L' mem 1(3) 2(3,4) assms(1) show ?thesis
      by (simp add: evs moved_event_def upsert_remove_commute)
  next
    assume *: "ev = MovedUpdated t' \<and> L1 = xs @ t' # ys"
    then have "L1 = upsert_tab L t'" using 1 by (simp add: upsert_split)
    moreover have "upsert_tab (upsert_tab L dst) t' = upsert_tab (upsert_tab L t') dst"
      using mem 1(1,3,4) 2(3,4) assms(1) by (intro upsert_upsert_commute) auto
    ultimately show ?thesis using * L' by (simp add: evs moved_event_def)
  qed
qed

lemma write_binding_sync:
  assumes "write_binding L tid pid s h = Ok (t', L')"
  shows "upsert_tab L t' = L'" and "tab_id t' = tid"
proof -
  from assms [unfolded write_binding_def] obtain xs t ys where
    "L = xs @ t # ys" "tid \<notin> tab_id ` set xs" "tab_id t = tid" "L' = xs @ t' # ys" "tab_id t' = tab_id t"
    by (rule find_tab_mut_Ok) (auto simp: and_then_eq_Inr grid_or_err_mut_Ok)
  then show "upsert_tab L t' = L'" "tab_id t' = tid" by (simp_all add: upsert_split)
qed

lemma swap_panes_sync:
  assumes "swap_panes L sw = Ok (evs, L')"
  shows "foldl apply_tabs L (map moved_event evs) = L'"
proof (cases "sw_src_tab_id sw = sw_dst_tab_id sw")
  case True
  with assms have "find_tab_mut L (sw_src_tab_id sw) (\<lambda>tab.
      and_then (grid_or_err_mut tab (\<lambda>grid.
         and_then (swap_pane_sessions grid (sw_src_pane_id sw) (sw_dst_pane_id sw)) (\<lambda>grid'. Ok ((), grid'))))
        (\<lambda>(_, tab'). Ok ([MovedUpdated (touch tab')], touch tab'))) = Ok (evs, L')"
    by (simp add: swap_panes_def)
  then obtain xs t t' ys where *: "L = xs @ t # ys" "sw_src_tab_id sw \<notin> tab_id ` set xs"
      "tab_id t = sw_src_tab_id sw" "L' = xs @ t' # ys"
    and f: "and_then (grid_or_err_mut t (\<lambda>grid.
         and_then (swap_pane_sessions grid (sw_src_pane_id sw) (sw_dst_pane_id sw)) (\<lambda>grid'. Ok ((), grid'))))
        (\<lambda>(_, tab'). Ok ([MovedUpdated (touch tab')], touch tab')) = Ok (evs, t')"
    by (rule find_tab_mut_Ok) blast
  from f have "evs = [MovedUpdated t']" "tab_id t' = tab_id t"
    by (auto simp: and_then_eq_Inr grid_or_err_mut_Ok)
  with * show ?thesis by (simp add: moved_event_def upsert_split)
next
  case False
  with assms obtain s1 h1 s2 h2 t1 L1 t2 where
    "write_binding L (sw_src_tab_id sw) (sw_src_pane_id sw) s2 h2 = Ok (t1, L1)"
    "write_binding L1 (sw_dst_tab_id sw) (sw_dst_pane_id sw) s1 h1 = Ok (t2, L')"
    "evs = [MovedUpdated t1, MovedUpdated t2]"
    by (auto simp: swap_panes_def and_then_eq_Inr)
  then show ?thesis by (auto simp: moved_event_def dest: write_binding_sync)
qed

lemma merge_tabs_sync:
  assumes "merge_tabs fresh t0 L ids nm l = Ok (entry, L')" and "fresh \<notin> tab_id ` set L"
    and "wf_tabs L" and "distinct ids"
  shows "foldl apply_tabs L (EvUpdated entry # map EvRemoved ids) = L'"
proof -
  from merge_tabs_Ok [OF assms(1)] obtain ps where *: "collect_merge L ids = Ok ps"
    "tab_id entry = fresh" "L' = filter (\<lambda>t. tab_id t \<notin> set ids) L @ [entry]" by blast
  have "fresh \<notin> set ids" using collect_merge_panes(3) [OF assms(3,4) *(1)] assms(2) by auto
  with * assms(2) show ?thesis by (simp add: upsert_new foldl_apply_removed)
qed

lemma extract_to_new_tab_sync:
  assumes wf: "wf_tabs L" and "extract_to_new_tab lg fresh t0 L tid pids nm l = Ok (out, L')"
    and fresh: "fresh \<notin> tab_id ` set L"
  shows "foldl apply_tabs L [EvUpdated (new_tab out),
    (case source_left out of Some t \<Rightarrow> EvUpdated t | None \<Rightarrow> EvRemoved tid)] = L'"
proof -
  obtain xs t ys g ex emp g' t' where
    *: "L = xs @ t # ys" "tab_id t = tid"
      "grid_of t = Some g" "extract_listed g pids [] = Ok (ex, emp, g')" "pids \<noteq> []"
    and t': "tab_id t' = tid" "tab_panes t' = collect_panes g'"
      "\<not> emp \<Longrightarrow> ratios_ok g' \<Longrightarrow> tab_ratios_ok t'"
    and out: "tab_panes (new_tab out) = ex" "tab_ratios_ok (new_tab out)" "tab_id (new_tab out) = fresh"
    and L': "L' = (if emp then filter (\<lambda>t. tab_id t \<noteq> tid) (xs @ t' # ys) else xs @ t' # ys) @ [new_tab out]"
    and src: "source_left out = (if emp then None else Some t')"
    by (rule extract_to_new_tab_Ok [OF assms(2)]) (rule that)
  have "fresh \<noteq> tid" using fresh * by auto
  moreover have "tid \<notin> tab_id ` set xs" using wf_tabs_tab(3) [OF wf [unfolded *(1)]] *(2) by simp
  ultimately show ?thesis
    using * t'(1) out(3) fresh L' src
    by (cases emp) (simp_all add: upsert_new remove_tab_def upsert_split)
qed

section \<open>Bulk operations\<close>

context pane_edit
begin

lemma edit_grids_sync:
  assumes "wf_tabs L"
  shows "foldl upsert_tab L (fst (edit_grids edit L)) = snd (edit_grids edit L)"
  using edit_grids_zip [of L] edit_grids_subset [of L] assms edit_grids_wf [of L]
  by (intro foldl_upsert) (auto simp: wf_tabs_def elim!: list_all2_mono)

end

context pane_select
begin

lemma close_panes_where_sync:
  assumes wf: "wf_tabs L" and cl: "close_panes_where lg L select = (res, L')"
  shows "foldl apply_tabs L (map EvUpdated (updated res) @ map EvRemoved (removed_tab_ids res)) = L'"
proof -
  from close_panes_where_zip [OF wf cl] obtain us where us: "list_all2 keeps L us"
    and upd: "updated res = map snd (filter (\<lambda>(t, t'). hit t \<and> \<not> emptied t) (zip L us))"
    and rem: "removed_tab_ids res = map tab_id (filter emptied L)"
    and L': "L' = filter (\<lambda>t'. tab_id t' \<notin> set (map tab_id (filter emptied L))) us" by blast
  let ?cur = "map (\<lambda>(t, u). if emptied t then t else u) (zip L us)"
  have len: "length us = length L" using us by (simp add: list_all2_lengthD)
  have ids: "map tab_id ?cur = map tab_id L"
    using us by (auto simp: list_all2_conv_all_nth keeps_def intro!: nth_equalityI)
  have "foldl upsert_tab L (updated res) = ?cur"
  proof (rule foldl_upsert)
    show "distinct (map tab_id ?cur)" using wf ids by (simp only: wf_tabs_def)
    show "set (updated res) \<subseteq> set ?cur" by (force simp: upd)
    show "list_all2 (\<lambda>t u. tab_id u = tab_id t \<and> (t \<noteq> u \<longrightarrow> u \<in> set (updated res))) L ?cur"
      unfolding list_all2_conv_all_nth
    proof (intro conjI allI impI)
      fix i assume i: "i < length L"
      with us have k: "keeps (L ! i) (us ! i)" by (simp add: list_all2_conv_all_nth)
      with i len show "tab_id (?cur ! i) = tab_id (L ! i)" by (simp add: keeps_def)
      assume "L ! i \<noteq> ?cur ! i"
      with i len k have "\<not> emptied (L ! i)" "hit (L ! i)" by (auto simp: keeps_def split: if_splits)
      moreover have "(L ! i, us ! i) \<in> set (zip L us)" using i len by (force simp: set_zip)
      ultimately show "?cur ! i \<in> set (updated res)" using i len by (force simp: upd)
    qed (simp add: len)
  qed
  moreover have "filter (\<lambda>t. tab_id t \<notin> set (map tab_id (filter emptied L))) ?cur = L'"
    unfolding L' using us
  proof -
    have "filter (\<lambda>t. tab_id t \<notin> S) (map (\<lambda>(t, u). if emptied t then t else u) (zip xs ys)) =
        filter (\<lambda>t. tab_id t \<notin> S) ys"
      if "list_all2 keeps xs ys" "tab_id ` {t \<in> set xs. emptied t} \<subseteq> S" for S xs ys
      using that by (induction rule: list_all2_induct) (auto simp: keeps_def)
    from this [OF us, of "set (map tab_id (filter emptied L))"]
    show "filter (\<lambda>t. tab_id t \<notin> set (map tab_id (filter emptied L))) ?cur =
      filter (\<lambda>t'. tab_id t' \<notin> set (map tab_id (filter emptied L))) us" by auto
  qed
  ultimately show ?thesis by (simp only: foldl_append foldl_apply_updated foldl_apply_removed rem)
qed

end

text \<open>Rebinds applied in turn: the accumulated updates are the current versions of the changed tabs.\<close>

lemma latest_versions:
  "foldl (\<lambda>acc tab. filter (\<lambda>e. tab_id e \<noteq> tab_id tab) acc @ [tab]) ch upd =
     filter (\<lambda>e. tab_id e \<notin> tab_id ` set upd) ch @
       foldl (\<lambda>acc tab. filter (\<lambda>e. tab_id e \<noteq> tab_id tab) acc @ [tab]) [] upd"
proof (induction upd rule: rev_induct)
  case (snoc t upd)
  then show ?case by (simp add: conj_commute)
qed simp

lemma latest_all:
  "distinct (map tab_id upd) \<Longrightarrow>
     foldl (\<lambda>acc tab. filter (\<lambda>e. tab_id e \<noteq> tab_id tab) acc @ [tab]) [] upd = upd"
proof (induction upd rule: rev_induct)
  case (snoc t upd)
  then have "filter (\<lambda>e. tab_id e \<noteq> tab_id t) upd = upd" by (auto simp: image_iff intro!: filter_True)
  with snoc show ?case by simp
qed simp

definition tracks :: "TabEntry list \<Rightarrow> TabEntry list \<Rightarrow> TabEntry list \<Rightarrow> bool" where
  "tracks L ch cur \<longleftrightarrow> set ch \<subseteq> set cur \<and>
     list_all2 (\<lambda>t u. tab_id u = tab_id t \<and> (t \<noteq> u \<longrightarrow> u \<in> set ch)) L cur"

lemma tracks_sync: "tracks L ch cur \<Longrightarrow> wf_tabs cur \<Longrightarrow> foldl upsert_tab L ch = cur"
  by (auto simp: tracks_def wf_tabs_def intro: foldl_upsert)

lemma tracks_refl: "tracks L [] L"
  by (simp add: tracks_def list_all2_same)

lemma tracks_step:
  assumes tr: "tracks L ch cur" and upd: "tracks cur upd cur1" and wf: "distinct (map tab_id cur1)"
  shows "tracks L (filter (\<lambda>e. tab_id e \<notin> tab_id ` set upd) ch @ upd) cur1"
proof -
  have len: "length L = length cur" "length cur = length cur1"
    using tr upd by (auto simp: tracks_def dest: list_all2_lengthD)
  have same: "u = v" if "u \<in> set cur1" "v \<in> set cur1" "tab_id u = tab_id v" for u v
    using wf that by (auto simp: distinct_map dest: inj_onD)
  have i1: "tab_id (cur ! i) = tab_id (L ! i)" "L ! i \<noteq> cur ! i \<Longrightarrow> cur ! i \<in> set ch"
    if "i < length L" for i using tr that by (auto simp: tracks_def list_all2_conv_all_nth)
  have i2: "tab_id (cur1 ! i) = tab_id (cur ! i)" "cur ! i \<noteq> cur1 ! i \<Longrightarrow> cur1 ! i \<in> set upd"
    if "i < length L" for i using upd that len by (auto simp: tracks_def list_all2_conv_all_nth)
  have sub: "set upd \<subseteq> set cur1" "set ch \<subseteq> set cur" using tr upd by (auto simp: tracks_def)
  have kept: "e \<in> set cur1" if "e \<in> set ch" "tab_id e \<notin> tab_id ` set upd" for e
  proof -
    from that(1) sub(2) have "e \<in> set cur" by blast
    then obtain i where "i < length cur" "e = cur ! i" by (auto simp: in_set_conv_nth)
    with i2 [of i] that len show ?thesis
      by (cases "cur ! i = cur1 ! i") (auto simp: image_iff)
  qed
  have "cur1 ! i \<in> set (filter (\<lambda>e. tab_id e \<notin> tab_id ` set upd) ch @ upd)"
    if i: "i < length L" and "L ! i \<noteq> cur1 ! i" for i
  proof (cases "cur ! i = cur1 ! i")
    case True
    with that i1 [OF i] have ch: "cur1 ! i \<in> set ch" by simp
    show ?thesis
    proof (cases "tab_id (cur1 ! i) \<in> tab_id ` set upd")
      case True
      then obtain v where "v \<in> set upd" "tab_id (cur1 ! i) = tab_id v" by auto
      with same [of "cur1 ! i" v] sub i len have "cur1 ! i = v" by auto
      with \<open>v \<in> set upd\<close> show ?thesis by simp
    qed (use ch in simp)
  next
    case False
    with i2 [OF i] show ?thesis by simp
  qed
  with kept sub len i1(1) i2(1) show ?thesis
    by (auto simp: tracks_def list_all2_conv_all_nth)
qed

lemma rebind_session_tracks:
  assumes "wf_tabs cur" and "rebind_session cur target old new = (upd, cur1)"
  shows "tracks cur upd cur1" and "wf_tabs cur1" and "distinct (map tab_id upd)"
proof -
  have *: "upd = fst (edit_grids (\<lambda>g. rebind_grid g target old new) cur)"
    "cur1 = snd (edit_grids (\<lambda>g. rebind_grid g target old new) cur)"
    using assms(2) by (simp_all add: rebind_session_def)
  show "tracks cur upd cur1"
    unfolding tracks_def *
    using rebind.edit_grids_zip [of target old new cur] rebind.edit_grids_subset [of target old new cur]
    by (auto elim!: list_all2_mono)
  show "wf_tabs cur1" using assms(1) by (simp add: *(2) rebind.edit_grids_wf)
  show "distinct (map tab_id upd)"
    using assms(1) unfolding *(1) rebind.edit_grids_updated
    by (simp add: wf_tabs_def distinct_map_filter)
qed

lemma rebind_in_layout_tracks:
  assumes "tracks L ch cur" and "wf_tabs cur" and "rebind_in_layout target rebinds ch cur = (ch', cur')"
  shows "tracks L ch' cur' \<and> wf_tabs cur'"
  using assms
proof (induction rebinds arbitrary: ch cur)
  case (Cons r rebinds)
  obtain old new where r: "r = (old, new)" by fastforce
  obtain upd cur1 where s: "rebind_session cur target old new = (upd, cur1)" by fastforce
  note u = rebind_session_tracks [OF Cons.prems(2) s]
  have "tracks L (filter (\<lambda>e. tab_id e \<notin> tab_id ` set upd) ch @ upd) cur1"
    using tracks_step [OF Cons.prems(1) u(1)] u(2) by (simp add: wf_tabs_def)
  moreover have "rebind_in_layout target rebinds
      (filter (\<lambda>e. tab_id e \<notin> tab_id ` set upd) ch @ upd) cur1 = (ch', cur')"
    using Cons.prems(3) by (simp add: r s latest_versions [of ch upd] latest_all [OF u(3)])
  ultimately show ?case using Cons.IH u(2) by blast
qed simp

lemma rebind_in_layout_sync:
  assumes "wf_tabs L" and "rebind_in_layout target rebinds [] L = (ch, L')"
  shows "foldl apply_tabs L (map EvUpdated ch) = L'" and "wf_tabs L'"
  using rebind_in_layout_tracks [OF tracks_refl assms] tracks_sync
  by (auto simp: foldl_apply_updated)

section \<open>Handlers\<close>

lemma entry_tabs [simp]: "layout_tabs (layout_entry s cid) = client_layout s cid"
  by (simp add: layout_entry_def client_layout_def default_layout_def split: option.split)

lemma client_layout_put [simp]:
  "client_layout (put_tabs s cid tabs) c = (if c = cid then tabs else client_layout s c)"
  by (simp add: put_tabs_def client_layout_def)

lemma legacy_put [simp]: "legacy_tabs (put_tabs s cid tabs) = legacy_tabs s"
  by (simp add: put_tabs_def)

text \<open>
  What a handler owes its requester: its events take the requester's list from the old hub to the
  new one, and no other client's list changes or hears of it.
\<close>

definition in_step :: "string \<Rightarrow> Hub \<Rightarrow> handled \<Rightarrow> bool" where
  "in_step cid s h = (case h of (r, outs, s') \<Rightarrow>
     no_lists outs \<and>
     foldl apply_tabs (client_layout s cid) (events_for cid outs) = client_layout s' cid \<and>
     (\<forall>c. c \<noteq> cid \<longrightarrow> events_for c outs = [] \<and> client_layout s' c = client_layout s c))"

lemma in_step_failure [simp]:
  "in_step cid s (Ok (), send_tab_failure e req, s)"
  "in_step cid s (Err e', [], s)"
  "in_step cid s (Ok (), [], s)"
  "in_step cid s (Ok (), [Reply (ErrorMsg oe rid code)], s)"
  by (simp_all add: in_step_def send_tab_failure_def)

lemma in_step_put:
  assumes "no_lists outs" and "foldl apply_tabs (client_layout s cid) (events_for cid outs) = tabs"
    and "\<And>c. c \<noteq> cid \<Longrightarrow> events_for c outs = []"
  shows "in_step cid s (r, outs, put_tabs s cid tabs)"
  using assms by (simp add: in_step_def)

lemma try_mutate_answer_in_step:
  assumes "\<And>x tabs. f (client_layout s cid) = Ok (x, tabs) \<Longrightarrow>
      no_lists (outs x) \<and> foldl apply_tabs (client_layout s cid) (events_for cid (outs x)) = tabs \<and>
      (\<forall>c. c \<noteq> cid \<longrightarrow> events_for c (outs x) = [])"
  shows "in_step cid s (answer_failure req (try_mutate_client_layout env s cid f) outs)"
    and "in_step cid s (return_failure (try_mutate_client_layout env s cid f) outs)"
  using assms
  by (auto simp: answer_failure_def return_failure_def try_mutate_client_layout_def try_mutate_def
    and_then_def in_step_put split: sum.split prod.split)

lemma mutate_answer_in_step:
  assumes "disk_ok env" and "\<And>x tabs. f (client_layout s cid) = (x, tabs) \<Longrightarrow>
      no_lists (outs x) \<and> foldl apply_tabs (client_layout s cid) (events_for cid (outs x)) = tabs \<and>
      (\<forall>c. c \<noteq> cid \<longrightarrow> events_for c (outs x) = [])"
  shows "in_step cid s (answer_failure req (mutate_client_layout env s cid f) outs)"
    and "in_step cid s (return_failure (mutate_client_layout env s cid f) outs)"
  using assms
  by (auto simp: answer_failure_def return_failure_def mutate_client_layout_def mutate_def
    in_step_put split: prod.split)

lemma in_place_in_step:
  assumes "disk_ok env" and "\<And>t tabs. f (client_layout s cid) = Ok (t, tabs) \<Longrightarrow> upsert_tab (client_layout s cid) t = tabs"
  shows "in_step cid s (case mutate_client_layout env s cid (in_place f) of (r, s') \<Rightarrow>
    return_failure (flatten r, s') (\<lambda>tab. [EmitTab cid (EvUpdated tab)]))"
  using assms
  by (auto simp: mutate_client_layout_def mutate_def in_place_def flatten_def return_failure_def
    in_step_put split: sum.split prod.split)

lemma opened_in_step:
  assumes "disk_ok env" and "\<And>out tabs. f (client_layout s cid) = (out, tabs) \<Longrightarrow>
      (case created out of Some t \<Rightarrow> upsert_tab (client_layout s cid) t | None \<Rightarrow> client_layout s cid) = tabs"
    and "\<And>i j. no_lists [Reply (answer i j)]"
  shows "in_step cid s (opened cid rid answer (mutate_client_layout env s cid f))"
proof -
  obtain out tabs where f: "f (client_layout s cid) = (out, tabs)" by fastforce
  have nl: "no_lists (outs @ [Reply (answer i j)]) = no_lists outs" for outs i j
    using assms(3) by (simp add: no_lists_def)
  from assms f show ?thesis
    by (auto simp: opened_def mutate_client_layout_def mutate_def nl intro!: in_step_put
      split: option.split)
qed

lemma restore_tab_sync:
  assumes wf: "wf_tabs L" and "restore_tab L tab i = Ok (r, L')"
  shows "foldl apply_tabs L [EvUpdated r, EvReordered (map tab_id L')] = L'"
proof -
  from assms(2) have *: "tab_id tab \<notin> tab_id ` set L" "r = tab" "L' = take i L @ tab # drop i L"
    by (auto simp: restore_tab_spec split: if_splits)
  have "mset L' = mset (L @ [tab])"
    unfolding *(3) by (rule mset_insert_at)
  moreover have "distinct (map tab_id (L @ [tab]))" using wf * by (simp add: wf_tabs_def)
  ultimately show ?thesis using *(1,2) by (simp add: upsert_new reorder_eq)
qed

lemma restore_snapshot_sync:
  assumes "restore_tab_snapshot L tab = Ok (r, L')"
  shows "upsert_tab L r = L'"
proof -
  from assms [unfolded restore_tab_snapshot_def] obtain xs t t' ys where
    "L = xs @ t # ys" "tab_id tab \<notin> tab_id ` set xs" "tab_id t = tab_id tab"
    "Ok (tab, tab) = (Ok (r, t') :: tab_error + _)" "L' = xs @ t' # ys"
    by (rule find_tab_mut_Ok) (rule that)
  then show ?thesis by (auto simp: upsert_split)
qed

lemma reorder_tabs_sync:
  assumes "wf_tabs L" and "distinct ids" and "reorder_tabs L ids = Ok ((), L')"
  shows "reorder L ids = L'"
  using reorder_tabs_spec [OF assms] reorder_eq [of L L'] assms(1) by (simp add: wf_tabs_def)

section \<open>Well-formed layouts\<close>

definition pane_names :: "TabEntry list \<Rightarrow> string set" where
  "pane_names tabs = pane_id ` set (all_panes tabs)"

definition hub_wf :: "Hub \<Rightarrow> bool" where
  "hub_wf s \<longleftrightarrow> wf_tabs (legacy_tabs s) \<and> (\<forall>cid. wf_tabs (client_layout s cid))"

text \<open>What the code relies on of UUIDs: no two draws are equal, and none is in use already.\<close>

definition fresh_for :: "Env \<Rightarrow> Hub \<Rightarrow> bool" where
  "fresh_for env s \<longleftrightarrow> inj (uuid env) \<and>
     (\<forall>i cid. uuid env i \<notin> tab_id ` set (client_layout s cid) \<and>
        uuid env i \<notin> pane_names (client_layout s cid))"

text \<open>
  What the daemon takes from a client unchecked: an order or a merge names no tab twice, and a
  restored tab is well formed and shares no pane with the tabs it joins.
\<close>

definition tab_fits :: "TabEntry \<Rightarrow> TabEntry list \<Rightarrow> bool" where
  "tab_fits tab tabs \<longleftrightarrow> distinct (map pane_id (tab_panes tab)) \<and> tab_ratios_ok tab \<and>
     pane_id ` set (tab_panes tab) \<inter> pane_names tabs = {}"

definition request_ok :: "Hub \<Rightarrow> string \<Rightarrow> ClientMessage \<Rightarrow> bool" where
  "request_ok s cid msg =
     (case msg of
        ReorderTabs ids _ \<Rightarrow> distinct ids
      | MergeTabs ids _ _ _ \<Rightarrow> distinct ids
      | RestoreTab tab _ \<Rightarrow> tab_fits tab (client_layout s cid)
      | RestoreTabSnapshot tab \<Rightarrow>
          tab_fits tab (filter (\<lambda>t. tab_id t \<noteq> tab_id tab) (client_layout s cid))
      | _ \<Rightarrow> True)"

definition keeps_tab :: "string set \<Rightarrow> TabEntry \<Rightarrow> TabEntry \<Rightarrow> bool" where
  "keeps_tab N t u \<longleftrightarrow> tab_id u = tab_id t \<and>
     (distinct (map pane_id (tab_panes t)) \<and> tab_ratios_ok t \<longrightarrow>
        distinct (map pane_id (tab_panes u)) \<and> tab_ratios_ok u \<and>
        pane_id ` set (tab_panes u) \<subseteq> pane_id ` set (tab_panes t) \<union> N)"

lemma on_tab_wf:
  assumes wf: "wf_tabs L" and "on_tab tid f L = Ok (t', L')"
    and f: "\<And>t r u. t \<in> set L \<Longrightarrow> f t = Ok (r, u) \<Longrightarrow> keeps_tab N t u" and "N \<inter> pane_names L = {}"
  shows "wf_tabs L'"
proof -
  from assms(2) [unfolded on_tab_def] obtain xs t r ys where
    *: "L = xs @ t # ys" "f t = Ok (r, t')" "L' = xs @ t' # ys"
    by (rule find_tab_mut_Ok) (auto simp: and_then_eq_Inr)
  note wf' = wf [unfolded *(1)]
  have "keeps_tab N t t'" using f *(1,2) by simp
  with wf_tabs_tab(1,2) [OF wf'] have k: "tab_id t' = tab_id t" "distinct (map pane_id (tab_panes t'))"
    "tab_ratios_ok t'" "pane_id ` set (tab_panes t') \<subseteq> pane_id ` set (tab_panes t) \<union> N"
    by (simp_all add: keeps_tab_def)
  have "pane_id ` set (all_panes (xs @ ys)) \<subseteq> pane_names L" by (auto simp: pane_names_def *(1))
  with k(4) wf_tabs_tab(5) [OF wf'] assms(4)
  have "pane_id ` set (tab_panes t') \<inter> pane_id ` set (all_panes (xs @ ys)) = {}" by blast
  with k wf_tabs_update [OF wf'] *(3) show ?thesis by blast
qed

lemma rename_keeps: "keeps_tab {} t (t\<lparr>tab_name := nm\<rparr>)"
  by (simp add: keeps_tab_def tab_panes_def tab_ratios_ok_def)

lemma ratio_keeps: "set_tab_pane_ratio t path ratio = Ok (w, u) \<Longrightarrow> keeps_tab {} t u"
  by (auto simp: set_tab_pane_ratio_def and_then_eq_Inr grid_or_err_mut_Ok keeps_tab_def
    set_pane_ratio_def dest!: set_ratio_at_collect)

lemma replace_keeps:
  assumes "grid_or_err_mut t (\<lambda>grid. and_then (replace_pane_session grid pid sid h)
      (\<lambda>grid'. Ok ((), grid'))) = Ok (w, u)"
  shows "keeps_tab {} t u"
proof -
  from assms obtain g g' where g: "grid_of t = Some g" "replace_pane_session g pid sid h = Ok g'"
    "u = t\<lparr>content := TabGrid g'\<rparr>" by (auto simp: grid_or_err_mut_Ok and_then_eq_Inr)
  have "pid \<in> set (pane_ids g)"
  proof (rule ccontr)
    assume "pid \<notin> set (pane_ids g)"
    with g(2) show False by (simp add: replace_pane_session_def replace_session_in_absent)
  qed
  then obtain p where p: "p \<in> set (collect_panes g)" "pid = pane_id p" by auto
  show ?thesis
    unfolding keeps_tab_def
  proof (intro conjI impI)
    assume "distinct (map pane_id (tab_panes t)) \<and> tab_ratios_ok t"
    with g(1) have d: "distinct (pane_ids g)" "ratios_ok g" by simp_all
    from replace_pane_session_Ok [OF d(1) p(1), where s = sid and h = h] g(2) p(2) d(2)
    have "collect_panes g' = rebind_pane pid sid h (collect_panes g)" "ratios_ok g'"
      by (auto simp: rebind_pane_def)
    with g d show "distinct (map pane_id (tab_panes u))" "tab_ratios_ok u"
      "pane_id ` set (tab_panes u) \<subseteq> pane_id ` set (tab_panes t) \<union> {}" by simp_all
  qed (simp add: g(3))
qed

lemma rearrange_grid_panes:
  assumes "rearrange_grid lg g l = Ok g'"
  shows "collect_panes g' =
      (if list_ex (\<lambda>p. session_id p \<noteq> None) (collect_panes g)
       then filter (\<lambda>p. session_id p \<noteq> None) (collect_panes g) else collect_panes g)"
    and "ratios_ok g'"
  using assms
  by (auto simp: rearrange_grid_def Let_def layout.build_SomeD filter_empty_conv list_ex_iff
    split: option.splits if_splits)

lemma pick_keeps: "pick_layout lg t l = Ok (w, u) \<Longrightarrow> keeps_tab {} t u"
  by (auto simp: pick_layout_def Let_def and_then_eq_Inr grid_or_err_mut_Ok keeps_tab_def
      layout.build_SomeD rearrange_grid_panes distinct_map_filter split: if_splits option.splits)

lemma split_keeps:
  assumes "split_tab_pane lg t target d pl (new_pane fresh s h) = Ok (r, u)"
    and "fresh \<notin> pane_id ` set (tab_panes t)"
  shows "keeps_tab {fresh} t u"
proof -
  have mem: "target \<in> pane_id ` set (tab_panes t)"
  proof (rule ccontr)
    assume "target \<notin> pane_id ` set (tab_panes t)"
    with assms(1) show False
      by (auto simp: split_tab_pane_def and_then_eq_Inr grid_or_err_mut_Ok new_pane_def split_pane_absent)
  qed
  let ?np = "\<lparr>pane_id = fresh, session_id = s, host = h\<rparr>"
  show ?thesis
    unfolding keeps_tab_def
  proof (intro conjI impI)
    show "tab_id u = tab_id t" using tab_ops_keep_id(1) [OF assms(1)] .
    assume a: "distinct (map pane_id (tab_panes t)) \<and> tab_ratios_ok t"
    then have d: "distinct (map pane_id (tab_panes t))" ..
    from split_tab_pane_spec [OF d mem, of lg d pl fresh s h] assms(1) a
    have u: "tab_panes u = subst_pane target (split_with pl ?np) (tab_panes t)" "tab_ratios_ok u" by auto
    have "pane_id ?np \<notin> pane_id ` set (tab_panes t)" using assms(2) by simp
    from subst_split_ids [OF d mem this, of pl] u
    show "distinct (map pane_id (tab_panes u))" "tab_ratios_ok u"
      "pane_id ` set (tab_panes u) \<subseteq> pane_id ` set (tab_panes t) \<union> {fresh}" by auto
  qed
qed

lemma focus_or_push_wf:
  assumes "wf_tabs L" and "uuid env 0 \<notin> tab_id ` set L" and "tab_grid c = None"
  shows "wf_tabs (snd (focus_or_push env P nm c L))"
proof -
  have "tab_panes \<lparr>tab_id = i, tab_name = nm, content = c, created_at = t0, picked_layout = None\<rparr> = []"
    "tab_ratios_ok \<lparr>tab_id = i, tab_name = nm, content = c, created_at = t0, picked_layout = None\<rparr>"
    for i t0 using assms(3) by (simp_all add: tab_panes_def tab_ratios_ok_def)
  with assms show ?thesis
    by (auto simp: focus_or_push_def Let_def intro!: wf_tabs_push split: option.split)
qed

lemma wf_tabs_filter: "wf_tabs tabs \<Longrightarrow> wf_tabs (filter P tabs)"
proof (induction tabs)
  case (Cons t ts)
  have "set (all_panes (filter P ts)) \<subseteq> set (all_panes ts)" by (auto simp: all_panes_def)
  with Cons show ?case by (auto simp: wf_tabs_def list_all_iff)
qed simp

lemma close_pane_in_tabs_wf:
  assumes wf: "wf_tabs L" and "close_pane_in_tabs lg L tid pid = Ok (res, L')"
  shows "wf_tabs L'"
proof -
  have "tid \<in> tab_id ` set L"
  proof (rule ccontr)
    assume "tid \<notin> tab_id ` set L"
    with assms(2) show False by (simp add: close_pane_in_tabs_def find_tab_mut_absent)
  qed
  then obtain xs t ys where *: "L = xs @ t # ys" "tid \<notin> tab_id ` set xs" "tab_id t = tid"
    by (rule tab_split)
  have "pid \<in> pane_id ` set (tab_panes t)"
  proof (rule ccontr)
    assume "pid \<notin> pane_id ` set (tab_panes t)"
    from close_tab_pane_err [OF this] assms(2) * show False
      by (simp add: close_pane_in_tabs_def find_tab_mut_split)
  qed
  from close_pane_in_tabs_spec [OF wf [unfolded *(1)] *(3) this, of lg] obtain r M where
    "close_pane_in_tabs lg (xs @ t # ys) tid pid = Ok (r, M)" "wf_tabs M" by blast
  with assms(2) *(1) show ?thesis by simp
qed

lemma move_pane_wf:
  assumes wf: "wf_tabs L" and mv: "move_pane lg L mv = Ok (evs, L')"
  shows "wf_tabs L'"
proof (cases "mv_src_tab_id mv = mv_dst_tab_id mv")
  case True
  with mv have w: "move_within_tab L mv = Ok (evs, L')" by (simp add: move_pane_def)
  show ?thesis
  proof (cases "mv_edge mv = Replace")
    case rep: True
    from move_within_tab_Ok [OF w] obtain xs t ys g g' t' where
      *: "L = xs @ t # ys" "grid_of t = Some g" "move_in_grid g mv = Ok g'" "L' = xs @ t' # ys"
        "tab_id t' = tab_id t" "grid_of t' = Some g'" by metis
    note wf' = wf [unfolded *(1)]
    have d: "distinct (pane_ids g)" "ratios_ok g" using wf_tabs_tab(1,2) [OF wf'] *(2) by simp_all
    from *(3) rep have sw: "swap_pane_sessions g (mv_src_pane_id mv) (mv_dst_pane_id mv) = Ok g'"
      by (simp add: move_in_grid_def)
    from swap_pane_sessions_Ok [OF sw d(1)] d(2) have "ratios_ok g' \<and> pane_ids g' = pane_ids g" by blast
    then show ?thesis
      unfolding *(4)
      by (intro wf_tabs_shrink [OF wf' *(5)]) (use *(2,6) d in \<open>auto simp flip: set_map\<close>)
  next
    case False
    from move_within_tab_mset(2) [OF wf w False] show ?thesis .
  qed
next
  case False
  with mv obtain node ev L1 dst where
    take: "take_source lg L mv = Ok ((node, ev), L1)" and
    ins: "insert_destination lg L1 mv node = Ok (dst, L')"
    by (auto simp: move_pane_def move_across_tabs_def and_then_eq_Inr)
  from take_source_spec [OF wf take] obtain p where p: "node = to_node p"
    "all_panes L1 = filter (\<lambda>q. pane_id q \<noteq> pane_id p) (all_panes L)" "wf_tabs L1" by metis
  have "pane_id p \<notin> pane_id ` set (all_panes L1)" by (auto simp: p(2))
  with insert_destination_mset(2) [OF p(3)] insert_destination_replace(2) [OF p(3)] ins p(1)
  show ?thesis by (cases "mv_edge mv = Replace") blast+
qed

lemma write_binding_wf:
  assumes wf: "wf_tabs L" and "write_binding L tid pid sid h = Ok (t', L')"
  shows "wf_tabs L'"
proof -
  from assms(2) have "on_tab tid (\<lambda>tab. and_then (grid_or_err_mut tab (\<lambda>grid.
      and_then (replace_pane_session grid pid sid h) (\<lambda>grid'. Ok ((), grid'))))
      (\<lambda>(_, tab'). Ok ((), touch tab'))) L = Ok (t', L')"
  proof -
    have *: "(\<lambda>tab. and_then (and_then (X tab) (\<lambda>(_, tab'). Ok ((), touch tab'))) (\<lambda>(_, tab'). Ok (tab', tab'))) =
        (\<lambda>tab. and_then (X tab) (\<lambda>(_, tab'). Ok (touch tab', touch tab')))"
      for X :: "TabEntry \<Rightarrow> tab_error + (unit \<times> TabEntry)"
      by (rule ext) (simp add: and_then_def split: sum.split prod.split)
    from assms(2) show ?thesis by (simp only: write_binding_def on_tab_def *)
  qed
  then show ?thesis
  proof (rule on_tab_wf [OF wf, where N = "{}"])
    fix t r u
    assume "and_then (grid_or_err_mut t (\<lambda>grid.
        and_then (replace_pane_session grid pid sid h) (\<lambda>grid'. Ok ((), grid'))))
        (\<lambda>(_, tab'). Ok ((), touch tab')) = Ok (r :: unit, u)"
    then obtain v where "grid_or_err_mut t (\<lambda>grid.
        and_then (replace_pane_session grid pid sid h) (\<lambda>grid'. Ok ((), grid'))) = Ok ((), v)"
      and "u = touch v" by (auto simp: and_then_eq_Inr)
    with replace_keeps show "keeps_tab {} t u" by (auto simp: keeps_tab_def)
  qed simp
qed

lemma swap_panes_wf:
  assumes wf: "wf_tabs L" and sw: "swap_panes L sw = Ok (evs, L')"
  shows "wf_tabs L'"
proof (cases "sw_src_tab_id sw = sw_dst_tab_id sw")
  case True
  with sw have "find_tab_mut L (sw_src_tab_id sw) (\<lambda>tab.
      and_then (grid_or_err_mut tab (\<lambda>grid.
         and_then (swap_pane_sessions grid (sw_src_pane_id sw) (sw_dst_pane_id sw)) (\<lambda>grid'. Ok ((), grid'))))
        (\<lambda>(_, tab'). Ok ([MovedUpdated (touch tab')], touch tab'))) = Ok (evs, L')"
    by (simp add: swap_panes_def)
  then obtain xs t t' ys where *: "L = xs @ t # ys" "L' = xs @ t' # ys"
    and f: "and_then (grid_or_err_mut t (\<lambda>grid.
         and_then (swap_pane_sessions grid (sw_src_pane_id sw) (sw_dst_pane_id sw)) (\<lambda>grid'. Ok ((), grid'))))
        (\<lambda>(_, tab'). Ok ([MovedUpdated (touch tab')], touch tab')) = Ok (evs, t')"
    by (rule find_tab_mut_Ok) blast
  from f obtain g g' where g: "grid_of t = Some g"
      "swap_pane_sessions g (sw_src_pane_id sw) (sw_dst_pane_id sw) = Ok g'"
      "t' = touch (t\<lparr>content := TabGrid g'\<rparr>)"
    by (auto simp: and_then_eq_Inr grid_or_err_mut_Ok)
  note wf' = wf [unfolded *(1)]
  have d: "distinct (pane_ids g)" "ratios_ok g" using wf_tabs_tab(1,2) [OF wf'] g(1) by simp_all
  note o = swap_pane_sessions_Ok [OF g(2) d(1)]
  show ?thesis
    unfolding *(2)
    by (rule wf_tabs_shrink [OF wf']) (use g(1,3) o d in \<open>auto simp flip: set_map\<close>)
next
  case False
  with sw obtain s1 h1 s2 h2 t1 L1 t2 where
    "write_binding L (sw_src_tab_id sw) (sw_src_pane_id sw) s2 h2 = Ok (t1, L1)"
    "write_binding L1 (sw_dst_tab_id sw) (sw_dst_pane_id sw) s1 h1 = Ok (t2, L')"
    by (auto simp: swap_panes_def and_then_eq_Inr)
  with write_binding_wf wf show ?thesis by metis
qed

lemma restore_snapshot_wf:
  assumes wf: "wf_tabs L" and r: "restore_tab_snapshot L tab = Ok (r, L')"
    and fits: "tab_fits tab (filter (\<lambda>t. tab_id t \<noteq> tab_id tab) L)"
  shows "wf_tabs L'"
proof -
  from r [unfolded restore_tab_snapshot_def] obtain xs t t' ys where
    *: "L = xs @ t # ys" "tab_id tab \<notin> tab_id ` set xs" "tab_id t = tab_id tab"
    "Ok (tab, tab) = (Ok (r, t') :: tab_error + _)" "L' = xs @ t' # ys"
    by (rule find_tab_mut_Ok) (rule that)
  note wf' = wf [unfolded *(1)]
  have "filter (\<lambda>t. tab_id t \<noteq> tab_id tab) L = xs @ ys"
    unfolding *(1) by (rule filter_other_tabs [OF wf' *(3) *(3)])
  with fits have "distinct (map pane_id (tab_panes tab))" "tab_ratios_ok tab"
    "pane_id ` set (tab_panes tab) \<inter> pane_id ` set (all_panes (xs @ ys)) = {}"
    by (simp_all add: tab_fits_def pane_names_def del: all_panes_simps)
  with wf_tabs_update [OF wf'] *(3,4,5) show ?thesis by auto
qed

section \<open>Copied layouts\<close>

lemma clone_grid_spec:
  assumes "clone_grid_fresh_pane_ids uu k g = (g', k')"
  shows "k' = k + length (collect_panes g)" and "pane_ids g' = map uu [k..<k']"
    and "map (\<lambda>p. (session_id p, host p)) (collect_panes g') =
         map (\<lambda>p. (session_id p, host p)) (collect_panes g)"
    and "ratios_ok g' = ratios_ok g"
proof -
  have "k' = k + length (collect_panes g) \<and> pane_ids g' = map uu [k..<k'] \<and>
    map (\<lambda>p. (session_id p, host p)) (collect_panes g') =
      map (\<lambda>p. (session_id p, host p)) (collect_panes g) \<and> ratios_ok g' = ratios_ok g"
    using assms
  proof (induction g arbitrary: k g' k')
    case (Split d r a b)
    from Split.prems obtain a' k1 b' where a: "clone_grid_fresh_pane_ids uu k a = (a', k1)"
      and b: "clone_grid_fresh_pane_ids uu k1 b = (b', k')" and g': "g' = Split d r a' b'"
      by (auto split: prod.splits)
    note A = Split.IH(1) [OF a] and B = Split.IH(2) [OF b]
    have "map uu [k..<k1] @ map uu [k1..<k'] = map uu [k..<k']"
      using A B by (metis le_add1 map_append upt_add_eq_append)
    with A B g' show ?case by simp
  qed auto
  then show "k' = k + length (collect_panes g)" and "pane_ids g' = map uu [k..<k']"
    and "map (\<lambda>p. (session_id p, host p)) (collect_panes g') =
         map (\<lambda>p. (session_id p, host p)) (collect_panes g)"
    and "ratios_ok g' = ratios_ok g" by blast+
qed

definition bindings :: "TabEntry \<Rightarrow> (string option \<times> string option) list" where
  "bindings t = map (\<lambda>p. (session_id p, host p)) (tab_panes t)"

lemma clone_content_spec:
  assumes "clone_content uu k (content t) = (c, k')" and "content u = c"
  shows "k \<le> k'" and "map pane_id (tab_panes u) = map uu [k..<k']" and "bindings u = bindings t"
    and "tab_ratios_ok u = tab_ratios_ok t"
proof -
  have "k \<le> k' \<and> map pane_id (tab_panes u) = map uu [k..<k'] \<and> bindings u = bindings t \<and>
    tab_ratios_ok u = tab_ratios_ok t"
  proof (cases "grid_of t")
    case None
    with assms have "k' = k" "grid_of u = None" by (cases "content t"; auto simp: clone_content_def)+
    with None show ?thesis by (simp add: bindings_def)
  next
    case (Some g)
    then have "content t = TabGrid g" by (cases "content t") auto
    moreover obtain g' k2 where e: "clone_grid_fresh_pane_ids uu k g = (g', k2)" by fastforce
    ultimately have "k2 = k'" "content u = TabGrid g'" using assms by (simp_all add: clone_content_def)
    with clone_grid_spec [OF e] Some show ?thesis by (simp add: bindings_def)
  qed
  then show "k \<le> k'" and "map pane_id (tab_panes u) = map uu [k..<k']" and "bindings u = bindings t"
    and "tab_ratios_ok u = tab_ratios_ok t" by blast+
qed

lemma clone_tabs_names:
  assumes "inj uu"
  shows "(wf_tabs (clone_tabs_fresh_ids uu k tabs) \<longleftrightarrow> list_all tab_ratios_ok tabs) \<and>
    tab_id ` set (clone_tabs_fresh_ids uu k tabs) \<subseteq> uu ` {k..} \<and>
    pane_names (clone_tabs_fresh_ids uu k tabs) \<subseteq> uu ` {k..}"
proof (induction tabs arbitrary: k)
  case (Cons t ts)
  obtain c k' where c: "clone_content uu k (content t) = (c, k')" by fastforce
  let ?u = "\<lparr>tab_id = uu k', tab_name = tab_name t, content = c, created_at = created_at t,
       picked_layout = picked_layout t\<rparr>"
  let ?rest = "clone_tabs_fresh_ids uu (Suc k') ts"
  have cons: "clone_tabs_fresh_ids uu k (t # ts) = ?u # ?rest" by (simp add: c)
  note s = clone_content_spec [OF c, of ?u, simplified]
  have ids: "pane_id ` set (tab_panes ?u) = uu ` {k..<k'}" using s(2) by (metis image_set set_upt)
  have d: "distinct (map pane_id (tab_panes ?u))"
    unfolding s(2) using assms by (simp add: distinct_map inj_on_def)
  have disj: "uu ` {k..<k'} \<inter> uu ` {Suc k'..} = {}" "uu k' \<notin> uu ` {Suc k'..}"
    using assms by (auto dest: injD)
  have up: "uu ` {k..<k'} \<subseteq> uu ` {k..}" "uu ` {Suc k'..} \<subseteq> uu ` {k..}" "uu k' \<in> uu ` {k..}"
    using s(1) by auto
  from Cons.IH [of "Suc k'"] have IH: "wf_tabs ?rest \<longleftrightarrow> list_all tab_ratios_ok ts"
    "tab_id ` set ?rest \<subseteq> uu ` {Suc k'..}" "pane_names ?rest \<subseteq> uu ` {Suc k'..}" by blast+
  have new: "uu k' \<notin> tab_id ` set ?rest" by (rule contra_subsetD [OF IH(2) disj(2)])
  have apart: "pane_id ` set (tab_panes ?u) \<inter> pane_names ?rest = {}"
    unfolding ids using disj(1) IH(3) by blast
  have "wf_tabs (?u # ?rest) \<longleftrightarrow> tab_ratios_ok t \<and> wf_tabs ?rest"
    using d new apart s(4) by (simp add: wf_tabs_def pane_names_def) blast
  moreover have "pane_names (?u # ?rest) = uu ` {k..<k'} \<union> pane_names ?rest"
    using ids by (simp add: pane_names_def image_Un)
  moreover have "tab_id ` set (?u # ?rest) = insert (uu k') (tab_id ` set ?rest)" by simp
  ultimately show ?case
    unfolding cons using IH subset_trans [OF IH(2) up(2)] subset_trans [OF IH(3) up(2)] up(1,3)
    by (simp only: Un_subset_iff insert_subset) simp
qed (simp add: wf_tabs_def pane_names_def)

lemma clone_tabs_bindings: "map bindings (clone_tabs_fresh_ids uu k tabs) = map bindings tabs"
proof (induction tabs arbitrary: k)
  case (Cons t ts)
  obtain c k' where c: "clone_content uu k (content t) = (c, k')" by fastforce
  with Cons clone_content_spec(3) [OF c] show ?case by simp
qed simp

lemma all_sessions_wf:
  assumes "inj (uuid env)"
  shows "wf_tabs (build_all_sessions_layout env)"
proof -
  let ?n = "length (live_sessions env)"
  let ?ps = "map (\<lambda>i. \<lparr>pane_id = uuid env i, session_id = Some (live_sessions env ! i), host = None\<rparr>) [0..<?n]"
  have "distinct (map pane_id ?ps)" using assms by (auto simp: comp_def distinct_map inj_on_def dest: injD)
  then show ?thesis
    by (auto simp: build_all_sessions_layout_def Let_def wf_tabs_def grid.build_SomeD split: option.split)
qed

end
