(* ===== verification/Tab_System.thy ===== *)
theory Tab_System
  imports Tab_Mirror
begin

text \<open>
  The whole tab system: the daemon's hub with every client's copy of its own list. A step is a
  client's request or the daemon's own removal or replacement of a session; the reachable states
  are well formed and every copy equals the stored list.
\<close>

section \<open>Requests keep the client in step\<close>

lemma fresh_tab: "fresh_for env s \<Longrightarrow> uuid env i \<notin> tab_id ` set (client_layout s cid)"
  by (simp add: fresh_for_def)

lemma fresh_pane: "fresh_for env s \<Longrightarrow> uuid env i \<notin> pane_names (client_layout s cid)"
  by (simp add: fresh_for_def)

lemma hub_wfD: "hub_wf s \<Longrightarrow> wf_tabs (client_layout s cid)"
  by (simp add: hub_wf_def)

lemma on_tab_answer_in_step:
  assumes "\<And>t r u. f t = Ok (r, u) \<Longrightarrow> tab_id u = tab_id t"
  shows "in_step cid s (answer_failure req (try_mutate_client_layout env s cid (on_tab tid f))
           (\<lambda>tab. [EmitTab cid (EvUpdated tab)]))"
    and "in_step cid s (return_failure (try_mutate_client_layout env s cid (on_tab tid f))
           (\<lambda>tab. [EmitTab cid (EvUpdated tab)]))"
    and "disk_ok env \<Longrightarrow> in_step cid s (case mutate_client_layout env s cid (in_place (on_tab tid f)) of
           (r, s') \<Rightarrow> return_failure (flatten r, s') (\<lambda>tab. [EmitTab cid (EvUpdated tab)]))"
proof -
  have *: "upsert_tab L t' = L'" if "on_tab tid f L = Ok (t', L')" for L t' L'
    using on_tab_sync [OF that assms] .
  show "in_step cid s (answer_failure req (try_mutate_client_layout env s cid (on_tab tid f))
           (\<lambda>tab. [EmitTab cid (EvUpdated tab)]))"
    and "in_step cid s (return_failure (try_mutate_client_layout env s cid (on_tab tid f))
           (\<lambda>tab. [EmitTab cid (EvUpdated tab)]))"
    by (rule try_mutate_answer_in_step; simp add: *)+
  show "disk_ok env \<Longrightarrow> in_step cid s (case mutate_client_layout env s cid (in_place (on_tab tid f)) of
           (r, s') \<Rightarrow> return_failure (flatten r, s') (\<lambda>tab. [EmitTab cid (EvUpdated tab)]))"
    by (rule in_place_in_step) (simp_all add: *)
qed

lemma open_in_step:
  assumes "disk_ok env" and "fresh_for env s"
  shows "in_step cid s (opened cid rid DiffTabOpened (open_diff_tab env s cid key))"
    and "in_step cid s (opened cid rid ViewerTabOpened (open_viewer_tab env s cid path))"
    and "in_step cid s (opened cid rid DashboardTabOpened (open_dashboard_tab env s cid))"
proof -
  have *: "in_step cid s (opened cid rid answer (mutate_client_layout env s cid (focus_or_push env P nm c)))"
    if "\<And>i j. no_lists [Reply (answer i j)]" for P nm c answer
    by (rule opened_in_step [OF assms(1) _ that])
       (use focus_or_push_sync [OF _ fresh_tab [OF assms(2)]] in blast)
  show "in_step cid s (opened cid rid DashboardTabOpened (open_dashboard_tab env s cid))"
    unfolding open_dashboard_tab_def by (rule *) simp
  show "in_step cid s (opened cid rid ViewerTabOpened (open_viewer_tab env s cid path))"
    using * [of ViewerTabOpened] by (simp add: open_viewer_tab_def opened_def)
  have p: "in_step cid s (Err Panicked, [], put_tabs s cid (client_layout s cid))"
    by (rule in_step_put) simp_all
  show "in_step cid s (opened cid rid DiffTabOpened (open_diff_tab env s cid key))"
    using * [of DiffTabOpened] p
    by (auto simp: open_diff_tab_def opened_def split: option.split)
qed

lemma create_in_step:
  assumes "disk_ok env" and "fresh_for env s"
  shows "in_step cid s (handle_create_tab env s cid nm sid h req)"
  unfolding handle_create_tab_def
  by (rule mutate_answer_in_step [OF assms(1)])
     (auto simp: Let_def make_tab_def upsert_new fresh_tab [OF assms(2)])

lemma close_tab_in_step: "disk_ok env \<Longrightarrow> in_step cid s (handle_close_tab env s cid tid)"
  unfolding handle_close_tab_def
proof (rule mutate_answer_in_step)
  fix x tabs
  let ?L = "client_layout s cid"
  assume "(let tabs' = filter (\<lambda>t. tab_id t \<noteq> tid) ?L in (length ?L \<noteq> length tabs', tabs')) = (x, tabs)"
  then have *: "tabs = filter (\<lambda>t. tab_id t \<noteq> tid) ?L" "x \<longleftrightarrow> length ?L \<noteq> length tabs"
    by (auto simp: Let_def)
  have "\<not> x \<Longrightarrow> tabs = ?L"
    using * by (metis filter_cong length_filter_less nat_neq_iff filter_True)
  then show "no_lists (if x then [EmitTab cid (EvRemoved tid)] else []) \<and>
    foldl apply_tabs ?L (events_for cid (if x then [EmitTab cid (EvRemoved tid)] else [])) = tabs \<and>
    (\<forall>c. c \<noteq> cid \<longrightarrow> events_for c (if x then [EmitTab cid (EvRemoved tid)] else []) = [])"
    using *(1) by (simp add: remove_tab_def)
qed simp

lemma restore_in_step:
  assumes "hub_wf s"
  shows "in_step cid s (handle_restore_tab env s cid tab i)"
    and "in_step cid s (handle_restore_snapshot env s cid tab)"
proof -
  note wf = hub_wfD [OF assms, of cid]
  show "in_step cid s (handle_restore_tab env s cid tab i)"
    unfolding handle_restore_tab_def
    using restore_tab_sync [OF wf]
    by (auto simp: and_then_eq_Inr intro!: try_mutate_answer_in_step(2) split: if_splits option.splits)
  show "in_step cid s (handle_restore_snapshot env s cid tab)"
    unfolding handle_restore_snapshot_def
    using restore_snapshot_sync
    by (auto simp: and_then_eq_Inr intro!: try_mutate_answer_in_step(2) split: if_splits option.splits)
qed

lemma tabs_in_step:
  assumes "hub_wf s" and "fresh_for env s"
  shows "distinct ids \<Longrightarrow> in_step cid s (handle_reorder_tabs env s cid ids req)"
    and "in_step cid s (handle_close_pane env s cid tid pid req)"
    and "in_step cid s (handle_move_pane env s cid mv req)"
    and "in_step cid s (handle_swap_panes env s cid sw req)"
    and "distinct ids \<Longrightarrow> in_step cid s (handle_merge_tabs env s cid ids nm ml req)"
    and "in_step cid s (handle_extract env s cid tid pids nm lay req)"
proof -
  note wf = hub_wfD [OF assms(1), of cid] and fr = fresh_tab [OF assms(2), of 0 cid]
  show "in_step cid s (handle_reorder_tabs env s cid ids req)" if "distinct ids"
    unfolding handle_reorder_tabs_def
    by (rule try_mutate_answer_in_step(1)) (use reorder_tabs_sync [OF wf that] in auto)
  show "in_step cid s (handle_close_pane env s cid tid pid req)"
    unfolding handle_close_pane_def
    by (rule try_mutate_answer_in_step(1))
       (auto dest!: close_pane_in_tabs_sync split: ClosedTab.splits)
  show "in_step cid s (handle_move_pane env s cid mv req)"
    unfolding handle_move_pane_def
    by (auto simp: move_pane_def comp_def intro!: try_mutate_answer_in_step(1)
      dest: move_within_sync move_across_sync split: if_splits)
  show "in_step cid s (handle_swap_panes env s cid sw req)"
    unfolding handle_swap_panes_def
    by (auto simp: comp_def intro!: try_mutate_answer_in_step(1) dest: swap_panes_sync)
  show "in_step cid s (handle_merge_tabs env s cid ids nm ml req)" if "distinct ids"
    unfolding handle_merge_tabs_def
    by (rule try_mutate_answer_in_step(1)) (use merge_tabs_sync [OF _ fr wf that] in auto)
  show "in_step cid s (handle_extract env s cid tid pids nm lay req)"
    unfolding handle_extract_def
    by (rule try_mutate_answer_in_step(1))
       (auto dest!: extract_to_new_tab_sync [OF wf _ fr] split: option.splits)
qed

lemma in_step_answer_after:
  "in_step cid s r \<Longrightarrow> in_step cid s (answer_after req r)"
  by (auto simp: in_step_def answer_after_def send_tab_failure_def split: prod.splits sum.splits)

lemma rehost_in_step:
  assumes "hub_wf s"
  shows "in_step cid s (rehost_panes_of env s cid from to sids)"
proof -
  let ?L = "client_layout s cid"
  obtain ch tabs where *: "rehost_panes ?L from to sids = (ch, tabs)" by fastforce
  then have "foldl upsert_tab ?L ch = tabs"
    using rehost.edit_grids_sync [OF hub_wfD [OF assms, of cid], of "from" to sids]
    by (simp add: rehost_panes_def)
  with * show ?thesis
    by (auto simp: rehost_panes_of_def mutate_client_layout_def mutate_def foldl_apply_updated comp_def
      intro!: in_step_put)
qed

lemma close_outputs_events:
  "no_lists (close_outputs cid res)"
  "events_for cid (close_outputs cid res) =
     map EvUpdated (updated res) @ map EvRemoved (removed_tab_ids res)"
  "c \<noteq> cid \<Longrightarrow> events_for c (close_outputs cid res) = []"
  by (simp_all add: close_outputs_def)

lemma forget_in_step:
  assumes "hub_wf s"
  shows "in_step cid s (forget_host_panes_of env s cid target sids all)"
proof -
  let ?L = "client_layout s cid"
  obtain res tabs where *: "forget_host_panes (ln64 env) ?L target sids all = (res, tabs)" by fastforce
  from host_panes.close_panes_where_sync [OF hub_wfD [OF assms] * [unfolded forget_host_panes_def]] *
  show ?thesis
    by (auto simp: forget_host_panes_of_def mutate_client_layout_def mutate_def close_outputs_events
      intro!: in_step_put)
qed

lemma rebind_outputs_events:
  "no_lists (rebind_outputs cid ch)"
  "events_for cid (rebind_outputs cid ch) = map EvUpdated ch"
  "c \<noteq> cid \<Longrightarrow> events_for c (rebind_outputs cid ch) = []"
  by (simp_all add: rebind_outputs_def)

lemma visit_client:
  assumes "foldl apply_tabs (client_layout s cid) (events_for cid sent) = tabs"
    and "\<And>c. c \<noteq> cid \<Longrightarrow> events_for c sent = []"
    and "\<forall>c. foldl apply_tabs (client_layout (put_tabs s cid tabs) c) (events_for c outs) = client_layout s' c"
  shows "\<forall>c. foldl apply_tabs (client_layout s c) (events_for c (sent @ outs)) = client_layout s' c"
proof
  fix c
  show "foldl apply_tabs (client_layout s c) (events_for c (sent @ outs)) = client_layout s' c"
    using assms(1,2) spec [OF assms(3), of c] by (cases "c = cid") simp_all
qed

lemma layouts_put_other: "c \<noteq> cid \<Longrightarrow> layouts (put_tabs s cid tabs) c = layouts s c"
  by (simp add: put_tabs_def)

text \<open>Each visited client hears exactly of its own list, in the order the lists are visited.\<close>

lemma rebind_in_layouts_spec:
  assumes "hub_wf s" and "distinct order" and "rebind_in_layouts target rebinds order s = (outs, s')"
  shows "no_lists outs \<and> hub_wf s' \<and>
    (\<forall>c. foldl apply_tabs (client_layout s c) (events_for c outs) = client_layout s' c) \<and>
    (\<forall>c. c \<notin> set order \<longrightarrow> events_for c outs = [] \<and> layouts s' c = layouts s c)"
  using assms
proof (induction order arbitrary: s outs)
  case (Cons cid order)
  show ?case
  proof (cases "layouts s cid")
    case None
    with Cons show ?thesis by simp
  next
    case (Some l)
    then have l: "layout_tabs l = client_layout s cid" by (simp add: client_layout_def)
    obtain ch tabs where ch: "rebind_in_layout target rebinds [] (client_layout s cid) = (ch, tabs)" by fastforce
    let ?s1 = "put_tabs s cid tabs"
    obtain outs1 where o: "rebind_in_layouts target rebinds order ?s1 = (outs1, s')"
      "outs = rebind_outputs cid ch @ outs1"
      using Cons.prems(3) Some l ch by (auto split: prod.splits)
    note r = rebind_in_layout_sync [OF hub_wfD [OF Cons.prems(1)] ch]
    have wf1: "hub_wf ?s1" using Cons.prems(1) r(2) by (simp add: hub_wf_def)
    note IH = Cons.IH [OF wf1 _ o(1)]
    have "\<forall>c. foldl apply_tabs (client_layout s c) (events_for c outs) = client_layout s' c"
      unfolding o(2) using r(1) IH Cons.prems(2)
      by (intro visit_client [where cid = cid and tabs = tabs]) (simp_all add: rebind_outputs_events)
    moreover have "\<forall>c. c \<notin> set (cid # order) \<longrightarrow> events_for c outs = [] \<and> layouts s' c = layouts s c"
      using IH Cons.prems(2) by (simp add: o(2) rebind_outputs_events layouts_put_other)
    moreover have "no_lists outs" using IH Cons.prems(2) by (simp add: o(2) rebind_outputs_events)
    ultimately show ?thesis using IH Cons.prems(2) by simp
  qed
qed simp

lemma close_in_layouts_spec:
  assumes "hub_wf s" and "distinct order" and "close_in_layouts close order s = (outs, s')"
    and sync: "\<And>L res L'. wf_tabs L \<Longrightarrow> close L = (res, L') \<Longrightarrow> wf_tabs L' \<and>
      foldl apply_tabs L (map EvUpdated (updated res) @ map EvRemoved (removed_tab_ids res)) = L'"
  shows "no_lists outs \<and> hub_wf s' \<and>
    (\<forall>c. foldl apply_tabs (client_layout s c) (events_for c outs) = client_layout s' c) \<and>
    (\<forall>c. c \<notin> set order \<longrightarrow> events_for c outs = [] \<and> layouts s' c = layouts s c)"
  using assms(1,2,3)
proof (induction order arbitrary: s outs)
  case (Cons cid order)
  show ?case
  proof (cases "layouts s cid")
    case None
    with Cons show ?thesis by simp
  next
    case (Some l)
    then have l: "layout_tabs l = client_layout s cid" by (simp add: client_layout_def)
    obtain res tabs where ch: "close (client_layout s cid) = (res, tabs)" by fastforce
    let ?s1 = "put_tabs s cid tabs"
    obtain outs1 where o: "close_in_layouts close order ?s1 = (outs1, s')"
      "outs = close_outputs cid res @ outs1"
      using Cons.prems(3) Some l ch by (auto split: prod.splits)
    note r = sync [OF hub_wfD [OF Cons.prems(1)] ch]
    have wf1: "hub_wf ?s1" using Cons.prems(1) r by (simp add: hub_wf_def)
    note IH = Cons.IH [OF wf1 _ o(1)]
    have "\<forall>c. foldl apply_tabs (client_layout s c) (events_for c outs) = client_layout s' c"
      unfolding o(2) using conjunct2 [OF r] IH Cons.prems(2)
      by (intro visit_client [where cid = cid and tabs = tabs]) (simp_all add: close_outputs_events)
    moreover have "\<forall>c. c \<notin> set (cid # order) \<longrightarrow> events_for c outs = [] \<and> layouts s' c = layouts s c"
      using IH Cons.prems(2) by (simp add: o(2) close_outputs_events layouts_put_other)
    moreover have "no_lists outs" using IH Cons.prems(2) by (simp add: o(2) close_outputs_events)
    ultimately show ?thesis using IH Cons.prems(2) by simp
  qed
qed simp

lemma rebind_in_step:
  assumes "hub_wf s"
  shows "in_step cid s (rebind_panes env s [] (OneClient cid) target rebinds)"
proof -
  obtain outs s' where *: "rebind_in_layouts target rebinds [cid] s = (outs, s')" by fastforce
  have "no_lists outs \<and> hub_wf s' \<and>
    (\<forall>c. foldl apply_tabs (client_layout s c) (events_for c outs) = client_layout s' c) \<and>
    (\<forall>c. c \<notin> {cid} \<longrightarrow> events_for c outs = [] \<and> layouts s' c = layouts s c)"
    using rebind_in_layouts_spec [OF assms _ *] by simp
  then show ?thesis
    using * by (auto simp: rebind_panes_def Let_def in_step_def client_layout_def split: option.splits)
qed

lemma handle_in_step:
  assumes "hub_wf s" and "fresh_for env s" and "request_ok s cid msg" and "disk_ok env"
    and "msg \<noteq> ListTabs" and "\<And>kind. msg \<noteq> InitLayout kind"
  shows "in_step cid s (handle env s cid nm msg)"
proof -
  show ?thesis
  proof (cases msg)
    case (RenameTab tid n)
    then show ?thesis
      using on_tab_answer_in_step(3) [where f = "\<lambda>tab. Ok ((), tab\<lparr>tab_name := n\<rparr>)", OF _ assms(4)]
      by (auto simp: handle_def handle_rename_tab_def)
  next
    case (SetPaneRatio tid path ratio)
    then show ?thesis
      using on_tab_answer_in_step(3) [where f = "\<lambda>tab. set_tab_pane_ratio tab path ratio", OF tab_ops_keep_id(2) assms(4)]
      by (simp add: handle_def handle_set_pane_ratio_def)
  next
    case (ReplacePaneSession tid pid sid h)
    then show ?thesis
      using on_tab_answer_in_step(3) [where f = "\<lambda>tab. grid_or_err_mut tab (\<lambda>grid.
        and_then (replace_pane_session grid pid sid h) (\<lambda>grid'. Ok ((), grid')))",
        OF grid_or_err_mut_id assms(4)]
      by (simp add: handle_def handle_replace_pane_session_def)
  next
    case (RearrangeTab tid l)
    then show ?thesis
      using on_tab_answer_in_step(2) [where f = "\<lambda>tab. pick_layout (ln64 env) tab l", OF tab_ops_keep_id(3)]
      by (simp add: handle_def handle_rearrange_tab_def)
  next
    case (SplitPane tid pid d pl sid h req)
    then show ?thesis
      using on_tab_answer_in_step(1) [where f = "\<lambda>tab. split_tab_pane (ln64 env) tab pid d pl
        (new_pane (uuid env 0) sid h)", OF tab_ops_keep_id(1)]
      by (simp add: handle_def handle_split_pane_def)
  qed (use assms in \<open>simp_all add: handle_def request_ok_def open_in_step create_in_step
      close_tab_in_step restore_in_step tabs_in_step in_step_answer_after rehost_in_step
      forget_in_step rebind_in_step\<close>)
qed

section \<open>Requests keep the hub well formed\<close>

lemma hub_wf_put: "hub_wf s \<Longrightarrow> wf_tabs tabs \<Longrightarrow> hub_wf (put_tabs s cid tabs)"
  by (simp add: hub_wf_def)

abbreviation hub_after :: "handled \<Rightarrow> Hub" where
  "hub_after h \<equiv> snd (snd h)"

lemma try_mutate_wf:
  assumes "hub_wf s" and "\<And>x tabs. f (client_layout s cid) = Ok (x, tabs) \<Longrightarrow> wf_tabs tabs"
  shows "hub_wf (hub_after (answer_failure req (try_mutate_client_layout env s cid f) outs))"
    and "hub_wf (hub_after (return_failure (try_mutate_client_layout env s cid f) outs))"
  using assms
  by (auto simp: answer_failure_def return_failure_def try_mutate_client_layout_def try_mutate_def
    and_then_def hub_wf_put split: sum.split prod.split)

lemma mutate_wf:
  assumes "hub_wf s" and "\<And>x tabs. f (client_layout s cid) = (x, tabs) \<Longrightarrow> wf_tabs tabs"
  shows "hub_wf (hub_after (answer_failure req (mutate_client_layout env s cid f) outs))"
    and "hub_wf (hub_after (return_failure (mutate_client_layout env s cid f) outs))"
  using assms
  by (auto simp: answer_failure_def return_failure_def mutate_client_layout_def mutate_def
    hub_wf_put split: prod.split)

lemma in_place_wf:
  assumes "hub_wf s" and "\<And>x tabs. f (client_layout s cid) = Ok (x, tabs) \<Longrightarrow> wf_tabs tabs"
  shows "hub_wf (hub_after (case mutate_client_layout env s cid (in_place f) of
    (r, s') \<Rightarrow> return_failure (flatten r, s') outs))"
  using assms hub_wfD [OF assms(1), of cid]
  by (auto simp: mutate_client_layout_def mutate_def in_place_def flatten_def return_failure_def
    hub_wf_put split: sum.split prod.split)

lemma open_wf:
  assumes "hub_wf s" and "fresh_for env s"
  shows "hub_wf (hub_after (opened cid rid DiffTabOpened (open_diff_tab env s cid key)))"
    and "hub_wf (hub_after (opened cid rid ViewerTabOpened (open_viewer_tab env s cid path)))"
    and "hub_wf (hub_after (opened cid rid DashboardTabOpened (open_dashboard_tab env s cid)))"
proof -
  have op: "hub_after (opened cid rid answer (r, s')) = s'" for answer r s'
    by (auto simp: opened_def split: sum.split server_error.split)
  have *: "hub_wf (snd (mutate_client_layout env s cid (focus_or_push env P nm c)))"
    if "tab_grid c = None" for P nm c
    using focus_or_push_wf [OF hub_wfD [OF assms(1), of cid] fresh_tab [OF assms(2), of 0 cid] that, of P nm]
    by (simp add: mutate_client_layout_def mutate_def hub_wf_put [OF assms(1)] case_prod_beta)
  have eq: "hub_after (opened cid rid answer x) = snd x" for answer x by (cases x) (simp add: op)
  show "hub_wf (hub_after (opened cid rid DashboardTabOpened (open_dashboard_tab env s cid)))"
    unfolding eq open_dashboard_tab_def by (rule *) simp
  show "hub_wf (hub_after (opened cid rid ViewerTabOpened (open_viewer_tab env s cid path)))"
    unfolding eq open_viewer_tab_def using * assms(1) by simp
  show "hub_wf (hub_after (opened cid rid DiffTabOpened (open_diff_tab env s cid key)))"
    unfolding eq open_diff_tab_def
    using * [of "diff_content key"] assms(1) hub_wf_put [OF assms(1) hub_wfD [OF assms(1), of cid], of cid]
    by (auto simp: diff_content_def split: option.split)
qed

lemma create_wf:
  assumes "hub_wf s" and "fresh_for env s"
  shows "hub_wf (hub_after (handle_create_tab env s cid nm sid h req))"
  unfolding handle_create_tab_def
proof (rule mutate_wf(1) [OF assms(1)])
  fix x tabs
  let ?L = "client_layout s cid"
  assume "(let tab = make_tab (uuid env 0) (uuid env 1) (now env) nm sid h ?L in (tab, ?L @ [tab])) = (x, tabs)"
  then have "tabs = ?L @ [make_tab (uuid env 0) (uuid env 1) (now env) nm sid h ?L]" by (auto simp: Let_def)
  then show "wf_tabs tabs"
    using hub_wfD [OF assms(1), of cid] fresh_tab [OF assms(2), of 0 cid] fresh_pane [OF assms(2), of 1 cid]
    by (auto simp: make_tab_def pane_names_def intro!: wf_tabs_push)
qed

lemma on_tab_requests_wf:
  assumes "hub_wf s" and "\<And>t r u. t \<in> set (client_layout s cid) \<Longrightarrow> f t = Ok (r, u) \<Longrightarrow> keeps_tab N t u"
    and "N \<inter> pane_names (client_layout s cid) = {}"
  shows "hub_wf (hub_after (answer_failure req (try_mutate_client_layout env s cid (on_tab tid f)) outs))"
    and "hub_wf (hub_after (return_failure (try_mutate_client_layout env s cid (on_tab tid f)) outs))"
    and "hub_wf (hub_after (case mutate_client_layout env s cid (in_place (on_tab tid f)) of
      (r, s') \<Rightarrow> return_failure (flatten r, s') outs))"
proof -
  note * = on_tab_wf [OF hub_wfD [OF assms(1)] _ assms(2,3)]
  show "hub_wf (hub_after (answer_failure req (try_mutate_client_layout env s cid (on_tab tid f)) outs))"
    and "hub_wf (hub_after (return_failure (try_mutate_client_layout env s cid (on_tab tid f)) outs))"
    by (rule try_mutate_wf [OF assms(1)]; erule *; assumption)+
  show "hub_wf (hub_after (case mutate_client_layout env s cid (in_place (on_tab tid f)) of
      (r, s') \<Rightarrow> return_failure (flatten r, s') outs))"
    by (rule in_place_wf [OF assms(1)]) (erule *; assumption)
qed

lemma restore_wf:
  assumes "hub_wf s"
  shows "request_ok s cid (RestoreTab tab i) \<Longrightarrow> hub_wf (hub_after (handle_restore_tab env s cid tab i))"
    and "request_ok s cid (RestoreTabSnapshot tab) \<Longrightarrow>
      hub_wf (hub_after (handle_restore_snapshot env s cid tab))"
proof -
  note wf = hub_wfD [OF assms, of cid]
  show "hub_wf (hub_after (handle_restore_tab env s cid tab i))" if "request_ok s cid (RestoreTab tab i)"
    unfolding handle_restore_tab_def
    using that restore_tab_wf [OF wf] wf assms
    by (auto simp: request_ok_def tab_fits_def pane_names_def and_then_eq_Inr
      intro!: try_mutate_wf(2) split: if_splits)
  show "hub_wf (hub_after (handle_restore_snapshot env s cid tab))"
    if "request_ok s cid (RestoreTabSnapshot tab)"
    unfolding handle_restore_snapshot_def
    using that restore_snapshot_wf [OF wf] wf assms
    by (auto simp: request_ok_def and_then_eq_Inr intro!: try_mutate_wf(2) split: if_splits)
qed

lemma tabs_wf:
  assumes "hub_wf s" and "fresh_for env s"
  shows "distinct ids \<Longrightarrow> hub_wf (hub_after (handle_reorder_tabs env s cid ids req))"
    and "hub_wf (hub_after (handle_close_tab env s cid tid))"
    and "hub_wf (hub_after (handle_close_pane env s cid tid pid req))"
    and "hub_wf (hub_after (handle_move_pane env s cid mv req))"
    and "hub_wf (hub_after (handle_swap_panes env s cid sw req))"
    and "distinct ids \<Longrightarrow> hub_wf (hub_after (handle_merge_tabs env s cid ids nm ml req))"
    and "hub_wf (hub_after (handle_extract env s cid tid pids nm lay req))"
proof -
  note wf = hub_wfD [OF assms(1), of cid] and fr = fresh_tab [OF assms(2), of 0 cid]
  show "hub_wf (hub_after (handle_reorder_tabs env s cid ids req))" if "distinct ids"
    unfolding handle_reorder_tabs_def
    by (rule try_mutate_wf(1) [OF assms(1)])
       (use reorder_tabs_spec(2) [OF wf that] wf_tabs_permute wf in \<open>metis old.unit.exhaust\<close>)
  show "hub_wf (hub_after (handle_close_tab env s cid tid))"
    unfolding handle_close_tab_def
    by (rule mutate_wf(2) [OF assms(1)]) (use wf_tabs_filter [OF wf] in \<open>auto simp: Let_def\<close>)
  show "hub_wf (hub_after (handle_close_pane env s cid tid pid req))"
    unfolding handle_close_pane_def
    by (rule try_mutate_wf(1) [OF assms(1)]) (rule close_pane_in_tabs_wf [OF wf])
  show "hub_wf (hub_after (handle_move_pane env s cid mv req))"
    unfolding handle_move_pane_def using assms(1)
    by (auto intro!: try_mutate_wf(1) move_pane_wf [OF wf])
  show "hub_wf (hub_after (handle_swap_panes env s cid sw req))"
    unfolding handle_swap_panes_def using assms(1)
    by (auto intro!: try_mutate_wf(1) swap_panes_wf [OF wf])
  show "hub_wf (hub_after (handle_merge_tabs env s cid ids nm ml req))" if "distinct ids"
    unfolding handle_merge_tabs_def
    by (rule try_mutate_wf(1) [OF assms(1)]) (rule merge_tabs_spec(3) [OF wf that _ fr])
  show "hub_wf (hub_after (handle_extract env s cid tid pids nm lay req))"
    unfolding handle_extract_def
    by (rule try_mutate_wf(1) [OF assms(1)]) (rule extract_to_new_tab_spec(2) [OF wf _ fr])
qed

lemma bulk_wf:
  assumes "hub_wf s"
  shows "hub_wf (hub_after (answer_after req (rehost_panes_of env s cid from to sids)))"
    and "hub_wf (hub_after (answer_after req (forget_host_panes_of env s cid target sids all)))"
    and "hub_wf (hub_after (answer_after req (rebind_panes env s [] (OneClient cid) tgt rebinds)))"
proof -
  note wf = hub_wfD [OF assms, of cid]
  have aa: "hub_after (answer_after req x) = hub_after x" for x
    by (auto simp: answer_after_def split: prod.split sum.split)
  show "hub_wf (hub_after (answer_after req (rehost_panes_of env s cid from to sids)))"
    unfolding aa using wf rehost.edit_grids_wf
    by (auto simp: rehost_panes_of_def rehost_panes_def mutate_client_layout_def mutate_def
      case_prod_beta intro!: hub_wf_put [OF assms])
  obtain res tabs where f: "forget_host_panes (ln64 env) (client_layout s cid) target sids all = (res, tabs)"
    by fastforce
  have "wf_tabs tabs"
    using host_panes.close_panes_where_spec(5) [OF wf f [unfolded forget_host_panes_def]] .
  then show "hub_wf (hub_after (answer_after req (forget_host_panes_of env s cid target sids all)))"
    unfolding aa using f assms
    by (auto simp: forget_host_panes_of_def mutate_client_layout_def mutate_def intro!: hub_wf_put)
  obtain outs s' where r: "rebind_in_layouts tgt rebinds [cid] s = (outs, s')" by fastforce
  then have "hub_wf s'" using rebind_in_layouts_spec [OF assms _ r] by simp
  then show "hub_wf (hub_after (answer_after req (rebind_panes env s [] (OneClient cid) tgt rebinds)))"
    unfolding aa using r assms by (auto simp: rebind_panes_def Let_def split: option.split)
qed

lemma init_tabs_wf:
  assumes "hub_wf s" and "fresh_for env s"
  shows "wf_tabs (init_tabs env s kind)"
proof -
  have inj: "inj (uuid env)" using assms(2) by (simp add: fresh_for_def)
  have "wf_tabs (clone_tabs_fresh_ids (uuid env) 0 (client_layout s c))" for c
    using clone_tabs_names [OF inj, of 0 "client_layout s c"] hub_wfD [OF assms(1), of c]
    by (simp add: wf_tabs_def)
  with assms(1) all_sessions_wf [OF inj] show ?thesis
    by (cases kind) (simp_all add: init_tabs_def hub_wf_def wf_tabs_def)
qed

lemma init_layout_spec:
  assumes "handle_init_layout env s cid nm kind = (r, outs, s')"
  shows "client_layout s' cid = init_tabs env s kind"
    and "c \<noteq> cid \<Longrightarrow> client_layout s' c = client_layout s c"
    and "legacy_tabs s' = legacy_tabs s \<or> legacy_tabs s' = []"
    and "disk_ok env \<Longrightarrow> outs = [Reply (TabsMsg (client_layout s' cid))]"
  using assms
  by (auto simp: handle_init_layout_def set_client_layout_def clear_legacy_tabs_def mutate_def
    client_layout_def split: if_splits)

lemma handle_wf:
  assumes "hub_wf s" and "fresh_for env s" and "request_ok s cid msg"
  shows "hub_wf (hub_after (handle env s cid nm msg))"
proof (cases msg)
  case (RenameTab tid n)
  have "hub_wf (hub_after (handle_rename_tab env s cid tid n))"
    unfolding handle_rename_tab_def
    by (rule on_tab_requests_wf(3) [OF assms(1), where N = "{}"]) (auto simp: rename_keeps)
  with RenameTab show ?thesis by (simp add: handle_def)
next
  case (SetPaneRatio tid path ratio)
  have "hub_wf (hub_after (handle_set_pane_ratio env s cid tid path ratio))"
    unfolding handle_set_pane_ratio_def
    by (rule on_tab_requests_wf(3) [OF assms(1), where N = "{}"]) (auto dest: ratio_keeps)
  with SetPaneRatio show ?thesis by (simp add: handle_def)
next
  case (ReplacePaneSession tid pid sid h)
  have "hub_wf (hub_after (handle_replace_pane_session env s cid tid pid sid h))"
    unfolding handle_replace_pane_session_def
    by (rule on_tab_requests_wf(3) [OF assms(1), where N = "{}"]) (auto dest: replace_keeps)
  with ReplacePaneSession show ?thesis by (simp add: handle_def)
next
  case (RearrangeTab tid l)
  have "hub_wf (hub_after (handle_rearrange_tab env s cid tid l))"
    unfolding handle_rearrange_tab_def
    by (rule on_tab_requests_wf(2) [OF assms(1), where N = "{}"]) (auto dest: pick_keeps)
  with RearrangeTab show ?thesis by (simp add: handle_def)
next
  case (SplitPane tid pid d pl sid h req)
  have "keeps_tab {uuid env 0} t u"
    if "t \<in> set (client_layout s cid)"
      "split_tab_pane (ln64 env) t pid d pl (new_pane (uuid env 0) sid h) = Ok (r, u)" for t r u
    using that split_keeps fresh_pane [OF assms(2), of 0 cid] by (force simp: pane_names_def all_panes_def)
  then have "hub_wf (hub_after (handle_split_pane env s cid tid pid d pl sid h req))"
    unfolding handle_split_pane_def
    by (intro on_tab_requests_wf(1) [OF assms(1), where N = "{uuid env 0}"])
       (use fresh_pane [OF assms(2), of 0 cid] in auto)
  with SplitPane show ?thesis by (simp add: handle_def)
next
  case (InitLayout kind)
  obtain r outs s' where h: "handle_init_layout env s cid nm kind = (r, outs, s')" by (metis prod_cases3)
  have "wf_tabs (client_layout s' c)" for c
    using init_layout_spec(1,2) [OF h] init_tabs_wf [OF assms(1,2)] hub_wfD [OF assms(1)]
    by (cases "c = cid") auto
  moreover have "wf_tabs (legacy_tabs s')"
    using init_layout_spec(3) [OF h] assms(1) by (auto simp: hub_wf_def wf_tabs_def)
  ultimately show ?thesis using InitLayout h by (simp add: handle_def hub_wf_def)
qed (use assms in \<open>simp_all add: handle_def open_wf create_wf restore_wf tabs_wf bulk_wf request_ok_def\<close>)

section \<open>The machine\<close>

text \<open>What reaches client \<open>c\<close> of a request by \<open>cid\<close>: the broadcasts, and the replies to itself.\<close>

definition delivered :: "string \<Rightarrow> string \<Rightarrow> Sent list \<Rightarrow> Sent list" where
  "delivered cid c outs =
     (if c = cid then outs else filter (\<lambda>out. case out of EmitTab _ _ \<Rightarrow> True | Reply _ \<Rightarrow> False) outs)"

record System =
  hub :: Hub
  copies :: "string \<Rightarrow> TabsModel"

definition covers :: "string list \<Rightarrow> Hub \<Rightarrow> bool" where
  "covers order s \<longleftrightarrow> distinct order \<and> (\<forall>c. layouts s c \<noteq> None \<longrightarrow> c \<in> set order)"

inductive system_step :: "System \<Rightarrow> System \<Rightarrow> bool" where
  request:
    "\<lbrakk>disk_ok env; fresh_for env (hub \<sigma>); request_ok (hub \<sigma>) cid msg;
      handle env (hub \<sigma>) cid nm msg = (r, outs, s')\<rbrakk>
     \<Longrightarrow> system_step \<sigma> \<lparr>hub = s', copies = (\<lambda>c. fold_sent c (copies \<sigma> c) (delivered cid c outs))\<rparr>"
| session_removed:
    "\<lbrakk>disk_ok env; covers order (hub \<sigma>);
      close_session_panes_all env (hub \<sigma>) order sid = (outs, s')\<rbrakk>
     \<Longrightarrow> system_step \<sigma> \<lparr>hub = s', copies = (\<lambda>c. fold_sent c (copies \<sigma> c) outs)\<rparr>"
| session_replaced:
    "\<lbrakk>covers order (hub \<sigma>); rebind_session_panes env (hub \<sigma>) order old new = (outs, s')\<rbrakk>
     \<Longrightarrow> system_step \<sigma> \<lparr>hub = s', copies = (\<lambda>c. fold_sent c (copies \<sigma> c) outs)\<rparr>"

inductive_cases system_stepE: "system_step \<sigma> \<sigma>'"

text \<open>Every copy is the stored list, and no client waits for an answer to a reorder.\<close>

definition agreed :: "System \<Rightarrow> bool" where
  "agreed \<sigma> \<longleftrightarrow> hub_wf (hub \<sigma>) \<and>
     (\<forall>c. m_tabs (copies \<sigma> c) = client_layout (hub \<sigma>) c \<and> pending_reorders (copies \<sigma> c) = [])"

lemma no_lists_delivered: "c \<noteq> cid \<Longrightarrow> no_lists (delivered cid c outs)"
  by (induction outs) (auto simp: delivered_def no_lists_def split: Sent.splits)

lemma events_for_delivered [simp]: "events_for c (delivered cid c outs) = events_for c outs"
proof -
  have "events_for c (filter (\<lambda>out. case out of EmitTab _ _ \<Rightarrow> True | Reply _ \<Rightarrow> False) outs) =
      events_for c outs"
    by (induction c outs rule: events_for.induct) auto
  then show ?thesis by (simp add: delivered_def)
qed

lemma agreed_copy:
  assumes "pending_reorders m = []" and "no_lists outs"
    and "foldl apply_tabs (m_tabs m) (events_for c outs) = tabs"
  shows "m_tabs (fold_sent c m outs) = tabs \<and> pending_reorders (fold_sent c m outs) = []"
  using assms by (simp add: fold_sent_idle)

lemma request_agrees:
  assumes "agreed \<sigma>" and "disk_ok env" and "fresh_for env (hub \<sigma>)" and "request_ok (hub \<sigma>) cid msg"
    and h: "handle env (hub \<sigma>) cid nm msg = (r, outs, s')"
  shows "agreed \<lparr>hub = s', copies = (\<lambda>c. fold_sent c (copies \<sigma> c) (delivered cid c outs))\<rparr>"
proof -
  have wf: "hub_wf (hub \<sigma>)" and cp: "\<And>c. m_tabs (copies \<sigma> c) = client_layout (hub \<sigma>) c"
    "\<And>c. pending_reorders (copies \<sigma> c) = []" using assms(1) by (auto simp: agreed_def)
  have wf': "hub_wf s'" using handle_wf [OF wf assms(3,4), of nm] h by simp
  have "m_tabs (fold_sent c (copies \<sigma> c) (delivered cid c outs)) = client_layout s' c \<and>
      pending_reorders (fold_sent c (copies \<sigma> c) (delivered cid c outs)) = []" for c
  proof (cases "msg = ListTabs \<or> (\<exists>kind. msg = InitLayout kind)")
    case True
    then have outs: "outs = [Reply (TabsMsg (client_layout s' cid))]"
      "c \<noteq> cid \<longrightarrow> client_layout s' c = client_layout (hub \<sigma>) c"
      using h init_layout_spec(2,4) assms(2) by (auto simp: handle_def)
    show ?thesis
    proof (cases "c = cid")
      case True
      then show ?thesis by (simp add: outs(1) delivered_def fold_sent_def)
    next
      case False
      then show ?thesis using outs cp by (simp add: delivered_def fold_sent_def)
    qed
  next
    case False
    then have st: "in_step cid (hub \<sigma>) (r, outs, s')"
      using handle_in_step [OF wf assms(3,4,2), of nm] h by auto
    show ?thesis
    proof (rule agreed_copy [OF cp(2)])
      show "no_lists (delivered cid c outs)"
        using st no_lists_delivered [of c cid outs] by (cases "c = cid") (auto simp: in_step_def delivered_def)
      show "foldl apply_tabs (m_tabs (copies \<sigma> c)) (events_for c (delivered cid c outs)) = client_layout s' c"
        using st by (cases "c = cid") (simp_all add: in_step_def cp(1))
    qed
  qed
  with wf' show ?thesis by (simp add: agreed_def)
qed

lemma visits_agree:
  assumes "agreed \<sigma>" and "no_lists outs \<and> hub_wf s' \<and>
    (\<forall>c. foldl apply_tabs (client_layout (hub \<sigma>) c) (events_for c outs) = client_layout s' c) \<and> R"
  shows "agreed \<lparr>hub = s', copies = (\<lambda>c. fold_sent c (copies \<sigma> c) outs)\<rparr>"
  using assms agreed_copy by (auto simp: agreed_def)

lemma close_session_panes_contract:
  assumes "wf_tabs L" and "close_session_panes lg L sid = (res, L')"
  shows "wf_tabs L' \<and>
    foldl apply_tabs L (map EvUpdated (updated res) @ map EvRemoved (removed_tab_ids res)) = L'"
  using session_panes.close_panes_where_spec(5) session_panes.close_panes_where_sync assms
  unfolding close_session_panes_def by metis

lemma step_agrees: "system_step \<sigma> \<sigma>' \<Longrightarrow> agreed \<sigma> \<Longrightarrow> agreed \<sigma>'"
proof (induction rule: system_step.induct)
  case (request env \<sigma> cid msg nm r outs s')
  then show ?case by (blast intro: request_agrees)
next
  case (session_removed env order \<sigma> sid outs s')
  then have "close_in_layouts (\<lambda>tabs. close_session_panes (ln64 env) tabs sid) order (hub \<sigma>) = (outs, s')"
    by (auto simp: close_session_panes_all_def close_panes_in_all_layouts_def mutate_def split: prod.splits)
  from close_in_layouts_spec [OF _ _ this close_session_panes_contract] session_removed
  show ?case by (intro visits_agree) (auto simp: agreed_def covers_def)
next
  case (session_replaced order \<sigma> env old new outs s')
  show ?case
  proof (cases "outs = [] \<and> s' = hub \<sigma>")
    case True
    with session_replaced show ?thesis by (simp add: agreed_def fold_sent_def)
  next
    case False
    with session_replaced.hyps have "rebind_in_layouts None [(old, new)] order (hub \<sigma>) = (outs, s')"
      by (auto simp: rebind_session_panes_def rebind_panes_def Let_def split: prod.splits if_splits)
    from rebind_in_layouts_spec [OF _ _ this] session_replaced
    show ?thesis by (intro visits_agree) (auto simp: agreed_def covers_def)
  qed
qed

lemma reachable_agrees: "system_step\<^sup>*\<^sup>* \<sigma> \<sigma>' \<Longrightarrow> agreed \<sigma> \<Longrightarrow> agreed \<sigma>'"
  by (induction rule: rtranclp_induct) (auto intro: step_agrees)

end
