(* ===== verification/Tab_Properties.thy ===== *)
theory Tab_Properties
  imports Tab_System
begin

text \<open>
  The properties of the tab layouts, each about the operations of \<open>tabs.rs\<close> and the handlers
  over them, with the concrete inputs that show their hypotheses can hold.
\<close>

section \<open>Concrete inputs\<close>

definition demo_tab :: "string \<Rightarrow> string \<Rightarrow> GridNode \<Rightarrow> TabEntry" where
  "demo_tab i nm g =
     \<lparr>tab_id = i, tab_name = nm, content = TabGrid g, created_at = 0, picked_layout = None\<rparr>"

definition demo_grid :: GridNode where
  "demo_grid = Split Horizontal DEFAULT_RATIO (Pane ''p'' (Some ''s1'') None) (Pane ''q'' None None)"

definition demo_tabs :: "TabEntry list" where
  "demo_tabs = [demo_tab ''A'' ''Tab'' demo_grid, demo_tab ''B'' ''Tab 2'' (Pane ''r'' (Some ''s3'') None)]"

definition demo_ln :: "flt \<Rightarrow> flt" where "demo_ln x = Fin 0"

definition demo_uuid :: "nat \<Rightarrow> string" where "demo_uuid i = replicate (5 + i) CHR ''u''"

definition demo_env :: Env where
  "demo_env = \<lparr>ln64 = demo_ln, uuid = demo_uuid, now = 7, disk_ok = True,
     repo_known = (\<lambda>_. True), live_sessions = [''s1'']\<rparr>"

definition demo_hub :: Hub where
  "demo_hub = \<lparr>layouts = [''me'' \<mapsto> \<lparr>layout_name = None, layout_tabs = demo_tabs\<rparr>], legacy_tabs = []\<rparr>"

definition demo_system :: System where
  "demo_system = \<lparr>hub = demo_hub,
     copies = (\<lambda>c. \<lparr>m_tabs = client_layout demo_hub c, pending_reorders = []\<rparr>)\<rparr>"

lemma demo_wf: "wf_tabs demo_tabs"
  by code_simp

lemma demo_all_panes:
  "all_panes demo_tabs =
     [\<lparr>pane_id = ''p'', session_id = Some ''s1'', host = None\<rparr>,
      \<lparr>pane_id = ''q'', session_id = None, host = None\<rparr>,
      \<lparr>pane_id = ''r'', session_id = Some ''s3'', host = None\<rparr>]"
  by code_simp

lemma demo_client_layout: "client_layout demo_hub c = (if c = ''me'' then demo_tabs else [])"
  by (simp add: client_layout_def demo_hub_def)

lemma demo_hub_wf: "hub_wf demo_hub"
  using demo_wf by (simp add: hub_wf_def demo_client_layout) (simp add: demo_hub_def wf_tabs_def)

lemma demo_tab_ids: "map tab_id demo_tabs = [''A'', ''B'']"
  by code_simp

lemma demo_fresh: "fresh_for demo_env demo_hub"
proof -
  have len: "length x < 5" if "x \<in> {''A'', ''B'', ''p'', ''q'', ''r''}" for x :: string
    using that by auto
  have "length (demo_uuid i) = 5 + i" for i by (simp add: demo_uuid_def)
  moreover have "tab_id ` set demo_tabs = {''A'', ''B''}" "pane_names demo_tabs = {''p'', ''q'', ''r''}"
    using arg_cong [OF demo_tab_ids, of set] by (auto simp: demo_all_panes pane_names_def)
  ultimately have "demo_uuid i \<notin> tab_id ` set demo_tabs" "demo_uuid i \<notin> pane_names demo_tabs" for i
    using len [of "demo_uuid i"] by auto
  moreover have "inj demo_uuid" by (rule injI) (simp add: demo_uuid_def)
  ultimately show ?thesis
    by (simp add: fresh_for_def demo_env_def demo_client_layout) (simp add: pane_names_def)
qed


section \<open>The system\<close>



text \<open>The requests whose handler runs on a copy of the state.\<close>

definition rolled_back :: "ClientMessage \<Rightarrow> bool" where
  "rolled_back msg =
     (case msg of
        RestoreTab _ _ \<Rightarrow> True | RestoreTabSnapshot _ \<Rightarrow> True | ReorderTabs _ _ \<Rightarrow> True
      | SplitPane _ _ _ _ _ _ _ \<Rightarrow> True | ClosePane _ _ _ \<Rightarrow> True | MovePane _ _ \<Rightarrow> True
      | SwapPanes _ _ \<Rightarrow> True | RearrangeTab _ _ \<Rightarrow> True | MergeTabs _ _ _ _ \<Rightarrow> True
      | ExtractToNewTab _ _ _ _ _ \<Rightarrow> True | _ \<Rightarrow> False)"

lemma try_mutate_failed:
  "fst (try_mutate_client_layout env s cid f) = Err e \<Longrightarrow> snd (try_mutate_client_layout env s cid f) = s"
  by (auto simp: try_mutate_client_layout_def try_mutate_def split: sum.splits prod.splits if_splits)

lemma answered_or_kept:
  assumes "answer_failure req (try_mutate_client_layout env s cid f) outs = (r, sent, s')"
    and "\<And>x. \<forall>e q code. Reply (ErrorMsg e q code) \<notin> set (outs x)"
    and "r \<noteq> Ok () \<or> (\<exists>e q code. Reply (ErrorMsg e q code) \<in> set sent)"
  shows "s' = s"
proof (cases "fst (try_mutate_client_layout env s cid f)")
  case (Inl e)
  with try_mutate_failed [OF Inl] assms(1) show ?thesis
    by (auto simp: answer_failure_def split: prod.splits sum.splits)
next
  case (Inr x)
  with assms show ?thesis by (auto simp: answer_failure_def split: prod.splits)
qed

lemma returned_or_kept:
  assumes "return_failure (try_mutate_client_layout env s cid f) outs = (r, sent, s')"
    and "\<And>x. \<forall>e q code. Reply (ErrorMsg e q code) \<notin> set (outs x)"
    and "r \<noteq> Ok () \<or> (\<exists>e q code. Reply (ErrorMsg e q code) \<in> set sent)"
  shows "s' = s"
proof (cases "fst (try_mutate_client_layout env s cid f)")
  case (Inl e)
  with try_mutate_failed [OF Inl] assms(1) show ?thesis
    by (auto simp: return_failure_def split: prod.splits sum.splits)
next
  case (Inr x)
  with assms show ?thesis by (auto simp: return_failure_def split: prod.splits)
qed

text \<open>
  C35: a refused restore, reorder, split, close, move, swap, rearrange, merge or extract leaves the
  hub exactly as it was, whether the operation failed halfway or the write of the file failed.
\<close>

theorem refused_request_changes_nothing:
  assumes "handle env s cid nm msg = (r, sent, s')" and "rolled_back msg"
    and "r \<noteq> Ok () \<or> (\<exists>e q code. Reply (ErrorMsg e q code) \<in> set sent)"
  shows "s' = s"
  using assms
proof (cases msg)
  case (RestoreTab tab i)
  with assms show ?thesis
    by (auto simp: handle_def handle_restore_tab_def split: if_splits option.splits
      elim!: returned_or_kept)
next
  case (RestoreTabSnapshot tab)
  with assms show ?thesis
    by (auto simp: handle_def handle_restore_snapshot_def split: if_splits option.splits
      elim!: returned_or_kept)
next
  case (ReorderTabs ids req)
  with assms show ?thesis
    by (intro answered_or_kept [OF _ _ assms(3)]) (auto simp: handle_def handle_reorder_tabs_def)
next
  case (SplitPane tid pid d pl sid h req)
  with assms show ?thesis
    by (intro answered_or_kept [OF _ _ assms(3)]) (auto simp: handle_def handle_split_pane_def)
next
  case (ClosePane tid pid req)
  with assms(1) have "answer_failure req
       (try_mutate_client_layout env s cid (\<lambda>tabs. close_pane_in_tabs (ln64 env) tabs tid pid))
       (\<lambda>r. case r of ClosedRemoved i \<Rightarrow> [EmitTab cid (EvRemoved i)]
            | ClosedUpdated tab \<Rightarrow> [EmitTab cid (EvUpdated tab)]) = (r, sent, s')"
    by (simp add: handle_def handle_close_pane_def)
  then show ?thesis by (rule answered_or_kept [OF _ _ assms(3)]) (auto split: ClosedTab.splits)
next
  case (MovePane mv req)
  with assms show ?thesis
    by (cases "mv_src_pane_id mv = mv_dst_pane_id mv")
       (auto simp: handle_def handle_move_pane_def elim!: answered_or_kept)
next
  case (SwapPanes sw req)
  with assms show ?thesis
    by (cases "sw_src_tab_id sw = sw_dst_tab_id sw \<and> sw_src_pane_id sw = sw_dst_pane_id sw")
       (auto simp: handle_def handle_swap_panes_def elim!: answered_or_kept)
next
  case (RearrangeTab tid l)
  with assms show ?thesis
    by (intro returned_or_kept [OF _ _ assms(3)]) (auto simp: handle_def handle_rearrange_tab_def)
next
  case (MergeTabs ids n l req)
  with assms show ?thesis
    by (intro answered_or_kept [OF _ _ assms(3)]) (auto simp: handle_def handle_merge_tabs_def)
next
  case (ExtractToNewTab tid pids n l req)
  with assms(1) have "handle_extract env s cid tid pids n l req = (r, sent, s')" by (simp add: handle_def)
  then show ?thesis
    unfolding handle_extract_def
    by (rule answered_or_kept [OF _ _ assms(3)]) (auto split: option.splits)
qed (simp_all add: rolled_back_def)

theorem refused_request_changes_nothing_witness:
  "handle demo_env demo_hub ''me'' None (ClosePane ''A'' ''gone'' (Some ''req''))
     = (Ok (), [Reply (ErrorMsg (Some (Refused (PaneNotFound ''gone''))) (Some ''req'') TabRefused)], demo_hub)"
proof -
  obtain r sent s' where h:
    "handle demo_env demo_hub ''me'' None (ClosePane ''A'' ''gone'' (Some ''req'')) = (r, sent, s')"
    by (metis prod_cases3)
  have "close_pane_in_tabs demo_ln demo_tabs ''A'' ''gone'' = Err (PaneNotFound ''gone'')"
    by code_simp
  then have rs: "r = Ok () \<and> sent = [Reply (ErrorMsg (Some (Refused (PaneNotFound ''gone''))) (Some ''req'') TabRefused)]"
    using h by (auto simp: handle_def handle_close_pane_def answer_failure_def try_mutate_client_layout_def
      try_mutate_def send_tab_failure_def demo_client_layout demo_env_def)
  then have "s' = demo_hub"
    by (intro refused_request_changes_nothing [OF h]) (simp_all add: rolled_back_def)
  with h rs show ?thesis by simp
qed

section \<open>Panes\<close>

text \<open>
  C34: a move that is not a drop on a pane's centre loses and duplicates no pane, and the moved pane
  is in the destination tab afterwards, within one tab or across two.
\<close>

theorem move_pane_conserves:
  assumes "wf_tabs tabs" and "move_pane lg tabs mv = Ok (evs, tabs')" and "mv_edge mv \<noteq> Replace"
  shows "mset (all_panes tabs') = mset (all_panes tabs) \<and>
    (\<exists>t \<in> set tabs'. tab_id t = mv_dst_tab_id mv \<and> mv_src_pane_id mv \<in> pane_id ` set (tab_panes t))"
proof (cases "mv_src_tab_id mv = mv_dst_tab_id mv")
  case True
  with assms(2) have w: "move_within_tab tabs mv = Ok (evs, tabs')" by (simp add: move_pane_def)
  from move_within_tab_Ok [OF w] obtain xs t ys g g' t' where
    *: "tabs = xs @ t # ys" "tab_id t = mv_src_tab_id mv" "grid_of t = Some g"
      "move_in_grid g mv = Ok g'" "tabs' = xs @ t' # ys" "tab_id t' = tab_id t" "grid_of t' = Some g'"
    by metis
  have d: "distinct (pane_ids g)" using wf_tabs_tab(1) [OF assms(1) [unfolded *(1)]] *(3) by simp
  have "mv_src_pane_id mv \<in> set (pane_ids g)"
  proof (rule ccontr)
    assume "mv_src_pane_id mv \<notin> set (pane_ids g)"
    with *(4) assms(3) show False by (simp add: move_in_grid_def extract_pane_absent)
  qed
  then have "mv_src_pane_id mv \<in> pane_id ` set (tab_panes t')"
    using mset_ids_distinct(2) [OF move_in_grid_mset(1) [OF d *(4) assms(3)]] *(7) by simp
  with move_within_tab_mset(1) [OF assms(1) w assms(3)] * True show ?thesis by auto
next
  case False
  with assms(2) obtain node ev L1 dst where
    take: "take_source lg tabs mv = Ok ((node, ev), L1)" and
    ins: "insert_destination lg L1 mv node = Ok (dst, tabs')"
    by (auto simp: move_pane_def move_across_tabs_def and_then_eq_Inr)
  from take_source_spec [OF assms(1) take] obtain p where p: "p \<in> set (all_panes tabs)"
    "node = to_node p" "pane_id p = mv_src_pane_id mv"
    "all_panes L1 = filter (\<lambda>q. pane_id q \<noteq> pane_id p) (all_panes tabs)" "wf_tabs L1" by metis
  have new: "pane_id p \<notin> pane_id ` set (all_panes L1)" by (auto simp: p(4))
  note i = insert_destination_mset [OF p(5) ins [unfolded p(2)] assms(3) new]
  have "mset (all_panes tabs') = mset (all_panes tabs)"
    using i(1) p(4) mset_filter_out [of "all_panes tabs" p] p(1) assms(1) by (simp add: wf_tabs_def)
  moreover have "mv_src_pane_id mv \<in> pane_id ` set (tab_panes dst)" using i(5) p(3) by force
  ultimately show ?thesis using i(4,6) by blast
qed

theorem move_pane_conserves_witness:
  "\<exists>evs tabs'. move_pane demo_ln demo_tabs \<lparr>mv_src_tab_id = ''B'', mv_src_pane_id = ''r'',
       mv_dst_tab_id = ''A'', mv_dst_pane_id = ''p'', mv_edge = Top, mv_touch = True\<rparr> = Ok (evs, tabs') \<and>
     mset (all_panes tabs') = mset (all_panes demo_tabs) \<and> map tab_id tabs' = [''A'']"
proof -
  let ?mv = "\<lparr>mv_src_tab_id = ''B'', mv_src_pane_id = ''r'',
       mv_dst_tab_id = ''A'', mv_dst_pane_id = ''p'', mv_edge = Top, mv_touch = True\<rparr>"
  have "(case move_pane demo_ln demo_tabs ?mv of Ok (evs, tabs') \<Rightarrow> map tab_id tabs' = [''A''] | Err _ \<Rightarrow> False)"
    by code_simp
  then obtain evs tabs' where *: "move_pane demo_ln demo_tabs ?mv = Ok (evs, tabs')" "map tab_id tabs' = [''A'']"
    by (auto split: sum.splits)
  from move_pane_conserves [OF demo_wf *(1)] * show ?thesis by auto
qed

text \<open>
  A swap exchanges the bindings (session and host) of its two panes and changes nothing else:
  the same panes in the same tabs and places. Both tabs count as arranged by hand, and the answer
  lists each changed tab once.
\<close>

theorem swap_panes_exchanges:
  assumes "wf_tabs tabs" and "t \<in> set tabs" and "p \<in> set (tab_panes t)"
    and "u \<in> set tabs" and "q \<in> set (tab_panes u)"
  shows "\<exists>evs tabs'. swap_panes tabs \<lparr>sw_src_tab_id = tab_id t, sw_src_pane_id = pane_id p,
        sw_dst_tab_id = tab_id u, sw_dst_pane_id = pane_id q\<rparr> = Ok (evs, tabs') \<and>
      all_panes tabs' = swap_bindings p q (all_panes tabs) \<and> map tab_id tabs' = map tab_id tabs \<and>
      wf_tabs tabs' \<and> length evs = (if tab_id t = tab_id u then 1 else 2) \<and>
      (\<forall>ev \<in> set evs. \<exists>w \<in> set tabs'. ev = MovedUpdated w \<and> picked_layout w = None)"
proof (cases "tab_id t = tab_id u")
  case True
  from assms(2) obtain xs ys where ts: "tabs = xs @ t # ys" by (auto dest: split_list)
  have "u = t" using tab_unique [OF assms(1) ts assms(4)] True by simp
  from swap_panes_same_tab [OF assms(1) [unfolded ts] refl assms(3), of q] assms(5) \<open>u = t\<close> obtain t' where
    "swap_panes tabs \<lparr>sw_src_tab_id = tab_id t, sw_src_pane_id = pane_id p,
        sw_dst_tab_id = tab_id t, sw_dst_pane_id = pane_id q\<rparr> = Ok ([MovedUpdated t'], xs @ t' # ys)"
    "all_panes (xs @ t' # ys) = swap_bindings p q (all_panes tabs)" "wf_tabs (xs @ t' # ys)"
    "tab_id t' = tab_id t" "picked_layout t' = None" unfolding ts by blast
  with True ts show ?thesis by (intro exI [of _ "[MovedUpdated t']"] exI [of _ "xs @ t' # ys"]) simp
next
  case False
  obtain t' u' tabs' where *:
    "swap_panes tabs \<lparr>sw_src_tab_id = tab_id t, sw_src_pane_id = pane_id p,
        sw_dst_tab_id = tab_id u, sw_dst_pane_id = pane_id q\<rparr> =
      Ok ([MovedUpdated t', MovedUpdated u'], tabs')"
    "all_panes tabs' = swap_bindings p q (all_panes tabs)" "wf_tabs tabs'"
    "map tab_id tabs' = map tab_id tabs" "tab_id t' = tab_id t" "tab_id u' = tab_id u"
    "picked_layout t' = None" "picked_layout u' = None" "t' \<in> set tabs'" "u' \<in> set tabs'"
    by (rule swap_panes_cross_tab [OF assms False]) (rule that)
  with False show ?thesis by (intro exI [of _ "[MovedUpdated t', MovedUpdated u']"] exI [of _ tabs']) simp
qed

theorem swap_panes_exchanges_witness:
  "\<exists>evs tabs'. swap_panes demo_tabs \<lparr>sw_src_tab_id = ''A'', sw_src_pane_id = ''p'',
        sw_dst_tab_id = ''B'', sw_dst_pane_id = ''r''\<rparr> = Ok (evs, tabs') \<and>
     map session_id (all_panes tabs') = [Some ''s3'', None, Some ''s1''] \<and> length evs = 2"
proof -
  let ?p = "\<lparr>pane_id = ''p'', session_id = Some ''s1'', host = None\<rparr>"
  let ?r = "\<lparr>pane_id = ''r'', session_id = Some ''s3'', host = None\<rparr>"
  have *: "demo_tab ''A'' ''Tab'' demo_grid \<in> set demo_tabs" "?p \<in> set (tab_panes (demo_tab ''A'' ''Tab'' demo_grid))"
    "demo_tab ''B'' ''Tab 2'' (Pane ''r'' (Some ''s3'') None) \<in> set demo_tabs"
    "?r \<in> set (tab_panes (demo_tab ''B'' ''Tab 2'' (Pane ''r'' (Some ''s3'') None)))"
    by (simp_all add: demo_tabs_def demo_tab_def demo_grid_def)
  have "map session_id (swap_bindings ?p ?r (all_panes demo_tabs)) = [Some ''s3'', None, Some ''s1'']"
    by (simp add: demo_all_panes swap_bindings_def bind_as_def)
  with swap_panes_exchanges [OF demo_wf *] show ?thesis by (auto simp: demo_tab_def)
qed

text \<open>
  Splitting a pane puts the new pane right before or after it in the walk order, under the id
  drawn for it, and changes no other pane; a picked layout stays picked.
\<close>

theorem split_tab_pane_places:
  assumes "wf_tabs tabs" and "t \<in> set tabs" and "target \<in> pane_id ` set (tab_panes t)"
  shows "\<exists>t'. split_tab_pane lg t target d pl (new_pane fresh s h) = Ok (fresh, t') \<and>
    tab_id t' = tab_id t \<and> picked_layout t' = picked_layout t \<and> tab_ratios_ok t' \<and>
    tab_panes t' = subst_pane target
      (split_with pl \<lparr>pane_id = fresh, session_id = s, host = h\<rparr>) (tab_panes t)"
proof -
  from assms(2) obtain xs ys where "tabs = xs @ t # ys" by (auto dest: split_list)
  note w = wf_tabs_tab(1,2) [OF assms(1) [unfolded this]]
  from split_tab_pane_spec [OF w(1) assms(3), of lg d pl fresh s h] w(2) show ?thesis by metis
qed

theorem split_tab_pane_places_witness:
  "\<exists>t'. split_tab_pane demo_ln (hd demo_tabs) ''p'' Vertical First (new_pane ''n'' None None) = Ok (''n'', t') \<and>
     map pane_id (tab_panes t') = [''n'', ''p'', ''q'']"
proof -
  have hd: "hd demo_tabs \<in> set demo_tabs" by (simp add: demo_tabs_def)
  have ps: "tab_panes (hd demo_tabs) = [\<lparr>pane_id = ''p'', session_id = Some ''s1'', host = None\<rparr>,
      \<lparr>pane_id = ''q'', session_id = None, host = None\<rparr>]" by code_simp
  have "''p'' \<in> pane_id ` set (tab_panes (hd demo_tabs))" by (simp add: ps)
  from split_tab_pane_places [OF demo_wf hd this, of demo_ln Vertical First "''n''" None None]
  show ?thesis by (auto simp: ps split_with_def)
qed

text \<open>
  Closing a pane removes that pane and no other. The tab goes with its last pane, and every
  other close reports the changed tab. A pane the tab does not hold is an error, as is a missing tab
  or one without a grid.
\<close>

theorem close_pane_in_tabs_exact:
  assumes "wf_tabs tabs"
  shows "case List.find (\<lambda>t. tab_id t = tid) tabs of
      None \<Rightarrow> close_pane_in_tabs lg tabs tid pid = Err (UnknownTab tid)
    | Some t \<Rightarrow>
        if pid \<notin> pane_id ` set (tab_panes t) then
          close_pane_in_tabs lg tabs tid pid =
            Err (if grid_of t = None then NotAGridTab tid else PaneNotFound pid)
        else \<exists>res tabs'. close_pane_in_tabs lg tabs tid pid = Ok (res, tabs') \<and>
          all_panes tabs' = filter (\<lambda>p. pane_id p \<noteq> pid) (all_panes tabs) \<and> wf_tabs tabs' \<and>
          (if map pane_id (tab_panes t) = [pid] then res = ClosedRemoved tid
           else \<exists>t' \<in> set tabs'. res = ClosedUpdated t' \<and> tab_id t' = tid)"
proof (cases "List.find (\<lambda>t. tab_id t = tid) tabs")
  case None
  then have "tid \<notin> tab_id ` set tabs" by (auto simp: find_None_iff)
  with None show ?thesis by (simp add: close_pane_in_tabs_def find_tab_mut_absent)
next
  case (Some t)
  then obtain xs ys where *: "tabs = xs @ t # ys" "tab_id t = tid" "\<forall>y \<in> set xs. tab_id y \<noteq> tid"
    by (rule find_Some_split)
  then have x: "tid \<notin> tab_id ` set xs" by auto
  show ?thesis
  proof (cases "pid \<in> pane_id ` set (tab_panes t)")
    case True
    from close_pane_in_tabs_spec [OF assms [unfolded *(1)] *(2) True, of lg] obtain res tabs' where
      "close_pane_in_tabs lg tabs tid pid = Ok (res, tabs')"
      "all_panes tabs' = filter (\<lambda>p. pane_id p \<noteq> pid) (all_panes tabs)" "wf_tabs tabs'"
      "map pane_id (tab_panes t) = [pid] \<Longrightarrow> res = ClosedRemoved tid \<and> tabs' = xs @ ys"
      "map pane_id (tab_panes t) \<noteq> [pid] \<Longrightarrow>
        \<exists>t'. res = ClosedUpdated t' \<and> tab_id t' = tid \<and> tabs' = xs @ t' # ys" unfolding *(1) by blast
    with Some True show ?thesis by (cases "map pane_id (tab_panes t) = [pid]") auto
  next
    case False
    with Some close_tab_pane_err [OF False, of lg] *(2) x show ?thesis
      by (simp add: *(1) close_pane_in_tabs_def find_tab_mut_split)
  qed
qed

theorem close_pane_in_tabs_exact_witness:
  "\<exists>tabs'. close_pane_in_tabs demo_ln demo_tabs ''B'' ''r'' = Ok (ClosedRemoved ''B'', tabs') \<and>
     map pane_id (all_panes tabs') = [''p'', ''q'']"
proof -
  have f: "List.find (\<lambda>t. tab_id t = ''B'') demo_tabs =
      Some (demo_tab ''B'' ''Tab 2'' (Pane ''r'' (Some ''s3'') None))"
    by (simp add: demo_tabs_def demo_tab_def)
  from close_pane_in_tabs_exact [OF demo_wf, where tid = "''B''" and lg = demo_ln and pid = "''r''"] f show ?thesis
    by (auto simp: demo_all_panes demo_tab_def)
qed

text \<open>
  removing a session closes exactly its local panes, in every tab, whatever host the panes of
  the same id on other daemons name; the removed tabs are exactly those all of whose panes showed
  it, and the reported tabs those that lost a pane and survive.
\<close>

theorem close_session_panes_exact:
  assumes "wf_tabs tabs" and "close_session_panes lg tabs sid = (res, tabs')"
  shows "all_panes tabs' = filter (\<lambda>p. \<not> (host p = None \<and> session_id p = Some sid)) (all_panes tabs) \<and>
    wf_tabs tabs' \<and> \<not> shows_session tabs' None sid \<and>
    removed_tab_ids res = map tab_id (filter (\<lambda>t. tab_panes t \<noteq> [] \<and>
      list_all (\<lambda>p. host p = None \<and> session_id p = Some sid) (tab_panes t)) tabs) \<and>
    map tab_id tabs' = filter (\<lambda>i. i \<notin> set (removed_tab_ids res)) (map tab_id tabs)"
proof -
  note c = session_panes.close_panes_where_spec [OF assms(1) assms(2) [unfolded close_session_panes_def]]
  let ?P = "\<lambda>p. host p = None \<and> session_id p = Some sid"
  have rem: "removed_tab_ids res = map tab_id (filter (\<lambda>t. tab_panes t \<noteq> [] \<and> list_all ?P (tab_panes t)) tabs)"
  proof -
    have "session_panes.emptied sid = (\<lambda>t. tab_panes t \<noteq> [] \<and> list_all ?P (tab_panes t))"
      by (rule ext) (simp add: session_panes.emptied_def)
    with c(3) show ?thesis by simp
  qed
  have "map tab_id tabs' = filter (\<lambda>i. i \<notin> set (removed_tab_ids res)) (map tab_id tabs)"
    unfolding c(2) c(3) filter_map comp_def
    by (intro arg_cong [of _ _ "map tab_id"] filter_cong refl)
       (use assms(1) in \<open>auto simp: wf_tabs_def distinct_map dest: inj_onD\<close>)
  moreover have "\<not> shows_session tabs' None sid"
  proof
    assume "shows_session tabs' None sid"
    then obtain p where "p \<in> set (all_panes tabs')" "?P p"
      by (auto simp: shows_session_iff)
    with c(1) show False by auto
  qed
  ultimately show ?thesis using c(1,5) rem by simp
qed

theorem close_session_panes_exact_witness:
  "map pane_id (all_panes (snd (close_session_panes demo_ln demo_tabs ''s3''))) = [''p'', ''q''] \<and>
     removed_tab_ids (fst (close_session_panes demo_ln demo_tabs ''s3'')) = [''B'']"
proof -
  obtain res tabs' where c: "close_session_panes demo_ln demo_tabs ''s3'' = (res, tabs')" by fastforce
  have "map tab_id (filter (\<lambda>t. tab_panes t \<noteq> [] \<and>
      list_all (\<lambda>p. host p = None \<and> session_id p = Some ''s3'') (tab_panes t)) demo_tabs) = [''B'']"
    by code_simp
  with close_session_panes_exact [OF demo_wf c] c show ?thesis by (simp add: demo_all_panes)
qed

text \<open>
  rebinding a session rewrites the session of exactly the panes of that host that showed the
  old one, and a change of host key the host of exactly the listed sessions' panes; pane ids, order
  and tabs stay, and the reported tabs are those that held such a pane.
\<close>

theorem rebind_and_rehost_exact:
  "all_panes (snd (rebind_session tabs target old new)) =
     map (\<lambda>p. if host p = target \<and> session_id p = Some old then p\<lparr>session_id := Some new\<rparr> else p)
       (all_panes tabs) \<and>
   map tab_id (snd (rebind_session tabs target old new)) = map tab_id tabs \<and>
   map tab_id (fst (rebind_session tabs target old new)) =
     map tab_id (filter (\<lambda>t. \<exists>p \<in> set (tab_panes t). host p = target \<and> session_id p = Some old) tabs) \<and>
   all_panes (snd (rehost_panes tabs from to sids)) =
     map (\<lambda>p. if host p = Some from \<and> (\<exists>s \<in> set sids. session_id p = Some s) then p\<lparr>host := to\<rparr> else p)
       (all_panes tabs) \<and>
   wf_tabs (snd (rebind_session tabs target old new)) = wf_tabs tabs \<and>
   wf_tabs (snd (rehost_panes tabs from to sids)) = wf_tabs tabs"
  unfolding rebind_session_def rehost_panes_def rebind.edit_grids_panes rehost.edit_grids_panes
    rebind.edit_grids_ids rebind.edit_grids_updated rebind.edit_grids_wf rehost.edit_grids_wf
  by (auto simp: rebind.apply_edit_def rehost.apply_edit_def)

text \<open>
  A merge of distinct tabs keeps every pane, takes the merged tabs' panes in the order the tabs
  are named, removes those tabs and appends the new one.
\<close>

theorem merge_tabs_conserves:
  assumes "wf_tabs tabs" and "distinct ids" and "fresh \<notin> tab_id ` set tabs"
    and "merge_tabs fresh t0 tabs ids nm l = Ok (entry, tabs')"
  shows "mset (all_panes tabs') = mset (all_panes tabs) \<and> wf_tabs tabs' \<and>
    tab_panes entry = concat (map (\<lambda>i. concat (map tab_panes (filter (\<lambda>t. tab_id t = i) tabs))) ids) \<and>
    tabs' = filter (\<lambda>t. tab_id t \<notin> set ids) tabs @ [entry] \<and> tab_id entry = fresh"
  using merge_tabs_spec [OF assms(1,2,4)] assms(3) merge_tabs_Ok [OF assms(4)] by metis

theorem merge_tabs_conserves_witness:
  "\<exists>entry tabs'. merge_tabs ''new'' 0 demo_tabs [''B'', ''A''] None TileVertical = Ok (entry, tabs') \<and>
     map pane_id (tab_panes entry) = [''r'', ''p'', ''q''] \<and> tabs' = [entry]"
proof -
  have "(case merge_tabs ''new'' 0 demo_tabs [''B'', ''A''] None TileVertical of Err _ \<Rightarrow> False | Ok _ \<Rightarrow> True)"
    by code_simp
  then obtain entry tabs' where m: "merge_tabs ''new'' 0 demo_tabs [''B'', ''A''] None TileVertical = Ok (entry, tabs')"
    by (auto split: sum.splits)
  have new: "''new'' \<notin> tab_id ` set demo_tabs" using arg_cong [OF demo_tab_ids, of set] by auto
  from merge_tabs_conserves [OF demo_wf _ new m]
  have "tab_panes entry = concat (map (\<lambda>i. concat (map tab_panes (filter (\<lambda>t. tab_id t = i) demo_tabs))) [''B'', ''A''])"
    "tabs' = filter (\<lambda>t. tab_id t \<notin> set [''B'', ''A'']) demo_tabs @ [entry]" by simp_all
  with m show ?thesis by (simp add: demo_tabs_def demo_tab_def demo_grid_def)
qed

text \<open>
  an extract keeps every pane; the new tab holds the named panes in the order named, and they
  are gone from the source, which is removed when none is left.
\<close>

theorem extract_to_new_tab_conserves:
  assumes "wf_tabs tabs" and "fresh \<notin> tab_id ` set tabs"
    and "extract_to_new_tab lg fresh t0 tabs tid pids nm l = Ok (out, tabs')"
  shows "mset (all_panes tabs') = mset (all_panes tabs) \<and> wf_tabs tabs' \<and>
    new_tab out \<in> set tabs' \<and> tab_id (new_tab out) = fresh \<and>
    (case source_left out of
       Some src \<Rightarrow> map pane_id (tab_panes (new_tab out)) = pids \<and> src \<in> set tabs' \<and> tab_id src = tid
     | None \<Rightarrow> tid \<notin> tab_id ` set tabs')"
proof -
  obtain xs t ys g ex emp g' t' where
    *: "tabs = xs @ t # ys" "tab_id t = tid"
      "grid_of t = Some g" "extract_listed g pids [] = Ok (ex, emp, g')" "pids \<noteq> []"
    and t': "tab_id t' = tid" "tab_panes t' = collect_panes g'"
      "\<not> emp \<Longrightarrow> ratios_ok g' \<Longrightarrow> tab_ratios_ok t'"
    and out: "tab_panes (new_tab out) = ex" "tab_ratios_ok (new_tab out)" "tab_id (new_tab out) = fresh"
    and tabs': "tabs' = (if emp then filter (\<lambda>t. tab_id t \<noteq> tid) (xs @ t' # ys) else xs @ t' # ys) @ [new_tab out]"
    and src: "source_left out = (if emp then None else Some t')"
    by (rule extract_to_new_tab_Ok [OF assms(3)]) (rule that)
  have "fresh \<noteq> tid" using assms(2) * by auto
  note e = extract_to_new_tab_spec [OF assms(1,3)]
  with assms(2) * t' out tabs' src \<open>fresh \<noteq> tid\<close> show ?thesis by (cases emp) auto
qed

theorem extract_to_new_tab_conserves_witness:
  "\<exists>out tabs'. extract_to_new_tab demo_ln ''new'' 0 demo_tabs ''A'' [''q''] (Some ''x'') None = Ok (out, tabs') \<and>
     mset (all_panes tabs') = mset (all_panes demo_tabs) \<and> map tab_id tabs' = [''A'', ''B'', ''new'']"
proof -
  have "(case extract_to_new_tab demo_ln ''new'' 0 demo_tabs ''A'' [''q''] (Some ''x'') None of
      Err _ \<Rightarrow> False | Ok (_, tabs') \<Rightarrow> map tab_id tabs' = [''A'', ''B'', ''new''])"
    by code_simp
  then obtain out tabs' where m: "extract_to_new_tab demo_ln ''new'' 0 demo_tabs ''A'' [''q''] (Some ''x'') None = Ok (out, tabs')"
    "map tab_id tabs' = [''A'', ''B'', ''new'']" by (auto split: sum.splits)
  have new: "''new'' \<notin> tab_id ` set demo_tabs" using arg_cong [OF demo_tab_ids, of set] by auto
  from extract_to_new_tab_conserves [OF demo_wf new m(1)] m show ?thesis
    by (intro exI [of _ out] exI [of _ tabs']) simp
qed

section \<open>Tab order, names and copies\<close>

text \<open>
  a reorder that names each tab once succeeds, puts the tabs in the named order and keeps
  every tab as it is.
\<close>

theorem reorder_tabs_applies:
  assumes "wf_tabs tabs" and "distinct ids" and "set ids = tab_id ` set tabs"
  shows "\<exists>tabs'. reorder_tabs tabs ids = Ok ((), tabs') \<and> map tab_id tabs' = ids \<and> mset tabs' = mset tabs"
proof -
  have "length ids = length tabs"
    using assms by (metis distinct_card image_set length_map wf_tabs_def)
  moreover have "List.find (\<lambda>i. \<not> list_ex (\<lambda>t. tab_id t = i) tabs) ids = None"
    using assms(3) by (auto simp: find_None_iff list_ex_iff)
  ultimately obtain tabs' where ok: "reorder_tabs tabs ids = Ok ((), tabs')"
    by (simp add: reorder_tabs_def)
  with reorder_tabs_spec [OF assms(1,2) ok] show ?thesis by blast
qed

theorem reorder_tabs_applies_witness:
  "\<exists>tabs'. reorder_tabs demo_tabs [''B'', ''A''] = Ok ((), tabs') \<and> map tab_id tabs' = [''B'', ''A'']"
proof -
  have "set [''B'', ''A''] = tab_id ` set demo_tabs" using arg_cong [OF demo_tab_ids, of set] by auto
  from reorder_tabs_applies [OF demo_wf _ this] show ?thesis by auto
qed

text \<open>
  a reorder that names one tab twice passes the daemon's check as well: the daemon keeps both
  tabs, while a client that folds the answer drops the tab that is not named.
\<close>

theorem reorder_accepts_duplicates:
  "\<exists>outs s'. handle demo_env demo_hub ''me'' None (ReorderTabs [''A'', ''A''] None) = (Ok (), outs, s') \<and>
     map tab_id (client_layout s' ''me'') = [''A'', ''B''] \<and>
     map tab_id (m_tabs (fold_sent ''me'' (copies demo_system ''me'') outs)) = [''A'']"
proof -
  let ?s' = "put_tabs demo_hub ''me'' demo_tabs"
  have r: "reorder_tabs demo_tabs [''A'', ''A''] = Ok ((), demo_tabs)"
    by (simp add: reorder_tabs_def reorder_key_def demo_tabs_def demo_tab_def find_None_iff)
  have h: "handle demo_env demo_hub ''me'' None (ReorderTabs [''A'', ''A''] None) =
      (Ok (), [EmitTab ''me'' (EvReordered [''A'', ''A''])], ?s')"
    using r by (simp add: handle_def handle_reorder_tabs_def answer_failure_def try_mutate_client_layout_def
      try_mutate_def demo_client_layout) (simp add: demo_env_def)
  have "map tab_id (m_tabs (fold_sent ''me'' (copies demo_system ''me'') [EmitTab ''me'' (EvReordered [''A'', ''A''])])) = [''A'']"
    by (simp add: fold_sent_def demo_system_def settle_reorder_def demo_client_layout)
       (simp add: demo_tabs_def demo_tab_def reorder_def)
  with h show ?thesis by (intro exI conjI) (assumption, simp add: demo_tab_ids, assumption)
qed

lemma used_numbers_mem:
  "t \<in> set tabs \<Longrightarrow> used_number (tab_name t) = Some n \<Longrightarrow> n \<in> set (used_numbers tabs)"
  unfolding used_numbers_def by (induction tabs) (auto simp: map_filter_simps split: option.split)

text \<open>
  the default name of a new tab is \<open>Tab\<close> or \<open>Tab N\<close> with the least positive number no tab is
  named by, and no existing tab has that name.
\<close>

theorem next_default_name_least:
  assumes "length existing < 2 ^ 32 - 1"
  shows "\<exists>n. next_default_name existing = (if n = 1 then ''Tab'' else ''Tab '' @ dec n) \<and> 1 \<le> n \<and>
    n \<notin> set (used_numbers existing) \<and> (\<forall>k. 1 \<le> k \<and> k < n \<longrightarrow> k \<in> set (used_numbers existing)) \<and>
    next_default_name existing \<notin> tab_name ` set existing"
proof -
  let ?n = "next_free (used_numbers existing) 1"
  note f = next_free_spec [of "used_numbers existing" 1]
  have "length (used_numbers existing) \<le> length existing"
    unfolding used_numbers_def by (induction existing) (auto simp: map_filter_simps split: option.split)
  then have small: "?n < 2 ^ 32" using next_free_bound [of "used_numbers existing"] assms by simp
  have name: "used_number (if ?n = 1 then ''Tab'' else ''Tab '' @ dec ?n) = Some ?n"
    using parse_show [OF small] by (simp add: used_number_def)
  have "next_default_name existing \<notin> tab_name ` set existing"
  proof
    assume "next_default_name existing \<in> tab_name ` set existing"
    then obtain t where t: "t \<in> set existing" "tab_name t = next_default_name existing" by auto
    have "used_number (tab_name t) = Some ?n"
      unfolding t(2) next_default_name_def Let_def by (rule name)
    with t(1) have "?n \<in> set (used_numbers existing)" by (rule used_numbers_mem)
    with f show False by blast
  qed
  then show ?thesis using f by (intro exI [of _ ?n]) (simp add: next_default_name_def Let_def)
qed

theorem next_default_name_least_witness:
  "next_default_name demo_tabs \<notin> {''Tab'', ''Tab 2''} \<and> length demo_tabs = 2"
proof -
  have len: "length demo_tabs = 2" by (simp add: demo_tabs_def)
  then have "next_default_name demo_tabs \<notin> tab_name ` set demo_tabs"
    using next_default_name_least [of demo_tabs] by auto
  then show ?thesis using len by (simp add: demo_tabs_def demo_tab_def)
qed

lemma disjoint_from_image: "A \<subseteq> f ` I \<Longrightarrow> (\<And>i. f i \<notin> B) \<Longrightarrow> A \<inter> B = {}"
  by blast

text \<open>
  A copied layout shows the same sessions in the same order, tab by tab, under ids that were
  drawn for it, so it is well formed and shares no tab or pane with the original.
\<close>

theorem clone_tabs_fresh:
  assumes "hub_wf s" and "fresh_for env s"
  shows "let copy = clone_tabs_fresh_ids (uuid env) 0 (client_layout s c) in
    map bindings copy = map bindings (client_layout s c) \<and> wf_tabs copy \<and>
    pane_names copy \<inter> pane_names (client_layout s c) = {} \<and>
    tab_id ` set copy \<inter> tab_id ` set (client_layout s c) = {}"
proof -
  let ?copy = "clone_tabs_fresh_ids (uuid env) 0 (client_layout s c)"
  have inj: "inj (uuid env)" using assms(2) by (simp add: fresh_for_def)
  note n = clone_tabs_names [OF inj, of 0 "client_layout s c"]
  have "wf_tabs ?copy" using n hub_wfD [OF assms(1), of c] by (simp add: wf_tabs_def)
  moreover have "pane_names ?copy \<inter> pane_names (client_layout s c) = {}"
    by (rule disjoint_from_image [OF conjunct2 [OF conjunct2 [OF n]]]) (rule fresh_pane [OF assms(2)])
  moreover have "tab_id ` set ?copy \<inter> tab_id ` set (client_layout s c) = {}"
    by (rule disjoint_from_image [OF conjunct1 [OF conjunct2 [OF n]]]) (rule fresh_tab [OF assms(2)])
  ultimately show ?thesis by (simp add: Let_def clone_tabs_bindings)
qed

theorem clone_tabs_fresh_witness:
  "map bindings (clone_tabs_fresh_ids demo_uuid 0 demo_tabs) = map bindings demo_tabs \<and>
     wf_tabs (clone_tabs_fresh_ids demo_uuid 0 demo_tabs)"
  using clone_tabs_fresh [OF demo_hub_wf demo_fresh, of "''me''"]
  by (simp add: Let_def demo_client_layout) (simp add: demo_env_def)

section \<open>Layouts\<close>

text \<open>
  C36: every layout type builds a tree for any panes, which holds exactly those panes in order with
  all ratios in range; so a rearranged tab keeps its panes that show a session, and an untouched
  tab's rebuild keeps all of them.
\<close>

theorem layouts_keep_panes:
  "(ps \<noteq> [] \<longrightarrow> (\<exists>g. build_for_layout lg ps l = Some g \<and> collect_panes g = ps \<and> ratios_ok g)) \<and>
   (\<exists>g'. rearrange_grid lg g l = Ok g' \<and> ratios_ok g' \<and>
      filter (\<lambda>p. session_id p \<noteq> None) (collect_panes g') =
      filter (\<lambda>p. session_id p \<noteq> None) (collect_panes g)) \<and>
   tab_panes (reapplied lg t) = tab_panes t"
proof -
  let ?B = "filter (\<lambda>p. session_id p \<noteq> None) (collect_panes g)"
  let ?ps = "if ?B = [] then collect_panes g else ?B"
  have "?ps \<noteq> []" by simp
  then obtain g' where g': "build_for_layout lg ?ps l = Some g'" "collect_panes g' = ?ps" "ratios_ok g'"
    using layout.build_panes by blast
  have "rearrange_grid lg g l = Ok g'"
    unfolding rearrange_grid_def Let_def if_not_P [OF collect_panes_not_Nil] g'(1) by simp
  moreover have "filter (\<lambda>p. session_id p \<noteq> None) (collect_panes g') = ?B" using g'(2) by simp
  ultimately show ?thesis using g'(3) layout.build_panes by auto
qed

theorem layouts_keep_panes_witness:
  "\<exists>g'. rearrange_grid demo_ln demo_grid LayoutVertical = Ok g' \<and>
     filter (\<lambda>p. session_id p \<noteq> None) (collect_panes g') = [\<lparr>pane_id = ''p'', session_id = Some ''s1'', host = None\<rparr>]"
  using layouts_keep_panes [of "[]" demo_ln LayoutVertical demo_grid "hd demo_tabs"]
  by (auto simp: demo_grid_def)

text \<open>
  A strip of \<open>n\<close> panes is nested less than \<open>1 + log n\<close> deep, and the automatic column count
  is the least whose square holds all panes when the area's shape is unknown, and between 1 and
  \<open>n\<close> when it is known.
\<close>

theorem layout_bounds:
  assumes "0 < length ps"
  shows "(\<exists>g. build_balanced ps d = Some g \<and> 2 ^ height g < 2 * length ps) \<and>
    length ps \<le> auto_grid_cols (length ps) * auto_grid_cols (length ps) \<and>
    (auto_grid_cols (length ps) - 1) * (auto_grid_cols (length ps) - 1) < length ps \<and>
    1 \<le> best_fit_grid_cols lg (length ps) a \<and> best_fit_grid_cols lg (length ps) a \<le> length ps"
proof -
  have c: "auto_grid_cols (length ps) = ceil_sqrt_from (length ps) 0" using assms by (simp add: auto_grid_cols_code)
  have s: "length ps \<le> ceil_sqrt_from (length ps) 0 * ceil_sqrt_from (length ps) 0"
    "0 < ceil_sqrt_from (length ps) 0 \<longrightarrow>
      (ceil_sqrt_from (length ps) 0 - 1) * (ceil_sqrt_from (length ps) 0 - 1) < length ps"
    using ceil_sqrt_from_spec [of 0 "length ps"] by auto
  have pos: "0 < ceil_sqrt_from (length ps) 0" using s(1) assms by (cases "ceil_sqrt_from (length ps) 0") auto
  have "\<exists>g. build_balanced ps d = Some g \<and> 2 ^ height g < 2 * length ps"
    using build_balanced_inner_spec [of ps d] assms by (auto simp: build_balanced_def)
  with c s pos best_fit_bounds [of lg "length ps" a] assms show ?thesis by (simp add: max_def)
qed

theorem layout_bounds_witness: "auto_grid_cols 5 = 3"
proof -
  have "5 \<le> auto_grid_cols 5 * auto_grid_cols 5 \<and> (auto_grid_cols 5 - 1) * (auto_grid_cols 5 - 1) < 5"
    using layout_bounds [of "replicate 5 \<lparr>pane_id = [], session_id = None, host = None\<rparr>" Horizontal demo_ln NaN]
    by simp
  moreover have "auto_grid_cols 5 \<noteq> 0" by (simp add: auto_grid_cols_def)
  moreover have "k \<le> 3" if "(k - 1) * (k - 1) < 5" for k :: nat
  proof (rule ccontr)
    assume "\<not> k \<le> 3"
    then have "3 * 3 \<le> (k - 1) * (k - 1)" by (intro mult_le_mono) simp_all
    with that show False by simp
  qed
  moreover have "3 \<le> k" if "5 \<le> k * k" for k :: nat
  proof (rule ccontr)
    assume "\<not> 3 \<le> k"
    then have "k * k \<le> 2 * 2" by (intro mult_le_mono) simp_all
    with that show False by simp
  qed
  ultimately show ?thesis by (metis le_antisym)
qed

end
