(* ===== verification/Session.thy ===== *)
theory Session
  imports Prelude
begin

text \<open>
  The record the daemon keeps of a session (\<open>crates/daemon/src/session.rs\<close>), the work an agent
  leaves running (\<open>background_work.rs\<close>) and the writers of one record: the summary ring, the
  recent actions, the status, the agent inside a shell and a held turn end.

  Times are integers: nanoseconds since the Unix epoch. A handle (PTY, headless child, rendered
  screen) is modelled by whether the record holds one. The fields that no modelled operation reads
  or writes (members, metrics but the activity stamp, appearance, sizes, \dots) are left out.
\<close>

section \<open>Data\<close>

datatype SessionStatus = Spawning | Idle | Working | AwaitingInput | Stopped | Error

datatype SessionMode = Interactive | Headless | PlainShell

record PendingQuestion =
  question :: string
  header :: string
  question_options :: "string list"
  option_descriptions :: "string list"
  multi_select :: bool

datatype PendingInput =
    Question "PendingQuestion list"
  | Permission string string
  | PlanApproval "string option"
  | Other string
  | UnknownInput

datatype AlertKind = NeedsAnswer | WorkingUpdate | DoneWaiting | UnknownAlert

datatype SummarySource = Model | Template | UnknownSource

record SummaryLine =
  line_text :: string
  line_at :: int
  line_source :: SummarySource
  provisional :: bool

record SessionSummary =
  summary_kind :: "AlertKind option"
  headline :: string
  summary_lines :: "SummaryLine list"
  updated_at :: int
  summary_source :: SummarySource

record TurnAlert =
  alert_kind :: "AlertKind option"
  notification :: string
  alert_source :: SummarySource

record TurnEnd =
  end_time :: nat
  end_background :: bool
  end_alert :: "TurnAlert option"
  held_at :: int

datatype StopTaskKind = ShellTask "string option" | SubagentTask "string option" | OtherTask string

record StopTask =
  stop_task_id :: string
  stop_task_kind :: StopTaskKind
  stop_task_description :: string

record StopWakeup =
  stop_wakeup_id :: string
  schedule :: string

record StopWork =
  stop_tasks :: "StopTask list"
  stop_wakeups :: "StopWakeup list"

record WorkTask =
  task_id :: string
  task_kind :: StopTaskKind
  task_description :: string
  since :: int

record WorkWakeup =
  wakeup_id :: string
  fires_at :: "int option"

record BackgroundWork =
  tasks :: "WorkTask list"
  wakeups :: "WorkWakeup list"

datatype OptionValue = OptBool bool | OptText string | OptNull

type_synonym OptionValues = "(string \<times> OptionValue) list"

datatype SessionKind = Single | Workspace | Standalone

record SessionMember =
  member_repo_id :: string
  member_repo_name :: string
  member_branch :: string
  worktree_path :: string

datatype CheckoutStrategy = Carry | Stash | UnknownStrategy

datatype WorktreeReusePolicy = Reuse | RecreateFromBase | RefuseLeftover | UnknownReuse

record PinnedMemberWorktree =
  pin_repo_id :: string
  pin_path :: string

text \<open>
  Where a session runs. A single repo: its id, the branch, its base, whether a worktree is used, the
  checkout answer, the collision answer and the pinned worktree; a workspace: its id, the branch, its
  base, whether worktrees are used, the collision answer and the pins; a standalone folder with extra ones.
\<close>

datatype SpawnTarget =
    SingleTarget string string "string option" bool "CheckoutStrategy option" WorktreeReusePolicy "string option"
  | WorkspaceTarget string string "string option" bool WorktreeReusePolicy "PinnedMemberWorktree list"
  | StandaloneTarget "string option" "string list"

text \<open>What a session was spawned with. A selection is an agent with its options.\<close>

type_synonym AgentSelection = "string \<times> OptionValues"

record SpawnConfig =
  cfg_target :: SpawnTarget
  cfg_mode :: SessionMode
  dangerously_skip_permissions :: bool
  selection :: "AgentSelection option"
  cfg_extra_env :: "(string \<times> string) list"

fun target_uses_worktree :: "SpawnTarget \<Rightarrow> bool" where
  "target_uses_worktree (SingleTarget repo branch base use strategy reuse pin) = use"
| "target_uses_worktree (WorkspaceTarget ws branch base use reuse pins) = use"
| "target_uses_worktree (StandaloneTarget cwd dirs) = False"

record SessionRecord =
  rec_id :: string
  label :: string
  default_label :: string
  user_label :: "string option"
  rec_kind :: SessionKind
  rec_members :: "SessionMember list"
  mode :: SessionMode
  rec_started_at :: int
  status :: SessionStatus
  status_since :: "int option"
  status_seq :: nat
  recent_actions :: "string list"
  last_activity_at :: "int option"
  pty_open :: bool
  headless_open :: bool
  exit_code :: "int option"
  rec_workspace_id :: "string option"
  agent :: string
  terminal_title :: "string option"
  program_name :: "string option"
  current_cwd :: "string option"
  spawn_config :: "SpawnConfig option"
  is_abandoned :: bool
  is_inactive :: bool
  conversation_id :: "string option"
  busy_excluded :: bool
  pending_input :: "PendingInput option"
  last_hook_time :: "nat option"
  hook_driven :: bool
  last_assistant_message :: "string option"
  summary :: "SessionSummary option"
  screen_open :: bool
  background :: bool
  turn_end :: "TurnEnd option"
  work :: BackgroundWork
  agent_in_shell :: bool
  shell_label :: "string option"
  agent_exit_announced :: bool
  hook_agent :: "string option"
  hook_options :: OptionValues
  hook_trusted :: bool

record SessionSnapshot =
  snap_id :: string
  snap_label :: string
  snap_user_label :: "string option"
  snap_status :: SessionStatus
  snap_status_since :: "int option"
  snap_status_seq :: nat
  snap_summary :: "SessionSummary option"
  snap_mode :: SessionMode
  snap_exit_code :: "int option"
  snap_agent :: "string option"
  snap_recent_actions :: "string list"
  is_orphan :: bool
  snap_is_abandoned :: bool
  has_per_session_worktree :: bool
  elevated_authority :: bool
  snap_is_inactive :: bool
  snap_program_name :: "string option"
  snap_terminal_title :: "string option"
  snap_conversation_id :: "string option"
  snap_busy_excluded :: bool
  snap_pending_input :: "PendingInput option"
  snap_background :: bool

datatype AttentionReason = AttAwaitingInput | AttStopped | AttError

datatype SessionEvent =
    Updated SessionSnapshot
  | Removed string
  | Attention string AttentionReason
  | AgentExited string
  | WaitingAlert string "AlertKind option" string SummarySource

section \<open>Summary ring\<close>

definition SUMMARY_RING_MAX_LINES :: nat where "SUMMARY_RING_MAX_LINES = 12"
definition SUMMARY_RING_MAX_AGE :: int where "SUMMARY_RING_MAX_AGE = 2 * 3600 * 10 ^ 9"
definition SNAPSHOT_SUMMARY_LINES :: nat where "SNAPSHOT_SUMMARY_LINES = 2"

definition prune_summary_ring :: "SummaryLine list \<Rightarrow> int \<Rightarrow> SummaryLine list" where
  "prune_summary_ring ls now =
     take SUMMARY_RING_MAX_LINES (filter (\<lambda>l. now - SUMMARY_RING_MAX_AGE \<le> line_at l) ls)"

definition restored_summary :: "SessionSummary option \<Rightarrow> int \<Rightarrow> SessionSummary option" where
  "restored_summary s now =
     (case s of
        None \<Rightarrow> None
      | Some sm \<Rightarrow>
          let ls = prune_summary_ring (summary_lines sm) now
          in if ls = [] then None else Some (sm\<lparr>summary_lines := ls\<rparr>))"

definition persisted_summary :: "SessionSummary \<Rightarrow> SessionSummary option" where
  "persisted_summary sm =
     (let ls = filter (\<lambda>l. \<not> provisional l) (summary_lines sm)
      in if ls = [] then None else Some (sm\<lparr>summary_lines := ls\<rparr>))"

definition first_provisional :: "SummaryLine list \<Rightarrow> bool" where
  "first_provisional ls = (case ls of [] \<Rightarrow> False | l # _ \<Rightarrow> provisional l)"

text \<open>The ring without a provisional line at its front.\<close>

definition settled :: "SummaryLine list \<Rightarrow> SummaryLine list" where
  "settled ls = (if first_provisional ls then tl ls else ls)"

definition push_summary_line ::
    "SessionRecord \<Rightarrow> AlertKind option \<Rightarrow> string \<Rightarrow> SummaryLine \<Rightarrow> int \<Rightarrow> SessionRecord" where
  "push_summary_line r kind hl sl now =
     (let ls = (case summary r of None \<Rightarrow> [] | Some sm \<Rightarrow> summary_lines sm)
      in r\<lparr>summary := Some \<lparr>summary_kind = kind, headline = hl,
            summary_lines = prune_summary_ring (sl # settled ls) now,
            updated_at = now, summary_source = line_source sl\<rparr>\<rparr>)"

definition push_provisional_line :: "SessionRecord \<Rightarrow> SummaryLine \<Rightarrow> int \<Rightarrow> SessionRecord" where
  "push_provisional_line r sl now =
     (let pl = sl\<lparr>provisional := True\<rparr>;
          sm = (case summary r of
                  Some sm \<Rightarrow> sm
                | None \<Rightarrow> \<lparr>summary_kind = None, headline = [], summary_lines = [], updated_at = now,
                    summary_source = line_source pl\<rparr>)
      in r\<lparr>summary := Some (sm\<lparr>summary_lines :=
            prune_summary_ring (pl # settled (summary_lines sm)) now\<rparr>)\<rparr>)"

definition drop_provisional_line :: "SessionRecord \<Rightarrow> bool \<times> SessionRecord" where
  "drop_provisional_line r =
     (case summary r of
        None \<Rightarrow> (False, r)
      | Some sm \<Rightarrow>
          if \<not> first_provisional (summary_lines sm) then (False, r)
          else let ls = tl (summary_lines sm)
               in (True, r\<lparr>summary := (if ls = [] then None else Some (sm\<lparr>summary_lines := ls\<rparr>))\<rparr>))"

definition stop_line_stamp :: "SessionRecord \<Rightarrow> int option" where
  "stop_line_stamp r =
     (case summary r of
        None \<Rightarrow> None
      | Some sm \<Rightarrow> if list_ex (\<lambda>l. \<not> provisional l) (summary_lines sm) then Some (updated_at sm) else None)"

section \<open>Recent actions and status\<close>

definition LAST_MESSAGE_MAX_BYTES :: nat where "LAST_MESSAGE_MAX_BYTES = 8 * 1024"

definition RECENT_ACTIONS_CAP :: nat where "RECENT_ACTIONS_CAP = 200"
definition RECENT_ACTIONS_TAIL_ENTRIES :: nat where "RECENT_ACTIONS_TAIL_ENTRIES = 10"
definition RECENT_ACTIONS_TAIL_BYTE_CAP :: nat where "RECENT_ACTIONS_TAIL_BYTE_CAP = 1024"

definition push_recent_action :: "SessionRecord \<Rightarrow> int \<Rightarrow> string \<Rightarrow> SessionRecord" where
  "push_recent_action r now action =
     (let acts = recent_actions r @ [action]
      in r\<lparr>recent_actions :=
             (if RECENT_ACTIONS_CAP < length acts then drop (length acts - RECENT_ACTIONS_CAP) acts else acts),
           last_activity_at := Some now\<rparr>)"

text \<open>\<open>while !tail.is_empty() && total > cap { tail.remove(0) }\<close>\<close>

fun drop_while_over :: "nat \<Rightarrow> string list \<Rightarrow> string list" where
  "drop_while_over cap [] = []"
| "drop_while_over cap (s # tail) =
     (if cap < sum_list (map length (s # tail)) then drop_while_over cap tail else s # tail)"

definition trim_recent_tail :: "string list \<Rightarrow> string list" where
  "trim_recent_tail actions =
     drop_while_over RECENT_ACTIONS_TAIL_BYTE_CAP
       (drop (length actions - RECENT_ACTIONS_TAIL_ENTRIES) actions)"

definition apply_status :: "SessionRecord \<Rightarrow> int \<Rightarrow> SessionStatus \<Rightarrow> bool \<times> SessionRecord" where
  "apply_status r now next =
     (if status r = next then (False, r)
      else let r' = r\<lparr>status := next, background := False\<rparr>
           in if next = AwaitingInput then (True, push_recent_action r' now ''awaiting input'')
              else (False, r'))"

definition apply_watcher_status :: "SessionRecord \<Rightarrow> int \<Rightarrow> SessionStatus \<Rightarrow> bool \<times> SessionRecord" where
  "apply_watcher_status r now next =
     (let was_awaiting = (status r = AwaitingInput)
      in (case apply_status r now next of (entered, r') \<Rightarrow>
            if was_awaiting \<and> status r' \<noteq> AwaitingInput then (entered, r'\<lparr>pending_input := None\<rparr>)
            else (entered, r')))"

section \<open>Background work\<close>

text \<open>
  The local calendar (\<open>chrono\<close>) is a parameter: the day of an instant, the next day, and the
  instant of a local time, which a spring-forward gap can leave without one. Days are numbers.
\<close>

record Zone =
  date_naive :: "int \<Rightarrow> int"
  succ_opt :: "int \<Rightarrow> int option"
  local_time :: "int \<Rightarrow> nat \<Rightarrow> nat \<Rightarrow> int option"

definition OVERDUE_GRACE_SECS :: int where "OVERDUE_GRACE_SECS = 60 * 60"

definition timestamp :: "int \<Rightarrow> int" where "timestamp t = t div 10 ^ 9"

definition ascii_digit :: "char \<Rightarrow> bool" where
  "ascii_digit c = (48 \<le> (of_char c :: nat) \<and> (of_char c :: nat) \<le> 57)"

definition decimal :: "string \<Rightarrow> nat" where
  "decimal s = foldl (\<lambda>n c. 10 * n + ((of_char c :: nat) - 48)) 0 s"

text \<open>A number above \<open>u32::MAX\<close> fails to parse, and every \<open>max\<close> used is far below it.\<close>

definition number :: "string \<Rightarrow> nat \<Rightarrow> nat option" where
  "number field mx =
     (if field = [] \<or> \<not> list_all ascii_digit field then None
      else if decimal field < 2 ^ 32 \<and> decimal field \<le> mx then Some (decimal field) else None)"

text \<open>\<open>split_whitespace\<close>: the maximal runs between white-space characters.\<close>

function split_whitespace :: "string \<Rightarrow> string \<Rightarrow> string list" where
  "split_whitespace word s =
     (case strip_one ws_encodings s of
        Some rest \<Rightarrow> (if word = [] then [] else [rev word]) @ split_whitespace [] rest
      | None \<Rightarrow>
          (case s of
             [] \<Rightarrow> (if word = [] then [] else [rev word])
           | c # rest \<Rightarrow> split_whitespace (c # word) rest))"
  by pat_completeness auto
termination
  by (relation "measure (\<lambda>(word, s). length s)") (auto dest: strip_one_shorter)

declare split_whitespace.simps [simp del]

definition next_daily :: "Zone \<Rightarrow> string \<Rightarrow> int \<Rightarrow> int option" where
  "next_daily zone sched after =
     (case split_whitespace [] sched of
        [m, h, a, b, c] \<Rightarrow>
          if [a, b, c] \<noteq> [''*'', ''*'', ''*''] then None
          else (case (number m 59, number h 23) of
                  (Some minute, Some hour) \<Rightarrow>
                    (case local_time zone (date_naive zone after) hour minute of
                       None \<Rightarrow> None
                     | Some candidate \<Rightarrow>
                         if OVERDUE_GRACE_SECS < timestamp after - timestamp candidate
                         then (case succ_opt zone (date_naive zone after) of
                                 None \<Rightarrow> None
                               | Some next \<Rightarrow> local_time zone next hour minute)
                         else Some candidate)
                | _ \<Rightarrow> None)
      | _ \<Rightarrow> None)"

definition apply_stop :: "Zone \<Rightarrow> BackgroundWork \<Rightarrow> StopWork \<Rightarrow> int \<Rightarrow> BackgroundWork" where
  "apply_stop zone w stop now =
     \<lparr>tasks = map (\<lambda>t.
         \<lparr>task_id = stop_task_id t, task_kind = stop_task_kind t,
          task_description = stop_task_description t,
          since = (case List.find (\<lambda>held. task_id held = stop_task_id t) (tasks w) of
                     None \<Rightarrow> now | Some held \<Rightarrow> since held)\<rparr>) (stop_tasks stop),
      wakeups = map (\<lambda>u.
         \<lparr>wakeup_id = stop_wakeup_id u,
          fires_at = (case List.find (\<lambda>held. wakeup_id held = stop_wakeup_id u) (wakeups w) of
                        None \<Rightarrow> next_daily zone (schedule u) now | Some held \<Rightarrow> fires_at held)\<rparr>)
         (stop_wakeups stop)\<rparr>"

fun min_of :: "int list \<Rightarrow> int option" where
  "min_of [] = None"
| "min_of (x # xs) = (case min_of xs of None \<Rightarrow> Some x | Some y \<Rightarrow> Some (min x y))"

definition wakeup_at :: "BackgroundWork \<Rightarrow> int option" where
  "wakeup_at w = min_of (List.map_filter fires_at (wakeups w))"

definition no_work :: BackgroundWork where "no_work = \<lparr>tasks = [], wakeups = []\<rparr>"

section \<open>The agent inside a shell\<close>

text \<open>
  The agent plug-ins are code of other crates behind a trait object: \<open>tags\<close> gives the tag of a
  registered agent's descriptor.
\<close>

datatype ShownAgent = Ignored | Promoted | Restarted "string option" | Redetected

definition UNNAMED_SHELL_LABEL :: string where "UNNAMED_SHELL_LABEL = ''shell''"

definition hook_plugin_agent :: "SessionRecord \<Rightarrow> string option" where
  "hook_plugin_agent r = (if mode r = PlainShell then hook_agent r else Some (agent r))"

definition wire_agent :: "SessionRecord \<Rightarrow> string option" where
  "wire_agent r = (if mode r \<noteq> PlainShell then Some (agent r) else None)"

definition shell_hosted :: "SessionRecord \<Rightarrow> bool" where
  "shell_hosted r = (mode r = PlainShell \<or> agent_in_shell r)"

definition promoted_shell :: "SessionRecord \<Rightarrow> bool" where
  "promoted_shell r = (mode r = PlainShell \<and> agent_in_shell r)"

definition snapshot_agent :: "SessionRecord \<Rightarrow> string option" where
  "snapshot_agent r = (if promoted_shell r then Some (agent r) else wire_agent r)"

definition end_agent_in_shell :: "SessionRecord \<Rightarrow> bool \<times> SessionRecord" where
  "end_agent_in_shell r =
     (let r1 = r\<lparr>work := no_work\<rparr>
      in if \<not> agent_in_shell r1 \<or> agent_exit_announced r1 then (False, r1)
         else let r2 = r1\<lparr>agent_exit_announced := True\<rparr>
              in (True, case shell_label r2 of
                          Some shell \<Rightarrow> r2\<lparr>program_name := Some shell\<rparr>
                        | None \<Rightarrow> r2))"

definition start_agent_in_shell :: "(string \<rightharpoonup> string) \<Rightarrow> SessionRecord \<Rightarrow> SessionRecord" where
  "start_agent_in_shell tags r =
     (if \<not> agent_in_shell r then r
      else let r1 = r\<lparr>agent_exit_announced := False\<rparr>
           in (case tags (agent r1) of
                 Some tag \<Rightarrow> r1\<lparr>program_name := Some tag\<rparr>
               | None \<Rightarrow> r1))"

definition agent_shown_in_plain_shell ::
    "(string \<rightharpoonup> string) \<Rightarrow> SessionRecord \<Rightarrow> ShownAgent \<times> SessionRecord" where
  "agent_shown_in_plain_shell tags r =
     (if mode r \<noteq> PlainShell then (Ignored, r)
      else if agent_in_shell r then
        let ended = (shell_label r \<noteq> None \<and> program_name r = shell_label r);
            previous = (if ended then conversation_id r else None);
            r1 = (if ended then r\<lparr>conversation_id := None\<rparr> else r)
        in (if ended then Restarted previous else Redetected, start_agent_in_shell tags r1)
      else if hook_agent r \<noteq> None \<or> hook_driven r then (Ignored, r)
      else
        (Promoted, start_agent_in_shell tags
           (r\<lparr>agent_in_shell := True,
              shell_label := Some (case program_name r of Some p \<Rightarrow> p | None \<Rightarrow> UNNAMED_SHELL_LABEL),
              hook_agent := Some (agent r)\<rparr>)))"

section \<open>Snapshots\<close>

definition snapshot :: "SessionRecord \<Rightarrow> SessionSnapshot" where
  "snapshot r =
     \<lparr>snap_id = rec_id r, snap_label = label r, snap_user_label = user_label r, snap_status = status r,
      snap_status_since = status_since r, snap_status_seq = status_seq r,
      snap_summary = map_option (\<lambda>sm. sm\<lparr>summary_lines := take SNAPSHOT_SUMMARY_LINES (summary_lines sm)\<rparr>) (summary r),
      snap_mode = (if promoted_shell r then Interactive else mode r),
      snap_exit_code = exit_code r, snap_agent = snapshot_agent r,
      snap_recent_actions = recent_actions r,
      is_orphan = (\<not> pty_open r \<and> \<not> headless_open r \<and> status r \<notin> {Stopped, Error}),
      snap_is_abandoned = is_abandoned r,
      has_per_session_worktree =
        (case spawn_config r of None \<Rightarrow> False | Some cfg \<Rightarrow> target_uses_worktree (cfg_target cfg)),
      elevated_authority =
        (case spawn_config r of None \<Rightarrow> False | Some cfg \<Rightarrow> dangerously_skip_permissions cfg),
      snap_is_inactive = is_inactive r, snap_program_name = program_name r, snap_terminal_title = terminal_title r,
      snap_conversation_id = conversation_id r, snap_busy_excluded = busy_excluded r,
      snap_pending_input = pending_input r, snap_background = background r\<rparr>"

section \<open>A held turn end meets a status change\<close>

definition alert_event :: "string \<Rightarrow> TurnAlert \<Rightarrow> SessionEvent" where
  "alert_event sid a = WaitingAlert sid (alert_kind a) (notification a) (alert_source a)"

definition settle_turn_end :: "SessionRecord \<Rightarrow> string \<Rightarrow> SessionEvent option \<times> SessionRecord" where
  "settle_turn_end r sid =
     (case turn_end r of
        None \<Rightarrow> (None, r)
      | Some held \<Rightarrow>
          let r1 = r\<lparr>turn_end := None\<rparr>
          in if status r1 \<noteq> Idle then (None, r1)
             else (map_option (alert_event sid) (end_alert held), r1\<lparr>background := end_background held\<rparr>))"

section \<open>Facts about the writers\<close>

lemma prune_summary_ring_spec:
  "length (prune_summary_ring ls now) \<le> SUMMARY_RING_MAX_LINES"
  "l \<in> set (prune_summary_ring ls now) \<Longrightarrow> l \<in> set ls \<and> now - SUMMARY_RING_MAX_AGE \<le> line_at l"
  by (auto simp: prune_summary_ring_def dest: in_set_takeD)

lemma prune_summary_ring_keeps_first:
  "now - SUMMARY_RING_MAX_AGE \<le> line_at l \<Longrightarrow>
     prune_summary_ring (l # ls) now =
       l # take (SUMMARY_RING_MAX_LINES - 1) (filter (\<lambda>l. now - SUMMARY_RING_MAX_AGE \<le> line_at l) ls)"
  by (simp add: prune_summary_ring_def SUMMARY_RING_MAX_LINES_def take_Cons')

lemma settled_Cons [simp]: "settled (l # ls) = (if provisional l then ls else l # ls)"
  by (simp add: settled_def first_provisional_def)

lemma settled_Nil [simp]: "settled [] = []"
  by (simp add: settled_def first_provisional_def)

text \<open>
  Each writer of a record is characterised by the fields it leaves alone; the rules are collected in
  \<open>record_simps\<close>.
\<close>

lemma push_recent_action_fields [record_simps]:
  "recent_actions (push_recent_action r now a) = lastn RECENT_ACTIONS_CAP (recent_actions r @ [a])"
  "last_activity_at (push_recent_action r now a) = Some now"
  "status (push_recent_action r now a) = status r"
  "status_since (push_recent_action r now a) = status_since r"
  "status_seq (push_recent_action r now a) = status_seq r"
  "pending_input (push_recent_action r now a) = pending_input r"
  "hook_driven (push_recent_action r now a) = hook_driven r"
  "last_hook_time (push_recent_action r now a) = last_hook_time r"
  "conversation_id (push_recent_action r now a) = conversation_id r"
  "background (push_recent_action r now a) = background r"
  "turn_end (push_recent_action r now a) = turn_end r"
  "summary (push_recent_action r now a) = summary r"
  "last_assistant_message (push_recent_action r now a) = last_assistant_message r"
  "screen_open (push_recent_action r now a) = screen_open r"
  "mode (push_recent_action r now a) = mode r"
  "agent (push_recent_action r now a) = agent r"
  "agent_in_shell (push_recent_action r now a) = agent_in_shell r"
  "shell_label (push_recent_action r now a) = shell_label r"
  "hook_agent (push_recent_action r now a) = hook_agent r"
  "rec_id (push_recent_action r now a) = rec_id r"
  "agent_exit_announced (push_recent_action r now a) = agent_exit_announced r"
  "program_name (push_recent_action r now a) = program_name r"
  "pty_open (push_recent_action r now a) = pty_open r"
  "headless_open (push_recent_action r now a) = headless_open r"
  "exit_code (push_recent_action r now a) = exit_code r"
  "is_abandoned (push_recent_action r now a) = is_abandoned r"
  "is_inactive (push_recent_action r now a) = is_inactive r"
  by (auto simp: push_recent_action_def Let_def lastn_def)

interpretation recent: bounded_log "\<lambda>r. push_recent_action r now" recent_actions RECENT_ACTIONS_CAP for now
  by unfold_locales (simp add: record_simps)

lemma apply_status_fields [record_simps]:
  "status (snd (apply_status r now st)) = st"
  "background (snd (apply_status r now st)) = (background r \<and> status r = st)"
  "turn_end (snd (apply_status r now st)) = turn_end r"
  "pending_input (snd (apply_status r now st)) = pending_input r"
  "status_since (snd (apply_status r now st)) = status_since r"
  "status_seq (snd (apply_status r now st)) = status_seq r"
  "hook_driven (snd (apply_status r now st)) = hook_driven r"
  "last_hook_time (snd (apply_status r now st)) = last_hook_time r"
  "conversation_id (snd (apply_status r now st)) = conversation_id r"
  "summary (snd (apply_status r now st)) = summary r"
  "last_assistant_message (snd (apply_status r now st)) = last_assistant_message r"
  "screen_open (snd (apply_status r now st)) = screen_open r"
  "mode (snd (apply_status r now st)) = mode r"
  "agent (snd (apply_status r now st)) = agent r"
  "agent_in_shell (snd (apply_status r now st)) = agent_in_shell r"
  "shell_label (snd (apply_status r now st)) = shell_label r"
  "hook_agent (snd (apply_status r now st)) = hook_agent r"
  "rec_id (snd (apply_status r now st)) = rec_id r"
  "agent_exit_announced (snd (apply_status r now st)) = agent_exit_announced r"
  "program_name (snd (apply_status r now st)) = program_name r"
  "pty_open (snd (apply_status r now st)) = pty_open r"
  "headless_open (snd (apply_status r now st)) = headless_open r"
  "exit_code (snd (apply_status r now st)) = exit_code r"
  "recent_actions (snd (apply_status r now st)) =
     (if st = AwaitingInput \<and> status r \<noteq> AwaitingInput
      then lastn RECENT_ACTIONS_CAP (recent_actions r @ [''awaiting input'']) else recent_actions r)"
  by (auto simp: apply_status_def Let_def push_recent_action_fields)

lemma apply_status_entered: "fst (apply_status r now st) \<longleftrightarrow> st = AwaitingInput \<and> status r \<noteq> AwaitingInput"
  by (auto simp: apply_status_def Let_def)

lemma apply_status_same [simp]: "status r = st \<Longrightarrow> apply_status r now st = (False, r)"
  by (simp add: apply_status_def)

lemma drop_while_over_spec:
  "\<exists>pre. ss = pre @ drop_while_over cap ss" "sum_list (map length (drop_while_over cap ss)) \<le> cap"
proof -
  show "\<exists>pre. ss = pre @ drop_while_over cap ss"
  proof (induction ss)
    case (Cons s ss)
    then obtain pre where "ss = pre @ drop_while_over cap ss" by blast
    then have "s # ss = (s # pre) @ drop_while_over cap ss" by simp
    then show ?case by (metis append_Nil drop_while_over.simps(2))
  qed simp
  show "sum_list (map length (drop_while_over cap ss)) \<le> cap" by (induction ss) auto
qed

text \<open>The tail is the longest suffix of the last ten entries that fits.\<close>

lemma drop_while_over_longest:
  "ss = pre @ post \<Longrightarrow> sum_list (map length post) \<le> cap \<Longrightarrow> length post \<le> length (drop_while_over cap ss)"
proof (induction ss arbitrary: pre)
  case (Cons s ss)
  show ?case
  proof (cases pre)
    case (Cons p pre')
    with Cons.prems Cons.IH [of pre'] show ?thesis by auto
  qed (use Cons.prems in auto)
qed simp

end
