(* ===== verification/Registry.thy ===== *)
theory Registry
  imports Session
begin

text \<open>
  The session registry (\<open>SessionRegistry\<close> of \<open>crates/daemon/src/session.rs\<close>): the one place
  where a record changes, what every change stamps and announces, and the sidecar that mirrors a
  record on disk, with the gate that orders its writes and its deletion.
\<close>

section \<open>State\<close>

text \<open>The sidecar fields that mirror the record (\<open>orphan::RecordMirror\<close>).\<close>

record RecordMirror =
  mir_recent_actions_tail :: "string list"
  mir_status :: SessionStatus
  mir_status_since :: "int option"
  mir_status_seq :: nat
  mir_pending_input :: "PendingInput option"
  mir_terminal_title :: "string option"
  mir_current_cwd :: "string option"
  mir_default_label :: string
  mir_user_label :: "string option"
  mir_label :: string
  mir_conversation_id :: "string option"
  mir_busy_excluded :: bool
  mir_program_name :: "string option"
  mir_agent_in_shell :: bool
  mir_shell_label :: "string option"
  mir_hook_agent :: "string option"

text \<open>
  \<open>sidecar_gates\<close> holds each gate's \<open>deleted\<close> flag; \<open>sidecars\<close> is the mirrored part of the
  \<open>meta.json\<close> files and \<open>summary_files\<close> the \<open>summary.json\<close> files beside them; \<open>activity\<close> is the status-change log, oldest first.
\<close>

record Registry =
  by_id :: "string \<rightharpoonup> SessionRecord"
  sidecar_gates :: "string \<rightharpoonup> bool"
  sidecars :: "string \<rightharpoonup> RecordMirror"
  summary_files :: "string \<rightharpoonup> SessionSummary"
  activity :: "(string \<times> int \<times> SessionStatus) list"

text \<open>\<open>persists\<close>: the registry has directories; \<open>disk_ok\<close>: the file write of this call succeeds.\<close>

record Disk =
  persists :: bool
  disk_ok :: bool

definition record_mirror :: "SessionRecord \<Rightarrow> RecordMirror" where
  "record_mirror r =
     \<lparr>mir_recent_actions_tail = trim_recent_tail (recent_actions r), mir_status = status r,
      mir_status_since = status_since r, mir_status_seq = status_seq r,
      mir_pending_input = pending_input r, mir_terminal_title = terminal_title r,
      mir_current_cwd = current_cwd r, mir_default_label = default_label r,
      mir_user_label = user_label r, mir_label = label r, mir_conversation_id = conversation_id r,
      mir_busy_excluded = busy_excluded r, mir_program_name = program_name r,
      mir_agent_in_shell = agent_in_shell r, mir_shell_label = shell_label r,
      mir_hook_agent = hook_agent r\<rparr>"

section \<open>Sidecars\<close>

text \<open>
  Run \<open>write\<close> with the record under the session's gate, unless the gate is closed or the record
  is gone; the gate is made on first use and forgotten again for a record that is gone.
\<close>

definition with_sidecar_gate ::
    "Registry \<Rightarrow> string \<Rightarrow> (SessionRecord \<Rightarrow> Registry \<Rightarrow> Registry) \<Rightarrow> Registry" where
  "with_sidecar_gate reg sid write =
     (let reg1 = (case sidecar_gates reg sid of
                    None \<Rightarrow> reg\<lparr>sidecar_gates := (sidecar_gates reg)(sid \<mapsto> False)\<rparr>
                  | Some _ \<Rightarrow> reg)
      in if sidecar_gates reg1 sid = Some True then reg1
         else (case by_id reg1 sid of
                 None \<Rightarrow> reg1\<lparr>sidecar_gates := (sidecar_gates reg1)(sid := None)\<rparr>
               | Some r \<Rightarrow> write r reg1))"

text \<open>A session without a sidecar on disk is left without one; a failed write is logged.\<close>

definition sync_record :: "Disk \<Rightarrow> string \<Rightarrow> SessionRecord \<Rightarrow> Registry \<Rightarrow> Registry" where
  "sync_record d sid r reg =
     (case sidecars reg sid of
        None \<Rightarrow> reg
      | Some m \<Rightarrow>
          if m = record_mirror r \<or> \<not> disk_ok d then reg
          else reg\<lparr>sidecars := (sidecars reg)(sid \<mapsto> record_mirror r)\<rparr>)"

definition sync_sidecar :: "Disk \<Rightarrow> Registry \<Rightarrow> string \<Rightarrow> Registry" where
  "sync_sidecar d reg sid =
     (if \<not> persists d then reg else with_sidecar_gate reg sid (sync_record d sid))"

definition write_sidecar :: "Disk \<Rightarrow> Registry \<Rightarrow> string \<Rightarrow> RecordMirror \<Rightarrow> Registry" where
  "write_sidecar d reg sid meta =
     (if \<not> persists d then reg
      else with_sidecar_gate reg sid (\<lambda>r reg.
        sync_record d sid r (if disk_ok d then reg\<lparr>sidecars := (sidecars reg)(sid \<mapsto> meta)\<rparr> else reg)))"

text \<open>A file that cannot be removed is logged and left.\<close>

definition delete_sidecar_files :: "Disk \<Rightarrow> Registry \<Rightarrow> string \<Rightarrow> Registry" where
  "delete_sidecar_files d reg sid =
     (if disk_ok d
      then reg\<lparr>sidecars := (sidecars reg)(sid := None), summary_files := (summary_files reg)(sid := None)\<rparr>
      else reg)"

definition delete_sidecar :: "Disk \<Rightarrow> Registry \<Rightarrow> string \<Rightarrow> Registry" where
  "delete_sidecar d reg sid =
     (if \<not> persists d then reg
      else if by_id reg sid = None then delete_sidecar_files d reg sid
      else delete_sidecar_files d (reg\<lparr>sidecar_gates := (sidecar_gates reg)(sid \<mapsto> True)\<rparr>) sid)"

text \<open>\<open>summary.json\<close> is written only beside an existing \<open>meta.json\<close>.\<close>

definition sync_summary :: "Disk \<Rightarrow> Registry \<Rightarrow> string \<Rightarrow> Registry" where
  "sync_summary d reg sid =
     (if \<not> persists d then reg
      else with_sidecar_gate reg sid (\<lambda>r reg.
        (case Option.bind (summary r) persisted_summary of
           None \<Rightarrow> reg
         | Some sm \<Rightarrow>
             if sidecars reg sid = None \<or> \<not> disk_ok d then reg
             else reg\<lparr>summary_files := (summary_files reg)(sid \<mapsto> sm)\<rparr>)))"

definition restore_summary :: "Disk \<Rightarrow> int \<Rightarrow> Registry \<Rightarrow> string \<Rightarrow> SessionSummary option" where
  "restore_summary d now reg sid =
     (if \<not> persists d then None else restored_summary (summary_files reg sid) now)"

section \<open>Inserting and removing\<close>

definition insert_pending :: "Registry \<Rightarrow> SessionRecord \<Rightarrow> Registry" where
  "insert_pending reg r = reg\<lparr>by_id := (by_id reg)(rec_id r \<mapsto> r)\<rparr>"

definition publish_from :: "Disk \<Rightarrow> int \<Rightarrow> Registry \<Rightarrow> SessionRecord \<Rightarrow> SessionEvent list \<times> Registry" where
  "publish_from d now reg r =
     ([Updated (snapshot r)],
      if persists d
      then reg\<lparr>activity := activity reg @
             [(rec_id r, case status_since r of None \<Rightarrow> now | Some t \<Rightarrow> t, status r)]\<rparr>
      else reg)"

definition discard :: "Registry \<Rightarrow> string \<Rightarrow> Registry" where
  "discard reg sid =
     reg\<lparr>by_id := (by_id reg)(sid := None), sidecar_gates := (sidecar_gates reg)(sid := None)\<rparr>"

definition remove :: "Registry \<Rightarrow> string \<Rightarrow> SessionEvent list \<times> Registry" where
  "remove reg sid =
     (if by_id reg sid = None then [] else [Removed sid],
      reg\<lparr>by_id := (by_id reg)(sid := None), sidecar_gates := (sidecar_gates reg)(sid := None)\<rparr>)"

section \<open>Updates\<close>

text \<open>
  What an update made under the record's lock: the snapshot, whether the record entered
  \<open>Error\<close>, the stamped status change, and the event to send after the \<open>Updated\<close>.
\<close>

record Outcome =
  out_snap :: SessionSnapshot
  out_entered_error :: bool
  out_change :: "(int \<times> SessionStatus) option"
  out_follow_up :: "SessionEvent option"

definition turn_ended_without_stop_line :: "bool \<Rightarrow> SessionStatus \<Rightarrow> SessionStatus \<Rightarrow> bool" where
  "turn_ended_without_stop_line stop_line_due was now_status =
     (if was \<notin> {Working, AwaitingInput} then False
      else (case now_status of
              Stopped \<Rightarrow> True
            | Error \<Rightarrow> True
            | Idle \<Rightarrow> \<not> stop_line_due
            | _ \<Rightarrow> False))"

definition saturating_inc :: "nat \<Rightarrow> nat" where
  "saturating_inc n = min (n + 1) (2 ^ 64 - 1)"

definition stamp_change ::
    "bool \<Rightarrow> int \<Rightarrow> string \<Rightarrow> SessionStatus \<Rightarrow> SessionRecord \<Rightarrow> SessionEvent option \<times> SessionRecord" where
  "stamp_change stop_line_due now sid was r =
     (case settle_turn_end (r\<lparr>status_since := Some now, status_seq := saturating_inc (status_seq r)\<rparr>) sid of
        (alert, r1) \<Rightarrow>
          (alert, if turn_ended_without_stop_line stop_line_due was (status r1)
                  then snd (drop_provisional_line r1) else r1))"

definition update_locked ::
    "bool \<Rightarrow> int \<Rightarrow> string \<Rightarrow> (SessionRecord \<Rightarrow> SessionEvent option option \<times> SessionRecord)
      \<Rightarrow> SessionRecord \<Rightarrow> Outcome option \<times> SessionRecord" where
  "update_locked stop_line_due now sid f r =
     (case f r of
        (None, r1) \<Rightarrow> (None, r1)
      | (Some follow_up, r1) \<Rightarrow>
          let changed = (status r1 \<noteq> status r);
              (alert, r2) = (if changed then stamp_change stop_line_due now sid (status r) r1 else (None, r1))
          in (Some \<lparr>out_snap = snapshot r2,
                out_entered_error = (status r \<noteq> Error \<and> status r2 = Error),
                out_change = (if changed then Some (now, status r2) else None),
                out_follow_up = (case follow_up of Some e \<Rightarrow> Some e | None \<Rightarrow> alert)\<rparr>, r2))"

definition finish_update :: "Disk \<Rightarrow> string \<Rightarrow> Outcome \<Rightarrow> Registry \<Rightarrow> SessionEvent list \<times> Registry" where
  "finish_update d sid out reg =
     (let reg1 = (case out_change out of
                    Some (t, st) \<Rightarrow> if persists d then reg\<lparr>activity := activity reg @ [(sid, t, st)]\<rparr> else reg
                  | None \<Rightarrow> reg)
      in ([Updated (out_snap out)]
            @ (case out_follow_up out of None \<Rightarrow> [] | Some e \<Rightarrow> [e])
            @ (if out_entered_error out then [Attention sid AttError] else []),
          sync_sidecar d reg1 sid))"

text \<open>
  \<open>stop_line_due\<close> is what the turn pipeline answers for the session, asked under the record's
  lock.
\<close>

definition update_inner ::
    "Disk \<Rightarrow> (string \<Rightarrow> bool) \<Rightarrow> int \<Rightarrow> Registry \<Rightarrow> string
      \<Rightarrow> (SessionRecord \<Rightarrow> SessionEvent option option \<times> SessionRecord)
      \<Rightarrow> bool \<times> SessionEvent list \<times> Registry" where
  "update_inner d stop_line_due now reg sid f =
     (case by_id reg sid of
        None \<Rightarrow> (False, [], reg)
      | Some r \<Rightarrow>
          (case update_locked (stop_line_due sid) now sid f r of
             (None, r') \<Rightarrow> (True, [], reg\<lparr>by_id := (by_id reg)(sid \<mapsto> r')\<rparr>)
           | (Some out, r') \<Rightarrow>
               (case finish_update d sid out (reg\<lparr>by_id := (by_id reg)(sid \<mapsto> r')\<rparr>) of
                  (evs, reg') \<Rightarrow> (True, evs, reg'))))"

text \<open>The entry points: an unconditional update, one that may change nothing, one with a follow-up.\<close>

definition update ::
    "Disk \<Rightarrow> (string \<Rightarrow> bool) \<Rightarrow> int \<Rightarrow> Registry \<Rightarrow> string \<Rightarrow> (SessionRecord \<Rightarrow> SessionRecord)
      \<Rightarrow> bool \<times> SessionEvent list \<times> Registry" where
  "update d due now reg sid f = update_inner d due now reg sid (\<lambda>r. (Some None, f r))"

definition update_if_changed ::
    "Disk \<Rightarrow> (string \<Rightarrow> bool) \<Rightarrow> int \<Rightarrow> Registry \<Rightarrow> string \<Rightarrow> (SessionRecord \<Rightarrow> bool \<times> SessionRecord)
      \<Rightarrow> bool \<times> SessionEvent list \<times> Registry" where
  "update_if_changed d due now reg sid f =
     update_inner d due now reg sid (\<lambda>r. case f r of (ch, r') \<Rightarrow> (if ch then Some None else None, r'))"

definition update_then ::
    "Disk \<Rightarrow> (string \<Rightarrow> bool) \<Rightarrow> int \<Rightarrow> Registry \<Rightarrow> string
      \<Rightarrow> (SessionRecord \<Rightarrow> SessionEvent option \<times> SessionRecord)
      \<Rightarrow> bool \<times> SessionEvent list \<times> Registry" where
  "update_then d due now reg sid f =
     update_inner d due now reg sid (\<lambda>r. case f r of (ev, r') \<Rightarrow> (Some ev, r'))"

definition clear_prompt :: "(SessionRecord \<Rightarrow> bool) \<Rightarrow> SessionRecord \<Rightarrow> bool \<times> SessionRecord" where
  "clear_prompt still r =
     (let waiting = (status r = AwaitingInput \<or> pending_input r \<noteq> None)
      in if \<not> hook_driven r \<or> \<not> waiting \<or> \<not> still r then (False, r)
         else (True, (if status r = AwaitingInput then r\<lparr>status := Idle\<rparr> else r)\<lparr>pending_input := None\<rparr>))"

definition clear_answered_prompt_if ::
    "Disk \<Rightarrow> (string \<Rightarrow> bool) \<Rightarrow> int \<Rightarrow> Registry \<Rightarrow> string \<Rightarrow> (SessionRecord \<Rightarrow> bool)
      \<Rightarrow> bool \<times> SessionEvent list \<times> Registry" where
  "clear_answered_prompt_if d due now reg sid still =
     update_if_changed d due now reg sid (clear_prompt still)"

section \<open>The invariant of a record\<close>

text \<open>
  What holds of a record whatever its status: a background flag only beside \<open>Idle\<close>, the bounds of
  its buffers, and a promoted shell's label and hook agent. A held turn end exists only while the
  status is \<open>Working\<close>.
\<close>

definition fields_ok :: "SessionRecord \<Rightarrow> bool" where
  "fields_ok r \<longleftrightarrow>
     (background r \<longrightarrow> status r = Idle) \<and>
     length (recent_actions r) \<le> RECENT_ACTIONS_CAP \<and>
     (\<forall>sm. summary r = Some sm \<longrightarrow> length (summary_lines sm) \<le> SUMMARY_RING_MAX_LINES) \<and>
     (\<forall>m. last_assistant_message r = Some m \<longrightarrow> length m \<le> LAST_MESSAGE_MAX_BYTES) \<and>
     (promoted_shell r \<longrightarrow> shell_label r \<noteq> None \<and> hook_agent r \<noteq> None)"

definition record_ok :: "SessionRecord \<Rightarrow> bool" where
  "record_ok r \<longleftrightarrow> fields_ok r \<and> (turn_end r \<noteq> None \<longrightarrow> status r = Working)"

text \<open>What a writer owes the registry: a turn end may be left over only across a status change.\<close>

definition written_ok :: "SessionStatus \<Rightarrow> SessionRecord \<Rightarrow> bool" where
  "written_ok was r \<longleftrightarrow> fields_ok r \<and> (turn_end r \<noteq> None \<and> status r = was \<longrightarrow> status r = Working)"

lemma record_ok_written: "record_ok r \<Longrightarrow> written_ok was r"
  by (auto simp add: record_ok_def written_ok_def)

lemma drop_provisional_line_fields [record_simps]:
  "status (snd (drop_provisional_line r)) = status r"
  "status_since (snd (drop_provisional_line r)) = status_since r"
  "status_seq (snd (drop_provisional_line r)) = status_seq r"
  "turn_end (snd (drop_provisional_line r)) = turn_end r"
  "background (snd (drop_provisional_line r)) = background r"
  "rec_id (snd (drop_provisional_line r)) = rec_id r"
  "last_hook_time (snd (drop_provisional_line r)) = last_hook_time r"
  "pending_input (snd (drop_provisional_line r)) = pending_input r"
  by (simp_all add: drop_provisional_line_def Let_def split: option.split)

lemma drop_provisional_line_ok: "fields_ok r \<Longrightarrow> fields_ok (snd (drop_provisional_line r))"
  by (auto simp: drop_provisional_line_def fields_ok_def promoted_shell_def Let_def split: option.split)

lemma settle_turn_end_fields [record_simps]:
  "status (snd (settle_turn_end r sid)) = status r"
  "status_since (snd (settle_turn_end r sid)) = status_since r"
  "status_seq (snd (settle_turn_end r sid)) = status_seq r"
  "turn_end (snd (settle_turn_end r sid)) = None"
  "rec_id (snd (settle_turn_end r sid)) = rec_id r"
  "last_hook_time (snd (settle_turn_end r sid)) = last_hook_time r"
  "pending_input (snd (settle_turn_end r sid)) = pending_input r"
  "background (snd (settle_turn_end r sid)) =
     (case turn_end r of Some held \<Rightarrow> if status r = Idle then end_background held else background r
      | None \<Rightarrow> background r)"
  by (simp_all add: settle_turn_end_def Let_def split: option.split)

lemma settle_turn_end_alert:
  "fst (settle_turn_end r sid) =
     (case turn_end r of Some held \<Rightarrow> if status r = Idle then map_option (alert_event sid) (end_alert held) else None
      | None \<Rightarrow> None)"
  by (simp add: settle_turn_end_def Let_def split: option.split)

lemma settle_turn_end_ok: "fields_ok r \<Longrightarrow> fields_ok (snd (settle_turn_end r sid))"
  by (auto simp: settle_turn_end_def fields_ok_def promoted_shell_def Let_def split: option.split)

lemma stamp_change_fields [record_simps]:
  "status (snd (stamp_change due now sid was r)) = status r"
  "status_since (snd (stamp_change due now sid was r)) = Some now"
  "status_seq (snd (stamp_change due now sid was r)) = saturating_inc (status_seq r)"
  "turn_end (snd (stamp_change due now sid was r)) = None"
  "rec_id (snd (stamp_change due now sid was r)) = rec_id r"
  "last_hook_time (snd (stamp_change due now sid was r)) = last_hook_time r"
  "pending_input (snd (stamp_change due now sid was r)) = pending_input r"
  "background (snd (stamp_change due now sid was r)) =
     (case turn_end r of Some held \<Rightarrow> if status r = Idle then end_background held else background r
      | None \<Rightarrow> background r)"
  by (simp_all add: stamp_change_def case_prod_beta record_simps split: option.split)

lemma stamp_change_alert:
  "fst (stamp_change due now sid was r) =
     (case turn_end r of Some held \<Rightarrow> if status r = Idle then map_option (alert_event sid) (end_alert held) else None
      | None \<Rightarrow> None)"
  by (simp add: stamp_change_def case_prod_beta settle_turn_end_alert split: option.split)

lemma stamp_change_ok: "fields_ok r \<Longrightarrow> fields_ok (snd (stamp_change due now sid was r))"
proof -
  assume "fields_ok r"
  then have "fields_ok (r\<lparr>status_since := Some now, status_seq := saturating_inc (status_seq r)\<rparr>)"
    by (simp add: fields_ok_def promoted_shell_def)
  from settle_turn_end_ok [OF this] show ?thesis
    by (simp add: stamp_change_def case_prod_beta drop_provisional_line_ok)
qed

section \<open>What an update leaves alone\<close>

definition registry_ok :: "Registry \<Rightarrow> bool" where
  "registry_ok rg \<longleftrightarrow> (\<forall>sid r. by_id rg sid = Some r \<longrightarrow> record_ok r \<and> rec_id r = sid)"

lemma registry_okD: "registry_ok rg \<Longrightarrow> by_id rg sid = Some r \<Longrightarrow> record_ok r \<and> rec_id r = sid"
  by (simp add: registry_ok_def)

lemma registry_ok_upd:
  "registry_ok rg \<Longrightarrow> record_ok r \<Longrightarrow> rec_id r = sid \<Longrightarrow> by_id rg' = (by_id rg)(sid \<mapsto> r) \<Longrightarrow> registry_ok rg'"
  by (simp add: registry_ok_def)

lemma with_sidecar_gate_by_id:
  assumes "\<And>r rg. by_id (w r rg) = by_id rg"
  shows "by_id (with_sidecar_gate rg sid w) = by_id rg"
  using assms by (simp add: with_sidecar_gate_def Let_def split: option.split)

lemma sync_record_by_id [simp]: "by_id (sync_record d sid r rg) = by_id rg"
  by (simp add: sync_record_def split: option.split)

lemma sync_sidecar_by_id [simp]: "by_id (sync_sidecar d rg sid) = by_id rg"
  by (simp add: sync_sidecar_def with_sidecar_gate_by_id)

lemma sync_summary_by_id [simp]: "by_id (sync_summary d rg sid) = by_id rg"
  by (simp add: sync_summary_def with_sidecar_gate_by_id split: option.split)

lemma write_sidecar_by_id [simp]: "by_id (write_sidecar d rg sid m) = by_id rg"
  by (simp add: write_sidecar_def with_sidecar_gate_by_id)

lemma delete_sidecar_by_id [simp]: "by_id (delete_sidecar d rg sid) = by_id rg"
  by (simp add: delete_sidecar_def delete_sidecar_files_def)

lemma with_sidecar_gate_activity:
  assumes "\<And>r rg. activity (w r rg) = activity rg"
  shows "activity (with_sidecar_gate rg sid w) = activity rg"
  using assms by (simp add: with_sidecar_gate_def Let_def split: option.split)

lemma sync_sidecar_activity [simp]: "activity (sync_sidecar d rg sid) = activity rg"
  by (simp add: sync_sidecar_def with_sidecar_gate_activity sync_record_def split: option.split)

lemma finish_update_fields [simp]:
  "by_id (snd (finish_update d sid out rg)) = by_id rg"
  "activity (snd (finish_update d sid out rg)) =
     activity rg @ (if persists d then (case out_change out of None \<Rightarrow> [] | Some (t, st) \<Rightarrow> [(sid, t, st)]) else [])"
  by (simp_all add: finish_update_def Let_def split: option.split)

lemma update_inner_by_id:
  "by_id (snd (snd (update_inner d due now rg sid f))) =
     (case by_id rg sid of
        None \<Rightarrow> by_id rg
      | Some r \<Rightarrow> (by_id rg)(sid \<mapsto> snd (update_locked (due sid) now sid f r)))"
  by (simp add: update_inner_def case_prod_beta split: option.split)

section \<open>The contract of a writer\<close>

text \<open>
  Every change of a record is a closure run by \<open>update_inner\<close>. One that answers \<open>None\<close> has changed
  nothing; one that keeps \<open>written_ok\<close> leaves the invariant to the registry, which settles a held
  turn end on every status change.
\<close>

locale record_writer =
  fixes wr :: "SessionRecord \<Rightarrow> SessionEvent option option \<times> SessionRecord"
  assumes quiet: "fst (wr r) = None \<Longrightarrow> snd (wr r) = r"
    and writes: "record_ok r \<Longrightarrow> written_ok (status r) (snd (wr r))"
    and same_id: "rec_id (snd (wr r)) = rec_id r"
begin

lemma update_locked_ok:
  assumes "record_ok r"
  shows "record_ok (snd (update_locked due now sid wr r))"
proof (cases "wr r")
  case (Pair answer r1)
  have w: "written_ok (status r) r1" using writes [OF assms] Pair by simp
  show ?thesis
  proof (cases answer)
    case None
    then have "r1 = r" using quiet [of r] Pair by simp
    with assms Pair None show ?thesis by (simp add: update_locked_def)
  next
    case (Some follow_up)
    have "record_ok r1" if "status r1 = status r"
      using w that by (auto simp: written_ok_def record_ok_def)
    moreover have "record_ok (snd (stamp_change due now sid (status r) r1))"
      using w by (simp add: written_ok_def record_ok_def stamp_change_ok record_simps)
    ultimately show ?thesis using Pair Some by (simp add: update_locked_def Let_def case_prod_beta)
  qed
qed

lemma update_locked_id: "rec_id (snd (update_locked due now sid wr r)) = rec_id r"
  using same_id [of r]
  by (simp add: update_locked_def Let_def case_prod_beta stamp_change_fields split: option.split)

lemma update_inner_ok:
  assumes "registry_ok rg"
  shows "registry_ok (snd (snd (update_inner d due now rg sid wr)))"
proof (cases "by_id rg sid")
  case None
  with assms show ?thesis by (simp add: update_inner_def)
next
  case (Some r)
  with registry_okD [OF assms Some] show ?thesis
    by (intro registry_ok_upd [OF assms, where sid = sid and r = "snd (update_locked (due sid) now sid wr r)"])
       (simp_all add: update_locked_ok update_locked_id update_inner_by_id)
qed

end

lemma clear_prompt_writer:
  "fst (clear_prompt still r) = False \<Longrightarrow> snd (clear_prompt still r) = r"
  "record_ok r \<Longrightarrow> written_ok (status r) (snd (clear_prompt still r))"
  "rec_id (snd (clear_prompt still r)) = rec_id r"
  by (auto simp: clear_prompt_def Let_def record_ok_def written_ok_def fields_ok_def promoted_shell_def)

interpretation answered: record_writer
  "\<lambda>r. case clear_prompt still r of (ch, r') \<Rightarrow> (if ch then Some None else None, r')" for still
  by unfold_locales (auto simp: case_prod_beta clear_prompt_writer split: if_splits)

lemma fields_ok_recent:
  "fields_ok r \<Longrightarrow> fields_ok (push_recent_action r now a)"
  by (simp add: fields_ok_def promoted_shell_def record_simps)

lemma apply_status_ok: "fields_ok r \<Longrightarrow> fields_ok (snd (apply_status r now st))"
  by (auto simp: fields_ok_def promoted_shell_def record_simps)

lemma apply_watcher_status_fields [record_simps]:
  "status (snd (apply_watcher_status r now st)) = st"
  "turn_end (snd (apply_watcher_status r now st)) = turn_end r"
  "background (snd (apply_watcher_status r now st)) = (background r \<and> status r = st)"
  "rec_id (snd (apply_watcher_status r now st)) = rec_id r"
  "pending_input (snd (apply_watcher_status r now st)) =
     (if status r = AwaitingInput \<and> st \<noteq> AwaitingInput then None else pending_input r)"
  by (simp_all add: apply_watcher_status_def Let_def case_prod_beta record_simps)

lemma apply_watcher_status_writer:
  "record_ok r \<Longrightarrow> written_ok (status r) (snd (apply_watcher_status r now st))"
  using apply_status_ok [of r now st]
  by (auto simp: record_ok_def written_ok_def apply_watcher_status_def Let_def case_prod_beta
      record_simps fields_ok_def promoted_shell_def)

interpretation watched: record_writer "\<lambda>r. (Some None, snd (apply_watcher_status r now st))" for now st
  by unfold_locales (simp_all add: apply_watcher_status_writer record_simps)

end
