(* ===== verification/Sidecars.thy ===== *)
theory Sidecars
  imports Registry
begin

text \<open>
  The sidecar of a session under concurrent updates. An update changes the record under the
  record's lock and mirrors it into the sidecar afterwards, under the sidecar gate; other tasks run
  in between. The steps below are these locked sections, in any order. Session ids are never
  reused, as \<open>SidecarGate\<close> relies on.
\<close>

text \<open>
  \<open>unsynced\<close>: the updates that have changed a record and have not mirrored it yet; \<open>ever\<close>: the ids
  in use so far; \<open>ended\<close>: the sessions whose sidecar was deleted.
\<close>

record RegSys =
  rs_reg :: Registry
  unsynced :: "string multiset"
  ever :: "string set"
  ended :: "string set"

text \<open>\<open>D\<close> restricts what the disk may do: every file operation of a step satisfies it.\<close>

inductive reg_step :: "(Disk \<Rightarrow> bool) \<Rightarrow> RegSys \<Rightarrow> RegSys \<Rightarrow> bool" for D where
  inserted: "rec_id r \<notin> ever s \<Longrightarrow>
     (\<And>m. sidecars (rs_reg s) (rec_id r) = Some m \<Longrightarrow> m = record_mirror r) \<Longrightarrow>
     reg_step D s (s\<lparr>rs_reg := insert_pending (rs_reg s) r, ever := insert (rec_id r) (ever s)\<rparr>)"
| locked: "by_id (rs_reg s) sid = Some r \<Longrightarrow> update_locked due now sid f r = (Some out, r') \<Longrightarrow>
     reg_step D s (s\<lparr>rs_reg := (rs_reg s)\<lparr>by_id := (by_id (rs_reg s))(sid \<mapsto> r')\<rparr>,
                     unsynced := add_mset sid (unsynced s)\<rparr>)"
| finished: "D d \<Longrightarrow> sid \<in># unsynced s \<Longrightarrow>
     reg_step D s (s\<lparr>rs_reg := snd (finish_update d sid out (rs_reg s)), unsynced := unsynced s - {#sid#}\<rparr>)"
| spawned: "D d \<Longrightarrow> reg_step D s (s\<lparr>rs_reg := write_sidecar d (rs_reg s) sid meta\<rparr>)"
| summarized: "D d \<Longrightarrow> reg_step D s (s\<lparr>rs_reg := sync_summary d (rs_reg s) sid\<rparr>)"
| stopped: "D d \<Longrightarrow>
     reg_step D s (s\<lparr>rs_reg := delete_sidecar d (rs_reg s) sid, ever := insert sid (ever s),
                     ended := (if persists d \<and> disk_ok d then insert sid (ended s) else ended s)\<rparr>)"
| removed: "reg_step D s (s\<lparr>rs_reg := snd (remove (rs_reg s) sid)\<rparr>)"
| discarded: "reg_step D s (s\<lparr>rs_reg := discard (rs_reg s) sid\<rparr>)"

inductive_cases reg_stepE: "reg_step D s s'"

definition fresh_system :: "RegSys \<Rightarrow> bool" where
  "fresh_system s \<longleftrightarrow>
     by_id (rs_reg s) = Map.empty \<and> sidecar_gates (rs_reg s) = Map.empty \<and> unsynced s = {#} \<and>
     ever s = {} \<and> ended s = {}"

section \<open>The file operations under the gate\<close>

text \<open>A write runs only for a record that is held, under a gate that is open.\<close>

definition writable :: "Registry \<Rightarrow> string \<Rightarrow> bool" where
  "writable rg sid \<longleftrightarrow> sidecar_gates rg sid \<noteq> Some True \<and> by_id rg sid \<noteq> None"

lemma gated_field:
  assumes "\<And>rg g. fld (rg\<lparr>sidecar_gates := g\<rparr>) = fld rg"
  shows "fld (with_sidecar_gate rg sid w) =
    (if writable rg sid
     then fld (w (the (by_id rg sid)) (rg\<lparr>sidecar_gates := (sidecar_gates rg)(sid \<mapsto> False)\<rparr>)) else fld rg)"
proof (cases "sidecar_gates rg sid")
  case (Some b)
  then have "(sidecar_gates rg)(sid \<mapsto> b) = sidecar_gates rg" by (rule map_upd_triv)
  then show ?thesis using assms Some
    by (cases b) (auto simp: with_sidecar_gate_def writable_def split: option.split)
qed (use assms in \<open>auto simp: with_sidecar_gate_def writable_def split: option.split\<close>)

lemma gated_closed:
  assumes "\<And>r rg i. sidecar_gates (w r rg) i = sidecar_gates rg i"
  shows "sidecar_gates (with_sidecar_gate rg sid w) i = Some True \<longleftrightarrow> sidecar_gates rg i = Some True"
  using assms by (auto simp: with_sidecar_gate_def Let_def split: option.split if_splits)

lemma sync_sidecar_files [simp]:
  "sidecars (sync_sidecar d rg sid) =
     (if persists d \<and> disk_ok d \<and> writable rg sid \<and> sidecars rg sid \<noteq> None
      then (sidecars rg)(sid \<mapsto> record_mirror (the (by_id rg sid))) else sidecars rg)"
  "summary_files (sync_sidecar d rg sid) = summary_files rg"
  "sidecar_gates (sync_sidecar d rg sid) i = Some True \<longleftrightarrow> sidecar_gates rg i = Some True"
  by (auto simp: sync_sidecar_def gated_field sync_record_def gated_closed map_upd_triv split: option.split)

lemma write_sidecar_files [simp]:
  "sidecars (write_sidecar d rg sid meta) =
     (if persists d \<and> disk_ok d \<and> writable rg sid
      then (sidecars rg)(sid \<mapsto> record_mirror (the (by_id rg sid))) else sidecars rg)"
  "summary_files (write_sidecar d rg sid meta) = summary_files rg"
  "sidecar_gates (write_sidecar d rg sid meta) i = Some True \<longleftrightarrow> sidecar_gates rg i = Some True"
  by (auto simp: write_sidecar_def gated_field sync_record_def gated_closed map_upd_triv split: option.split)

lemma sync_summary_files [simp]:
  "sidecars (sync_summary d rg sid) = sidecars rg"
  "summary_files (sync_summary d rg sid) =
     (if persists d \<and> disk_ok d \<and> writable rg sid \<and> sidecars rg sid \<noteq> None
      then (case Option.bind (summary (the (by_id rg sid))) persisted_summary of
              None \<Rightarrow> summary_files rg | Some sm \<Rightarrow> (summary_files rg)(sid \<mapsto> sm))
      else summary_files rg)"
  "sidecar_gates (sync_summary d rg sid) i = Some True \<longleftrightarrow> sidecar_gates rg i = Some True"
  by (auto simp: sync_summary_def gated_field gated_closed split: option.split)

lemma delete_sidecar_effect [simp]:
  "sidecars (delete_sidecar d rg sid) =
     (if persists d \<and> disk_ok d then (sidecars rg)(sid := None) else sidecars rg)"
  "summary_files (delete_sidecar d rg sid) =
     (if persists d \<and> disk_ok d then (summary_files rg)(sid := None) else summary_files rg)"
  "sidecar_gates (delete_sidecar d rg sid) =
     (if persists d \<and> by_id rg sid \<noteq> None then (sidecar_gates rg)(sid \<mapsto> True) else sidecar_gates rg)"
  by (auto simp: delete_sidecar_def delete_sidecar_files_def)

lemma finish_update_files [simp]:
  "sidecars (snd (finish_update d sid out rg)) = sidecars (sync_sidecar d rg sid)"
  "summary_files (snd (finish_update d sid out rg)) = summary_files rg"
  "sidecar_gates (snd (finish_update d sid out rg)) i = Some True \<longleftrightarrow> sidecar_gates rg i = Some True"
  by (auto simp: finish_update_def Let_def writable_def split: option.split)

lemma registry_field_simps [simp]:
  "by_id (insert_pending rg r) = (by_id rg)(rec_id r \<mapsto> r)"
  "sidecar_gates (insert_pending rg r) = sidecar_gates rg"
  "sidecars (insert_pending rg r) = sidecars rg"
  "summary_files (insert_pending rg r) = summary_files rg"
  "by_id (snd (remove rg sid)) = (by_id rg)(sid := None)"
  "sidecar_gates (snd (remove rg sid)) = (sidecar_gates rg)(sid := None)"
  "sidecars (snd (remove rg sid)) = sidecars rg"
  "summary_files (snd (remove rg sid)) = summary_files rg"
  "by_id (discard rg sid) = (by_id rg)(sid := None)"
  "sidecar_gates (discard rg sid) = (sidecar_gates rg)(sid := None)"
  "sidecars (discard rg sid) = sidecars rg"
  "summary_files (discard rg sid) = summary_files rg"
  by (simp_all add: insert_pending_def remove_def discard_def)

section \<open>No sidecar comes back\<close>

definition gone_ok :: "RegSys \<Rightarrow> bool" where
  "gone_ok s \<longleftrightarrow> ended s \<subseteq> ever s \<and> dom (by_id (rs_reg s)) \<subseteq> ever s \<and>
     (\<forall>sid \<in> ended s. sidecars (rs_reg s) sid = None \<and> summary_files (rs_reg s) sid = None \<and>
        \<not> writable (rs_reg s) sid)"

lemma reg_step_gone: "reg_step D s s' \<Longrightarrow> gone_ok s \<Longrightarrow> gone_ok s'"
  by (induction rule: reg_step.induct) (auto simp: gone_ok_def writable_def split: option.split)

lemma reachable_gone: "(reg_step D)\<^sup>*\<^sup>* s s' \<Longrightarrow> gone_ok s \<Longrightarrow> gone_ok s'"
  by (induction rule: rtranclp_induct) (auto intro: reg_step_gone)

section \<open>The sidecar follows the record\<close>

definition mirror_ok :: "RegSys \<Rightarrow> bool" where
  "mirror_ok s \<longleftrightarrow>
     (\<forall>sid. sidecar_gates (rs_reg s) sid = Some True \<longrightarrow> sidecars (rs_reg s) sid = None) \<and>
     (\<forall>sid r m. by_id (rs_reg s) sid = Some r \<and> sidecars (rs_reg s) sid = Some m \<and> sid \<notin># unsynced s \<longrightarrow>
        m = record_mirror r)"

lemma reg_step_mirror:
  assumes "reg_step D s s'" and "\<And>d. D d \<Longrightarrow> persists d \<and> disk_ok d"
  shows "mirror_ok s \<Longrightarrow> mirror_ok s'"
  using assms
  by (induction rule: reg_step.induct) (auto simp: mirror_ok_def writable_def in_diff_count)

lemma reachable_mirror:
  assumes "(reg_step D)\<^sup>*\<^sup>* s s'" and "\<And>d. D d \<Longrightarrow> persists d \<and> disk_ok d" and "mirror_ok s"
  shows "mirror_ok s'"
  using assms(1,3) by (induction rule: rtranclp_induct) (auto intro: reg_step_mirror [OF _ assms(2)])

lemma fresh_system_ok: "fresh_system s \<Longrightarrow> gone_ok s \<and> mirror_ok s"
  by (simp add: fresh_system_def gone_ok_def mirror_ok_def)

end
