(* ===== verification/Turns.thy ===== *)
theory Turns
  imports Registry
begin

text \<open>
  The turn pipeline (\<open>crates/daemon/src/summarizer/turns.rs\<close>): the reports of finished turns that
  wait for a summary, the one driver task of a session that takes them, and the summary line it
  publishes through the registry. \<open>truncate_bytes\<close> is of \<open>hook_status.rs\<close>.
\<close>

section \<open>Cutting text\<close>

text \<open>\<open>while !text.is_char_boundary(end) { end -= 1 }\<close>; 0 is always a boundary.\<close>

fun floor_boundary :: "string \<Rightarrow> nat \<Rightarrow> nat" where
  "floor_boundary s 0 = 0"
| "floor_boundary s (Suc n) = (if is_char_boundary s (Suc n) then Suc n else floor_boundary s n)"

definition ellipsis :: string where "ellipsis = [CHR 0xE2, CHR 0x80, CHR 0xA6]"

definition truncate_bytes :: "string \<Rightarrow> nat \<Rightarrow> string" where
  "truncate_bytes text max_bytes =
     (if length text \<le> max_bytes then text
      else let start = (if max_bytes < length ellipsis then max_bytes else max_bytes - length ellipsis);
               cut = take (floor_boundary text start) text
           in if length ellipsis \<le> max_bytes then cut @ ellipsis else cut)"

section \<open>Reports and drivers\<close>

definition COALESCE_WINDOW :: int where "COALESCE_WINDOW = 60 * 10 ^ 9"
definition REPORT_MAX_BYTES :: nat where "REPORT_MAX_BYTES = 8 * 1024"
definition PENDING_MAX_REPORTS :: nat where "PENDING_MAX_REPORTS = 12"

record Report =
  report_text :: string
  report_at :: int

record Driver =
  pending :: "Report list"
  running :: bool
  finished_at :: "int option"

type_synonym drivers = "string \<rightharpoonup> Driver"

definition idle_driver :: Driver where
  "idle_driver = \<lparr>pending = [], running = False, finished_at = None\<rparr>"

definition push_report :: "Report list \<Rightarrow> Report \<Rightarrow> Report list" where
  "push_report ps rep =
     (let ps' = ps @ [rep] in if PENDING_MAX_REPORTS < length ps' then tl ps' else ps')"

definition add_report :: "int \<Rightarrow> drivers \<Rightarrow> string \<Rightarrow> string \<Rightarrow> bool \<times> drivers" where
  "add_report now ds sid message =
     (let dr = (case ds sid of Some dr \<Rightarrow> dr | None \<Rightarrow> idle_driver);
          rep = \<lparr>report_text = truncate_bytes message REPORT_MAX_BYTES, report_at = now\<rparr>
      in (\<not> running dr, ds(sid \<mapsto> dr\<lparr>pending := push_report (pending dr) rep, running := True\<rparr>)))"

definition forget_gone_sessions :: "Registry \<Rightarrow> drivers \<Rightarrow> drivers" where
  "forget_gone_sessions reg ds = (\<lambda>sid. if by_id reg sid = None then None else ds sid)"

definition has_work :: "drivers \<Rightarrow> string \<Rightarrow> bool" where
  "has_work ds sid = (case ds sid of None \<Rightarrow> False | Some dr \<Rightarrow> running dr)"

definition has_reports :: "drivers \<Rightarrow> string \<Rightarrow> bool" where
  "has_reports ds sid = (case ds sid of None \<Rightarrow> False | Some dr \<Rightarrow> running dr \<or> pending dr \<noteq> [])"

definition ready_at :: "int \<Rightarrow> drivers \<Rightarrow> string \<Rightarrow> int option" where
  "ready_at now ds sid =
     (case ds sid of
        None \<Rightarrow> None
      | Some dr \<Rightarrow>
          (case finished_at dr of
             None \<Rightarrow> None
           | Some t \<Rightarrow> if now < t + COALESCE_WINDOW then Some (t + COALESCE_WINDOW) else None))"

definition take_pending :: "drivers \<Rightarrow> string \<Rightarrow> Report list option \<times> drivers" where
  "take_pending ds sid =
     (case ds sid of
        None \<Rightarrow> (None, ds)
      | Some dr \<Rightarrow>
          if pending dr = [] then (None, ds(sid \<mapsto> dr\<lparr>running := False\<rparr>))
          else (Some (pending dr), ds(sid \<mapsto> dr\<lparr>pending := []\<rparr>)))"

definition put_back :: "Registry \<Rightarrow> drivers \<Rightarrow> string \<Rightarrow> Report list \<Rightarrow> drivers" where
  "put_back reg ds sid reports =
     (if by_id reg sid = None then ds(sid := None)
      else (case ds sid of
              None \<Rightarrow> ds
            | Some dr \<Rightarrow>
                let all = reports @ pending dr
                in ds(sid \<mapsto> dr\<lparr>pending := drop (length all - PENDING_MAX_REPORTS) all, running := False\<rparr>)))"

section \<open>Publishing a line\<close>

text \<open>What a call made (\<open>policy::Line\<close>).\<close>

record Line =
  kind_of :: "AlertKind option"
  line_headline :: string
  line_notification :: string
  source_of :: SummarySource

definition publish_line :: "Line \<Rightarrow> int \<Rightarrow> int \<Rightarrow> string \<Rightarrow> SessionRecord \<Rightarrow> SessionEvent option \<times> SessionRecord" where
  "publish_line l made now sid r =
     (let ring_line = \<lparr>line_text = line_notification l, line_at = made, line_source = source_of l,
            provisional = False\<rparr>;
          r1 = push_summary_line r (kind_of l) (line_headline l) ring_line now;
          alert = \<lparr>alert_kind = kind_of l, notification = line_notification l, alert_source = source_of l\<rparr>
      in if status r1 \<in> {Idle, AwaitingInput} then (Some (alert_event sid alert), r1)
         else (case turn_end r1 of
                 None \<Rightarrow> (None, r1)
               | Some held \<Rightarrow> (None, r1\<lparr>turn_end := Some (held\<lparr>end_alert := Some alert\<rparr>)\<rparr>)))"

definition publish ::
    "Disk \<Rightarrow> int \<Rightarrow> drivers \<Rightarrow> Registry \<Rightarrow> string \<Rightarrow> Line \<Rightarrow> int
      \<Rightarrow> bool \<times> SessionEvent list \<times> Registry" where
  "publish d now ds reg sid l made =
     (case update_then d (has_work ds) now reg sid (publish_line l made now sid) of
        (held, evs, reg') \<Rightarrow> (held, evs, if held then sync_summary d reg' sid else reg'))"

section \<open>The driver task\<close>

text \<open>
  \<open>Turns::drive\<close> as the locked sections between its await points. A task is about to start, at
  the top of its loop, or waiting for the call that covers the reports it took.
\<close>

datatype task_phase = Starting | AtTop | Submitting "Report list"

text \<open>
  What the summarizer answers (\<open>service::Outcome\<close>): a line with whether the call was billed, or
  none made.
\<close>

datatype call_outcome = CallLine Line bool | NoLine

record Pipeline =
  reg :: Registry
  drivers :: drivers
  driver_tasks :: "(string \<times> task_phase) list"

text \<open>A report of an applied \<open>Stop\<close> joins under the record's lock; a task is spawned when none ran.\<close>

definition join_report :: "int \<Rightarrow> Pipeline \<Rightarrow> string \<Rightarrow> string \<Rightarrow> Pipeline" where
  "join_report now p sid message =
     (case add_report now (drivers p) sid message of
        (start, ds) \<Rightarrow>
          p\<lparr>drivers := ds, driver_tasks := driver_tasks p @ (if start then [(sid, Starting)] else [])\<rparr>)"

text \<open>The outcome of a task's locked section: the task's next phase, or \<open>None\<close> when it ends.\<close>

definition start_task :: "Pipeline \<Rightarrow> task_phase option \<times> Pipeline" where
  "start_task p = (Some AtTop, p\<lparr>drivers := forget_gone_sessions (reg p) (drivers p)\<rparr>)"

definition drive_top :: "Pipeline \<Rightarrow> string \<Rightarrow> task_phase option \<times> Pipeline" where
  "drive_top p sid =
     (case take_pending (drivers p) sid of
        (None, ds) \<Rightarrow> (None, p\<lparr>drivers := ds\<rparr>)
      | (Some reports, ds) \<Rightarrow>
          if by_id (reg p) sid = None then (None, p\<lparr>drivers := ds(sid := None)\<rparr>)
          else (Some (Submitting reports), p\<lparr>drivers := ds\<rparr>))"

definition drive_answer ::
    "Disk \<Rightarrow> int \<Rightarrow> Pipeline \<Rightarrow> string \<Rightarrow> Report list \<Rightarrow> call_outcome
      \<Rightarrow> task_phase option \<times> SessionEvent list \<times> Pipeline" where
  "drive_answer d now p sid reports answer =
     (case answer of
        NoLine \<Rightarrow> (None, [], p\<lparr>drivers := put_back (reg p) (drivers p) sid reports\<rparr>)
      | CallLine l billed \<Rightarrow>
          let made = (if reports = [] then now else report_at (last reports))
          in (case publish d now (drivers p) (reg p) sid l made of
                (held, evs, reg') \<Rightarrow>
                  let p1 = p\<lparr>reg := reg'\<rparr>
                  in if \<not> held then (None, evs, p1\<lparr>drivers := (drivers p1)(sid := None)\<rparr>)
                     else (Some AtTop, evs,
                       case drivers p1 sid of
                         Some dr \<Rightarrow>
                           if billed then p1\<lparr>drivers := (drivers p1)(sid \<mapsto> dr\<lparr>finished_at := Some now\<rparr>)\<rparr> else p1
                       | None \<Rightarrow> p1)))"

section \<open>The cut\<close>

lemma floor_boundary_spec:
  "floor_boundary s n \<le> n" "is_char_boundary s (floor_boundary s n)"
  "floor_boundary s n < k \<Longrightarrow> k \<le> n \<Longrightarrow> \<not> is_char_boundary s k"
proof -
  show "floor_boundary s n \<le> n" by (induction n) auto
  show "is_char_boundary s (floor_boundary s n)"
    by (induction n) (auto simp: is_char_boundary_def)
  show "floor_boundary s n < k \<Longrightarrow> k \<le> n \<Longrightarrow> \<not> is_char_boundary s k"
    by (induction n) (auto split: if_splits simp: le_Suc_eq)
qed

lemma length_ellipsis [simp]: "length ellipsis = 3"
  by (simp add: ellipsis_def)

lemma truncate_bytes_length: "length (truncate_bytes s n) \<le> n"
  using floor_boundary_spec(1) [of s n] floor_boundary_spec(1) [of s "n - 3"]
  by (auto simp: truncate_bytes_def Let_def)

text \<open>A text as the characters it is made of: a lead byte, then continuation bytes.\<close>

definition char_bytes :: "string \<Rightarrow> bool" where
  "char_bytes c \<longleftrightarrow> c \<noteq> [] \<and> \<not> is_cont (hd c) \<and> list_all is_cont (tl c)"

lemma concat_boundary:
  assumes "list_all char_bytes cs" and "is_char_boundary (concat cs) i"
  shows "\<exists>k \<le> length cs. take i (concat cs) = concat (take k cs) \<and> i = length (concat (take k cs))"
  using assms
proof (induction cs arbitrary: i)
  case (Cons c cs)
  show ?case
  proof (cases "i < length c")
    case True
    have "i = 0"
    proof (rule ccontr)
      assume "i \<noteq> 0"
      then have "c ! i \<in> set (tl c)" using True by (metis length_tl less_diff_conv2 not_less_zero nth_mem nth_tl
          One_nat_def Suc_leI Suc_pred diff_less_mono gr0I)
      then have "is_cont (c ! i)" using Cons.prems(1) by (auto simp: char_bytes_def list_all_iff)
      with True \<open>i \<noteq> 0\<close> Cons.prems(2) show False
        by (auto simp: is_char_boundary_def nth_append)
    qed
    then show ?thesis by (intro exI [of _ 0]) simp
  next
    case False
    then obtain j where j: "i = length c + j" using le_Suc_ex not_less by blast
    have "is_char_boundary (concat cs) j"
      using Cons.prems(2) unfolding j by (auto simp: is_char_boundary_def nth_append char_bytes_def)
    with Cons obtain k where "k \<le> length cs" "take j (concat cs) = concat (take k cs)"
      "j = length (concat (take k cs))" by auto
    then show ?thesis using j by (intro exI [of _ "Suc k"]) simp
  qed
qed (simp add: is_char_boundary_def)

end
