(* ===== verification/Turn_System.thy ===== *)
theory Turn_System
  imports Turns
begin

text \<open>
  The turn pipeline as a system of tasks: reports that join, the driver tasks of the sessions, and
  a registry whose records come, change and go meanwhile.
\<close>

interpretation reports: bounded_log push_report "\<lambda>ps. ps" PENDING_MAX_REPORTS
proof unfold_locales
  fix ps :: "Report list" and rep
  assume "length ps \<le> PENDING_MAX_REPORTS"
  then have "lastn PENDING_MAX_REPORTS (ps @ [rep]) = drop 1 (ps @ [rep])"
    if "PENDING_MAX_REPORTS < length (ps @ [rep])"
    using that by (subst lastn_def, subst arg_cong [of _ 1 "\<lambda>n. drop n (ps @ [rep])"]) simp_all
  then show "push_report ps rep = lastn PENDING_MAX_REPORTS (ps @ [rep])"
    unfolding push_report_def Let_def by (cases ps) (auto split: if_splits simp: lastn_def)
qed

lemma publish_line_writer:
  "record_ok r \<Longrightarrow> written_ok (status r) (snd (publish_line l made now sid r))"
  "rec_id (snd (publish_line l made now sid r)) = rec_id r"
  using prune_summary_ring_spec(1)
  by (auto simp: publish_line_def push_summary_line_def Let_def record_ok_def written_ok_def fields_ok_def
      promoted_shell_def split: option.split)

interpretation published: record_writer
  "\<lambda>r. case publish_line l made now sid r of (ev, r') \<Rightarrow> (Some ev, r')" for l made now sid
  by unfold_locales (simp_all add: case_prod_beta publish_line_writer)

section \<open>Steps\<close>

text \<open>A task leaves its place in the list for its next phase, or ends.\<close>

definition next_phase :: "string \<Rightarrow> task_phase option \<Rightarrow> (string \<times> task_phase) list" where
  "next_phase sid ph = (case ph of None \<Rightarrow> [] | Some x \<Rightarrow> [(sid, x)])"

text \<open>
  \<open>inserted\<close> is for an id the pipeline has never seen, since session ids are never reused; \<open>changed\<close>
  is any update of the records another task makes.
\<close>

inductive turn_step :: "Pipeline \<Rightarrow> Pipeline \<Rightarrow> bool" where
  joined: "by_id (reg p) sid \<noteq> None \<Longrightarrow> turn_step p (join_report now p sid msg)"
| started: "driver_tasks p = as @ (sid, Starting) # bs \<Longrightarrow> start_task p = (ph, p') \<Longrightarrow>
     turn_step p (p'\<lparr>driver_tasks := as @ next_phase sid ph @ bs\<rparr>)"
| taken: "driver_tasks p = as @ (sid, AtTop) # bs \<Longrightarrow> ready_at now (drivers p) sid = None \<Longrightarrow>
     drive_top p sid = (ph, p') \<Longrightarrow> turn_step p (p'\<lparr>driver_tasks := as @ next_phase sid ph @ bs\<rparr>)"
| answered: "driver_tasks p = as @ (sid, Submitting reports) # bs \<Longrightarrow>
     drive_answer d now p sid reports ans = (ph, evs, p') \<Longrightarrow>
     turn_step p (p'\<lparr>driver_tasks := as @ next_phase sid ph @ bs\<rparr>)"
| changed: "dom (by_id rg) = dom (by_id (reg p)) \<Longrightarrow> turn_step p (p\<lparr>reg := rg\<rparr>)"
| inserted: "by_id (reg p) (rec_id r) = None \<Longrightarrow> drivers p (rec_id r) = None \<Longrightarrow>
     rec_id r \<notin> fst ` set (driver_tasks p) \<Longrightarrow> turn_step p (p\<lparr>reg := insert_pending (reg p) r\<rparr>)"
| removed: "turn_step p (p\<lparr>reg := snd (remove (reg p) sid)\<rparr>)"

section \<open>One driver for a session\<close>

definition tasks_of :: "Pipeline \<Rightarrow> string \<Rightarrow> nat" where
  "tasks_of p sid = count_list (map fst (driver_tasks p)) sid"

definition pipe_ok :: "Pipeline \<Rightarrow> bool" where
  "pipe_ok p \<longleftrightarrow>
     (\<forall>sid. tasks_of p sid \<le> 1) \<and>
     (\<forall>sid. by_id (reg p) sid \<noteq> None \<longrightarrow> (has_work (drivers p) sid \<longleftrightarrow> tasks_of p sid = 1)) \<and>
     (\<forall>sid dr. drivers p sid = Some dr \<longrightarrow> length (pending dr) \<le> PENDING_MAX_REPORTS) \<and>
     (\<forall>sid reports. (sid, Submitting reports) \<in> set (driver_tasks p) \<longrightarrow>
        reports \<noteq> [] \<and> length reports \<le> PENDING_MAX_REPORTS)"

lemma pipe_okI:
  assumes "\<And>sid. tasks_of p sid \<le> 1"
    and "\<And>sid. by_id (reg p) sid \<noteq> None \<Longrightarrow> has_work (drivers p) sid \<longleftrightarrow> tasks_of p sid = 1"
    and "\<And>sid dr. drivers p sid = Some dr \<Longrightarrow> length (pending dr) \<le> PENDING_MAX_REPORTS"
    and "\<And>sid reports. (sid, Submitting reports) \<in> set (driver_tasks p) \<Longrightarrow>
        reports \<noteq> [] \<and> length reports \<le> PENDING_MAX_REPORTS"
  shows "pipe_ok p"
  using assms by (simp add: pipe_ok_def)

lemma next_phase_simps [simp]: "next_phase sid None = []" "next_phase sid (Some ph) = [(sid, ph)]"
  by (simp_all add: next_phase_def)

lemma publish_reg:
  "fst (publish d now ds rg sid l made) \<longleftrightarrow> by_id rg sid \<noteq> None"
  "by_id (snd (snd (publish d now ds rg sid l made))) i = None \<longleftrightarrow> by_id rg i = None"
  by (auto simp: publish_def update_then_def update_inner_def case_prod_beta split: option.splits)

lemma pipe_ok_idle: "pipe_ok p \<Longrightarrow> by_id (reg p) sid \<noteq> None \<Longrightarrow> \<not> has_work (drivers p) sid \<Longrightarrow> tasks_of p sid = 0"
  by (metis One_nat_def less_one nat_less_le pipe_ok_def)

lemma join_report_ok:
  assumes ok: "pipe_ok p" and present: "by_id (reg p) sid \<noteq> None"
  shows "pipe_ok (join_report now p sid msg)"
proof (rule pipe_okI)
  let ?q = "join_report now p sid msg"
  have n: "tasks_of ?q i = tasks_of p i + (if i = sid \<and> \<not> has_work (drivers p) sid then 1 else 0)" for i
    by (simp add: join_report_def add_report_def Let_def tasks_of_def has_work_def idle_driver_def
        split: option.split)
  have w: "has_work (drivers ?q) i \<longleftrightarrow> i = sid \<or> has_work (drivers p) i" for i
    by (simp add: join_report_def add_report_def Let_def has_work_def split: option.split)
  show "tasks_of ?q i \<le> 1" for i
    using ok pipe_ok_idle [OF ok present] by (simp add: n pipe_ok_def)
  show "has_work (drivers ?q) i \<longleftrightarrow> tasks_of ?q i = 1" if "by_id (reg ?q) i \<noteq> None" for i
  proof -
    have "by_id (reg p) i \<noteq> None"
      using that by (simp add: join_report_def add_report_def Let_def split: option.splits)
    then show ?thesis using ok pipe_ok_idle [OF ok present] by (auto simp: n w pipe_ok_def)
  qed
  show "length (pending dr) \<le> PENDING_MAX_REPORTS" if "drivers ?q i = Some dr" for i dr
    using that ok reports.push_bounded
    by (auto simp: join_report_def add_report_def Let_def idle_driver_def pipe_ok_def split: option.splits if_splits)
  show "reports \<noteq> [] \<and> length reports \<le> PENDING_MAX_REPORTS"
    if "(i, Submitting reports) \<in> set (driver_tasks ?q)" for i reports
    using that ok by (auto simp: join_report_def add_report_def Let_def pipe_ok_def split: if_splits)
qed

text \<open>A task's step: what the remaining obligations are, given what it does to its own session.\<close>

lemma task_step_ok:
  assumes ok: "pipe_ok p" and ts: "driver_tasks p = as @ (sid, ph0) # bs"
    and q: "driver_tasks q = as @ next_phase sid ph @ bs" "\<And>i. by_id (reg q) i = None \<longleftrightarrow> by_id (reg p) i = None"
    and others: "\<And>i. i \<noteq> sid \<Longrightarrow> by_id (reg p) i \<noteq> None \<Longrightarrow> drivers q i = drivers p i"
    and work: "by_id (reg p) sid \<noteq> None \<Longrightarrow> has_work (drivers p) sid \<Longrightarrow> has_work (drivers q) sid \<longleftrightarrow> ph \<noteq> None"
    and bound: "\<And>i dr. drivers q i = Some dr \<Longrightarrow> length (pending dr) \<le> PENDING_MAX_REPORTS"
    and sub: "\<And>reports. ph = Some (Submitting reports) \<Longrightarrow> reports \<noteq> [] \<and> length reports \<le> PENDING_MAX_REPORTS"
  shows "pipe_ok q"
proof (rule pipe_okI)
  have "tasks_of p sid \<le> 1" using ok by (simp add: pipe_ok_def)
  then have one: "tasks_of p sid = 1" using ts by (simp add: tasks_of_def)
  have n: "tasks_of q i = (if i = sid then (if ph = None then 0 else 1) else tasks_of p i)" for i
    using one ts q(1) by (cases ph) (auto simp: tasks_of_def)
  show "tasks_of q i \<le> 1" for i using ok by (simp add: n pipe_ok_def)
  show "has_work (drivers q) i \<longleftrightarrow> tasks_of q i = 1" if "by_id (reg q) i \<noteq> None" for i
  proof -
    have i: "by_id (reg p) i \<noteq> None" using that q(2) by simp
    then have h: "has_work (drivers p) i \<longleftrightarrow> tasks_of p i = 1" using ok by (simp add: pipe_ok_def)
    show ?thesis
    proof (cases "i = sid")
      case True
      with h i one work show ?thesis by (simp add: n)
    next
      case False
      with h others [OF False i] show ?thesis by (simp add: n has_work_def)
    qed
  qed
  show "length (pending dr) \<le> PENDING_MAX_REPORTS" if "drivers q i = Some dr" for i dr
    using bound that .
  show "reports \<noteq> [] \<and> length reports \<le> PENDING_MAX_REPORTS"
    if "(i, Submitting reports) \<in> set (driver_tasks q)" for i reports
    using that ok ts q(1) sub by (cases ph) (auto simp: pipe_ok_def)
qed

lemma pipe_ok_pending: "pipe_ok p \<Longrightarrow> drivers p i = Some dr \<Longrightarrow> length (pending dr) \<le> PENDING_MAX_REPORTS"
  by (simp add: pipe_ok_def)

lemma started_ok:
  assumes "pipe_ok p" and "driver_tasks p = as @ (sid, Starting) # bs" and "start_task p = (ph, p')"
  shows "pipe_ok (p'\<lparr>driver_tasks := as @ next_phase sid ph @ bs\<rparr>)"
proof (rule task_step_ok [OF assms(1,2)])
  fix i dr
  assume "drivers (p'\<lparr>driver_tasks := as @ next_phase sid ph @ bs\<rparr>) i = Some dr"
  then have "drivers p i = Some dr"
    using assms(3) by (auto simp: start_task_def forget_gone_sessions_def split: if_splits)
  then show "length (pending dr) \<le> PENDING_MAX_REPORTS" by (rule pipe_ok_pending [OF assms(1)])
qed (use assms(3) in \<open>auto simp: start_task_def forget_gone_sessions_def has_work_def\<close>)

lemma taken_ok:
  assumes "pipe_ok p" and "driver_tasks p = as @ (sid, AtTop) # bs" and "drive_top p sid = (ph, p')"
  shows "pipe_ok (p'\<lparr>driver_tasks := as @ next_phase sid ph @ bs\<rparr>)"
  by (rule task_step_ok [OF assms(1,2)])
     (use assms(3) pipe_ok_pending [OF assms(1)] in \<open>auto simp: drive_top_def take_pending_def has_work_def
        split: option.splits if_splits prod.splits\<close>)

lemma answered_ok:
  assumes "pipe_ok p" and "driver_tasks p = as @ (sid, Submitting reports) # bs"
    and "drive_answer d now p sid reports ans = (ph, evs, p')"
  shows "pipe_ok (p'\<lparr>driver_tasks := as @ next_phase sid ph @ bs\<rparr>)"
proof (cases ans)
  case NoLine
  then have p': "ph = None" "p' = p\<lparr>drivers := put_back (reg p) (drivers p) sid reports\<rparr>"
    using assms(3) by (simp_all add: drive_answer_def)
  show ?thesis
  proof (rule task_step_ok [OF assms(1,2)])
    fix i dr
    assume "drivers (p'\<lparr>driver_tasks := as @ next_phase sid ph @ bs\<rparr>) i = Some dr"
    then show "length (pending dr) \<le> PENDING_MAX_REPORTS"
      using p' pipe_ok_pending [OF assms(1), of i] pipe_ok_pending [OF assms(1), of sid]
      by (force simp: put_back_def Let_def split: option.splits if_splits)
  qed (use p' in \<open>auto simp: put_back_def has_work_def Let_def split: option.splits if_splits\<close>)
next
  case (CallLine l billed)
  let ?made = "if reports = [] then now else report_at (last reports)"
  obtain held evs' rg where pub: "publish d now (drivers p) (reg p) sid l ?made = (held, evs', rg)"
    by (metis prod_cases3)
  have held: "held \<longleftrightarrow> by_id (reg p) sid \<noteq> None" and dom: "by_id rg i = None \<longleftrightarrow> by_id (reg p) i = None" for i
    using publish_reg [of d now "drivers p" "reg p" sid l ?made] pub by simp_all
  show ?thesis
    by (rule task_step_ok [OF assms(1,2)])
       (use assms(3) CallLine pub held dom pipe_ok_pending [OF assms(1)] in
          \<open>auto simp: drive_answer_def Let_def has_work_def split: option.splits if_splits\<close>)
qed

lemma turn_step_ok: "turn_step p q \<Longrightarrow> pipe_ok p \<Longrightarrow> pipe_ok q"
proof (induction rule: turn_step.induct)
  case (changed rg p)
  then have "by_id rg i \<noteq> None \<longleftrightarrow> by_id (reg p) i \<noteq> None" for i by blast
  with changed.prems show ?case by (simp add: pipe_ok_def tasks_of_def)
next
  case (inserted p r)
  then have "tasks_of p (rec_id r) = 0" by (simp add: tasks_of_def count_list_0_iff)
  with inserted show ?case
    by (auto simp: pipe_ok_def tasks_of_def has_work_def insert_pending_def)
next
  case (removed p sid)
  then show ?case by (auto simp: pipe_ok_def tasks_of_def remove_def)
qed (simp_all add: join_report_ok started_ok taken_ok answered_ok)

lemma reachable_pipe_ok: "turn_step\<^sup>*\<^sup>* p q \<Longrightarrow> pipe_ok p \<Longrightarrow> pipe_ok q"
  by (induction rule: rtranclp_induct) (auto intro: turn_step_ok)

end
