(* ===== verification/Hooks.thy ===== *)
theory Hooks
  imports Turn_System
begin

text \<open>
  Hook events (\<open>crates/daemon/src/hook_status.rs\<close>): what one event of an agent's command line does
  to its session's record, in which order events apply, and the delivery of an event through the
  registry, the turn pipeline and the live-line channels.
\<close>

section \<open>Reports and plug-ins\<close>

datatype PendingUpdate = Clear | SetPending PendingInput | KeepOr PendingInput

record HookReport =
  rep_status :: "SessionStatus option"
  rep_pending :: PendingUpdate
  rep_conversation_id :: "string option"
  rep_last_message :: "string option"
  rep_failure :: "string option"
  rep_permission_mismatch :: "(string \<times> string) option"
  agent_ended :: bool
  agent_started :: bool
  subagent :: bool
  rep_background :: "bool option"
  stop_work :: "StopWork option"
  weak_idle :: bool

record LiveLine =
  live_text :: string
  live_index :: nat
  message_key :: "string option"
  prompt_key :: "string option"

text \<open>A hook event's body, as \<open>serde_json\<close> parsed it.\<close>

datatype json = JNull | JBool bool | JNum rat | JStr string | JArr "json list" | JObj "(string \<times> json) list"

text \<open>
  The plug-in of an agent, code of other crates behind a trait object: the tag and the title rules
  of its descriptor (ranges of code points, and a placeholder), and the two readings of a body.
\<close>

record Plugin =
  tag :: string
  glyphs :: "(nat \<times> nat) list"
  title_placeholder :: "string option"
  map_live_line :: "json \<Rightarrow> LiveLine option"
  map_hook_event :: "json \<Rightarrow> OptionValues option \<Rightarrow> bool \<Rightarrow> HookReport option"

record HookEnv =
  plugins :: "string \<rightharpoonup> Plugin"
  zone :: Zone
  clock :: int

definition tags :: "HookEnv \<Rightarrow> string \<rightharpoonup> string" where
  "tags env a = map_option tag (plugins env a)"

section \<open>Titles the agent painted\<close>

definition byte_at :: "string \<Rightarrow> nat \<Rightarrow> nat" where
  "byte_at s i = (if i < length s then of_char (s ! i) else 0)"

text \<open>The code point of the first character of a UTF-8 string, and the bytes after it.\<close>

definition first_char :: "string \<Rightarrow> (nat \<times> string) option" where
  "first_char s =
     (if s = [] then None
      else let b = byte_at s 0; c = (\<lambda>i. byte_at s i - 128)
           in Some (if b < 128 then (b, drop 1 s)
                    else if b < 224 then ((b - 192) * 64 + c 1, drop 2 s)
                    else if b < 240 then ((b - 224) * 4096 + c 1 * 64 + c 2, drop 3 s)
                    else ((b - 240) * 262144 + c 1 * 4096 + c 2 * 64 + c 3, drop 4 s)))"

definition is_agent_title :: "Plugin \<Rightarrow> string \<Rightarrow> bool" where
  "is_agent_title pl title =
     (if title_placeholder pl = Some title then True
      else (case first_char title of
              None \<Rightarrow> False
            | Some (c, rest) \<Rightarrow>
                list_ex (\<lambda>(first, last). first \<le> c \<and> c \<le> last) (glyphs pl) \<and>
                (rest = [] \<or> strip_one ws_encodings rest \<noteq> None)))"

definition clear_agent_title :: "HookEnv \<Rightarrow> SessionRecord \<Rightarrow> SessionRecord" where
  "clear_agent_title env r =
     (case plugins env (agent r) of
        None \<Rightarrow> r
      | Some pl \<Rightarrow>
          (case terminal_title r of
             Some title \<Rightarrow> if is_agent_title pl title then r\<lparr>terminal_title := None\<rparr> else r
           | None \<Rightarrow> r))"

section \<open>One event on a record\<close>

record Applied =
  entered_awaiting :: bool
  status_change :: "(SessionStatus \<times> SessionStatus) option"
  mismatch :: "(string \<times> string) option"
  agent_exited :: bool
  turn_report_of :: "string option"
  turn_alert :: "TurnAlert option"

definition no_effect :: Applied where
  "no_effect = \<lparr>entered_awaiting = False, status_change = None, mismatch = None, agent_exited = False,
     turn_report_of = None, turn_alert = None\<rparr>"

definition holds_turn_end :: "SessionRecord \<Rightarrow> HookReport \<Rightarrow> bool option" where
  "holds_turn_end r rep =
     (if status r = Working \<and> screen_open r then rep_background rep else None)"

definition hold_turn_end :: "SessionRecord \<Rightarrow> int \<Rightarrow> bool \<Rightarrow> nat \<Rightarrow> SessionRecord" where
  "hold_turn_end r now bg event_time =
     r\<lparr>turn_end := Some \<lparr>end_time = event_time, end_background = bg,
         end_alert = Option.bind (turn_end r) end_alert, held_at = now\<rparr>\<rparr>"

definition land_turn_end :: "SessionRecord \<Rightarrow> int \<Rightarrow> bool \<Rightarrow> TurnAlert option \<times> SessionRecord" where
  "land_turn_end r now keep_background =
     (case turn_end r of
        None \<Rightarrow> (None, r)
      | Some held \<Rightarrow>
          (end_alert held,
           (snd (apply_status (r\<lparr>turn_end := None\<rparr>) now Idle))
             \<lparr>background := (keep_background \<and> end_background held)\<rparr>))"

definition drop_turn_end :: "SessionRecord \<Rightarrow> SessionRecord" where
  "drop_turn_end r = r\<lparr>turn_end := None\<rparr>"

definition settle_hook_turn_end :: "SessionRecord \<Rightarrow> int \<Rightarrow> HookReport \<Rightarrow> TurnAlert option \<times> SessionRecord" where
  "settle_hook_turn_end r now rep =
     (if subagent rep then (None, r)
      else if weak_idle rep then land_turn_end r now True
      else if rep_status rep = Some Working then (None, drop_turn_end r)
      else (None, r))"

definition turn_report :: "SessionRecord \<Rightarrow> HookReport \<Rightarrow> string option" where
  "turn_report r rep =
     (if subagent rep \<or> mode r \<noteq> Interactive then None
      else (case rep_last_message rep of
              None \<Rightarrow> None
            | Some msg \<Rightarrow> let m = trim msg in if m = [] then None else Some m))"

definition leaves_pending_alone :: "SessionRecord \<Rightarrow> HookReport \<Rightarrow> bool" where
  "leaves_pending_alone r rep =
     (pending_input r \<noteq> None \<and> status r = AwaitingInput \<and> (subagent rep \<or> weak_idle rep))"

definition is_plain_id :: "string \<Rightarrow> bool" where
  "is_plain_id s =
     (s \<noteq> [] \<and> list_all (\<lambda>c. let b = (of_char c :: nat) in
        (48 \<le> b \<and> b \<le> 57) \<or> (65 \<le> b \<and> b \<le> 90) \<or> (97 \<le> b \<and> b \<le> 122) \<or> b = 45 \<or> b = 95) s)"

definition update_conversation_id :: "SessionRecord \<Rightarrow> string \<Rightarrow> SessionRecord" where
  "update_conversation_id r cid =
     (if is_plain_id cid \<and> conversation_id r \<noteq> Some cid then r\<lparr>conversation_id := Some cid\<rparr> else r)"

definition store_last_message :: "SessionRecord \<Rightarrow> string \<Rightarrow> SessionRecord" where
  "store_last_message r msg =
     (let m = trim msg
      in if m = [] then r
         else r\<lparr>last_assistant_message := Some (truncate_bytes m LAST_MESSAGE_MAX_BYTES)\<rparr>)"

text \<open>An event time that does not fit an \<open>i64\<close> of nanoseconds records no work.\<close>

definition record_stop_work :: "Zone \<Rightarrow> SessionRecord \<Rightarrow> StopWork option \<Rightarrow> nat \<Rightarrow> SessionRecord" where
  "record_stop_work z r w event_time =
     (case w of
        None \<Rightarrow> r
      | Some stop \<Rightarrow>
          if event_time < 2 ^ 63 then r\<lparr>work := apply_stop z (work r) stop (int event_time)\<rparr> else r)"

definition apply_details ::
    "HookEnv \<Rightarrow> SessionRecord \<Rightarrow> HookReport \<Rightarrow> nat \<Rightarrow> (string \<times> string) option \<times> SessionRecord" where
  "apply_details env r rep event_time =
     (let r1 = (case rep_conversation_id rep of None \<Rightarrow> r | Some cid \<Rightarrow> update_conversation_id r cid);
          r2 = (case rep_last_message rep of
                  Some msg \<Rightarrow> if subagent rep then r1 else store_last_message r1 msg
                | None \<Rightarrow> r1);
          r3 = (case rep_background rep of
                  Some bg \<Rightarrow> if turn_end r2 = None then r2\<lparr>background := bg\<rparr> else r2
                | None \<Rightarrow> r2);
          r4 = record_stop_work (zone env) r3 (stop_work rep) event_time;
          r5 = (case rep_failure rep of None \<Rightarrow> r4 | Some line \<Rightarrow> push_recent_action r4 (clock env) line)
      in (rep_permission_mismatch rep, r5))"

text \<open>The agent's end inside its shell: its announcement, its alert and the record.\<close>

definition apply_agent_end ::
    "HookEnv \<Rightarrow> SessionRecord \<Rightarrow> HookReport \<Rightarrow> bool \<times> TurnAlert option \<times> SessionRecord" where
  "apply_agent_end env r rep =
     (if \<not> (agent_ended rep \<and> shell_hosted r) then (False, None, r)
      else let r1 = r\<lparr>hook_driven := False\<rparr>;
               r2 = (if status r1 = AwaitingInput
                     then (snd (apply_status r1 (clock env) Idle))\<lparr>pending_input := None\<rparr> else r1)
           in (case land_turn_end r2 (clock env) False of (alert, r3) \<Rightarrow>
                (case end_agent_in_shell r3 of (exited, r4) \<Rightarrow>
                  (exited, alert, if exited then clear_agent_title env r4 else r4))))"

definition apply_pending :: "PendingUpdate \<Rightarrow> SessionRecord \<Rightarrow> SessionRecord" where
  "apply_pending u r =
     (case u of
        Clear \<Rightarrow> r\<lparr>pending_input := None\<rparr>
      | SetPending p \<Rightarrow> r\<lparr>pending_input := Some p\<rparr>
      | KeepOr p \<Rightarrow> if pending_input r = None then r\<lparr>pending_input := Some p\<rparr> else r)"

text \<open>The status write of an event: a held turn end, or the reported status unless a subagent's.\<close>

definition apply_report_status :: "HookEnv \<Rightarrow> SessionRecord \<Rightarrow> HookReport \<Rightarrow> nat \<Rightarrow> bool \<times> SessionRecord" where
  "apply_report_status env r rep event_time =
     (case holds_turn_end r rep of
        Some bg \<Rightarrow> (False, hold_turn_end r (clock env) bg event_time)
      | None \<Rightarrow>
          (case rep_status rep of
             None \<Rightarrow> (False, r)
           | Some st \<Rightarrow>
               if subagent rep \<and> st \<in> {Working, Idle} then (False, r)
               else apply_status r (clock env) st))"

definition apply_report :: "HookEnv \<Rightarrow> SessionRecord \<Rightarrow> HookReport \<Rightarrow> nat \<Rightarrow> Applied \<times> SessionRecord" where
  "apply_report env r rep event_time =
     (let r1 = (if agent_started rep then drop_turn_end (start_agent_in_shell (tags env) r) else r)
      in (case apply_agent_end env r1 rep of (exited, alert, r2) \<Rightarrow>
            if leaves_pending_alone r2 rep then
              (case apply_details env r2 rep event_time of (mm, r3) \<Rightarrow>
                 (\<lparr>entered_awaiting = False, status_change = None, mismatch = mm, agent_exited = exited,
                   turn_report_of = turn_report r3 rep, turn_alert = alert\<rparr>, r3))
            else
              (case (if alert = None then settle_hook_turn_end r2 (clock env) rep else (alert, r2)) of
                 (alert', r3) \<Rightarrow>
                   (case apply_report_status env r3 rep event_time of (entered, r4) \<Rightarrow>
                      (case apply_details env (apply_pending (rep_pending rep) r4) rep event_time of (mm, r5) \<Rightarrow>
                         (\<lparr>entered_awaiting = entered, status_change = None, mismatch = mm,
                           agent_exited = exited, turn_report_of = turn_report r5 rep,
                           turn_alert = alert'\<rparr>, r5))))))"

definition apply_to_record ::
    "HookEnv \<Rightarrow> SessionRecord \<Rightarrow> nat option \<Rightarrow> HookReport \<Rightarrow> Applied \<times> SessionRecord" where
  "apply_to_record env r event_time rep =
     (case event_time of
        None \<Rightarrow> (no_effect, r)
      | Some t \<Rightarrow>
          if (case last_hook_time r of None \<Rightarrow> False | Some l \<Rightarrow> t \<le> l) then (no_effect, r)
          else let r1 = r\<lparr>last_hook_time := Some t, hook_driven := True\<rparr>
               in if status r1 \<in> {Stopped, Error} then (no_effect, r1)
                  else (case apply_report env r1 rep t of (applied, r2) \<Rightarrow>
                          (applied\<lparr>status_change :=
                             (if status r2 \<noteq> status r1 then Some (status r1, status r2) else None)\<rparr>, r2)))"

section \<open>Delivery\<close>

text \<open>
  The hub as hook delivery uses it: the pipeline with the registry, the discovery waiters, and the
  live-line channels with their subscriber counts.
\<close>

record HookHub =
  pipe :: Pipeline
  discovery :: "string set"
  live_channels :: "string \<rightharpoonup> nat"

datatype HookOut =
    SessionEv SessionEvent
  | AttentionOut string AttentionReason
  | LiveOut string LiveLine

definition deregister :: "HookHub \<Rightarrow> string \<Rightarrow> HookHub" where
  "deregister hub sid = hub\<lparr>discovery := discovery hub - {sid}\<rparr>"

definition apply_signal ::
    "HookEnv \<Rightarrow> Disk \<Rightarrow> HookHub \<Rightarrow> string \<Rightarrow> nat option \<Rightarrow> HookReport \<Rightarrow> HookOut list \<times> HookHub" where
  "apply_signal env d hub sid event_time rep =
     (case by_id (reg (pipe hub)) sid of
        None \<Rightarrow> ([], hub)
      | Some r \<Rightarrow>
          (case apply_to_record env r event_time rep of (applied, r') \<Rightarrow>
             (let p1 = (case turn_report_of applied of
                          None \<Rightarrow> pipe hub
                        | Some msg \<Rightarrow> join_report (clock env) (pipe hub) sid msg)
              in (case update_then d (has_work (drivers p1)) (clock env) (reg p1) sid
                     (\<lambda>_. (map_option (alert_event sid) (turn_alert applied), r')) of
                    (_, evs, reg') \<Rightarrow>
                      (let hub1 = hub\<lparr>pipe := p1\<lparr>reg := reg'\<rparr>\<rparr>;
                           hub2 = (if agent_exited applied \<and> promoted_shell r' then deregister hub1 sid else hub1)
                       in (map SessionEv evs
                             @ (if entered_awaiting applied then [AttentionOut sid AttAwaitingInput] else [])
                             @ (if agent_exited applied then [SessionEv (AgentExited sid)] else []),
                           hub2))))))"

text \<open>
  The options and trust a record's events are mapped with, and the plug-in that reads them.
\<close>

definition hook_options_and_trust :: "SessionRecord \<Rightarrow> OptionValues option \<times> bool" where
  "hook_options_and_trust r =
     (let sel = Option.bind (spawn_config r) selection
      in if hook_agent r \<noteq> None \<and> sel = None then (Some (hook_options r), hook_trusted r)
         else (map_option snd sel,
               case spawn_config r of None \<Rightarrow> False | Some cfg \<Rightarrow> dangerously_skip_permissions cfg))"

definition plugin_for :: "HookEnv \<Rightarrow> SessionRecord \<Rightarrow> Plugin option" where
  "plugin_for env r = Option.bind (hook_plugin_agent r) (plugins env)"

definition map_for_record :: "HookEnv \<Rightarrow> SessionRecord \<Rightarrow> json \<Rightarrow> HookReport option" where
  "map_for_record env r body =
     (case plugin_for env r of
        None \<Rightarrow> None
      | Some pl \<Rightarrow> (case hook_options_and_trust r of (opts, trusted) \<Rightarrow> map_hook_event pl body opts trusted))"

text \<open>A channel without subscribers is dropped when a line is sent to it, and on the next subscribe.\<close>

definition publish_live :: "HookHub \<Rightarrow> string \<Rightarrow> LiveLine \<Rightarrow> HookOut list \<times> HookHub" where
  "publish_live hub sid l =
     (case live_channels hub sid of
        None \<Rightarrow> ([], hub)
      | Some 0 \<Rightarrow> ([], hub\<lparr>live_channels := (live_channels hub)(sid := None)\<rparr>)
      | Some (Suc _) \<Rightarrow> ([LiveOut sid l], hub))"

definition subscribe :: "HookHub \<Rightarrow> string \<Rightarrow> HookHub" where
  "subscribe hub sid =
     (let kept = (\<lambda>i. if live_channels hub i = Some 0 then None else live_channels hub i)
      in hub\<lparr>live_channels := kept(sid \<mapsto> (case kept sid of None \<Rightarrow> 1 | Some n \<Rightarrow> Suc n))\<rparr>)"

definition deliver ::
    "HookEnv \<Rightarrow> Disk \<Rightarrow> HookHub \<Rightarrow> string \<Rightarrow> SessionRecord \<Rightarrow> nat option \<Rightarrow> json \<Rightarrow> HookOut list \<times> HookHub" where
  "deliver env d hub sid r event_time body =
     (case plugin_for env r of
        None \<Rightarrow> ([], hub)
      | Some pl \<Rightarrow>
          (case map_live_line pl body of
             Some l \<Rightarrow> publish_live hub sid l
           | None \<Rightarrow>
               (case map_for_record env r body of
                  None \<Rightarrow> ([], hub)
                | Some rep \<Rightarrow>
                    (case apply_signal env d hub sid event_time rep of (outs, hub1) \<Rightarrow>
                       (let now_rec = (case by_id (reg (pipe hub1)) sid of Some r1 \<Rightarrow> r1 | None \<Rightarrow> r);
                            holds = (case rep_conversation_id rep of
                              Some cid \<Rightarrow> conversation_id now_rec = Some cid | None \<Rightarrow> False)
                        in (outs, if holds then deregister hub1 sid else hub1))))))"

section \<open>An event as a writer of the registry\<close>

text \<open>
  What the plug-ins promise of a report: only the main agent's turn end carries the background
  flag, and it reports \<open>Idle\<close>.
\<close>

definition report_ok :: "HookReport \<Rightarrow> bool" where
  "report_ok rep \<longleftrightarrow>
     (rep_background rep \<noteq> None \<longrightarrow> rep_status rep = Some Idle \<and> \<not> subagent rep \<and> \<not> weak_idle rep)"

lemma start_agent_in_shell_fields [record_simps]:
  "status (start_agent_in_shell tg r) = status r"
  "background (start_agent_in_shell tg r) = background r"
  "turn_end (start_agent_in_shell tg r) = turn_end r"
  "pending_input (start_agent_in_shell tg r) = pending_input r"
  "rec_id (start_agent_in_shell tg r) = rec_id r"
  "last_hook_time (start_agent_in_shell tg r) = last_hook_time r"
  "status_since (start_agent_in_shell tg r) = status_since r"
  "status_seq (start_agent_in_shell tg r) = status_seq r"
  "mode (start_agent_in_shell tg r) = mode r"
  "conversation_id (start_agent_in_shell tg r) = conversation_id r"
  "hook_driven (start_agent_in_shell tg r) = hook_driven r"
  "agent_in_shell (start_agent_in_shell tg r) = agent_in_shell r"
  by (simp_all add: start_agent_in_shell_def Let_def split: option.split)

lemma start_agent_in_shell_ok: "fields_ok r \<Longrightarrow> fields_ok (start_agent_in_shell tg r)"
  by (auto simp: fields_ok_def promoted_shell_def start_agent_in_shell_def Let_def split: option.split)

lemma end_agent_in_shell_fields [record_simps]:
  "status (snd (end_agent_in_shell r)) = status r"
  "background (snd (end_agent_in_shell r)) = background r"
  "turn_end (snd (end_agent_in_shell r)) = turn_end r"
  "pending_input (snd (end_agent_in_shell r)) = pending_input r"
  "rec_id (snd (end_agent_in_shell r)) = rec_id r"
  "last_hook_time (snd (end_agent_in_shell r)) = last_hook_time r"
  "status_since (snd (end_agent_in_shell r)) = status_since r"
  "status_seq (snd (end_agent_in_shell r)) = status_seq r"
  "mode (snd (end_agent_in_shell r)) = mode r"
  "conversation_id (snd (end_agent_in_shell r)) = conversation_id r"
  "hook_driven (snd (end_agent_in_shell r)) = hook_driven r"
  "agent_in_shell (snd (end_agent_in_shell r)) = agent_in_shell r"
  by (simp_all add: end_agent_in_shell_def Let_def split: option.split)

lemma end_agent_in_shell_ok: "fields_ok r \<Longrightarrow> fields_ok (snd (end_agent_in_shell r))"
  by (auto simp: fields_ok_def promoted_shell_def end_agent_in_shell_def Let_def split: option.split)

lemma clear_agent_title_fields [record_simps]:
  "status (clear_agent_title env r) = status r"
  "background (clear_agent_title env r) = background r"
  "turn_end (clear_agent_title env r) = turn_end r"
  "pending_input (clear_agent_title env r) = pending_input r"
  "rec_id (clear_agent_title env r) = rec_id r"
  "last_hook_time (clear_agent_title env r) = last_hook_time r"
  "status_since (clear_agent_title env r) = status_since r"
  "status_seq (clear_agent_title env r) = status_seq r"
  "mode (clear_agent_title env r) = mode r"
  "conversation_id (clear_agent_title env r) = conversation_id r"
  "hook_driven (clear_agent_title env r) = hook_driven r"
  "agent_in_shell (clear_agent_title env r) = agent_in_shell r"
  by (simp_all add: clear_agent_title_def split: option.split)

lemma clear_agent_title_ok: "fields_ok r \<Longrightarrow> fields_ok (clear_agent_title env r)"
  by (auto simp: fields_ok_def promoted_shell_def clear_agent_title_def split: option.split)

lemma land_turn_end_fields [record_simps]:
  "turn_end (snd (land_turn_end r now keep)) = None"
  "status (snd (land_turn_end r now keep)) = (if turn_end r = None then status r else Idle)"
  "background (snd (land_turn_end r now keep)) =
     (case turn_end r of None \<Rightarrow> background r | Some held \<Rightarrow> keep \<and> end_background held)"
  "pending_input (snd (land_turn_end r now keep)) = pending_input r"
  "rec_id (snd (land_turn_end r now keep)) = rec_id r"
  "last_hook_time (snd (land_turn_end r now keep)) = last_hook_time r"
  "status_since (snd (land_turn_end r now keep)) = status_since r"
  "status_seq (snd (land_turn_end r now keep)) = status_seq r"
  "mode (snd (land_turn_end r now keep)) = mode r"
  "conversation_id (snd (land_turn_end r now keep)) = conversation_id r"
  "hook_driven (snd (land_turn_end r now keep)) = hook_driven r"
  "agent_in_shell (snd (land_turn_end r now keep)) = agent_in_shell r"
  by (auto simp: land_turn_end_def record_simps split: option.split)

lemma land_turn_end_alert: "fst (land_turn_end r now keep) = Option.bind (turn_end r) end_alert"
  by (simp add: land_turn_end_def split: option.split)

lemma land_turn_end_ok:
  assumes "fields_ok r"
  shows "fields_ok (snd (land_turn_end r now keep))"
proof (cases "turn_end r")
  case (Some held)
  have "fields_ok (r\<lparr>turn_end := None\<rparr>)" using assms by (simp add: fields_ok_def promoted_shell_def)
  from apply_status_ok [OF this, of now Idle] Some show ?thesis
    by (auto simp: land_turn_end_def record_simps fields_ok_def promoted_shell_def)
qed (use assms in \<open>simp add: land_turn_end_def\<close>)

lemma apply_agent_end_fields [record_simps]:
  "rec_id (snd (snd (apply_agent_end env r rep))) = rec_id r"
  "last_hook_time (snd (snd (apply_agent_end env r rep))) = last_hook_time r"
  "mode (snd (snd (apply_agent_end env r rep))) = mode r"
  "turn_end (snd (snd (apply_agent_end env r rep))) =
     (if agent_ended rep \<and> shell_hosted r then None else turn_end r)"
  "status (snd (snd (apply_agent_end env r rep))) =
     (if agent_ended rep \<and> shell_hosted r \<and> (status r = AwaitingInput \<or> turn_end r \<noteq> None)
      then Idle else status r)"
  by (auto simp: apply_agent_end_def Let_def case_prod_beta record_simps)

lemma apply_agent_end_ok:
  assumes "fields_ok r"
  shows "fields_ok (snd (snd (apply_agent_end env r rep)))"
proof -
  have 1: "fields_ok (r\<lparr>hook_driven := False\<rparr>)" using assms by (simp add: fields_ok_def promoted_shell_def)
  have "fields_ok ((snd (apply_status (r\<lparr>hook_driven := False\<rparr>) (clock env) Idle))\<lparr>pending_input := None\<rparr>)"
    using apply_status_ok [OF 1] by (simp add: fields_ok_def promoted_shell_def)
  with 1 assms show ?thesis
    by (simp add: apply_agent_end_def Let_def case_prod_beta clear_agent_title_ok end_agent_in_shell_ok land_turn_end_ok)
qed

lemma settle_hook_turn_end_fields [record_simps]:
  "rec_id (snd (settle_hook_turn_end r now rep)) = rec_id r"
  "last_hook_time (snd (settle_hook_turn_end r now rep)) = last_hook_time r"
  "mode (snd (settle_hook_turn_end r now rep)) = mode r"
  "status (snd (settle_hook_turn_end r now rep)) =
     (if \<not> subagent rep \<and> weak_idle rep \<and> turn_end r \<noteq> None then Idle else status r)"
  "turn_end (snd (settle_hook_turn_end r now rep)) =
     (if \<not> subagent rep \<and> (weak_idle rep \<or> rep_status rep = Some Working) then None else turn_end r)"
  by (auto simp: settle_hook_turn_end_def drop_turn_end_def record_simps)

lemma settle_hook_turn_end_ok: "fields_ok r \<Longrightarrow> fields_ok (snd (settle_hook_turn_end r now rep))"
  using land_turn_end_ok [of r now True]
  by (auto simp: settle_hook_turn_end_def drop_turn_end_def fields_ok_def promoted_shell_def)

lemma apply_report_status_fields [record_simps]:
  "rec_id (snd (apply_report_status env r rep t)) = rec_id r"
  "last_hook_time (snd (apply_report_status env r rep t)) = last_hook_time r"
  "mode (snd (apply_report_status env r rep t)) = mode r"
  "pending_input (snd (apply_report_status env r rep t)) = pending_input r"
  by (auto simp: apply_report_status_def hold_turn_end_def record_simps split: option.split)

lemma apply_report_status_cases:
  obtains bg where "holds_turn_end r rep = Some bg" "status r = Working"
      "apply_report_status env r rep t = (False, hold_turn_end r (clock env) bg t)"
  | "holds_turn_end r rep = None" "rep_status rep = None \<or> subagent rep \<and> rep_status rep \<in> {Some Working, Some Idle}"
      "apply_report_status env r rep t = (False, r)"
  | st where "holds_turn_end r rep = None" "rep_status rep = Some st" "\<not> (subagent rep \<and> st \<in> {Working, Idle})"
      "apply_report_status env r rep t = apply_status r (clock env) st"
proof (cases "holds_turn_end r rep")
  case None
  show ?thesis
  proof (cases "rep_status rep")
    case (Some st)
    with None that(2,3) show ?thesis by (cases "subagent rep \<and> st \<in> {Working, Idle}") (auto simp: apply_report_status_def)
  qed (use None that(2) in \<open>simp add: apply_report_status_def\<close>)
next
  case (Some bg)
  then have "status r = Working" by (simp add: holds_turn_end_def split: if_splits)
  with Some that(1) show ?thesis by (simp add: apply_report_status_def)
qed

lemma apply_report_status_turn_end:
  "turn_end (snd (apply_report_status env r rep t)) \<noteq> None \<Longrightarrow>
     turn_end r \<noteq> None \<or> status (snd (apply_report_status env r rep t)) = Working"
  by (rule apply_report_status_cases [of r rep env t]) (auto simp: hold_turn_end_def record_simps)

lemma hold_turn_end_ok: "fields_ok r \<Longrightarrow> fields_ok (hold_turn_end r now bg t)"
  by (simp add: hold_turn_end_def fields_ok_def promoted_shell_def)

lemma apply_report_status_ok: "fields_ok r \<Longrightarrow> fields_ok (snd (apply_report_status env r rep t))"
  by (rule apply_report_status_cases [of r rep env t]) (simp_all add: hold_turn_end_ok apply_status_ok)

text \<open>Where the flag is written, the status is \<open>Idle\<close>.\<close>

lemma apply_report_status_idle:
  "report_ok rep \<Longrightarrow> rep_background rep \<noteq> None \<Longrightarrow> turn_end (snd (apply_report_status env r rep t)) = None \<Longrightarrow>
     status (snd (apply_report_status env r rep t)) = Idle"
  by (rule apply_report_status_cases [of r rep env t]) (auto simp: report_ok_def hold_turn_end_def record_simps)

lemma apply_pending_fields [record_simps]:
  "rec_id (apply_pending u r) = rec_id r"
  "last_hook_time (apply_pending u r) = last_hook_time r"
  "mode (apply_pending u r) = mode r"
  "status (apply_pending u r) = status r"
  "turn_end (apply_pending u r) = turn_end r"
  "background (apply_pending u r) = background r"
  by (simp_all add: apply_pending_def split: PendingUpdate.split)

lemma apply_pending_ok: "fields_ok r \<Longrightarrow> fields_ok (apply_pending u r)"
  by (simp add: fields_ok_def promoted_shell_def apply_pending_def split: PendingUpdate.split)

lemma apply_details_fields [record_simps]:
  "rec_id (snd (apply_details env r rep t)) = rec_id r"
  "last_hook_time (snd (apply_details env r rep t)) = last_hook_time r"
  "mode (snd (apply_details env r rep t)) = mode r"
  "status (snd (apply_details env r rep t)) = status r"
  "turn_end (snd (apply_details env r rep t)) = turn_end r"
  "pending_input (snd (apply_details env r rep t)) = pending_input r"
  by (auto simp: apply_details_def Let_def record_simps record_stop_work_def store_last_message_def
      update_conversation_id_def split: option.split)

lemma update_conversation_id_ok: "fields_ok r \<Longrightarrow> fields_ok (update_conversation_id r cid)"
  by (simp add: fields_ok_def promoted_shell_def update_conversation_id_def)

lemma store_last_message_ok: "fields_ok r \<Longrightarrow> fields_ok (store_last_message r msg)"
  using truncate_bytes_length by (auto simp: fields_ok_def promoted_shell_def store_last_message_def Let_def)

lemma record_stop_work_ok: "fields_ok r \<Longrightarrow> fields_ok (record_stop_work z r w t)"
  by (simp add: fields_ok_def promoted_shell_def record_stop_work_def split: option.split)

lemma set_background_ok: "fields_ok r \<Longrightarrow> (bg \<Longrightarrow> status r = Idle) \<Longrightarrow> fields_ok (r\<lparr>background := bg\<rparr>)"
  by (simp add: fields_ok_def promoted_shell_def)

lemma apply_details_ok:
  assumes "fields_ok r" and "\<And>bg. rep_background rep = Some bg \<Longrightarrow> turn_end r = None \<Longrightarrow> status r = Idle"
  shows "fields_ok (snd (apply_details env r rep t))"
proof -
  define r1 where "r1 = (case rep_conversation_id rep of None \<Rightarrow> r | Some cid \<Rightarrow> update_conversation_id r cid)"
  define r2 where "r2 = (case rep_last_message rep of
      Some msg \<Rightarrow> if subagent rep then r1 else store_last_message r1 msg | None \<Rightarrow> r1)"
  define r3 where "r3 = (case rep_background rep of
      Some bg \<Rightarrow> if turn_end r2 = None then r2\<lparr>background := bg\<rparr> else r2 | None \<Rightarrow> r2)"
  have "turn_end r2 = turn_end r" "status r2 = status r"
    by (auto simp: r2_def r1_def update_conversation_id_def store_last_message_def Let_def split: option.split)
  moreover have "fields_ok r2"
    using assms(1) by (auto simp: r2_def r1_def update_conversation_id_ok store_last_message_ok split: option.split)
  ultimately have "fields_ok r3"
    using assms(2) by (auto simp: r3_def set_background_ok split: option.split)
  then show ?thesis
    unfolding apply_details_def Let_def snd_conv r1_def [symmetric] r2_def [symmetric] r3_def [symmetric]
    by (simp add: record_stop_work_ok fields_ok_recent split: option.split)
qed

text \<open>The stages of an event: the agent's start, its end, the held turn end, and the status.\<close>

lemma apply_report_stages:
  obtains r1 r2 r3 r4 where
    "r1 = (if agent_started rep then drop_turn_end (start_agent_in_shell (tags env) r) else r)"
    and "r2 = snd (snd (apply_agent_end env r1 rep))"
    and "r3 = (if fst (snd (apply_agent_end env r1 rep)) = None
               then snd (settle_hook_turn_end r2 (clock env) rep) else r2)"
    and "r4 = snd (apply_report_status env r3 rep t)"
    and "snd (apply_report env r rep t) =
           (if leaves_pending_alone r2 rep then snd (apply_details env r2 rep t)
            else snd (apply_details env (apply_pending (rep_pending rep) r4) rep t))"
proof (rule that [OF refl refl refl refl])
  show "snd (apply_report env r rep t) =
     (if leaves_pending_alone
          (snd (snd (apply_agent_end env
            (if agent_started rep then drop_turn_end (start_agent_in_shell (tags env) r) else r) rep))) rep
      then snd (apply_details env (snd (snd (apply_agent_end env
            (if agent_started rep then drop_turn_end (start_agent_in_shell (tags env) r) else r) rep))) rep t)
      else snd (apply_details env (apply_pending (rep_pending rep) (snd (apply_report_status env
            (if fst (snd (apply_agent_end env
                (if agent_started rep then drop_turn_end (start_agent_in_shell (tags env) r) else r) rep)) = None
             then snd (settle_hook_turn_end (snd (snd (apply_agent_end env
                (if agent_started rep then drop_turn_end (start_agent_in_shell (tags env) r) else r) rep))) (clock env) rep)
             else snd (snd (apply_agent_end env
                (if agent_started rep then drop_turn_end (start_agent_in_shell (tags env) r) else r) rep))) rep t))) rep t))"
    unfolding apply_report_def Let_def case_prod_beta by (simp add: if_distrib [of snd])
qed

lemma apply_report_fixed [record_simps]:
  "rec_id (snd (apply_report env r rep t)) = rec_id r"
  "last_hook_time (snd (apply_report env r rep t)) = last_hook_time r"
  "mode (snd (apply_report env r rep t)) = mode r"
  by (rule apply_report_stages [of rep env r t], simp add: drop_turn_end_def record_simps)+

lemma apply_report_turn_end:
  assumes "turn_end (snd (apply_report env r rep t)) \<noteq> None"
  shows "turn_end r \<noteq> None \<or> status (snd (apply_report env r rep t)) = Working"
proof (rule apply_report_stages [of rep env r t])
  fix r1 r2 r3 r4
  assume s: "r1 = (if agent_started rep then drop_turn_end (start_agent_in_shell (tags env) r) else r)"
    "r2 = snd (snd (apply_agent_end env r1 rep))"
    "r3 = (if fst (snd (apply_agent_end env r1 rep)) = None then snd (settle_hook_turn_end r2 (clock env) rep) else r2)"
    "r4 = snd (apply_report_status env r3 rep t)"
    "snd (apply_report env r rep t) =
       (if leaves_pending_alone r2 rep then snd (apply_details env r2 rep t)
        else snd (apply_details env (apply_pending (rep_pending rep) r4) rep t))"
  have "turn_end r1 \<noteq> None \<Longrightarrow> turn_end r \<noteq> None"
    by (simp add: s(1) drop_turn_end_def record_simps split: if_splits)
  moreover have "turn_end r2 \<noteq> None \<Longrightarrow> turn_end r1 \<noteq> None" by (simp add: s(2) record_simps split: if_splits)
  moreover have "turn_end r3 \<noteq> None \<Longrightarrow> turn_end r2 \<noteq> None" by (simp add: s(3) record_simps split: if_splits)
  moreover have "turn_end r4 \<noteq> None \<Longrightarrow> turn_end r3 \<noteq> None \<or> status r4 = Working"
    unfolding s(4) by (rule apply_report_status_turn_end)
  ultimately show ?thesis using assms unfolding s(5) by (cases "leaves_pending_alone r2 rep") (auto simp: record_simps)
qed

lemma apply_report_ok:
  assumes "fields_ok r" and rep: "report_ok rep"
  shows "fields_ok (snd (apply_report env r rep t))"
proof (rule apply_report_stages [of rep env r t])
  fix r1 r2 r3 r4
  assume s: "r1 = (if agent_started rep then drop_turn_end (start_agent_in_shell (tags env) r) else r)"
    "r2 = snd (snd (apply_agent_end env r1 rep))"
    "r3 = (if fst (snd (apply_agent_end env r1 rep)) = None then snd (settle_hook_turn_end r2 (clock env) rep) else r2)"
    "r4 = snd (apply_report_status env r3 rep t)"
    "snd (apply_report env r rep t) =
       (if leaves_pending_alone r2 rep then snd (apply_details env r2 rep t)
        else snd (apply_details env (apply_pending (rep_pending rep) r4) rep t))"
  have "fields_ok (drop_turn_end (start_agent_in_shell (tags env) r))"
    using start_agent_in_shell_ok [OF assms(1)] by (simp add: drop_turn_end_def fields_ok_def promoted_shell_def)
  then have "fields_ok r1" using assms(1) by (simp add: s(1))
  then have 2: "fields_ok r2" by (simp add: s(2) apply_agent_end_ok)
  then have "fields_ok r3" by (simp add: s(3) settle_hook_turn_end_ok)
  then have 4: "fields_ok (apply_pending (rep_pending rep) r4)" by (simp add: s(4) apply_report_status_ok apply_pending_ok)
  have "rep_background rep = None" if "leaves_pending_alone r2 rep"
    using that rep by (auto simp: leaves_pending_alone_def report_ok_def)
  moreover have "status r4 = Idle" if "rep_background rep = Some bg" "turn_end r4 = None" for bg
    using apply_report_status_idle [OF rep, of env r3 t] that by (simp add: s(4))
  ultimately show ?thesis unfolding s(5) using 2 4
    by (cases "leaves_pending_alone r2 rep") (auto simp: record_simps intro!: apply_details_ok)
qed

lemma apply_to_record_cases:
  obtains "apply_to_record env r et rep = (no_effect, r)"
      "et = None \<or> (\<exists>t l. et = Some t \<and> last_hook_time r = Some l \<and> t \<le> l)"
  | t where "et = Some t" "\<And>l. last_hook_time r = Some l \<Longrightarrow> l < t" "status r \<in> {Stopped, Error}"
      "apply_to_record env r et rep = (no_effect, r\<lparr>last_hook_time := Some t, hook_driven := True\<rparr>)"
  | t where "et = Some t" "\<And>l. last_hook_time r = Some l \<Longrightarrow> l < t" "status r \<notin> {Stopped, Error}"
      "snd (apply_to_record env r et rep) = snd (apply_report env (r\<lparr>last_hook_time := Some t, hook_driven := True\<rparr>) rep t)"
proof (cases et)
  case None
  with that(1) show ?thesis by (simp add: apply_to_record_def)
next
  case (Some t)
  show ?thesis
  proof (cases "\<exists>l. last_hook_time r = Some l \<and> t \<le> l")
    case True
    with Some that(1) show ?thesis by (auto simp: apply_to_record_def)
  next
    case False
    then have fresh: "\<And>l. last_hook_time r = Some l \<Longrightarrow> l < t" by auto
    from False have ordered: "\<not> (case last_hook_time r of None \<Rightarrow> False | Some l \<Rightarrow> t \<le> l)"
      by (auto split: option.split)
    show ?thesis
    proof (cases "status r \<in> {Stopped, Error}")
      case True
      show ?thesis
        by (rule that(2) [OF Some fresh True]) (use True in \<open>simp_all add: Some apply_to_record_def ordered\<close>)
    next
      case no: False
      show ?thesis
        by (rule that(3) [OF Some fresh no])
           (use no in \<open>simp_all add: Some apply_to_record_def ordered case_prod_beta Let_def\<close>)
    qed
  qed
qed

lemma apply_to_record_id: "rec_id (snd (apply_to_record env r et rep)) = rec_id r"
  by (rule apply_to_record_cases [of env r et rep]) (simp_all add: record_simps)

lemma apply_to_record_written:
  assumes "record_ok r" and "report_ok rep"
  shows "written_ok (status r) (snd (apply_to_record env r et rep))"
proof (rule apply_to_record_cases [of env r et rep])
  fix t
  let ?r1 = "r\<lparr>last_hook_time := Some t, hook_driven := True\<rparr>"
  have ok: "fields_ok ?r1" using assms(1) by (simp add: record_ok_def fields_ok_def promoted_shell_def)
  show ?thesis if "snd (apply_to_record env r et rep) = snd (apply_report env ?r1 rep t)"
    using apply_report_ok [OF ok assms(2)] apply_report_turn_end [of env ?r1 rep t] assms(1)
    by (auto simp: that written_ok_def record_ok_def)
  show ?thesis if "apply_to_record env r et rep = (no_effect, ?r1)"
    using that ok assms(1) by (auto simp: written_ok_def record_ok_def)
qed (use assms(1) in \<open>simp add: record_ok_written\<close>)

text \<open>An event under the plug-ins' promise meets the contract of the registry.\<close>

lemma hook_writer:
  "report_ok rep \<Longrightarrow> record_writer (\<lambda>r. (Some (ev r), snd (apply_to_record env r et rep)))"
  by unfold_locales (simp_all add: apply_to_record_written apply_to_record_id)

end
