(* ===== verification/Hook_Buffer.thy ===== *)
theory Hook_Buffer
  imports Hooks
begin

text \<open>
  Hook events that arrive before their session is inserted (\<open>PendingHooks\<close> of
  \<open>crates/daemon/src/hook_status.rs\<close>): held by session id within count, byte and age caps, and
  replayed into the record when its spawn inserts it.
\<close>

section \<open>Data\<close>

definition PENDING_HOOK_TTL :: int where "PENDING_HOOK_TTL = 30 * 10 ^ 9"
definition PENDING_HOOK_MAX_PER_SESSION :: nat where "PENDING_HOOK_MAX_PER_SESSION = 32"
definition PENDING_HOOK_MAX_SESSIONS :: nat where "PENDING_HOOK_MAX_SESSIONS = 64"
definition PENDING_HOOK_MAX_BYTES_PER_SESSION :: nat where "PENDING_HOOK_MAX_BYTES_PER_SESSION = 256 * 1024"
definition PENDING_HOOK_MAX_BYTES :: nat where "PENDING_HOOK_MAX_BYTES = 8 * 1024 * 1024"

record PendingHook =
  hook_at :: int
  hook_seq :: nat
  hook_event_time :: "nat option"
  hook_body :: json
  hook_len :: nat

text \<open>
  The map is an association list in the order its iterator yields; \<open>next_seq\<close> is the arrival
  counter.
\<close>

type_synonym held_sessions = "(string \<times> PendingHook list) list"

record Held =
  held_map :: held_sessions
  next_seq :: nat

definition held_bytes :: "PendingHook list \<Rightarrow> nat" where
  "held_bytes events = sum_list (map hook_len events)"

definition total_bytes :: "held_sessions \<Rightarrow> nat" where
  "total_bytes m = sum_list (map (\<lambda>(_, events). held_bytes events) m)"

section \<open>Caps\<close>

text \<open>\<open>Instant::saturating_duration_since\<close>: an arrival after \<open>now\<close> has age zero.\<close>

definition unexpired :: "int \<Rightarrow> PendingHook \<Rightarrow> bool" where
  "unexpired now e = (max 0 (now - hook_at e) < PENDING_HOOK_TTL)"

definition prune_expired :: "int \<Rightarrow> held_sessions \<Rightarrow> held_sessions" where
  "prune_expired now m =
     filter (\<lambda>(_, events). events \<noteq> []) (map (\<lambda>(sid, events). (sid, filter (unexpired now) events)) m)"

text \<open>\<open>min_by_key\<close> over the newest event's arrival number: the first entry with the least key.\<close>

definition last_seq :: "PendingHook list \<Rightarrow> nat option" where
  "last_seq events = (if events = [] then None else Some (hook_seq (last events)))"

fun opt_less :: "nat option \<Rightarrow> nat option \<Rightarrow> bool" where
  "opt_less None (Some _) = True"
| "opt_less (Some a) (Some b) = (a < b)"
| "opt_less _ None = False"

fun oldest :: "held_sessions \<Rightarrow> (string \<times> PendingHook list) option" where
  "oldest [] = None"
| "oldest ((sid, events) # m) =
     (case oldest m of
        None \<Rightarrow> Some (sid, events)
      | Some (sid', events') \<Rightarrow>
          if opt_less (last_seq events') (last_seq events) then Some (sid', events') else Some (sid, events))"

definition evict_oldest_session :: "held_sessions \<Rightarrow> string \<Rightarrow> bool \<times> held_sessions" where
  "evict_oldest_session m keep =
     (case oldest (filter (\<lambda>(sid, _). sid \<noteq> keep) m) of
        None \<Rightarrow> (False, m)
      | Some (sid, _) \<Rightarrow> (True, filter (\<lambda>(i, _). i \<noteq> sid) m))"

text \<open>Drop the session's oldest events until one of \<open>len\<close> bytes fits its count and byte caps.\<close>

fun make_room :: "nat \<Rightarrow> PendingHook list \<Rightarrow> PendingHook list" where
  "make_room len [] = []"
| "make_room len (e # events) =
     (if PENDING_HOOK_MAX_PER_SESSION \<le> length (e # events) \<or>
         PENDING_HOOK_MAX_BYTES_PER_SESSION < held_bytes (e # events) + len
      then make_room len events else e # events)"

lemma oldest_mem: "oldest m = Some x \<Longrightarrow> x \<in> set m"
  by (induction m arbitrary: x rule: oldest.induct) (auto split: option.splits if_splits)

lemma evict_shorter [termination_simp]:
  "evict_oldest_session m keep = (True, m') \<Longrightarrow> length m' < length m"
  by (auto simp: evict_oldest_session_def split: option.splits dest!: oldest_mem intro!: length_filter_less)

text \<open>Evict other sessions, oldest first, until \<open>len\<close> more bytes fit the total cap.\<close>

function evict_until :: "nat \<Rightarrow> string \<Rightarrow> held_sessions \<Rightarrow> held_sessions" where
  "evict_until len keep m =
     (if PENDING_HOOK_MAX_BYTES < total_bytes m + len
      then (case evict_oldest_session m keep of (True, m') \<Rightarrow> evict_until len keep m' | (False, m') \<Rightarrow> m')
      else m)"
  by pat_completeness auto
termination
  by (relation "measure (\<lambda>(len, keep, m). length m)") (auto dest: evict_shorter [OF sym])

declare evict_until.simps [simp del]

text \<open>\<open>entry(id).or_default().push(event)\<close>\<close>

fun push_event :: "held_sessions \<Rightarrow> string \<Rightarrow> PendingHook \<Rightarrow> held_sessions" where
  "push_event [] sid e = [(sid, [e])]"
| "push_event ((i, events) # m) sid e =
     (if i = sid then (i, events @ [e]) # m else (i, events) # push_event m sid e)"

definition hold :: "held_sessions \<Rightarrow> string \<Rightarrow> PendingHook \<Rightarrow> held_sessions" where
  "hold m sid e =
     (let m1 = (if map_of m sid = None \<and> PENDING_HOOK_MAX_SESSIONS \<le> length m
                then snd (evict_oldest_session m sid) else m);
          m2 = map (\<lambda>(i, events). (i, if i = sid then make_room (hook_len e) events else events)) m1;
          m3 = evict_until (hook_len e) sid m2
      in push_event m3 sid e)"

section \<open>Deferring and inserting\<close>

record HookSystem =
  hub :: HookHub
  held :: Held

text \<open>\<open>now\<close> is the monotonic clock the buffer reads.\<close>

definition defer_event ::
    "HookEnv \<Rightarrow> Disk \<Rightarrow> int \<Rightarrow> HookSystem \<Rightarrow> string \<Rightarrow> nat option \<Rightarrow> json \<Rightarrow> nat \<Rightarrow> HookOut list \<times> HookSystem" where
  "defer_event env d now s sid event_time body len =
     (let m = prune_expired now (held_map (held s))
      in (case by_id (reg (pipe (hub s))) sid of
            Some r \<Rightarrow>
              (case deliver env d (hub s) sid r event_time body of (outs, hub') \<Rightarrow>
                 (outs, s\<lparr>hub := hub', held := (held s)\<lparr>held_map := m\<rparr>\<rparr>))
          | None \<Rightarrow>
              if PENDING_HOOK_MAX_BYTES_PER_SESSION < len then ([], s\<lparr>held := (held s)\<lparr>held_map := m\<rparr>\<rparr>)
              else ([], s\<lparr>held := \<lparr>held_map = hold m sid \<lparr>hook_at = now, hook_seq = next_seq (held s),
                             hook_event_time = event_time, hook_body = body, hook_len = len\<rparr>,
                           next_seq = Suc (next_seq (held s))\<rparr>\<rparr>)))"

text \<open>One held event on the record: mapped by its plug-in, or skipped.\<close>

definition replay_one :: "HookEnv \<Rightarrow> SessionRecord \<Rightarrow> PendingHook \<Rightarrow> SessionRecord" where
  "replay_one env r e =
     (case map_for_record env r (hook_body e) of
        None \<Rightarrow> r
      | Some rep \<Rightarrow> snd (apply_to_record env r (hook_event_time e) rep))"

definition events_of :: "held_sessions \<Rightarrow> string \<Rightarrow> PendingHook list" where
  "events_of m sid = (case map_of m sid of None \<Rightarrow> [] | Some events \<Rightarrow> events)"

text \<open>The answer is whether the record waits on a prompt after the whole replay.\<close>

definition insert_with_pending ::
    "HookEnv \<Rightarrow> int \<Rightarrow> HookSystem \<Rightarrow> SessionRecord \<Rightarrow> bool \<times> HookSystem" where
  "insert_with_pending env now s r =
     (let m = prune_expired now (held_map (held s));
          r' = foldl (replay_one env) r (events_of m (rec_id r));
          p = pipe (hub s)
      in (status r' = AwaitingInput \<and> pending_input r' \<noteq> None,
          s\<lparr>held := (held s)\<lparr>held_map := filter (\<lambda>(i, _). i \<noteq> rec_id r) m\<rparr>,
            hub := (hub s)\<lparr>pipe := p\<lparr>reg := insert_pending (reg p) r'\<rparr>\<rparr>\<rparr>))"

section \<open>The caps hold\<close>

text \<open>What is kept of the events of one session below the arrival counter \<open>n\<close>.\<close>

definition events_ok :: "nat \<Rightarrow> PendingHook list \<Rightarrow> bool" where
  "events_ok n events \<longleftrightarrow>
     length events \<le> PENDING_HOOK_MAX_PER_SESSION \<and>
     held_bytes events \<le> PENDING_HOOK_MAX_BYTES_PER_SESSION \<and>
     sorted_wrt (<) (map hook_seq events) \<and> (\<forall>e \<in> set events. hook_seq e < n)"

definition sessions_ok :: "nat \<Rightarrow> held_sessions \<Rightarrow> bool" where
  "sessions_ok n m \<longleftrightarrow> distinct (map fst m) \<and> (\<forall>x \<in> set m. events_ok n (snd x))"

definition buffer_ok :: "Held \<Rightarrow> bool" where
  "buffer_ok b \<longleftrightarrow>
     sessions_ok (next_seq b) (held_map b) \<and> (\<forall>x \<in> set (held_map b). snd x \<noteq> []) \<and>
     length (held_map b) \<le> PENDING_HOOK_MAX_SESSIONS \<and> total_bytes (held_map b) \<le> PENDING_HOOK_MAX_BYTES"

text \<open>Dropping sessions by id: what every eviction does.\<close>

definition without :: "string set \<Rightarrow> held_sessions \<Rightarrow> held_sessions" where
  "without X m = filter (\<lambda>x. fst x \<notin> X) m"

lemma without_simps [simp]: "without {} m = m" "without X (without Y m) = without (X \<union> Y) m"
  by (auto simp: without_def intro!: filter_cong)

lemma without_ok: "sessions_ok n m \<Longrightarrow> sessions_ok n (without X m)"
  by (auto simp: sessions_ok_def without_def distinct_map_filter)

lemma total_bytes_without: "total_bytes (without X m) \<le> total_bytes m"
  by (induction m) (auto simp: total_bytes_def without_def)

lemma events_of_without: "events_of (without X m) i = (if i \<in> X then [] else events_of m i)"
  by (induction m) (auto simp: events_of_def without_def split: option.splits)

lemma evict_oldest_without:
  "\<exists>X. snd (evict_oldest_session m keep) = without X m \<and> keep \<notin> X \<and>
     (fst (evict_oldest_session m keep) \<longrightarrow> (\<exists>x \<in> set m. fst x \<in> X)) \<and>
     (\<not> fst (evict_oldest_session m keep) \<longrightarrow> (\<forall>x \<in> set m. fst x = keep))"
proof (cases "oldest (filter (\<lambda>(sid, _). sid \<noteq> keep) m)")
  case None
  then have "filter (\<lambda>(sid, _). sid \<noteq> keep) m = []"
    by (cases "filter (\<lambda>(sid, _). sid \<noteq> keep) m") (auto split: option.splits if_splits)
  then have "\<forall>x \<in> set m. fst x = keep" by (auto simp: filter_empty_conv)
  with None show ?thesis by (intro exI [of _ "{}"]) (simp add: evict_oldest_session_def)
next
  case (Some x)
  then have "x \<in> set m" "fst x \<noteq> keep" by (auto dest!: oldest_mem)
  with Some show ?thesis
    by (intro exI [of _ "{fst x}"]) (auto simp: evict_oldest_session_def without_def case_prod_beta intro!: filter_cong)
qed

lemma evict_until_without:
  "\<exists>X. evict_until len keep m = without X m \<and> keep \<notin> X \<and>
     (total_bytes (without X m) + len \<le> PENDING_HOOK_MAX_BYTES \<or> (\<forall>x \<in> set (without X m). fst x = keep))"
proof (induction len keep m rule: evict_until.induct)
  case (1 len keep m)
  obtain b m' where e: "evict_oldest_session m keep = (b, m')" by fastforce
  obtain X where X: "m' = without X m" "keep \<notin> X" "\<not> b \<longrightarrow> (\<forall>x \<in> set m. fst x = keep)"
    using evict_oldest_without [of m keep] e by auto
  show ?case
  proof (cases "PENDING_HOOK_MAX_BYTES < total_bytes m + len")
    case True
    show ?thesis
    proof (cases b)
      case b: True
      with 1 True e obtain Y where "evict_until len keep m' = without Y m'" "keep \<notin> Y"
        "total_bytes (without Y m') + len \<le> PENDING_HOOK_MAX_BYTES \<or> (\<forall>x \<in> set (without Y m'). fst x = keep)"
        by metis
      with True b e X show ?thesis
        by (intro exI [of _ "Y \<union> X"]) (simp add: evict_until.simps [of len keep m])
    next
      case False
      with True e X show ?thesis
        by (intro exI [of _ X]) (auto simp: evict_until.simps [of len keep m] without_def)
    qed
  next
    case False
    then show ?thesis by (intro exI [of _ "{}"]) (simp add: evict_until.simps [of len keep m])
  qed
qed

lemma make_room_spec:
  "\<exists>pre. events = pre @ make_room len events"
  "len \<le> PENDING_HOOK_MAX_BYTES_PER_SESSION \<Longrightarrow>
     length (make_room len events) < PENDING_HOOK_MAX_PER_SESSION \<and>
     held_bytes (make_room len events) + len \<le> PENDING_HOOK_MAX_BYTES_PER_SESSION"
proof -
  show "\<exists>pre. events = pre @ make_room len events"
  proof (induction events)
    case (Cons e events)
    then obtain pre where "events = pre @ make_room len events" by blast
    then have "e # events = (e # pre) @ make_room len events" by simp
    then show ?case by (metis append_Nil make_room.simps(2))
  qed simp
  show "len \<le> PENDING_HOOK_MAX_BYTES_PER_SESSION \<Longrightarrow>
     length (make_room len events) < PENDING_HOOK_MAX_PER_SESSION \<and>
     held_bytes (make_room len events) + len \<le> PENDING_HOOK_MAX_BYTES_PER_SESSION"
    by (induction events) (auto simp: held_bytes_def PENDING_HOOK_MAX_PER_SESSION_def)
qed

lemma make_room_fits:
  "length events < PENDING_HOOK_MAX_PER_SESSION \<Longrightarrow>
   held_bytes events + len \<le> PENDING_HOOK_MAX_BYTES_PER_SESSION \<Longrightarrow> make_room len events = events"
  by (cases events) auto

lemma events_ok_suffix: "events_ok n (pre @ events) \<Longrightarrow> events_ok n events"
  by (auto simp: events_ok_def held_bytes_def sorted_wrt_append)

lemma make_room_ok: "events_ok n events \<Longrightarrow> events_ok n (make_room len events)"
  by (metis events_ok_suffix make_room_spec(1))

lemma push_event_fields:
  "fst ` set (push_event m sid e) = insert sid (fst ` set m)"
  "length (push_event m sid e) = (if sid \<in> fst ` set m then length m else Suc (length m))"
  "total_bytes (push_event m sid e) = total_bytes m + hook_len e"
  "distinct (map fst m) \<Longrightarrow> distinct (map fst (push_event m sid e))"
proof -
  show fsts: "fst ` set (push_event m sid e) = insert sid (fst ` set m)" for m
    by (induction m sid e rule: push_event.induct) auto
  show "length (push_event m sid e) = (if sid \<in> fst ` set m then length m else Suc (length m))"
    by (induction m sid e rule: push_event.induct) auto
  show "total_bytes (push_event m sid e) = total_bytes m + hook_len e"
    by (induction m sid e rule: push_event.induct) (auto simp: total_bytes_def held_bytes_def)
  show "distinct (map fst m) \<Longrightarrow> distinct (map fst (push_event m sid e))"
    using fsts by (induction m sid e rule: push_event.induct) auto
qed

lemma push_event_entries:
  "x \<in> set (push_event m sid e) \<Longrightarrow>
     x \<in> set m \<and> fst x \<noteq> sid \<or> x = (sid, [e]) \<or> (\<exists>events. (sid, events) \<in> set m \<and> x = (sid, events @ [e])) \<or>
     (x \<in> set m \<and> \<not> distinct (map fst m))"
  by (induction m sid e rule: push_event.induct) (auto split: if_splits)

lemma events_of_push_event:
  "events_of (push_event m sid e) i = (if i = sid then events_of m sid @ [e] else events_of m i)"
  by (induction m sid e rule: push_event.induct) (auto simp: events_of_def split: option.splits)

text \<open>The session's own events, with room made for \<open>len\<close> bytes.\<close>

definition roomed :: "nat \<Rightarrow> string \<Rightarrow> held_sessions \<Rightarrow> held_sessions" where
  "roomed len sid m = map (\<lambda>(i, events). (i, if i = sid then make_room len events else events)) m"

lemma roomed_fields:
  "map fst (roomed len sid m) = map fst m" "length (roomed len sid m) = length m"
  "events_of (roomed len sid m) i = (if i = sid then make_room len (events_of m i) else events_of m i)"
proof -
  show "map fst (roomed len sid m) = map fst m" by (simp add: roomed_def case_prod_beta)
  show "length (roomed len sid m) = length m" by (simp add: roomed_def)
  show "events_of (roomed len sid m) i = (if i = sid then make_room len (events_of m i) else events_of m i)"
    by (induction m) (auto simp: roomed_def events_of_def)
qed

lemma roomed_ok: "sessions_ok n m \<Longrightarrow> sessions_ok n (roomed len sid m)"
proof -
  assume "sessions_ok n m"
  then have "events_ok n (snd x)" if "x \<in> set (roomed len sid m)" for x
    using that make_room_ok by (auto simp: roomed_def sessions_ok_def split: if_splits)
  with \<open>sessions_ok n m\<close> show ?thesis by (simp add: sessions_ok_def roomed_fields)
qed

lemma hold_stages:
  obtains X Y where "sid \<notin> X" "sid \<notin> Y"
    and "hold m sid e = push_event (without Y (roomed (hook_len e) sid (without X m))) sid e"
    and "total_bytes (without Y (roomed (hook_len e) sid (without X m))) + hook_len e \<le> PENDING_HOOK_MAX_BYTES \<or>
         (\<forall>x \<in> set (without Y (roomed (hook_len e) sid (without X m))). fst x = sid)"
    and "length m \<le> PENDING_HOOK_MAX_SESSIONS \<Longrightarrow> distinct (map fst m) \<Longrightarrow> sid \<notin> fst ` set m \<Longrightarrow>
         length (without X m) < PENDING_HOOK_MAX_SESSIONS"
proof -
  let ?full = "map_of m sid = None \<and> PENDING_HOOK_MAX_SESSIONS \<le> length m"
  obtain X where X: "(if ?full then snd (evict_oldest_session m sid) else m) = without X m" "sid \<notin> X"
    and short: "?full \<Longrightarrow> length (without X m) < length m"
  proof (cases ?full)
    case True
    obtain X where X: "snd (evict_oldest_session m sid) = without X m" "sid \<notin> X"
      "fst (evict_oldest_session m sid) \<longrightarrow> (\<exists>x \<in> set m. fst x \<in> X)"
      "\<not> fst (evict_oldest_session m sid) \<longrightarrow> (\<forall>x \<in> set m. fst x = sid)"
      using evict_oldest_without [of m sid] by (elim exE conjE) (rule that)
    have "m \<noteq> []" using True by (auto simp: PENDING_HOOK_MAX_SESSIONS_def)
    moreover have "\<forall>x \<in> set m. fst x \<noteq> sid" using True by (auto simp: map_of_eq_None_iff)
    ultimately have "\<exists>x \<in> set m. fst x \<in> X" using X by (metis list.set_intros(1) neq_Nil_conv)
    then have "length (without X m) < length m"
      by (auto simp: without_def intro!: length_filter_less)
    with X True that show ?thesis by simp
  next
    case False
    show ?thesis by (rule that [of "{}"]) (use False in auto)
  qed
  obtain Y where Y: "evict_until (hook_len e) sid (roomed (hook_len e) sid (without X m)) =
      without Y (roomed (hook_len e) sid (without X m))" "sid \<notin> Y"
    and total: "total_bytes (without Y (roomed (hook_len e) sid (without X m))) + hook_len e \<le> PENDING_HOOK_MAX_BYTES \<or>
      (\<forall>x \<in> set (without Y (roomed (hook_len e) sid (without X m))). fst x = sid)"
    using evict_until_without [of "hook_len e" sid "roomed (hook_len e) sid (without X m)"]
    by (elim exE conjE) (rule that)
  have "hold m sid e = push_event (without Y (roomed (hook_len e) sid (without X m))) sid e"
    unfolding hold_def Let_def X(1) using Y(1) by (simp add: roomed_def)
  moreover have "length (without X m) < PENDING_HOOK_MAX_SESSIONS"
    if "length m \<le> PENDING_HOOK_MAX_SESSIONS" "sid \<notin> fst ` set m"
  proof (cases ?full)
    case True
    with short that show ?thesis by simp
  next
    case False
    then have "length m < PENDING_HOOK_MAX_SESSIONS" using that by (auto simp: map_of_eq_None_iff)
    then show ?thesis by (metis length_filter_le order_le_less_trans without_def)
  qed
  ultimately show ?thesis using that [OF X(2) Y(2) _ total] by simp
qed

lemma events_of_hold:
  "events_of (hold m sid e) sid = make_room (hook_len e) (events_of m sid) @ [e]"
  "i \<noteq> sid \<Longrightarrow> events_of (hold m sid e) i \<in> {events_of m i, []}"
  by (rule hold_stages [of sid m e];
      simp add: events_of_push_event events_of_without roomed_fields)+

lemma total_bytes_only:
  "distinct (map fst m) \<Longrightarrow> \<forall>x \<in> set m. fst x = sid \<Longrightarrow> total_bytes m = held_bytes (events_of m sid)"
proof (cases m)
  case (Cons x m')
  moreover assume "distinct (map fst m)" "\<forall>x \<in> set m. fst x = sid"
  ultimately show ?thesis by (cases m') (auto simp: total_bytes_def events_of_def case_prod_beta)
qed (simp add: total_bytes_def events_of_def held_bytes_def)

lemma events_of_entry: "distinct (map fst m) \<Longrightarrow> (i, events) \<in> set m \<Longrightarrow> events_of m i = events"
  by (simp add: events_of_def)

lemma events_ok_snoc:
  assumes "events_ok n events" and "hook_len e \<le> PENDING_HOOK_MAX_BYTES_PER_SESSION" and "hook_seq e = n"
  shows "events_ok (Suc n) (make_room (hook_len e) events @ [e])"
  using make_room_ok [OF assms(1), of "hook_len e"] make_room_spec(2) [OF assms(2), of events] assms(3)
  by (auto simp: events_ok_def held_bytes_def sorted_wrt_append less_SucI)

lemma hold_ok:
  assumes ok: "buffer_ok b" and len: "hook_len e \<le> PENDING_HOOK_MAX_BYTES_PER_SESSION"
    and sq: "hook_seq e = next_seq b"
  shows "buffer_ok \<lparr>held_map = hold (held_map b) sid e, next_seq = Suc (next_seq b)\<rparr>"
proof (rule hold_stages [of sid "held_map b" e])
  fix X Y
  let ?m3 = "without Y (roomed (hook_len e) sid (without X (held_map b)))"
  assume notin: "sid \<notin> X" "sid \<notin> Y" and h: "hold (held_map b) sid e = push_event ?m3 sid e"
    and total: "total_bytes ?m3 + hook_len e \<le> PENDING_HOOK_MAX_BYTES \<or> (\<forall>x \<in> set ?m3. fst x = sid)"
    and short: "length (held_map b) \<le> PENDING_HOOK_MAX_SESSIONS \<Longrightarrow> distinct (map fst (held_map b)) \<Longrightarrow>
      sid \<notin> fst ` set (held_map b) \<Longrightarrow> length (without X (held_map b)) < PENDING_HOOK_MAX_SESSIONS"
  have s3: "sessions_ok (next_seq b) ?m3"
    using ok by (simp add: buffer_ok_def without_ok roomed_ok)
  then have d3: "distinct (map fst ?m3)" by (simp add: sessions_ok_def)
  have e3: "events_of ?m3 sid = make_room (hook_len e) (events_of (held_map b) sid)"
    using notin by (simp add: events_of_without roomed_fields)
  have l3: "length ?m3 \<le> length (without X (held_map b))"
    by (metis length_filter_le roomed_fields(2) without_def)
  have keys3: "sid \<in> fst ` set ?m3 \<longleftrightarrow> sid \<in> fst ` set (held_map b)"
  proof -
    have "fst ` set ?m3 = fst ` set (roomed (hook_len e) sid (without X (held_map b))) - Y"
      by (auto simp: without_def)
    also have "\<dots> = fst ` set (without X (held_map b)) - Y"
      by (metis list.set_map roomed_fields(1))
    also have "\<dots> = fst ` set (held_map b) - X - Y" by (auto simp: without_def)
    finally show ?thesis using notin by auto
  qed
  have own: "events_ok (next_seq b) (events_of (held_map b) sid)"
    using ok by (auto simp: buffer_ok_def sessions_ok_def events_of_def events_ok_def held_bytes_def
        split: option.split dest!: map_of_SomeD)
  have entries: "events_ok (Suc (next_seq b)) (snd x) \<and> snd x \<noteq> []" if "x \<in> set (push_event ?m3 sid e)" for x
  proof -
    have dist: "distinct (map fst (push_event ?m3 sid e))" by (rule push_event_fields(4) [OF d3])
    have "events_of (push_event ?m3 sid e) (fst x) = snd x"
      using events_of_entry [OF dist, of "fst x" "snd x"] that by simp
    moreover have "events_ok (Suc (next_seq b)) (make_room (hook_len e) (events_of (held_map b) sid) @ [e])"
      by (rule events_ok_snoc [OF own len sq])
    moreover have "events_ok (Suc (next_seq b)) (snd x) \<and> snd x \<noteq> []" if "fst x \<noteq> sid"
    proof -
      have x: "x \<in> set ?m3" using push_event_entries [OF \<open>x \<in> set (push_event ?m3 sid e)\<close>] that d3 by auto
      then have "x \<in> set (held_map b)" using that by (auto simp: without_def roomed_def split: if_splits)
      then show ?thesis using ok by (auto simp: buffer_ok_def sessions_ok_def events_ok_def less_SucI)
    qed
    ultimately show ?thesis by (cases "fst x = sid") (auto simp: events_of_push_event e3)
  qed
  have bytes: "total_bytes ?m3 + hook_len e \<le> PENDING_HOOK_MAX_BYTES"
    using total total_bytes_only [OF d3, of sid] make_room_spec(2) [OF len, of "events_of (held_map b) sid"]
    by (auto simp: e3 PENDING_HOOK_MAX_BYTES_def PENDING_HOOK_MAX_BYTES_PER_SESSION_def)
  have "length ?m3 \<le> length (held_map b)"
    using l3 by (metis le_trans length_filter_le without_def)
  then have "length (push_event ?m3 sid e) \<le> PENDING_HOOK_MAX_SESSIONS"
    using l3 short ok by (auto simp: push_event_fields keys3 buffer_ok_def sessions_ok_def)
  with entries bytes d3 show ?thesis
    by (simp add: h buffer_ok_def sessions_ok_def push_event_fields)
qed

lemma held_bytes_filter: "held_bytes (filter P events) \<le> held_bytes events"
  by (induction events) (auto simp: held_bytes_def)

lemma events_ok_filter: "events_ok n events \<Longrightarrow> events_ok n (filter P events)"
  using held_bytes_filter [of P events] le_trans [OF length_filter_le, of events _ P]
  by (auto simp: events_ok_def sorted_wrt_map sorted_wrt_filter)

lemma prune_expired_fields:
  "map fst (prune_expired now m) = map fst (filter (\<lambda>x. filter (unexpired now) (snd x) \<noteq> []) m)"
  "total_bytes (prune_expired now m) \<le> total_bytes m"
  "x \<in> set (prune_expired now m) \<Longrightarrow>
     snd x \<noteq> [] \<and> (\<exists>events. (fst x, events) \<in> set m \<and> snd x = filter (unexpired now) events)"
proof -
  show "map fst (prune_expired now m) = map fst (filter (\<lambda>x. filter (unexpired now) (snd x) \<noteq> []) m)"
    by (induction m) (auto simp: prune_expired_def)
  show "total_bytes (prune_expired now m) \<le> total_bytes m"
    by (induction m) (auto simp: prune_expired_def total_bytes_def intro: add_mono held_bytes_filter trans_le_add2)
  show "x \<in> set (prune_expired now m) \<Longrightarrow>
     snd x \<noteq> [] \<and> (\<exists>events. (fst x, events) \<in> set m \<and> snd x = filter (unexpired now) events)"
    by (auto simp: prune_expired_def)
qed

lemma prune_expired_ok:
  assumes "buffer_ok b"
  shows "buffer_ok (b\<lparr>held_map := prune_expired now (held_map b)\<rparr>)"
proof -
  let ?m = "prune_expired now (held_map b)"
  have "length ?m = length (filter (\<lambda>x. filter (unexpired now) (snd x) \<noteq> []) (held_map b))"
    by (metis length_map prune_expired_fields(1))
  then have "length ?m \<le> length (held_map b)" by simp
  moreover have "distinct (map fst ?m)"
    using assms by (simp add: prune_expired_fields(1) buffer_ok_def sessions_ok_def distinct_map_filter)
  moreover have "events_ok (next_seq b) (snd x) \<and> snd x \<noteq> []" if "x \<in> set ?m" for x
    using prune_expired_fields(3) [OF that] assms
    by (auto simp: buffer_ok_def sessions_ok_def intro!: events_ok_filter)
  ultimately show ?thesis
    using assms prune_expired_fields(2) [of now "held_map b"] by (auto simp: buffer_ok_def sessions_ok_def)
qed

lemma events_of_prune:
  "distinct (map fst m) \<Longrightarrow> events_of (prune_expired now m) i = filter (unexpired now) (events_of m i)"
proof (induction m)
  case (Cons x m)
  then have "fst x = i \<Longrightarrow> map_of m i = None" by (auto simp: map_of_eq_None_iff)
  moreover have "map_of (prune_expired now m) i = None" if "map_of m i = None"
    using that prune_expired_fields(1) [of now m] unfolding map_of_eq_None_iff
    by (metis (mono_tags, lifting) filter_is_subset image_set subset_iff image_mono)
  ultimately show ?case using Cons by (cases x) (auto simp: prune_expired_def events_of_def)
qed (simp add: prune_expired_def events_of_def)

lemma without_buffer_ok: "buffer_ok b \<Longrightarrow> buffer_ok (b\<lparr>held_map := without X (held_map b)\<rparr>)"
  using without_ok [of "next_seq b" "held_map b" X] total_bytes_without [of X "held_map b"]
  by (auto simp: buffer_ok_def without_def intro: le_trans [OF length_filter_le])

lemma defer_event_ok:
  assumes "buffer_ok (held s)"
  shows "buffer_ok (held (snd (defer_event env d now s sid t body len)))"
proof -
  have p: "buffer_ok ((held s)\<lparr>held_map := prune_expired now (held_map (held s))\<rparr>)"
    by (rule prune_expired_ok [OF assms])
  show ?thesis using p hold_ok [OF p]
    by (simp add: defer_event_def Let_def case_prod_beta split: option.split)
qed

lemma insert_with_pending_ok:
  assumes "buffer_ok (held s)"
  shows "buffer_ok (held (snd (insert_with_pending env now s r)))"
proof -
  have "buffer_ok ((held s)\<lparr>held_map := without {rec_id r} (prune_expired now (held_map (held s)))\<rparr>)"
    using without_buffer_ok [OF prune_expired_ok [OF assms], of "{rec_id r}" now] by simp
  then show ?thesis by (simp add: insert_with_pending_def Let_def without_def split_def)
qed

end
