(* ===== verification/Session_Properties.thy ===== *)
theory Session_Properties
  imports Sidecars Hook_Buffer
begin

text \<open>
  The properties of sessions: what an update of a record stamps and announces, the record's
  invariant, the order of hook events, held turn ends, the sidecar on disk, the turn pipeline and
  the buffer of early hook events.
\<close>

section \<open>A concrete session\<close>

definition demo_record :: SessionRecord where
  "demo_record =
     \<lparr>rec_id = ''s'', label = ''repo:main'', default_label = ''repo:main'', user_label = None,
      rec_kind = Single, rec_members = [], mode = Interactive, rec_started_at = 0, status = Working, status_since = Some 5, status_seq = 3,
      recent_actions = [], last_activity_at = None, pty_open = True, headless_open = False,
      exit_code = None, rec_workspace_id = None,
      agent = ''claude'', terminal_title = None, program_name = Some ''claude'', current_cwd = None,
      spawn_config = None, is_abandoned = False, is_inactive = False, conversation_id = None, busy_excluded = False, pending_input = None,
      last_hook_time = Some 100, hook_driven = True, last_assistant_message = None, summary = None,
      screen_open = True, background = False, turn_end = None, work = no_work,
      agent_in_shell = False, shell_label = None, agent_exit_announced = False, hook_agent = None,
      hook_options = [], hook_trusted = False\<rparr>"

definition demo_registry :: Registry where
  "demo_registry = \<lparr>by_id = [''s'' \<mapsto> demo_record], sidecar_gates = Map.empty, sidecars = Map.empty,
     summary_files = Map.empty, activity = []\<rparr>"

definition demo_disk :: Disk where "demo_disk = \<lparr>persists = True, disk_ok = True\<rparr>"

definition demo_zone :: Zone where
  "demo_zone = \<lparr>date_naive = (\<lambda>t. t div (86400 * 10 ^ 9)), succ_opt = (\<lambda>d. Some (d + 1)),
     local_time = (\<lambda>d h m. Some ((d * 86400 + int h * 3600 + int m * 60) * 10 ^ 9))\<rparr>"

text \<open>A plain report: an event that says only that the agent works.\<close>

definition demo_report :: HookReport where
  "demo_report =
     \<lparr>rep_status = Some Working, rep_pending = Clear, rep_conversation_id = None, rep_last_message = None,
      rep_failure = None, rep_permission_mismatch = None, agent_ended = False, agent_started = False,
      subagent = False, rep_background = None, stop_work = None, weak_idle = False\<rparr>"

definition stop_report :: "bool \<Rightarrow> HookReport" where
  "stop_report bg = demo_report\<lparr>rep_status := Some Idle, rep_background := Some bg, rep_last_message := Some ''done''\<rparr>"

definition demo_plugin :: Plugin where
  "demo_plugin = \<lparr>tag = ''claude'', glyphs = [], title_placeholder = None, map_live_line = (\<lambda>_. None),
     map_hook_event = (\<lambda>body _ _. if body = JStr ''Stop'' then Some (stop_report False)
        else if body = JStr ''Work'' then Some demo_report
        else if body = JStr ''Ask'' then Some (demo_report\<lparr>rep_status := Some AwaitingInput, rep_pending := SetPending (Other ''?'')\<rparr>)
        else None)\<rparr>"

definition demo_hooks :: HookEnv where
  "demo_hooks = \<lparr>plugins = [''claude'' \<mapsto> demo_plugin], zone = demo_zone, clock = 7\<rparr>"

lemma demo_record_ok: "record_ok demo_record"
  by (simp add: record_ok_def fields_ok_def demo_record_def promoted_shell_def)

lemma demo_simps [simp]:
  "by_id demo_registry = [''s'' \<mapsto> demo_record]" "activity demo_registry = []"
  "sidecars demo_registry = Map.empty" "sidecar_gates demo_registry = Map.empty"
  "persists demo_disk" "disk_ok demo_disk"
  "rec_id demo_record = ''s''" "status demo_record = Working" "status_seq demo_record = 3"
  "turn_end demo_record = None" "mode demo_record = Interactive" "pending_input demo_record = None"
  "last_hook_time demo_record = Some 100" "screen_open demo_record" "agent_in_shell demo_record = False"
  "agent demo_record = ''claude''" "background demo_record = False" "clock demo_hooks = 7"
  by (simp_all add: demo_registry_def demo_disk_def demo_record_def demo_hooks_def)


section \<open>Updates of a record\<close>

text \<open>
  An update that changes something stores the record, stamps a status change with the time
  and one more count and settles a held turn end, and leaves all three alone when the status stays;
  it logs the change, and announces the new snapshot first, the follow-up event after it, and the
  attention only on an entry into \<open>Error\<close>.
\<close>

theorem registry_update_stamps:
  assumes "by_id rg sid = Some r" and "f r = (Some follow, r1)"
  shows "\<exists>r' evs rg'. update_inner d due now rg sid f = (True, evs, rg') \<and>
    by_id rg' = (by_id rg)(sid \<mapsto> r') \<and> status r' = status r1 \<and>
    (if status r1 = status r then r' = r1 \<and> activity rg' = activity rg
     else status_since r' = Some now \<and> status_seq r' = min (status_seq r1 + 1) (2 ^ 64 - 1) \<and>
       turn_end r' = None \<and> activity rg' = activity rg @ (if persists d then [(sid, now, status r1)] else [])) \<and>
    (\<exists>alerts. evs = Updated (snapshot r') # alerts @
         (if status r \<noteq> Error \<and> status r1 = Error then [Attention sid AttError] else []) \<and>
       (case follow of Some e \<Rightarrow> alerts = [e]
        | None \<Rightarrow> alerts = (if status r1 \<noteq> status r \<and> status r1 = Idle
            then (case Option.bind (turn_end r1) end_alert of None \<Rightarrow> [] | Some a \<Rightarrow> [alert_event sid a]) else [])))"
proof -
  define r' where "r' = (if status r1 \<noteq> status r then snd (stamp_change (due sid) now sid (status r) r1) else r1)"
  define al where "al = (if status r1 \<noteq> status r then fst (stamp_change (due sid) now sid (status r) r1) else None)"
  define out where "out = \<lparr>out_snap = snapshot r', out_entered_error = (status r \<noteq> Error \<and> status r' = Error),
      out_change = (if status r1 \<noteq> status r then Some (now, status r') else None),
      out_follow_up = (case follow of Some e \<Rightarrow> Some e | None \<Rightarrow> al)\<rparr>"
  let ?fin = "finish_update d sid out (rg\<lparr>by_id := (by_id rg)(sid \<mapsto> r')\<rparr>)"
  have st: "status r' = status r1" by (simp add: r'_def record_simps)
  have "update_locked (due sid) now sid f r = (Some out, r')"
    using assms(2) by (simp add: update_locked_def Let_def case_prod_beta r'_def al_def out_def split: option.split)
  then have u: "update_inner d due now rg sid f = (True, fst ?fin, snd ?fin)"
    using assms(1) by (simp add: update_inner_def case_prod_beta)
  have "fst ?fin = Updated (snapshot r') # (case out_follow_up out of None \<Rightarrow> [] | Some e \<Rightarrow> [e]) @
      (if status r \<noteq> Error \<and> status r1 = Error then [Attention sid AttError] else [])"
    by (simp add: finish_update_def out_def st)
  moreover have "al = (if status r1 \<noteq> status r \<and> status r1 = Idle
      then map_option (alert_event sid) (Option.bind (turn_end r1) end_alert) else None)"
    by (simp add: al_def stamp_change_alert split: option.split)
  moreover have "by_id (snd ?fin) = (by_id rg)(sid \<mapsto> r')" by simp
  moreover have "activity (snd ?fin) = activity rg @
      (if persists d then (if status r1 \<noteq> status r then [(sid, now, status r1)] else []) else [])"
    by (simp add: out_def st)
  moreover have "if status r1 = status r then r' = r1
     else status_since r' = Some now \<and> status_seq r' = min (status_seq r1 + 1) (2 ^ 64 - 1) \<and> turn_end r' = None"
    by (simp add: r'_def record_simps saturating_inc_def)
  ultimately show ?thesis using u st
    by (intro exI [of _ r'] exI [of _ "fst ?fin"] exI [of _ "snd ?fin"])
       (auto simp: out_def split: option.split)
qed

theorem registry_update_stamps_witness:
  "\<exists>evs rg'. update_inner demo_disk (\<lambda>_. False) 9 demo_registry ''s'' (\<lambda>r. (Some None, r\<lparr>status := Stopped\<rparr>)) =
       (True, evs, rg') \<and> activity rg' = [(''s'', 9, Stopped)]"
  using registry_update_stamps [of demo_registry "''s''" demo_record "\<lambda>r. (Some None, r\<lparr>status := Stopped\<rparr>)" None
      "demo_record\<lparr>status := Stopped\<rparr>" demo_disk "\<lambda>_. False" 9]
  by auto





definition demo_hub :: HookHub where
  "demo_hub = \<lparr>pipe = \<lparr>reg = demo_registry, drivers = Map.empty, driver_tasks = []\<rparr>, discovery = {},
     live_channels = Map.empty\<rparr>"


section \<open>The order of hook events\<close>

text \<open>Events delivered one after the other, each with its time.\<close>

definition deliver_all :: "HookEnv \<Rightarrow> SessionRecord \<Rightarrow> (nat \<times> HookReport) list \<Rightarrow> SessionRecord" where
  "deliver_all env r evs = foldl (\<lambda>r (t, rep). snd (apply_to_record env r (Some t) rep)) r evs"

lemma apply_to_record_stamp:
  "\<exists>l. last_hook_time (snd (apply_to_record env r (Some t) rep)) = Some l \<and> t \<le> l \<and>
     (\<forall>l0. last_hook_time r = Some l0 \<longrightarrow> l0 \<le> l)"
  by (rule apply_to_record_cases [of env r "Some t" rep]) (auto simp: record_simps dest: less_imp_le)

lemma apply_to_record_stale:
  "last_hook_time r = Some l \<Longrightarrow> t \<le> l \<Longrightarrow> apply_to_record env r (Some t) rep = (no_effect, r)"
  by (simp add: apply_to_record_def)

lemma apply_to_record_terminal:
  "status r \<in> {Stopped, Error} \<Longrightarrow> status (snd (apply_to_record env r et rep)) = status r"
  by (rule apply_to_record_cases [of env r et rep]) auto

lemma deliver_all_stamp:
  "(t, rep) \<in> set evs \<Longrightarrow> \<exists>l. last_hook_time (deliver_all env r evs) = Some l \<and> t \<le> l"
proof (induction evs rule: rev_induct)
  case (snoc e evs)
  obtain t' rep' where e: "e = (t', rep')" by fastforce
  have step: "deliver_all env r (evs @ [e]) = snd (apply_to_record env (deliver_all env r evs) (Some t') rep')"
    by (simp add: deliver_all_def e)
  from apply_to_record_stamp [of env "deliver_all env r evs" t' rep'] obtain l where
    l: "last_hook_time (deliver_all env r (evs @ [e])) = Some l" "t' \<le> l"
    "\<forall>l0. last_hook_time (deliver_all env r evs) = Some l0 \<longrightarrow> l0 \<le> l"
    unfolding step by blast
  show ?case
  proof (cases "(t, rep) = e")
    case True
    with l e show ?thesis by auto
  next
    case False
    with snoc obtain l0 where "last_hook_time (deliver_all env r evs) = Some l0" "t \<le> l0" by auto
    with l show ?thesis by fastforce
  qed
qed simp

text \<open>
  Whatever events have been delivered, one that is no newer than any of them, or that carries
  no time, changes nothing; and no event revives a session that stopped or failed.
\<close>

theorem late_hook_events_ignored:
  assumes "(t', rep') \<in> set evs" and "t \<le> t'"
  shows "apply_to_record env (deliver_all env r evs) (Some t) rep = (no_effect, deliver_all env r evs) \<and>
    apply_to_record env (deliver_all env r evs) None rep = (no_effect, deliver_all env r evs) \<and>
    (status r \<in> {Stopped, Error} \<longrightarrow> status (deliver_all env r evs) = status r)"
proof -
  obtain l where "last_hook_time (deliver_all env r evs) = Some l" "t' \<le> l"
    using deliver_all_stamp [OF assms(1)] by blast
  with assms(2) have "apply_to_record env (deliver_all env r evs) (Some t) rep = (no_effect, deliver_all env r evs)"
    by (intro apply_to_record_stale [of _ l]) auto
  moreover have "status (deliver_all env r evs) = status r" if "status r \<in> {Stopped, Error}"
    using that
  proof (induction evs rule: rev_induct)
    case (snoc e evs)
    then show ?case using apply_to_record_terminal [of "deliver_all env r evs" env]
      by (simp add: deliver_all_def case_prod_beta)
  qed (simp add: deliver_all_def)
  ultimately show ?thesis by (simp add: apply_to_record_def)
qed

theorem late_hook_events_ignored_witness:
  "apply_to_record demo_hooks (deliver_all demo_hooks demo_record [(300, demo_report), (200, stop_report True)])
     (Some 250) demo_report =
   (no_effect, deliver_all demo_hooks demo_record [(300, demo_report), (200, stop_report True)])"
  using late_hook_events_ignored [of 300 demo_report "[(300, demo_report), (200, stop_report True)]" 250] by simp






section \<open>A held turn end\<close>

text \<open>
  The main agent's \<open>Stop\<close> as the plug-ins report it: \<open>Idle\<close> with the background flag.
\<close>

definition is_stop :: "HookReport \<Rightarrow> bool \<Rightarrow> bool" where
  "is_stop rep bg \<longleftrightarrow> rep_status rep = Some Idle \<and> rep_background rep = Some bg \<and> \<not> subagent rep \<and>
     \<not> weak_idle rep \<and> \<not> agent_started rep \<and> \<not> agent_ended rep"

lemma stop_holds:
  assumes "is_stop rep bg" and "status r = Working" and "screen_open r"
    and "\<And>l. last_hook_time r = Some l \<Longrightarrow> l < t"
  shows "status (snd (apply_to_record env r (Some t) rep)) = Working"
    and "turn_end (snd (apply_to_record env r (Some t) rep)) =
      Some \<lparr>end_time = t, end_background = bg, end_alert = Option.bind (turn_end r) end_alert, held_at = clock env\<rparr>"
proof -
  let ?r1 = "r\<lparr>last_hook_time := Some t, hook_driven := True\<rparr>"
  have "snd (apply_to_record env r (Some t) rep) = snd (apply_report env ?r1 rep t)"
    using assms(2,4) by (cases rule: apply_to_record_cases [of env r "Some t" rep]) fastforce+
  moreover have "snd (apply_report env ?r1 rep t) =
      snd (apply_details env (apply_pending (rep_pending rep) (hold_turn_end ?r1 (clock env) bg t)) rep t)"
    using assms(1-3)
    by (simp add: apply_report_def is_stop_def apply_agent_end_def leaves_pending_alone_def settle_hook_turn_end_def
        apply_report_status_def holds_turn_end_def case_prod_beta Let_def)
  ultimately show "status (snd (apply_to_record env r (Some t) rep)) = Working"
    and "turn_end (snd (apply_to_record env r (Some t) rep)) =
      Some \<lparr>end_time = t, end_background = bg, end_alert = Option.bind (turn_end r) end_alert, held_at = clock env\<rparr>"
    using assms(2) by (simp_all add: record_simps) (simp_all add: hold_turn_end_def)
qed

lemma publish_line_working:
  assumes "status r = Working" and "turn_end r = Some te"
  shows "fst (publish_line l made now sid r) = None"
    and "status (snd (publish_line l made now sid r)) = Working"
    and "turn_end (snd (publish_line l made now sid r)) =
      Some (te\<lparr>end_alert := Some \<lparr>alert_kind = kind_of l, notification = line_notification l, alert_source = source_of l\<rparr>\<rparr>)"
  using assms by (simp_all add: publish_line_def push_summary_line_def Let_def)

text \<open>
  A main \<open>Stop\<close> on a working session with a live screen is held: the status stays \<open>Working\<close>,
  and a line published meanwhile sends no alert. When a watcher then moves the session to \<open>Idle\<close>,
  that one update carries the \<open>Stop\<close>'s background flag and sends the alert right after the
  snapshot; a move to any other status drops both.
\<close>

theorem held_turn_end_lands:
  assumes "is_stop rep bg" and "status r = Working" and "screen_open r"
    and "\<And>l. last_hook_time r = Some l \<Longrightarrow> l < t"
    and "by_id rg sid = Some (snd (publish_line nl made now0 sid (snd (apply_to_record env r (Some t) rep))))"
    and "st \<noteq> Working"
  shows "fst (publish_line nl made now0 sid (snd (apply_to_record env r (Some t) rep))) = None \<and>
    (\<exists>r' evs rg'. update d due now rg sid (\<lambda>r. snd (apply_watcher_status r now st)) = (True, evs, rg') \<and>
       by_id rg' sid = Some r' \<and> status r' = st \<and> turn_end r' = None \<and> (background r' \<longrightarrow> bg) \<and>
       (st = Idle \<longrightarrow> background r' = bg \<and>
          evs = [Updated (snapshot r'), WaitingAlert sid (kind_of nl) (line_notification nl) (source_of nl)]) \<and>
       (st \<noteq> Idle \<longrightarrow> (\<forall>k m q. WaitingAlert sid k m q \<notin> set evs)))"
proof -
  let ?r1 = "snd (apply_to_record env r (Some t) rep)"
  let ?r2 = "snd (publish_line nl made now0 sid ?r1)"
  let ?w = "snd (apply_watcher_status ?r2 now st)"
  note h = stop_holds [OF assms(1-4), of env]
  note p = publish_line_working [OF h]
  have w: "status ?w = st" "turn_end ?w = turn_end ?r2" "background ?w = False"
    using p(2) assms(6) by (simp_all add: record_simps)
  from registry_update_stamps [OF assms(5), of "\<lambda>r. (Some None, snd (apply_watcher_status r now st))" None ?w d due now]
  obtain r' evs rg' where u: "update d due now rg sid (\<lambda>r. snd (apply_watcher_status r now st)) = (True, evs, rg')"
    and rg': "by_id rg' = (by_id rg)(sid \<mapsto> r')" "status r' = st" "turn_end r' = None"
    and evs: "evs = Updated (snapshot r') # (if st = Idle then
        (case Option.bind (turn_end ?r2) end_alert of None \<Rightarrow> [] | Some a \<Rightarrow> [alert_event sid a]) else []) @
        (if st = Error then [Attention sid AttError] else [])"
    using w p(2) assms(6) unfolding update_def by (auto split: if_splits)
  have "by_id rg' sid = Some (snd (update_locked (due sid) now sid (\<lambda>r. (Some None, snd (apply_watcher_status r now st))) ?r2))"
    using u assms(5) update_inner_by_id [of d due now rg sid "\<lambda>r. (Some None, snd (apply_watcher_status r now st))"]
    by (simp add: update_def)
  then have "r' = snd (stamp_change (due sid) now sid (status ?r2) ?w)"
    using rg'(1) w(1) p(2) assms(6) by (simp add: update_locked_def Let_def case_prod_beta)
  then have bgr: "background r' = (if st = Idle then bg else False)"
    using w p(3) h by (simp add: record_simps)
  show ?thesis using p(1) u rg' bgr evs p(3)
    by (intro conjI exI [of _ r'] exI [of _ evs] exI [of _ rg']) (auto simp: alert_event_def)
qed

definition demo_line :: Line where
  "demo_line = \<lparr>kind_of = Some DoneWaiting, line_headline = ''Fixed'', line_notification = ''Fixed it'', source_of = Model\<rparr>"

theorem held_turn_end_lands_witness:
  "\<exists>r' evs rg'. update demo_disk (\<lambda>_. True) 9
      (demo_registry\<lparr>by_id := [''s'' \<mapsto> snd (publish_line demo_line 8 8 ''s''
        (snd (apply_to_record demo_hooks demo_record (Some 200) (stop_report True))))]\<rparr>) ''s''
      (\<lambda>r. snd (apply_watcher_status r 9 Idle)) = (True, evs, rg') \<and> background r' \<and>
    evs = [Updated (snapshot r'), WaitingAlert ''s'' (Some DoneWaiting) ''Fixed it'' Model]"
proof -
  have "is_stop (stop_report True) True" by (simp add: is_stop_def stop_report_def demo_report_def)
  from held_turn_end_lands [OF this, of demo_record 200 "demo_registry\<lparr>by_id := [''s'' \<mapsto> snd (publish_line demo_line 8 8 ''s''
        (snd (apply_to_record demo_hooks demo_record (Some 200) (stop_report True))))]\<rparr>" "''s''" demo_line 8 8 demo_hooks Idle
      demo_disk "\<lambda>_. True" 9]
  show ?thesis by (auto simp: demo_line_def)
qed

section \<open>The sidecar\<close>


definition demo_sys0 :: RegSys where
  "demo_sys0 = \<lparr>rs_reg = demo_registry\<lparr>by_id := Map.empty\<rparr>, unsynced = {#}, ever = {}, ended = {}\<rparr>"

definition demo_sys1 :: RegSys where
  "demo_sys1 = demo_sys0\<lparr>rs_reg := demo_registry, ever := {''s''}\<rparr>"

definition demo_sys2 :: RegSys where
  "demo_sys2 = demo_sys1\<lparr>rs_reg := write_sidecar demo_disk demo_registry ''s'' (record_mirror (demo_record\<lparr>status := Idle\<rparr>))\<rparr>"

definition demo_sys3 :: RegSys where
  "demo_sys3 = demo_sys2\<lparr>rs_reg := delete_sidecar demo_disk (rs_reg demo_sys2) ''s'', ever := {''s''}, ended := {''s''}\<rparr>"

lemma demo_sys_fresh: "fresh_system demo_sys0"
  by (simp add: fresh_system_def demo_sys0_def)

lemma demo_sys_steps:
  "reg_step (\<lambda>d. d = demo_disk) demo_sys0 demo_sys1" "reg_step (\<lambda>d. d = demo_disk) demo_sys1 demo_sys2"
  "reg_step (\<lambda>d. d = demo_disk) demo_sys2 demo_sys3"
proof -
  have "insert_pending (demo_registry\<lparr>by_id := Map.empty\<rparr>) demo_record = demo_registry"
    by (simp add: insert_pending_def)
  then show "reg_step (\<lambda>d. d = demo_disk) demo_sys0 demo_sys1"
    using reg_step.inserted [of demo_record demo_sys0 "\<lambda>d. d = demo_disk"]
    by (simp add: demo_sys0_def demo_sys1_def)
  show "reg_step (\<lambda>d. d = demo_disk) demo_sys1 demo_sys2"
    using reg_step.spawned [of "\<lambda>d. d = demo_disk" demo_disk demo_sys1] by (simp add: demo_sys1_def demo_sys2_def)
  show "reg_step (\<lambda>d. d = demo_disk) demo_sys2 demo_sys3"
    using reg_step.stopped [of "\<lambda>d. d = demo_disk" demo_disk demo_sys2 "''s''"]
    by (simp add: demo_sys3_def) (simp add: demo_sys2_def demo_sys1_def demo_sys0_def)
qed


text \<open>
  C38: once a stopped session's sidecar and summary are deleted, no update still draining, no late
  summary and no late spawn write brings either file back, whatever the disk does.
\<close>

theorem ended_sidecar_stays_gone:
  assumes "fresh_system s0" and "(reg_step D)\<^sup>*\<^sup>* s0 s" and "sid \<in> ended s" and "(reg_step D)\<^sup>*\<^sup>* s s'"
  shows "sidecars (rs_reg s') sid = None \<and> summary_files (rs_reg s') sid = None"
proof -
  have "ended s \<subseteq> ended s'"
    using assms(4) by (induction rule: rtranclp_induct) (auto elim!: reg_stepE)
  moreover have "gone_ok s'"
    using reachable_gone [OF rtranclp_trans [OF assms(2,4)]] fresh_system_ok [OF assms(1)] by blast
  ultimately show ?thesis using assms(3) by (auto simp: gone_ok_def)
qed

theorem ended_sidecar_stays_gone_witness: "sidecars (rs_reg demo_sys3) ''s'' = None"
proof -
  have "(reg_step (\<lambda>d. d = demo_disk))\<^sup>*\<^sup>* demo_sys0 demo_sys3"
    using demo_sys_steps by (meson rtranclp.rtrancl_into_rtrancl rtranclp.rtrancl_refl)
  then show ?thesis
    using ended_sidecar_stays_gone [OF demo_sys_fresh _ _ rtranclp.rtrancl_refl, of _ demo_sys3 "''s''"]
    by (simp add: demo_sys3_def)
qed

section \<open>The turn pipeline\<close>

text \<open>
  C14: however reports, drivers, answers and removals interleave, a session never has two driver
  tasks, so never two calls at once; a session's driver counts as running exactly while its task
  exists, so no report waits for a driver that is not there; and at most twelve reports are kept.
\<close>

theorem one_driver_per_session:
  assumes "driver_tasks p0 = []" and "drivers p0 = Map.empty" and "turn_step\<^sup>*\<^sup>* p0 p"
  shows "tasks_of p sid \<le> 1 \<and>
    (by_id (reg p) sid \<noteq> None \<longrightarrow> (has_work (drivers p) sid \<longleftrightarrow> tasks_of p sid = 1)) \<and>
    (\<forall>dr. drivers p sid = Some dr \<longrightarrow> length (pending dr) \<le> PENDING_MAX_REPORTS)"
proof -
  have "pipe_ok p0" using assms(1,2) by (simp add: pipe_ok_def tasks_of_def has_work_def)
  then have "pipe_ok p" by (rule reachable_pipe_ok [OF assms(3)])
  then show ?thesis by (simp add: pipe_ok_def)
qed

definition demo_pipe :: Pipeline where
  "demo_pipe = \<lparr>reg = demo_registry, drivers = Map.empty, driver_tasks = []\<rparr>"

theorem one_driver_per_session_witness:
  "tasks_of (join_report 5 (join_report 4 demo_pipe ''s'' ''a'') ''s'' ''b'') ''s'' \<le> 1"
proof -
  have "turn_step demo_pipe (join_report 4 demo_pipe ''s'' ''a'')"
    by (rule joined) (simp add: demo_pipe_def)
  moreover have "turn_step (join_report 4 demo_pipe ''s'' ''a'') (join_report 5 (join_report 4 demo_pipe ''s'' ''a'') ''s'' ''b'')"
    by (rule joined) (simp add: demo_pipe_def join_report_def case_prod_beta)
  ultimately have "turn_step\<^sup>*\<^sup>* demo_pipe (join_report 5 (join_report 4 demo_pipe ''s'' ''a'') ''s'' ''b'')"
    by (meson rtranclp.rtrancl_into_rtrancl rtranclp.rtrancl_refl)
  then show ?thesis using one_driver_per_session [of demo_pipe] by (simp add: demo_pipe_def)
qed





section \<open>Early hook events\<close>

text \<open>
  C39: deferring an event and inserting a session keep the buffer within its caps: at most 64
  sessions, 32 events and 256 KiB for each, and 8 MiB in all, with the events of a session in the
  order they arrived.
\<close>

theorem early_hooks_bounded:
  assumes "buffer_ok (held s)" and "s' \<in> {snd (defer_event env d now s sid t body len), snd (insert_with_pending env now s r)}"
  shows "buffer_ok (held s') \<and> length (held_map (held s')) \<le> 64 \<and> total_bytes (held_map (held s')) \<le> 8 * 1024 * 1024 \<and>
    length (events_of (held_map (held s')) i) \<le> 32 \<and> held_bytes (events_of (held_map (held s')) i) \<le> 256 * 1024 \<and>
    sorted_wrt (<) (map hook_seq (events_of (held_map (held s')) i))"
proof -
  have ok: "buffer_ok (held s')" using assms defer_event_ok insert_with_pending_ok by auto
  then have "events_ok (next_seq (held s')) (events_of (held_map (held s')) i)"
    by (auto simp: buffer_ok_def sessions_ok_def events_of_def events_ok_def held_bytes_def
        split: option.split dest!: map_of_SomeD)
  with ok show ?thesis
    by (simp add: buffer_ok_def events_ok_def PENDING_HOOK_MAX_SESSIONS_def PENDING_HOOK_MAX_BYTES_def
        PENDING_HOOK_MAX_PER_SESSION_def PENDING_HOOK_MAX_BYTES_PER_SESSION_def)
qed

definition demo_hook_system :: HookSystem where
  "demo_hook_system = \<lparr>hub = demo_hub\<lparr>pipe := demo_pipe\<lparr>reg := demo_registry\<lparr>by_id := Map.empty\<rparr>\<rparr>\<rparr>,
     held = \<lparr>held_map = [], next_seq = 0\<rparr>\<rparr>"

lemma demo_buffer_ok: "buffer_ok (held demo_hook_system)"
  by (simp add: demo_hook_system_def buffer_ok_def sessions_ok_def total_bytes_def)

theorem early_hooks_bounded_witness:
  "length (held_map (held (snd (defer_event demo_hooks demo_disk 1 demo_hook_system ''s'' (Some 200) (JStr ''Stop'') 6)))) \<le> 64"
  using early_hooks_bounded [OF demo_buffer_ok insertI1] by blast

lemma replay_id: "rec_id (foldl (replay_one env) r events) = rec_id r"
  by (induction events rule: rev_induct) (simp_all add: replay_one_def apply_to_record_id split: option.split)

text \<open>
  An event for a session that is not inserted yet changes nothing but the buffer, and stays the
  newest held for its session; the insert then applies the unexpired held events to the record in
  the order they arrived, and holds none of them any longer. Nothing is dropped while the session's
  events fit their caps.
\<close>

theorem early_hooks_replayed:
  assumes "buffer_ok (held s)" and "by_id (reg (pipe (hub s))) (rec_id r) = None"
    and "len \<le> PENDING_HOOK_MAX_BYTES_PER_SESSION"
    and "defer_event env d now s (rec_id r) t body len = (outs, s1)" and "insert_with_pending env now2 s1 r = (aw, s2)"
    and "old = filter (unexpired now) (events_of (held_map (held s)) (rec_id r))"
  shows "outs = [] \<and> hub s1 = hub s \<and> events_of (held_map (held s2)) (rec_id r) = [] \<and>
    (\<exists>e kept dropped. hook_body e = body \<and> hook_event_time e = t \<and> hook_at e = now \<and> old = dropped @ kept \<and>
       (length old < 32 \<and> held_bytes old + len \<le> 256 * 1024 \<longrightarrow> dropped = []) \<and>
       by_id (reg (pipe (hub s2))) (rec_id r) =
         Some (foldl (replay_one env) r (filter (unexpired now2) (kept @ [e]))))"
proof -
  let ?e = "\<lparr>hook_at = now, hook_seq = next_seq (held s), hook_event_time = t, hook_body = body, hook_len = len\<rparr>"
  let ?m = "prune_expired now (held_map (held s))"
  have d: "distinct (map fst (held_map (held s)))" using assms(1) by (simp add: buffer_ok_def sessions_ok_def)
  have s1: "outs = []" "s1 = s\<lparr>held := \<lparr>held_map = hold ?m (rec_id r) ?e, next_seq = Suc (next_seq (held s))\<rparr>\<rparr>"
    using assms(2-4) by (simp_all add: defer_event_def)
  have "buffer_ok (held s1)" using defer_event_ok [OF assms(1), of env d now "rec_id r" t body len] assms(4) by simp
  then have d1: "distinct (map fst (held_map (held s1)))" by (simp add: buffer_ok_def sessions_ok_def)
  have own: "events_of (held_map (held s1)) (rec_id r) = make_room len old @ [?e]"
    using events_of_prune [OF d] assms(6) by (simp add: s1 events_of_hold)
  have s2: "events_of (held_map (held s2)) (rec_id r) = []"
    "by_id (reg (pipe (hub s2))) (rec_id r) =
       Some (foldl (replay_one env) r (filter (unexpired now2) (make_room len old @ [?e])))"
    using assms(5) own events_of_prune [OF d1, of now2 "rec_id r"] events_of_without [of "{rec_id r}"]
    by (auto simp: insert_with_pending_def Let_def replay_id insert_pending_def without_def split_def)
  obtain dropped where dr: "old = dropped @ make_room len old" using make_room_spec(1) by blast
  moreover have "dropped = []" if "length old < 32" "held_bytes old + len \<le> 256 * 1024"
  proof -
    have "make_room len old = old"
      using that by (intro make_room_fits) (simp_all add: PENDING_HOOK_MAX_PER_SESSION_def PENDING_HOOK_MAX_BYTES_PER_SESSION_def)
    with dr show ?thesis by simp
  qed
  ultimately show ?thesis using s1 s2
    by (intro conjI exI [of _ ?e] exI [of _ "make_room len old"] exI [of _ dropped]) auto
qed

theorem early_hooks_replayed_witness:
  "\<exists>s1 s2 e. defer_event demo_hooks demo_disk 1 demo_hook_system ''s'' (Some 200) (JStr ''Stop'') 6 = ([], s1) \<and>
     snd (insert_with_pending demo_hooks 2 s1 demo_record) = s2 \<and> hook_body e = JStr ''Stop'' \<and>
     by_id (reg (pipe (hub s2))) ''s'' = Some (replay_one demo_hooks demo_record e)"
proof -
  obtain outs s1 where d: "defer_event demo_hooks demo_disk 1 demo_hook_system ''s'' (Some 200) (JStr ''Stop'') 6 = (outs, s1)"
    by fastforce
  obtain aw s2 where i: "insert_with_pending demo_hooks 2 s1 demo_record = (aw, s2)" by fastforce
  have "outs = [] \<and> (\<exists>e. hook_body e = JStr ''Stop'' \<and> hook_at e = 1 \<and> by_id (reg (pipe (hub s2))) ''s'' =
      Some (foldl (replay_one demo_hooks) demo_record (filter (unexpired 2) [e])))"
    using early_hooks_replayed [OF demo_buffer_ok, of demo_record 6 demo_hooks demo_disk 1 "Some 200" "JStr ''Stop''" outs s1 2 aw s2 "[]"]
      d i by (auto simp: demo_hook_system_def demo_pipe_def events_of_def PENDING_HOOK_MAX_BYTES_PER_SESSION_def)
  with d i show ?thesis by (auto simp: unexpired_def PENDING_HOOK_TTL_def)
qed

text \<open>
  the replay does not settle a held turn end, as a registry update would: held \<open>Stop\<close> and prompt
  events leave a record that waits for input and still holds the turn end, which the record's
  invariant excludes.
\<close>

theorem replay_leaves_turn_end:
  "\<exists>s1 s2 r. snd (defer_event demo_hooks demo_disk 2
        (snd (defer_event demo_hooks demo_disk 1 demo_hook_system ''s'' (Some 200) (JStr ''Stop'') 6))
        ''s'' (Some 300) (JStr ''Ask'') 5) = s1 \<and>
     snd (insert_with_pending demo_hooks 3 s1 demo_record) = s2 \<and>
     by_id (reg (pipe (hub s2))) ''s'' = Some r \<and> status r = AwaitingInput \<and> turn_end r \<noteq> None \<and>
     record_ok demo_record \<and> \<not> record_ok r"
proof -
  let ?e = "\<lambda>t k ty b l. \<lparr>hook_at = t, hook_seq = k, hook_event_time = Some ty, hook_body = JStr b, hook_len = l\<rparr>"
  let ?r = "foldl (replay_one demo_hooks) demo_record [?e 1 0 200 ''Stop'' 6, ?e 2 1 300 ''Ask'' 5]"
  have r: "status ?r = AwaitingInput \<and> turn_end ?r \<noteq> None" by code_simp
  have "by_id (reg (pipe (hub (snd (insert_with_pending demo_hooks 3 (snd (defer_event demo_hooks demo_disk 2
        (snd (defer_event demo_hooks demo_disk 1 demo_hook_system ''s'' (Some 200) (JStr ''Stop'') 6))
        ''s'' (Some 300) (JStr ''Ask'') 5)) demo_record))))) ''s'' = Some ?r"
    by (simp add: defer_event_def insert_with_pending_def demo_hook_system_def demo_pipe_def prune_expired_def
        hold_def evict_until.simps total_bytes_def held_bytes_def unexpired_def PENDING_HOOK_TTL_def
        PENDING_HOOK_MAX_BYTES_PER_SESSION_def PENDING_HOOK_MAX_BYTES_def PENDING_HOOK_MAX_SESSIONS_def
        PENDING_HOOK_MAX_PER_SESSION_def events_of_def insert_pending_def Let_def replay_id
        del: foldl_Cons)
  with r demo_record_ok show ?thesis by (simp add: record_ok_def)
qed

section \<open>Texts, summaries and background work\<close>

lemma take_is_boundary:
  assumes "list_all char_bytes cs" and "j \<le> length cs"
  shows "is_char_boundary (concat cs) (length (concat (take j cs)))"
proof (cases "j = length cs")
  case False
  then obtain c where c: "drop j cs = c # drop (Suc j) cs" "char_bytes c"
    using assms by (metis Cons_nth_drop_Suc le_neq_implies_less list_all_length)
  then have "concat cs = concat (take j cs) @ c @ concat (drop (Suc j) cs)"
    by (metis append_take_drop_id concat.simps(2) concat_append)
  moreover obtain b bs where "c = b # bs" "\<not> is_cont b" using c(2) by (cases c) (auto simp: char_bytes_def)
  ultimately show ?thesis by (auto simp: is_char_boundary_def nth_append)
qed (simp add: is_char_boundary_def)

text \<open>
  a cut text has at most the allowed bytes and is made of whole characters: the longest run of
  the text's leading characters that leaves room for the ellipsis, then the ellipsis; a text that
  fits is returned as it is.
\<close>

theorem truncate_bytes_whole_characters:
  assumes "list_all char_bytes cs"
  shows "length (truncate_bytes (concat cs) n) \<le> n \<and>
    (length (concat cs) \<le> n \<longrightarrow> truncate_bytes (concat cs) n = concat cs) \<and>
    (n < length (concat cs) \<longrightarrow>
       (\<exists>k \<le> length cs. truncate_bytes (concat cs) n = concat (take k cs) @ (if 3 \<le> n then ellipsis else []) \<and>
          (\<forall>j \<le> length cs. length (concat (take j cs)) + (if 3 \<le> n then 3 else 0) \<le> n \<longrightarrow>
             length (concat (take j cs)) \<le> length (concat (take k cs)))))"
proof -
  let ?start = "if n < 3 then n else n - 3"
  let ?stop = "floor_boundary (concat cs) ?start"
  obtain k where k: "k \<le> length cs" "take ?stop (concat cs) = concat (take k cs)" "?stop = length (concat (take k cs))"
    using concat_boundary [OF assms floor_boundary_spec(2)] by blast
  have "length (concat (take j cs)) \<le> length (concat (take k cs))"
    if j: "j \<le> length cs" "length (concat (take j cs)) + (if 3 \<le> n then 3 else 0) \<le> n" for j
  proof (rule ccontr)
    assume "\<not> length (concat (take j cs)) \<le> length (concat (take k cs))"
    then have "?stop < length (concat (take j cs))" using k(3) by simp
    moreover have "length (concat (take j cs)) \<le> ?start" using j(2) by (auto split: if_splits)
    ultimately have "\<not> is_char_boundary (concat cs) (length (concat (take j cs)))" by (rule floor_boundary_spec(3))
    with take_is_boundary [OF assms j(1)] show False by simp
  qed
  moreover have "truncate_bytes (concat cs) n = concat (take k cs) @ (if 3 \<le> n then ellipsis else [])" if "n < length (concat cs)"
    using that k(2) unfolding truncate_bytes_def by (auto simp: Let_def)
  ultimately show ?thesis using truncate_bytes_length [of "concat cs" n] k(1)
    by (auto simp: truncate_bytes_def)
qed

definition demo_chars :: "string list" where
  "demo_chars = [''a'', [CHR 0xC3, CHR 0xA9], ''b'', ''c'', ''d'']"

theorem truncate_bytes_whole_characters_witness:
  "\<exists>k \<le> 5. truncate_bytes (concat demo_chars) 5 = concat (take k demo_chars) @ ellipsis"
proof -
  have "list_all char_bytes demo_chars" "length demo_chars = 5" "5 < length (concat demo_chars)"
    by (simp_all add: demo_chars_def char_bytes_def is_cont_def)
  with truncate_bytes_whole_characters [of demo_chars 5] show ?thesis by auto
qed

text \<open>
  C40: a summary whose lines are final and recent survives a restart: written beside the sidecar and
  loaded again, it is the summary it was.
\<close>

theorem summary_survives_restart:
  assumes "by_id rg sid = Some r" and "record_ok r" and "summary r = Some sm" and "summary_lines sm \<noteq> []"
    and "\<And>sl. sl \<in> set (summary_lines sm) \<Longrightarrow> \<not> provisional sl \<and> now - SUMMARY_RING_MAX_AGE \<le> line_at sl"
    and "writable rg sid" and "sidecars rg sid \<noteq> None" and "persists d" and "disk_ok d"
  shows "restore_summary d now (sync_summary d rg sid) sid = Some sm"
proof -
  have f: "filter (\<lambda>l. \<not> provisional l) (summary_lines sm) = summary_lines sm"
    "filter (\<lambda>l. now - SUMMARY_RING_MAX_AGE \<le> line_at l) (summary_lines sm) = summary_lines sm"
    using assms(5) by (simp_all add: filter_id_conv)
  have "length (summary_lines sm) \<le> SUMMARY_RING_MAX_LINES"
    using assms(2,3) by (simp add: record_ok_def fields_ok_def)
  then have "prune_summary_ring (summary_lines sm) now = summary_lines sm"
    by (simp add: prune_summary_ring_def f)
  moreover have "persisted_summary sm = Some sm" using assms(4) by (simp add: persisted_summary_def f)
  ultimately show ?thesis using assms by (simp add: restore_summary_def restored_summary_def)
qed

definition demo_summary :: SessionSummary where
  "demo_summary = \<lparr>summary_kind = None, headline = ''h'',
     summary_lines = [\<lparr>line_text = ''x'', line_at = 5, line_source = Model, provisional = False\<rparr>],
     updated_at = 5, summary_source = Model\<rparr>"

theorem summary_survives_restart_witness:
  "restore_summary demo_disk 9 (sync_summary demo_disk
     (demo_registry\<lparr>by_id := [''s'' \<mapsto> demo_record\<lparr>summary := Some demo_summary\<rparr>],
        sidecars := [''s'' \<mapsto> record_mirror demo_record]\<rparr>) ''s'') ''s'' = Some demo_summary"
  by (rule summary_survives_restart [where r = "demo_record\<lparr>summary := Some demo_summary\<rparr>"])
     (use demo_record_ok in \<open>auto simp: demo_summary_def record_ok_def fields_ok_def promoted_shell_def
        SUMMARY_RING_MAX_AGE_def SUMMARY_RING_MAX_LINES_def writable_def\<close>)

lemma find_by_id:
  assumes "distinct (map f xs)" and "x \<in> set xs"
  shows "List.find (\<lambda>y. f y = f x) xs = Some x"
  using assms by (induction xs) auto

text \<open>
  a turn end replaces the work list by the one it reports, in its order; a task keeps the time
  it was first seen and a wakeup the time it was first computed to fire for as long as every turn
  end lists it, and a new task is stamped with the turn end's own time.
\<close>

theorem background_work_keeps_times:
  assumes "w' = apply_stop z w stop now" and "distinct (map task_id (tasks w))" and "distinct (map wakeup_id (wakeups w))"
  shows "map task_id (tasks w') = map stop_task_id (stop_tasks stop) \<and>
    map wakeup_id (wakeups w') = map stop_wakeup_id (stop_wakeups stop) \<and>
    (\<forall>t \<in> set (tasks w'). \<forall>held \<in> set (tasks w). task_id held = task_id t \<longrightarrow> since t = since held) \<and>
    (\<forall>t \<in> set (tasks w'). task_id t \<notin> task_id ` set (tasks w) \<longrightarrow> since t = now) \<and>
    (\<forall>u \<in> set (wakeups w'). \<forall>held \<in> set (wakeups w). wakeup_id held = wakeup_id u \<longrightarrow> fires_at u = fires_at held)"
proof -
  have "since t = since held" if "t \<in> set (tasks w')" "held \<in> set (tasks w)" "task_id held = task_id t" for t held
    using that find_by_id [OF assms(2) that(2)] by (auto simp: assms(1) apply_stop_def)
  moreover have "since t = now" if "t \<in> set (tasks w')" "task_id t \<notin> task_id ` set (tasks w)" for t
  proof -
    have "List.find (\<lambda>held. task_id held = task_id t) (tasks w) = None" using that(2) unfolding find_None_iff by (metis image_eqI)
    with that(1) show ?thesis by (auto simp: assms(1) apply_stop_def)
  qed
  moreover have "fires_at u = fires_at held"
    if "u \<in> set (wakeups w')" "held \<in> set (wakeups w)" "wakeup_id held = wakeup_id u" for u held
    using that find_by_id [OF assms(3) that(2)] by (auto simp: assms(1) apply_stop_def)
  moreover have "map task_id (tasks w') = map stop_task_id (stop_tasks stop)"
    "map wakeup_id (wakeups w') = map stop_wakeup_id (stop_wakeups stop)"
    by (simp_all add: assms(1) apply_stop_def)
  ultimately show ?thesis by blast
qed

theorem background_work_keeps_times_witness:
  "map since (tasks (apply_stop demo_zone
       \<lparr>tasks = [\<lparr>task_id = ''b'', task_kind = ShellTask None, task_description = [], since = 3\<rparr>], wakeups = []\<rparr>
       \<lparr>stop_tasks = [\<lparr>stop_task_id = ''b'', stop_task_kind = ShellTask None, stop_task_description = ''x''\<rparr>], stop_wakeups = []\<rparr> 9))
     = [3]"
  using background_work_keeps_times [OF refl, of "\<lparr>tasks = [\<lparr>task_id = ''b'', task_kind = ShellTask None,
       task_description = [], since = 3\<rparr>], wakeups = []\<rparr>" demo_zone
     "\<lparr>stop_tasks = [\<lparr>stop_task_id = ''b'', stop_task_kind = ShellTask None, stop_task_description = ''x''\<rparr>], stop_wakeups = []\<rparr>" 9]
  by (auto simp: apply_stop_def)

end
