(* ===== verification/Devices.thy ===== *)
theory Devices
  imports Prelude "HOL-Library.Word"
begin

text \<open>
  The approved devices of the daemon: the device store of \<open>crates/daemon/src/devices.rs\<close>, one record
  per device with the hash of its token, and the constant-time comparison of
  \<open>crates/daemon/src/secret.rs\<close> that checks a token.

  The SHA-256 of the \<open>sha2\<close> crate is the parameter \<open>sha\<close>. Fresh UUIDs, fresh tokens, the clock and
  the outcome of a file write are arguments of the operations that use them.
\<close>

unbundle bit_operations_syntax

section \<open>Secrets\<close>

definition constant_time_eq :: "string \<Rightarrow> string \<Rightarrow> bool" where
  "constant_time_eq a b =
     (if length a \<noteq> length b then False
      else foldl (\<lambda>diff (x, y). diff OR ((of_char x :: 8 word) XOR of_char y)) 0 (zip a b) = 0)"

text \<open>\<open>{byte:02x}\<close>: two lower-case hexadecimal digits.\<close>

definition hex_digit :: "nat \<Rightarrow> char" where
  "hex_digit n = ''0123456789abcdef'' ! n"

definition hex_byte :: "char \<Rightarrow> string" where
  "hex_byte c = [hex_digit (of_char c div 16), hex_digit (of_char c mod 16)]"

definition digest_hex :: "(string \<Rightarrow> string) \<Rightarrow> string \<Rightarrow> string" where
  "digest_hex sha token = concat (map hex_byte (sha token))"

section \<open>The store\<close>

record PeerIdentity =
  peer_stable_id :: string
  peer_name :: string
  peer_user_id :: int
  peer_login :: string

record DeviceRecord =
  dev_id :: string
  dev_stable_id :: string
  dev_name :: string
  dev_login :: string
  token_sha256 :: string
  dev_created_at :: int
  dev_last_seen :: "int option"
  revoked :: bool

text \<open>The store with the file its path names; times are UTC seconds.\<close>

record DeviceStore =
  devices_file :: "DeviceRecord list stored"
  devices :: "DeviceRecord list"
  corrupt :: bool

datatype StoreError = PermissionDenied | InvalidData | WriteFailed

fun load_devices :: "DeviceRecord list stored \<Rightarrow> DeviceStore" where
  "load_devices Missing = \<lparr>devices_file = Missing, devices = [], corrupt = False\<rparr>"
| "load_devices Unreadable = \<lparr>devices_file = Unreadable, devices = [], corrupt = True\<rparr>"
| "load_devices (Decoded ds) = \<lparr>devices_file = Decoded ds, devices = ds, corrupt = False\<rparr>"

definition is_blocked :: "DeviceStore \<Rightarrow> string \<Rightarrow> bool" where
  "is_blocked st sid = (\<exists>r \<in> set (devices st). dev_stable_id r = sid \<and> revoked r)"

definition unrevoked_id_of :: "DeviceStore \<Rightarrow> string \<Rightarrow> string option" where
  "unrevoked_id_of st sid =
     (if corrupt st then None
      else map_option dev_id (List.find (\<lambda>r. dev_stable_id r = sid \<and> \<not> revoked r) (devices st)))"

definition issue ::
    "(string \<Rightarrow> string) \<Rightarrow> bool \<Rightarrow> PeerIdentity \<Rightarrow> string \<Rightarrow> string \<Rightarrow> int \<Rightarrow> DeviceStore
     \<Rightarrow> (StoreError, string \<times> string) result \<times> DeviceStore" where
  "issue sha ok peer new_id token now st =
     (if corrupt st then (Err InvalidData, st)
      else if is_blocked st (peer_stable_id peer) then (Err PermissionDenied, st)
      else let next = filter (\<lambda>r. dev_stable_id r \<noteq> peer_stable_id peer) (devices st) @
             [\<lparr>dev_id = new_id, dev_stable_id = peer_stable_id peer, dev_name = peer_name peer,
               dev_login = peer_login peer, token_sha256 = digest_hex sha token,
               dev_created_at = now, dev_last_seen = None, revoked = False\<rparr>]
           in if ok then (Ok (new_id, token),
                st\<lparr>devices_file := write_atomic ok next (devices_file st), devices := next\<rparr>)
              else (Err WriteFailed, st))"

text \<open>Every record is compared; the first match is kept.\<close>

definition verify :: "(string \<Rightarrow> string) \<Rightarrow> DeviceStore \<Rightarrow> string \<Rightarrow> string \<Rightarrow> DeviceRecord option" where
  "verify sha st sid token =
     (if corrupt st then None
      else let digest = digest_hex sha token in
        foldl (\<lambda>found r.
          let matches = constant_time_eq (token_sha256 r) digest in
          if matches \<and> dev_stable_id r = sid \<and> \<not> revoked r \<and> found = None then Some r else found)
          None (devices st))"

text \<open>The first record with an id, changed in place (\<open>iter_mut().find\<close>).\<close>

fun on_device :: "string \<Rightarrow> (DeviceRecord \<Rightarrow> DeviceRecord) \<Rightarrow> DeviceRecord list \<Rightarrow> DeviceRecord list option" where
  "on_device i f [] = None"
| "on_device i f (r # rs) =
     (if dev_id r = i then Some (f r # rs) else map_option ((#) r) (on_device i f rs))"

definition touch_device :: "bool \<Rightarrow> string \<Rightarrow> int \<Rightarrow> DeviceStore \<Rightarrow> (StoreError, bool) result \<times> DeviceStore" where
  "touch_device ok i now st =
     (if corrupt st then (Err InvalidData, st)
      else case on_device i (\<lambda>r. r\<lparr>dev_last_seen := Some now\<rparr>) (devices st) of
        None \<Rightarrow> (Ok False, st)
      | Some next \<Rightarrow>
          if ok then (Ok True, st\<lparr>devices_file := write_atomic ok next (devices_file st), devices := next\<rparr>)
          else (Err WriteFailed, st))"

text \<open>A failed write still blocks the device in memory.\<close>

definition revoke :: "bool \<Rightarrow> string \<Rightarrow> DeviceStore \<Rightarrow> (StoreError, bool) result \<times> DeviceStore" where
  "revoke ok i st =
     (if corrupt st then (Err InvalidData, st)
      else case on_device i (\<lambda>r. r\<lparr>revoked := True\<rparr>) (devices st) of
        None \<Rightarrow> (Ok False, st)
      | Some next \<Rightarrow>
          (if ok then Ok True else Err WriteFailed,
           st\<lparr>devices_file := write_atomic ok next (devices_file st), devices := next\<rparr>))"

definition forget :: "bool \<Rightarrow> string \<Rightarrow> DeviceStore \<Rightarrow> (StoreError, bool) result \<times> DeviceStore" where
  "forget ok i st =
     (if corrupt st then (Err InvalidData, st)
      else if \<not> (\<exists>r \<in> set (devices st). dev_id r = i) then (Ok False, st)
      else let next = filter (\<lambda>r. dev_id r \<noteq> i) (devices st)
           in (if ok then Ok True else Err WriteFailed,
               st\<lparr>devices_file := write_atomic ok next (devices_file st), devices := next\<rparr>))"

section \<open>Comparing secrets\<close>

lemma of_char_word_inject: "(of_char x :: 8 word) = of_char y \<longleftrightarrow> x = y"
proof
  assume "(of_char x :: 8 word) = of_char y"
  then have "unat (of_nat (of_char x) :: 8 word) = unat (of_nat (of_char y) :: 8 word)"
    by (simp only: of_nat_of_char)
  moreover have "(of_char x :: nat) < 256" "(of_char y :: nat) < 256"
    using nat_of_char_less_256 by auto
  ultimately have "(of_char x :: nat) = of_char y" by (simp add: unat_of_nat)
  then show "x = y" by simp
qed simp

lemma or_eq_zero: "(a :: 8 word) OR b = 0 \<longleftrightarrow> a = 0 \<and> b = 0"
  by (auto simp: bit_eq_iff bit_simps)

lemma xor_eq_zero: "(a :: 8 word) XOR b = 0 \<longleftrightarrow> a = b"
  by (auto simp: bit_eq_iff bit_simps)

lemma diff_fold:
  "length a = length b \<Longrightarrow>
   foldl (\<lambda>diff (x, y). diff OR ((of_char x :: 8 word) XOR of_char y)) d (zip a b) = 0 \<longleftrightarrow> d = 0 \<and> a = b"
proof (induction a b arbitrary: d rule: list_induct2)
  case (Cons x xs y ys)
  have "(of_char x :: 8 word) XOR of_char y = 0 \<longleftrightarrow> x = y"
    by (simp add: xor_eq_zero of_char_word_inject)
  with Cons.IH show ?case by (auto simp: or_eq_zero)
qed simp

lemma constant_time_eq_iff: "constant_time_eq a b \<longleftrightarrow> a = b"
  using diff_fold [of a b 0] by (auto simp: constant_time_eq_def)

lemma hex_digit_inject: "m < 16 \<Longrightarrow> n < 16 \<Longrightarrow> hex_digit m = hex_digit n \<longleftrightarrow> m = n"
  unfolding hex_digit_def by (rule nth_eq_iff_index_eq) simp_all

lemma hex_byte_inject: "hex_byte c = hex_byte d \<longleftrightarrow> c = d"
proof
  assume eq: "hex_byte c = hex_byte d"
  have "(of_char c :: nat) < 256" "(of_char d :: nat) < 256" using nat_of_char_less_256 by auto
  with eq have "(of_char c :: nat) div 16 = of_char d div 16" "(of_char c :: nat) mod 16 = of_char d mod 16"
    by (auto simp: hex_byte_def hex_digit_inject)
  then have "(of_char c :: nat) = of_char d" by (metis div_mult_mod_eq)
  then show "c = d" by simp
qed simp

lemma hex_bytes_inject: "concat (map hex_byte xs) = concat (map hex_byte ys) \<longleftrightarrow> xs = ys"
proof (induction xs arbitrary: ys)
  case Nil
  show ?case by (cases ys) (auto simp: hex_byte_def)
next
  case (Cons x xs)
  show ?case
  proof (cases ys)
    case (Cons y ys')
    have "hex_byte x @ u = hex_byte y @ v \<longleftrightarrow> x = y \<and> u = v" for u v
      using hex_byte_inject [of x y] by (auto simp: hex_byte_def)
    with Cons.IH Cons show ?thesis by simp
  qed (simp add: hex_byte_def)
qed

lemma digest_hex_inject: "digest_hex sha t = digest_hex sha u \<longleftrightarrow> sha t = sha u"
  by (simp add: digest_hex_def hex_bytes_inject)

section \<open>One record per device\<close>

definition store_wf :: "DeviceRecord list \<Rightarrow> bool" where
  "store_wf ds \<longleftrightarrow> distinct (map dev_id ds) \<and> distinct (map dev_stable_id ds)"

text \<open>The ids of the devices a token may verify for.\<close>

definition approved_ids :: "DeviceStore \<Rightarrow> string set" where
  "approved_ids st = (if corrupt st then {} else dev_id ` {r \<in> set (devices st). \<not> revoked r})"

lemma foldl_first:
  "foldl (\<lambda>found r. if P r \<and> found = None then Some r else found) acc xs =
     (case acc of None \<Rightarrow> List.find P xs | Some r \<Rightarrow> Some r)"
  by (induction xs arbitrary: acc) (auto split: option.splits)

lemma verify_find:
  "verify sha st sid t = (if corrupt st then None else
     List.find (\<lambda>r. token_sha256 r = digest_hex sha t \<and> dev_stable_id r = sid \<and> \<not> revoked r) (devices st))"
proof -
  let ?P = "\<lambda>r. token_sha256 r = digest_hex sha t \<and> dev_stable_id r = sid \<and> \<not> revoked r"
  have "foldl (\<lambda>found r. if ?P r \<and> found = None then Some r else found) None (devices st) = List.find ?P (devices st)"
    by (simp only: foldl_first option.case)
  then show ?thesis by (simp add: verify_def Let_def constant_time_eq_iff)
qed

lemma verify_approved: "verify sha st sid t = Some r \<Longrightarrow> dev_id r \<in> approved_ids st"
  by (auto simp: verify_find approved_ids_def find_Some_iff split: if_splits)

lemma on_device_None: "on_device i f ds = None \<longleftrightarrow> i \<notin> dev_id ` set ds"
  by (induction ds) auto

lemma on_device_map:
  "distinct (map dev_id ds) \<Longrightarrow> on_device i f ds = Some ds' \<Longrightarrow>
   ds' = map (\<lambda>r. if dev_id r = i then f r else r) ds"
proof (induction ds arbitrary: ds')
  case (Cons r ds)
  show ?case
  proof (cases "dev_id r = i")
    case True
    with Cons.prems(1) have "\<forall>x \<in> set ds. dev_id x \<noteq> i" by (auto simp: image_iff)
    then have "map (\<lambda>r. if dev_id r = i then f r else r) ds = ds" by (simp add: map_idI)
    with True Cons.prems(2) show ?thesis by simp
  next
    case False
    with Cons show ?thesis by auto
  qed
qed simp

text \<open>Every operation keeps one record per device, and changes the approved ids exactly as it says.\<close>

lemma on_device_wf:
  assumes "store_wf ds" and "on_device i f ds = Some ds'"
    and "\<And>r. dev_id (f r) = dev_id r" and "\<And>r. dev_stable_id (f r) = dev_stable_id r"
  shows "store_wf ds'"
proof -
  have "ds' = map (\<lambda>r. if dev_id r = i then f r else r) ds"
    using assms(1,2) by (auto simp: store_wf_def dest: on_device_map)
  then have "map dev_id ds' = map dev_id ds" "map dev_stable_id ds' = map dev_stable_id ds"
    using assms(3,4) by simp_all
  with assms(1) show ?thesis by (simp add: store_wf_def)
qed

lemma store_wf_filter: "store_wf ds \<Longrightarrow> store_wf (filter P ds)"
  by (simp add: store_wf_def distinct_map_filter)

lemma touch_device_effect:
  assumes "store_wf (devices st)"
  shows "store_wf (devices (snd (touch_device ok i now st)))"
    "approved_ids (snd (touch_device ok i now st)) = approved_ids st"
    "corrupt (snd (touch_device ok i now st)) = corrupt st"
proof -
  let ?f = "\<lambda>r. r\<lparr>dev_last_seen := Some now\<rparr>"
  have "store_wf ds' \<and> dev_id ` {r \<in> set ds'. \<not> revoked r} = dev_id ` {r \<in> set (devices st). \<not> revoked r}"
    if "on_device i ?f (devices st) = Some ds'" for ds'
  proof
    show "store_wf ds'" using on_device_wf [OF assms that] by simp
    have ds': "ds' = map (\<lambda>r. if dev_id r = i then ?f r else r) (devices st)"
      using assms that by (auto simp: store_wf_def dest: on_device_map)
    then have "map (\<lambda>r. (dev_id r, revoked r)) ds' = map (\<lambda>r. (dev_id r, revoked r)) (devices st)"
      by (simp add: if_distrib cong: if_cong)
    then have "set (map (\<lambda>r. (dev_id r, revoked r)) ds') = set (map (\<lambda>r. (dev_id r, revoked r)) (devices st))"
      by simp
    then show "dev_id ` {r \<in> set ds'. \<not> revoked r} = dev_id ` {r \<in> set (devices st). \<not> revoked r}"
      by (auto simp: image_iff set_eq_iff) metis+
  qed
  then show "store_wf (devices (snd (touch_device ok i now st)))"
    "approved_ids (snd (touch_device ok i now st)) = approved_ids st"
    "corrupt (snd (touch_device ok i now st)) = corrupt st"
    using assms by (auto simp: touch_device_def approved_ids_def split: option.splits)
qed

lemma revoke_effect:
  assumes "store_wf (devices st)"
  shows "store_wf (devices (snd (revoke ok i st)))"
    "approved_ids (snd (revoke ok i st)) = approved_ids st - {i}"
    "corrupt (snd (revoke ok i st)) = corrupt st"
proof -
  let ?f = "\<lambda>r. r\<lparr>revoked := True\<rparr>"
  have wf: "store_wf ds'" if "on_device i ?f (devices st) = Some ds'" for ds'
    using on_device_wf [OF assms that] by simp
  have "dev_id ` {r \<in> set ds'. \<not> revoked r} = dev_id ` {r \<in> set (devices st). \<not> revoked r} - {i}"
    if "on_device i ?f (devices st) = Some ds'" for ds'
  proof -
    have "ds' = map (\<lambda>r. if dev_id r = i then ?f r else r) (devices st)"
      using assms that by (auto simp: store_wf_def dest: on_device_map)
    then have "{r \<in> set ds'. \<not> revoked r} = {r \<in> set (devices st). \<not> revoked r \<and> dev_id r \<noteq> i}"
      by (auto split: if_splits)
    then show ?thesis by auto
  qed
  with wf show "store_wf (devices (snd (revoke ok i st)))"
    "approved_ids (snd (revoke ok i st)) = approved_ids st - {i}"
    "corrupt (snd (revoke ok i st)) = corrupt st"
    using assms on_device_None [of i ?f "devices st"]
    by (auto simp: revoke_def approved_ids_def split: option.splits)
qed

lemma forget_effect:
  assumes "store_wf (devices st)"
  shows "store_wf (devices (snd (forget ok i st)))"
    "approved_ids (snd (forget ok i st)) = approved_ids st - {i}"
    "corrupt (snd (forget ok i st)) = corrupt st"
  using assms by (auto simp: forget_def approved_ids_def Let_def intro: store_wf_filter)

lemma issue_Err: "fst (issue sha ok p i t now st) = Err e \<Longrightarrow> snd (issue sha ok p i t now st) = st"
  by (auto simp: issue_def Let_def split: if_splits)

lemma issue_Ok:
  assumes "fst (issue sha ok p i t now st) = Ok v"
  shows "v = (i, t)" "\<not> corrupt st" "\<not> is_blocked st (peer_stable_id p)"
    "snd (issue sha ok p i t now st) = st\<lparr>devices_file := Decoded (devices (snd (issue sha ok p i t now st))),
       devices := filter (\<lambda>r. dev_stable_id r \<noteq> peer_stable_id p) (devices st) @
         [\<lparr>dev_id = i, dev_stable_id = peer_stable_id p, dev_name = peer_name p, dev_login = peer_login p,
           token_sha256 = digest_hex sha t, dev_created_at = now, dev_last_seen = None, revoked = False\<rparr>]\<rparr>"
  using assms by (auto simp: issue_def Let_def write_atomic_def split: if_splits)

lemma issue_effect:
  assumes "store_wf (devices st)" and "i \<notin> dev_id ` set (devices st)"
  shows "store_wf (devices (snd (issue sha ok p i t now st)))"
    "corrupt (snd (issue sha ok p i t now st)) = corrupt st"
    "approved_ids (snd (issue sha ok p i t now st)) =
       (if isl (fst (issue sha ok p i t now st)) then approved_ids st
        else insert i (approved_ids st - dev_id ` {r \<in> set (devices st). dev_stable_id r = peer_stable_id p}))"
proof -
  show "store_wf (devices (snd (issue sha ok p i t now st)))"
    using assms by (auto simp: issue_def Let_def store_wf_def distinct_map_filter)
  show "corrupt (snd (issue sha ok p i t now st)) = corrupt st" by (simp add: issue_def Let_def)
  have "dev_id ` {r \<in> set (devices st). dev_stable_id r \<noteq> sid \<and> \<not> revoked r} =
    dev_id ` {r \<in> set (devices st). \<not> revoked r} - dev_id ` {r \<in> set (devices st). dev_stable_id r = sid}" for sid
    using assms(1) by (auto simp: store_wf_def distinct_map inj_on_def)
  moreover have "{r. (r = d \<or> r \<in> set (devices st) \<and> dev_stable_id r \<noteq> sid) \<and> \<not> revoked r} =
    insert d {r \<in> set (devices st). dev_stable_id r \<noteq> sid \<and> \<not> revoked r}" if "\<not> revoked d" for d sid
    using that by auto
  ultimately show "approved_ids (snd (issue sha ok p i t now st)) =
       (if isl (fst (issue sha ok p i t now st)) then approved_ids st
        else insert i (approved_ids st - dev_id ` {r \<in> set (devices st). dev_stable_id r = peer_stable_id p}))"
    by (simp add: issue_def Let_def approved_ids_def)
qed

end
