(* ===== verification/Pairing_Book.thy ===== *)
theory Pairing_Book
  imports Devices
begin

text \<open>
  The pairing book of \<open>crates/daemon/src/devices.rs\<close>: the waiting pairing requests, the one-time
  code of each approved request and the codes minted on the command line. Instants are seconds of
  a monotonic clock; a fresh request id and a fresh code are arguments of the operation that
  generates them.
\<close>

definition REQUEST_LIFETIME :: nat where "REQUEST_LIFETIME = 300"
definition CODE_LIFETIME :: nat where "CODE_LIFETIME = 120"
definition MAX_WRONG_ATTEMPTS :: nat where "MAX_WRONG_ATTEMPTS = 5"
definition MAX_PENDING :: nat where "MAX_PENDING = 8"
definition MAX_CLI_CODES :: nat where "MAX_CLI_CODES = 4"
definition MAX_WRONG_CLI_REDEEMS :: nat where "MAX_WRONG_CLI_REDEEMS = 5"

lemmas pairing_limits = REQUEST_LIFETIME_def CODE_LIFETIME_def MAX_WRONG_ATTEMPTS_def MAX_PENDING_def
  MAX_CLI_CODES_def MAX_WRONG_CLI_REDEEMS_def

datatype PairError = TooManyPending | Expired | TooManyAttempts | NotYours | WrongCode | NotApproved | Unknown

record PairCode =
  code_value :: string
  code_expires_at :: nat

record PendingRequest =
  req_id :: string
  req_stable_id :: string
  req_name :: string
  req_login :: string
  asked_at :: int
  expires_at :: nat
  approved :: bool
  code :: "PairCode option"
  wrong_attempts :: nat

record CliCode =
  cli_value :: string
  cli_expires_at :: nat

record PairingBook =
  requests :: "PendingRequest list"
  cli_codes :: "CliCode list"
  wrong_cli_redeems :: "nat list"

record PendingView =
  view_id :: string
  view_name :: string
  view_login :: string
  view_asked_at :: int
  view_approved :: bool

definition new_book :: PairingBook where
  "new_book = \<lparr>requests = [], cli_codes = [], wrong_cli_redeems = []\<rparr>"

text \<open>\<open>position\<close> followed by \<open>remove\<close>, or by a write to the element found.\<close>

fun drop_first :: "('a \<Rightarrow> bool) \<Rightarrow> 'a list \<Rightarrow> 'a list" where
  "drop_first P [] = []"
| "drop_first P (x # xs) = (if P x then xs else x # drop_first P xs)"

fun on_first :: "('a \<Rightarrow> bool) \<Rightarrow> ('a \<Rightarrow> 'a) \<Rightarrow> 'a list \<Rightarrow> 'a list" where
  "on_first P f [] = []"
| "on_first P f (x # xs) = (if P x then f x # xs else x # on_first P f xs)"

abbreviation has_id :: "string \<Rightarrow> PendingRequest \<Rightarrow> bool" where
  "has_id rid \<equiv> \<lambda>r. req_id r = rid"

definition find_request :: "PairingBook \<Rightarrow> string \<Rightarrow> PendingRequest option" where
  "find_request b rid = List.find (has_id rid) (requests b)"

definition drop_request :: "string \<Rightarrow> PairingBook \<Rightarrow> PairingBook" where
  "drop_request rid b = b\<lparr>requests := drop_first (has_id rid) (requests b)\<rparr>"

definition on_request_entry :: "string \<Rightarrow> (PendingRequest \<Rightarrow> PendingRequest) \<Rightarrow> PairingBook \<Rightarrow> PairingBook" where
  "on_request_entry rid f b = b\<lparr>requests := on_first (has_id rid) f (requests b)\<rparr>"

definition drop_expired_cli_codes :: "nat \<Rightarrow> PairingBook \<Rightarrow> PairingBook" where
  "drop_expired_cli_codes now b = b\<lparr>cli_codes := filter (\<lambda>c. now < cli_expires_at c) (cli_codes b)\<rparr>"

text \<open>A request whose code lapsed keeps its place and loses the code.\<close>

definition lapse_code :: "nat \<Rightarrow> PendingRequest \<Rightarrow> PendingRequest" where
  "lapse_code now r = (case code r of
     Some c \<Rightarrow> if code_expires_at c \<le> now then r\<lparr>code := None, approved := False\<rparr> else r
   | None \<Rightarrow> r)"

definition expire :: "nat \<Rightarrow> PairingBook \<Rightarrow> string list \<times> PairingBook" where
  "expire now b = (let b = drop_expired_cli_codes now b in
     (map req_id (filter (\<lambda>r. expires_at r \<le> now) (requests b)),
      b\<lparr>requests := map (lapse_code now) (filter (\<lambda>r. \<not> expires_at r \<le> now) (requests b))\<rparr>))"

definition take_for :: "string \<Rightarrow> PairingBook \<Rightarrow> string option \<times> PairingBook" where
  "take_for sid b = (case List.find (\<lambda>r. req_stable_id r = sid) (requests b) of
     None \<Rightarrow> (None, b)
   | Some r \<Rightarrow> (Some (req_id r), b\<lparr>requests := drop_first (\<lambda>r. req_stable_id r = sid) (requests b)\<rparr>))"

text \<open>The new request's id and the id of the same device's request it replaced.\<close>

definition request ::
    "PeerIdentity \<Rightarrow> string \<Rightarrow> nat \<Rightarrow> int \<Rightarrow> PairingBook \<Rightarrow> (PairError, string \<times> string option) result \<times> PairingBook" where
  "request peer new_id now asked b =
     (let b = snd (expire now b) in
      if MAX_PENDING \<le> length (filter (\<lambda>r. req_stable_id r \<noteq> peer_stable_id peer) (requests b))
      then (Err TooManyPending, b)
      else let (superseded, b) = take_for (peer_stable_id peer) b in
        (Ok (new_id, superseded),
         b\<lparr>requests := requests b @
           [\<lparr>req_id = new_id, req_stable_id = peer_stable_id peer, req_name = peer_name peer,
             req_login = peer_login peer, asked_at = asked, expires_at = now + REQUEST_LIFETIME,
             approved = False, code = None, wrong_attempts = 0\<rparr>]\<rparr>))"

definition approve :: "string \<Rightarrow> nat \<Rightarrow> string \<Rightarrow> PairingBook \<Rightarrow> (PairError, string) result \<times> PairingBook" where
  "approve rid now new_code b =
     (case find_request b rid of
        None \<Rightarrow> (Err Unknown, b)
      | Some r \<Rightarrow>
          if expires_at r \<le> now then (Err Expired, drop_request rid b)
          else (Ok new_code, on_request_entry rid (\<lambda>r. r\<lparr>approved := True,
                  code := Some \<lparr>code_value = new_code, code_expires_at = now + CODE_LIFETIME\<rparr>,
                  expires_at := max (expires_at r) (now + CODE_LIFETIME)\<rparr>) b))"

definition deny :: "string \<Rightarrow> PairingBook \<Rightarrow> bool \<times> PairingBook" where
  "deny rid b = (case find_request b rid of Some _ \<Rightarrow> (True, drop_request rid b) | None \<Rightarrow> (False, b))"

definition redeem :: "string \<Rightarrow> string \<Rightarrow> string \<Rightarrow> nat \<Rightarrow> PairingBook \<Rightarrow> (PairError, unit) result \<times> PairingBook" where
  "redeem rid sid presented now b =
     (case find_request b rid of
        None \<Rightarrow> (Err Unknown, b)
      | Some r \<Rightarrow>
          if req_stable_id r \<noteq> sid then (Err NotYours, b)
          else if expires_at r \<le> now then (Err Expired, drop_request rid b)
          else case code r of
            None \<Rightarrow> (Err NotApproved, b)
          | Some c \<Rightarrow>
              if \<not> approved r then (Err NotApproved, b)
              else if code_expires_at c \<le> now then
                (Err Expired, on_request_entry rid (\<lambda>r. r\<lparr>approved := False, code := None\<rparr>) b)
              else if \<not> constant_time_eq (code_value c) presented then
                (let b = on_request_entry rid (\<lambda>r. r\<lparr>wrong_attempts := wrong_attempts r + 1\<rparr>) b in
                 if MAX_WRONG_ATTEMPTS \<le> wrong_attempts r + 1 then (Err TooManyAttempts, drop_request rid b)
                 else (Err WrongCode, b))
              else (Ok (), drop_request rid b))"

definition mint_cli_code :: "nat \<Rightarrow> string \<Rightarrow> PairingBook \<Rightarrow> string \<times> PairingBook" where
  "mint_cli_code now new_code b =
     (let b = drop_expired_cli_codes now b;
          b = (if MAX_CLI_CODES \<le> length (cli_codes b) then b\<lparr>cli_codes := drop 1 (cli_codes b)\<rparr> else b)
      in (new_code, b\<lparr>cli_codes := cli_codes b @ [\<lparr>cli_value = new_code, cli_expires_at = now + CODE_LIFETIME\<rparr>]\<rparr>))"

definition redeem_cli_code :: "string \<Rightarrow> nat \<Rightarrow> PairingBook \<Rightarrow> (PairError, unit) result \<times> PairingBook" where
  "redeem_cli_code presented now b =
     (let b = drop_expired_cli_codes now b;
          matches = (\<lambda>live. constant_time_eq (cli_value live) presented) in
      if \<exists>live \<in> set (cli_codes b). matches live
      then (Ok (), b\<lparr>cli_codes := drop_first matches (cli_codes b)\<rparr>)
      else if cli_codes b = [] then (Err Expired, b)
      else let recent = filter (\<lambda>t. now - t \<le> CODE_LIFETIME) (wrong_cli_redeems b) @ [now] in
        (Err WrongCode,
         if MAX_WRONG_CLI_REDEEMS \<le> length recent then b\<lparr>cli_codes := [], wrong_cli_redeems := []\<rparr>
         else b\<lparr>wrong_cli_redeems := recent\<rparr>))"

definition pending :: "PairingBook \<Rightarrow> PendingView list" where
  "pending b = map (\<lambda>r. \<lparr>view_id = req_id r, view_name = req_name r, view_login = req_login r,
     view_asked_at = asked_at r, view_approved = approved r\<rparr>) (requests b)"

definition stable_id_of :: "PairingBook \<Rightarrow> string \<Rightarrow> string option" where
  "stable_id_of b rid = map_option req_stable_id (find_request b rid)"

section \<open>Invariant\<close>

definition request_ok :: "PendingRequest \<Rightarrow> bool" where
  "request_ok r \<longleftrightarrow> wrong_attempts r < MAX_WRONG_ATTEMPTS \<and> (approved r \<longleftrightarrow> code r \<noteq> None) \<and>
     (\<forall>c. code r = Some c \<longrightarrow> code_expires_at c \<le> expires_at r)"

definition book_ok :: "PairingBook \<Rightarrow> bool" where
  "book_ok b \<longleftrightarrow>
     distinct (map req_id (requests b)) \<and> distinct (map req_stable_id (requests b)) \<and>
     length (requests b) \<le> MAX_PENDING \<and> (\<forall>r \<in> set (requests b). request_ok r) \<and>
     length (cli_codes b) \<le> MAX_CLI_CODES \<and> length (wrong_cli_redeems b) < MAX_WRONG_CLI_REDEEMS"

lemma new_book_ok: "book_ok new_book"
  by (simp add: book_ok_def new_book_def MAX_WRONG_CLI_REDEEMS_def)

text \<open>With distinct keys, the first match is the only one.\<close>

lemma drop_first_key: "distinct (map f xs) \<Longrightarrow> drop_first (\<lambda>x. f x = k) xs = filter (\<lambda>x. f x \<noteq> k) xs"
  by (induction xs) (auto simp: image_iff intro!: filter_True [symmetric])

lemma on_first_key: "distinct (map f xs) \<Longrightarrow> on_first (\<lambda>x. f x = k) g xs = map (\<lambda>x. if f x = k then g x else x) xs"
  by (induction xs) (auto simp: image_iff intro!: map_idI [symmetric])

lemma drop_first_subset: "set (drop_first P xs) \<subseteq> set xs"
  by (induction xs) auto

lemma length_drop_first: "length (drop_first P xs) \<le> length xs"
  by (induction xs) auto

lemma find_key:
  "distinct (map f xs) \<Longrightarrow> List.find (\<lambda>x. f x = k) xs = Some x \<longleftrightarrow> x \<in> set xs \<and> f x = k"
  by (induction xs) (auto simp: image_iff)

lemma find_request_iff: "book_ok b \<Longrightarrow> find_request b rid = Some r \<longleftrightarrow> r \<in> set (requests b) \<and> req_id r = rid"
  using find_key [of req_id "requests b" rid r] by (simp add: find_request_def book_ok_def)

lemma find_request_None: "find_request b rid = None \<longleftrightarrow> rid \<notin> req_id ` set (requests b)"
  by (auto simp: find_request_def find_None_iff)

text \<open>Dropping requests, and changing them without touching their ids, keeps the invariant.\<close>

lemma book_ok_filter: "book_ok b \<Longrightarrow> book_ok (b\<lparr>requests := filter P (requests b)\<rparr>)"
  by (auto simp: book_ok_def distinct_map_filter intro: order_trans [OF length_filter_le])

lemma book_ok_map:
  assumes "book_ok b" and "\<And>r. req_id (f r) = req_id r" and "\<And>r. req_stable_id (f r) = req_stable_id r"
    and "\<And>r. r \<in> set (requests b) \<Longrightarrow> request_ok r \<Longrightarrow> request_ok (f r)"
  shows "book_ok (b\<lparr>requests := map f (requests b)\<rparr>)"
  using assms by (auto simp: book_ok_def comp_def)

lemma drop_request_eq: "book_ok b \<Longrightarrow> drop_request rid b = b\<lparr>requests := filter (\<lambda>r. req_id r \<noteq> rid) (requests b)\<rparr>"
  by (simp add: drop_request_def book_ok_def drop_first_key)

lemma on_request_entry_eq:
  "book_ok b \<Longrightarrow> on_request_entry rid f b = b\<lparr>requests := map (\<lambda>r. if req_id r = rid then f r else r) (requests b)\<rparr>"
  by (simp add: on_request_entry_def book_ok_def on_first_key)

lemma drop_changed_request:
  assumes "\<And>r. req_id (f r) = req_id r"
  shows "drop_request rid (on_request_entry rid f b) = drop_request rid b"
proof -
  have "drop_first (has_id rid) (on_first (has_id rid) f xs) = drop_first (has_id rid) xs" for xs
    using assms by (induction xs) auto
  then show ?thesis by (simp add: drop_request_def on_request_entry_def)
qed

lemma drop_request_ok: "book_ok b \<Longrightarrow> book_ok (drop_request rid b)"
  by (simp add: drop_request_eq book_ok_filter)

lemma drop_expired_cli_codes_ok: "book_ok b \<Longrightarrow> book_ok (drop_expired_cli_codes now b)"
  by (auto simp: book_ok_def drop_expired_cli_codes_def intro: order_trans [OF length_filter_le])

lemma lapse_code_fields [simp]:
  "req_id (lapse_code now r) = req_id r" "req_stable_id (lapse_code now r) = req_stable_id r"
  "wrong_attempts (lapse_code now r) = wrong_attempts r" "expires_at (lapse_code now r) = expires_at r"
  by (simp_all add: lapse_code_def split: option.split)

lemma lapse_code_ok: "request_ok r \<Longrightarrow> request_ok (lapse_code now r)"
  by (auto simp: request_ok_def lapse_code_def split: option.splits)

lemma expire_ok: "book_ok b \<Longrightarrow> book_ok (snd (expire now b))"
proof -
  assume "book_ok b"
  then have "book_ok ((drop_expired_cli_codes now b)\<lparr>requests := filter (\<lambda>r. \<not> expires_at r \<le> now) (requests b)\<rparr>)"
    using book_ok_filter [OF drop_expired_cli_codes_ok [of b now], of "\<lambda>r. \<not> expires_at r \<le> now"]
    by (simp add: drop_expired_cli_codes_def)
  from book_ok_map [OF this, of "lapse_code now"] show ?thesis
    by (simp add: expire_def Let_def lapse_code_ok drop_expired_cli_codes_def)
qed

lemma take_for_eq:
  assumes "book_ok b"
  shows "snd (take_for sid b) = b\<lparr>requests := filter (\<lambda>r. req_stable_id r \<noteq> sid) (requests b)\<rparr>"
proof (cases "List.find (\<lambda>r. req_stable_id r = sid) (requests b)")
  case None
  then have "filter (\<lambda>r. req_stable_id r \<noteq> sid) (requests b) = requests b" by (auto simp: find_None_iff intro!: filter_True)
  with None show ?thesis by (simp add: take_for_def)
next
  case (Some r)
  with assms show ?thesis by (simp add: take_for_def drop_first_key book_ok_def)
qed

lemma request_book:
  assumes "book_ok b"
  shows "snd (request peer i now asked b) =
    (let c = snd (expire now b); others = filter (\<lambda>r. req_stable_id r \<noteq> peer_stable_id peer) (requests c) in
     if MAX_PENDING \<le> length others then c
     else c\<lparr>requests := others @
           [\<lparr>req_id = i, req_stable_id = peer_stable_id peer, req_name = peer_name peer,
             req_login = peer_login peer, asked_at = asked, expires_at = now + REQUEST_LIFETIME,
             approved = False, code = None, wrong_attempts = 0\<rparr>]\<rparr>)"
  using take_for_eq [OF expire_ok [OF assms], of "peer_stable_id peer"]
  by (simp add: request_def Let_def split_def)

lemma request_ok_kept:
  assumes "book_ok b" and "i \<notin> req_id ` set (requests b)"
  shows "book_ok (snd (request peer i now asked b))"
proof -
  let ?c = "snd (expire now b)"
  let ?others = "filter (\<lambda>r. req_stable_id r \<noteq> peer_stable_id peer) (requests ?c)"
  have "book_ok ?c" using assms(1) by (rule expire_ok)
  then have c: "book_ok (?c\<lparr>requests := ?others\<rparr>)" by (rule book_ok_filter)
  have "i \<notin> req_id ` set ?others"
    using assms(2) by (auto simp: expire_def Let_def drop_expired_cli_codes_def)
  with c show ?thesis
    using expire_ok [OF assms(1), of now]
    by (auto simp: request_book [OF assms(1)] Let_def book_ok_def request_ok_def pairing_limits)
qed

lemma approve_ok: "book_ok b \<Longrightarrow> book_ok (snd (approve rid now c b))"
  by (auto simp: approve_def on_request_entry_eq drop_request_ok request_ok_def split: option.split
      intro!: book_ok_map)

lemma deny_ok: "book_ok b \<Longrightarrow> book_ok (snd (deny rid b))"
  by (simp add: deny_def drop_request_ok split: option.split)

lemma redeem_ok: "book_ok b \<Longrightarrow> book_ok (snd (redeem rid sid c now b))"
proof -
  assume b: "book_ok b"
  have wrong: "book_ok (on_request_entry rid (\<lambda>r. r\<lparr>wrong_attempts := wrong_attempts r + 1\<rparr>) b)"
    if "find_request b rid = Some r" "wrong_attempts r + 1 < MAX_WRONG_ATTEMPTS" for r
  proof -
    have "x = r" if "x \<in> set (requests b)" "req_id x = rid" for x
      using that b \<open>find_request b rid = Some r\<close> find_request_iff by (metis option.inject)
    with b that(2) show ?thesis
      by (auto simp: on_request_entry_eq request_ok_def intro!: book_ok_map)
  qed
  have lapse: "book_ok (on_request_entry rid (\<lambda>r. r\<lparr>approved := False, code := None\<rparr>) b)"
    using b by (auto simp: on_request_entry_eq request_ok_def intro!: book_ok_map)
  show ?thesis
    using b wrong lapse
    by (auto simp: redeem_def drop_changed_request drop_request_ok Let_def not_le split: option.split)
qed

lemma mint_cli_code_ok: "book_ok b \<Longrightarrow> book_ok (snd (mint_cli_code now c b))"
  using drop_expired_cli_codes_ok [of b now]
  by (auto simp: mint_cli_code_def Let_def book_ok_def MAX_CLI_CODES_def)

lemma redeem_cli_code_ok: "book_ok b \<Longrightarrow> book_ok (snd (redeem_cli_code c now b))"
proof -
  assume "book_ok b"
  then have b: "book_ok (drop_expired_cli_codes now b)" by (rule drop_expired_cli_codes_ok)
  then have "book_ok ((drop_expired_cli_codes now b)\<lparr>cli_codes := drop_first P (cli_codes (drop_expired_cli_codes now b))\<rparr>)" for P
    using length_drop_first [of P "cli_codes (drop_expired_cli_codes now b)"] by (auto simp: book_ok_def)
  with b show ?thesis
    by (auto simp: redeem_cli_code_def Let_def) (auto simp: book_ok_def MAX_WRONG_CLI_REDEEMS_def)
qed

lemmas book_ops_ok = expire_ok request_ok_kept approve_ok deny_ok redeem_ok mint_cli_code_ok redeem_cli_code_ok

section \<open>Guessing codes\<close>

text \<open>Any sequence of calls on the book, with the error each one answers.\<close>

datatype BookOp =
    Ask PeerIdentity string nat int
  | Approve string nat string
  | Deny string
  | Redeem string string string nat
  | Mint nat string
  | RedeemCli string nat
  | Expire nat

definition err_of :: "('e, 'a) result \<Rightarrow> 'e option" where
  "err_of r = (case r of Inl e \<Rightarrow> Some e | Inr _ \<Rightarrow> None)"

fun book_op :: "BookOp \<Rightarrow> PairingBook \<Rightarrow> PairError option \<times> PairingBook" where
  "book_op (Ask p i now asked) b = apfst err_of (request p i now asked b)"
| "book_op (Approve rid now c) b = apfst err_of (approve rid now c b)"
| "book_op (Deny rid) b = (None, snd (deny rid b))"
| "book_op (Redeem rid sid c now) b = apfst err_of (redeem rid sid c now b)"
| "book_op (Mint now c) b = (None, snd (mint_cli_code now c b))"
| "book_op (RedeemCli c now) b = apfst err_of (redeem_cli_code c now b)"
| "book_op (Expire now) b = (None, snd (expire now b))"

fun answers :: "BookOp list \<Rightarrow> PairingBook \<Rightarrow> (BookOp \<times> PairError option) list" where
  "answers [] b = []"
| "answers (x # xs) b = (x, fst (book_op x b)) # answers xs (snd (book_op x b))"

definition run_book :: "BookOp list \<Rightarrow> PairingBook \<Rightarrow> PairingBook" where
  "run_book xs b = foldl (\<lambda>b x. snd (book_op x b)) b xs"

text \<open>The wrong codes presented for one request.\<close>

fun wrong_guess :: "string \<Rightarrow> BookOp \<times> PairError option \<Rightarrow> bool" where
  "wrong_guess rid (Redeem i sid c now, Some e) = (i = rid \<and> (e = WrongCode \<or> e = TooManyAttempts))"
| "wrong_guess rid _ = False"

text \<open>The request ids a sequence of calls uses for new requests.\<close>

fun asked_id :: "BookOp \<Rightarrow> string option" where
  "asked_id (Ask p i now asked) = Some i"
| "asked_id _ = None"

definition attempts_left :: "PairingBook \<Rightarrow> string \<Rightarrow> nat" where
  "attempts_left b rid = (case find_request b rid of None \<Rightarrow> 0 | Some r \<Rightarrow> MAX_WRONG_ATTEMPTS - wrong_attempts r)"

lemma find_key_map:
  assumes "\<And>x. f (g x) = f x"
  shows "List.find (\<lambda>x. f x = k) (map g xs) = map_option g (List.find (\<lambda>x. f x = k) xs)"
  using assms by (induction xs) auto

lemma find_key_filter:
  assumes "distinct (map f xs)"
  shows "List.find (\<lambda>x. f x = k) (filter P xs) =
    (case List.find (\<lambda>x. f x = k) xs of None \<Rightarrow> None | Some x \<Rightarrow> if P x then Some x else None)"
  using assms
proof (induction xs)
  case (Cons x xs)
  have "List.find (\<lambda>x. f x = f x') (filter P xs) = None" if "f x' \<notin> f ` set xs" for x'
    using that by (auto simp: find_None_iff image_iff)
  with Cons show ?case by auto
qed simp

lemma find_key_append:
  "List.find P (xs @ ys) = (case List.find P xs of None \<Rightarrow> List.find P ys | Some x \<Rightarrow> Some x)"
  by (induction xs) auto

lemma book_op_ok: "book_ok b \<Longrightarrow> (\<And>i. asked_id x = Some i \<Longrightarrow> i \<notin> req_id ` set (requests b)) \<Longrightarrow> book_ok (snd (book_op x b))"
  by (cases x) (auto intro: book_ops_ok)

lemma find_request_id: "find_request b rid = Some r \<Longrightarrow> req_id r = rid"
  by (auto simp: find_request_def find_Some_iff)

lemma find_request_drop:
  assumes "book_ok b"
  shows "find_request (drop_request i b) rid = (if i = rid then None else find_request b rid)"
proof -
  have "find_request (drop_request i b) rid =
    (case find_request b rid of None \<Rightarrow> None | Some r \<Rightarrow> if req_id r \<noteq> i then Some r else None)"
    using assms by (simp add: drop_request_eq find_request_def book_ok_def find_key_filter)
  then show ?thesis by (auto split: option.split dest: find_request_id)
qed

lemma find_request_entry:
  assumes "book_ok b" and "\<And>r. req_id (f r) = req_id r"
  shows "find_request (on_request_entry i f b) rid =
    (if i = rid then map_option f (find_request b rid) else find_request b rid)"
proof -
  have "find_request (on_request_entry i f b) rid = map_option (\<lambda>r. if req_id r = i then f r else r) (find_request b rid)"
    using assms find_key_map [of req_id "\<lambda>r. if req_id r = i then f r else r" rid "requests b"]
    by (simp add: on_request_entry_eq find_request_def)
  then show ?thesis by (cases "find_request b rid") (auto dest: find_request_id)
qed

lemma find_request_expire:
  "book_ok b \<Longrightarrow> find_request (snd (expire now b)) rid =
    (case find_request b rid of None \<Rightarrow> None
     | Some r \<Rightarrow> if expires_at r \<le> now then None else Some (lapse_code now r))"
  by (auto simp: expire_def Let_def find_request_def drop_expired_cli_codes_def find_key_map find_key_filter
      book_ok_def split: option.split)

lemma find_request_request:
  assumes "book_ok b" and "i \<noteq> rid"
  shows "find_request (snd (request p i now asked b)) rid =
    (case find_request (snd (expire now b)) rid of None \<Rightarrow> None
     | Some r \<Rightarrow> if isl (fst (request p i now asked b)) \<or> req_stable_id r \<noteq> peer_stable_id p then Some r else None)"
proof -
  have "distinct (map req_id (requests (snd (expire now b))))"
    using expire_ok [OF assms(1)] by (simp add: book_ok_def)
  moreover have "isl (fst (request p i now asked b)) \<longleftrightarrow>
      MAX_PENDING \<le> length (filter (\<lambda>r. req_stable_id r \<noteq> peer_stable_id p) (requests (snd (expire now b))))"
    by (simp add: request_def Let_def split_def)
  ultimately show ?thesis using assms(2)
    by (auto simp: request_book [OF assms(1)] Let_def find_request_def find_key_append find_key_filter
        split: option.split)
qed

lemma lookup_other_fields:
  "find_request (b\<lparr>cli_codes := u\<rparr>) rid = find_request b rid"
  "find_request (b\<lparr>wrong_cli_redeems := v\<rparr>) rid = find_request b rid"
  "find_request (drop_expired_cli_codes now b) rid = find_request b rid"
  by (simp_all add: find_request_def drop_expired_cli_codes_def)

lemma guess_uses_attempt:
  assumes "book_ok b" and "asked_id x \<noteq> Some rid"
  shows "attempts_left (snd (book_op x b)) rid + (if wrong_guess rid (x, fst (book_op x b)) then 1 else 0)
    \<le> attempts_left b rid"
proof (cases x)
  case (Ask p i now asked)
  with assms show ?thesis
    by (auto simp: attempts_left_def find_request_request find_request_expire split: option.split)
next
  case (Redeem i sid c now)
  have "wrong_attempts r < MAX_WRONG_ATTEMPTS" if "find_request b rid = Some r" for r
    using assms(1) that by (auto simp: find_request_iff book_ok_def request_ok_def)
  with Redeem assms(1) show ?thesis
    by (auto simp: attempts_left_def redeem_def err_of_def Let_def find_request_drop find_request_entry
        drop_changed_request split: option.split)
next
  case (RedeemCli c now)
  then show ?thesis
    by (auto simp: attempts_left_def redeem_cli_code_def Let_def lookup_other_fields)
next
  case (Mint now c)
  then show ?thesis
    by (auto simp: attempts_left_def mint_cli_code_def Let_def lookup_other_fields)
qed (use assms(1) in \<open>auto simp: attempts_left_def approve_def deny_def find_request_drop find_request_entry
      find_request_expire split: option.split\<close>)

text \<open>New requests get ids that are not in use.\<close>

definition fresh_asks :: "BookOp list \<Rightarrow> PairingBook \<Rightarrow> bool" where
  "fresh_asks xs b \<longleftrightarrow> distinct (List.map_filter asked_id xs) \<and>
     set (List.map_filter asked_id xs) \<inter> req_id ` set (requests b) = {}"

lemma drop_request_ids: "req_id ` set (requests (drop_request i b)) \<subseteq> req_id ` set (requests b)"
  using drop_first_subset by (fastforce simp: drop_request_def)

lemma on_first_ids: "(\<And>r. f (g r) = f r) \<Longrightarrow> f ` set (on_first P g xs) = f ` set xs"
  by (induction xs) auto

lemma on_request_entry_ids:
  "(\<And>r. req_id (f r) = req_id r) \<Longrightarrow> req_id ` set (requests (on_request_entry i f b)) = req_id ` set (requests b)"
  by (simp add: on_request_entry_def on_first_ids)

lemma request_lists_simps [simp]:
  "requests (drop_expired_cli_codes now b) = requests b"
  "cli_codes (drop_request i b) = cli_codes b" "cli_codes (on_request_entry i f b) = cli_codes b"
  "wrong_cli_redeems (drop_request i b) = wrong_cli_redeems b"
  "wrong_cli_redeems (on_request_entry i f b) = wrong_cli_redeems b"
  "wrong_cli_redeems (drop_expired_cli_codes now b) = wrong_cli_redeems b"
  "wrong_cli_redeems (snd (take_for sid b)) = wrong_cli_redeems b" "cli_codes (snd (take_for sid b)) = cli_codes b"
  "wrong_cli_redeems (snd (expire now b)) = wrong_cli_redeems b"
  by (simp_all add: drop_expired_cli_codes_def drop_request_def on_request_entry_def take_for_def expire_def
      Let_def split: option.split)

lemma book_op_ids:
  assumes "book_ok b"
  shows "req_id ` set (requests (snd (book_op x b))) \<subseteq> req_id ` set (requests b) \<union> set_option (asked_id x)"
proof (cases x)
  case (Ask p i now asked)
  have "req_id ` set (requests (snd (expire now b))) \<subseteq> req_id ` set (requests b)"
    by (auto simp: expire_def Let_def)
  with Ask assms show ?thesis by (auto simp: request_book Let_def)
next
  case (Redeem i sid c now)
  then show ?thesis
    using drop_request_ids [of i b]
    by (auto simp: redeem_def Let_def drop_changed_request on_request_entry_ids split: option.split)
next
  case (Approve i now c)
  then show ?thesis
    using drop_request_ids [of i b] by (auto simp: approve_def on_request_entry_ids split: option.split)
next
  case (Deny i)
  then show ?thesis using drop_request_ids [of i b] by (auto simp: deny_def split: option.split)
next
  case (Expire now)
  then show ?thesis by (auto simp: expire_def Let_def)
qed (auto simp: mint_cli_code_def redeem_cli_code_def Let_def)

lemma fresh_asks_Cons:
  assumes "book_ok b" and "fresh_asks (x # xs) b"
  shows "book_ok (snd (book_op x b))" "fresh_asks xs (snd (book_op x b))"
proof -
  show "book_ok (snd (book_op x b))"
    using assms by (auto simp: fresh_asks_def List.map_filter_simps split: option.splits intro!: book_op_ok)
  show "fresh_asks xs (snd (book_op x b))"
    using assms(2) book_op_ids [OF assms(1), of x]
    by (auto simp: fresh_asks_def List.map_filter_simps split: option.splits)
qed

lemma wrong_guesses_bounded:
  assumes "book_ok b" and "fresh_asks xs b" and "rid \<notin> set (List.map_filter asked_id xs)"
  shows "length (filter (wrong_guess rid) (answers xs b)) \<le> attempts_left b rid"
  using assms
proof (induction xs arbitrary: b)
  case (Cons x xs)
  have "asked_id x \<noteq> Some rid" "rid \<notin> set (List.map_filter asked_id xs)"
    using Cons.prems(3) by (auto simp: List.map_filter_simps split: option.splits)
  then show ?case
    using guess_uses_attempt [OF Cons.prems(1), of x rid] Cons.IH [OF fresh_asks_Cons [OF Cons.prems(1,2)]]
    by (auto split: if_splits)
qed simp

text \<open>The codes minted on the command line.\<close>

fun wrong_cli_guess :: "BookOp \<times> PairError option \<Rightarrow> bool" where
  "wrong_cli_guess (RedeemCli c now, Some e) = (e = WrongCode)"
| "wrong_cli_guess _ = False"

fun minted_by :: "BookOp \<Rightarrow> CliCode set" where
  "minted_by (Mint now c) = {\<lparr>cli_value = c, cli_expires_at = now + CODE_LIFETIME\<rparr>}"
| "minted_by _ = {}"

fun cli_time :: "BookOp \<Rightarrow> nat option" where
  "cli_time (RedeemCli c now) = Some now"
| "cli_time _ = None"

lemma book_op_cli_codes: "set (cli_codes (snd (book_op x b))) \<subseteq> set (cli_codes b) \<union> minted_by x"
proof (cases x)
  case (RedeemCli c now)
  then show ?thesis
    using drop_first_subset [of _ "cli_codes (drop_expired_cli_codes now b)"]
    by (auto simp: redeem_cli_code_def Let_def drop_expired_cli_codes_def)
qed (auto simp: request_def approve_def deny_def redeem_def mint_cli_code_def expire_def Let_def split_def
      drop_expired_cli_codes_def split: option.split dest: in_set_dropD)

lemma run_book_simps [simp]:
  "run_book [] b = b" "run_book (x # xs) b = run_book xs (snd (book_op x b))"
  by (simp_all add: run_book_def)

lemma run_book_cli_codes: "set (cli_codes (run_book xs b)) \<subseteq> set (cli_codes b) \<union> \<Union> (minted_by ` set xs)"
proof (induction xs arbitrary: b)
  case (Cons x xs)
  show ?case using Cons [of "snd (book_op x b)"] book_op_cli_codes [of x b] by auto
qed simp

lemma book_op_wrong_list:
  "wrong_cli_redeems (snd (book_op x b)) =
     (if wrong_cli_guess (x, fst (book_op x b))
      then let recent = filter (\<lambda>t. the (cli_time x) - t \<le> CODE_LIFETIME) (wrong_cli_redeems b) @ [the (cli_time x)]
           in if MAX_WRONG_CLI_REDEEMS \<le> length recent then [] else recent
      else wrong_cli_redeems b)"
proof (cases x)
  case (RedeemCli c now)
  then show ?thesis by (auto simp: redeem_cli_code_def err_of_def Let_def)
qed (auto simp: request_def approve_def deny_def redeem_def mint_cli_code_def err_of_def
      Let_def split_def split: option.split)

lemma book_op_cleared:
  assumes "wrong_cli_guess (x, fst (book_op x b))"
    and "MAX_WRONG_CLI_REDEEMS \<le> Suc (length (filter (\<lambda>t. the (cli_time x) - t \<le> CODE_LIFETIME) (wrong_cli_redeems b)))"
  shows "cli_codes (snd (book_op x b)) = []"
  using assms by (cases x) (auto simp: redeem_cli_code_def err_of_def Let_def split: if_splits)

lemma cli_guesses_clear:
  assumes "length (wrong_cli_redeems b) < MAX_WRONG_CLI_REDEEMS"
    and "\<forall>x \<in> set xs. \<forall>t. cli_time x = Some t \<longrightarrow> m \<le> t \<and> t \<le> m + CODE_LIFETIME"
    and "MAX_WRONG_CLI_REDEEMS \<le> length (filter (\<lambda>t. m \<le> t) (wrong_cli_redeems b)) +
      length (filter wrong_cli_guess (answers xs b))"
  shows "set (cli_codes (run_book xs b)) \<subseteq> \<Union> (minted_by ` set xs)"
  using assms
proof (induction xs arbitrary: b)
  case Nil
  then show ?case using length_filter_le [of "\<lambda>t. m \<le> t" "wrong_cli_redeems b"] by simp
next
  case (Cons x xs)
  let ?b = "snd (book_op x b)"
  show ?case
  proof (cases "wrong_cli_guess (x, fst (book_op x b))")
    case False
    then have "set (cli_codes (run_book xs ?b)) \<subseteq> \<Union> (minted_by ` set xs)"
      using Cons.prems by (intro Cons.IH) (auto simp: book_op_wrong_list)
    then show ?thesis by auto
  next
    case True
    then obtain t where t: "cli_time x = Some t" by (cases x) auto
    with Cons.prems(2) have win: "m \<le> t" "t \<le> m + CODE_LIFETIME" by auto
    let ?recent = "filter (\<lambda>u. t - u \<le> CODE_LIFETIME) (wrong_cli_redeems b) @ [t]"
    show ?thesis
    proof (cases "MAX_WRONG_CLI_REDEEMS \<le> length ?recent")
      case True
      with \<open>wrong_cli_guess (x, fst (book_op x b))\<close> t have "cli_codes ?b = []"
        using book_op_cleared by simp
      then show ?thesis using run_book_cli_codes [of xs ?b] by auto
    next
      case False
      have "filter (\<lambda>u. m \<le> u) ?recent = filter (\<lambda>u. m \<le> u) (wrong_cli_redeems b) @ [t]"
        using win by (auto intro!: filter_cong)
      moreover have "wrong_cli_redeems ?b = ?recent"
        using True False t by (simp add: book_op_wrong_list Let_def)
      ultimately have "set (cli_codes (run_book xs ?b)) \<subseteq> \<Union> (minted_by ` set xs)"
        using Cons.prems True False by (intro Cons.IH) auto
      then show ?thesis by auto
    qed
  qed
qed

end
