(* ===== verification/Push_Store.thy ===== *)
theory Push_Store
  imports Devices "HOL-Library.List_Lexorder" "HOL-Library.Char_ord"
begin

text \<open>
  The Web Push subscriptions: one per approved device, kept in \<open>subscriptions.json\<close>
  (\<open>crates/daemon/src/push/store.rs\<close>), loaded on the first push request together with the daemon's
  key (\<open>push/state.rs\<close>), and changed by the phone's push requests (\<open>server/push.rs\<close>).

  Parsing a URL, decoding a subscription's keys and reading or making the VAPID key belong to other
  crates or to the key file; what they answer is \<open>PushEnv\<close>.
\<close>

section \<open>Ordered maps\<close>

text \<open>\<open>BTreeMap\<close>: the entries by ascending key.\<close>

fun bt_insert :: "'k::linorder \<Rightarrow> 'v \<Rightarrow> ('k \<times> 'v) list \<Rightarrow> ('k \<times> 'v) list" where
  "bt_insert k v [] = [(k, v)]"
| "bt_insert k v ((a, b) # xs) =
     (if k = a then (k, v) # xs else if k < a then (k, v) # (a, b) # xs else (a, b) # bt_insert k v xs)"

definition bt_remove :: "'k \<Rightarrow> ('k \<times> 'v) list \<Rightarrow> ('k \<times> 'v) list" where
  "bt_remove k xs = filter (\<lambda>e. fst e \<noteq> k) xs"

definition bt_ok :: "('k::linorder \<times> 'v) list \<Rightarrow> bool" where
  "bt_ok xs \<longleftrightarrow> sorted (map fst xs) \<and> distinct (map fst xs)"

lemma map_of_bt_insert [simp]: "map_of (bt_insert k v xs) = (map_of xs)(k \<mapsto> v)"
  by (induction k v xs rule: bt_insert.induct) auto

lemma map_of_filter_keys: "map_of (filter (\<lambda>e. P (fst e)) xs) = map_of xs |` {k. P k}"
  by (induction xs) (auto simp: restrict_map_def)

lemma map_of_bt_remove [simp]: "map_of (bt_remove k xs) = (map_of xs)(k := None)"
  by (induction xs) (auto simp: bt_remove_def)

lemma set_bt_insert: "fst ` set (bt_insert k v xs) = insert k (fst ` set xs)"
  by (induction k v xs rule: bt_insert.induct) auto

lemma bt_ok_insert: "bt_ok xs \<Longrightarrow> bt_ok (bt_insert k v xs)"
proof (induction k v xs rule: bt_insert.induct)
  case (2 k v a b xs)
  have "\<forall>x \<in> fst ` set (bt_insert k v xs). a \<le> x \<and> x \<noteq> a" if "k \<noteq> a" "\<not> k < a"
    using "2.prems" that unfolding set_bt_insert by (auto simp: bt_ok_def)
  moreover have "bt_ok (bt_insert k v xs)" if "k \<noteq> a" "\<not> k < a"
    using 2 that by (simp add: bt_ok_def)
  ultimately show ?case
    using "2.prems" by (auto simp: bt_ok_def)
qed (simp add: bt_ok_def)

lemma bt_ok_filter: "bt_ok xs \<Longrightarrow> bt_ok (filter P xs)"
  by (simp add: bt_ok_def distinct_map_filter sorted_filter)

section \<open>The subscription store\<close>

record Subscription =
  sub_kind :: string
  endpoint :: string
  p256dh :: string
  auth :: string
  sub_needs_you :: bool
  sub_finished :: bool
  sub_created_at :: string

type_synonym subs = "(string \<times> Subscription) list"

record SubscriptionStore =
  sub_devices :: subs
  sub_corrupt :: bool

datatype PushError = NoPushFolder | FolderFailed | KeyFailed | CorruptSubscriptions | SaveFailed

fun load_subs :: "subs stored \<Rightarrow> SubscriptionStore" where
  "load_subs Missing = \<lparr>sub_devices = [], sub_corrupt = False\<rparr>"
| "load_subs Unreadable = \<lparr>sub_devices = [], sub_corrupt = True\<rparr>"
| "load_subs (Decoded xs) = \<lparr>sub_devices = xs, sub_corrupt = False\<rparr>"

definition get_sub :: "SubscriptionStore \<Rightarrow> string \<Rightarrow> Subscription option" where
  "get_sub st dev = map_of (sub_devices st) dev"

text \<open>A save that fails leaves the map in memory as it was; \<open>f\<close> is the file.\<close>

definition save :: "bool \<Rightarrow> SubscriptionStore \<Rightarrow> subs \<Rightarrow> subs stored \<Rightarrow> (PushError, unit) result \<times> subs stored" where
  "save ok st ds f =
     (if sub_corrupt st then (Err CorruptSubscriptions, f)
      else if ok then (Ok (), write_atomic ok ds f) else (Err SaveFailed, f))"

definition put :: "bool \<Rightarrow> string \<Rightarrow> Subscription \<Rightarrow> SubscriptionStore \<Rightarrow> subs stored
    \<Rightarrow> (PushError, unit) result \<times> SubscriptionStore \<times> subs stored" where
  "put ok dev sub st f =
     (let ds = bt_insert dev sub (sub_devices st) in
      case save ok st ds f of
        (Inl e, f) \<Rightarrow> (Err e, st, f)
      | (Inr _, f) \<Rightarrow> (Ok (), st\<lparr>sub_devices := ds\<rparr>, f))"

definition remove_sub :: "bool \<Rightarrow> string \<Rightarrow> SubscriptionStore \<Rightarrow> subs stored
    \<Rightarrow> (PushError, bool) result \<times> SubscriptionStore \<times> subs stored" where
  "remove_sub ok dev st f =
     (if map_of (sub_devices st) dev = None then (Ok False, st, f)
      else let ds = bt_remove dev (sub_devices st) in
        case save ok st ds f of
          (Inl e, f) \<Rightarrow> (Err e, st, f)
        | (Inr _, f) \<Rightarrow> (Ok True, st\<lparr>sub_devices := ds\<rparr>, f))"

definition remove_if_endpoint :: "bool \<Rightarrow> string \<Rightarrow> string \<Rightarrow> SubscriptionStore \<Rightarrow> subs stored
    \<Rightarrow> (PushError, bool) result \<times> SubscriptionStore \<times> subs stored" where
  "remove_if_endpoint ok dev e st f =
     (if (case map_of (sub_devices st) dev of None \<Rightarrow> True | Some stored \<Rightarrow> endpoint stored \<noteq> e)
      then (Ok False, st, f) else remove_sub ok dev st f)"

definition retain_devices :: "bool \<Rightarrow> string set \<Rightarrow> SubscriptionStore \<Rightarrow> subs stored
    \<Rightarrow> (PushError, nat) result \<times> SubscriptionStore \<times> subs stored" where
  "retain_devices ok known st f =
     (let ds = filter (\<lambda>e. fst e \<in> known) (sub_devices st);
          dropped = length (sub_devices st) - length ds in
      if 0 < dropped then
        (case save ok st ds f of
           (Inl e, f) \<Rightarrow> (Err e, st, f)
         | (Inr _, f) \<Rightarrow> (Ok dropped, st\<lparr>sub_devices := ds\<rparr>, f))
      else (Ok dropped, st, f))"

section \<open>The push state\<close>

record Loaded =
  public_key :: string
  loaded_subs :: SubscriptionStore

text \<open>The hub's push state with the subscriptions file.\<close>

record PushState =
  push_dir :: bool
  allow_loopback_http :: bool
  loaded :: "Loaded option"
  subs_file :: "subs stored"

text \<open>
  What one request meets on disk: whether the folder is usable, the public key of the key file read
  or made, and whether the sweep's save and the request's save succeed.
\<close>

record PushDisk =
  folder_ok :: bool
  key_read :: "string option"
  sweep_ok :: bool
  save_ok :: bool

definition known_devices :: "DeviceStore \<Rightarrow> string set" where
  "known_devices st = set (map dev_id (filter (\<lambda>r. \<not> revoked r) (devices st)))"

definition load_push :: "PushDisk \<Rightarrow> DeviceStore \<Rightarrow> PushState \<Rightarrow> (PushError, Loaded) result \<times> PushState" where
  "load_push d devs ps =
     (case loaded ps of
        Some l \<Rightarrow> (Ok l, ps)
      | None \<Rightarrow>
          if \<not> push_dir ps then (Err NoPushFolder, ps)
          else if \<not> folder_ok d then (Err FolderFailed, ps)
          else case key_read d of
            None \<Rightarrow> (Err KeyFailed, ps)
          | Some key \<Rightarrow>
              let st = load_subs (subs_file ps) in
              if sub_corrupt st then (Err CorruptSubscriptions, ps)
              else if corrupt devs then
                let l = \<lparr>public_key = key, loaded_subs = st\<rparr> in (Ok l, ps\<lparr>loaded := Some l\<rparr>)
              else case retain_devices (sweep_ok d) (known_devices devs) st (subs_file ps) of
                (Inl e, _, f) \<Rightarrow> (Err e, ps\<lparr>subs_file := f\<rparr>)
              | (Inr _, st, f) \<Rightarrow>
                  let l = \<lparr>public_key = key, loaded_subs = st\<rparr> in (Ok l, ps\<lparr>loaded := Some l, subs_file := f\<rparr>))"

text \<open>A failed save unloads the state, so the subscription does not stay in memory.\<close>

definition drop_loaded_sub ::
    "(SubscriptionStore \<Rightarrow> subs stored \<Rightarrow> (PushError, bool) result \<times> SubscriptionStore \<times> subs stored)
     \<Rightarrow> PushState \<Rightarrow> PushState" where
  "drop_loaded_sub rm ps =
     (case loaded ps of
        None \<Rightarrow> ps
      | Some l \<Rightarrow>
          case rm (loaded_subs l) (subs_file ps) of
            (Inl _, _, f) \<Rightarrow> ps\<lparr>loaded := None, subs_file := f\<rparr>
          | (Inr _, st, f) \<Rightarrow> ps\<lparr>loaded := Some (l\<lparr>loaded_subs := st\<rparr>), subs_file := f\<rparr>)"

definition remove_device :: "bool \<Rightarrow> string \<Rightarrow> PushState \<Rightarrow> PushState" where
  "remove_device ok dev = drop_loaded_sub (remove_sub ok dev)"

definition remove_device_if_endpoint :: "bool \<Rightarrow> string \<Rightarrow> string \<Rightarrow> PushState \<Rightarrow> PushState" where
  "remove_device_if_endpoint ok dev e = drop_loaded_sub (remove_if_endpoint ok dev e)"

section \<open>Endpoints\<close>

text \<open>A parsed URL: its scheme, its host (none for some schemes) and its serialized origin.\<close>

record UrlParts =
  url_scheme :: string
  url_host :: "string option"
  url_origin :: string

record PushEnv =
  parse_url :: "string \<Rightarrow> UrlParts option"
  keys_decode :: "string \<Rightarrow> string \<Rightarrow> bool"

definition ends_with :: "string \<Rightarrow> string \<Rightarrow> bool" where
  "ends_with s suffix \<longleftrightarrow> length suffix \<le> length s \<and> drop (length s - length suffix) s = suffix"

definition is_push_service :: "string \<Rightarrow> bool" where
  "is_push_service host \<longleftrightarrow>
     host = ''web.push.apple.com'' \<or> ends_with host ''.push.apple.com'' \<or>
     host = ''fcm.googleapis.com'' \<or> ends_with host ''.push.services.mozilla.com'' \<or>
     ends_with host ''.notify.windows.com''"

definition check_endpoint :: "PushEnv \<Rightarrow> bool \<Rightarrow> string \<Rightarrow> UrlParts option" where
  "check_endpoint env loopback e =
     (case parse_url env e of
        None \<Rightarrow> None
      | Some url \<Rightarrow>
          let host = (case url_host url of None \<Rightarrow> [] | Some h \<Rightarrow> h);
              allowed = (if url_scheme url = ''https'' then is_push_service host
                         else if url_scheme url = ''http'' then loopback \<and> host = ''127.0.0.1''
                         else False)
          in if allowed then Some url else None)"

section \<open>The phone's requests\<close>

datatype AuthKind = Local | Tailnet PeerIdentity

datatype PushRegistration = WebPush string string string | UnknownRegistration

datatype PushMessage =
    GetPushStatus
  | RegisterPush PushRegistration bool bool
  | UnregisterPush

datatype Refusal = InvalidRequest | Internal PushError

record PushStatus =
  vapid_public_key :: string
  status_endpoint :: "string option"
  status_needs_you :: bool
  status_finished :: bool

text \<open>\<open>now\<close> is the clock as RFC 3339 text.\<close>

definition subscription :: "PushEnv \<Rightarrow> bool \<Rightarrow> string \<Rightarrow> PushRegistration \<Rightarrow> bool \<Rightarrow> bool \<Rightarrow> (Refusal, Subscription) result" where
  "subscription env loopback now reg ny fin =
     (case reg of
        UnknownRegistration \<Rightarrow> Err InvalidRequest
      | WebPush e key secret \<Rightarrow>
          if check_endpoint env loopback e = None then Err InvalidRequest
          else if \<not> keys_decode env key secret then Err InvalidRequest
          else Ok \<lparr>sub_kind = ''web_push'', endpoint = e, p256dh = key, auth = secret,
                   sub_needs_you = ny, sub_finished = fin, sub_created_at = now\<rparr>)"

definition push_status :: "Loaded \<Rightarrow> string \<Rightarrow> PushStatus" where
  "push_status l dev =
     (let stored = get_sub (loaded_subs l) dev in
      \<lparr>vapid_public_key = public_key l, status_endpoint = map_option endpoint stored,
       status_needs_you = (case stored of Some s \<Rightarrow> sub_needs_you s | None \<Rightarrow> False),
       status_finished = (case stored of Some s \<Rightarrow> sub_finished s | None \<Rightarrow> False)\<rparr>)"

text \<open>A change of the loaded store, written back into the state.\<close>

definition with_loaded :: "Loaded \<Rightarrow> (PushError, 'a) result \<times> SubscriptionStore \<times> subs stored \<Rightarrow> string
    \<Rightarrow> PushState \<Rightarrow> (Refusal, PushStatus) result \<times> PushState" where
  "with_loaded l out dev ps =
     (case out of (r, st, f) \<Rightarrow>
       let l' = l\<lparr>loaded_subs := st\<rparr>; ps' = ps\<lparr>loaded := Some l', subs_file := f\<rparr> in
       case r of Inl e \<Rightarrow> (Err (Internal e), ps') | Inr _ \<Rightarrow> (Ok (push_status l' dev), ps'))"

definition serve :: "PushEnv \<Rightarrow> PushDisk \<Rightarrow> string \<Rightarrow> DeviceStore \<Rightarrow> AuthKind \<Rightarrow> PushMessage \<Rightarrow> PushState
    \<Rightarrow> (Refusal, PushStatus) result \<times> PushState" where
  "serve env d now devs who msg ps =
     (case who of
        Local \<Rightarrow> (Err InvalidRequest, ps)
      | Tailnet peer \<Rightarrow>
          case unrevoked_id_of devs (peer_stable_id peer) of
            None \<Rightarrow> (Err InvalidRequest, ps)
          | Some dev \<Rightarrow>
              let new = (case msg of
                    RegisterPush reg ny fin \<Rightarrow> map_sum (\<lambda>e. e) Some (subscription env (allow_loopback_http ps) now reg ny fin)
                  | _ \<Rightarrow> Ok None) in
              case new of
                Inl e \<Rightarrow> (Err e, ps)
              | Inr new \<Rightarrow>
                  case load_push d devs ps of
                    (Inl e, ps) \<Rightarrow> (Err (Internal e), ps)
                  | (Inr l, ps) \<Rightarrow>
                      case (msg, new) of
                        (RegisterPush _ _ _, Some new) \<Rightarrow>
                          let new = (case get_sub (loaded_subs l) dev of
                                Some stored \<Rightarrow> if endpoint stored = endpoint new
                                  then new\<lparr>sub_created_at := sub_created_at stored\<rparr> else new
                              | None \<Rightarrow> new)
                          in with_loaded l (put (save_ok d) dev new (loaded_subs l) (subs_file ps)) dev ps
                      | (UnregisterPush, _) \<Rightarrow>
                          with_loaded l (remove_sub (save_ok d) dev (loaded_subs l) (subs_file ps)) dev ps
                      | _ \<Rightarrow> (Ok (push_status l dev), ps))"

section \<open>Memory, file and devices\<close>

text \<open>The devices a store, and the loaded state, hold a subscription for.\<close>

definition held_by :: "SubscriptionStore \<Rightarrow> string set" where
  "held_by st = fst ` set (sub_devices st)"

definition subs_of :: "PushState \<Rightarrow> string set" where
  "subs_of ps = (case loaded ps of None \<Rightarrow> {} | Some l \<Rightarrow> held_by (loaded_subs l))"

lemma held_by_simps [simp]:
  "held_by (st\<lparr>sub_devices := bt_insert k v (sub_devices st)\<rparr>) = insert k (held_by st)"
  "held_by (st\<lparr>sub_devices := bt_remove k (sub_devices st)\<rparr>) = held_by st - {k}"
  "held_by (st\<lparr>sub_devices := filter (\<lambda>e. fst e \<in> known) (sub_devices st)\<rparr>) = held_by st \<inter> known"
  by (auto simp: held_by_def set_bt_insert bt_remove_def)

text \<open>What is loaded is what the file holds, so a restart loses nothing.\<close>

definition synced :: "PushState \<Rightarrow> bool" where
  "synced ps \<longleftrightarrow> (\<forall>l. loaded ps = Some l \<longrightarrow> loaded_subs l = load_subs (subs_file ps) \<and> \<not> sub_corrupt (loaded_subs l))"

text \<open>The contract of a change of the store: on failure nothing changed, on success the file holds the new map.\<close>

definition saved :: "SubscriptionStore \<Rightarrow> subs stored \<Rightarrow> ('e, 'a) result \<times> SubscriptionStore \<times> subs stored \<Rightarrow> bool" where
  "saved st f out \<longleftrightarrow> (case out of (r, st', f') \<Rightarrow>
     (isl r \<longrightarrow> st' = st \<and> f' = f) \<and>
     (st = load_subs f \<and> \<not> sub_corrupt st \<longrightarrow> st' = load_subs f' \<and> \<not> sub_corrupt st'))"

lemma save_cases:
  "save ok st ds f = (Err CorruptSubscriptions, f) \<and> sub_corrupt st \<or>
   save ok st ds f = (Err SaveFailed, f) \<and> \<not> sub_corrupt st \<or>
   save ok st ds f = (Ok (), Decoded ds) \<and> \<not> sub_corrupt st"
  by (simp add: save_def write_atomic_def)

lemma put_saved: "saved st f (put ok dev sub st f)"
  using save_cases [of ok st "bt_insert dev sub (sub_devices st)" f] by (auto simp: saved_def put_def Let_def)

lemma remove_sub_saved: "saved st f (remove_sub ok dev st f)"
  using save_cases [of ok st "bt_remove dev (sub_devices st)" f] by (auto simp: saved_def remove_sub_def Let_def)

lemma remove_if_endpoint_saved: "saved st f (remove_if_endpoint ok dev e st f)"
proof -
  have "saved st f (Ok False, st, f)" by (auto simp: saved_def)
  then show ?thesis by (auto simp: remove_if_endpoint_def remove_sub_saved split: option.split)
qed

lemma retain_devices_saved: "saved st f (retain_devices ok known st f)"
  using save_cases [of ok st "filter (\<lambda>e. fst e \<in> known) (sub_devices st)" f]
  by (auto simp: saved_def retain_devices_def Let_def)

lemmas store_changes_saved = put_saved remove_sub_saved remove_if_endpoint_saved retain_devices_saved

lemma remove_sub_devices:
  "remove_sub ok dev st f = (Inr r, st', f') \<Longrightarrow> held_by st' = held_by st - {dev}"
  using save_cases [of ok st "bt_remove dev (sub_devices st)" f]
  by (auto simp: remove_sub_def Let_def split: if_splits) (simp_all add: held_by_def map_of_eq_None_iff)

lemma put_devices: "held_by (fst (snd (put ok dev sub st f))) \<subseteq> insert dev (held_by st)"
  using save_cases [of ok st "bt_insert dev sub (sub_devices st)" f]
  by (auto simp: put_def Let_def)

lemma remove_sub_subset: "held_by (fst (snd (remove_sub ok dev st f))) \<subseteq> held_by st"
  using save_cases [of ok st "bt_remove dev (sub_devices st)" f]
  by (auto simp: remove_sub_def Let_def)

lemma remove_if_endpoint_subset: "held_by (fst (snd (remove_if_endpoint ok dev e st f))) \<subseteq> held_by st"
  using remove_sub_subset [of ok dev st f] by (simp add: remove_if_endpoint_def)

lemma retain_devices_known:
  assumes "retain_devices ok known st f = (Inr n, st', f')"
  shows "held_by st' \<subseteq> known"
proof (cases "length (filter (\<lambda>e. fst e \<in> known) (sub_devices st)) < length (sub_devices st)")
  case True
  with assms show ?thesis
    using save_cases [of ok st "filter (\<lambda>e. fst e \<in> known) (sub_devices st)" f]
    by (auto simp: retain_devices_def Let_def)
next
  case False
  then have "\<forall>e \<in> set (sub_devices st). fst e \<in> known"
    using length_filter_less [of _ "sub_devices st" "\<lambda>e. fst e \<in> known"] by blast
  then have "held_by st \<subseteq> known" unfolding held_by_def by blast
  with False assms show ?thesis by (simp add: retain_devices_def Let_def)
qed

lemma known_approved: "\<not> corrupt devs \<Longrightarrow> known_devices devs = approved_ids devs"
  by (auto simp: known_devices_def approved_ids_def)

lemma load_push_effect:
  assumes "load_push d devs ps = (r, ps')"
  shows "synced ps \<Longrightarrow> synced ps'"
    "r = Inr l \<Longrightarrow> loaded ps' = Some l"
    "\<not> corrupt devs \<Longrightarrow> subs_of ps' \<subseteq> approved_ids devs \<union> subs_of ps"
    "push_dir ps' = push_dir ps \<and> allow_loopback_http ps' = allow_loopback_http ps"
proof -
  obtain r' st' f' where ret: "retain_devices (sweep_ok d) (known_devices devs) (load_subs (subs_file ps)) (subs_file ps) = (r', st', f')"
    by (cases "retain_devices (sweep_ok d) (known_devices devs) (load_subs (subs_file ps)) (subs_file ps)") auto
  have "saved (load_subs (subs_file ps)) (subs_file ps) (r', st', f')"
    using retain_devices_saved [of "load_subs (subs_file ps)" "subs_file ps" "sweep_ok d" "known_devices devs"] ret by simp
  then show "synced ps \<Longrightarrow> synced ps'"
    using assms ret
    by (auto simp: load_push_def synced_def saved_def Let_def split: option.splits if_splits sum.splits)
  show "r = Inr l \<Longrightarrow> loaded ps' = Some l"
    using assms ret by (auto simp: load_push_def Let_def split: option.splits if_splits sum.splits)
  show "\<not> corrupt devs \<Longrightarrow> subs_of ps' \<subseteq> approved_ids devs \<union> subs_of ps"
  proof -
    assume "\<not> corrupt devs"
    then have "x \<in> approved_ids devs" if "r' = Inr n" "x \<in> held_by st'" for n x
      using retain_devices_known [of _ _ _ _ n st' f'] ret that known_approved by blast
    then show ?thesis
      using assms ret \<open>\<not> corrupt devs\<close>
      by (cases r'; auto simp: load_push_def Let_def subs_of_def split: option.splits if_splits)
  qed
  show "push_dir ps' = push_dir ps \<and> allow_loopback_http ps' = allow_loopback_http ps"
    using assms ret by (auto simp: load_push_def Let_def split: option.splits if_splits sum.splits)
qed

lemma drop_loaded_sub_synced:
  assumes "\<And>st f. saved st f (rm st f)" and "synced ps"
  shows "synced (drop_loaded_sub rm ps)"
proof (cases "loaded ps")
  case (Some l)
  obtain r st f where out: "rm (loaded_subs l) (subs_file ps) = (r, st, f)" by (cases "rm (loaded_subs l) (subs_file ps)") auto
  with assms(1) [of "loaded_subs l" "subs_file ps"] assms(2) Some show ?thesis
    by (auto simp: drop_loaded_sub_def synced_def saved_def split: sum.split)
qed (use assms(2) in \<open>simp add: drop_loaded_sub_def\<close>)

lemma remove_device_effect:
  "synced ps \<Longrightarrow> synced (remove_device ok dev ps)"
  "subs_of (remove_device ok dev ps) \<subseteq> subs_of ps - {dev}"
proof -
  show "synced ps \<Longrightarrow> synced (remove_device ok dev ps)"
    unfolding remove_device_def by (rule drop_loaded_sub_synced [OF remove_sub_saved])
  show "subs_of (remove_device ok dev ps) \<subseteq> subs_of ps - {dev}"
  proof (cases "loaded ps")
    case (Some l)
    obtain r st f where out: "remove_sub ok dev (loaded_subs l) (subs_file ps) = (r, st, f)"
      by (cases "remove_sub ok dev (loaded_subs l) (subs_file ps)") auto
    with Some show ?thesis
      by (cases r) (simp_all add: remove_device_def drop_loaded_sub_def subs_of_def remove_sub_devices)
  qed (simp add: remove_device_def drop_loaded_sub_def subs_of_def)
qed

lemma remove_device_if_endpoint_effect:
  "synced ps \<Longrightarrow> synced (remove_device_if_endpoint ok dev e ps)"
  "subs_of (remove_device_if_endpoint ok dev e ps) \<subseteq> subs_of ps"
proof -
  show "synced ps \<Longrightarrow> synced (remove_device_if_endpoint ok dev e ps)"
    unfolding remove_device_if_endpoint_def by (rule drop_loaded_sub_synced [OF remove_if_endpoint_saved])
  show "subs_of (remove_device_if_endpoint ok dev e ps) \<subseteq> subs_of ps"
  proof (cases "loaded ps")
    case (Some l)
    obtain r st f where out: "remove_if_endpoint ok dev e (loaded_subs l) (subs_file ps) = (r, st, f)"
      by (cases "remove_if_endpoint ok dev e (loaded_subs l) (subs_file ps)") auto
    with Some remove_if_endpoint_subset [of ok dev e "loaded_subs l" "subs_file ps"] show ?thesis
      by (cases r) (simp_all add: remove_device_if_endpoint_def drop_loaded_sub_def subs_of_def)
  qed (simp add: remove_device_if_endpoint_def drop_loaded_sub_def subs_of_def)
qed

lemma unrevoked_approved: "unrevoked_id_of devs sid = Some dev \<Longrightarrow> dev \<in> approved_ids devs"
  by (auto simp: unrevoked_id_of_def approved_ids_def find_Some_iff split: if_splits)

lemma with_loaded_effect:
  assumes "saved (loaded_subs l) (subs_file ps) out" and "loaded ps = Some l"
  shows "synced ps \<Longrightarrow> synced (snd (with_loaded l out dev ps))"
    "subs_of (snd (with_loaded l out dev ps)) = held_by (fst (snd out))"
  using assms
  by (cases out; auto simp: with_loaded_def synced_def saved_def subs_of_def Let_def split: sum.splits)+

text \<open>One request, once the device is known and the state is loaded.\<close>

lemma serve_loaded:
  assumes "loaded ps = Some l"
  shows "synced ps \<Longrightarrow> synced (snd (with_loaded l (put ok dev new (loaded_subs l) (subs_file ps)) dev ps))"
    "subs_of (snd (with_loaded l (put ok dev new (loaded_subs l) (subs_file ps)) dev ps)) \<subseteq> insert dev (subs_of ps)"
    "synced ps \<Longrightarrow> synced (snd (with_loaded l (remove_sub ok dev (loaded_subs l) (subs_file ps)) dev ps))"
    "subs_of (snd (with_loaded l (remove_sub ok dev (loaded_subs l) (subs_file ps)) dev ps)) \<subseteq> subs_of ps"
  using with_loaded_effect [OF put_saved assms] with_loaded_effect [OF remove_sub_saved assms]
    put_devices [of ok dev new "loaded_subs l"] remove_sub_subset [of ok dev "loaded_subs l"] assms
  by (simp_all add: subs_of_def)

lemma serve_effect:
  "synced ps \<Longrightarrow> synced (snd (serve env d now devs who msg ps))"
  "\<not> corrupt devs \<Longrightarrow> subs_of (snd (serve env d now devs who msg ps)) \<subseteq> approved_ids devs \<union> subs_of ps"
proof -
  obtain r ps' where ld: "load_push d devs ps = (r, ps')" by (cases "load_push d devs ps") auto
  note eff = load_push_effect [OF ld]
  let ?out = "snd (serve env d now devs who msg ps)"
  have served: "?out = ps \<or> ?out = ps' \<or>
      (\<exists>l dev new ok. loaded ps' = Some l \<and> dev \<in> approved_ids devs \<and>
         (?out = snd (with_loaded l (put ok dev new (loaded_subs l) (subs_file ps')) dev ps') \<or>
          ?out = snd (with_loaded l (remove_sub ok dev (loaded_subs l) (subs_file ps')) dev ps')))"
  proof (cases who)
    case (Tailnet peer)
    show ?thesis
    proof (cases "unrevoked_id_of devs (peer_stable_id peer)")
      case (Some dev)
      then have "dev \<in> approved_ids devs" by (rule unrevoked_approved)
      then show ?thesis
      proof (cases msg)
        case (RegisterPush reg ny fin)
        show ?thesis
        proof (cases "subscription env (allow_loopback_http ps) now reg ny fin")
          case (Inr new)
          with \<open>dev \<in> approved_ids devs\<close> RegisterPush Tailnet Some ld eff(2) show ?thesis
            by (cases r) (auto simp: serve_def Let_def)
        qed (use RegisterPush Tailnet Some in \<open>simp add: serve_def Let_def\<close>)
      qed (use Tailnet Some ld eff(2) in \<open>cases r; auto simp: serve_def Let_def\<close>)+
    qed (simp add: Tailnet serve_def)
  qed (simp add: serve_def)
  then show "synced ps \<Longrightarrow> synced ?out" using eff(1) serve_loaded(1,3) by metis
  show "subs_of ?out \<subseteq> approved_ids devs \<union> subs_of ps" if "\<not> corrupt devs"
    using served eff(3) [OF that] serve_loaded(2,4) by (elim disjE exE conjE) (simp_all, blast+)
qed

end
