(* ===== verification/Pairing.thy ===== *)
theory Pairing
  imports Pairing_Book Push_Store
begin

text \<open>
  The door of the daemon for tailnet devices: the registry of served connections
  (\<open>crates/daemon/src/server/live_devices.rs\<close>), the token check of the handshake
  (\<open>server/handshake.rs\<close>), and the pairing connection and the owner's handlers
  (\<open>server/pairing.rs\<close>).

  Fixed texts of the protocol are constructors. Frames arrive decoded; the decoder of the wire is
  \<open>serde_json\<close>. What a handler reads from the clock, the random source and the disk is its
  \<open>DoorEnv\<close>.
\<close>

section \<open>Served connections\<close>

text \<open>Each device's connections: a key per connection and the connection whose life it ends.\<close>

record LiveRegistry =
  next_key :: nat
  by_device :: "string \<Rightarrow> (nat \<times> nat) list option"

definition register :: "string \<Rightarrow> nat \<Rightarrow> LiveRegistry \<Rightarrow> nat \<times> LiveRegistry" where
  "register dev conn reg =
     (let key = next_key reg; held = (case by_device reg dev of None \<Rightarrow> [] | Some cs \<Rightarrow> cs) in
      (key, \<lparr>next_key = key + 1, by_device = (by_device reg)(dev \<mapsto> held @ [(key, conn)])\<rparr>))"

text \<open>The connections to end, and the registry without them.\<close>

definition cut :: "string \<Rightarrow> LiveRegistry \<Rightarrow> nat list \<times> LiveRegistry" where
  "cut dev reg = (case by_device reg dev of
     None \<Rightarrow> ([], reg)
   | Some cs \<Rightarrow> (map snd cs, reg\<lparr>by_device := (by_device reg)(dev := None)\<rparr>))"

definition connected :: "string \<Rightarrow> LiveRegistry \<Rightarrow> nat" where
  "connected dev reg = (case by_device reg dev of None \<Rightarrow> 0 | Some cs \<Rightarrow> min (length cs) (2 ^ 32 - 1))"

definition is_cut :: "string \<Rightarrow> nat \<Rightarrow> LiveRegistry \<Rightarrow> bool" where
  "is_cut dev key reg = (case by_device reg dev of None \<Rightarrow> True | Some cs \<Rightarrow> \<not> (\<exists>c \<in> set cs. fst c = key))"

definition drop_connection :: "string \<Rightarrow> nat \<Rightarrow> LiveRegistry \<Rightarrow> LiveRegistry" where
  "drop_connection dev key reg = (case by_device reg dev of
     None \<Rightarrow> reg
   | Some cs \<Rightarrow>
       let left = filter (\<lambda>c. fst c \<noteq> key) cs in
       reg\<lparr>by_device := (by_device reg)(dev := if left = [] then None else Some left)\<rparr>)"

section \<open>The hub\<close>

text \<open>
  \<open>hub_waiters\<close>: the connection each waiting request's decision goes to; \<open>hub_cancelled\<close>: the
  connections whose life token is cancelled.
\<close>

record Hub =
  hub_devices :: DeviceStore
  hub_book :: PairingBook
  hub_waiters :: "string \<Rightarrow> nat option"
  hub_live :: LiveRegistry
  hub_cancelled :: "nat set"
  hub_push :: PushState
  remote_enabled :: bool

record DoorEnv =
  sha256 :: "string \<Rightarrow> string"
  instant :: nat
  utc :: int
  new_uuid :: string
  new_token :: string
  new_code :: string
  write_ok :: bool
  push_save_ok :: bool

datatype DevicePairOutcome = Approved | Denied | OutcomeExpired | Superseded

datatype FailReason =
    DeviceNotApproved | RemoteOff | TooManyRequests | CodeExpired | DeviceSaveFailed | PairRefused PairError

datatype ErrorCode = InvalidRequestCode | LocalOnly | DeviceBlocked | NotFound | InternalCode
  | MalformedMessage | UnsupportedMessage

record DeviceInfo =
  info_id :: string
  info_name :: string
  info_login :: string
  info_created_at :: int
  info_last_seen :: "int option"
  info_revoked :: bool
  info_connected :: nat

datatype DoorMessage =
    DevicePairFailed FailReason
  | DevicePairPending string nat
  | DevicePairDecided string DevicePairOutcome
  | DeviceToken string string
  | DevicePairCode "string option" string nat
  | PendingDevices "PendingView list"
  | DeviceList "DeviceInfo list"
  | DoorError ErrorCode "string option"

text \<open>A message to the handling connection, one to a waiting connection's channel, or one to every owner's client.\<close>

datatype DoorOut = Reply DoorMessage | ToWaiter nat DoorMessage | Broadcast "PendingView list"

datatype Flow = Stay | Close

section \<open>The token check\<close>

datatype HelloAuth = HelloLocal | HelloDevice string nat | HelloPairing | HelloRefused

text \<open>The verified device and the key its connection is registered under.\<close>

definition authorize_device :: "DoorEnv \<Rightarrow> PeerIdentity \<Rightarrow> string \<Rightarrow> nat \<Rightarrow> Hub \<Rightarrow> (string \<times> nat) option \<times> Hub" where
  "authorize_device env peer presented conn hub =
     (case verify (sha256 env) (hub_devices hub) (peer_stable_id peer) presented of
        None \<Rightarrow> (None, hub)
      | Some r \<Rightarrow>
          let devs = snd (touch_device (write_ok env) (dev_id r) (utc env) (hub_devices hub));
              (key, live) = register (dev_id r) conn (hub_live hub)
          in (Some (dev_id r, key), hub\<lparr>hub_devices := devs, hub_live := live\<rparr>))"

definition check_hello_auth :: "DoorEnv \<Rightarrow> string \<Rightarrow> AuthKind \<Rightarrow> string \<Rightarrow> nat \<Rightarrow> Hub \<Rightarrow> HelloAuth \<times> Hub" where
  "check_hello_auth env auth_token who presented conn hub =
     (case who of
        Local \<Rightarrow> (if constant_time_eq presented auth_token then HelloLocal else HelloRefused, hub)
      | Tailnet peer \<Rightarrow>
          case authorize_device env peer presented conn hub of
            (Some (dev, key), hub) \<Rightarrow> (HelloDevice dev key, hub)
          | (None, hub) \<Rightarrow> (HelloPairing, hub))"

text \<open>The highest version both sides speak.\<close>

definition negotiate_protocol_version :: "nat list \<Rightarrow> nat \<Rightarrow> nat list \<Rightarrow> nat option" where
  "negotiate_protocol_version supported scalar versions =
     foldl (\<lambda>best v. if v \<in> set supported then Some (case best of None \<Rightarrow> v | Some cur \<Rightarrow> max cur v) else best)
       None (scalar # versions)"

section \<open>The pairing connection\<close>

definition MAX_STRAY_FRAMES :: nat where "MAX_STRAY_FRAMES = 16"
definition MAX_REQUESTS :: nat where "MAX_REQUESTS = 3"

record PairingConn =
  conn_id :: nat
  peer :: PeerIdentity
  own :: "string option"
  saw_approved :: bool
  stray_frames :: nat
  asks :: nat
  pongs :: nat

definition new_pairing_conn :: "nat \<Rightarrow> PeerIdentity \<Rightarrow> PairingConn" where
  "new_pairing_conn c p = \<lparr>conn_id = c, peer = p, own = None, saw_approved = False, stray_frames = 0, asks = 0, pongs = 0\<rparr>"

datatype PairMessage = DevicePairRequest | DevicePairCancel | DevicePairRedeem string string | OtherMessage

datatype Frame =
    Ended | CloseFrame | PongFrame | PingFrame | BinaryFrame | Malformed
  | UnknownType "string option" bool
  | Known PairMessage

type_synonym conn_step = "Flow \<times> PairingConn \<times> Hub \<times> DoorOut list"

abbreviation fail :: "FailReason \<Rightarrow> DoorOut" where "fail r \<equiv> Reply (DevicePairFailed r)"
abbreviation decided :: "string \<Rightarrow> DevicePairOutcome \<Rightarrow> DoorMessage" where "decided \<equiv> DevicePairDecided"

definition broadcast_pending :: "PairingBook \<Rightarrow> DoorOut" where
  "broadcast_pending b = Broadcast (pending b)"

definition stray :: "PairingConn \<Rightarrow> Flow \<times> PairingConn" where
  "stray c = (let n = stray_frames c + 1 in
     (if MAX_STRAY_FRAMES \<le> n then Close else Stay, c\<lparr>stray_frames := n\<rparr>))"

text \<open>A frame that does not decode is answered only when it names a request.\<close>

definition undecoded_reply :: "string option \<Rightarrow> bool \<Rightarrow> DoorMessage option" where
  "undecoded_reply rid names_known_type =
     map_option (\<lambda>r. DoorError (if names_known_type then InvalidRequestCode else UnsupportedMessage) (Some r)) rid"

text \<open>The decision a superseded request's device hears, unless the request was this connection's own.\<close>

definition superseded_notice :: "string option \<Rightarrow> string option \<Rightarrow> (string \<Rightarrow> nat option) \<Rightarrow> DoorOut list" where
  "superseded_notice previous superseded waiters =
     (case superseded of
        None \<Rightarrow> []
      | Some old \<Rightarrow>
          if previous = Some old then []
          else case waiters old of Some tx \<Rightarrow> [ToWaiter tx (decided old Superseded)] | None \<Rightarrow> [])"

definition on_request :: "DoorEnv \<Rightarrow> PairingConn \<Rightarrow> Hub \<Rightarrow> conn_step" where
  "on_request env c hub =
     (if \<not> remote_enabled hub then (Close, c, hub, [fail RemoteOff])
      else let c = c\<lparr>asks := asks c + 1\<rparr> in
      if MAX_REQUESTS < asks c then (Close, c, hub, [fail TooManyRequests])
      else if is_blocked (hub_devices hub) (peer_stable_id (peer c)) then (Stay, c, hub, [fail DeviceNotApproved])
      else case request (peer c) (new_uuid env) (instant env) (utc env) (hub_book hub) of
        (Inl e, book) \<Rightarrow> (Stay, c, hub\<lparr>hub_book := book\<rparr>, [fail (PairRefused e)])
      | (Inr (rid, superseded), book) \<Rightarrow>
          let waiters = (case own c of Some previous \<Rightarrow> (hub_waiters hub)(previous := None) | None \<Rightarrow> hub_waiters hub);
              notice = superseded_notice (own c) superseded waiters;
              waiters = (case superseded of Some old \<Rightarrow> waiters(old := None) | None \<Rightarrow> waiters);
              waiters = waiters(rid \<mapsto> conn_id c)
          in (Stay, c\<lparr>own := Some rid, saw_approved := False\<rparr>,
              hub\<lparr>hub_book := book, hub_waiters := waiters\<rparr>,
              notice @ [Reply (DevicePairPending rid REQUEST_LIFETIME), broadcast_pending book]))"

definition on_waiter :: "DoorMessage \<Rightarrow> PairingConn \<Rightarrow> Flow \<times> PairingConn \<times> DoorOut list" where
  "on_waiter msg c =
     (let (ends, approved) = (case msg of
            DevicePairDecided rid outcome \<Rightarrow> (outcome \<noteq> Approved, outcome = Approved \<and> own c = Some rid)
          | _ \<Rightarrow> (False, False))
      in (if ends then Close else Stay, if approved then c\<lparr>saw_approved := True\<rparr> else c, [Reply msg]))"

text \<open>\<open>try_recv\<close> on the waiter channel: the decision queued first, if any.\<close>

definition queued_or :: "DoorMessage list \<Rightarrow> DoorOut \<Rightarrow> PairingConn \<Rightarrow> Flow \<times> PairingConn \<times> DoorMessage list \<times> DoorOut list" where
  "queued_or q otherwise c = (case q of
     msg # rest \<Rightarrow> (case on_waiter msg c of (flow, c, outs) \<Rightarrow> (flow, c, rest, outs))
   | [] \<Rightarrow> (Close, c, [], [otherwise]))"

definition tell_lapsed :: "string list \<Rightarrow> (string \<Rightarrow> nat option) \<Rightarrow> DoorOut list" where
  "tell_lapsed ids waiters = List.map_filter (\<lambda>i. map_option (\<lambda>tx. ToWaiter tx (decided i OutcomeExpired)) (waiters i)) ids"

definition on_tick :: "DoorEnv \<Rightarrow> DoorMessage list \<Rightarrow> PairingConn \<Rightarrow> Hub
    \<Rightarrow> Flow \<times> PairingConn \<times> DoorMessage list \<times> Hub \<times> DoorOut list" where
  "on_tick env q c hub =
     (if \<not> remote_enabled hub then
        (case queued_or q (fail RemoteOff) c of (flow, c, q, outs) \<Rightarrow> (flow, c, q, hub, outs))
      else
        let before = pending (hub_book hub);
            (lapsed, book) = expire (instant env) (hub_book hub);
            told = tell_lapsed lapsed (hub_waiters hub);
            waiters = (\<lambda>i. if i \<in> set lapsed then None else hub_waiters hub i);
            after = pending book;
            gone = (case own c of Some rid \<Rightarrow> \<not> (\<exists>v \<in> set after. view_id v = rid) | None \<Rightarrow> False);
            news = (if lapsed \<noteq> [] \<or> after \<noteq> before then [Broadcast after] else []);
            hub = hub\<lparr>hub_book := book, hub_waiters := waiters\<rparr>
        in case own c of
             Some rid \<Rightarrow>
               if gone then
                 (case queued_or q (Reply (decided rid OutcomeExpired)) c of
                    (flow, c, q, outs) \<Rightarrow> (flow, c, q, hub, told @ news @ outs))
               else (Stay, c, q, hub, told @ news)
           | None \<Rightarrow> (Stay, c, q, hub, told @ news))"

section \<open>Redeeming a code\<close>

datatype RedeemRefusal = PairRefusal PairError | CodeLapsed

text \<open>With no command-line code live the code is simply wrong.\<close>

definition redeem_cli :: "string \<Rightarrow> string \<Rightarrow> nat \<Rightarrow> PairingBook \<Rightarrow> (PairError, unit) result \<times> PairingBook" where
  "redeem_cli rid presented now b =
     (case redeem_cli_code presented now b of
        (Inr _, b) \<Rightarrow> (Ok (), snd (deny rid b))
      | (Inl e, b) \<Rightarrow> (Err (if e = Expired then WrongCode else e), b))"

definition redeem_approved :: "string \<Rightarrow> string \<Rightarrow> string \<Rightarrow> nat \<Rightarrow> PairingBook \<Rightarrow> (RedeemRefusal, unit) result \<times> PairingBook" where
  "redeem_approved rid sid presented now b =
     (case redeem rid sid presented now b of
        (Inr _, b) \<Rightarrow> (Ok (), b)
      | (Inl e, b) \<Rightarrow>
          (Err (if e = Expired \<and> (\<exists>v \<in> set (pending b). view_id v = rid) then CodeLapsed else PairRefusal e), b))"

definition redeem_own :: "nat \<Rightarrow> string \<Rightarrow> string \<Rightarrow> PairingConn \<Rightarrow> Hub
    \<Rightarrow> (RedeemRefusal, unit) result \<times> PairingConn \<times> Hub \<times> DoorOut list" where
  "redeem_own now rid presented c hub =
     (let before = pending (hub_book hub);
          (result, book) = (case List.find (\<lambda>v. view_id v = rid) before of
              None \<Rightarrow> (Err (PairRefusal Expired), hub_book hub)
            | Some v \<Rightarrow>
                if view_approved v then redeem_approved rid (peer_stable_id (peer c)) presented now (hub_book hub)
                else if saw_approved c then (Err CodeLapsed, hub_book hub)
                else apfst (map_sum PairRefusal (\<lambda>u. u)) (redeem_cli rid presented now (hub_book hub)));
          c = (if result = Err CodeLapsed then c\<lparr>saw_approved := False\<rparr> else c);
          news = (if pending book \<noteq> before then [Broadcast (pending book)] else [])
      in (result, c, hub\<lparr>hub_book := book\<rparr>, news))"

text \<open>
  \<open>issue_token\<close> runs under the lock of the live registry: \<open>issue_store\<close> replaces the device's record,
  \<open>cut_device\<close> then ends the replaced record's connections and deletes its subscription.
\<close>

definition issue_store :: "DoorEnv \<Rightarrow> PairingConn \<Rightarrow> Hub \<Rightarrow> string option \<times> Hub \<times> DoorOut list" where
  "issue_store env c hub =
     (let replaced = map_option dev_id (List.find (\<lambda>r. dev_stable_id r = peer_stable_id (peer c)) (devices (hub_devices hub)));
          (issued, devs) = issue (sha256 env) (write_ok env) (peer c) (new_uuid env) (new_token env) (utc env) (hub_devices hub)
      in (if isl issued then None else replaced, hub\<lparr>hub_devices := devs\<rparr>,
          [case issued of
             Inr (dev, token) \<Rightarrow> Reply (DeviceToken dev token)
           | Inl PermissionDenied \<Rightarrow> fail DeviceNotApproved
           | Inl _ \<Rightarrow> fail DeviceSaveFailed]))"

definition cut_device :: "bool \<Rightarrow> string \<Rightarrow> Hub \<Rightarrow> Hub" where
  "cut_device push_ok dev hub =
     (let (ended, live) = cut dev (hub_live hub) in
      hub\<lparr>hub_live := live, hub_cancelled := hub_cancelled hub \<union> set ended,
          hub_push := remove_device push_ok dev (hub_push hub)\<rparr>)"

definition issue_token :: "DoorEnv \<Rightarrow> PairingConn \<Rightarrow> Hub \<Rightarrow> conn_step" where
  "issue_token env c hub =
     (let (replaced, hub, outs) = issue_store env c hub;
          hub = (case replaced of Some dev \<Rightarrow> cut_device (push_save_ok env) dev hub | None \<Rightarrow> hub)
      in (Close, c, hub, outs))"

text \<open>The checks before a redeem: only the connection's own request, and no blocked device.\<close>

definition redeem_refused :: "string \<Rightarrow> PairingConn \<Rightarrow> Hub \<Rightarrow> (Flow \<times> DoorOut list) option" where
  "redeem_refused rid c hub =
     (if own c \<noteq> Some rid then
        Some (Stay, [fail (PairRefused (if \<exists>v \<in> set (pending (hub_book hub)). view_id v = rid then NotYours else Unknown))])
      else if is_blocked (hub_devices hub) (peer_stable_id (peer c)) then Some (Close, [fail DeviceNotApproved])
      else None)"

definition redeem_failed :: "string \<Rightarrow> RedeemRefusal \<Rightarrow> Flow \<times> DoorOut list" where
  "redeem_failed rid e = (case e of
     CodeLapsed \<Rightarrow> (Stay, [fail CodeExpired])
   | PairRefusal Expired \<Rightarrow> (Close, [Reply (decided rid OutcomeExpired)])
   | PairRefusal TooManyAttempts \<Rightarrow> (Close, [fail (PairRefused TooManyAttempts)])
   | PairRefusal e \<Rightarrow> (Stay, [fail (PairRefused e)]))"

definition on_redeem :: "DoorEnv \<Rightarrow> string \<Rightarrow> string \<Rightarrow> PairingConn \<Rightarrow> Hub \<Rightarrow> conn_step" where
  "on_redeem env rid presented c hub =
     (case redeem_refused rid c hub of
        Some (flow, outs) \<Rightarrow> (flow, c, hub, outs)
      | None \<Rightarrow>
          case redeem_own (instant env) rid presented c hub of
            (Inr _, c, hub, news) \<Rightarrow> (case issue_token env c hub of (flow, c, hub, outs) \<Rightarrow> (flow, c, hub, news @ outs))
          | (Inl e, c, hub, news) \<Rightarrow> (case redeem_failed rid e of (flow, outs) \<Rightarrow> (flow, c, hub, news @ outs)))"

definition on_message :: "DoorEnv \<Rightarrow> PairMessage \<Rightarrow> PairingConn \<Rightarrow> Hub \<Rightarrow> conn_step" where
  "on_message env msg c hub = (case msg of
     DevicePairRequest \<Rightarrow> on_request env c hub
   | DevicePairCancel \<Rightarrow> (Close, c, hub, [])
   | DevicePairRedeem rid presented \<Rightarrow> on_redeem env rid presented c hub
   | OtherMessage \<Rightarrow>
       case stray c of
         (Close, c) \<Rightarrow> (Close, c, hub, [])
       | (Stay, c) \<Rightarrow> (Stay, c, hub, [fail DeviceNotApproved]))"

definition on_frame :: "DoorEnv \<Rightarrow> Frame \<Rightarrow> PairingConn \<Rightarrow> Hub \<Rightarrow> conn_step" where
  "on_frame env frame c hub = (case frame of
     Ended \<Rightarrow> (Close, c, hub, [])
   | CloseFrame \<Rightarrow> (Close, c, hub, [])
   | PongFrame \<Rightarrow> (Stay, c\<lparr>pongs := pongs c + 1\<rparr>, hub, [])
   | PingFrame \<Rightarrow> (Stay, c, hub, [])
   | BinaryFrame \<Rightarrow> (case stray c of (flow, c) \<Rightarrow> (flow, c, hub, []))
   | Malformed \<Rightarrow>
       (case stray c of
          (Close, c) \<Rightarrow> (Close, c, hub, [])
        | (Stay, c) \<Rightarrow> (Stay, c, hub, [Reply (DoorError MalformedMessage None)]))
   | UnknownType rid names_known_type \<Rightarrow>
       (case stray c of
          (Close, c) \<Rightarrow> (Close, c, hub, [])
        | (Stay, c) \<Rightarrow>
            (Stay, c, hub, case undecoded_reply rid names_known_type of Some m \<Rightarrow> [Reply m] | None \<Rightarrow> []))
   | Known msg \<Rightarrow> on_message env msg c hub)"

definition teardown :: "PairingConn \<Rightarrow> Hub \<Rightarrow> Hub \<times> DoorOut list" where
  "teardown c hub = (case own c of
     None \<Rightarrow> (hub, [])
   | Some rid \<Rightarrow>
       let (removed, book) = deny rid (hub_book hub) in
       (hub\<lparr>hub_book := book, hub_waiters := (hub_waiters hub)(rid := None)\<rparr>,
        if removed then [broadcast_pending book] else []))"

section \<open>The owner's handlers\<close>

datatype OwnerMessage =
    PairingStep
  | ListPendingDevices
  | ApproveDevice string
  | DenyDevice string
  | MintDevicePairCode
  | ListDevices
  | RevokeDevice string
  | ForgetDevice string

text \<open>Blocking and forgetting: the store first, then the cut, under the lock of the live registry.\<close>

definition block_device :: "DoorEnv \<Rightarrow> string \<Rightarrow> Hub \<Rightarrow> (StoreError, bool) result \<times> Hub" where
  "block_device env dev hub =
     (let (r, devs) = revoke (write_ok env) dev (hub_devices hub)
      in (r, cut_device (push_save_ok env) dev (hub\<lparr>hub_devices := devs\<rparr>)))"

definition forget_device :: "DoorEnv \<Rightarrow> string \<Rightarrow> Hub \<Rightarrow> (StoreError, bool) result \<times> Hub" where
  "forget_device env dev hub =
     (let (r, devs) = forget (write_ok env) dev (hub_devices hub)
      in (r, cut_device (push_save_ok env) dev (hub\<lparr>hub_devices := devs\<rparr>)))"

definition send_devices :: "Hub \<Rightarrow> DoorMessage" where
  "send_devices hub = DeviceList (map (\<lambda>r. \<lparr>info_id = dev_id r, info_name = dev_name r, info_login = dev_login r,
     info_created_at = dev_created_at r, info_last_seen = dev_last_seen r, info_revoked = revoked r,
     info_connected = connected (dev_id r) (hub_live hub)\<rparr>) (devices (hub_devices hub)))"

definition approve_request :: "DoorEnv \<Rightarrow> string \<Rightarrow> Hub \<Rightarrow> Hub \<times> DoorOut list" where
  "approve_request env rid hub =
     (if (case stable_id_of (hub_book hub) rid of Some sid \<Rightarrow> is_blocked (hub_devices hub) sid | None \<Rightarrow> False)
      then (hub, [Reply (DoorError DeviceBlocked None)])
      else case approve rid (instant env) (new_code env) (hub_book hub) of
        (Inr value, book) \<Rightarrow>
          (hub\<lparr>hub_book := book\<rparr>,
           [Reply (DevicePairCode (Some rid) value CODE_LIFETIME)] @
           (case hub_waiters hub rid of Some tx \<Rightarrow> [ToWaiter tx (decided rid Approved)] | None \<Rightarrow> []) @
           [broadcast_pending book])
      | (Inl e, book) \<Rightarrow>
          (hub\<lparr>hub_book := book\<rparr>,
           (if e = Expired then [broadcast_pending book] else []) @ [Reply (DoorError NotFound None)]))"

definition deny_request :: "string \<Rightarrow> Hub \<Rightarrow> Hub \<times> DoorOut list" where
  "deny_request rid hub =
     (let (denied, book) = deny rid (hub_book hub) in
      if denied then
        (hub\<lparr>hub_book := book, hub_waiters := (hub_waiters hub)(rid := None)\<rparr>,
         (case hub_waiters hub rid of Some tx \<Rightarrow> [ToWaiter tx (decided rid Denied)] | None \<Rightarrow> []) @ [broadcast_pending book])
      else (hub\<lparr>hub_book := book\<rparr>, [broadcast_pending book]))"

text \<open>Remote access turning off; \<open>ids\<close> lists the waiting requests in the order the map drains.\<close>

definition drop_all :: "string list \<Rightarrow> Hub \<Rightarrow> Hub \<times> DoorOut list" where
  "drop_all ids hub =
     (hub\<lparr>hub_book := new_book, hub_waiters := (\<lambda>_. None)\<rparr>,
      tell_lapsed ids (hub_waiters hub) @ [broadcast_pending new_book])"

definition handle_owner :: "DoorEnv \<Rightarrow> bool \<Rightarrow> OwnerMessage \<Rightarrow> Hub \<Rightarrow> Hub \<times> DoorOut list" where
  "handle_owner env local msg hub =
     (if msg = PairingStep then (hub, [Reply (DoorError InvalidRequestCode None)])
      else if \<not> local then (hub, [Reply (DoorError LocalOnly None)])
      else case msg of
        ListPendingDevices \<Rightarrow> (hub, [Reply (PendingDevices (pending (hub_book hub)))])
      | ApproveDevice rid \<Rightarrow> approve_request env rid hub
      | DenyDevice rid \<Rightarrow> deny_request rid hub
      | MintDevicePairCode \<Rightarrow>
          (case mint_cli_code (instant env) (new_code env) (hub_book hub) of
             (value, book) \<Rightarrow> (hub\<lparr>hub_book := book\<rparr>, [Reply (DevicePairCode None value CODE_LIFETIME)]))
      | ListDevices \<Rightarrow> (hub, [Reply (send_devices hub)])
      | RevokeDevice dev \<Rightarrow>
          (case block_device env dev hub of
             (Inr _, hub) \<Rightarrow> (hub, [Reply (send_devices hub)])
           | (Inl _, hub) \<Rightarrow> (hub, [Reply (DoorError InternalCode None)]))
      | ForgetDevice dev \<Rightarrow>
          (case forget_device env dev hub of
             (Inr _, hub) \<Rightarrow> (hub, [Reply (send_devices hub)])
           | (Inl _, hub) \<Rightarrow> (hub, [Reply (DoorError InternalCode None)]))
      | PairingStep \<Rightarrow> (hub, []))"

end
