(* ===== verification/Door.thy ===== *)
theory Door
  imports Pairing
begin

text \<open>
  The door as a system: any number of tailnet connections, the owner, the phone's push requests, the
  push trigger and restarts of the daemon, interleaved. A step is one locked section of a handler:
  a redeem checks, redeems and issues in three steps, and a block, a forget or a re-issue changes
  the store in one step and cuts the device in the next, while it keeps the lock of the live
  registry. Connection ids and UUIDs are never reused.
\<close>

section \<open>Steps\<close>

text \<open>Where a pairing connection's task stands; a closing one only tears down.\<close>

datatype Task = Ready | Redeeming string string | Issuing string string | Closing

datatype ConnState = PairingOn PairingConn Task | ServedAs PeerIdentity string nat

text \<open>The lock of the live registry: free, or held by a task about to cut a device.\<close>

datatype LiveLock = Free | Cutting string

record Door =
  door_hub :: Hub
  door_conns :: "nat \<Rightarrow> ConnState option"
  door_queue :: "nat \<Rightarrow> DoorMessage list"
  live_lock :: LiveLock
  owner_codes :: "(string option \<times> string) set"
  used_ids :: "string set"

definition after_flow :: "Flow \<Rightarrow> Task" where
  "after_flow flow = (case flow of Stay \<Rightarrow> Ready | Close \<Rightarrow> Closing)"

fun enqueue :: "DoorOut list \<Rightarrow> (nat \<Rightarrow> DoorMessage list) \<Rightarrow> nat \<Rightarrow> DoorMessage list" where
  "enqueue [] q = q"
| "enqueue (ToWaiter tx m # outs) q = enqueue outs (q(tx := q tx @ [m]))"
| "enqueue (_ # outs) q = enqueue outs q"

text \<open>The codes a handler shows the owner.\<close>

definition shown_codes :: "DoorOut list \<Rightarrow> (string option \<times> string) set" where
  "shown_codes outs = {(rid, v). \<exists>n. Reply (DevicePairCode rid v n) \<in> set outs}"

fun is_redeem :: "Frame \<Rightarrow> bool" where
  "is_redeem (Known (DevicePairRedeem rid v)) = True"
| "is_redeem _ = False"

fun cuts_device :: "OwnerMessage \<Rightarrow> bool" where
  "cuts_device (RevokeDevice dev) = True"
| "cuts_device (ForgetDevice dev) = True"
| "cuts_device _ = False"

text \<open>A new daemon on the same files: pairing requests, codes and connections are gone.\<close>

definition restarted :: "Hub \<Rightarrow> Hub" where
  "restarted h = \<lparr>hub_devices = load_devices (devices_file (hub_devices h)), hub_book = new_book,
     hub_waiters = (\<lambda>_. None), hub_live = \<lparr>next_key = 0, by_device = (\<lambda>_. None)\<rparr>, hub_cancelled = {},
     hub_push = (hub_push h)\<lparr>loaded := None\<rparr>, remote_enabled = remote_enabled h\<rparr>"

inductive door_step :: "PushEnv \<Rightarrow> Door \<Rightarrow> Door \<Rightarrow> bool" for penv where
  serve_device: "live_lock s = Free \<Longrightarrow> door_conns s c = None \<Longrightarrow> c \<notin> hub_cancelled (door_hub s) \<Longrightarrow>
     authorize_device env p token c (door_hub s) = (Some (dev, key), h) \<Longrightarrow>
     door_step penv s (s\<lparr>door_hub := h, door_conns := (door_conns s)(c \<mapsto> ServedAs p dev key)\<rparr>)"
| pair_device: "live_lock s = Free \<Longrightarrow> door_conns s c = None \<Longrightarrow> c \<notin> hub_cancelled (door_hub s) \<Longrightarrow>
     authorize_device env p token c (door_hub s) = (None, h) \<Longrightarrow>
     door_step penv s (s\<lparr>door_hub := h, door_conns := (door_conns s)(c \<mapsto> PairingOn (new_pairing_conn c p) Ready),
                    door_queue := (door_queue s)(c := [])\<rparr>)"
| frame: "door_conns s c = Some (PairingOn pc Ready) \<Longrightarrow> \<not> is_redeem f \<Longrightarrow> new_uuid env \<notin> used_ids s \<Longrightarrow>
     on_frame env f pc (door_hub s) = (flow, pc', h, outs) \<Longrightarrow>
     door_step penv s (s\<lparr>door_hub := h, door_conns := (door_conns s)(c \<mapsto> PairingOn pc' (after_flow flow)),
                    door_queue := enqueue outs (door_queue s), used_ids := insert (new_uuid env) (used_ids s)\<rparr>)"
| redeem_stopped: "door_conns s c = Some (PairingOn pc Ready) \<Longrightarrow>
     redeem_refused rid pc (door_hub s) = Some (flow, outs) \<Longrightarrow>
     door_step penv s (s\<lparr>door_conns := (door_conns s)(c \<mapsto> PairingOn pc (after_flow flow))\<rparr>)"
| redeem_checked: "door_conns s c = Some (PairingOn pc Ready) \<Longrightarrow> redeem_refused rid pc (door_hub s) = None \<Longrightarrow>
     door_step penv s (s\<lparr>door_conns := (door_conns s)(c \<mapsto> PairingOn pc (Redeeming rid presented))\<rparr>)"
| redeemed: "door_conns s c = Some (PairingOn pc (Redeeming rid presented)) \<Longrightarrow>
     redeem_own now rid presented pc (door_hub s) = (Inr u, pc', h, outs) \<Longrightarrow>
     door_step penv s (s\<lparr>door_hub := h, door_conns := (door_conns s)(c \<mapsto> PairingOn pc' (Issuing rid presented))\<rparr>)"
| redeem_lost: "door_conns s c = Some (PairingOn pc (Redeeming rid presented)) \<Longrightarrow>
     redeem_own now rid presented pc (door_hub s) = (Inl e, pc', h, outs) \<Longrightarrow>
     door_step penv s (s\<lparr>door_hub := h,
                    door_conns := (door_conns s)(c \<mapsto> PairingOn pc' (after_flow (fst (redeem_failed rid e))))\<rparr>)"
| issued: "door_conns s c = Some (PairingOn pc (Issuing rid presented)) \<Longrightarrow> live_lock s = Free \<Longrightarrow>
     new_uuid env \<notin> used_ids s \<Longrightarrow> issue_store env pc (door_hub s) = (replaced, h, outs) \<Longrightarrow>
     door_step penv s (s\<lparr>door_hub := h, door_conns := (door_conns s)(c \<mapsto> PairingOn pc Closing),
                    live_lock := (case replaced of Some dev \<Rightarrow> Cutting dev | None \<Rightarrow> Free),
                    used_ids := insert (new_uuid env) (used_ids s)\<rparr>)"
| blocking: "live_lock s = Free \<Longrightarrow> revoke ok dev (hub_devices (door_hub s)) = (r, devs) \<Longrightarrow>
     door_step penv s (s\<lparr>door_hub := (door_hub s)\<lparr>hub_devices := devs\<rparr>, live_lock := Cutting dev\<rparr>)"
| forgetting: "live_lock s = Free \<Longrightarrow> forget ok dev (hub_devices (door_hub s)) = (r, devs) \<Longrightarrow>
     door_step penv s (s\<lparr>door_hub := (door_hub s)\<lparr>hub_devices := devs\<rparr>, live_lock := Cutting dev\<rparr>)"
| cutting: "live_lock s = Cutting dev \<Longrightarrow>
     door_step penv s (s\<lparr>door_hub := cut_device ok dev (door_hub s), live_lock := Free\<rparr>)"
| told: "door_conns s c = Some (PairingOn pc Ready) \<Longrightarrow> door_queue s c = m # ms \<Longrightarrow>
     on_waiter m pc = (flow, pc', outs) \<Longrightarrow>
     door_step penv s (s\<lparr>door_conns := (door_conns s)(c \<mapsto> PairingOn pc' (after_flow flow)),
                    door_queue := (door_queue s)(c := ms)\<rparr>)"
| ticked: "door_conns s c = Some (PairingOn pc Ready) \<Longrightarrow>
     on_tick env (door_queue s c) pc (door_hub s) = (flow, pc', q, h, outs) \<Longrightarrow>
     door_step penv s (s\<lparr>door_hub := h, door_conns := (door_conns s)(c \<mapsto> PairingOn pc' (after_flow flow)),
                    door_queue := enqueue outs ((door_queue s)(c := q))\<rparr>)"
| torn_down: "door_conns s c = Some (PairingOn pc task) \<Longrightarrow> task = Ready \<or> task = Closing \<Longrightarrow>
     teardown pc (door_hub s) = (h, outs) \<Longrightarrow>
     door_step penv s (s\<lparr>door_hub := h, door_conns := (door_conns s)(c := None)\<rparr>)"
| served_ended: "live_lock s = Free \<Longrightarrow> door_conns s c = Some (ServedAs p dev key) \<Longrightarrow>
     door_step penv s (s\<lparr>door_hub := (door_hub s)\<lparr>hub_live := drop_connection dev key (hub_live (door_hub s))\<rparr>,
                    door_conns := (door_conns s)(c := None)\<rparr>)"
| owner: "\<not> cuts_device msg \<Longrightarrow> handle_owner env local msg (door_hub s) = (h, outs) \<Longrightarrow>
     door_step penv s (s\<lparr>door_hub := h, door_queue := enqueue outs (door_queue s),
                    owner_codes := owner_codes s \<union> shown_codes outs\<rparr>)"
| remote_switched: "(if on then (door_hub s, []) else drop_all ids (door_hub s)) = (h, outs) \<Longrightarrow>
     door_step penv s (s\<lparr>door_hub := h\<lparr>remote_enabled := on\<rparr>, door_queue := enqueue outs (door_queue s)\<rparr>)"
| push_request: "door_conns s c = Some (ServedAs p dev key) \<Longrightarrow>
     serve penv d time (hub_devices (door_hub s)) (Tailnet p) msg (hub_push (door_hub s)) = (r, ps) \<Longrightarrow>
     door_step penv s (s\<lparr>door_hub := (door_hub s)\<lparr>hub_push := ps\<rparr>\<rparr>)"
| push_round: "load_push d (hub_devices (door_hub s)) (hub_push (door_hub s)) = (r, ps) \<Longrightarrow>
     door_step penv s (s\<lparr>door_hub := (door_hub s)\<lparr>hub_push :=
        fold (\<lambda>(ok, dev, e). remove_device_if_endpoint ok dev e) doomed ps\<rparr>\<rparr>)"
| daemon_restarted:
     "door_step penv s (s\<lparr>door_hub := restarted (door_hub s), door_conns := (\<lambda>_. None),
                    door_queue := (\<lambda>_. []), live_lock := Free\<rparr>)"

inductive_cases door_stepE: "door_step penv s s'"

section \<open>What the book's changes do\<close>

text \<open>The codes a book would accept: of a request, or of the command line.\<close>

definition book_codes :: "PairingBook \<Rightarrow> (string option \<times> string) set" where
  "book_codes b = {(Some (req_id r), code_value k) | r k. r \<in> set (requests b) \<and> code r = Some k} \<union>
     {(None, cli_value k) | k. k \<in> set (cli_codes b)}"

text \<open>A change of the book that adds at most the given request ids and codes.\<close>

definition book_moves :: "string set \<Rightarrow> (string option \<times> string) set \<Rightarrow> PairingBook \<Rightarrow> PairingBook \<Rightarrow> bool" where
  "book_moves ids codes b b' \<longleftrightarrow>
     (book_ok b \<longrightarrow> req_id ` set (requests b) \<inter> ids = {} \<longrightarrow>
      book_ok b' \<and> req_id ` set (requests b') \<subseteq> req_id ` set (requests b) \<union> ids \<and>
      book_codes b' \<subseteq> book_codes b \<union> codes)"

fun new_codes :: "BookOp \<Rightarrow> (string option \<times> string) set" where
  "new_codes (Approve rid now v) = {(Some rid, v)}"
| "new_codes (Mint now v) = {(None, v)}"
| "new_codes _ = {}"

lemma request_codesI:
  assumes "\<And>r k. r \<in> set (requests b') \<Longrightarrow> code r = Some k \<Longrightarrow> (Some (req_id r), code_value k) \<in> book_codes b \<union> C"
    and "\<And>k. k \<in> set (cli_codes b') \<Longrightarrow> (None, cli_value k) \<in> book_codes b \<union> C"
  shows "book_codes b' \<subseteq> book_codes b \<union> C"
  using assms unfolding book_codes_def [of b'] by auto

lemma book_code_of: "r \<in> set (requests b) \<Longrightarrow> code r = Some k \<Longrightarrow> (Some (req_id r), code_value k) \<in> book_codes b"
  by (auto simp: book_codes_def)

lemma cli_code_of: "k \<in> set (cli_codes b) \<Longrightarrow> (None, cli_value k) \<in> book_codes b"
  by (auto simp: book_codes_def)

lemma book_codes_mono:
  "set (requests b') \<subseteq> set (requests b) \<Longrightarrow> set (cli_codes b') \<subseteq> set (cli_codes b) \<Longrightarrow> book_codes b' \<subseteq> book_codes b"
  by (auto simp: book_codes_def)

lemma lapse_code_Some: "code (lapse_code now r) = Some k \<Longrightarrow> code r = Some k"
  by (auto simp: lapse_code_def split: option.splits if_splits)

lemma book_codes_expire: "book_codes (snd (expire now b)) \<subseteq> book_codes b"
proof -
  have "book_codes (snd (expire now b)) \<subseteq> book_codes b \<union> {}"
    by (rule request_codesI)
      (auto simp: expire_def Let_def drop_expired_cli_codes_def intro: cli_code_of dest: lapse_code_Some book_code_of)
  then show ?thesis by simp
qed

lemma book_codes_drop: "book_codes (drop_request rid b) \<subseteq> book_codes b"
  using drop_first_subset [of "has_id rid" "requests b"]
  by (intro book_codes_mono) (auto simp: drop_request_def)

lemma book_codes_entry:
  assumes "\<And>r. req_id (f r) = req_id r" and "\<And>r k. code (f r) = Some k \<Longrightarrow> code r = Some k \<or> (Some rid, code_value k) \<in> C"
  shows "book_codes (on_request_entry rid f b) \<subseteq> book_codes b \<union> C"
proof -
  have "\<exists>r' \<in> set xs. r = r' \<or> (req_id r' = rid \<and> r = f r')" if "r \<in> set (on_first (has_id rid) f xs)" for r xs
    using that by (induction xs) (auto split: if_splits)
  then have "\<exists>r' \<in> set (requests b). r = r' \<or> (req_id r' = rid \<and> r = f r')"
    if "r \<in> set (requests (on_request_entry rid f b))" for r
    using that by (simp add: on_request_entry_def)
  then show ?thesis
    using assms by (intro request_codesI) (force dest: book_code_of, simp add: cli_code_of)
qed

lemma book_op_codes: "book_ok b \<Longrightarrow> book_codes (snd (book_op x b)) \<subseteq> book_codes b \<union> new_codes x"
proof (cases x)
  case (Ask p i now asked)
  assume b: "book_ok b"
  have "book_codes (snd (request p i now asked b)) \<subseteq> book_codes (snd (expire now b)) \<union> {}"
    unfolding request_book [OF b]
    by (rule request_codesI) (auto simp: Let_def dest: book_code_of intro: cli_code_of split: if_splits)
  with Ask book_codes_expire show ?thesis by fastforce
next
  case (Approve rid now v)
  then show ?thesis
    using book_codes_drop [of rid b]
      book_codes_entry [of "\<lambda>r. r\<lparr>approved := True, code := Some \<lparr>code_value = v, code_expires_at = now + CODE_LIFETIME\<rparr>,
        expires_at := max (expires_at r) (now + CODE_LIFETIME)\<rparr>" rid "{(Some rid, v)}" b]
    by (auto simp: approve_def split: option.split)
next
  case (Deny rid)
  then show ?thesis using book_codes_drop [of rid b] by (auto simp: deny_def split: option.split)
next
  case (Redeem rid sid v now)
  then show ?thesis
    using book_codes_drop [of rid b]
      book_codes_entry [of "\<lambda>r. r\<lparr>approved := False, code := None\<rparr>" rid "{}" b]
      book_codes_entry [of "\<lambda>r. r\<lparr>wrong_attempts := Suc (wrong_attempts r)\<rparr>" rid "{}" b]
    by (auto simp: redeem_def Let_def drop_changed_request split: option.split)
next
  case (Mint now v)
  then have "requests (snd (book_op x b)) = requests b" by (simp add: mint_cli_code_def Let_def)
  with Mint book_op_cli_codes [of x b] show ?thesis
    by (intro request_codesI) (auto intro: book_code_of dest: cli_code_of)
next
  case (RedeemCli v now)
  have "set (requests (snd (book_op x b))) \<subseteq> set (requests b)" using RedeemCli by (simp add: redeem_cli_code_def Let_def)
  with RedeemCli book_op_cli_codes [of x b] show ?thesis using book_codes_mono by simp
next
  case (Expire now)
  then show ?thesis using book_codes_expire by simp
qed

lemma book_moves_op: "book_moves (set_option (asked_id x)) (new_codes x) b (snd (book_op x b))"
  unfolding book_moves_def
proof (intro impI conjI)
  assume "book_ok b" "req_id ` set (requests b) \<inter> set_option (asked_id x) = {}"
  then show "book_ok (snd (book_op x b))" by (intro book_op_ok) auto
qed (simp_all add: book_op_ids book_op_codes)

lemma book_moves_refl: "book_moves I C b b"
  by (simp add: book_moves_def)

lemma book_moves_new: "book_moves I C b new_book"
  by (simp add: book_moves_def new_book_ok) (simp add: new_book_def book_codes_def)

lemma book_moves_weaken: "book_moves I C b b' \<Longrightarrow> I \<subseteq> I' \<Longrightarrow> C \<subseteq> C' \<Longrightarrow> book_moves I' C' b b'"
  unfolding book_moves_def by blast

lemma book_moves_trans: "book_moves {} {} b b' \<Longrightarrow> book_moves I C b' b'' \<Longrightarrow> book_moves I C b b''"
  unfolding book_moves_def
proof (intro impI)
  assume step1: "book_ok b \<longrightarrow> req_id ` set (requests b) \<inter> {} = {} \<longrightarrow>
      book_ok b' \<and> req_id ` set (requests b') \<subseteq> req_id ` set (requests b) \<union> {} \<and> book_codes b' \<subseteq> book_codes b \<union> {}"
    and step2: "book_ok b' \<longrightarrow> req_id ` set (requests b') \<inter> I = {} \<longrightarrow>
      book_ok b'' \<and> req_id ` set (requests b'') \<subseteq> req_id ` set (requests b') \<union> I \<and> book_codes b'' \<subseteq> book_codes b' \<union> C"
    and ok: "book_ok b" and fresh: "req_id ` set (requests b) \<inter> I = {}"
  from step1 ok have b': "book_ok b'" "req_id ` set (requests b') \<subseteq> req_id ` set (requests b)" "book_codes b' \<subseteq> book_codes b"
    by simp_all
  from b'(2) fresh have "req_id ` set (requests b') \<inter> I = {}"
    using disjoint_iff_not_equal [of "req_id ` set (requests b)" I] by (simp add: disjoint_iff subset_iff)
  with step2 b'(1) have b'': "book_ok b''" "req_id ` set (requests b'') \<subseteq> req_id ` set (requests b') \<union> I"
    "book_codes b'' \<subseteq> book_codes b' \<union> C" by simp_all
  show "book_ok b'' \<and> req_id ` set (requests b'') \<subseteq> req_id ` set (requests b) \<union> I \<and> book_codes b'' \<subseteq> book_codes b \<union> C"
    using b''(1) order_trans [OF b''(2) Un_mono [OF b'(2) order_refl]] order_trans [OF b''(3) Un_mono [OF b'(3) order_refl]]
    by (intro conjI)
qed

lemma book_moves_by: "snd (book_op x b) = b' \<Longrightarrow> set_option (asked_id x) \<subseteq> I \<Longrightarrow> new_codes x \<subseteq> C \<Longrightarrow> book_moves I C b b'"
  using book_moves_weaken [OF book_moves_op] by metis

lemma book_moves_ops:
  "book_moves {i} C b (snd (request p i now asked b))"
  "book_moves I {(Some rid, v)} b (snd (approve rid now v b))"
  "book_moves I C b (snd (deny rid b))"
  "book_moves I C b (snd (redeem rid sid v now b))"
  "book_moves I {(None, v)} b (snd (mint_cli_code now v b))"
  "book_moves I C b (snd (redeem_cli_code v now b))"
  "book_moves I C b (snd (expire now b))"
  by (rule book_moves_by [of "Ask p i now asked"] book_moves_by [of "Approve rid now v"] book_moves_by [of "Deny rid"]
      book_moves_by [of "Redeem rid sid v now"] book_moves_by [of "Mint now v"] book_moves_by [of "RedeemCli v now"]
      book_moves_by [of "Expire now"]; simp; fail)+

section \<open>Handlers that change only the book\<close>

definition book_only :: "string set \<Rightarrow> (string option \<times> string) set \<Rightarrow> Hub \<Rightarrow> Hub \<Rightarrow> bool" where
  "book_only ids codes h h' \<longleftrightarrow>
     hub_devices h' = hub_devices h \<and> hub_live h' = hub_live h \<and> hub_cancelled h' = hub_cancelled h \<and>
     hub_push h' = hub_push h \<and> book_moves ids codes (hub_book h) (hub_book h')"

lemma book_only_refl: "book_only I C h h"
  by (simp add: book_only_def book_moves_refl)

lemma book_only_book: "book_moves I C (hub_book h) b \<Longrightarrow> book_only I C h (h\<lparr>hub_book := b\<rparr>)"
  by (simp add: book_only_def)

lemma book_only_waiters: "book_moves I C (hub_book h) b \<Longrightarrow> book_only I C h (h\<lparr>hub_book := b, hub_waiters := w\<rparr>)"
  by (simp add: book_only_def)

lemma stray_fields [simp]:
  "conn_id (snd (stray c)) = conn_id c" "peer (snd (stray c)) = peer c" "own (snd (stray c)) = own c"
  by (simp_all add: stray_def Let_def)

lemma on_request_effect:
  assumes "on_request env pc h = (flow, pc', h', outs)"
  shows "book_only {new_uuid env} {} h h'" "conn_id pc' = conn_id pc" "peer pc' = peer pc"
proof -
  obtain r b where req: "request (peer pc) (new_uuid env) (instant env) (utc env) (hub_book h) = (r, b)"
    by (cases "request (peer pc) (new_uuid env) (instant env) (utc env) (hub_book h)") auto
  have "book_moves {new_uuid env} {} (hub_book h) b"
    using book_moves_ops(1) [of "new_uuid env" "{}" "hub_book h" "peer pc" "instant env" "utc env"] req by simp
  with assms req show "book_only {new_uuid env} {} h h'" "conn_id pc' = conn_id pc" "peer pc' = peer pc"
    by (auto simp: on_request_def Let_def book_only_refl intro: book_only_book book_only_waiters split: if_splits sum.splits)
qed

lemma on_message_effect:
  assumes "on_message env msg pc h = (flow, pc', h', outs)" and "\<not> is_redeem (Known msg)"
  shows "book_only {new_uuid env} {} h h' \<and> conn_id pc' = conn_id pc \<and> peer pc' = peer pc"
proof (cases msg)
  case DevicePairRequest
  with assms have "on_request env pc h = (flow, pc', h', outs)" by (simp add: on_message_def)
  from on_request_effect [OF this] show ?thesis by simp
next
  case OtherMessage
  with assms(1) stray_fields [of pc] show ?thesis
    by (cases "stray pc"; cases "fst (stray pc)") (auto simp: on_message_def book_only_refl)
qed (use assms in \<open>auto simp: on_message_def book_only_refl\<close>)

lemma on_frame_effect:
  assumes "on_frame env f pc h = (flow, pc', h', outs)" and "\<not> is_redeem f"
  shows "book_only {new_uuid env} {} h h' \<and> conn_id pc' = conn_id pc \<and> peer pc' = peer pc"
proof (cases "\<exists>msg. f = Known msg")
  case True
  with assms show ?thesis by (auto simp: on_frame_def dest: on_message_effect)
next
  case False
  obtain fl sc where st: "stray pc = (fl, sc)" by (cases "stray pc") auto
  then have sc: "conn_id sc = conn_id pc" "peer sc = peer pc" using stray_fields [of pc] by simp_all
  have "h' = h \<and> conn_id pc' = conn_id pc \<and> peer pc' = peer pc"
    using False assms(1) st sc by (cases f; cases fl) (simp_all add: on_frame_def, auto)
  then show ?thesis by (simp add: book_only_refl)
qed

lemma on_waiter_fields:
  "on_waiter m pc = (flow, pc', outs) \<Longrightarrow> conn_id pc' = conn_id pc \<and> peer pc' = peer pc \<and> own pc' = own pc"
  by (auto simp: on_waiter_def split: DoorMessage.splits)

lemma queued_or_fields:
  "queued_or q out pc = (flow, pc', q', outs) \<Longrightarrow> conn_id pc' = conn_id pc \<and> peer pc' = peer pc \<and> own pc' = own pc"
  by (auto simp: queued_or_def dest: on_waiter_fields split: list.splits prod.splits)

lemma on_tick_effect:
  assumes "on_tick env q pc h = (flow, pc', q', h', outs)"
  shows "book_only {} {} h h'" "conn_id pc' = conn_id pc" "peer pc' = peer pc"
proof -
  obtain lapsed b where ex: "expire (instant env) (hub_book h) = (lapsed, b)"
    by (cases "expire (instant env) (hub_book h)") auto
  have "book_moves {} {} (hub_book h) b" using book_moves_ops(7) [of "{}" "{}" "hub_book h" "instant env"] ex by simp
  with assms ex show "book_only {} {} h h'"
    by (auto simp: on_tick_def Let_def book_only_refl split: if_splits option.splits prod.splits
        intro: book_only_waiters book_only_book)
  show "conn_id pc' = conn_id pc" "peer pc' = peer pc"
    using assms ex by (auto simp: on_tick_def Let_def dest: queued_or_fields split: if_splits option.splits prod.splits)
qed

lemma teardown_effect: "teardown pc h = (h', outs) \<Longrightarrow> book_only {} {} h h'"
  using book_moves_ops(3) [of "{}" "{}" "hub_book h"]
  by (auto simp: teardown_def Let_def book_only_refl split: option.splits prod.splits intro!: book_only_waiters) (metis snd_conv)

lemma drop_all_effect: "drop_all ids h = (h', outs) \<Longrightarrow> book_only I C h h'"
  by (auto simp: drop_all_def intro!: book_only_waiters book_moves_new)

lemma redeem_cli_moves: "book_moves {} {} b (snd (redeem_cli rid v now b))"
proof -
  obtain r b' where cli: "redeem_cli_code v now b = (r, b')" by (cases "redeem_cli_code v now b") auto
  then have "book_moves {} {} b b'" using book_moves_ops(6) [of "{}" "{}" b v now] by simp
  moreover from this have "book_moves {} {} b (snd (deny rid b'))"
    by (rule book_moves_trans) (rule book_moves_ops)
  ultimately show ?thesis using cli by (cases r) (simp_all add: redeem_cli_def)
qed

lemma redeem_approved_moves: "book_moves {} {} b (snd (redeem_approved rid sid v now b))"
  using book_moves_ops(4) [of "{}" "{}" b rid sid v now]
  by (auto simp: redeem_approved_def split: prod.splits sum.splits)

lemma redeem_own_effect:
  assumes "redeem_own now rid v pc h = (r, pc', h', outs)"
  shows "book_only {} {} h h'" "conn_id pc' = conn_id pc" "peer pc' = peer pc" "own pc' = own pc"
proof -
  show "conn_id pc' = conn_id pc" "peer pc' = peer pc" "own pc' = own pc"
    using assms by (auto simp: redeem_own_def Let_def split_def)
  have "h' = h\<lparr>hub_book := b\<rparr> \<Longrightarrow> book_moves {} {} (hub_book h) b \<Longrightarrow> book_only {} {} h h'" for b
    by (simp add: book_only_def)
  then show "book_only {} {} h h'"
    using assms redeem_cli_moves [of "hub_book h" rid v now]
      redeem_approved_moves [of "hub_book h" rid "peer_stable_id (peer pc)" v now] book_moves_refl [of "{}" "{}" "hub_book h"]
    by (auto simp: redeem_own_def Let_def split_def book_only_refl split: option.splits if_splits)
qed

text \<open>A redeem that succeeds presented a code of the book: of the connection's request, or of the command line.\<close>

lemma redeem_Ok: 
  assumes "redeem rid sid v now b = (Inr u, b')"
  shows "(Some rid, v) \<in> book_codes b"
proof -
  obtain r k where "find_request b rid = Some r" "code r = Some k" "code_value k = v"
    using assms by (auto simp: redeem_def Let_def constant_time_eq_iff split: option.splits if_splits)
  then show ?thesis using find_request_id [of b rid r] book_code_of [of r b k]
    by (auto simp: find_request_def find_Some_iff)
qed

lemma redeem_cli_code_Ok: "redeem_cli_code v now b = (Inr u, b') \<Longrightarrow> (None, v) \<in> book_codes b"
  by (auto simp: redeem_cli_code_def Let_def constant_time_eq_iff drop_expired_cli_codes_def intro: cli_code_of split: if_splits)

lemma redeem_own_Ok:
  assumes "redeem_own now rid v pc h = (Inr u, pc', h', outs)"
  shows "(Some rid, v) \<in> book_codes (hub_book h) \<or> (None, v) \<in> book_codes (hub_book h)"
proof -
  let ?b = "hub_book h"
  have "fst (redeem_approved rid (peer_stable_id (peer pc)) v now ?b) = Inr x \<Longrightarrow> (Some rid, v) \<in> book_codes ?b" for x
    by (auto simp: redeem_approved_def dest: redeem_Ok split: prod.splits sum.splits)
  moreover have "fst (redeem_cli rid v now ?b) = Inr x \<Longrightarrow> (None, v) \<in> book_codes ?b" for x
    by (auto simp: redeem_cli_def dest: redeem_cli_code_Ok split: prod.splits sum.splits)
  ultimately show ?thesis
    using assms by (auto simp: redeem_own_def Let_def split_def map_sum_def split: option.splits if_splits sum.splits)
qed

lemma approve_Err:
  "approve rid now v b = (Inl e, b') \<Longrightarrow> b' = b \<or> b' = snd (deny rid b)"
  by (auto simp: approve_def deny_def split: option.splits if_splits)

lemma approve_request_effect:
  assumes "approve_request env rid h = (h', outs)"
  shows "book_only {} (shown_codes outs) h h'"
proof (cases "case stable_id_of (hub_book h) rid of Some sid \<Rightarrow> is_blocked (hub_devices h) sid | None \<Rightarrow> False")
  case True
  with assms show ?thesis by (auto simp: approve_request_def book_only_refl)
next
  case False
  obtain r b where ap: "approve rid (instant env) (new_code env) (hub_book h) = (r, b)"
    by (cases "approve rid (instant env) (new_code env) (hub_book h)") auto
  show ?thesis
  proof (cases r)
    case (Inl e)
    with ap have "book_moves {} (shown_codes outs) (hub_book h) b"
      using approve_Err book_moves_refl book_moves_ops(3) by blast
    with False ap Inl assms show ?thesis by (auto simp: approve_request_def intro: book_only_book)
  next
    case (Inr w)
    with ap have "w = new_code env" by (auto simp: approve_def split: option.splits if_splits)
    with False ap Inr assms have "{(Some rid, new_code env)} \<subseteq> shown_codes outs"
      by (auto simp: approve_request_def shown_codes_def)
    moreover have "book_moves {} {(Some rid, new_code env)} (hub_book h) b"
      using book_moves_ops(2) [of "{}" rid "new_code env" "hub_book h" "instant env"] ap by simp
    ultimately have "book_moves {} (shown_codes outs) (hub_book h) b" by (rule book_moves_weaken [rotated 2]) simp
    with False ap Inr assms show ?thesis by (auto simp: approve_request_def intro: book_only_book)
  qed
qed

lemma deny_request_effect: "deny_request rid h = (h', outs) \<Longrightarrow> book_only I C h h'"
  using book_moves_ops(3) [of I C "hub_book h" rid]
  by (cases "deny rid (hub_book h)") (auto simp: deny_request_def split: if_splits intro: book_only_book book_only_waiters)

lemma handle_owner_effect:
  assumes "handle_owner env local msg h = (h', outs)" and "\<not> cuts_device msg"
  shows "book_only {} (shown_codes outs) h h'"
proof (cases "local \<and> msg \<noteq> PairingStep")
  case True
  show ?thesis
  proof (cases msg)
    case (ApproveDevice rid)
    with True assms show ?thesis by (simp add: handle_owner_def approve_request_effect)
  next
    case (DenyDevice rid)
    with True assms show ?thesis by (simp add: handle_owner_def deny_request_effect)
  next
    case MintDevicePairCode
    obtain w b where m: "mint_cli_code (instant env) (new_code env) (hub_book h) = (w, b)"
      by (cases "mint_cli_code (instant env) (new_code env) (hub_book h)") auto
    then have "w = new_code env" by (auto simp: mint_cli_code_def Let_def)
    with MintDevicePairCode True assms m have "shown_codes outs = {(None, new_code env)}" "h' = h\<lparr>hub_book := b\<rparr>"
      by (auto simp: handle_owner_def shown_codes_def)
    moreover have "book_moves {} {(None, new_code env)} (hub_book h) b"
      using book_moves_ops(5) [of "{}" "new_code env" "hub_book h" "instant env"] m by simp
    ultimately show ?thesis by (simp add: book_only_book)
  qed (use True assms in \<open>auto simp: handle_owner_def book_only_refl\<close>)
qed (use assms in \<open>auto simp: handle_owner_def book_only_refl split: if_splits\<close>)

section \<open>Served devices and subscriptions\<close>

text \<open>The device a holder of the live registry's lock is about to cut.\<close>

definition leaving :: "LiveLock \<Rightarrow> string set" where
  "leaving l = (case l of Free \<Rightarrow> {} | Cutting dev \<Rightarrow> {dev})"

lemma leaving_simps [simp]: "leaving Free = {}" "leaving (Cutting dev) = {dev}"
  by (simp_all add: leaving_def)

definition devices_ok :: "string set \<Rightarrow> DeviceStore \<Rightarrow> bool" where
  "devices_ok used st \<longleftrightarrow>
     store_wf (devices st) \<and> dev_id ` set (devices st) \<subseteq> used \<and>
     (\<forall>ds. devices_file st = Decoded ds \<longrightarrow> store_wf ds \<and> dev_id ` set ds \<subseteq> used)"

definition live_ok :: "string set \<Rightarrow> DeviceStore \<Rightarrow> LiveRegistry \<Rightarrow> bool" where
  "live_ok out st reg \<longleftrightarrow> (\<forall>dev. by_device reg dev \<noteq> None \<longrightarrow> dev \<in> approved_ids st \<union> out)"

definition registered :: "LiveRegistry \<Rightarrow> string \<Rightarrow> nat \<Rightarrow> nat \<Rightarrow> bool" where
  "registered reg dev key c \<longleftrightarrow> (\<exists>cs. by_device reg dev = Some cs \<and> (key, c) \<in> set cs)"

text \<open>A served connection is registered under its own key until its device is cut.\<close>

definition conns_ok :: "(nat \<Rightarrow> ConnState option) \<Rightarrow> Hub \<Rightarrow> bool" where
  "conns_ok conns h \<longleftrightarrow>
     (\<forall>c p dev key. conns c = Some (ServedAs p dev key) \<longrightarrow>
        key < next_key (hub_live h) \<and> (c \<in> hub_cancelled h \<or> registered (hub_live h) dev key c)) \<and>
     (\<forall>c p c' p' dev dev' key. conns c = Some (ServedAs p dev key) \<longrightarrow> conns c' = Some (ServedAs p' dev' key) \<longrightarrow> c = c')"

definition push_ok :: "string set \<Rightarrow> DeviceStore \<Rightarrow> PushState \<Rightarrow> bool" where
  "push_ok out st ps \<longleftrightarrow> synced ps \<and> (\<not> corrupt st \<longrightarrow> subs_of ps \<subseteq> approved_ids st \<union> out)"

definition door_ok :: "Door \<Rightarrow> bool" where
  "door_ok s \<longleftrightarrow> (let h = door_hub s; out = leaving (live_lock s) in
     devices_ok (used_ids s) (hub_devices h) \<and> live_ok out (hub_devices h) (hub_live h) \<and>
     conns_ok (door_conns s) h \<and> push_ok out (hub_devices h) (hub_push h))"

text \<open>The store's operations keep its file in step.\<close>

lemma store_file_cases:
  "devices_file (snd (touch_device ok i now st)) = devices_file st \<or>
     devices_file (snd (touch_device ok i now st)) = Decoded (devices (snd (touch_device ok i now st)))"
  "devices_file (snd (revoke ok i st)) = devices_file st \<or>
     devices_file (snd (revoke ok i st)) = Decoded (devices (snd (revoke ok i st)))"
  "devices_file (snd (forget ok i st)) = devices_file st \<or>
     devices_file (snd (forget ok i st)) = Decoded (devices (snd (forget ok i st)))"
  "devices_file (snd (issue sha ok p i t now st)) = devices_file st \<or>
     devices_file (snd (issue sha ok p i t now st)) = Decoded (devices (snd (issue sha ok p i t now st)))"
  by (auto simp: touch_device_def revoke_def forget_def issue_def write_atomic_def Let_def split: option.splits)

lemma on_device_ids:
  "on_device i f ds = Some ds' \<Longrightarrow> (\<And>r. dev_id (f r) = dev_id r) \<Longrightarrow> dev_id ` set ds' = dev_id ` set ds"
proof -
  assume "on_device i f ds = Some ds'" and f: "\<And>r. dev_id (f r) = dev_id r"
  then have "map dev_id ds' = map dev_id ds" by (induction ds arbitrary: ds') (auto split: if_splits)
  then show ?thesis by (metis list.set_map)
qed

lemma store_ids:
  "dev_id ` set (devices (snd (touch_device ok i now st))) = dev_id ` set (devices st)"
  "dev_id ` set (devices (snd (revoke ok i st))) = dev_id ` set (devices st)"
  "dev_id ` set (devices (snd (forget ok i st))) \<subseteq> dev_id ` set (devices st)"
  "dev_id ` set (devices (snd (issue sha ok p j t now st))) \<subseteq> insert j (dev_id ` set (devices st))"
  by (auto simp: touch_device_def revoke_def forget_def issue_def Let_def on_device_ids split: option.splits)

lemma devices_okI:
  assumes "devices_ok used st" and "store_wf (devices st')" and "dev_id ` set (devices st') \<subseteq> used'"
    and "used \<subseteq> used'" and "devices_file st' = devices_file st \<or> devices_file st' = Decoded (devices st')"
  shows "devices_ok used' st'"
proof -
  have "store_wf ds \<and> dev_id ` set ds \<subseteq> used'" if "devices_file st' = Decoded ds" for ds
    using assms that unfolding devices_ok_def by (metis order_trans stored.inject)
  with assms(2,3) show ?thesis by (simp add: devices_ok_def)
qed

lemma devices_ok_ops:
  assumes "devices_ok used st"
  shows "devices_ok used (snd (touch_device ok i now st))" "devices_ok used (snd (revoke ok i st))"
    "devices_ok used (snd (forget ok i st))"
    "j \<notin> used \<Longrightarrow> devices_ok (insert j used) (snd (issue sha ok p j t now st))"
proof -
  have st: "store_wf (devices st)" "dev_id ` set (devices st) \<subseteq> used" using assms by (auto simp: devices_ok_def)
  show "devices_ok used (snd (touch_device ok i now st))"
    by (rule devices_okI [OF assms touch_device_effect(1) [OF st(1)] _ order_refl store_file_cases(1)])
      (simp add: store_ids st(2))
  show "devices_ok used (snd (revoke ok i st))"
    by (rule devices_okI [OF assms revoke_effect(1) [OF st(1)] _ order_refl store_file_cases(2)])
      (simp add: store_ids st(2))
  show "devices_ok used (snd (forget ok i st))"
    by (rule devices_okI [OF assms forget_effect(1) [OF st(1)] order_trans [OF store_ids(3) st(2)] order_refl store_file_cases(3)])
  show "devices_ok (insert j used) (snd (issue sha ok p j t now st))" if "j \<notin> used"
  proof (rule devices_okI [OF assms issue_effect(1) [OF st(1)] _ subset_insertI store_file_cases(4)])
    show "j \<notin> dev_id ` set (devices st)" using that st(2) by auto
    show "dev_id ` set (devices (snd (issue sha ok p j t now st))) \<subseteq> insert j used"
      using store_ids(4) st(2) by (meson insert_mono order_trans)
  qed
qed

lemma live_ok_mono: "live_ok out st reg \<Longrightarrow> approved_ids st \<union> out \<subseteq> approved_ids st' \<union> out' \<Longrightarrow> live_ok out' st' reg"
  unfolding live_ok_def by blast

lemma push_ok_mono:
  "push_ok out st ps \<Longrightarrow> corrupt st' = corrupt st \<Longrightarrow> approved_ids st \<union> out \<subseteq> approved_ids st' \<union> out' \<Longrightarrow> push_ok out' st' ps"
  unfolding push_ok_def by auto

lemma registered_register:
  "registered reg dev key c \<Longrightarrow> registered (snd (register d c' reg)) dev key c"
  "registered (snd (register d c' reg)) d (fst (register d c' reg)) c'"
  "next_key (snd (register d c' reg)) = Suc (next_key reg)" "fst (register d c' reg) = next_key reg"
  by (auto simp: registered_def register_def Let_def split: option.splits)

lemma registered_cut:
  "registered reg dev key c \<Longrightarrow> c \<in> set (fst (cut d reg)) \<or> registered (snd (cut d reg)) dev key c"
  "next_key (snd (cut d reg)) = next_key reg" "by_device (snd (cut d reg)) = (by_device reg)(d := None)"
  by (auto simp: registered_def cut_def image_iff split: option.splits) (metis option.inject snd_conv)

lemma registered_drop:
  "registered reg dev key c \<Longrightarrow> key \<noteq> k \<Longrightarrow> registered (drop_connection d k reg) dev key c"
  "next_key (drop_connection d k reg) = next_key reg"
  "by_device (drop_connection d k reg) dev \<noteq> None \<Longrightarrow> by_device reg dev \<noteq> None"
  by (auto simp: registered_def drop_connection_def Let_def filter_empty_conv split: option.splits if_splits) force

lemma devices_ok_mono: "devices_ok used st \<Longrightarrow> used \<subseteq> used' \<Longrightarrow> devices_ok used' st"
  unfolding devices_ok_def by (meson order_trans)

text \<open>The served connections of one state are among those of another.\<close>

definition served_within :: "(nat \<Rightarrow> ConnState option) \<Rightarrow> (nat \<Rightarrow> ConnState option) \<Rightarrow> bool" where
  "served_within conns' conns \<longleftrightarrow> (\<forall>c p dev key. conns' c = Some (ServedAs p dev key) \<longrightarrow> conns c = Some (ServedAs p dev key))"

lemma served_within_simps [simp]:
  "served_within conns conns"
  "served_within (conns(c \<mapsto> PairingOn pc t)) conns"
  "served_within (conns(c := None)) conns"
  "served_within (\<lambda>_. None) conns"
  by (simp_all add: served_within_def)

lemma conns_okI:
  assumes "conns_ok conns h" and "served_within conns' conns" and "next_key (hub_live h) \<le> next_key (hub_live h')"
    and "\<And>c p dev key. conns' c = Some (ServedAs p dev key) \<Longrightarrow> c \<in> hub_cancelled h \<or> registered (hub_live h) dev key c \<Longrightarrow>
      c \<in> hub_cancelled h' \<or> registered (hub_live h') dev key c"
  shows "conns_ok conns' h'"
  using assms unfolding conns_ok_def served_within_def by (meson less_le_trans)

lemma door_ok_book:
  assumes "door_ok s" and "book_only I C (door_hub s) (door_hub s')" and "served_within (door_conns s') (door_conns s)"
    and "live_lock s' = live_lock s" and "used_ids s \<subseteq> used_ids s'"
  shows "door_ok s'"
proof -
  have "conns_ok (door_conns s') (door_hub s')"
    by (rule conns_okI [of "door_conns s" "door_hub s"]) (use assms(1-3) in \<open>auto simp: door_ok_def book_only_def Let_def\<close>)
  with assms show ?thesis by (auto simp: door_ok_def book_only_def Let_def intro: devices_ok_mono)
qed

lemma conns_ok_register:
  assumes ok: "conns_ok conns h"
    and h': "hub_live h' = snd (register d c (hub_live h))" "hub_cancelled h' = hub_cancelled h"
  shows "conns_ok (conns(c \<mapsto> ServedAs p d (next_key (hub_live h)))) h'"
proof -
  let ?new = "conns(c \<mapsto> ServedAs p d (next_key (hub_live h)))"
  have old: "key < next_key (hub_live h)" "x \<in> hub_cancelled h \<or> registered (hub_live h) dev key x"
    if "conns x = Some (ServedAs q dev key)" for x q dev key
    using ok that unfolding conns_ok_def by blast+
  have "key < next_key (hub_live h') \<and> (x \<in> hub_cancelled h' \<or> registered (hub_live h') dev key x)"
    if "?new x = Some (ServedAs q dev key)" for x q dev key
  proof (cases "x = c")
    case True
    with that show ?thesis
      using registered_register(2-4) [where reg = "hub_live h" and d = d and c' = c] by (simp add: h')
  next
    case False
    with that old [of x q dev key] show ?thesis
      using registered_register(1,3) [where reg = "hub_live h" and d = d and c' = c] by (auto simp: h')
  qed
  moreover have "x = y" if "?new x = Some (ServedAs q dev key)" "?new y = Some (ServedAs q' dev' key)" for x q y q' dev dev' key
  proof (cases "x = c \<or> y = c")
    case True
    with that old(1) show ?thesis by (fastforce split: if_splits)
  next
    case False
    with that ok show ?thesis unfolding conns_ok_def by (metis fun_upd_other)
  qed
  ultimately show ?thesis unfolding conns_ok_def by blast
qed

lemma serve_device_ok:
  assumes ok: "door_ok s" and free: "live_lock s = Free" and c: "door_conns s c = None" "c \<notin> hub_cancelled (door_hub s)"
    and auth: "authorize_device env p token c (door_hub s) = (Some (dev, key), h)"
  shows "door_ok (s\<lparr>door_hub := h, door_conns := (door_conns s)(c \<mapsto> ServedAs p dev key)\<rparr>)"
proof -
  let ?h = "door_hub s"
  obtain r where r: "verify (sha256 env) (hub_devices ?h) (peer_stable_id p) token = Some r"
    using auth by (auto simp: authorize_device_def split: option.splits)
  let ?devs = "snd (touch_device (write_ok env) (dev_id r) (utc env) (hub_devices ?h))"
  let ?reg = "register (dev_id r) c (hub_live ?h)"
  have h: "h = ?h\<lparr>hub_devices := ?devs, hub_live := snd ?reg\<rparr>" "dev = dev_id r" "key = fst ?reg"
    using auth r by (auto simp: authorize_device_def split_def Let_def)
  have wf: "store_wf (devices (hub_devices ?h))" using ok by (simp add: door_ok_def Let_def devices_ok_def)
  note eff = touch_device_effect [OF wf, of "write_ok env" "dev_id r" "utc env"]
  have "live_ok {} ?devs (snd ?reg)"
    using ok free verify_approved [OF r] eff(2)
    by (auto simp: door_ok_def Let_def live_ok_def register_def)
  moreover have "conns_ok ((door_conns s)(c \<mapsto> ServedAs p dev key)) h"
    unfolding h(3) registered_register(4)
    by (rule conns_ok_register) (use ok in \<open>simp_all add: door_ok_def Let_def h(1,2)\<close>)
  ultimately show ?thesis
    using ok free eff devices_ok_ops(1) [of "used_ids s" "hub_devices ?h"]
    by (auto simp: door_ok_def Let_def h(1) intro: push_ok_mono)
qed

lemma store_changed_ok:
  assumes ok: "door_ok s" and free: "live_lock s = Free" and devs: "devices_ok used devs" "used_ids s \<subseteq> used"
    and same: "corrupt devs = corrupt (hub_devices (door_hub s))"
    and within: "approved_ids (hub_devices (door_hub s)) \<subseteq> approved_ids devs \<union> leaving l"
    and conns: "served_within conns (door_conns s)"
  shows "door_ok (s\<lparr>door_hub := (door_hub s)\<lparr>hub_devices := devs\<rparr>, door_conns := conns, live_lock := l, used_ids := used\<rparr>)"
proof -
  have "conns_ok conns ((door_hub s)\<lparr>hub_devices := devs\<rparr>)"
    by (rule conns_okI [of "door_conns s" "door_hub s"]) (use ok conns in \<open>auto simp: door_ok_def Let_def\<close>)
  with ok free devs same within show ?thesis
    by (auto simp: door_ok_def Let_def intro: live_ok_mono push_ok_mono)
qed

lemma issued_ok:
  assumes ok: "door_ok s" and free: "live_lock s = Free" and fresh: "new_uuid env \<notin> used_ids s"
    and iss: "issue_store env pc (door_hub s) = (replaced, h, outs)" and conns: "served_within conns (door_conns s)"
  shows "door_ok (s\<lparr>door_hub := h, door_conns := conns,
    live_lock := (case replaced of Some dev \<Rightarrow> Cutting dev | None \<Rightarrow> Free), used_ids := insert (new_uuid env) (used_ids s)\<rparr>)"
proof -
  let ?st = "hub_devices (door_hub s)"
  let ?i = "issue (sha256 env) (write_ok env) (peer pc) (new_uuid env) (new_token env) (utc env) ?st"
  have st: "devices_ok (used_ids s) ?st" using ok by (simp add: door_ok_def Let_def)
  then have wf: "store_wf (devices ?st)" "new_uuid env \<notin> dev_id ` set (devices ?st)"
    using fresh by (auto simp: devices_ok_def)
  note eff = issue_effect [OF wf, of "sha256 env" "write_ok env" "peer pc" "new_token env" "utc env"]
  let ?found = "List.find (\<lambda>r. dev_stable_id r = peer_stable_id (peer pc)) (devices ?st)"
  have h: "h = (door_hub s)\<lparr>hub_devices := snd ?i\<rparr>" "replaced = (if isl (fst ?i) then None else map_option dev_id ?found)"
    using iss by (auto simp: issue_store_def Let_def split_def)
  have "dev_id ` {r \<in> set (devices ?st). dev_stable_id r = peer_stable_id (peer pc)} = set_option (map_option dev_id ?found)"
  proof (cases ?found)
    case None
    then have "{r \<in> set (devices ?st). dev_stable_id r = peer_stable_id (peer pc)} = {}"
      unfolding find_None_iff by blast
    with None show ?thesis by simp
  next
    case (Some r)
    then have "{r' \<in> set (devices ?st). dev_stable_id r' = peer_stable_id (peer pc)} = {r}"
      using wf(1) find_key [of dev_stable_id "devices ?st" "peer_stable_id (peer pc)" r]
      by (auto simp: store_wf_def distinct_map inj_on_def)
    with Some show ?thesis by simp
  qed
  with eff(3) have "approved_ids ?st \<subseteq> approved_ids (snd ?i) \<union> leaving (case replaced of Some dev \<Rightarrow> Cutting dev | None \<Rightarrow> Free)"
    unfolding h(2) by (auto split: if_splits option.splits)
  with store_changed_ok [OF ok free devices_ok_ops(4) [OF st fresh] subset_insertI eff(2) _ conns] show ?thesis
    unfolding h(1) by blast
qed

lemma cutting_ok:
  assumes ok: "door_ok s" and lock: "live_lock s = Cutting dev"
  shows "door_ok (s\<lparr>door_hub := cut_device k dev (door_hub s), live_lock := Free\<rparr>)"
proof -
  let ?h = "door_hub s"
  have cut: "cut_device k dev ?h = ?h\<lparr>hub_live := snd (cut dev (hub_live ?h)),
      hub_cancelled := hub_cancelled ?h \<union> set (fst (cut dev (hub_live ?h))), hub_push := remove_device k dev (hub_push ?h)\<rparr>"
    by (simp add: cut_device_def split_def Let_def)
  have "conns_ok (door_conns s) (cut_device k dev ?h)"
    by (rule conns_okI [of "door_conns s" ?h]) (use ok registered_cut [where reg = "hub_live ?h"] in \<open>auto simp: door_ok_def Let_def cut\<close>)
  moreover have "live_ok {} (hub_devices ?h) (snd (cut dev (hub_live ?h)))"
    using ok lock by (auto simp: door_ok_def Let_def live_ok_def registered_cut)
  moreover have "push_ok {} (hub_devices ?h) (remove_device k dev (hub_push ?h))"
    using ok lock remove_device_effect [where ps = "hub_push ?h" and ok = k and dev = dev] by (auto simp: door_ok_def Let_def push_ok_def)
  ultimately show ?thesis using ok by (simp add: door_ok_def Let_def cut)
qed

lemma push_changed_ok:
  assumes "door_ok s" and "push_ok (leaving (live_lock s)) (hub_devices (door_hub s)) ps"
  shows "door_ok (s\<lparr>door_hub := (door_hub s)\<lparr>hub_push := ps\<rparr>\<rparr>)"
proof -
  have "conns_ok (door_conns s) ((door_hub s)\<lparr>hub_push := ps\<rparr>)"
    by (rule conns_okI [of "door_conns s" "door_hub s"]) (use assms(1) in \<open>auto simp: door_ok_def Let_def\<close>)
  with assms show ?thesis by (simp add: door_ok_def Let_def)
qed

lemma push_round_ok:
  "push_ok out st ps \<Longrightarrow> push_ok out st (fold (\<lambda>(ok, dev, e). remove_device_if_endpoint ok dev e) doomed ps)"
proof (induction doomed arbitrary: ps)
  case (Cons x doomed)
  obtain ok dev e where x: "x = (ok, dev, e)" by (cases x) auto
  have "push_ok out st (remove_device_if_endpoint ok dev e ps)"
    using Cons.prems remove_device_if_endpoint_effect [where ps = ps and ok = ok and dev = dev and e = e] by (auto simp: push_ok_def)
  from Cons.IH [OF this] show ?case by (simp add: x)
qed simp

lemma restarted_ok:
  assumes "door_ok s"
  shows "door_ok (s\<lparr>door_hub := restarted (door_hub s), door_conns := (\<lambda>_. None), door_queue := q, live_lock := Free\<rparr>)"
proof -
  have "devices_ok (used_ids s) (load_devices (devices_file (hub_devices (door_hub s))))"
    using assms by (cases "devices_file (hub_devices (door_hub s))") (simp_all add: door_ok_def Let_def devices_ok_def store_wf_def)
  then show ?thesis
    by (auto simp: door_ok_def Let_def restarted_def live_ok_def conns_ok_def push_ok_def subs_of_def synced_def)
qed

lemma served_ended_ok:
  assumes ok: "door_ok s" and c: "door_conns s c = Some (ServedAs p dev key)"
  shows "door_ok (s\<lparr>door_hub := (door_hub s)\<lparr>hub_live := drop_connection dev key (hub_live (door_hub s))\<rparr>,
    door_conns := (door_conns s)(c := None)\<rparr>)"
proof -
  let ?h = "door_hub s" and ?reg = "drop_connection dev key (hub_live (door_hub s))"
  have conns: "conns_ok (door_conns s) ?h" using ok by (simp add: door_ok_def Let_def)
  have "conns_ok ((door_conns s)(c := None)) (?h\<lparr>hub_live := ?reg\<rparr>)"
  proof (rule conns_okI [OF conns])
    fix x q d k
    assume x: "((door_conns s)(c := None)) x = Some (ServedAs q d k)"
      and reg: "x \<in> hub_cancelled ?h \<or> registered (hub_live ?h) d k x"
    from x c conns have "k \<noteq> key" unfolding conns_ok_def by (metis fun_upd_apply option.distinct(1))
    with reg show "x \<in> hub_cancelled (?h\<lparr>hub_live := ?reg\<rparr>) \<or> registered (hub_live (?h\<lparr>hub_live := ?reg\<rparr>)) d k x"
      using registered_drop(1) by auto
  qed (simp_all add: registered_drop)
  moreover have "live_ok (leaving (live_lock s)) (hub_devices ?h) ?reg"
    using ok registered_drop(3) unfolding door_ok_def Let_def live_ok_def by metis
  ultimately show ?thesis using ok by (simp add: door_ok_def Let_def)
qed

lemma door_step_ok:
  assumes "door_step penv s s'" and ok: "door_ok s"
  shows "door_ok s'"
  using assms(1)
proof cases
  case (serve_device c env p token dev key h)
  then show ?thesis using serve_device_ok [OF ok] by simp
next
  case (pair_device c env p token h)
  then have "h = door_hub s" by (auto simp: authorize_device_def split: option.splits prod.splits)
  with pair_device(1) show ?thesis by (intro door_ok_book [OF ok, of "{}" "{}"]) (simp_all add: book_only_refl)
next
  case (frame c pc f env flow pc' h outs)
  then show ?thesis
    using on_frame_effect [of env f pc "door_hub s" flow pc' h outs]
    by (intro door_ok_book [OF ok, of "{new_uuid env}" "{}"]) auto
next
  case (redeem_stopped c pc rid flow outs)
  then show ?thesis by (intro door_ok_book [OF ok, of "{}" "{}"]) (simp_all add: book_only_refl)
next
  case (redeem_checked c pc rid presented)
  then show ?thesis by (intro door_ok_book [OF ok, of "{}" "{}"]) (simp_all add: book_only_refl)
next
  case (redeemed c pc rid presented now u pc' h outs)
  then show ?thesis by (intro door_ok_book [OF ok, of "{}" "{}"]) (auto dest: redeem_own_effect)
next
  case (redeem_lost c pc rid presented now e pc' h outs)
  then show ?thesis by (intro door_ok_book [OF ok, of "{}" "{}"]) (auto dest: redeem_own_effect)
next
  case (issued c pc rid presented env replaced h outs)
  then show ?thesis using issued_ok [OF ok] by simp
next
  case (blocking k dev r devs)
  have wf: "store_wf (devices (hub_devices (door_hub s)))" "devices_ok (used_ids s) (hub_devices (door_hub s))"
    using ok by (auto simp: door_ok_def Let_def devices_ok_def)
  show ?thesis
    using store_changed_ok [OF ok blocking(2) devices_ok_ops(2) [OF wf(2), of k dev] order_refl, of "Cutting dev" "door_conns s"]
      revoke_effect(2,3) [OF wf(1), of k dev] blocking(1,3) by auto
next
  case (forgetting k dev r devs)
  have wf: "store_wf (devices (hub_devices (door_hub s)))" "devices_ok (used_ids s) (hub_devices (door_hub s))"
    using ok by (auto simp: door_ok_def Let_def devices_ok_def)
  show ?thesis
    using store_changed_ok [OF ok forgetting(2) devices_ok_ops(3) [OF wf(2), of k dev] order_refl, of "Cutting dev" "door_conns s"]
      forget_effect(2,3) [OF wf(1), of k dev] forgetting(1,3) by auto
next
  case (cutting dev k)
  then show ?thesis using cutting_ok [OF ok] by simp
next
  case (told c pc m ms flow pc' outs)
  then show ?thesis by (intro door_ok_book [OF ok, of "{}" "{}"]) (simp_all add: book_only_refl)
next
  case (ticked c pc env flow pc' q h outs)
  then show ?thesis by (intro door_ok_book [OF ok, of "{}" "{}"]) (auto dest: on_tick_effect)
next
  case (torn_down c pc task h outs)
  then show ?thesis by (intro door_ok_book [OF ok, of "{}" "{}"]) (auto dest: teardown_effect)
next
  case (served_ended c p dev key)
  then show ?thesis using served_ended_ok [OF ok] by simp
next
  case (owner msg env local h outs)
  then show ?thesis by (intro door_ok_book [OF ok, of "{}" "shown_codes outs"]) (auto dest: handle_owner_effect)
next
  case (remote_switched on ids h outs)
  then have "book_only {} {} (door_hub s) (h\<lparr>remote_enabled := on\<rparr>)"
    using drop_all_effect [of ids "door_hub s" h outs "{}" "{}"] book_only_refl [of "{}" "{}" "door_hub s"]
    by (auto simp: book_only_def split: if_splits)
  with remote_switched(1) show ?thesis by (intro door_ok_book [OF ok, of "{}" "{}"]) simp_all
next
  case (push_request c p dev key d time msg r ps)
  have "push_ok (leaving (live_lock s)) (hub_devices (door_hub s)) ps"
    using ok push_request(3) serve_effect [where ps = "hub_push (door_hub s)" and env = penv and d = d and now = time and
        devs = "hub_devices (door_hub s)" and who = "Tailnet p" and msg = msg]
    by (auto simp: door_ok_def Let_def push_ok_def)
  then show ?thesis using push_changed_ok [OF ok] push_request(1) by simp
next
  case (push_round d r ps doomed)
  have "push_ok (leaving (live_lock s)) (hub_devices (door_hub s)) ps"
    using ok load_push_effect(1,3) [OF push_round(2)] by (auto simp: door_ok_def Let_def push_ok_def)
  then show ?thesis using push_changed_ok [OF ok push_round_ok] push_round(1) by simp
next
  case daemon_restarted
  then show ?thesis using restarted_ok [OF ok] by simp
qed

section \<open>Codes and the owner\<close>

text \<open>Every code the daemon would accept has been shown to the owner, and so has every code just redeemed.\<close>

definition codes_ok :: "Door \<Rightarrow> bool" where
  "codes_ok s \<longleftrightarrow>
     book_ok (hub_book (door_hub s)) \<and> req_id ` set (requests (hub_book (door_hub s))) \<subseteq> used_ids s \<and>
     book_codes (hub_book (door_hub s)) \<subseteq> owner_codes s \<and>
     (\<forall>c pc rid v. door_conns s c = Some (PairingOn pc (Redeeming rid v)) \<longrightarrow> own pc = Some rid) \<and>
     (\<forall>c pc rid v. door_conns s c = Some (PairingOn pc (Issuing rid v)) \<longrightarrow>
        own pc = Some rid \<and> ((Some rid, v) \<in> owner_codes s \<or> (None, v) \<in> owner_codes s))"

text \<open>A step that leaves the redeeming and issuing connections as they were, or fewer of them.\<close>

definition busy_within :: "(nat \<Rightarrow> ConnState option) \<Rightarrow> (nat \<Rightarrow> ConnState option) \<Rightarrow> bool" where
  "busy_within conns' conns \<longleftrightarrow>
     (\<forall>c pc t. conns' c = Some (PairingOn pc t) \<longrightarrow> t = Ready \<or> t = Closing \<or> conns c = Some (PairingOn pc t))"

lemma busy_within_simps [simp]:
  "busy_within conns conns" "busy_within (conns(c := None)) conns" "busy_within (\<lambda>_. None) conns"
  "busy_within (conns(c \<mapsto> ServedAs p dev key)) conns"
  "busy_within (conns(c \<mapsto> PairingOn pc Ready)) conns" "busy_within (conns(c \<mapsto> PairingOn pc Closing)) conns"
  "busy_within (conns(c \<mapsto> PairingOn pc (after_flow flow))) conns"
  by (auto simp: busy_within_def after_flow_def split: Flow.splits)

lemma redeeming_own: "codes_ok s \<Longrightarrow> door_conns s c = Some (PairingOn pc (Redeeming rid v)) \<Longrightarrow> own pc = Some rid"
  unfolding codes_ok_def by blast

lemma issuing_shown:
  "codes_ok s \<Longrightarrow> door_conns s c = Some (PairingOn pc (Issuing rid v)) \<Longrightarrow>
   own pc = Some rid \<and> ((Some rid, v) \<in> owner_codes s \<or> (None, v) \<in> owner_codes s)"
  unfolding codes_ok_def by blast

lemma codes_okI:
  assumes "codes_ok s" and "busy_within (door_conns s') (door_conns s)"
    and "book_moves I C (hub_book (door_hub s)) (hub_book (door_hub s'))"
    and "I \<inter> used_ids s = {}" and "used_ids s \<union> I \<subseteq> used_ids s'" and "owner_codes s \<union> C \<subseteq> owner_codes s'"
  shows "codes_ok s'"
proof -
  have old: "req_id ` set (requests (hub_book (door_hub s))) \<subseteq> used_ids s"
    "book_codes (hub_book (door_hub s)) \<subseteq> owner_codes s" "book_ok (hub_book (door_hub s))"
    using assms(1) by (simp_all add: codes_ok_def)
  then have "req_id ` set (requests (hub_book (door_hub s))) \<inter> I = {}" using assms(4) by blast
  with assms(3) old(3) have new: "book_ok (hub_book (door_hub s'))"
    "req_id ` set (requests (hub_book (door_hub s'))) \<subseteq> req_id ` set (requests (hub_book (door_hub s))) \<union> I"
    "book_codes (hub_book (door_hub s')) \<subseteq> book_codes (hub_book (door_hub s)) \<union> C"
    by (simp_all add: book_moves_def)
  have busy: "door_conns s c = Some (PairingOn pc t)"
    if "door_conns s' c = Some (PairingOn pc t)" "t \<noteq> Ready" "t \<noteq> Closing" for c pc t
    using assms(2) that by (auto simp: busy_within_def)
  have "own pc = Some rid" if "door_conns s' c = Some (PairingOn pc (Redeeming rid v))" for c pc rid v
    using redeeming_own [OF assms(1) busy [OF that]] by simp
  moreover have "own pc = Some rid \<and> ((Some rid, v) \<in> owner_codes s' \<or> (None, v) \<in> owner_codes s')"
    if "door_conns s' c = Some (PairingOn pc (Issuing rid v))" for c pc rid v
    using issuing_shown [OF assms(1) busy [OF that]] assms(6) by auto
  moreover have "req_id ` set (requests (hub_book (door_hub s'))) \<subseteq> used_ids s'"
    using new(2) old(1) assms(5) by blast
  moreover have "book_codes (hub_book (door_hub s')) \<subseteq> owner_codes s'"
    using new(3) old(2) assms(6) by blast
  ultimately show ?thesis using new(1) by (simp add: codes_ok_def)
qed

lemma codes_ok_issuing:
  assumes "codes_ok s" and "own pc = Some rid" and "(Some rid, v) \<in> owner_codes s \<or> (None, v) \<in> owner_codes s"
  shows "codes_ok (s\<lparr>door_conns := (door_conns s)(c \<mapsto> PairingOn pc (Issuing rid v))\<rparr>)"
proof -
  have "book_ok (hub_book (door_hub s)) \<and> req_id ` set (requests (hub_book (door_hub s))) \<subseteq> used_ids s \<and>
     book_codes (hub_book (door_hub s)) \<subseteq> owner_codes s"
    using assms(1) by (simp add: codes_ok_def)
  then show ?thesis
    using assms(2,3) redeeming_own [OF assms(1)] issuing_shown [OF assms(1)] by (auto simp: codes_ok_def)
qed

lemma book_only_moves: "book_only I C h h' \<Longrightarrow> book_moves I C (hub_book h) (hub_book h')"
  by (simp add: book_only_def)

lemma door_step_codes:
  assumes "door_step penv s s'" and ok: "codes_ok s"
  shows "codes_ok s'"
  using assms(1)
proof cases
  case (serve_device c env p token dev key h)
  then have "hub_book h = hub_book (door_hub s)"
    by (auto simp: authorize_device_def Let_def split: option.splits prod.splits)
  with serve_device(1) show ?thesis by (intro codes_okI [OF ok, of _ "{}" "{}"]) (simp_all add: book_moves_refl)
next
  case (pair_device c env p token h)
  then have "h = door_hub s" by (auto simp: authorize_device_def split: option.splits prod.splits)
  with pair_device(1) show ?thesis by (intro codes_okI [OF ok, of _ "{}" "{}"]) (simp_all add: book_moves_refl)
next
  case (frame c pc f env flow pc' h outs)
  then show ?thesis
    using on_frame_effect [of env f pc "door_hub s" flow pc' h outs]
    by (intro codes_okI [OF ok, of _ "{new_uuid env}" "{}"]) (auto intro: book_only_moves)
next
  case (redeem_stopped c pc rid flow outs)
  then show ?thesis by (intro codes_okI [OF ok, of _ "{}" "{}"]) (simp_all add: book_moves_refl)
next
  case (redeem_checked c pc rid presented)
  then have "own pc = Some rid" by (simp add: redeem_refused_def split: if_splits)
  with ok redeem_checked(1) show ?thesis by (auto simp: codes_ok_def)
next
  case (redeemed c pc rid presented now u pc' h outs)
  have "codes_ok (s\<lparr>door_hub := h\<rparr>)"
    using redeemed(3) by (intro codes_okI [OF ok, of _ "{}" "{}"]) (auto dest: redeem_own_effect intro: book_only_moves)
  moreover have "own pc' = Some rid"
    using redeeming_own [OF ok redeemed(2)] redeem_own_effect(4) [OF redeemed(3)] by simp
  moreover have "(Some rid, presented) \<in> owner_codes s \<or> (None, presented) \<in> owner_codes s"
    using ok redeem_own_Ok [OF redeemed(3)] by (auto simp: codes_ok_def)
  ultimately show ?thesis
    using codes_ok_issuing [of "s\<lparr>door_hub := h\<rparr>" pc' rid presented c] redeemed(1) by simp
next
  case (redeem_lost c pc rid presented now e pc' h outs)
  then show ?thesis
    by (intro codes_okI [OF ok, of _ "{}" "{}"]) (auto dest: redeem_own_effect intro: book_only_moves)
next
  case (issued c pc rid presented env replaced h outs)
  then have "hub_book h = hub_book (door_hub s)" by (auto simp: issue_store_def Let_def split_def)
  with issued(1) show ?thesis by (intro codes_okI [OF ok, of _ "{}" "{}"]) (auto simp: book_moves_refl)
next
  case (cutting dev k)
  then show ?thesis by (intro codes_okI [OF ok, of _ "{}" "{}"]) (simp_all add: book_moves_refl cut_device_def split_def Let_def)
next
  case (ticked c pc env flow pc' q h outs)
  then show ?thesis by (intro codes_okI [OF ok, of _ "{}" "{}"]) (auto dest: on_tick_effect intro: book_only_moves)
next
  case (torn_down c pc task h outs)
  then show ?thesis by (intro codes_okI [OF ok, of _ "{}" "{}"]) (auto dest: teardown_effect intro: book_only_moves)
next
  case (owner msg env local h outs)
  then show ?thesis
    by (intro codes_okI [OF ok, of _ "{}" "shown_codes outs"]) (auto dest: handle_owner_effect intro: book_only_moves)
next
  case (remote_switched on ids h outs)
  then have "book_moves {} {} (hub_book (door_hub s)) (hub_book h)"
    using drop_all_effect [of ids "door_hub s" h outs "{}" "{}"] book_moves_refl [of "{}" "{}" "hub_book (door_hub s)"]
    by (auto simp: book_only_def split: if_splits)
  with remote_switched(1) show ?thesis by (intro codes_okI [OF ok, of _ "{}" "{}"]) simp_all
next
  case daemon_restarted
  then show ?thesis by (intro codes_okI [OF ok, of _ "{}" "{}"]) (simp_all add: restarted_def book_moves_new)
qed (use ok in \<open>auto intro!: codes_okI [OF ok, of _ "{}" "{}"] simp: book_moves_refl\<close>)

section \<open>Reachable states\<close>

text \<open>A daemon that has just started on well-formed files, or on files it cannot read.\<close>

definition door_started :: "Door \<Rightarrow> bool" where
  "door_started s \<longleftrightarrow> (\<exists>f ps on.
     door_hub s = restarted \<lparr>hub_devices = load_devices f, hub_book = new_book, hub_waiters = (\<lambda>_. None),
       hub_live = \<lparr>next_key = 0, by_device = (\<lambda>_. None)\<rparr>, hub_cancelled = {}, hub_push = ps, remote_enabled = on\<rparr> \<and>
     devices_ok (used_ids s) (load_devices f)) \<and>
     door_conns s = (\<lambda>_. None) \<and> live_lock s = Free"

lemma load_devices_file: "devices_file (load_devices f) = f"
  by (cases f) simp_all

lemma door_started_ok: "door_started s \<Longrightarrow> door_ok s \<and> codes_ok s"
  by (auto simp: door_started_def door_ok_def codes_ok_def restarted_def Let_def live_ok_def conns_ok_def push_ok_def
      subs_of_def synced_def new_book_ok load_devices_file) (simp_all add: new_book_def book_codes_def)

lemma door_reachable:
  assumes "(door_step penv)\<^sup>*\<^sup>* s0 s" and "door_started s0"
  shows "door_ok s" "codes_ok s"
proof -
  have "door_ok s \<and> codes_ok s"
    using assms by (induction rule: rtranclp_induct) (auto dest: door_started_ok door_step_ok door_step_codes)
  then show "door_ok s" "codes_ok s" by simp_all
qed

end
