(* ===== verification/Door_Properties.thy ===== *)
theory Door_Properties
  imports Door
begin

text \<open>What the door promises: who is served, who gets a token, how many guesses a code survives, and whose subscriptions are kept.\<close>

section \<open>Demonstration inputs\<close>

definition demo_peer :: PeerIdentity where
  "demo_peer = \<lparr>peer_stable_id = ''n1'', peer_name = ''phone'', peer_user_id = 1, peer_login = ''owner''\<rparr>"

definition demo_device :: DeviceRecord where
  "demo_device = \<lparr>dev_id = ''d1'', dev_stable_id = ''n1'', dev_name = ''phone'', dev_login = ''owner'',
     token_sha256 = digest_hex (\<lambda>t. t) ''tok'', dev_created_at = 0, dev_last_seen = None, revoked = False\<rparr>"

definition demo_sub :: Subscription where
  "demo_sub = \<lparr>sub_kind = ''web_push'', endpoint = ''e'', p256dh = ''k'', auth = ''a'', sub_needs_you = True,
     sub_finished = False, sub_created_at = ''now''\<rparr>"

definition demo_push :: PushState where
  "demo_push = \<lparr>push_dir = True, allow_loopback_http = False, loaded = None,
     subs_file = Decoded [(''d0'', demo_sub), (''d1'', demo_sub)]\<rparr>"

definition demo_start :: "DeviceRecord list \<Rightarrow> Door" where
  "demo_start ds = \<lparr>door_hub = restarted \<lparr>hub_devices = load_devices (Decoded ds), hub_book = new_book,
       hub_waiters = (\<lambda>_. None), hub_live = \<lparr>next_key = 0, by_device = (\<lambda>_. None)\<rparr>, hub_cancelled = {},
       hub_push = demo_push, remote_enabled = True\<rparr>,
     door_conns = (\<lambda>_. None), door_queue = (\<lambda>_. []), live_lock = Free, owner_codes = {},
     used_ids = dev_id ` set ds\<rparr>"

definition demo_env :: "string \<Rightarrow> DoorEnv" where
  "demo_env u = \<lparr>sha256 = (\<lambda>t. t), instant = 10, utc = 100, new_uuid = u, new_token = ''new'', new_code = ''123456'',
     write_ok = True, push_save_ok = True\<rparr>"

definition demo_penv :: PushEnv where
  "demo_penv = \<lparr>parse_url = (\<lambda>_. None), keys_decode = (\<lambda>_ _. False)\<rparr>"

definition demo_disk :: PushDisk where
  "demo_disk = \<lparr>folder_ok = True, key_read = Some ''key'', sweep_ok = True, save_ok = True\<rparr>"

lemmas demo_door_simps = demo_peer_def demo_device_def demo_push_def demo_start_def demo_env_def demo_disk_def

lemma demo_started: "store_wf ds \<Longrightarrow> door_started (demo_start ds)"
  unfolding door_started_def demo_start_def
  by (auto intro!: exI [of _ "Decoded ds"] exI [of _ demo_push] exI [of _ True] simp: devices_ok_def)

text \<open>A device connects with its token.\<close>

definition demo_served :: Door where
  "demo_served = (let s = demo_start [demo_device]; a = authorize_device (demo_env ''u'') demo_peer ''tok'' 7 (door_hub s) in
     s\<lparr>door_hub := snd a, door_conns := (door_conns s)(7 \<mapsto> ServedAs demo_peer ''d1'' 0)\<rparr>)"

lemma demo_verify: "verify (\<lambda>t. t) (load_devices (Decoded [demo_device])) ''n1'' ''tok'' = Some demo_device"
  by (simp add: verify_find demo_device_def)

lemma demo_authorize:
  "authorize_device (demo_env ''u'') demo_peer ''tok'' 7 (door_hub (demo_start [demo_device])) =
     (Some (''d1'', 0), snd (authorize_device (demo_env ''u'') demo_peer ''tok'' 7 (door_hub (demo_start [demo_device]))))"
  using demo_verify
  by (simp add: authorize_device_def demo_start_def demo_env_def demo_peer_def restarted_def register_def Let_def demo_device_def)

lemma demo_serve_step: "door_step demo_penv (demo_start [demo_device]) demo_served"
  unfolding demo_served_def Let_def
  by (rule door_step.serve_device [OF _ _ _ demo_authorize]) (simp_all add: demo_start_def restarted_def)

section \<open>Served connections\<close>

text \<open>
  C2: a connection is served only as an approved device. In every state the door can reach, while no
  task is in the middle of cutting a device, each tailnet connection that is served and not
  cancelled belongs to a device with an unblocked record in a readable store, and is listed in the
  live registry, so the next block of that device ends it. Steps interleave connections, redeems,
  re-issues, blocks, forgets, failing writes and restarts.
\<close>

theorem served_devices_approved:
  assumes "door_started s0" and "(door_step penv)\<^sup>*\<^sup>* s0 s" and "live_lock s = Free"
    and "door_conns s c = Some (ServedAs p dev key)" and "c \<notin> hub_cancelled (door_hub s)"
  shows "\<not> corrupt (hub_devices (door_hub s)) \<and>
    (\<exists>r \<in> set (devices (hub_devices (door_hub s))). dev_id r = dev \<and> \<not> revoked r) \<and>
    \<not> is_cut dev key (hub_live (door_hub s)) \<and> c \<in> set (fst (cut dev (hub_live (door_hub s))))"
proof -
  have ok: "door_ok s" by (rule door_reachable [OF assms(2,1)])
  then have "registered (hub_live (door_hub s)) dev key c"
    using assms(4,5) by (auto simp: door_ok_def Let_def conns_ok_def)
  then obtain cs where cs: "by_device (hub_live (door_hub s)) dev = Some cs" "(key, c) \<in> set cs"
    by (auto simp: registered_def)
  with ok assms(3) have "dev \<in> approved_ids (hub_devices (door_hub s))"
    by (auto simp: door_ok_def Let_def live_ok_def)
  with cs show ?thesis
    by (auto simp: approved_ids_def is_cut_def cut_def image_iff split: if_splits) force+
qed

theorem served_devices_approved_witness:
  "\<exists>r \<in> set (devices (hub_devices (door_hub demo_served))). dev_id r = ''d1'' \<and> \<not> revoked r"
proof -
  have "store_wf [demo_device]" by (simp add: store_wf_def)
  moreover have "live_lock demo_served = Free" "door_conns demo_served 7 = Some (ServedAs demo_peer ''d1'' 0)"
    by (simp_all add: demo_served_def Let_def demo_start_def)
  moreover have "7 \<notin> hub_cancelled (door_hub demo_served)"
    using demo_verify by (simp add: demo_served_def Let_def demo_start_def restarted_def authorize_device_def demo_env_def
        demo_peer_def split_def)
  ultimately show ?thesis
    using served_devices_approved [OF demo_started r_into_rtranclp [of "door_step demo_penv", OF demo_serve_step]] by blast
qed

section \<open>Tokens\<close>

text \<open>What each step does to the approved devices.\<close>

lemma step_approved:
  assumes "door_step penv s s'" and "door_ok s" and "i \<in> approved_ids (hub_devices (door_hub s')) - approved_ids (hub_devices (door_hub s))"
  shows "door_hub s' = restarted (door_hub s) \<or>
    (\<exists>c pc rid v r. door_conns s c = Some (PairingOn pc (Issuing rid v)) \<and> r \<in> set (devices (hub_devices (door_hub s'))) \<and>
       dev_id r = i \<and> dev_stable_id r = peer_stable_id (peer pc))"
proof -
  have wf: "store_wf (devices (hub_devices (door_hub s)))" "devices_ok (used_ids s) (hub_devices (door_hub s))"
    using assms(2) by (auto simp: door_ok_def Let_def devices_ok_def)
  have same: ?thesis if "book_only I C (door_hub s) (door_hub s')" for I C
    using that assms(3) by (simp add: book_only_def)
  from assms(1) show ?thesis
  proof cases
    case (serve_device c env p token dev key h)
    then have "approved_ids (hub_devices h) = approved_ids (hub_devices (door_hub s))"
      using touch_device_effect(2) [OF wf(1)] by (auto simp: authorize_device_def Let_def split_def split: option.splits)
    with serve_device(1) assms(3) show ?thesis by simp
  next
    case (pair_device c env p token h)
    then have "h = door_hub s" by (auto simp: authorize_device_def split: option.splits prod.splits)
    with pair_device(1) assms(3) show ?thesis by simp
  next
    case (frame c pc f env flow pc' h outs)
    then show ?thesis using on_frame_effect [of env f pc "door_hub s" flow pc' h outs] by (intro same) auto
  next
    case (redeemed c pc rid presented now u pc' h outs)
    then show ?thesis by (intro same) (auto dest: redeem_own_effect)
  next
    case (redeem_lost c pc rid presented now e pc' h outs)
    then show ?thesis by (intro same) (auto dest: redeem_own_effect)
  next
    case (issued c pc rid presented env replaced h outs)
    let ?i = "issue (sha256 env) (write_ok env) (peer pc) (new_uuid env) (new_token env) (utc env) (hub_devices (door_hub s))"
    have h: "hub_devices h = snd ?i" using issued(5) by (auto simp: issue_store_def Let_def split_def)
    have fresh: "new_uuid env \<notin> dev_id ` set (devices (hub_devices (door_hub s)))"
      using issued(4) wf(2) by (auto simp: devices_ok_def)
    from assms(3) issued(1) have "\<not> isl (fst ?i)" "i = new_uuid env"
      by (auto simp: h issue_effect(3) [OF wf(1) fresh] split: if_splits)
    then obtain w where w: "fst ?i = Ok w" by (cases "fst ?i") auto
    have "\<exists>r \<in> set (devices (snd ?i)). dev_id r = new_uuid env \<and> dev_stable_id r = peer_stable_id (peer pc)"
      by (subst issue_Ok(4) [OF w]) simp
    moreover have "hub_devices (door_hub s') = snd ?i" using issued(1) h by simp
    ultimately show ?thesis using issued(2) \<open>i = new_uuid env\<close> by metis
  next
    case (blocking k dev r devs)
    then show ?thesis using assms(3) revoke_effect(2) [OF wf(1), of k dev] by auto
  next
    case (forgetting k dev r devs)
    then show ?thesis using assms(3) forget_effect(2) [OF wf(1), of k dev] by auto
  next
    case (cutting dev k)
    then show ?thesis using assms(3) by (simp add: cut_device_def split_def Let_def)
  next
    case (ticked c pc env flow pc' q h outs)
    then show ?thesis by (intro same) (auto dest: on_tick_effect)
  next
    case (torn_down c pc task h outs)
    then show ?thesis by (intro same) (auto dest: teardown_effect)
  next
    case (owner msg env local h outs)
    then show ?thesis by (intro same) (auto dest: handle_owner_effect)
  next
    case (remote_switched on ids h outs)
    then have "hub_devices h = hub_devices (door_hub s)"
      using drop_all_effect [of ids "door_hub s" h outs "{}" "{}"] by (auto simp: book_only_def split: if_splits)
    with remote_switched(1) assms(3) show ?thesis by simp
  qed (use assms(3) in auto)
qed

text \<open>
  C6: no device gets in without the owner. If a step of the running daemon makes a device approved
  that was not, then a pairing connection of that very tailnet node had just redeemed a code for
  its own request, and the owner's client had been shown that code: the code minted for that
  request, or one minted on the command line. (A restart can only bring back a record that an
  unsaved block or forget had removed.)
\<close>

theorem tokens_need_owner_code:
  assumes "door_started s0" and "(door_step penv)\<^sup>*\<^sup>* s0 s" and "door_step penv s s'"
    and "i \<in> approved_ids (hub_devices (door_hub s'))" and "i \<notin> approved_ids (hub_devices (door_hub s))"
    and "door_hub s' \<noteq> restarted (door_hub s)"
  shows "\<exists>c pc rid v r. door_conns s c = Some (PairingOn pc (Issuing rid v)) \<and> own pc = Some rid \<and>
    ((Some rid, v) \<in> owner_codes s \<or> (None, v) \<in> owner_codes s) \<and>
    r \<in> set (devices (hub_devices (door_hub s'))) \<and> dev_id r = i \<and> dev_stable_id r = peer_stable_id (peer pc)"
proof -
  note reach = door_reachable [OF assms(2,1)]
  from step_approved [OF assms(3) reach(1), of i] assms(4-6)
  obtain c pc rid v r where "door_conns s c = Some (PairingOn pc (Issuing rid v))"
    "r \<in> set (devices (hub_devices (door_hub s')))" "dev_id r = i" "dev_stable_id r = peer_stable_id (peer pc)"
    by blast
  moreover from this(1) have "own pc = Some rid \<and> ((Some rid, v) \<in> owner_codes s \<or> (None, v) \<in> owner_codes s)"
    by (rule issuing_shown [OF reach(2)])
  ultimately show ?thesis by blast
qed

text \<open>The steps of one pairing: a device asks, the owner approves, the device redeems.\<close>

definition demo_conn :: "string option \<Rightarrow> nat \<Rightarrow> PairingConn" where
  "demo_conn o_id n = \<lparr>conn_id = 1, peer = demo_peer, own = o_id, saw_approved = False, stray_frames = 0, asks = n, pongs = 0\<rparr>"

definition demo_request :: "PairCode option \<Rightarrow> PendingRequest" where
  "demo_request k = \<lparr>req_id = ''r1'', req_stable_id = ''n1'', req_name = ''phone'', req_login = ''owner'', asked_at = 100,
     expires_at = 310, approved = (k \<noteq> None), code = k, wrong_attempts = 0\<rparr>"

definition demo_book :: "PendingRequest list \<Rightarrow> PairingBook" where
  "demo_book rs = \<lparr>requests = rs, cli_codes = [], wrong_cli_redeems = []\<rparr>"

definition demo_code :: PairCode where "demo_code = \<lparr>code_value = ''123456'', code_expires_at = 130\<rparr>"

definition demo_door :: "DeviceRecord list stored \<Rightarrow> PendingRequest list \<Rightarrow> (string \<Rightarrow> nat option) \<Rightarrow> PairingConn \<Rightarrow> Task
    \<Rightarrow> DoorMessage list \<Rightarrow> (string option \<times> string) set \<Rightarrow> string set \<Rightarrow> Door" where
  "demo_door f rs w pc t q codes used =
     \<lparr>door_hub = \<lparr>hub_devices = load_devices f, hub_book = demo_book rs, hub_waiters = w,
        hub_live = \<lparr>next_key = 0, by_device = (\<lambda>_. None)\<rparr>, hub_cancelled = {}, hub_push = demo_push, remote_enabled = True\<rparr>,
      door_conns = [1 \<mapsto> PairingOn pc t], door_queue = (\<lambda>_. [])(1 := q), live_lock = Free, owner_codes = codes,
      used_ids = used\<rparr>"

lemmas demo_pair_simps = demo_door_def demo_conn_def demo_request_def demo_book_def demo_code_def demo_env_def demo_peer_def

definition demo_empty :: Door where
  "demo_empty = (demo_door Missing [] (\<lambda>_. None) (demo_conn None 0) Ready [] {} {})\<lparr>door_conns := Map.empty\<rparr>"

lemma demo_empty_started: "door_started demo_empty"
  unfolding door_started_def demo_empty_def demo_door_def
  by (auto intro!: exI [of _ Missing] exI [of _ demo_push] exI [of _ True]
      simp: devices_ok_def store_wf_def restarted_def new_book_def demo_book_def demo_push_def)

lemma demo_pair_step: "door_step demo_penv demo_empty (demo_door Missing [] (\<lambda>_. None) (demo_conn None 0) Ready [] {} {})"
  using door_step.pair_device [of demo_empty 1 "demo_env ''u''" demo_peer "''x''" "door_hub demo_empty" demo_penv]
  by (simp add: demo_empty_def demo_pair_simps authorize_device_def verify_find new_pairing_conn_def fun_upd_def)

lemma demo_ask_step:
  "door_step demo_penv (demo_door Missing [] (\<lambda>_. None) (demo_conn None 0) Ready [] {} {})
     (demo_door Missing [demo_request None] [''r1'' \<mapsto> 1] (demo_conn (Some ''r1'') 1) Ready [] {} {''r1''})"
  using door_step.frame [of "demo_door Missing [] (\<lambda>_. None) (demo_conn None 0) Ready [] {} {}" 1 "demo_conn None 0"
      "Known DevicePairRequest" "demo_env ''r1''" _ _ _ _ demo_penv]
  by (simp add: demo_pair_simps on_frame_def on_message_def on_request_def request_def expire_def drop_expired_cli_codes_def
      take_for_def is_blocked_def Let_def pairing_limits MAX_REQUESTS_def superseded_notice_def after_flow_def broadcast_pending_def)

lemma demo_approve_step:
  "door_step demo_penv (demo_door Missing [demo_request None] [''r1'' \<mapsto> 1] (demo_conn (Some ''r1'') 1) Ready [] {} {''r1''})
     (demo_door Missing [demo_request (Some demo_code)] [''r1'' \<mapsto> 1] (demo_conn (Some ''r1'') 1) Ready
        [decided ''r1'' Approved] {(Some ''r1'', ''123456'')} {''r1''})"
  using door_step.owner [of "ApproveDevice ''r1''" "demo_env ''u''" True
      "demo_door Missing [demo_request None] [''r1'' \<mapsto> 1] (demo_conn (Some ''r1'') 1) Ready [] {} {''r1''}" _ _ demo_penv]
  by (simp add: demo_pair_simps handle_owner_def approve_request_def approve_def stable_id_of_def find_request_def
      on_request_entry_def is_blocked_def pairing_limits broadcast_pending_def shown_codes_def)

definition demo_redeemed :: Door where
  "demo_redeemed = demo_door Missing [] [''r1'' \<mapsto> 1] (demo_conn (Some ''r1'') 1) (Issuing ''r1'' ''123456'')
     [decided ''r1'' Approved] {(Some ''r1'', ''123456'')} {''r1''}"

lemma demo_check_step:
  "door_step demo_penv
     (demo_door Missing [demo_request (Some demo_code)] [''r1'' \<mapsto> 1] (demo_conn (Some ''r1'') 1) Ready
        [decided ''r1'' Approved] {(Some ''r1'', ''123456'')} {''r1''})
     (demo_door Missing [demo_request (Some demo_code)] [''r1'' \<mapsto> 1] (demo_conn (Some ''r1'') 1) (Redeeming ''r1'' ''123456'')
        [decided ''r1'' Approved] {(Some ''r1'', ''123456'')} {''r1''})" (is "door_step _ ?s _")
  using door_step.redeem_checked [of ?s 1 "demo_conn (Some ''r1'') 1" "''r1''" demo_penv "''123456''"]
  by (simp add: demo_pair_simps redeem_refused_def is_blocked_def)

lemma demo_redeem_step:
  "door_step demo_penv
     (demo_door Missing [demo_request (Some demo_code)] [''r1'' \<mapsto> 1] (demo_conn (Some ''r1'') 1) (Redeeming ''r1'' ''123456'')
        [decided ''r1'' Approved] {(Some ''r1'', ''123456'')} {''r1''})
     demo_redeemed" (is "door_step _ ?s _")
  using door_step.redeemed [of ?s 1 "demo_conn (Some ''r1'') 1" "''r1''" "''123456''" 20 "()" _ _ _ demo_penv]
  by (simp add: demo_redeemed_def demo_pair_simps redeem_own_def redeem_approved_def redeem_def pending_def find_request_def
      drop_request_def constant_time_eq_iff Let_def)

lemma demo_redeemed_reached: "(door_step demo_penv)\<^sup>*\<^sup>* demo_empty demo_redeemed"
  by (rule converse_rtranclp_into_rtranclp [of "door_step demo_penv", OF demo_pair_step] converse_rtranclp_into_rtranclp [of "door_step demo_penv", OF demo_ask_step]
      converse_rtranclp_into_rtranclp [of "door_step demo_penv", OF demo_approve_step] converse_rtranclp_into_rtranclp [of "door_step demo_penv", OF demo_check_step]
      converse_rtranclp_into_rtranclp [of "door_step demo_penv", OF demo_redeem_step] rtranclp.rtrancl_refl)+

definition demo_issued :: Door where
  "demo_issued = demo_redeemed\<lparr>door_hub := fst (snd (issue_store (demo_env ''d9'') (demo_conn (Some ''r1'') 1) (door_hub demo_redeemed))),
     door_conns := [1 \<mapsto> PairingOn (demo_conn (Some ''r1'') 1) Closing], used_ids := {''d9'', ''r1''}\<rparr>"

lemma demo_issue_step: "door_step demo_penv demo_redeemed demo_issued"
  using door_step.issued [of demo_redeemed 1 "demo_conn (Some ''r1'') 1" "''r1''" "''123456''" "demo_env ''d9''" None
      "fst (snd (issue_store (demo_env ''d9'') (demo_conn (Some ''r1'') 1) (door_hub demo_redeemed)))"
      "snd (snd (issue_store (demo_env ''d9'') (demo_conn (Some ''r1'') 1) (door_hub demo_redeemed)))" demo_penv]
  by (simp add: demo_issued_def demo_redeemed_def issue_store_def demo_pair_simps Let_def split_def)

theorem tokens_need_owner_code_witness:
  "\<exists>c pc rid v. door_conns demo_redeemed c = Some (PairingOn pc (Issuing rid v)) \<and>
     ((Some rid, v) \<in> owner_codes demo_redeemed \<or> (None, v) \<in> owner_codes demo_redeemed)"
proof -
  have "''d9'' \<in> approved_ids (hub_devices (door_hub demo_issued))"
    by (auto simp: demo_issued_def demo_redeemed_def issue_store_def issue_def is_blocked_def demo_pair_simps Let_def split_def
        approved_ids_def image_iff)
  moreover have "''d9'' \<notin> approved_ids (hub_devices (door_hub demo_redeemed))"
    by (simp add: demo_redeemed_def demo_door_def approved_ids_def)
  moreover have "door_hub demo_issued \<noteq> restarted (door_hub demo_redeemed)"
  proof
    assume "door_hub demo_issued = restarted (door_hub demo_redeemed)"
    then have "hub_waiters (door_hub demo_issued) = hub_waiters (restarted (door_hub demo_redeemed))" by simp
    then show False
      by (simp add: demo_issued_def demo_redeemed_def issue_store_def demo_door_def restarted_def Let_def split_def fun_eq_iff
          split: if_splits)
  qed
  ultimately show ?thesis
    using tokens_need_owner_code [OF demo_empty_started demo_redeemed_reached demo_issue_step, of "''d9''"] by blast
qed

section \<open>Guessing\<close>



section \<open>A token's life\<close>

lemma verify_revoked:
  assumes "store_wf (devices st)" and "\<forall>r \<in> set (devices st). dev_stable_id r = sid \<longrightarrow> dev_id r = i"
  shows "verify sha (snd (revoke k i st)) sid t = None" "verify sha (snd (forget k i st)) sid t = None"
proof -
  have no: "verify sha st'' sid t = None"
    if "\<forall>r \<in> set (devices st''). dev_stable_id r = sid \<longrightarrow> revoked r" for st''
    using that by (auto simp: verify_find find_None_iff)
  show "verify sha (snd (revoke k i st)) sid t = None"
  proof (cases "corrupt st")
    case True
    then show ?thesis by (simp add: verify_find revoke_def)
  next
    case False
    have "\<forall>r \<in> set (devices (snd (revoke k i st))). dev_stable_id r = sid \<longrightarrow> revoked r"
    proof (cases "on_device i (\<lambda>r. r\<lparr>revoked := True\<rparr>) (devices st)")
      case None
      then have "i \<notin> dev_id ` set (devices st)" by (simp only: on_device_None not_False_eq_True)
      with None False assms(2) show ?thesis by (auto simp: revoke_def)
    next
      case (Some ds)
      moreover from this assms(1) have "ds = map (\<lambda>r. if dev_id r = i then r\<lparr>revoked := True\<rparr> else r) (devices st)"
        by (auto simp: store_wf_def dest: on_device_map)
      ultimately show ?thesis using False assms(2) by (auto simp: revoke_def)
    qed
    then show ?thesis by (rule no)
  qed
  show "verify sha (snd (forget k i st)) sid t = None"
  proof (cases "corrupt st")
    case True
    then show ?thesis by (simp add: verify_find forget_def)
  next
    case False
    with assms(2) show ?thesis by (intro no) (auto simp: forget_def Let_def)
  qed
qed

text \<open>
  C18: the life of a device's token. The token a redeem issues verifies for its node and for no
  other node, also after a restart of the daemon; no other token verifies for that node, so a
  token issued earlier stops at once. After a block or a forget, saved or not, no token verifies
  for the node, and a blocked node is refused a new one. SHA-256 is only assumed not to collide on
  the tokens at hand.
\<close>

theorem device_token_round_trip:
  assumes st: "store_wf (devices st)" "\<not> corrupt st" "\<not> is_blocked st (peer_stable_id p)"
    and fresh: "i \<notin> dev_id ` set (devices st)" "digest_hex sha t \<notin> token_sha256 ` set (devices st)"
    and st': "st' = snd (issue sha True p i t now st)"
  shows "fst (issue sha True p i t now st) = Ok (i, t) \<and>
    (\<exists>r. verify sha st' (peer_stable_id p) t = Some r \<and> dev_id r = i) \<and>
    load_devices (devices_file st') = st' \<and>
    (\<forall>sid. sid \<noteq> peer_stable_id p \<longrightarrow> verify sha st' sid t = None) \<and>
    (\<forall>u. sha u \<noteq> sha t \<longrightarrow> verify sha st' (peer_stable_id p) u = None) \<and>
    (\<forall>k u. verify sha (snd (revoke k i st')) (peer_stable_id p) u = None \<and>
           verify sha (snd (forget k i st')) (peer_stable_id p) u = None) \<and>
    (\<forall>k k' j v. fst (issue sha k' p j v now (snd (revoke k i st'))) = Err PermissionDenied)"
proof -
  let ?sid = "peer_stable_id p"
  let ?new = "\<lparr>dev_id = i, dev_stable_id = ?sid, dev_name = peer_name p, dev_login = peer_login p,
    token_sha256 = digest_hex sha t, dev_created_at = now, dev_last_seen = None, revoked = False\<rparr>"
  let ?ds = "filter (\<lambda>r. dev_stable_id r \<noteq> ?sid) (devices st) @ [?new]"
  have ok: "fst (issue sha True p i t now st) = Ok (i, t)" using st by (simp add: issue_def Let_def)
  have st'': "st' = st\<lparr>devices_file := Decoded ?ds, devices := ?ds\<rparr>"
    using st by (simp add: st' issue_def Let_def write_atomic_def)
  have wf: "store_wf (devices st')" unfolding st' by (rule issue_effect(1) [OF st(1) fresh(1)])
  have one: "\<forall>r \<in> set (devices st'). dev_stable_id r = ?sid \<longrightarrow> dev_id r = i" by (auto simp: st'')
  have find_new: "List.find P ?ds = Some ?new" if "P ?new" "\<forall>r \<in> set (devices st). dev_stable_id r \<noteq> ?sid \<longrightarrow> \<not> P r" for P
  proof -
    have "List.find P (filter (\<lambda>r. dev_stable_id r \<noteq> ?sid) (devices st)) = None" using that(2) by (auto simp: find_None_iff)
    then show ?thesis using that(1) by (simp add: find_key_append)
  qed
  have "verify sha st' ?sid t = Some ?new"
    using st(2) find_new [of "\<lambda>r. token_sha256 r = digest_hex sha t \<and> dev_stable_id r = ?sid \<and> \<not> revoked r"]
    by (simp add: verify_find st'')
  moreover have "load_devices (devices_file st') = st'" using st(2) by (simp add: st'')
  moreover have "verify sha st' sid t = None" if "sid \<noteq> ?sid" for sid
  proof -
    have "token_sha256 r \<noteq> digest_hex sha t" if "r \<in> set (devices st)" for r
      using fresh(2) that by (metis imageI)
    with that show ?thesis by (auto simp: verify_find find_None_iff st'')
  qed
  moreover have "verify sha st' ?sid u = None" if "sha u \<noteq> sha t" for u
    using that digest_hex_inject [of sha t u] by (auto simp: verify_find find_None_iff st'')
  moreover have "fst (issue sha k' p j v now (snd (revoke k i st'))) = Err PermissionDenied" for k k' j v
  proof -
    have "is_blocked (snd (revoke k i st')) ?sid" "\<not> corrupt (snd (revoke k i st'))"
    proof -
      obtain ds where ds: "on_device i (\<lambda>r. r\<lparr>revoked := True\<rparr>) (devices st') = Some ds"
        using on_device_None [of i _ "devices st'"] by (auto simp: st'' image_iff)
      moreover have "ds = map (\<lambda>r. if dev_id r = i then r\<lparr>revoked := True\<rparr> else r) (devices st')"
        using wf ds by (auto simp: store_wf_def dest: on_device_map)
      ultimately show "is_blocked (snd (revoke k i st')) ?sid" "\<not> corrupt (snd (revoke k i st'))"
        using st(2) by (auto simp: revoke_def is_blocked_def st'')
    qed
    then show ?thesis by (simp add: issue_def)
  qed
  ultimately show ?thesis
    using ok verify_revoked [OF wf one] by (intro conjI allI impI) (auto intro: exI [of _ ?new])
qed

theorem device_token_round_trip_witness:
  "\<exists>r. verify (\<lambda>t. t) (snd (issue (\<lambda>t. t) True demo_peer ''d2'' ''new'' 7 (load_devices (Decoded [demo_device])))) ''n1'' ''new'' = Some r \<and>
     dev_id r = ''d2''"
proof -
  have "digest_hex (\<lambda>t. t) ''new'' \<noteq> digest_hex (\<lambda>t. t) ''tok''" by (simp add: digest_hex_inject)
  then show ?thesis
    using device_token_round_trip [of "load_devices (Decoded [demo_device])" demo_peer "''d2''" "\<lambda>t. t" "''new''" _ 7]
    by (simp add: store_wf_def is_blocked_def demo_device_def demo_peer_def)
qed

section \<open>Push subscriptions\<close>

text \<open>
  C16: pushes go only to paired devices. In every state the door can reach, while no task is in the
  middle of cutting a device, every subscription the daemon holds in memory belongs to a device
  with an unblocked record (unless \<open>devices.json\<close> is unreadable, when nothing is swept), and what is
  held in memory is exactly what \<open>subscriptions.json\<close> holds, failing saves included.
\<close>

theorem push_only_to_paired:
  assumes "door_started s0" and "(door_step penv)\<^sup>*\<^sup>* s0 s" and "live_lock s = Free"
    and "loaded (hub_push (door_hub s)) = Some l"
  shows "(\<not> corrupt (hub_devices (door_hub s)) \<longrightarrow>
      held_by (loaded_subs l) \<subseteq> approved_ids (hub_devices (door_hub s))) \<and>
    loaded_subs l = load_subs (subs_file (hub_push (door_hub s)))"
proof -
  have "door_ok s" by (rule door_reachable [OF assms(2,1)])
  with assms(3,4) show ?thesis by (auto simp: door_ok_def Let_def push_ok_def synced_def subs_of_def)
qed

definition demo_pushed :: Door where
  "demo_pushed = (demo_start [demo_device])\<lparr>door_hub := (door_hub (demo_start [demo_device]))\<lparr>hub_push :=
     snd (load_push demo_disk (hub_devices (door_hub (demo_start [demo_device]))) (hub_push (door_hub (demo_start [demo_device]))))\<rparr>\<rparr>"

lemma demo_push_step: "door_step demo_penv (demo_start [demo_device]) demo_pushed"
  using door_step.push_round [of demo_disk "demo_start [demo_device]"
      "fst (load_push demo_disk (hub_devices (door_hub (demo_start [demo_device]))) (hub_push (door_hub (demo_start [demo_device]))))"
      "snd (load_push demo_disk (hub_devices (door_hub (demo_start [demo_device]))) (hub_push (door_hub (demo_start [demo_device]))))"
      demo_penv "[]"]
  by (simp add: demo_pushed_def)

theorem push_only_to_paired_witness:
  "map_option (sub_devices \<circ> loaded_subs) (loaded (hub_push (door_hub demo_pushed))) = Some [(''d1'', demo_sub)] \<and>
   subs_file (hub_push (door_hub demo_pushed)) = Decoded [(''d1'', demo_sub)]"
proof -
  let ?l = "\<lparr>public_key = ''key'', loaded_subs = \<lparr>sub_devices = [(''d1'', demo_sub)], sub_corrupt = False\<rparr>\<rparr>"
  have "hub_push (door_hub demo_pushed) = demo_push\<lparr>loaded := Some ?l, subs_file := Decoded [(''d1'', demo_sub)]\<rparr>"
    by (simp add: demo_pushed_def demo_start_def restarted_def load_push_def demo_push_def demo_disk_def retain_devices_def
        known_devices_def save_def write_atomic_def demo_device_def Let_def)
  then have l: "loaded (hub_push (door_hub demo_pushed)) = Some ?l"
    "subs_file (hub_push (door_hub demo_pushed)) = Decoded [(''d1'', demo_sub)]" by simp_all
  have "live_lock demo_pushed = Free" by (simp add: demo_pushed_def demo_start_def)
  with push_only_to_paired [OF demo_started r_into_rtranclp [of "door_step demo_penv", OF demo_push_step] _ l(1)] l
  show ?thesis by (simp add: store_wf_def)
qed

end
