(* ===== verification/Push_Trigger.thy ===== *)
theory Push_Trigger
  imports Push_Store Session
begin

text \<open>
  The push trigger of \<open>crates/daemon/src/push/trigger.rs\<close>: which session changes raise a push, the
  payload, and the delivery round that posts it, backs push services off and deletes dead
  subscriptions; with the answers of a push service sorted as in \<open>push/send.rs\<close> and the token cache
  of \<open>push/vapid.rs\<close>.

  Encryption, ES256 signing, the HTTP exchange and the clock are arguments: \<open>Post\<close> is what one post
  meets. Instants and durations are seconds.
\<close>

section \<open>What raises a push\<close>

datatype PushKind = NeedsYou | Finished

record Prior =
  prior_status :: SessionStatus
  prior_background :: bool

definition prior_of :: "SessionSnapshot \<Rightarrow> Prior" where
  "prior_of s = \<lparr>prior_status = snap_status s, prior_background = snap_background s\<rparr>"

type_synonym tracker = "string \<Rightarrow> Prior option"

definition seed :: "SessionSnapshot list \<Rightarrow> tracker" where
  "seed ss = foldl (\<lambda>t s. t(snap_id s \<mapsto> prior_of s)) (\<lambda>_. None) ss"

definition forget_session :: "string \<Rightarrow> tracker \<Rightarrow> tracker" where
  "forget_session sid t = t(sid := None)"

definition finished :: "Prior \<Rightarrow> SessionSnapshot \<Rightarrow> bool" where
  "finished before after =
     (if snap_status after \<noteq> Idle \<or> snap_background after \<or> snap_mode after = PlainShell then False
      else prior_status before = Working \<or> (prior_status before = Idle \<and> prior_background before))"

definition needs_you :: "SessionSnapshot \<Rightarrow> bool" where
  "needs_you s \<longleftrightarrow> snap_status s = AwaitingInput \<and> \<not> snap_is_inactive s \<and> \<not> snap_is_abandoned s"

definition observe :: "SessionSnapshot \<Rightarrow> tracker \<Rightarrow> PushKind option \<times> tracker" where
  "observe after t =
     (let t' = t(snap_id after \<mapsto> prior_of after) in
      (case t (snap_id after) of
         None \<Rightarrow> None
       | Some before \<Rightarrow>
           if finished before after then Some Finished
           else if needs_you after \<and> prior_status before \<noteq> AwaitingInput then Some NeedsYou
           else None, t'))"

definition needs_you_count :: "SessionSnapshot list \<Rightarrow> nat" where
  "needs_you_count ss = (let n = length (filter needs_you ss) in if n < 2 ^ 32 then n else 2 ^ 32 - 1)"

section \<open>The payload\<close>

definition PRODUCT_NAME :: string where "PRODUCT_NAME = ''Rustling Tulip''"
definition LABEL_MOST :: nat where "LABEL_MOST = 200"

definition char_count :: "string \<Rightarrow> nat" where
  "char_count s = length (filter (\<lambda>c. \<not> is_cont c) s)"

text \<open>The first characters of a UTF-8 text.\<close>

fun take_chars :: "nat \<Rightarrow> string \<Rightarrow> string" where
  "take_chars n [] = []"
| "take_chars n (c # cs) =
     (if is_cont c then c # take_chars n cs else case n of 0 \<Rightarrow> [] | Suc m \<Rightarrow> c # take_chars m cs)"

definition label :: "SessionSnapshot \<Rightarrow> string" where
  "label s =
     (let named = (\<lambda>text. trim text \<noteq> [] \<and> text \<noteq> snap_id s);
          name = (case snap_user_label s of
             Some u \<Rightarrow> if named u then u else if named (snap_label s) then snap_label s else PRODUCT_NAME
           | None \<Rightarrow> if named (snap_label s) then snap_label s else PRODUCT_NAME)
      in if char_count name \<le> LABEL_MOST then name
         else take_chars (LABEL_MOST - 1) name @ [CHR 0xE2, CHR 0x80, CHR 0xA6])"

datatype RemoteState =
    Off | Starting | NotInstalled | NotRunning | OtherWindowsUser | NotConnected | TailscaleError string
  | HttpsDisabled | HostTagged | CertFailed string | PortInUse | BindFailed string
  | Serving string nat "nat option" | UnknownRemote

definition origin :: "RemoteState \<Rightarrow> string option" where
  "origin r = (case r of
     Serving name port _ \<Rightarrow> Some (if port = 443 then ''https://'' @ name else ''https://'' @ name @ '':'' @ dec port)
   | _ \<Rightarrow> None)"

definition unreserved :: "char \<Rightarrow> bool" where
  "unreserved c \<longleftrightarrow> (let n = (of_char c :: nat) in
     48 \<le> n \<and> n \<le> 57 \<or> 65 \<le> n \<and> n \<le> 90 \<or> 97 \<le> n \<and> n \<le> 122) \<or> c \<in> set ''-._~''"

definition hex_upper :: "nat \<Rightarrow> char" where "hex_upper n = ''0123456789ABCDEF'' ! n"

definition path_segment :: "string \<Rightarrow> string" where
  "path_segment text = concat (map (\<lambda>c. if unreserved c then [c]
     else [CHR ''%'', hex_upper (of_char c div 16), hex_upper (of_char c mod 16)]) text)"

record Payload =
  web_push :: nat
  title :: string
  body :: string
  navigate :: string
  app_badge :: string

definition payload :: "PushKind \<Rightarrow> string \<Rightarrow> string \<Rightarrow> string \<Rightarrow> nat \<Rightarrow> Payload" where
  "payload kind lbl org sid n =
     \<lparr>web_push = 8030, title = (case kind of NeedsYou \<Rightarrow> ''Needs you'' | Finished \<Rightarrow> ''Finished''), body = lbl,
      navigate = org @ ''/s/'' @ path_segment sid, app_badge = dec n\<rparr>"

section \<open>Answers of a push service\<close>

datatype Outcome =
    Sent | Gone | Rejected nat string | PayloadTooLarge nat | Retry nat "nat option"

text \<open>\<open>Retry-After\<close> in seconds: visible ASCII, trimmed, a decimal of 64 bits with an optional plus sign.\<close>

definition visible_ascii :: "char \<Rightarrow> bool" where
  "visible_ascii c \<longleftrightarrow> (let n = (of_char c :: nat) in n = 9 \<or> 32 \<le> n \<and> n \<le> 126)"

definition parse_u64 :: "string \<Rightarrow> nat option" where
  "parse_u64 s =
     (let ds = (case s of c # rest \<Rightarrow> if c = CHR ''+'' then rest else s | [] \<Rightarrow> []) in
      if ds = [] \<or> \<not> list_all ascii_digit ds then None
      else let n = foldl (\<lambda>n d. 10 * n + (of_char d - 48)) 0 ds in if n < 2 ^ 64 then Some n else None)"

definition retry_after :: "string option \<Rightarrow> nat option" where
  "retry_after field = (case field of
     None \<Rightarrow> None
   | Some h \<Rightarrow> if list_all visible_ascii h then parse_u64 (trim h) else None)"

record Response =
  response_status :: nat
  retry_header :: "string option"
  response_text :: string

definition REASON_CHARS :: nat where "REASON_CHARS = 200"

text \<open>\<open>None\<close>: the push service could not be reached.\<close>

definition sort_answer :: "nat \<Rightarrow> Response option \<Rightarrow> Outcome option" where
  "sort_answer len reply = (case reply of
     None \<Rightarrow> None
   | Some r \<Rightarrow> let http = response_status r in
       Some (if 200 \<le> http \<and> http < 300 then Sent
             else if http = 404 \<or> http = 410 then Gone
             else if http = 413 then PayloadTooLarge len
             else if http = 429 \<or> 500 \<le> http \<and> http \<le> 599 then Retry http (retry_after (retry_header r))
             else Rejected http (take_chars REASON_CHARS (response_text r))))"

section \<open>Signed tokens\<close>

definition RESIGN_AFTER :: int where "RESIGN_AFTER = 3600"
definition LIFETIME :: int where "LIFETIME = 12 * 3600"

record Cached =
  cached_token :: string
  cached_subject :: string
  signed_at :: int

type_synonym jwt_cache = "string \<times> string \<Rightarrow> Cached option"

text \<open>\<open>sign\<close> signs for an audience and a subject with an expiry time, or fails.\<close>

definition token :: "(string \<Rightarrow> string \<Rightarrow> int \<Rightarrow> string option) \<Rightarrow> string \<Rightarrow> string \<Rightarrow> string \<Rightarrow> int \<Rightarrow> jwt_cache
    \<Rightarrow> string option \<times> jwt_cache" where
  "token sign key aud subject now cache =
     (let resign = (case sign aud subject (now + LIFETIME) of
            None \<Rightarrow> (None, cache)
          | Some t \<Rightarrow> (Some t, cache((key, aud) \<mapsto> \<lparr>cached_token = t, cached_subject = subject, signed_at = now\<rparr>))) in
      case cache (key, aud) of
        Some c \<Rightarrow>
          let age = now - signed_at c in
          if cached_subject c = subject \<and> 0 \<le> age \<and> age < RESIGN_AFTER then (Some (cached_token c), cache) else resign
      | None \<Rightarrow> resign)"

section \<open>The delivery round\<close>

definition BACKOFF_FIRST :: nat where "BACKOFF_FIRST = 30"
definition BACKOFF_MOST :: nat where "BACKOFF_MOST = 600"
definition FAILURES_TO_DELETE :: nat where "FAILURES_TO_DELETE = 5"

record Backoff =
  until :: nat
  delay :: nat

record Trigger =
  jwt :: jwt_cache
  backoff :: "string \<Rightarrow> Backoff option"
  failures :: "string \<times> string \<Rightarrow> nat option"

record Target =
  target_device :: string
  target_endpoint :: string
  audience :: string

text \<open>What one post meets: the clock, whether the payload encrypts (and its size), the answer, the clock again.\<close>

record Post =
  at_check :: nat
  encrypted :: "nat option"
  answer :: "Response option"
  at_answer :: nat

definition wanted_by :: "PushKind \<Rightarrow> Subscription \<Rightarrow> bool" where
  "wanted_by kind sub = (case kind of NeedsYou \<Rightarrow> sub_needs_you sub | Finished \<Rightarrow> sub_finished sub)"

definition target :: "PushEnv \<Rightarrow> (string \<Rightarrow> string \<Rightarrow> int \<Rightarrow> string option) \<Rightarrow> string \<Rightarrow> string \<Rightarrow> int \<Rightarrow> bool
    \<Rightarrow> string \<times> Subscription \<Rightarrow> Trigger \<Rightarrow> Target option \<times> Trigger" where
  "target env sign key org now loopback entry tr =
     (case entry of (dev, sub) \<Rightarrow>
        case check_endpoint env loopback (endpoint sub) of
          None \<Rightarrow> (None, tr)
        | Some url \<Rightarrow>
            if \<not> keys_decode env (p256dh sub) (auth sub) then (None, tr)
            else case token sign key (url_origin url) org now (jwt tr) of
              (None, cache) \<Rightarrow> (None, tr\<lparr>jwt := cache\<rparr>)
            | (Some _, cache) \<Rightarrow>
                (Some \<lparr>target_device = dev, target_endpoint = endpoint sub, audience = url_origin url\<rparr>, tr\<lparr>jwt := cache\<rparr>))"

fun targets_of :: "(string \<times> Subscription \<Rightarrow> Trigger \<Rightarrow> Target option \<times> Trigger) \<Rightarrow> subs \<Rightarrow> Trigger \<Rightarrow> Target list \<times> Trigger" where
  "targets_of f [] tr = ([], tr)"
| "targets_of f (e # es) tr =
     (case f e tr of (t, tr) \<Rightarrow> case targets_of f es tr of (ts, tr) \<Rightarrow>
        (case t of Some t \<Rightarrow> t # ts | None \<Rightarrow> ts, tr))"

definition collect :: "PushEnv \<Rightarrow> (string \<Rightarrow> string \<Rightarrow> int \<Rightarrow> string option) \<Rightarrow> PushDisk \<Rightarrow> PushKind \<Rightarrow> string \<Rightarrow> int
    \<Rightarrow> DeviceStore \<Rightarrow> PushState \<Rightarrow> Trigger \<Rightarrow> Target list option \<times> PushState \<times> Trigger" where
  "collect env sign d kind org now devs ps tr =
     (case load_push d devs ps of
        (Inl _, ps) \<Rightarrow> (None, ps, tr)
      | (Inr l, ps) \<Rightarrow>
          case targets_of (target env sign (public_key l) org now (allow_loopback_http ps))
                 (filter (\<lambda>e. wanted_by kind (snd e)) (sub_devices (loaded_subs l))) tr of
            (ts, tr) \<Rightarrow> (Some ts, ps, tr))"

definition backed_off :: "string \<Rightarrow> nat \<Rightarrow> Trigger \<Rightarrow> bool" where
  "backed_off aud now tr = (case backoff tr aud of Some b \<Rightarrow> now < until b | None \<Rightarrow> False)"

definition next_delay :: "string \<Rightarrow> Trigger \<Rightarrow> nat" where
  "next_delay aud tr = (case backoff tr aud of None \<Rightarrow> BACKOFF_FIRST | Some b \<Rightarrow> min (delay b * 2) BACKOFF_MOST)"

definition note_push_service :: "string \<Rightarrow> Outcome option \<Rightarrow> nat \<Rightarrow> Trigger \<Rightarrow> Trigger" where
  "note_push_service aud outcome now tr =
     (let back = (\<lambda>asked.
            let d = next_delay aud tr;
                wait = min (case asked of Some a \<Rightarrow> max a d | None \<Rightarrow> d) BACKOFF_MOST
            in tr\<lparr>backoff := (backoff tr)(aud \<mapsto> \<lparr>until = now + wait, delay = d\<rparr>)\<rparr>) in
      case outcome of
        Some (Retry http asked) \<Rightarrow> back asked
      | None \<Rightarrow> back None
      | Some _ \<Rightarrow> tr\<lparr>backoff := (backoff tr)(aud := None)\<rparr>)"

fun send_all :: "(nat \<Rightarrow> Post) \<Rightarrow> nat \<Rightarrow> Target list \<Rightarrow> Trigger \<Rightarrow> (Target \<times> Outcome) list \<times> Trigger" where
  "send_all world k [] tr = ([], tr)"
| "send_all world k (t # ts) tr =
     (let w = world k in
      if backed_off (audience t) (at_check w) tr then send_all world (k + 1) ts tr
      else case encrypted w of
        None \<Rightarrow> send_all world (k + 1) ts tr
      | Some len \<Rightarrow>
          let out = sort_answer len (answer w) in
          case send_all world (k + 1) ts (note_push_service (audience t) out (at_answer w) tr) of
            (outs, tr) \<Rightarrow> (case out of Some x \<Rightarrow> (t, x) # outs | None \<Rightarrow> outs, tr))"

definition count_failure :: "string \<times> string \<Rightarrow> bool \<Rightarrow> Trigger \<Rightarrow> bool \<times> Trigger" where
  "count_failure key counted tr =
     (if \<not> counted then (False, tr)
      else let n = (case failures tr key of None \<Rightarrow> 0 | Some n \<Rightarrow> n) + 1 in
        if n < FAILURES_TO_DELETE then (False, tr\<lparr>failures := (failures tr)(key \<mapsto> n)\<rparr>)
        else (True, tr\<lparr>failures := (failures tr)(key := None)\<rparr>))"

definition judge :: "Target \<Rightarrow> Outcome \<Rightarrow> string set \<Rightarrow> Trigger \<Rightarrow> bool \<times> Trigger" where
  "judge t out accepted tr =
     (let key = (target_device t, target_endpoint t) in
      case out of
        Sent \<Rightarrow> (False, tr\<lparr>failures := (failures tr)(key := None)\<rparr>)
      | Gone \<Rightarrow> (True, tr\<lparr>failures := (failures tr)(key := None)\<rparr>)
      | Rejected http _ \<Rightarrow>
          if http = 403 then (False, tr) else count_failure key (audience t \<in> accepted) tr
      | PayloadTooLarge _ \<Rightarrow> (False, tr)
      | Retry _ _ \<Rightarrow> (False, tr))"

fun judge_all :: "string set \<Rightarrow> (Target \<times> Outcome) list \<Rightarrow> Trigger \<Rightarrow> Target list \<times> Trigger" where
  "judge_all accepted [] tr = ([], tr)"
| "judge_all accepted ((t, out) # xs) tr =
     (case judge t out accepted tr of (bad, tr) \<Rightarrow>
        case judge_all accepted xs tr of (doomed, tr) \<Rightarrow> (if bad then t # doomed else doomed, tr))"

definition accepted_services :: "(Target \<times> Outcome) list \<Rightarrow> string set" where
  "accepted_services xs = set (map (\<lambda>x. audience (fst x)) (filter (\<lambda>x. snd x = Sent) xs))"

text \<open>\<open>oks\<close>: whether each delete's save succeeds.\<close>

fun delete_all :: "bool list \<Rightarrow> Target list \<Rightarrow> PushState \<Rightarrow> PushState" where
  "delete_all oks [] ps = ps"
| "delete_all oks (t # ts) ps =
     delete_all (drop 1 oks) ts
       (remove_device_if_endpoint (case oks of b # _ \<Rightarrow> b | [] \<Rightarrow> True) (target_device t) (target_endpoint t) ps)"

definition apply_answers :: "PushDisk \<Rightarrow> bool list \<Rightarrow> DeviceStore \<Rightarrow> (Target \<times> Outcome) list \<Rightarrow> PushState \<Rightarrow> Trigger
    \<Rightarrow> PushState \<times> Trigger" where
  "apply_answers d oks devs xs ps tr =
     (case judge_all (accepted_services xs) xs tr of (doomed, tr) \<Rightarrow>
        if doomed = [] then (ps, tr)
        else case load_push d devs ps of
          (Inl _, ps) \<Rightarrow> (ps, tr)
        | (Inr _, ps) \<Rightarrow> (delete_all oks doomed ps, tr))"

text \<open>
  One alert. No lock is held while the posts run: \<open>between\<close> is what other tasks did to the devices and
  the push state meanwhile, and the second load and the deletes meet the disk \<open>d'\<close>.
\<close>

definition deliver_push :: "PushEnv \<Rightarrow> (string \<Rightarrow> string \<Rightarrow> int \<Rightarrow> string option) \<Rightarrow> PushDisk \<Rightarrow> PushDisk \<Rightarrow> bool list
    \<Rightarrow> (nat \<Rightarrow> Post) \<Rightarrow> (DeviceStore \<times> PushState \<Rightarrow> DeviceStore \<times> PushState) \<Rightarrow> RemoteState \<Rightarrow> PushKind \<Rightarrow> int
    \<Rightarrow> DeviceStore \<Rightarrow> PushState \<Rightarrow> Trigger \<Rightarrow> (string \<times> Outcome) list \<times> PushState \<times> Trigger" where
  "deliver_push env sign d d' oks world between remote kind now devs ps tr =
     (case origin remote of
        None \<Rightarrow> ([], ps, tr)
      | Some org \<Rightarrow>
          case collect env sign d kind org now devs ps tr of
            (None, ps, tr) \<Rightarrow> ([], ps, tr)
          | (Some ts, ps, tr) \<Rightarrow>
              let live = set (map (\<lambda>t. (target_device t, target_endpoint t)) ts);
                  tr = tr\<lparr>failures := (\<lambda>k. if k \<in> live then failures tr k else None)\<rparr>
              in case send_all world 0 ts tr of
                (answers, tr) \<Rightarrow>
                  case between (devs, ps) of
                    (devs, ps) \<Rightarrow>
                      case apply_answers d' oks devs answers ps tr of
                        (ps, tr) \<Rightarrow> (map (\<lambda>x. (target_device (fst x), snd x)) answers, ps, tr))"

section \<open>The tracker against the history\<close>

text \<open>Everything the trigger's task is told, oldest first.\<close>

datatype TrackEvent = Seeded "SessionSnapshot list" | Forgot string | Observed SessionSnapshot

fun track :: "tracker \<Rightarrow> TrackEvent \<Rightarrow> tracker" where
  "track t (Seeded ss) = seed ss"
| "track t (Forgot sid) = forget_session sid t"
| "track t (Observed s) = snd (observe s t)"

text \<open>The reference: the copy of a session seen last, read off the history from its newest event.\<close>

fun last_seen :: "TrackEvent list \<Rightarrow> string \<Rightarrow> SessionSnapshot option" where
  "last_seen [] sid = None"
| "last_seen (Observed s # evs) sid = (if snap_id s = sid then Some s else last_seen evs sid)"
| "last_seen (Forgot x # evs) sid = (if x = sid then None else last_seen evs sid)"
| "last_seen (Seeded ss # evs) sid = List.find (\<lambda>s. snap_id s = sid) (rev ss)"

lemma seed_find: "seed ss sid = map_option prior_of (List.find (\<lambda>s. snap_id s = sid) (rev ss))"
proof (induction ss rule: rev_induct)
  case (snoc s ss)
  have "seed (ss @ [s]) = (seed ss)(snap_id s \<mapsto> prior_of s)" by (simp add: seed_def)
  with snoc show ?case by auto
qed (simp add: seed_def)

lemma tracker_history: "foldl track (\<lambda>_. None) evs sid = map_option prior_of (last_seen (rev evs) sid)"
proof (induction evs rule: rev_induct)
  case (snoc e evs)
  then show ?case by (cases e) (auto simp: seed_find forget_session_def observe_def Let_def)
qed simp

section \<open>Back-off and deletion\<close>

definition backoff_ok :: "Trigger \<Rightarrow> bool" where
  "backoff_ok tr \<longleftrightarrow> (\<forall>aud b. backoff tr aud = Some b \<longrightarrow> BACKOFF_FIRST \<le> delay b \<and> delay b \<le> BACKOFF_MOST)"

lemma next_delay_bounds:
  assumes "backoff_ok tr"
  shows "BACKOFF_FIRST \<le> next_delay aud tr" "next_delay aud tr \<le> BACKOFF_MOST"
proof -
  have "BACKOFF_FIRST \<le> delay b * 2" if "backoff tr aud = Some b" for b
  proof -
    have "BACKOFF_FIRST \<le> delay b" using assms that unfolding backoff_ok_def by blast
    then show ?thesis by simp
  qed
  then show "BACKOFF_FIRST \<le> next_delay aud tr" "next_delay aud tr \<le> BACKOFF_MOST"
    by (auto simp: next_delay_def BACKOFF_FIRST_def BACKOFF_MOST_def split: option.split)
qed

lemma note_push_service_ok: "backoff_ok tr \<Longrightarrow> backoff_ok (note_push_service aud out now tr)"
  using next_delay_bounds [of tr aud]
  by (auto simp: backoff_ok_def note_push_service_def Let_def split: option.splits Outcome.splits)

lemma note_push_service_wait:
  assumes "backoff_ok tr" and "out = None \<or> out = Some (Retry http asked)"
  shows "\<exists>b. backoff (note_push_service aud out now tr) aud = Some b \<and> now + BACKOFF_FIRST \<le> until b \<and> until b \<le> now + BACKOFF_MOST"
proof -
  let ?wait = "\<lambda>x. min (case x of Some a \<Rightarrow> max a (next_delay aud tr) | None \<Rightarrow> next_delay aud tr) BACKOFF_MOST"
  have w: "BACKOFF_FIRST \<le> ?wait x" for x
    using next_delay_bounds(1) [OF assms(1), of aud] by (cases x) (simp_all add: BACKOFF_FIRST_def BACKOFF_MOST_def)
  have "\<exists>x. backoff (note_push_service aud out now tr) aud = Some \<lparr>until = now + ?wait x, delay = next_delay aud tr\<rparr>"
    using assms(2) by (auto simp: note_push_service_def Let_def intro: exI [of _ None])
  then show ?thesis using w by auto
qed

text \<open>When an answer deletes a subscription, given its counted failures so far.\<close>

definition dooms :: "string set \<Rightarrow> (string \<times> string \<Rightarrow> nat option) \<Rightarrow> Target \<Rightarrow> Outcome \<Rightarrow> bool" where
  "dooms accepted fails t out \<longleftrightarrow> out = Gone \<or>
     (\<exists>http reason n. out = Rejected http reason \<and> http \<noteq> 403 \<and> audience t \<in> accepted \<and>
        fails (target_device t, target_endpoint t) = Some n \<and> FAILURES_TO_DELETE \<le> n + 1)"

abbreviation key_of :: "Target \<Rightarrow> string \<times> string" where
  "key_of t \<equiv> (target_device t, target_endpoint t)"

lemma judge_spec:
  "fst (judge t out accepted tr) \<longleftrightarrow> dooms accepted (failures tr) t out"
  "k \<noteq> key_of t \<Longrightarrow> failures (snd (judge t out accepted tr)) k = failures tr k"
  by (auto simp: judge_def dooms_def count_failure_def Let_def FAILURES_TO_DELETE_def split: Outcome.split option.splits)

lemma dooms_cong: "f (key_of t) = g (key_of t) \<Longrightarrow> dooms accepted f t out = dooms accepted g t out"
  by (simp add: dooms_def)

lemma judge_all_spec:
  "distinct (map (\<lambda>x. key_of (fst x)) xs) \<Longrightarrow>
   fst (judge_all accepted xs tr) = map fst (filter (\<lambda>x. dooms accepted (failures tr) (fst x) (snd x)) xs)"
proof (induction accepted xs tr rule: judge_all.induct)
  case (2 accepted t out xs tr)
  obtain bad tr' where j: "judge t out accepted tr = (bad, tr')" by (cases "judge t out accepted tr") auto
  obtain ds tr'' where ja: "judge_all accepted xs tr' = (ds, tr'')" by (cases "judge_all accepted xs tr'") auto
  have "dooms accepted (failures tr') (fst x) (snd x) = dooms accepted (failures tr) (fst x) (snd x)" if "x \<in> set xs" for x
    using "2.prems" that judge_spec(2) [of "key_of (fst x)" t out accepted tr] j by (intro dooms_cong) (auto simp: image_iff)
  then have "filter (\<lambda>x. dooms accepted (failures tr') (fst x) (snd x)) xs =
      filter (\<lambda>x. dooms accepted (failures tr) (fst x) (snd x)) xs"
    by (auto intro: filter_cong)
  moreover have "ds = map fst (filter (\<lambda>x. dooms accepted (failures tr') (fst x) (snd x)) xs)"
    using "2.IH" [of bad tr'] "2.prems" j ja by simp
  ultimately show ?case using judge_spec(1) [of t out accepted tr] j ja by simp
qed simp

text \<open>Deleting while every save succeeds.\<close>

lemma remove_if_endpoint_lookup:
  assumes "loaded ps = Some l" and "\<not> sub_corrupt (loaded_subs l)"
  shows "\<exists>l'. loaded (remove_device_if_endpoint True dev e ps) = Some l' \<and> \<not> sub_corrupt (loaded_subs l') \<and>
    (\<forall>x. get_sub (loaded_subs l') x = (case get_sub (loaded_subs l) x of None \<Rightarrow> None
       | Some s \<Rightarrow> if x = dev \<and> endpoint s = e then None else Some s))"
  using assms
  by (auto simp: remove_device_if_endpoint_def drop_loaded_sub_def remove_if_endpoint_def remove_sub_def save_def get_sub_def
      Let_def split: option.split)

lemma delete_all_lookup:
  "loaded ps = Some l \<Longrightarrow> \<not> sub_corrupt (loaded_subs l) \<Longrightarrow> list_all (\<lambda>b. b) oks \<Longrightarrow>
   \<exists>l'. loaded (delete_all oks ts ps) = Some l' \<and>
     (\<forall>x. get_sub (loaded_subs l') x = (case get_sub (loaded_subs l) x of None \<Rightarrow> None
        | Some s \<Rightarrow> if (x, endpoint s) \<in> key_of ` set ts then None else Some s))"
proof (induction ts arbitrary: oks ps l)
  case Nil
  then show ?case by (auto split: option.split)
next
  case (Cons t ts)
  let ?ps = "remove_device_if_endpoint True (target_device t) (target_endpoint t) ps"
  have head: "(case oks of b # _ \<Rightarrow> b | [] \<Rightarrow> True) = True" "list_all (\<lambda>b. b) (drop 1 oks)"
    using Cons.prems(3) by (cases oks; simp)+
  obtain l1 where l1: "loaded ?ps = Some l1" "\<not> sub_corrupt (loaded_subs l1)"
    "\<forall>x. get_sub (loaded_subs l1) x = (case get_sub (loaded_subs l) x of None \<Rightarrow> None
       | Some s \<Rightarrow> if x = target_device t \<and> endpoint s = target_endpoint t then None else Some s)"
    using remove_if_endpoint_lookup [OF Cons.prems(1,2)] by blast
  from Cons.IH [OF l1(1,2) head(2)] obtain l' where "loaded (delete_all (drop 1 oks) ts ?ps) = Some l'"
    "\<forall>x. get_sub (loaded_subs l') x = (case get_sub (loaded_subs l1) x of None \<Rightarrow> None
        | Some s \<Rightarrow> if (x, endpoint s) \<in> key_of ` set ts then None else Some s)" by blast
  with l1(3) head(1) show ?case by (auto split: option.split)
qed

end
