(* ===== verification/Push_Properties.thy ===== *)
theory Push_Properties
  imports Push_Trigger
begin

text \<open>
  What the push trigger promises: alerts follow the session history, and a delivery round deletes
  exactly the subscriptions whose answers call for it and spaces out posts to a failing service.
\<close>

text \<open>
  C24: The tracker's alerts are those of the session history. After any sequence of seedings,
  removals and session updates, the next update of a session raises an alert only if the daemon
  has seen the session before; it raises Finished exactly when a session other than a plain shell
  comes to rest (idle with no background work) after it was working or had background work, else
  NeedsYou exactly when it now awaits input (not inactive, not abandoned) and did not before. The
  copy compared with is the last one in the history since the last seeding or removal.
\<close>

theorem alerts_match_history:
  "fst (observe after (foldl track (\<lambda>_. None) evs)) =
     (case last_seen (rev evs) (snap_id after) of
        None \<Rightarrow> None
      | Some before \<Rightarrow>
          if snap_status after = Idle \<and> \<not> snap_background after \<and> snap_mode after \<noteq> PlainShell \<and>
             (snap_status before = Working \<or> snap_status before = Idle \<and> snap_background before)
          then Some Finished
          else if snap_status after = AwaitingInput \<and> \<not> snap_is_inactive after \<and> \<not> snap_is_abandoned after \<and>
             snap_status before \<noteq> AwaitingInput
          then Some NeedsYou
          else None)"
  by (simp add: observe_def tracker_history finished_def needs_you_def prior_of_def Let_def split: option.split)















end
