(* ===== verification/Scrollback.thy ===== *)
theory Scrollback
  imports Prelude
begin

text \<open>
  The output a reconnecting client or daemon replays: the byte ring of the tracer
  (\<open>crates/tracer/src/ring.rs\<close>) and the scrollback file of a session
  (\<open>crates/daemon/src/scrollback.rs\<close>), which is trimmed to a line start when it grows past its cap.
\<close>

section \<open>The tracer's ring\<close>

text \<open>\<open>cap\<close> is the capacity the buffer was allocated with; it never grows past it.\<close>

record OutputRing =
  ring_cap :: nat
  ring_buf :: string
  written :: nat
  overflowed :: bool

definition with_capacity :: "nat \<Rightarrow> OutputRing" where
  "with_capacity cap = \<lparr>ring_cap = cap, ring_buf = [], written = 0, overflowed = False\<rparr>"

definition saturating_add64 :: "nat \<Rightarrow> nat \<Rightarrow> nat" where
  "saturating_add64 a b = min (a + b) (2 ^ 64 - 1)"

definition push_chunk :: "OutputRing \<Rightarrow> string \<Rightarrow> OutputRing" where
  "push_chunk ring chunk =
     (if chunk = [] then ring
      else let ring = ring\<lparr>written := saturating_add64 (written ring) (length chunk)\<rparr>; cap = ring_cap ring in
      if cap < length chunk then
        ring\<lparr>ring_buf := drop (length chunk - cap) chunk, overflowed := True\<rparr>
      else if cap < length (ring_buf ring) + length chunk then
        let n = length (ring_buf ring) + length chunk - cap in
        ring\<lparr>ring_buf := drop n (ring_buf ring) @ chunk, overflowed := True\<rparr>
      else ring\<lparr>ring_buf := ring_buf ring @ chunk\<rparr>)"

definition snapshot_bytes :: "OutputRing \<Rightarrow> string" where
  "snapshot_bytes ring = ring_buf ring"

text \<open>One push keeps the newest bytes of what was held and what came.\<close>

lemma push_chunk_buf:
  assumes "length (ring_buf r) \<le> ring_cap r"
  shows "ring_buf (push_chunk r chunk) = lastn (ring_cap r) (ring_buf r @ chunk)"
  using assms by (auto simp: push_chunk_def lastn_def Let_def)

lemma push_chunk_cap [simp]: "ring_cap (push_chunk r chunk) = ring_cap r"
  by (simp add: push_chunk_def Let_def)

lemma push_chunk_overflowed:
  "overflowed (push_chunk r chunk) \<longleftrightarrow> overflowed r \<or> ring_cap r < length (ring_buf r) + length chunk \<and> chunk \<noteq> []"
  by (auto simp: push_chunk_def Let_def)

section \<open>The scrollback file\<close>

definition MAX_SIZE :: nat where "MAX_SIZE = 2 * 1024 * 1024"
definition TRIM_TO :: nat where "TRIM_TO = 1500000"
definition LINE_SEARCH :: nat where "LINE_SEARCH = 4096"

abbreviation newline :: char where "newline \<equiv> CHR 0x0A"

text \<open>\<open>iter().position(..)\<close>.\<close>

fun position_of :: "('a \<Rightarrow> bool) \<Rightarrow> 'a list \<Rightarrow> nat option" where
  "position_of P [] = None"
| "position_of P (x # xs) = (if P x then Some 0 else map_option Suc (position_of P xs))"

definition trim_start :: "string \<Rightarrow> nat \<Rightarrow> nat" where
  "trim_start bytes raw =
     (if 0 < raw \<and> raw - 1 < length bytes \<and> bytes ! (raw - 1) = newline then raw
      else let stop = min (length bytes) (raw + LINE_SEARCH) in
        if stop < raw then raw
        else case position_of (\<lambda>b. b = newline) (take (stop - raw) (drop raw bytes)) of
          None \<Rightarrow> raw
        | Some k \<Rightarrow> raw + k + 1)"

text \<open>
  A session's dir on disk: the scrollback file, whether the truncated flag exists, and the
  terminal-state sidecar. The writer is its open file's tracked length (\<open>OpenFile\<close>), none while closed.
\<close>

record SessionDir =
  bytes_file :: "string option"
  truncated_flag :: bool
  termstate_file :: "string option"

record ScrollbackWriter =
  open_len :: "nat option"

text \<open>
  What an operation meets on disk: whether opening succeeds, after how many bytes an append
  fails (none for a full write), and whether the trim's rewrite, its flag, the reopening and the
  sidecar's write succeed.
\<close>

record ScrollDisk =
  open_ok :: bool
  append_fails :: "nat option"
  trim_ok :: bool
  flag_ok :: bool
  reopen_ok :: bool
  save_ok :: bool

definition new_writer :: ScrollbackWriter where
  "new_writer = \<lparr>open_len = None\<rparr>"

definition contents :: "SessionDir \<Rightarrow> string" where
  "contents s = (case bytes_file s of None \<Rightarrow> [] | Some b \<Rightarrow> b)"

definition open_append :: "bool \<Rightarrow> SessionDir \<Rightarrow> (nat \<times> SessionDir) option" where
  "open_append ok s = (if ok then Some (length (contents s), s\<lparr>bytes_file := Some (contents s)\<rparr>) else None)"

text \<open>\<open>write_inner\<close>: the new length, or nothing on an error; a failed append may have written a part.\<close>

definition write_inner ::
  "ScrollDisk \<Rightarrow> string \<Rightarrow> ScrollbackWriter \<times> SessionDir \<Rightarrow> nat option \<times> ScrollbackWriter \<times> SessionDir" where
  "write_inner d data ws =
     (case ws of (w, s) \<Rightarrow>
      case (case open_len w of Some n \<Rightarrow> Some (n, s) | None \<Rightarrow> open_append (open_ok d) s) of
        None \<Rightarrow> (None, w, s)
      | Some (n, s) \<Rightarrow>
          (case append_fails d of
             Some k \<Rightarrow> (None, \<lparr>open_len = Some n\<rparr>, s\<lparr>bytes_file := Some (contents s @ take k data)\<rparr>)
           | None \<Rightarrow> (Some (n + length data), \<lparr>open_len = Some (n + length data)\<rparr>,
                       s\<lparr>bytes_file := Some (contents s @ data)\<rparr>)))"

text \<open>\<open>ScrollbackWriter::write\<close>: whether the file is now past the cap.\<close>

definition write_bytes ::
  "ScrollDisk \<Rightarrow> string \<Rightarrow> ScrollbackWriter \<times> SessionDir \<Rightarrow> bool \<times> ScrollbackWriter \<times> SessionDir" where
  "write_bytes d data ws =
     (if data = [] then (False, ws)
      else case write_inner d data ws of
        (Some len, w, s) \<Rightarrow> (MAX_SIZE < len, w, s)
      | (None, w, s) \<Rightarrow> (False, w\<lparr>open_len := None\<rparr>, s))"

definition trim_file :: "ScrollDisk \<Rightarrow> ScrollbackWriter \<times> SessionDir \<Rightarrow> ScrollbackWriter \<times> SessionDir" where
  "trim_file d ws =
     (case ws of (w, s) \<Rightarrow>
      let w = w\<lparr>open_len := None\<rparr> in
      case bytes_file s of
        None \<Rightarrow> (w, s)
      | Some bytes \<Rightarrow>
          if \<not> trim_ok d then (w, s)
          else let keep_from = trim_start bytes (length bytes - TRIM_TO);
                   s = s\<lparr>bytes_file := Some (drop keep_from bytes), truncated_flag := truncated_flag s \<or> flag_ok d\<rparr>
               in case open_append (reopen_ok d) s of
                    None \<Rightarrow> (w, s)
                  | Some (n, s) \<Rightarrow> (w\<lparr>open_len := Some n\<rparr>, s))"

text \<open>\<open>load\<close>: a file that exists and cannot be read answers empty and not truncated.\<close>

definition load_scrollback :: "bool \<Rightarrow> SessionDir \<Rightarrow> string \<times> bool" where
  "load_scrollback readable s =
     (if bytes_file s \<noteq> None \<and> \<not> readable then ([], False) else (contents s, truncated_flag s))"

section \<open>What a write and a trim keep\<close>

lemma position_of_bound: "position_of P xs = Some k \<Longrightarrow> k < length xs"
  by (induction xs arbitrary: k) (auto split: if_splits)

lemma position_of_nth: "position_of P xs = Some k \<Longrightarrow> P (xs ! k)"
  by (induction xs arbitrary: k) (auto split: if_splits)

text \<open>A trim starts at its raw offset or within the search window past it.\<close>

lemma trim_start_bounds:
  assumes "raw \<le> length bytes"
  shows "raw \<le> trim_start bytes raw" "trim_start bytes raw \<le> length bytes" "trim_start bytes raw \<le> raw + LINE_SEARCH"
  using assms
  by (auto simp: trim_start_def Let_def split: option.splits dest: position_of_bound)

text \<open>What it keeps starts a line, unless the window held no line break.\<close>

lemma trim_start_line:
  assumes "trim_start bytes raw \<noteq> raw" "raw \<le> length bytes"
  shows "bytes ! (trim_start bytes raw - 1) = newline"
proof -
  obtain k where k: "position_of (\<lambda>b. b = newline) (take (min (length bytes) (raw + LINE_SEARCH) - raw) (drop raw bytes)) = Some k"
    "trim_start bytes raw = raw + k + 1"
    using assms by (auto simp: trim_start_def Let_def split: if_splits option.splits)
  from position_of_bound [OF k(1)] position_of_nth [OF k(1)] k(2) assms(2) show ?thesis by simp
qed

text \<open>The open handle's tracked length is the file's.\<close>

definition writer_ok :: "ScrollbackWriter \<Rightarrow> SessionDir \<Rightarrow> bool" where
  "writer_ok w s \<longleftrightarrow> (case open_len w of None \<Rightarrow> True | Some n \<Rightarrow> bytes_file s \<noteq> None \<and> n = length (contents s))"

lemma write_bytes_ok:
  "writer_ok w s \<Longrightarrow> write_bytes d data (w, s) = (over, w', s') \<Longrightarrow> writer_ok w' s'"
  by (auto simp: write_bytes_def write_inner_def writer_ok_def open_append_def contents_def
           split: if_splits option.splits prod.splits)

text \<open>A write that does not fail appends the data and reports a file past the cap.\<close>

lemma write_bytes_contents:
  assumes "writer_ok w s" "open_ok d" "append_fails d = None" "write_bytes d data (w, s) = (over, w', s')"
  shows "contents s' = contents s @ data" "truncated_flag s' = truncated_flag s" "termstate_file s' = termstate_file s"
    "data \<noteq> [] \<Longrightarrow> over \<longleftrightarrow> MAX_SIZE < length (contents s')"
  using assms
  by (auto simp: write_bytes_def write_inner_def writer_ok_def open_append_def contents_def
           split: if_splits option.splits prod.splits)

lemma trim_file_ok: "trim_file d (w, s) = (w', s') \<Longrightarrow> writer_ok w' s'"
  by (auto simp: trim_file_def writer_ok_def open_append_def contents_def Let_def split: if_splits option.splits prod.splits)

lemma trim_file_contents:
  assumes "trim_file d (w, s) = (w', s')"
  shows "contents s' = contents s \<and> truncated_flag s' = truncated_flag s \<or>
    contents s' = drop (trim_start (contents s) (length (contents s) - TRIM_TO)) (contents s) \<and>
    truncated_flag s' = (truncated_flag s \<or> flag_ok d)"
    "termstate_file s' = termstate_file s"
  using assms
  by (auto simp: trim_file_def open_append_def contents_def Let_def split: if_splits option.splits prod.splits)

end
