(* ===== verification/Replay.thy ===== *)
theory Replay
  imports Scrollback
begin

text \<open>
  What a client that attaches to a running session is handed: the paste-mode tracker
  (\<open>crates/daemon/src/termstate.rs\<close>), the scrollback gate and the lifecycle task of a session
  (\<open>ScrollbackGate\<close>, \<open>attach_lifecycle_inner\<close>, \<open>deliver_chunk\<close> and \<open>build_replay_snapshot\<close> of
  \<open>crates/daemon/src/session.rs\<close>), and the fallback that reads the file of a session with no task
  (\<open>file_scrollback_reply\<close> of \<open>crates/daemon/src/server/sessions.rs\<close>).
\<close>

section \<open>The bracketed-paste tracker\<close>

abbreviation ESC :: char where "ESC \<equiv> CHR 0x1B"

definition ENABLE :: string where "ENABLE = ESC # ''[?2004h''"
definition DISABLE :: string where "DISABLE = ESC # ''[?2004l''"
definition CARRYOVER :: nat where "CARRYOVER = length ENABLE - 1"

record BracketedPasteTracker =
  paste_enabled :: bool
  carry :: string

definition new_tracker :: "bool \<Rightarrow> BracketedPasteTracker" where
  "new_tracker initial = \<lparr>paste_enabled = initial, carry = []\<rparr>"

definition rfind :: "string \<Rightarrow> string \<Rightarrow> nat option" where
  "rfind haystack needle =
     (if needle = [] \<or> length haystack < length needle then None
      else List.find (\<lambda>i. take (length needle) (drop i haystack) = needle)
             (rev [0..<length haystack - length needle + 1]))"

definition last_mode_marker :: "string \<Rightarrow> bool option" where
  "last_mode_marker buf =
     (case (rfind buf ENABLE, rfind buf DISABLE) of
        (None, None) \<Rightarrow> None
      | (Some _, None) \<Rightarrow> Some True
      | (None, Some _) \<Rightarrow> Some False
      | (Some enable_pos, Some disable_pos) \<Rightarrow> Some (disable_pos < enable_pos))"

definition observe_paste :: "string \<Rightarrow> BracketedPasteTracker \<Rightarrow> bool \<times> BracketedPasteTracker" where
  "observe_paste chunk t =
     (let window = carry t @ chunk;
          resolved = last_mode_marker window;
          t = t\<lparr>carry := drop (length window - CARRYOVER) window\<rparr>
      in case resolved of
           Some new_state \<Rightarrow>
             if new_state \<noteq> paste_enabled t then (True, t\<lparr>paste_enabled := new_state\<rparr>) else (False, t)
         | None \<Rightarrow> (False, t))"

definition replay_prefix :: "bool \<Rightarrow> string" where
  "replay_prefix enabled = (if enabled then ENABLE else [])"

text \<open>\<open>load\<close> and \<open>save\<close> of the sidecar; a sidecar that cannot be read is off.\<close>

definition load_termstate :: "bool \<Rightarrow> SessionDir \<Rightarrow> bool" where
  "load_termstate readable s =
     (case termstate_file s of
        Some (c # _) \<Rightarrow> readable \<and> c = CHR ''1''
      | _ \<Rightarrow> False)"

definition save_termstate :: "bool \<Rightarrow> bool \<Rightarrow> SessionDir \<Rightarrow> SessionDir" where
  "save_termstate ok enabled s =
     (if ok then s\<lparr>termstate_file := Some (if enabled then ''1'' else ''0'')\<rparr> else s)"

section \<open>The scrollback gate\<close>

record GateState =
  gate_deleted :: bool
  writer :: "ScrollbackWriter option"

definition new_gate :: GateState where
  "new_gate = \<lparr>gate_deleted = False, writer = None\<rparr>"

text \<open>\<open>ScrollbackGate::write\<close>, for an action on the writer and the rest of what the closure holds.\<close>

definition gate_write ::
  "(ScrollbackWriter \<times> 's \<Rightarrow> 'r \<times> ScrollbackWriter \<times> 's) \<Rightarrow> GateState \<times> 's \<Rightarrow> 'r option \<times> GateState \<times> 's" where
  "gate_write act gs =
     (case gs of (g, s) \<Rightarrow>
      if gate_deleted g then (None, g, s)
      else let w = (case writer g of Some w \<Rightarrow> w | None \<Rightarrow> new_writer) in
           case act (w, s) of (r, w, s) \<Rightarrow> (Some r, g\<lparr>writer := Some w\<rparr>, s))"

definition gate_trim :: "ScrollDisk \<Rightarrow> GateState \<times> SessionDir \<Rightarrow> GateState \<times> SessionDir" where
  "gate_trim d gs =
     (case gs of (g, s) \<Rightarrow>
      if gate_deleted g then (g, s)
      else case writer g of
        None \<Rightarrow> (g, s)
      | Some w \<Rightarrow> (case trim_file d (w, s) of (w, s) \<Rightarrow> (g\<lparr>writer := Some w\<rparr>, s)))"

definition close_writer :: "GateState \<Rightarrow> GateState" where
  "close_writer g = g\<lparr>writer := None\<rparr>"

text \<open>\<open>ScrollbackGate::delete\<close> around the removal of the session's dir, which may fail.\<close>

definition gate_delete :: "bool \<Rightarrow> GateState \<times> SessionDir \<Rightarrow> GateState \<times> SessionDir" where
  "gate_delete removed gs =
     (case gs of (g, s) \<Rightarrow>
      (\<lparr>gate_deleted = True, writer = None\<rparr>,
       if removed then \<lparr>bytes_file = None, truncated_flag = False, termstate_file = None\<rparr> else s))"

section \<open>The lifecycle task\<close>

text \<open>
  A snapshot a client was handed: the replayed bytes, the truncated hint and what has been sent
  to its live channel so far. The channel is open while the client still receives from it.
\<close>

record ScrollbackSnapshot =
  snap_data :: string
  snap_truncated :: bool
  live :: "string list"
  receiving :: bool
  ended :: bool

text \<open>
  The task: whether it runs, whether it owns the persistence (\<open>dirs\<close>), the senders it holds (as
  positions in the snapshots handed out), the tracker, its gate, the dir, and whether a trim is
  awaited.
\<close>

record Life =
  running :: bool
  persists :: bool
  clients :: "nat list"
  bp_tracker :: BracketedPasteTracker
  gate :: GateState
  dir :: SessionDir
  trimming :: bool
  snapshots :: "ScrollbackSnapshot list"

definition build_replay_snapshot :: "bool \<Rightarrow> bool \<Rightarrow> SessionDir \<Rightarrow> bool \<Rightarrow> string \<times> bool" where
  "build_replay_snapshot has_dirs readable s bp_enabled =
     (if \<not> has_dirs then ([], False)
      else case load_scrollback readable s of
        (bytes, truncated) \<Rightarrow>
          if replay_prefix bp_enabled = [] then (bytes, truncated)
          else (replay_prefix bp_enabled @ bytes, truncated))"

text \<open>\<open>tx.send(..)\<close> on every sender; one whose receiver is gone is dropped.\<close>

definition send_live :: "string \<Rightarrow> nat list \<Rightarrow> ScrollbackSnapshot list \<Rightarrow> nat list \<times> ScrollbackSnapshot list" where
  "send_live bytes held snaps =
     (filter (\<lambda>i. receiving (snaps ! i)) held,
      map (\<lambda>(i, snap). if i \<in> set held \<and> receiving snap then snap\<lparr>live := live snap @ [bytes]\<rparr> else snap)
          (enumerate 0 snaps))"

text \<open>\<open>deliver_chunk\<close>: the clients, then the file and the tracker under the gate.\<close>

definition persist_chunk ::
  "ScrollDisk \<Rightarrow> string \<Rightarrow> ScrollbackWriter \<times> SessionDir \<times> BracketedPasteTracker
     \<Rightarrow> bool \<times> ScrollbackWriter \<times> SessionDir \<times> BracketedPasteTracker" where
  "persist_chunk d bytes wst =
     (case wst of (w, s, t) \<Rightarrow>
      case write_bytes d bytes (w, s) of (over_cap, w, s) \<Rightarrow>
      case observe_paste bytes t of (changed, t) \<Rightarrow>
        (over_cap, w, if changed then save_termstate (save_ok d) (paste_enabled t) s else s, t))"

definition deliver_chunk :: "ScrollDisk \<Rightarrow> string \<Rightarrow> Life \<Rightarrow> bool \<times> Life" where
  "deliver_chunk d bytes l =
     (case send_live bytes (clients l) (snapshots l) of (held, snaps) \<Rightarrow>
      let l = l\<lparr>clients := held, snapshots := snaps\<rparr> in
      if \<not> persists l then (False, l)
      else case gate_write (persist_chunk d bytes) (gate l, dir l, bp_tracker l) of
        (over_cap, g, s, t) \<Rightarrow> (over_cap = Some True, l\<lparr>gate := g, dir := s, bp_tracker := t\<rparr>))"

text \<open>The arms of the task's \<open>select!\<close>, and its end.\<close>

definition on_chunk :: "ScrollDisk \<Rightarrow> string \<Rightarrow> Life \<Rightarrow> Life" where
  "on_chunk d bytes l = (case deliver_chunk d bytes l of (over_cap, l) \<Rightarrow> l\<lparr>trimming := over_cap\<rparr>)"

definition on_trim :: "ScrollDisk \<Rightarrow> Life \<Rightarrow> Life" where
  "on_trim d l = (case gate_trim d (gate l, dir l) of (g, s) \<Rightarrow> l\<lparr>gate := g, dir := s, trimming := False\<rparr>)"

definition on_snapshot :: "bool \<Rightarrow> Life \<Rightarrow> Life" where
  "on_snapshot readable l =
     (case build_replay_snapshot (persists l) readable (dir l) (paste_enabled (bp_tracker l)) of
        (data, truncated) \<Rightarrow>
          l\<lparr>clients := clients l @ [length (snapshots l)],
             snapshots := snapshots l @ [\<lparr>snap_data = data, snap_truncated = truncated, live = [], receiving = True, ended = False\<rparr>]\<rparr>)"

definition on_exit :: "Life \<Rightarrow> Life" where
  "on_exit l =
     l\<lparr>running := False, clients := [], gate := close_writer (gate l),
        snapshots := map (\<lambda>(i, snap). if i \<in> set (clients l) then snap\<lparr>ended := True\<rparr> else snap) (enumerate 0 (snapshots l))\<rparr>"

definition start_life :: "bool \<Rightarrow> bool \<Rightarrow> GateState \<Rightarrow> SessionDir \<Rightarrow> Life" where
  "start_life has_dirs readable g s =
     \<lparr>running = True, persists = has_dirs, clients = [],
      bp_tracker = new_tracker (has_dirs \<and> load_termstate readable s), gate = g, dir = s,
      trimming = False, snapshots = []\<rparr>"

text \<open>
  What happens to the task: a chunk or a snapshot request it takes while no trim is awaited, the
  trim's end, the exit, and, at any time, a client hanging up or the dir being deleted.
\<close>

datatype LifeEvent =
    Chunk ScrollDisk string
  | TrimDone ScrollDisk
  | SnapshotRequest bool
  | Exited
  | HangUp nat
  | DeleteDir bool

fun life_step :: "LifeEvent \<Rightarrow> Life \<Rightarrow> Life option" where
  "life_step (Chunk d bytes) l = (if running l \<and> \<not> trimming l then Some (on_chunk d bytes l) else None)"
| "life_step (TrimDone d) l = (if running l \<and> trimming l then Some (on_trim d l) else None)"
| "life_step (SnapshotRequest readable) l = (if running l \<and> \<not> trimming l then Some (on_snapshot readable l) else None)"
| "life_step Exited l = (if running l \<and> \<not> trimming l then Some (on_exit l) else None)"
| "life_step (HangUp i) l =
     (if i < length (snapshots l) then Some (l\<lparr>snapshots := (snapshots l)[i := (snapshots l ! i)\<lparr>receiving := False\<rparr>]\<rparr>)
      else None)"
| "life_step (DeleteDir removed) l =
     (case gate_delete removed (gate l, dir l) of (g, s) \<Rightarrow> Some (l\<lparr>gate := g, dir := s\<rparr>))"

fun life_run :: "LifeEvent list \<Rightarrow> Life \<Rightarrow> Life option" where
  "life_run [] l = Some l"
| "life_run (e # es) l = (case life_step e l of None \<Rightarrow> None | Some l' \<Rightarrow> life_run es l')"

text \<open>\<open>file_scrollback_reply\<close>: what a client of a session with no task is answered.\<close>

definition file_scrollback_reply :: "bool \<Rightarrow> SessionDir \<Rightarrow> string \<times> bool" where
  "file_scrollback_reply readable s = build_replay_snapshot True readable s (load_termstate readable s)"

section \<open>Scanning for markers\<close>

text \<open>A terminal's paste flag after reading bytes from the left: each marker sets it.\<close>

fun paste_flag :: "bool \<Rightarrow> string \<Rightarrow> bool" where
  "paste_flag b [] = b"
| "paste_flag b (c # cs) =
     paste_flag (if take 8 (c # cs) = ENABLE then True else if take 8 (c # cs) = DISABLE then False else b) cs"

lemma marker_length [simp]: "length ENABLE = 8" "length DISABLE = 8" "ENABLE \<noteq> []" "DISABLE \<noteq> []" "ENABLE \<noteq> DISABLE" "DISABLE \<noteq> ENABLE"
  by (simp_all add: ENABLE_def DISABLE_def)

lemma CARRYOVER_eq [simp]: "CARRYOVER = 7"
  by (simp add: CARRYOVER_def)

lemma find_append: "List.find P (xs @ ys) = (case List.find P xs of None \<Rightarrow> List.find P ys | Some x \<Rightarrow> Some x)"
  by (induction xs) auto

lemma find_map: "List.find P (map f xs) = map_option f (List.find (P \<circ> f) xs)"
  by (induction xs) auto

lemma rfind_short: "length s < length n \<Longrightarrow> rfind s n = None"
  by (simp add: rfind_def)

lemma rfind_Cons:
  assumes "n \<noteq> []"
  shows "rfind (c # cs) n =
    (case rfind cs n of Some i \<Rightarrow> Some (Suc i)
     | None \<Rightarrow> if take (length n) (c # cs) = n then Some 0 else None)"
proof (cases "length cs < length n")
  case True
  then have none: "rfind cs n = None" by (rule rfind_short)
  show ?thesis
  proof (cases "length (c # cs) < length n")
    case True
    then have "take (length n) (c # cs) \<noteq> n" by (auto dest: arg_cong [where f = length])
    with True none show ?thesis by (simp add: rfind_def)
  next
    case False
    with \<open>length cs < length n\<close> have "length (c # cs) = length n" by simp
    with none assms show ?thesis by (simp add: rfind_def)
  qed
next
  case False
  define m where "m = length cs - length n"
  have "[0..<Suc (Suc m)] = 0 # map Suc [0..<Suc m]"
    by (simp add: map_Suc_upt upt_conv_Cons del: upt_Suc)
  then have rev: "rev [0..<Suc (Suc m)] = map Suc (rev [0..<Suc m]) @ [0]" by (simp add: rev_map del: upt_Suc)
  have "length (c # cs) - length n + 1 = Suc (Suc m)" "length cs - length n + 1 = Suc m"
    using False by (simp_all add: m_def Suc_diff_le)
  with False assms rev show ?thesis
    by (simp add: rfind_def find_append find_map comp_def map_option_case del: upt_Suc split: option.splits)
qed

lemma last_mode_marker_Cons:
  "last_mode_marker (c # cs) =
     (case last_mode_marker cs of Some b \<Rightarrow> Some b
      | None \<Rightarrow> if take 8 (c # cs) = ENABLE then Some True
               else if take 8 (c # cs) = DISABLE then Some False else None)"
  unfolding last_mode_marker_def
  by (simp add: rfind_Cons del: take_Suc_Cons split: option.splits)

lemma last_mode_marker_flag:
  "paste_flag b s = (case last_mode_marker s of None \<Rightarrow> b | Some v \<Rightarrow> v)"
proof (induction s arbitrary: b)
  case Nil
  then show ?case by (simp add: last_mode_marker_def rfind_short)
next
  case (Cons c cs)
  then show ?case
    by (simp add: last_mode_marker_Cons del: take_Suc_Cons split: option.splits)
qed

lemma last_mode_marker_append: "last_mode_marker ys = Some v \<Longrightarrow> last_mode_marker (xs @ ys) = Some v"
  by (induction xs) (simp_all add: last_mode_marker_Cons)

lemma paste_flag_short: "length s < 8 \<Longrightarrow> paste_flag b s = b"
  by (simp add: last_mode_marker_flag last_mode_marker_def rfind_short)

text \<open>Reading on needs only the last seven bytes: a marker that began earlier is complete.\<close>

lemma paste_flag_append: "paste_flag b (xs @ ys) = paste_flag (paste_flag b xs) (lastn 7 xs @ ys)"
proof (induction xs arbitrary: b)
  case Nil
  then show ?case by simp
next
  case (Cons c cs)
  show ?case
  proof (cases "length (c # cs) < 8")
    case True
    then show ?thesis by (simp add: paste_flag_short del: paste_flag.simps)
  next
    case False
    then have "7 \<le> length cs" by simp
    then have "lastn 7 (c # cs) = lastn 7 cs" by (simp add: lastn_def drop_Cons')
    with \<open>7 \<le> length cs\<close> show ?thesis using Cons.IH by simp
  qed
qed

text \<open>A marker cannot begin inside another, so a prefixed one only sets the flag.\<close>

lemma paste_flag_ENABLE: "paste_flag b (ENABLE @ s) = paste_flag True s"
  by (simp add: ENABLE_def DISABLE_def)


lemma paste_flag_no_ESC: "ESC \<notin> set xs \<Longrightarrow> paste_flag b (xs @ s) = paste_flag b s"
  by (induction xs arbitrary: b) (auto simp: ENABLE_def DISABLE_def take_Cons')

text \<open>One chunk keeps the tracker at the flag of everything read, with the last seven bytes carried.\<close>

definition tracks :: "bool \<Rightarrow> string \<Rightarrow> BracketedPasteTracker \<Rightarrow> bool" where
  "tracks initial out t \<longleftrightarrow> paste_enabled t = paste_flag initial out \<and> carry t = lastn 7 out"

lemma new_tracker_tracks: "tracks initial [] (new_tracker initial)"
  by (simp add: tracks_def new_tracker_def)

lemma observe_paste_tracks:
  assumes "tracks initial out t" "observe_paste chunk t = (changed, t')"
  shows "tracks initial (out @ chunk) t'" and "changed \<longleftrightarrow> paste_enabled t' \<noteq> paste_enabled t"
proof -
  have flag: "paste_flag initial (out @ chunk) =
      (case last_mode_marker (carry t @ chunk) of None \<Rightarrow> paste_enabled t | Some v \<Rightarrow> v)"
    using assms(1) by (simp add: tracks_def paste_flag_append [of initial out] last_mode_marker_flag [of "paste_flag initial out"]
          split: option.splits)
  have tail: "drop (length (carry t @ chunk) - 7) (carry t @ chunk) = lastn 7 (out @ chunk)"
    using assms(1) lastn_lastn_append [of 7 out chunk] lastn_def [of 7 "lastn 7 out @ chunk"]
    by (simp only: tracks_def)
  show "tracks initial (out @ chunk) t'" "changed \<longleftrightarrow> paste_enabled t' \<noteq> paste_enabled t"
    using assms(2) flag tail
    by (auto simp: observe_paste_def tracks_def Let_def split: option.splits if_splits)
qed

section \<open>What the task keeps\<close>

text \<open>The output an event brings.\<close>

fun out_of :: "LifeEvent \<Rightarrow> string" where
  "out_of (Chunk d bytes) = bytes"
| "out_of _ = []"

text \<open>The chunks it sends to the attached clients.\<close>

fun chunks_of :: "LifeEvent \<Rightarrow> string list" where
  "chunks_of (Chunk d bytes) = [bytes]"
| "chunks_of _ = []"

lemma concat_chunks_of [simp]: "concat (chunks_of e) = out_of e"
  by (cases e) simp_all

definition outputs :: "LifeEvent list \<Rightarrow> string" where
  "outputs es = concat (map out_of es)"

text \<open>A disk that takes what is written; the trim's rewrite and the reopening may still fail.\<close>

definition disk_fine :: "ScrollDisk \<Rightarrow> bool" where
  "disk_fine d \<longleftrightarrow> open_ok d \<and> append_fails d = None \<and> flag_ok d \<and> save_ok d"

fun event_fine :: "LifeEvent \<Rightarrow> bool" where
  "event_fine (Chunk d bytes) = disk_fine d"
| "event_fine (TrimDone d) = disk_fine d"
| "event_fine (SnapshotRequest readable) = readable"
| "event_fine (DeleteDir removed) = False"
| "event_fine _ = True"

text \<open>The file holds the end of the output: all of it unless the truncated flag stands.\<close>

definition holds_tail :: "string \<Rightarrow> string \<Rightarrow> bool \<Rightarrow> bool" where
  "holds_tail h kept truncated \<longleftrightarrow>
     (\<exists>gone. h = gone @ kept \<and> (gone \<noteq> [] \<longrightarrow> truncated \<and> 8 \<le> length kept))"

text \<open>A reply replays the output so far, with the paste flag it ends in set first.\<close>

definition replays :: "string \<Rightarrow> string \<times> bool \<Rightarrow> bool" where
  "replays h reply \<longleftrightarrow>
     (\<exists>kept. fst reply = replay_prefix (paste_flag False h) @ kept \<and> holds_tail h kept (snd reply))"

text \<open>A dir left by a daemon that had written \<open>past\<close>, not inside an escape sequence.\<close>

definition resumable :: "string \<Rightarrow> SessionDir \<Rightarrow> bool" where
  "resumable past s \<longleftrightarrow>
     holds_tail past (contents s) (truncated_flag s) \<and> load_termstate True s = paste_flag False past \<and>
     ESC \<notin> set (lastn 7 past)"

definition gate_open :: "GateState \<Rightarrow> SessionDir \<Rightarrow> bool" where
  "gate_open g s \<longleftrightarrow> \<not> gate_deleted g \<and> (case writer g of None \<Rightarrow> True | Some w \<Rightarrow> writer_ok w s)"

definition life_inv :: "string \<Rightarrow> string \<Rightarrow> Life \<Rightarrow> bool" where
  "life_inv past out l \<longleftrightarrow>
     persists l \<and> gate_open (gate l) (dir l) \<and>
     holds_tail (past @ out) (contents (dir l)) (truncated_flag (dir l)) \<and>
     load_termstate True (dir l) = paste_enabled (bp_tracker l) \<and>
     tracks (paste_flag False past) out (bp_tracker l) \<and>
     (\<forall>i \<in> set (clients l). i < length (snapshots l)) \<and>
     (trimming l \<longrightarrow> MAX_SIZE < length (contents (dir l)))"

lemma holds_tail_append: "holds_tail h kept tr \<Longrightarrow> holds_tail (h @ x) (kept @ x) tr"
  by (fastforce simp: holds_tail_def)

lemma holds_tail_drop:
  "holds_tail h kept tr \<Longrightarrow> 8 + n \<le> length kept \<Longrightarrow> holds_tail h (drop n kept) True"
  unfolding holds_tail_def by (metis append.assoc append_take_drop_id add_le_imp_le_diff length_drop)

text \<open>The trim of a file past the cap keeps far more than a marker.\<close>

lemma trim_keeps_tail:
  assumes "holds_tail h (contents s) (truncated_flag s)" "MAX_SIZE < length (contents s)" "flag_ok d"
    "trim_file d (w, s) = (w', s')"
  shows "holds_tail h (contents s') (truncated_flag s')"
proof -
  let ?n = "trim_start (contents s) (length (contents s) - TRIM_TO)"
  have "?n \<le> length (contents s) - TRIM_TO + LINE_SEARCH" by (intro trim_start_bounds(3)) simp
  then have "8 + ?n \<le> length (contents s)" using assms(2) by (simp add: TRIM_TO_def LINE_SEARCH_def MAX_SIZE_def)
  from holds_tail_drop [OF assms(1) this] trim_file_contents(1) [OF assms(4)] assms(1,3) show ?thesis by auto
qed

lemma life_inv_trim:
  assumes inv: "life_inv past out l" and "trimming l" "flag_ok d"
  shows "life_inv past out (on_trim d l)"
proof (cases "writer (gate l)")
  case None
  with inv show ?thesis by (simp add: life_inv_def on_trim_def gate_trim_def split: if_splits)
next
  case (Some w)
  obtain w' s' where t: "trim_file d (w, dir l) = (w', s')" by fastforce
  have "holds_tail (past @ out) (contents s') (truncated_flag s')"
    using trim_keeps_tail [OF _ _ assms(3) t] inv assms(2) by (simp add: life_inv_def)
  with Some t inv trim_file_ok [OF t] trim_file_contents(2) [OF t] show ?thesis
    by (simp add: life_inv_def on_trim_def gate_trim_def gate_open_def load_termstate_def)
qed

lemma save_termstate_simps [simp]:
  "contents (save_termstate ok b s) = contents s" "truncated_flag (save_termstate ok b s) = truncated_flag s"
  "writer_ok w (save_termstate ok b s) = writer_ok w s" "load_termstate True (save_termstate True b s) = b"
  by (simp_all add: save_termstate_def contents_def writer_ok_def load_termstate_def split: option.splits)

text \<open>A chunk under the gate: appended, tracked and its flag saved.\<close>

lemma persist_chunk_keeps:
  assumes "disk_fine d" "writer_ok w s" "tracks b out t" "load_termstate True s = paste_enabled t"
    "persist_chunk d bytes (w, s, t) = (over, w', s', t')"
  shows "contents s' = contents s @ bytes" "truncated_flag s' = truncated_flag s" "writer_ok w' s'"
    "tracks b (out @ bytes) t'" "load_termstate True s' = paste_enabled t'" "over \<Longrightarrow> MAX_SIZE < length (contents s')"
proof -
  obtain w1 s1 where w: "write_bytes d bytes (w, s) = (over, w1, s1)"
    using assms(5) by (auto simp: persist_chunk_def split: prod.splits)
  obtain ch t1 where t: "observe_paste bytes t = (ch, t1)" by fastforce
  have eqs: "w' = w1" "t' = t1" "s' = (if ch then save_termstate True (paste_enabled t1) s1 else s1)"
    using assms(1,5) w t by (auto simp: persist_chunk_def disk_fine_def)
  have fine: "open_ok d" "append_fails d = None" using assms(1) by (simp_all add: disk_fine_def)
  note wr = write_bytes_contents [OF assms(2) fine w] write_bytes_ok [OF assms(2) w]
  note tr = observe_paste_tracks [OF assms(3) t]
  show "contents s' = contents s @ bytes" "truncated_flag s' = truncated_flag s" "writer_ok w' s'"
    "tracks b (out @ bytes) t'"
    using eqs wr tr by simp_all
  show "load_termstate True s' = paste_enabled t'"
  proof -
    have "load_termstate True s1 = load_termstate True s" using wr(3) by (simp add: load_termstate_def)
    with eqs tr(2) assms(4) show ?thesis by auto
  qed
  have "over \<Longrightarrow> bytes \<noteq> []" using w by (auto simp: write_bytes_def)
  then show "over \<Longrightarrow> MAX_SIZE < length (contents s')" using eqs wr by simp
qed

lemma send_live_length [simp]: "length (snd (send_live bytes held snaps)) = length snaps"
  by (simp add: send_live_def)

lemma send_live_nth:
  "i < length snaps \<Longrightarrow> snd (send_live bytes held snaps) ! i =
     (if i \<in> set held \<and> receiving (snaps ! i) then (snaps ! i)\<lparr>live := live (snaps ! i) @ [bytes]\<rparr> else snaps ! i)"
  by (simp add: send_live_def nth_enumerate_eq)

text \<open>A chunk the task takes, spelled out over the sends and the write under the gate.\<close>

lemma on_chunk_open:
  assumes "persists l" "gate_open (gate l) (dir l)"
    "persist_chunk d bytes (case writer (gate l) of Some w \<Rightarrow> w | None \<Rightarrow> new_writer, dir l, bp_tracker l) = (over, w', s', t')"
  shows "on_chunk d bytes l =
    l\<lparr>clients := fst (send_live bytes (clients l) (snapshots l)), snapshots := snd (send_live bytes (clients l) (snapshots l)),
       gate := (gate l)\<lparr>writer := Some w'\<rparr>, dir := s', bp_tracker := t', trimming := over\<rparr>"
  using assms by (simp add: on_chunk_def deliver_chunk_def gate_write_def gate_open_def Let_def split: prod.splits)

lemma gate_open_writer:
  "gate_open g s \<Longrightarrow> writer_ok (case writer g of Some w \<Rightarrow> w | None \<Rightarrow> new_writer) s"
  by (simp add: gate_open_def new_writer_def writer_ok_def split: option.splits)

lemma life_inv_chunk:
  assumes inv: "life_inv past out l" and "disk_fine d"
  shows "life_inv past (out @ bytes) (on_chunk d bytes l)"
proof -
  let ?w = "case writer (gate l) of Some w \<Rightarrow> w | None \<Rightarrow> new_writer"
  obtain over w' s' t' where p: "persist_chunk d bytes (?w, dir l, bp_tracker l) = (over, w', s', t')"
    by (metis prod.collapse)
  have g: "gate_open (gate l) (dir l)" "persists l" using inv by (simp_all add: life_inv_def)
  have k: "tracks (paste_flag False past) out (bp_tracker l)" "load_termstate True (dir l) = paste_enabled (bp_tracker l)"
    using inv by (simp_all add: life_inv_def)
  note kept = persist_chunk_keeps [OF assms(2) gate_open_writer [OF g(1)] k p]
  have "holds_tail (past @ out @ bytes) (contents s') (truncated_flag s')"
    using inv holds_tail_append [of "past @ out" "contents (dir l)" "truncated_flag (dir l)" bytes] kept(1,2)
    by (simp add: life_inv_def)
  moreover have "\<forall>i \<in> set (fst (send_live bytes (clients l) (snapshots l))). i < length (snapshots l)"
    using inv by (auto simp: life_inv_def send_live_def)
  ultimately show ?thesis
    using kept g inv unfolding on_chunk_open [OF g(2,1) p] by (simp add: life_inv_def gate_open_def)
qed

lemma life_inv_step:
  assumes inv: "life_inv past out l" and "event_fine e" and step: "life_step e l = Some l'"
  shows "life_inv past (out @ out_of e) l'"
proof (cases e)
  case (Chunk d bytes)
  with assms show ?thesis by (auto simp: life_inv_chunk split: if_splits)
next
  case (TrimDone d)
  with assms show ?thesis by (auto simp: life_inv_trim disk_fine_def split: if_splits)
next
  case (SnapshotRequest readable)
  with assms show ?thesis
    by (auto simp: life_inv_def on_snapshot_def less_SucI split: if_splits prod.splits)
next
  case Exited
  with assms show ?thesis by (auto simp: life_inv_def on_exit_def close_writer_def gate_open_def split: if_splits)
next
  case (HangUp i)
  with assms show ?thesis by (auto simp: life_inv_def split: if_splits)
qed (use assms in simp)

lemma life_inv_run:
  assumes "life_inv past out l" "\<forall>e \<in> set es. event_fine e" "life_run es l = Some l'"
  shows "life_inv past (out @ outputs es) l'"
  using assms
proof (induction es arbitrary: out l)
  case (Cons e es)
  then obtain l1 where "life_step e l = Some l1" "life_run es l1 = Some l'" by (auto split: option.splits)
  with Cons.IH [OF life_inv_step [OF Cons.prems(1) _ this(1)]] Cons.prems(2) show ?case by (simp add: outputs_def)
qed (simp add: outputs_def)

lemma life_inv_start: "resumable past s \<Longrightarrow> life_inv past [] (start_life True True new_gate s)"
  by (simp add: life_inv_def start_life_def resumable_def new_gate_def gate_open_def new_tracker_tracks)
     (simp add: new_tracker_def)

text \<open>Under the invariant a reply built from the dir replays the output so far.\<close>

lemma life_inv_flag:
  assumes "life_inv past out l" "ESC \<notin> set (lastn 7 past)"
  shows "paste_enabled (bp_tracker l) = paste_flag False (past @ out)"
  using assms paste_flag_no_ESC [OF assms(2)]
  by (simp add: life_inv_def tracks_def paste_flag_append [of False past out])

lemma build_replays:
  assumes "holds_tail h (contents s) (truncated_flag s)"
  shows "replays h (build_replay_snapshot True True s (paste_flag False h))"
  using assms by (auto simp: replays_def build_replay_snapshot_def load_scrollback_def replay_prefix_def)

text \<open>The terminal that reads a replay ends in the child's paste flag, and stays with it.\<close>

lemma replays_flag:
  assumes "replays h (data, truncated)"
  shows "paste_flag False (data @ rest) = paste_flag False (h @ rest)"
proof -
  let ?e = "paste_flag False h"
  obtain gone kept where d: "data = replay_prefix ?e @ kept" and h: "h = gone @ kept" and
    long: "gone \<noteq> [] \<Longrightarrow> 8 \<le> length kept"
    using assms by (auto simp: replays_def holds_tail_def)
  have prefixed: "paste_flag False (data @ rest) = paste_flag ?e (kept @ rest)"
    by (cases ?e) (simp_all add: d replay_prefix_def paste_flag_ENABLE)
  have "paste_flag ?e kept = ?e"
    using last_mode_marker_append [of kept _ gone] by (auto simp: h last_mode_marker_flag split: option.splits)
  moreover have "lastn 7 h = lastn 7 kept"
    using long by (cases "gone = []") (simp_all add: h lastn_append lastn_def)
  ultimately show ?thesis
    using prefixed paste_flag_append [of ?e kept rest] paste_flag_append [of False h rest] by simp
qed

section \<open>What an attached client receives\<close>

definition attached :: "nat \<Rightarrow> Life \<Rightarrow> bool" where
  "attached i l \<longleftrightarrow> i < length (snapshots l) \<and> receiving (snapshots l ! i) \<and> (running l \<longrightarrow> i \<in> set (clients l))"

text \<open>While it does not hang up, a client keeps its snapshot and is sent exactly what comes.\<close>

lemma on_chunk_snapshots:
  "snapshots (on_chunk d bytes l) = snd (send_live bytes (clients l) (snapshots l)) \<and>
   clients (on_chunk d bytes l) = fst (send_live bytes (clients l) (snapshots l)) \<and>
   running (on_chunk d bytes l) = running l"
  by (simp add: on_chunk_def deliver_chunk_def Let_def split: prod.splits)

lemma attached_step:
  assumes "attached i l" "e \<noteq> HangUp i" "life_step e l = Some l'"
  shows "attached i l'" "snap_data (snapshots l' ! i) = snap_data (snapshots l ! i)"
    "snap_truncated (snapshots l' ! i) = snap_truncated (snapshots l ! i)"
    "live (snapshots l' ! i) = live (snapshots l ! i) @ chunks_of e"
proof -
  have "attached i l' \<and> snap_data (snapshots l' ! i) = snap_data (snapshots l ! i) \<and>
    snap_truncated (snapshots l' ! i) = snap_truncated (snapshots l ! i) \<and>
    live (snapshots l' ! i) = live (snapshots l ! i) @ chunks_of e"
  proof (cases e)
    case (Chunk d bytes)
    with assms have l': "l' = on_chunk d bytes l" and r: "running l" by (auto split: if_splits)
    from assms(1) r show ?thesis
      by (simp add: l' Chunk attached_def on_chunk_snapshots send_live_nth) (simp add: send_live_def)
  next
    case (TrimDone d)
    with assms show ?thesis by (auto simp: attached_def on_trim_def split: if_splits prod.splits)
  next
    case (SnapshotRequest readable)
    with assms show ?thesis by (auto simp: attached_def on_snapshot_def nth_append split: if_splits prod.splits)
  next
    case Exited
    with assms show ?thesis by (auto simp: attached_def on_exit_def nth_enumerate_eq split: if_splits)
  next
    case (HangUp j)
    with assms show ?thesis by (auto simp: attached_def split: if_splits)
  next
    case (DeleteDir removed)
    with assms show ?thesis by (auto simp: attached_def split: prod.splits)
  qed
  then show "attached i l'" "snap_data (snapshots l' ! i) = snap_data (snapshots l ! i)"
    "snap_truncated (snapshots l' ! i) = snap_truncated (snapshots l ! i)"
    "live (snapshots l' ! i) = live (snapshots l ! i) @ chunks_of e" by blast+
qed

lemma attached_run:
  assumes "attached i l" "HangUp i \<notin> set es" "life_run es l = Some l'"
  shows "snap_data (snapshots l' ! i) = snap_data (snapshots l ! i) \<and>
    snap_truncated (snapshots l' ! i) = snap_truncated (snapshots l ! i) \<and>
    concat (live (snapshots l' ! i)) = concat (live (snapshots l ! i)) @ outputs es"
  using assms
proof (induction es arbitrary: l)
  case (Cons e es)
  then obtain l1 where s: "life_step e l = Some l1" "life_run es l1 = Some l'" by (auto split: option.splits)
  have "e \<noteq> HangUp i" using Cons.prems(2) by auto
  note st = attached_step [OF Cons.prems(1) this s(1)]
  from Cons.IH [OF st(1) _ s(2)] st(2-4) Cons.prems(2) show ?case by (simp add: outputs_def)
qed (simp add: outputs_def)

lemma life_run_append: "life_run (es @ fs) l = (case life_run es l of None \<Rightarrow> None | Some l' \<Rightarrow> life_run fs l')"
  by (induction es arbitrary: l) (auto split: option.splits)

lemma outputs_append: "outputs (es @ fs) = outputs es @ outputs fs"
  by (simp add: outputs_def)

lemma outputs_Nil [simp]: "outputs [] = []"
  by (simp add: outputs_def)

lemma outputs_Cons [simp]: "outputs (e # es) = out_of e @ outputs es"
  by (simp add: outputs_def)

end
