(* ===== verification/Output_Lane.thy ===== *)
theory Output_Lane
  imports Replay
begin

text \<open>
  One connection's way of a session's output: the PTY lane that bounds what a session has queued
  (\<open>PtyLane\<close> of \<open>crates/daemon/src/server/connection.rs\<close>), the forwarder task with its resync, and
  the \<open>LoadScrollback\<close> and \<open>Detach\<close> handlers (\<open>crates/daemon/src/server/sessions.rs\<close>).

  Base64 is an argument: \<open>enc\<close> encodes. A session's live channel is the \<open>live\<close> list of the snapshot
  it came with, and a receiver is the snapshot's position with the number of chunks taken from it.
\<close>

section \<open>The PTY lane\<close>

definition PTY_SESSION_BUDGET :: nat where "PTY_SESSION_BUDGET = 4 * 1024 * 1024"

datatype WireMsg =
    PtyOutput string string
  | ScrollbackMsg string string bool "string option" bool
  | OtherMsg

type_synonym lane = "string \<Rightarrow> nat option"

definition queued :: "string \<Rightarrow> lane \<Rightarrow> nat" where
  "queued sid q = (case q sid of Some n \<Rightarrow> n | None \<Rightarrow> 0)"

definition try_charge :: "string \<Rightarrow> nat \<Rightarrow> lane \<Rightarrow> bool \<times> lane" where
  "try_charge sid len q =
     (if len = 0 then (True, q)
      else let now = queued sid q in
        if PTY_SESSION_BUDGET < now + len then (False, q) else (True, q(sid \<mapsto> now + len)))"

definition release_taken :: "WireMsg \<Rightarrow> lane \<Rightarrow> lane" where
  "release_taken msg q =
     (case msg of
        PtyOutput sid data_b64 \<Rightarrow>
          if data_b64 = [] then q
          else let left = queued sid q - length data_b64 in if left = 0 then q(sid := None) else q(sid \<mapsto> left)
      | _ \<Rightarrow> q)"

text \<open>What a queue holds of a session's output; the lane counts exactly that and keeps it within the budget.\<close>

fun queued_in :: "string \<Rightarrow> WireMsg list \<Rightarrow> nat" where
  "queued_in sid [] = 0"
| "queued_in sid (PtyOutput x d # ms) = (if x = sid then length d else 0) + queued_in sid ms"
| "queued_in sid (_ # ms) = queued_in sid ms"

lemma queued_in_append [simp]: "queued_in sid (xs @ ys) = queued_in sid xs + queued_in sid ys"
  by (induction xs rule: queued_in.induct [of _ sid for sid]) auto

definition lane_ok :: "lane \<Rightarrow> WireMsg list \<Rightarrow> bool" where
  "lane_ok q ms \<longleftrightarrow> (\<forall>sid. queued sid q = queued_in sid ms \<and> queued_in sid ms \<le> PTY_SESSION_BUDGET)"

lemma lane_ok_charge:
  assumes "lane_ok q ms" "try_charge sid (length d) q = (True, q')"
  shows "lane_ok q' (ms @ [PtyOutput sid d])"
  using assms by (auto simp: lane_ok_def try_charge_def queued_def Let_def split: if_splits)

lemma queued_release: "queued sid (release_taken m q) = queued sid q - queued_in sid [m]"
  by (cases m) (simp_all add: release_taken_def queued_def Let_def)

lemma lane_ok_pump:
  assumes "lane_ok q (m # ms)"
  shows "lane_ok (release_taken m q) ms"
proof -
  have "queued sid q = queued_in sid [m] + queued_in sid ms \<and> queued_in sid [m] + queued_in sid ms \<le> PTY_SESSION_BUDGET" for sid
    using assms queued_in_append [of sid "[m]" ms] unfolding lane_ok_def by (metis append_Cons append_Nil)
  then show ?thesis by (metis lane_ok_def queued_release add_diff_cancel_left' add_leD2)
qed

lemma lane_ok_uncharged: "lane_ok q ms \<Longrightarrow> (\<And>sid d. m \<noteq> PtyOutput sid d) \<Longrightarrow> lane_ok q (ms @ [m])"
  by (cases m) (auto simp: lane_ok_def)

section \<open>The forwarder and the handlers\<close>

text \<open>
  \<open>Reading i k\<close> has taken \<open>k\<close> chunks of snapshot \<open>i\<close>'s channel; \<open>Draining\<close> waits for the pump to take
  what the session queued; \<open>Resyncing j\<close> holds a fresh snapshot not sent yet.
\<close>

datatype Forwarder = NoForwarder | Reading nat nat | Draining | Resyncing nat

text \<open>The handler of the connection's requests: idle, or holding the snapshot that answers a request.\<close>

datatype Handler = Idle | Answering "string option" nat

record OutConn =
  life :: Life
  lane :: lane
  out_q :: "WireMsg list"
  forwarder :: Forwarder
  handler :: Handler

definition hang_up :: "nat \<Rightarrow> Life \<Rightarrow> Life" where
  "hang_up i l = (case life_step (HangUp i) l of Some l' \<Rightarrow> l' | None \<Rightarrow> l)"

definition scrollback_reply :: "(string \<Rightarrow> string) \<Rightarrow> string \<Rightarrow> string \<Rightarrow> bool \<Rightarrow> string option \<Rightarrow> bool \<Rightarrow> WireMsg" where
  "scrollback_reply enc sid data truncated rid restarted = ScrollbackMsg sid (enc data) truncated rid restarted"

definition send_out :: "WireMsg \<Rightarrow> OutConn \<Rightarrow> OutConn" where
  "send_out m c = c\<lparr>out_q := out_q c @ [m]\<rparr>"

text \<open>\<open>abort\<close> and awaiting it: the task is gone, and with it the receiver it held.\<close>

definition stop_forwarder :: "OutConn \<Rightarrow> OutConn" where
  "stop_forwarder c =
     c\<lparr>forwarder := NoForwarder,
        life := (case forwarder c of Reading i _ \<Rightarrow> hang_up i (life c) | Resyncing i \<Rightarrow> hang_up i (life c) | _ \<Rightarrow> life c)\<rparr>"

text \<open>One turn of \<open>forward\<close>: a chunk charged and queued, or the receiver dropped; the end of a closed channel.\<close>

definition forward :: "(string \<Rightarrow> string) \<Rightarrow> string \<Rightarrow> OutConn \<Rightarrow> OutConn option" where
  "forward enc sid c =
     (case forwarder c of
        Reading i k \<Rightarrow>
          let snap = snapshots (life c) ! i in
          if k < length (live snap) then
            let data_b64 = enc (live snap ! k) in
            (case try_charge sid (length data_b64) (lane c) of
               (True, q) \<Rightarrow> Some (send_out (PtyOutput sid data_b64) (c\<lparr>lane := q, forwarder := Reading i (k + 1)\<rparr>))
             | (False, q) \<Rightarrow> Some (c\<lparr>life := hang_up i (life c), forwarder := Draining\<rparr>))
          else if ended snap then Some (c\<lparr>forwarder := NoForwarder\<rparr>)
          else None
      | _ \<Rightarrow> None)"

text \<open>
  What a snapshot request comes to: the task's snapshot (as the position it got), the session
  exited or unknown, or no answer in time.
\<close>

definition take_snapshot :: "bool \<Rightarrow> OutConn \<Rightarrow> (nat \<times> OutConn) option" where
  "take_snapshot readable c =
     (case life_step (SnapshotRequest readable) (life c) of
        Some l \<Rightarrow> Some (length (snapshots (life c)), c\<lparr>life := l\<rparr>)
      | None \<Rightarrow> None)"

definition file_reply :: "(string \<Rightarrow> string) \<Rightarrow> bool \<Rightarrow> string \<Rightarrow> string option \<Rightarrow> OutConn \<Rightarrow> WireMsg" where
  "file_reply enc readable sid rid c =
     (case file_scrollback_reply readable (dir (life c)) of (data, truncated) \<Rightarrow> scrollback_reply enc sid data truncated rid False)"

definition snapshot_reply :: "(string \<Rightarrow> string) \<Rightarrow> string \<Rightarrow> nat \<Rightarrow> string option \<Rightarrow> OutConn \<Rightarrow> WireMsg" where
  "snapshot_reply enc sid i rid c =
     (let snap = snapshots (life c) ! i in scrollback_reply enc sid (snap_data snap) (snap_truncated snap) rid True)"

text \<open>The turns of \<open>resync\<close>, once the session's queue has drained.\<close>

definition resync_take :: "bool \<Rightarrow> string \<Rightarrow> OutConn \<Rightarrow> OutConn option" where
  "resync_take readable sid c =
     (if forwarder c = Draining \<and> queued sid (lane c) = 0 then
        (case take_snapshot readable c of Some (i, c) \<Rightarrow> Some (c\<lparr>forwarder := Resyncing i\<rparr>) | None \<Rightarrow> None)
      else None)"

definition resync_send :: "(string \<Rightarrow> string) \<Rightarrow> string \<Rightarrow> OutConn \<Rightarrow> OutConn option" where
  "resync_send enc sid c =
     (case forwarder c of
        Resyncing i \<Rightarrow> Some (send_out (snapshot_reply enc sid i None c) (c\<lparr>forwarder := Reading i 0\<rparr>))
      | _ \<Rightarrow> None)"

definition resync_exited :: "(string \<Rightarrow> string) \<Rightarrow> bool \<Rightarrow> string \<Rightarrow> OutConn \<Rightarrow> OutConn option" where
  "resync_exited enc readable sid c =
     (if forwarder c = Draining \<and> queued sid (lane c) = 0
      then Some (send_out (file_reply enc readable sid None c) (c\<lparr>forwarder := NoForwarder\<rparr>)) else None)"

definition resync_gone :: "string \<Rightarrow> OutConn \<Rightarrow> OutConn option" where
  "resync_gone sid c =
     (if forwarder c = Draining \<and> queued sid (lane c) = 0 then Some (c\<lparr>forwarder := NoForwarder\<rparr>) else None)"

text \<open>\<open>load_scrollback_and_attach_forwarder\<close>: the snapshot, then \<open>reply_then_forward\<close>; or the file's reply.\<close>

definition load_take :: "bool \<Rightarrow> string option \<Rightarrow> OutConn \<Rightarrow> OutConn option" where
  "load_take readable rid c =
     (if handler c = Idle then
        (case take_snapshot readable c of Some (i, c) \<Rightarrow> Some (c\<lparr>handler := Answering rid i\<rparr>) | None \<Rightarrow> None)
      else None)"

definition reply_then_forward :: "(string \<Rightarrow> string) \<Rightarrow> string \<Rightarrow> OutConn \<Rightarrow> OutConn option" where
  "reply_then_forward enc sid c =
     (case handler c of
        Answering rid i \<Rightarrow>
          let c = stop_forwarder c in
          Some (send_out (snapshot_reply enc sid i rid c) (c\<lparr>handler := Idle, forwarder := Reading i 0\<rparr>))
      | Idle \<Rightarrow> None)"

definition load_file :: "(string \<Rightarrow> string) \<Rightarrow> bool \<Rightarrow> string \<Rightarrow> string option \<Rightarrow> OutConn \<Rightarrow> OutConn option" where
  "load_file enc readable sid rid c =
     (if handler c = Idle then Some (send_out (file_reply enc readable sid rid c) c) else None)"

definition detach :: "OutConn \<Rightarrow> OutConn option" where
  "detach c = (if handler c = Idle then Some (stop_forwarder c) else None)"

text \<open>The send pump takes one message off the queue.\<close>

definition pump :: "OutConn \<Rightarrow> (WireMsg \<times> OutConn) option" where
  "pump c = (case out_q c of [] \<Rightarrow> None | m # ms \<Rightarrow> Some (m, c\<lparr>out_q := ms, lane := release_taken m (lane c)\<rparr>))"

end
