(* ===== verification/Pane_Load.thy ===== *)
theory Pane_Load
  imports Prelude
begin

text \<open>
  A pane of the native client loading its session's scrollback: the load with its timeout and
  retries (\<open>apps/native/src/scrollback_load.rs\<close>) and the part of the pane that feeds the terminal
  from it (\<open>attach\<close>, \<open>expect_scrollback\<close>, \<open>on_scrollback\<close>, \<open>on_pty_output\<close> and \<open>tick_load\<close> of
  \<open>apps/native/src/term_view.rs\<close>). Times are milliseconds. Base64 is an argument: \<open>dec64\<close> decodes
  or fails.
\<close>

section \<open>The load\<close>

definition REQUEST_TIMEOUT :: nat where "REQUEST_TIMEOUT = 8000"
definition RETRY_DELAYS :: "nat list" where "RETRY_DELAYS = [2000, 4000]"

definition CLEAR_LINE :: string where "CLEAR_LINE = [CHR 0x0D, CHR 0x1B] @ ''[2K''"

definition TRUNCATED_BANNER :: string where
  "TRUNCATED_BANNER = CHR 0x1B # ''[33m[earlier output discarded]'' @ CHR 0x1B # ''[0m'' @ [CHR 0x0D, CHR 0x0A]"

abbreviation em_dash :: string where "em_dash \<equiv> [CHR 0xE2, CHR 0x80, CHR 0x94]"

definition FAILED_BANNER :: string where
  "FAILED_BANNER = CHR 0x1B # ''[33m[could not load earlier output '' @ em_dash @ '' the daemon is not responding. ''
     @ ''The session itself may still be running; reopen this pane to retry.]'' @ CHR 0x1B # ''[0m'' @ [CHR 0x0D, CHR 0x0A]"

definition retry_line :: "nat \<Rightarrow> string" where
  "retry_line attempt = CLEAR_LINE @ CHR 0x1B # ''[33m[daemon is slow to respond '' @ em_dash @ '' retrying ('' @ dec attempt
     @ ''/'' @ dec (length RETRY_DELAYS) @ '')'' @ [CHR 0xE2, CHR 0x80, CHR 0xA6] @ '']'' @ CHR 0x1B # ''[0m''"

datatype LoadState = LoadingState nat | LoadedState | FailedState

datatype Step = Status string | Request | History string | Live string | Resize

datatype ReplyVerdict = Accepted "Step list" | Stale | NotLoading

datatype Phase = Awaiting nat nat | Backoff nat nat | Loaded | Failed

record ScrollbackLoad =
  phase :: Phase
  buffer :: "string list"
  request_id :: "string option"

definition start_load :: "nat \<Rightarrow> ScrollbackLoad" where
  "start_load now = \<lparr>phase = Awaiting 1 (now + REQUEST_TIMEOUT), buffer = [], request_id = None\<rparr>"

definition expect_reply_to :: "string \<Rightarrow> ScrollbackLoad \<Rightarrow> ScrollbackLoad" where
  "expect_reply_to rid load = load\<lparr>request_id := Some rid\<rparr>"

definition load_state :: "ScrollbackLoad \<Rightarrow> LoadState" where
  "load_state load = (case phase load of
     Awaiting attempt _ \<Rightarrow> LoadingState attempt
   | Backoff attempt _ \<Rightarrow> LoadingState attempt
   | Loaded \<Rightarrow> LoadedState
   | Failed \<Rightarrow> FailedState)"

definition loading :: "ScrollbackLoad \<Rightarrow> bool" where
  "loading load = (case load_state load of LoadingState _ \<Rightarrow> True | _ \<Rightarrow> False)"

definition next_deadline :: "ScrollbackLoad \<Rightarrow> nat option" where
  "next_deadline load = (case phase load of
     Awaiting _ deadline \<Rightarrow> Some deadline
   | Backoff _ until \<Rightarrow> Some until
   | _ \<Rightarrow> None)"

definition on_output :: "string \<Rightarrow> ScrollbackLoad \<Rightarrow> string option \<times> ScrollbackLoad" where
  "on_output bytes load = (if loading load then (None, load\<lparr>buffer := buffer load @ [bytes]\<rparr>) else (Some bytes, load))"

text \<open>\<open>finish\<close>: the held-back output and the resize that end every load.\<close>

definition finish_load :: "Step list \<Rightarrow> ScrollbackLoad \<Rightarrow> Step list \<times> ScrollbackLoad" where
  "finish_load steps load = (steps @ map Live (buffer load) @ [Resize], load\<lparr>buffer := []\<rparr>)"

text \<open>\<open>history\<close> is the decoded reply, none when it does not decode, and then the load stays as it was.\<close>

definition on_reply ::
  "string option \<Rightarrow> bool \<Rightarrow> bool \<Rightarrow> string option \<Rightarrow> ScrollbackLoad \<Rightarrow> ReplyVerdict option \<times> ScrollbackLoad" where
  "on_reply rid forwarder_restarted truncated history load =
     (if \<not> loading load then (Some NotLoading, load)
      else if rid \<noteq> None \<and> request_id load \<noteq> rid then (Some Stale, load)
      else case history of
        None \<Rightarrow> (None, load)
      | Some bytes \<Rightarrow>
          let load = (if forwarder_restarted then load\<lparr>buffer := []\<rparr> else load);
              load = load\<lparr>phase := Loaded\<rparr>;
              steps = [Status CLEAR_LINE] @
                (if bytes \<noteq> [] then (if truncated then [Status TRUNCATED_BANNER] else []) @ [History bytes] else [])
          in (case finish_load steps load of (steps, load) \<Rightarrow> (Some (Accepted steps), load)))"

text \<open>\<open>RETRY_DELAYS.get(attempt - 1)\<close>: none past the last retry.\<close>

definition retry_delay :: "nat \<Rightarrow> nat option" where
  "retry_delay attempt = (if attempt - 1 < length RETRY_DELAYS then Some (RETRY_DELAYS ! (attempt - 1)) else None)"

definition advance :: "nat \<Rightarrow> ScrollbackLoad \<Rightarrow> (Step list \<times> ScrollbackLoad) option" where
  "advance now load = (case phase load of
     Awaiting attempt deadline \<Rightarrow>
       if now < deadline then None
       else (case retry_delay attempt of
           None \<Rightarrow> Some (finish_load [Status CLEAR_LINE, Status FAILED_BANNER] (load\<lparr>phase := Failed\<rparr>))
         | Some delay \<Rightarrow> Some ([Status (retry_line attempt)], load\<lparr>phase := Backoff attempt (now + delay)\<rparr>))
   | Backoff attempt until \<Rightarrow>
       if now < until then None
       else Some ([Request], load\<lparr>buffer := [], phase := Awaiting (attempt + 1) (now + REQUEST_TIMEOUT)\<rparr>)
   | _ \<Rightarrow> None)"

text \<open>The loop ends: a transition taken at \<open>now\<close> sets the next one's time past \<open>now\<close>.\<close>

definition due :: "nat \<Rightarrow> ScrollbackLoad \<Rightarrow> nat" where
  "due now load = (case next_deadline load of Some t \<Rightarrow> if t \<le> now then 1 else 0 | None \<Rightarrow> 0)"

lemma retry_delay_pos: "retry_delay attempt = Some delay \<Longrightarrow> 0 < delay"
  by (auto simp: retry_delay_def RETRY_DELAYS_def nth_Cons split: if_splits nat.splits)

lemma advance_due: "advance now load = Some (steps, load') \<Longrightarrow> due now load' < due now load"
  by (auto simp: advance_def due_def next_deadline_def finish_load_def REQUEST_TIMEOUT_def
           dest: retry_delay_pos split: Phase.splits if_splits option.splits)

function tick :: "nat \<Rightarrow> ScrollbackLoad \<Rightarrow> Step list \<times> ScrollbackLoad" where
  "tick now load = (case advance now load of
     None \<Rightarrow> ([], load)
   | Some (steps, load') \<Rightarrow> (case tick now load' of (more_steps, load'') \<Rightarrow> (steps @ more_steps, load'')))"
  by pat_completeness auto
termination
  by (relation "measure (\<lambda>(now, load). due now load)") (auto dest: advance_due)

declare tick.simps [simp del]

text \<open>So a tick takes at most one transition.\<close>

lemma tick_advance: "tick now load = (case advance now load of None \<Rightarrow> ([], load) | Some r \<Rightarrow> r)"
proof (cases "advance now load")
  case None
  then show ?thesis by (simp add: tick.simps [of now load])
next
  case (Some r)
  obtain steps load' where r: "r = (steps, load')" by (cases r)
  have "due now load' = 0"
    using advance_due [of now load steps load'] Some r by (simp add: due_def split: option.splits if_splits)
  then have "advance now load' = None"
    by (auto simp: due_def next_deadline_def advance_def split: Phase.splits if_splits)
  with Some r show ?thesis by (simp add: tick.simps [of now load] tick.simps [of now load'])
qed

section \<open>The pane\<close>

text \<open>\<open>fed\<close> is what the terminal was fed since it was made anew.\<close>

record Pane =
  pane_load :: "ScrollbackLoad option"
  fed :: "Step list"

definition released_pane :: Pane where
  "released_pane = \<lparr>pane_load = None, fed = []\<rparr>"

definition attach_pane :: "nat \<Rightarrow> Pane" where
  "attach_pane now = \<lparr>pane_load = Some (start_load now), fed = []\<rparr>"

definition expect_scrollback :: "string \<Rightarrow> Pane \<Rightarrow> Pane" where
  "expect_scrollback rid p = p\<lparr>pane_load := map_option (expect_reply_to rid) (pane_load p)\<rparr>"

definition run_load_steps :: "Step list \<Rightarrow> Pane \<Rightarrow> bool \<times> Pane" where
  "run_load_steps steps p = (Request \<in> set steps, p\<lparr>fed := fed p @ filter (\<lambda>s. s \<noteq> Request \<and> s \<noteq> Resize) steps\<rparr>)"

definition tick_load :: "nat \<Rightarrow> Pane \<Rightarrow> bool \<times> Pane" where
  "tick_load now p = (case pane_load p of
     None \<Rightarrow> (False, p)
   | Some load \<Rightarrow> (case tick now load of (steps, load) \<Rightarrow> run_load_steps steps (p\<lparr>pane_load := Some load\<rparr>)))"

text \<open>A reply without an id is the daemon's resync: dropped while loading, else the pane starts over for it.\<close>

definition on_scrollback ::
  "(string \<Rightarrow> string option) \<Rightarrow> nat \<Rightarrow> string \<Rightarrow> bool \<Rightarrow> string option \<Rightarrow> bool \<Rightarrow> Pane \<Rightarrow> Pane" where
  "on_scrollback dec64 now data_b64 truncated rid forwarder_restarted p =
     (case pane_load p of
        None \<Rightarrow> p
      | Some load \<Rightarrow>
          if rid = None \<and> (loading load \<or> dec64 data_b64 = None) then p
          else let p = (if rid = None then p\<lparr>fed := [], pane_load := Some (start_load now)\<rparr> else p);
                   load = (if rid = None then start_load now else load)
               in case on_reply rid forwarder_restarted truncated (dec64 data_b64) load of
                    (Some (Accepted steps), load) \<Rightarrow> snd (run_load_steps steps (p\<lparr>pane_load := Some load\<rparr>))
                  | (_, load) \<Rightarrow> p\<lparr>pane_load := Some load\<rparr>)"

definition on_pty_output :: "(string \<Rightarrow> string option) \<Rightarrow> string \<Rightarrow> Pane \<Rightarrow> Pane" where
  "on_pty_output dec64 data_b64 p =
     (case dec64 data_b64 of
        None \<Rightarrow> p
      | Some bytes \<Rightarrow>
          (case pane_load p of
             None \<Rightarrow> p
           | Some load \<Rightarrow>
               (case on_output bytes load of
                  (Some bytes, load) \<Rightarrow> p\<lparr>pane_load := Some load, fed := fed p @ [Live bytes]\<rparr>
                | (None, load) \<Rightarrow> p\<lparr>pane_load := Some load\<rparr>)))"

text \<open>The session's bytes on the screen, without the load's own status texts.\<close>

fun session_bytes :: "Step \<Rightarrow> string" where
  "session_bytes (History bytes) = bytes"
| "session_bytes (Live bytes) = bytes"
| "session_bytes _ = []"

definition shown :: "Pane \<Rightarrow> string" where
  "shown p = concat (map session_bytes (fed p))"

section \<open>A load that is not answered\<close>

text \<open>A load between its request and its reply sees the clock and the session's output.\<close>

datatype LoadEvent = TickAt nat | OutputOf string

fun load_event :: "LoadEvent \<Rightarrow> ScrollbackLoad \<Rightarrow> Step list \<times> ScrollbackLoad" where
  "load_event (TickAt now) load = tick now load"
| "load_event (OutputOf bytes) load =
     (case on_output bytes load of (Some bytes, load) \<Rightarrow> ([Live bytes], load) | (None, load) \<Rightarrow> ([], load))"

fun load_run :: "LoadEvent list \<Rightarrow> ScrollbackLoad \<Rightarrow> Step list \<times> ScrollbackLoad" where
  "load_run [] load = ([], load)"
| "load_run (e # es) load =
     (case load_event e load of (steps, load) \<Rightarrow> case load_run es load of (later, load) \<Rightarrow> (steps @ later, load))"

text \<open>The ticks that come at or after the load's deadline, and the output since its last request.\<close>

fun due_ticks :: "LoadEvent list \<Rightarrow> ScrollbackLoad \<Rightarrow> nat" where
  "due_ticks [] load = 0"
| "due_ticks (e # es) load =
     (case e of TickAt now \<Rightarrow> due now load | OutputOf _ \<Rightarrow> 0) + due_ticks es (snd (load_event e load))"

fun since_request :: "LoadEvent list \<Rightarrow> ScrollbackLoad \<Rightarrow> string \<Rightarrow> string" where
  "since_request [] load out = out"
| "since_request (e # es) load out =
     since_request es (snd (load_event e load))
       (case e of TickAt now \<Rightarrow> if Request \<in> set (fst (tick now load)) then [] else out | OutputOf bytes \<Rightarrow> out @ bytes)"

text \<open>The transitions and the requests a load still has before it gives up.\<close>

fun transitions_left :: "Phase \<Rightarrow> nat" where
  "transitions_left (Awaiting attempt _) = 2 * (3 - attempt) + 1"
| "transitions_left (Backoff attempt _) = 2 * (3 - attempt)"
| "transitions_left _ = 0"

fun phase_ok :: "Phase \<Rightarrow> bool" where
  "phase_ok (Awaiting attempt _) \<longleftrightarrow> 1 \<le> attempt \<and> attempt \<le> 3"
| "phase_ok (Backoff attempt _) \<longleftrightarrow> 1 \<le> attempt \<and> attempt \<le> 2"
| "phase_ok Loaded \<longleftrightarrow> False"
| "phase_ok Failed \<longleftrightarrow> True"

definition requests :: "Step list \<Rightarrow> nat" where
  "requests steps = length (filter (\<lambda>s. s = Request) steps)"

lemma requests_append [simp]: "requests (xs @ ys) = requests xs + requests ys"
  by (simp add: requests_def)

definition step_bytes :: "Step list \<Rightarrow> string" where
  "step_bytes steps = concat (map session_bytes steps)"

lemma step_bytes_append [simp]: "step_bytes (xs @ ys) = step_bytes xs @ step_bytes ys"
  by (simp add: step_bytes_def)

lemma finish_load_bytes: "finish_load steps load = (steps', load') \<Longrightarrow>
   step_bytes steps' = step_bytes steps @ concat (buffer load) \<and> requests steps' = requests steps \<and> buffer load' = [] \<and>
   phase load' = phase load \<and> (Request \<in> set steps' \<longleftrightarrow> Request \<in> set steps)"
  by (auto simp: finish_load_def step_bytes_def requests_def comp_def)

lemma retry_delay_None: "retry_delay attempt = None \<longleftrightarrow> 3 \<le> attempt"
  by (auto simp: retry_delay_def RETRY_DELAYS_def)

lemma retry_delay_Some: "retry_delay attempt = Some delay \<Longrightarrow> attempt < 3"
  by (rule ccontr) (simp add: not_less flip: retry_delay_None)

lemma tick_left:
  assumes ok: "phase_ok (phase load)" "phase load = Failed \<longrightarrow> buffer load = []" and t: "tick now load = (steps, load')"
  shows "phase_ok (phase load') \<and> (phase load' = Failed \<longrightarrow> buffer load' = [])
    \<and> transitions_left (phase load) = transitions_left (phase load') + due now load
    \<and> transitions_left (phase load) div 2 = transitions_left (phase load') div 2 + requests steps
    \<and> step_bytes steps @ concat (buffer load') = (if Request \<in> set steps then [] else concat (buffer load))
    \<and> (phase load' \<noteq> Failed \<longrightarrow> step_bytes steps = [])"
  using ok t
  by (auto simp: tick_advance advance_def due_def next_deadline_def retry_delay_None not_le requests_def step_bytes_def
           dest!: finish_load_bytes dest: retry_delay_Some split: Phase.splits if_splits option.splits)

definition run_ok :: "ScrollbackLoad \<Rightarrow> string \<Rightarrow> bool" where
  "run_ok load seen \<longleftrightarrow> phase_ok (phase load) \<and> (if phase load = Failed then buffer load = [] else seen = [])"

lemma load_event_left:
  assumes ok: "run_ok load seen" and e: "load_event e load = (steps, load')"
  shows "run_ok load' (seen @ step_bytes steps)
    \<and> transitions_left (phase load) = transitions_left (phase load') + (case e of TickAt now \<Rightarrow> due now load | OutputOf _ \<Rightarrow> 0)
    \<and> transitions_left (phase load) div 2 = transitions_left (phase load') div 2 + requests steps
    \<and> (seen @ step_bytes steps) @ concat (buffer load') =
        (case e of TickAt now \<Rightarrow> if Request \<in> set (fst (tick now load)) then [] else seen @ concat (buffer load)
         | OutputOf bytes \<Rightarrow> (seen @ concat (buffer load)) @ bytes)"
proof (cases e)
  case (TickAt now)
  have "steps = [] \<and> load' = load" if "phase load = Failed"
    using that TickAt e by (auto simp: tick_advance advance_def)
  with tick_left [of load now steps load'] ok e TickAt show ?thesis by (auto simp: run_ok_def split: if_splits)
next
  case (OutputOf bytes)
  with ok e show ?thesis
    by (cases "phase load") (auto simp: run_ok_def on_output_def loading_def load_state_def step_bytes_def requests_def)
qed

lemma load_run_left:
  "run_ok load seen \<Longrightarrow> load_run es load = (steps, load') \<Longrightarrow>
     run_ok load' (seen @ step_bytes steps)
     \<and> transitions_left (phase load) = transitions_left (phase load') + due_ticks es load
     \<and> transitions_left (phase load) div 2 = transitions_left (phase load') div 2 + requests steps
     \<and> (seen @ step_bytes steps) @ concat (buffer load') = since_request es load (seen @ concat (buffer load))"
proof (induction es arbitrary: load seen steps)
  case Nil
  then show ?case by (simp add: step_bytes_def requests_def)
next
  case (Cons e es)
  obtain first load1 where e: "load_event e load = (first, load1)" by force
  obtain later where later: "load_run es load1 = (later, load')" "steps = first @ later"
    using Cons.prems(2) e by (auto split: prod.splits)
  note one = load_event_left [OF Cons.prems(1) e]
  have ok1: "run_ok load1 (seen @ step_bytes first)" using one by blast
  note rest = Cons.IH [OF ok1 later(1)]
  have "(seen @ step_bytes steps) @ concat (buffer load') = since_request (e # es) load (seen @ concat (buffer load))"
    using one rest e later(2) by (simp split: LoadEvent.splits)
  moreover have "transitions_left (phase load) div 2 = transitions_left (phase load') div 2 + requests steps"
    using conjunct1 [OF conjunct2 [OF conjunct2 [OF one]]] conjunct1 [OF conjunct2 [OF conjunct2 [OF rest]]] later(2)
    by (simp only: requests_append)
  ultimately show ?case using one rest e later(2) by simp
qed

end
