(* ===== verification/Output_System.thy ===== *)
theory Output_System
  imports Output_Lane Pane_Load "HOL-Library.Sublist"
begin

text \<open>
  A session's output from the child to the pane: the lifecycle task, one connection's lane,
  forwarder, request handler and send pump, the socket, and the client's pane with its requests.
  The steps are the turns of these tasks, in any order; \<open>history\<close> is everything the child wrote.
\<close>

section \<open>Steps\<close>

datatype ClientReq = LoadReq string | DetachReq

record Stream =
  conn :: OutConn
  in_q :: "ClientReq list"
  wire :: "WireMsg list"
  pane :: Pane
  used_rids :: "string set"
  history :: string

text \<open>
  \<open>Task\<close> is an event of the lifecycle task, which other connections share; \<open>Other\<close> is a message of
  another session or kind on this connection. The reads of files name whether they succeed.
\<close>

datatype StreamEvent =
    Task LifeEvent
  | Forward
  | ResyncTake bool
  | ResyncSend
  | ResyncExited bool
  | ResyncGone
  | LoadTake bool
  | ReplyThenForward
  | LoadFile bool
  | DoDetach
  | Other WireMsg
  | Pump
  | Receive nat
  | AttachPane nat string
  | TickPane nat string
  | ReleasePane

text \<open>The snapshots whose receivers this connection holds.\<close>

fun forwarder_holds :: "Forwarder \<Rightarrow> nat set" where
  "forwarder_holds (Reading i k) = {i}"
| "forwarder_holds (Resyncing i) = {i}"
| "forwarder_holds _ = {}"

fun handler_holds :: "Handler \<Rightarrow> nat set" where
  "handler_holds (Answering rid i) = {i}"
| "handler_holds Idle = {}"

fun about :: "string \<Rightarrow> WireMsg \<Rightarrow> bool" where
  "about sid (PtyOutput x d) \<longleftrightarrow> x = sid"
| "about sid (ScrollbackMsg x d tr rid re) \<longleftrightarrow> x = sid"
| "about sid OtherMsg \<longleftrightarrow> False"

definition send_other :: "WireMsg \<Rightarrow> OutConn \<Rightarrow> OutConn option" where
  "send_other m c =
     (case m of
        PtyOutput x d \<Rightarrow> (case try_charge x (length d) (lane c) of (True, q) \<Rightarrow> Some (send_out m (c\<lparr>lane := q\<rparr>)) | (False, _) \<Rightarrow> None)
      | _ \<Rightarrow> Some (send_out m c))"

fun receive :: "(string \<Rightarrow> string option) \<Rightarrow> string \<Rightarrow> nat \<Rightarrow> WireMsg \<Rightarrow> Pane \<Rightarrow> Pane" where
  "receive dec64 sid now (PtyOutput x d) p = (if x = sid then on_pty_output dec64 d p else p)"
| "receive dec64 sid now (ScrollbackMsg x d tr rid re) p = (if x = sid then on_scrollback dec64 now d tr rid re p else p)"
| "receive dec64 sid now OtherMsg p = p"

definition on_conn :: "Stream \<Rightarrow> OutConn option \<Rightarrow> Stream option" where
  "on_conn s r = (case r of Some c \<Rightarrow> Some (s\<lparr>conn := c\<rparr>) | None \<Rightarrow> None)"

text \<open>A request of the pane goes out under a fresh id, which its reply must name.\<close>

definition request_scrollback :: "string \<Rightarrow> Stream \<Rightarrow> Stream" where
  "request_scrollback rid s =
     s\<lparr>pane := expect_scrollback rid (pane s), in_q := in_q s @ [LoadReq rid], used_rids := insert rid (used_rids s)\<rparr>"

fun stream_step ::
  "(string \<Rightarrow> string) \<Rightarrow> (string \<Rightarrow> string option) \<Rightarrow> string \<Rightarrow> StreamEvent \<Rightarrow> Stream \<Rightarrow> Stream option" where
  "stream_step enc dec64 sid (Task e) s =
     (if \<exists>i \<in> forwarder_holds (forwarder (conn s)) \<union> handler_holds (handler (conn s)). e = HangUp i then None
      else case life_step e (life (conn s)) of
        Some l \<Rightarrow> Some (s\<lparr>conn := (conn s)\<lparr>life := l\<rparr>, history := history s @ out_of e\<rparr>)
      | None \<Rightarrow> None)"
| "stream_step enc dec64 sid Forward s = on_conn s (forward enc sid (conn s))"
| "stream_step enc dec64 sid (ResyncTake readable) s = on_conn s (resync_take readable sid (conn s))"
| "stream_step enc dec64 sid ResyncSend s = on_conn s (resync_send enc sid (conn s))"
| "stream_step enc dec64 sid (ResyncExited readable) s = on_conn s (resync_exited enc readable sid (conn s))"
| "stream_step enc dec64 sid ResyncGone s = on_conn s (resync_gone sid (conn s))"
| "stream_step enc dec64 sid (LoadTake readable) s =
     (case in_q s of LoadReq rid # rest \<Rightarrow> on_conn (s\<lparr>in_q := rest\<rparr>) (load_take readable (Some rid) (conn s)) | _ \<Rightarrow> None)"
| "stream_step enc dec64 sid ReplyThenForward s = on_conn s (reply_then_forward enc sid (conn s))"
| "stream_step enc dec64 sid (LoadFile readable) s =
     (case in_q s of LoadReq rid # rest \<Rightarrow> on_conn (s\<lparr>in_q := rest\<rparr>) (load_file enc readable sid (Some rid) (conn s)) | _ \<Rightarrow> None)"
| "stream_step enc dec64 sid DoDetach s =
     (case in_q s of DetachReq # rest \<Rightarrow> on_conn (s\<lparr>in_q := rest\<rparr>) (detach (conn s)) | _ \<Rightarrow> None)"
| "stream_step enc dec64 sid (Other m) s = (if about sid m then None else on_conn s (send_other m (conn s)))"
| "stream_step enc dec64 sid Pump s =
     (case pump (conn s) of Some (m, c) \<Rightarrow> Some (s\<lparr>conn := c, wire := wire s @ [m]\<rparr>) | None \<Rightarrow> None)"
| "stream_step enc dec64 sid (Receive now) s =
     (case wire s of m # ms \<Rightarrow> Some (s\<lparr>wire := ms, pane := receive dec64 sid now m (pane s)\<rparr>) | [] \<Rightarrow> None)"
| "stream_step enc dec64 sid (AttachPane now rid) s =
     (if rid \<in> used_rids s then None else Some (request_scrollback rid (s\<lparr>pane := attach_pane now\<rparr>)))"
| "stream_step enc dec64 sid (TickPane now rid) s =
     (if rid \<in> used_rids s then None
      else case tick_load now (pane s) of
        (True, p) \<Rightarrow> Some (request_scrollback rid (s\<lparr>pane := p\<rparr>))
      | (False, p) \<Rightarrow> Some (s\<lparr>pane := p\<rparr>))"
| "stream_step enc dec64 sid ReleasePane s = Some (s\<lparr>pane := released_pane, in_q := in_q s @ [DetachReq]\<rparr>)"

section \<open>When a step may spoil the pane\<close>

text \<open>The requests on their way, in the order of their replies.\<close>

fun reply_id :: "string \<Rightarrow> WireMsg \<Rightarrow> string list" where
  "reply_id sid (ScrollbackMsg x d tr (Some rid) re) = (if x = sid then [rid] else [])"
| "reply_id sid _ = []"

fun handler_id :: "Handler \<Rightarrow> string list" where
  "handler_id (Answering (Some rid) i) = [rid]"
| "handler_id _ = []"

fun req_id :: "ClientReq \<Rightarrow> string list" where
  "req_id (LoadReq rid) = [rid]"
| "req_id DetachReq = []"

definition outstanding :: "string \<Rightarrow> Stream \<Rightarrow> string list" where
  "outstanding sid s =
     concat (map (reply_id sid) (wire s @ out_q (conn s))) @ handler_id (handler (conn s)) @ concat (map req_id (in_q s))"

text \<open>
  Three steps after which the pane may show what the child never wrote: a request answered from
  the file while the session's forwarder has chunks it has not sent; such an answer written while
  the pane holds output back; and a resync written after the pane gave up on a request whose reply
  is still to come.
\<close>

definition unsent_chunks :: "OutConn \<Rightarrow> bool" where
  "unsent_chunks c = (case forwarder c of Reading i k \<Rightarrow> k < length (live (snapshots (life c) ! i)) | _ \<Rightarrow> False)"

fun spoils :: "string \<Rightarrow> StreamEvent \<Rightarrow> Stream \<Rightarrow> bool" where
  "spoils sid (LoadFile readable) s = unsent_chunks (conn s)"
| "spoils sid (Receive now) s =
     (case (wire s, pane_load (pane s)) of
        (ScrollbackMsg x d tr rid re # _, Some load) \<Rightarrow>
          x = sid \<and> (loading load \<and> rid = request_id load \<and> \<not> re \<and> buffer load \<noteq> []
                     \<or> phase load = Failed \<and> rid = None \<and> outstanding sid s \<noteq> [])
      | _ \<Rightarrow> False)"
| "spoils sid _ s = False"

fun stream_fine :: "StreamEvent \<Rightarrow> bool" where
  "stream_fine (Task e) = event_fine e"
| "stream_fine (ResyncTake readable) = readable"
| "stream_fine (ResyncExited readable) = readable"
| "stream_fine (LoadTake readable) = readable"
| "stream_fine (LoadFile readable) = readable"
| "stream_fine _ = True"

definition start_stream :: "SessionDir \<Rightarrow> string \<Rightarrow> Stream" where
  "start_stream s past =
     \<lparr>conn = \<lparr>life = start_life True True new_gate s, lane = (\<lambda>_. None), out_q = [], forwarder = NoForwarder, handler = Idle\<rparr>,
      in_q = [], wire = [], pane = released_pane, used_rids = {}, history = past\<rparr>"

text \<open>The runs over a disk that takes what is written, on which no step spoils the pane.\<close>

inductive stream_reachable :: "(string \<Rightarrow> string) \<Rightarrow> (string \<Rightarrow> string option) \<Rightarrow> string \<Rightarrow> Stream \<Rightarrow> Stream \<Rightarrow> bool"
  for enc dec64 sid s0 where
  start: "stream_reachable enc dec64 sid s0 s0"
| step: "stream_reachable enc dec64 sid s0 s \<Longrightarrow> stream_fine e \<Longrightarrow> \<not> spoils sid e s \<Longrightarrow>
     stream_step enc dec64 sid e s = Some s' \<Longrightarrow> stream_reachable enc dec64 sid s0 s'"

text \<open>A run of given events, and one on which no step spoils the pane.\<close>

fun stream_run :: "(string \<Rightarrow> string) \<Rightarrow> (string \<Rightarrow> string option) \<Rightarrow> string \<Rightarrow> StreamEvent list \<Rightarrow> Stream \<Rightarrow> Stream option" where
  "stream_run enc dec64 sid [] s = Some s"
| "stream_run enc dec64 sid (e # es) s =
     (case stream_step enc dec64 sid e s of None \<Rightarrow> None | Some s' \<Rightarrow> stream_run enc dec64 sid es s')"

fun clean_run :: "(string \<Rightarrow> string) \<Rightarrow> (string \<Rightarrow> string option) \<Rightarrow> string \<Rightarrow> StreamEvent list \<Rightarrow> Stream \<Rightarrow> bool" where
  "clean_run enc dec64 sid [] s = True"
| "clean_run enc dec64 sid (e # es) s =
     (stream_fine e \<and> \<not> spoils sid e s \<and>
      (case stream_step enc dec64 sid e s of None \<Rightarrow> False | Some s' \<Rightarrow> clean_run enc dec64 sid es s'))"

lemma clean_run_reachable:
  "stream_reachable enc dec64 sid s0 s \<Longrightarrow> clean_run enc dec64 sid es s \<Longrightarrow> stream_run enc dec64 sid es s = Some s' \<Longrightarrow>
   stream_reachable enc dec64 sid s0 s'"
  by (induction es arbitrary: s) (auto split: option.splits intro: step)

end
