(* ===== verification/Output_Invariant.thy ===== *)
theory Output_Invariant
  imports Output_System
begin

text \<open>
  The invariant of the output system: what is on its way to the pane continues what the pane has
  read, moment by moment of the history, and the forwarder's next chunk continues that.
\<close>

section \<open>Moments of a session\<close>

text \<open>What a client has read and its terminal shows: a replay of an earlier moment and all output since.\<close>

type_synonym moment = "string \<times> string"

definition moment_ok :: "string \<Rightarrow> moment \<Rightarrow> bool" where
  "moment_ok H m \<longleftrightarrow> prefix (fst m) H \<and> (\<exists>h d tr r. fst m = h @ r \<and> replays h (d, tr) \<and> snd m = d @ r)"

lemma moment_ok_replay: "replays h (d, tr) \<Longrightarrow> prefix h H \<Longrightarrow> moment_ok H (h, d)"
  unfolding moment_ok_def by (metis append_Nil2 fst_conv snd_conv)

lemma moment_ok_more: "moment_ok H (h, t) \<Longrightarrow> prefix (h @ x) H \<Longrightarrow> moment_ok H (h @ x, t @ x)"
  unfolding moment_ok_def by (metis append.assoc fst_conv snd_conv)

lemma moment_ok_mono: "moment_ok H m \<Longrightarrow> prefix H H' \<Longrightarrow> moment_ok H' m"
  unfolding moment_ok_def using prefix_order.trans by blast

text \<open>The terminal's paste flag at a moment is the one of the output up to it.\<close>

lemma moment_ok_flag: "moment_ok H (h, t) \<Longrightarrow> paste_flag False t = paste_flag False h"
  by (auto simp: moment_ok_def replays_flag)

text \<open>Messages that carry a terminal from one moment to another; messages about other sessions change nothing.\<close>

inductive follows :: "(string \<Rightarrow> string) \<Rightarrow> string \<Rightarrow> string \<Rightarrow> moment option \<Rightarrow> WireMsg list \<Rightarrow> moment option \<Rightarrow> bool"
  for enc sid H where
  follows_nil: "follows enc sid H b [] b"
| follows_out: "prefix (h @ x) H \<Longrightarrow> follows enc sid H (Some (h @ x, t @ x)) ms b' \<Longrightarrow>
     follows enc sid H (Some (h, t)) (PtyOutput sid (enc x) # ms) b'"
| follows_scroll: "replays h (d, tr) \<Longrightarrow> prefix h H \<Longrightarrow> follows enc sid H (Some (h, d)) ms b' \<Longrightarrow>
     follows enc sid H b (ScrollbackMsg sid (enc d) tr rid re # ms) b'"
| follows_other: "\<not> about sid m \<Longrightarrow> follows enc sid H b ms b' \<Longrightarrow> follows enc sid H b (m # ms) b'"

inductive_cases follows_NilE: "follows enc sid H b [] b'"

lemma follows_append:
  "follows enc sid H b ms b' \<Longrightarrow> follows enc sid H b' ms' b'' \<Longrightarrow> follows enc sid H b (ms @ ms') b''"
  by (induction rule: follows.induct) (auto intro: follows.intros)

lemma follows_mono: "follows enc sid H b ms b' \<Longrightarrow> prefix H H' \<Longrightarrow> follows enc sid H' b ms b'"
proof (induction rule: follows.induct)
  case (follows_out h x t ms b')
  then show ?case using prefix_order.trans follows.follows_out by blast
next
  case (follows_scroll h d tr ms b' b rid re)
  then show ?case using prefix_order.trans follows.follows_scroll by blast
qed (auto intro: follows.intros)

definition base_ok :: "string \<Rightarrow> moment option \<Rightarrow> bool" where
  "base_ok H b = (case b of None \<Rightarrow> True | Some m \<Rightarrow> moment_ok H m)"

lemma follows_ok: "follows enc sid H b ms b' \<Longrightarrow> base_ok H b \<Longrightarrow> base_ok H b'"
  by (induction rule: follows.induct) (auto simp: base_ok_def intro: moment_ok_more moment_ok_replay)

section \<open>The connection\<close>

text \<open>
  A receiver the connection holds: the chunks it has not taken carry the moment \<open>h\<close> to the whole
  history; and a snapshot not sent yet, which replays such a moment.
\<close>

definition held :: "Life \<Rightarrow> string \<Rightarrow> nat \<Rightarrow> nat \<Rightarrow> string \<Rightarrow> bool" where
  "held l H i k h \<longleftrightarrow> attached i l \<and> k \<le> length (live (snapshots l ! i)) \<and> h @ concat (drop k (live (snapshots l ! i))) = H"

definition fresh_snap :: "Life \<Rightarrow> string \<Rightarrow> nat \<Rightarrow> bool" where
  "fresh_snap l H i \<longleftrightarrow> (\<exists>h. held l H i 0 h \<and> replays h (snap_data (snapshots l ! i), snap_truncated (snapshots l ! i)))"

definition forwarder_ok :: "Life \<Rightarrow> string \<Rightarrow> moment option \<Rightarrow> Forwarder \<Rightarrow> bool" where
  "forwarder_ok l H base f = (case f of
     Reading i k \<Rightarrow> \<exists>h t. base = Some (h, t) \<and> held l H i k h
   | Resyncing i \<Rightarrow> fresh_snap l H i
   | _ \<Rightarrow> True)"

definition handler_ok :: "Life \<Rightarrow> string \<Rightarrow> Forwarder \<Rightarrow> Handler \<Rightarrow> bool" where
  "handler_ok l H f h = (case h of Idle \<Rightarrow> True | Answering rid i \<Rightarrow> rid \<noteq> None \<and> fresh_snap l H i \<and> i \<notin> forwarder_holds f)"

definition life_ok :: "string \<Rightarrow> string \<Rightarrow> Life \<Rightarrow> bool" where
  "life_ok past H l \<longleftrightarrow> ESC \<notin> set (lastn 7 past) \<and> (\<exists>out. H = past @ out \<and> life_inv past out l)"

definition conn_ok :: "string \<Rightarrow> string \<Rightarrow> moment option \<Rightarrow> OutConn \<Rightarrow> bool" where
  "conn_ok past H base c \<longleftrightarrow> life_ok past H (life c) \<and> lane_ok (lane c) (out_q c) \<and>
     forwarder_ok (life c) H base (forwarder c) \<and> handler_ok (life c) H (forwarder c) (handler c)"

lemma held_prefix: "held l H i k h \<Longrightarrow> prefix h H"
  by (auto simp: held_def)

lemma life_ok_step: "life_ok past H l \<Longrightarrow> event_fine e \<Longrightarrow> life_step e l = Some l' \<Longrightarrow> life_ok past (H @ out_of e) l'"
  by (auto simp: life_ok_def dest: life_inv_step)

lemma held_step:
  assumes "held l H i k h" "e \<noteq> HangUp i" "life_step e l = Some l'"
  shows "held l' (H @ out_of e) i k h"
  using assms attached_step [of i l e l'] by (auto simp: held_def)

lemma fresh_snap_step:
  assumes "fresh_snap l H i" "e \<noteq> HangUp i" "life_step e l = Some l'"
  shows "fresh_snap l' (H @ out_of e) i"
proof -
  obtain h where h: "held l H i 0 h" "replays h (snap_data (snapshots l ! i), snap_truncated (snapshots l ! i))"
    using assms(1) by (auto simp: fresh_snap_def)
  moreover have "attached i l" using h(1) by (simp add: held_def)
  ultimately show ?thesis
    using held_step [OF h(1) assms(2,3)] attached_step(2,3) [of i l e l'] assms(2,3) by (auto simp: fresh_snap_def)
qed

text \<open>An event of the task that leaves the connection's receivers alone keeps what they promise.\<close>

lemma holders_step:
  assumes "forwarder_ok l H base f" "handler_ok l H f h" "life_step e l = Some l'"
    and "\<And>i. i \<in> forwarder_holds f \<union> handler_holds h \<Longrightarrow> e \<noteq> HangUp i"
  shows "forwarder_ok l' (H @ out_of e) base f" "handler_ok l' (H @ out_of e) f h"
proof -
  show "forwarder_ok l' (H @ out_of e) base f"
    using assms(1,4) held_step [OF _ _ assms(3)] fresh_snap_step [OF _ _ assms(3)]
    by (cases f) (fastforce simp: forwarder_ok_def)+
  show "handler_ok l' (H @ out_of e) f h"
    using assms(2,4) fresh_snap_step [OF _ _ assms(3)] by (cases h) (fastforce simp: handler_ok_def)+
qed

lemma hang_up_step: "i < length (snapshots l) \<Longrightarrow> life_step (HangUp i) l = Some (hang_up i l)"
  by (simp add: hang_up_def)

lemma holds_length:
  "forwarder_ok l H base f \<Longrightarrow> i \<in> forwarder_holds f \<Longrightarrow> i < length (snapshots l)"
  by (cases f) (auto simp: forwarder_ok_def held_def fresh_snap_def attached_def)

text \<open>Stopping the forwarder drops its receiver and keeps the handler's.\<close>

lemma stop_forwarder_ok:
  assumes "conn_ok past H base c"
  shows "conn_ok past H base' (stop_forwarder c)"
proof (cases "forwarder_holds (forwarder c) = {}")
  case True
  then have "life (stop_forwarder c) = life c" by (cases "forwarder c") (auto simp: stop_forwarder_def)
  with assms True show ?thesis
    by (simp add: conn_ok_def forwarder_ok_def stop_forwarder_def handler_ok_def split: Handler.splits)
next
  case False
  then obtain i where i: "forwarder_holds (forwarder c) = {i}" by (cases "forwarder c") auto
  then have l: "life (stop_forwarder c) = hang_up i (life c)" by (cases "forwarder c") (auto simp: stop_forwarder_def)
  have ok: "life_ok past H (life c)" "forwarder_ok (life c) H base (forwarder c)"
    "handler_ok (life c) H (forwarder c) (handler c)" using assms by (simp_all add: conn_ok_def)
  have step: "life_step (HangUp i) (life c) = Some (hang_up i (life c))"
    by (rule hang_up_step) (use holds_length [OF ok(2)] i in auto)
  have "life_ok past H (hang_up i (life c))" using life_ok_step [OF ok(1) _ step] by simp
  moreover have "handler_ok (hang_up i (life c)) H NoForwarder (handler c)"
    using ok(3) i fresh_snap_step [OF _ _ step] by (auto simp: handler_ok_def split: Handler.splits)
  ultimately show ?thesis using assms l by (simp add: conn_ok_def forwarder_ok_def stop_forwarder_def)
qed

text \<open>A snapshot the task hands out replays the history so far.\<close>

lemma take_snapshot_ok:
  assumes "conn_ok past H base c" "take_snapshot True c = Some (i, c')"
  shows "conn_ok past H base c'" "fresh_snap (life c') H i" "i \<notin> forwarder_holds (forwarder c)" "i \<notin> handler_holds (handler c)"
    "forwarder c' = forwarder c" "handler c' = handler c" "out_q c' = out_q c"
proof -
  have ok: "life_ok past H (life c)" "forwarder_ok (life c) H base (forwarder c)"
    "handler_ok (life c) H (forwarder c) (handler c)" using assms by (simp_all add: conn_ok_def)
  obtain l where l: "life_step (SnapshotRequest True) (life c) = Some l" "c' = c\<lparr>life := l\<rparr>" "i = length (snapshots (life c))"
    using assms(2) by (auto simp: take_snapshot_def split: option.splits)
  obtain out where out: "H = past @ out" "life_inv past out (life c)" "ESC \<notin> set (lastn 7 past)"
    using ok(1) by (auto simp: life_ok_def)
  let ?r = "build_replay_snapshot True True (dir (life c)) (paste_flag False H)"
  have "replays H ?r" using out by (intro build_replays) (simp add: life_inv_def)
  moreover have "held l H i 0 H" "snap_data (snapshots l ! i) = fst ?r" "snap_truncated (snapshots l ! i) = snd ?r"
    using l out(2) life_inv_flag [OF out(2,3)] out(1)
    by (auto simp: on_snapshot_def held_def attached_def life_inv_def split: if_splits prod.splits)
  ultimately show "fresh_snap (life c') H i" using l(2) by (auto simp: fresh_snap_def)
  show "i \<notin> forwarder_holds (forwarder c)" using holds_length [OF ok(2)] l(3) by auto
  show "i \<notin> handler_holds (handler c)"
    using ok(3) l(3) by (cases "handler c") (auto simp: handler_ok_def fresh_snap_def held_def attached_def)
  have "life_ok past H l" using life_ok_step [OF ok(1) _ l(1)] by simp
  moreover have "forwarder_ok l H base (forwarder c)" "handler_ok l H (forwarder c) (handler c)"
    using holders_step [OF ok(2,3) l(1)] by simp_all
  ultimately show "conn_ok past H base c'" using assms(1) l(2) by (simp add: conn_ok_def)
  show "forwarder c' = forwarder c" "handler c' = handler c" "out_q c' = out_q c" using l(2) by simp_all
qed

section \<open>Turns of the connection\<close>

text \<open>
  A turn queues messages that continue what is queued, keeps the connection's promises for where
  they end, and passes the ids it is given, in order, through the handler to the replies.
\<close>

definition conn_moves ::
  "(string \<Rightarrow> string) \<Rightarrow> string \<Rightarrow> string \<Rightarrow> string \<Rightarrow> moment option \<Rightarrow> OutConn \<Rightarrow> string list \<Rightarrow> OutConn \<Rightarrow> bool" where
  "conn_moves enc sid past H base c ids c' \<longleftrightarrow>
     (\<exists>base' ms. out_q c' = out_q c @ ms \<and> follows enc sid H base ms base' \<and> conn_ok past H base' c' \<and>
        concat (map (reply_id sid) ms) @ handler_id (handler c') = handler_id (handler c) @ ids)"

lemma conn_moves_quiet:
  "conn_ok past H base c' \<Longrightarrow> out_q c' = out_q c \<Longrightarrow> handler_id (handler c') = handler_id (handler c) @ ids \<Longrightarrow>
   conn_moves enc sid past H base c ids c'"
  unfolding conn_moves_def by (intro exI [of _ base] exI [of _ "[]"]) (simp add: follows_nil)

lemma conn_moves_send:
  assumes "conn_ok past H base' (send_out m c')" "out_q c' = out_q c" "follows enc sid H base [m] base'"
    "reply_id sid m @ handler_id (handler c') = handler_id (handler c) @ ids"
  shows "conn_moves enc sid past H base c ids (send_out m c')"
  unfolding conn_moves_def using assms by (intro exI [of _ base'] exI [of _ "[m]"]) (simp add: send_out_def)

lemma send_out_simps [simp]:
  "life (send_out m c) = life c" "forwarder (send_out m c) = forwarder c" "handler (send_out m c) = handler c"
  "lane (send_out m c) = lane c" "out_q (send_out m c) = out_q c @ [m]"
  by (simp_all add: send_out_def)

lemma follows_scroll1: "replays h (d, tr) \<Longrightarrow> prefix h H \<Longrightarrow> follows enc sid H b [ScrollbackMsg sid (enc d) tr rid re] (Some (h, d))"
  by (rule follows_scroll [OF _ _ follows_nil])

lemma forward_moves:
  assumes ok: "conn_ok past H base c" and fw: "forward enc sid c = Some c'"
  shows "conn_moves enc sid past H base c [] c'"
proof -
  obtain i k where f: "forwarder c = Reading i k" using fw by (cases "forwarder c") (auto simp: forward_def)
  let ?live = "live (snapshots (life c) ! i)"
  obtain h t where b: "base = Some (h, t)" "held (life c) H i k h" using ok f by (auto simp: conn_ok_def forwarder_ok_def)
  have hand: "handler_ok (life c) H (Reading i k) (handler c)" using ok f by (simp add: conn_ok_def)
  show ?thesis
  proof (cases "k < length ?live")
    case False
    with fw f have "c' = c\<lparr>forwarder := NoForwarder\<rparr>" by (auto simp: forward_def Let_def split: if_splits)
    with ok hand show ?thesis
      by (intro conn_moves_quiet) (auto simp: conn_ok_def forwarder_ok_def handler_ok_def split: Handler.splits)
  next
    case True
    let ?x = "?live ! k"
    obtain q granted where q: "try_charge sid (length (enc ?x)) (lane c) = (granted, q)" by fastforce
    show ?thesis
    proof (cases granted)
      case True
      have c': "c' = send_out (PtyOutput sid (enc ?x)) (c\<lparr>lane := q, forwarder := Reading i (k + 1)\<rparr>)"
        using fw f q True \<open>k < length ?live\<close> by (auto simp: forward_def Let_def)
      have h': "held (life c) H i (k + 1) (h @ ?x)"
        using b(2) \<open>k < length ?live\<close> by (auto simp: held_def simp flip: Cons_nth_drop_Suc)
      have "follows enc sid H base [PtyOutput sid (enc ?x)] (Some (h @ ?x, t @ ?x))"
        unfolding b(1) by (intro follows_out follows_nil held_prefix [OF h'])
      moreover have "lane_ok q (out_q c @ [PtyOutput sid (enc ?x)])"
        by (rule lane_ok_charge) (use ok q True in \<open>auto simp: conn_ok_def\<close>)
      ultimately show ?thesis
        unfolding c' using ok h' hand
        by (intro conn_moves_send) (auto simp: conn_ok_def forwarder_ok_def handler_ok_def split: Handler.splits)
    next
      case False
      have "c' = (stop_forwarder c)\<lparr>forwarder := Draining\<rparr>"
        using fw f q False \<open>k < length ?live\<close> by (auto simp: forward_def Let_def stop_forwarder_def)
      moreover have "conn_ok past H base (stop_forwarder c)" by (rule stop_forwarder_ok [OF ok])
      ultimately show ?thesis
        by (intro conn_moves_quiet) (auto simp: conn_ok_def forwarder_ok_def handler_ok_def stop_forwarder_def split: Handler.splits)
    qed
  qed
qed

lemma file_reply_follows:
  assumes "life_ok past H (life c)"
  shows "\<exists>d. follows enc sid H base [file_reply enc True sid rid c] (Some (H, d))"
proof -
  obtain out where out: "H = past @ out" "life_inv past out (life c)" "ESC \<notin> set (lastn 7 past)"
    using assms by (auto simp: life_ok_def)
  have "replays H (file_scrollback_reply True (dir (life c)))"
    using out life_inv_flag [OF out(2,3)] build_replays by (simp add: file_scrollback_reply_def life_inv_def)
  then show ?thesis
    by (cases "file_scrollback_reply True (dir (life c))")
       (auto simp: file_reply_def scrollback_reply_def intro: follows_scroll1)
qed

lemma uncharged_reply:
  "lane_ok q ms \<Longrightarrow> lane_ok q (ms @ [file_reply enc readable sid rid c])"
  "lane_ok q ms \<Longrightarrow> lane_ok q (ms @ [snapshot_reply enc sid i rid c])"
  by (rule lane_ok_uncharged; simp add: file_reply_def snapshot_reply_def scrollback_reply_def Let_def split: prod.splits)+

lemma reply_id_of [simp]:
  "reply_id sid (file_reply enc readable sid rid c) = (case rid of Some r \<Rightarrow> [r] | None \<Rightarrow> [])"
  "reply_id sid (snapshot_reply enc sid i rid c) = (case rid of Some r \<Rightarrow> [r] | None \<Rightarrow> [])"
  by (cases rid; simp add: file_reply_def snapshot_reply_def scrollback_reply_def Let_def split: prod.splits)+

text \<open>Sending a fresh snapshot's reply, with the forwarder then reading its channel.\<close>

lemma snapshot_reply_follows:
  assumes "fresh_snap (life c) H i"
  shows "\<exists>h d. follows enc sid H base [snapshot_reply enc sid i rid c] (Some (h, d)) \<and> held (life c) H i 0 h"
  using assms by (fastforce simp: fresh_snap_def snapshot_reply_def scrollback_reply_def Let_def
      intro: follows_scroll1 dest: held_prefix)

lemma resync_send_moves:
  assumes ok: "conn_ok past H base c" and r: "resync_send enc sid c = Some c'"
  shows "conn_moves enc sid past H base c [] c'"
proof -
  obtain i where f: "forwarder c = Resyncing i" using r by (cases "forwarder c") (auto simp: resync_send_def)
  have c': "c' = send_out (snapshot_reply enc sid i None c) (c\<lparr>forwarder := Reading i 0\<rparr>)"
    using r f by (simp add: resync_send_def)
  have "fresh_snap (life c) H i" using ok f by (simp add: conn_ok_def forwarder_ok_def)
  from snapshot_reply_follows [OF this] obtain h d
    where "follows enc sid H base [snapshot_reply enc sid i None c] (Some (h, d))" "held (life c) H i 0 h" by blast
  with ok f show ?thesis unfolding c'
    by (intro conn_moves_send) (auto simp: conn_ok_def forwarder_ok_def handler_ok_def uncharged_reply split: Handler.splits)
qed

lemma resync_take_moves:
  assumes ok: "conn_ok past H base c" and r: "resync_take True sid c = Some c'"
  shows "conn_moves enc sid past H base c [] c'"
proof -
  obtain i c1 where f: "forwarder c = Draining" "take_snapshot True c = Some (i, c1)" "c' = c1\<lparr>forwarder := Resyncing i\<rparr>"
    using r by (auto simp: resync_take_def split: if_splits option.splits)
  note t = take_snapshot_ok [OF ok f(2)]
  from t f show ?thesis
    by (intro conn_moves_quiet) (auto simp: conn_ok_def forwarder_ok_def handler_ok_def split: Handler.splits)
qed

lemma resync_exited_moves:
  assumes ok: "conn_ok past H base c" and r: "resync_exited enc True sid c = Some c'"
  shows "conn_moves enc sid past H base c [] c'"
proof -
  have c': "c' = send_out (file_reply enc True sid None c) (c\<lparr>forwarder := NoForwarder\<rparr>)" "forwarder c = Draining"
    using r by (auto simp: resync_exited_def split: if_splits)
  obtain d where "follows enc sid H base [file_reply enc True sid None c] (Some (H, d))"
    using file_reply_follows ok by (force simp: conn_ok_def)
  with ok c'(2) show ?thesis unfolding c'(1)
    by (intro conn_moves_send) (auto simp: conn_ok_def forwarder_ok_def handler_ok_def uncharged_reply split: Handler.splits)
qed

lemma resync_gone_moves:
  assumes ok: "conn_ok past H base c" and r: "resync_gone sid c = Some c'"
  shows "conn_moves enc sid past H base c [] c'"
  using assms by (intro conn_moves_quiet)
    (auto simp: resync_gone_def conn_ok_def forwarder_ok_def handler_ok_def split: if_splits Handler.splits)

lemma load_take_moves:
  assumes ok: "conn_ok past H base c" and r: "load_take True (Some rid) c = Some c'"
  shows "conn_moves enc sid past H base c [rid] c'"
proof -
  obtain i c1 where f: "handler c = Idle" "take_snapshot True c = Some (i, c1)" "c' = c1\<lparr>handler := Answering (Some rid) i\<rparr>"
    using r by (auto simp: load_take_def split: if_splits option.splits)
  note t = take_snapshot_ok [OF ok f(2)]
  from t f show ?thesis
    by (intro conn_moves_quiet) (auto simp: conn_ok_def forwarder_ok_def handler_ok_def)
qed

lemma reply_then_forward_moves:
  assumes ok: "conn_ok past H base c" and r: "reply_then_forward enc sid c = Some c'"
  shows "conn_moves enc sid past H base c [] c'"
proof -
  let ?c = "stop_forwarder c"
  have stop: "conn_ok past H None ?c" by (rule stop_forwarder_ok [OF ok])
  obtain rid i where h: "handler c = Answering rid i"
    and c': "c' = send_out (snapshot_reply enc sid i rid ?c) (?c\<lparr>handler := Idle, forwarder := Reading i 0\<rparr>)"
    using r by (auto simp: reply_then_forward_def Let_def split: Handler.splits)
  have h': "handler ?c = Answering rid i" "out_q ?c = out_q c" using h by (simp_all add: stop_forwarder_def)
  have "fresh_snap (life ?c) H i" "rid \<noteq> None" using stop h' by (auto simp: conn_ok_def handler_ok_def)
  from snapshot_reply_follows [OF this(1)] obtain h d
    where "follows enc sid H base [snapshot_reply enc sid i rid ?c] (Some (h, d))" "held (life ?c) H i 0 h" by blast
  with stop h' h \<open>rid \<noteq> None\<close> show ?thesis unfolding c'
    by (intro conn_moves_send) (auto simp: conn_ok_def forwarder_ok_def handler_ok_def uncharged_reply)
qed

lemma load_file_moves:
  assumes ok: "conn_ok past H base c" and r: "load_file enc True sid (Some rid) c = Some c'" and sent: "\<not> unsent_chunks c"
  shows "conn_moves enc sid past H base c [rid] c'"
proof -
  have c': "c' = send_out (file_reply enc True sid (Some rid) c) c" "handler c = Idle"
    using r by (auto simp: load_file_def split: if_splits)
  obtain d where d: "follows enc sid H base [file_reply enc True sid (Some rid) c] (Some (H, d))"
    using file_reply_follows ok by (force simp: conn_ok_def)
  have "forwarder_ok (life c) H (Some (H, d)) (forwarder c)"
    using ok sent by (auto simp: conn_ok_def forwarder_ok_def held_def unsent_chunks_def split: Forwarder.splits)
  with d ok c'(2) show ?thesis unfolding c'(1)
    by (intro conn_moves_send) (auto simp: conn_ok_def handler_ok_def uncharged_reply)
qed

lemma detach_moves:
  assumes ok: "conn_ok past H base c" and r: "detach c = Some c'"
  shows "conn_moves enc sid past H base c [] c'"
  using stop_forwarder_ok [OF ok, of base] r
  by (intro conn_moves_quiet) (auto simp: detach_def stop_forwarder_def split: if_splits)

lemma send_other_moves:
  assumes ok: "conn_ok past H base c" and r: "send_other m c = Some c'" and other: "\<not> about sid m"
  shows "conn_moves enc sid past H base c [] c'"
proof -
  have f: "follows enc sid H base [m] base" by (intro follows_other other follows_nil)
  have rid: "reply_id sid m = []" using other by (cases "(sid, m)" rule: reply_id.cases) auto
  show ?thesis
  proof (cases "\<exists>x d. m = PtyOutput x d")
    case True
    then obtain x d q where m: "m = PtyOutput x d" "try_charge x (length d) (lane c) = (True, q)" "c' = send_out m (c\<lparr>lane := q\<rparr>)"
      using r by (auto simp: send_other_def split: prod.splits bool.splits)
    have "lane_ok q (out_q c @ [m])" unfolding m(1) by (rule lane_ok_charge [OF _ m(2)]) (use ok in \<open>simp add: conn_ok_def\<close>)
    with ok f rid show ?thesis unfolding m(3) by (intro conn_moves_send) (auto simp: conn_ok_def)
  next
    case False
    then have "c' = send_out m c" using r by (cases m) (auto simp: send_other_def)
    with ok f rid False show ?thesis by (auto intro!: conn_moves_send simp: conn_ok_def lane_ok_uncharged)
  qed
qed

section \<open>The pane\<close>

text \<open>
  A loading pane shows nothing yet and its request is the last one on its way; a loaded one has
  no request on its way and shows the moment it has read.
\<close>

definition pane_ok :: "moment option \<Rightarrow> string list \<Rightarrow> string set \<Rightarrow> Pane \<Rightarrow> bool" where
  "pane_ok seen ids used p \<longleftrightarrow> distinct ids \<and> set ids \<subseteq> used \<and>
     (case pane_load p of
        None \<Rightarrow> True
      | Some load \<Rightarrow>
          (loading load \<longrightarrow> shown p = [] \<and> (\<exists>xs rid. request_id load = Some rid \<and> ids = xs @ [rid])) \<and>
          (phase load = Loaded \<longrightarrow> ids = [] \<and> (\<exists>h. seen = Some (h, shown p))))"

lemma loading_phase: "loading load \<longleftrightarrow> (\<exists>a t. phase load = Awaiting a t \<or> phase load = Backoff a t)"
  by (simp add: loading_def load_state_def split: Phase.splits)

lemma shown_simps [simp]:
  "shown (p\<lparr>pane_load := l\<rparr>) = shown p"
  "shown (p\<lparr>fed := xs\<rparr>) = concat (map session_bytes xs)"
  "shown \<lparr>pane_load = l, fed = xs\<rparr> = concat (map session_bytes xs)"
  by (simp_all add: shown_def)

lemma session_bytes_filter: "concat (map session_bytes (filter (\<lambda>s. s \<noteq> Request \<and> s \<noteq> Resize) xs)) = concat (map session_bytes xs)"
  by (induction xs) auto

lemma shown_run: "shown (snd (run_load_steps steps p)) = shown p @ concat (map session_bytes steps)"
  by (simp add: run_load_steps_def session_bytes_filter) (simp add: shown_def)

lemma pane_load_run [simp]: "pane_load (snd (run_load_steps steps p)) = pane_load p"
  by (simp add: run_load_steps_def)

lemma pane_ok_output:
  assumes "pane_ok (Some (h, t)) ids used p" "dec64 (enc x) = Some x"
  shows "pane_ok (Some (h @ x, t @ x)) ids used (on_pty_output dec64 (enc x) p)"
proof (cases "pane_load p")
  case None
  with assms show ?thesis by (simp add: pane_ok_def on_pty_output_def)
next
  case (Some load)
  show ?thesis
  proof (cases "loading load")
    case True
    then have "phase load \<noteq> Loaded" "loading (load\<lparr>buffer := b\<rparr>)" for b by (auto simp: loading_phase)
    with assms Some True show ?thesis by (auto simp: pane_ok_def on_pty_output_def on_output_def)
  next
    case False
    with assms Some show ?thesis by (auto simp: pane_ok_def on_pty_output_def on_output_def shown_def)
  qed
qed

text \<open>A reply written into the pane shows exactly its history.\<close>

lemma accepted_shows:
  assumes "loading load" "rid = None \<or> request_id load = rid" "re \<or> buffer load = []"
    "on_reply rid re tr (Some d) load = (v, load')"
  shows "phase load' = Loaded" "\<exists>steps. v = Some (Accepted steps) \<and> concat (map session_bytes steps) = d"
  using assms by (auto simp: on_reply_def finish_load_def Let_def)

text \<open>A resync starts the pane over.\<close>

lemma resync_shows:
  assumes "pane_load p = Some load" "rid = None" "dec64 x = Some d" "\<not> loading load"
  shows "\<exists>load'. pane_load (on_scrollback dec64 now x tr rid re p) = Some load' \<and> phase load' = Loaded"
    "shown (on_scrollback dec64 now x tr rid re p) = d"
proof -
  let ?fresh = "start_load now"
  obtain v load' where v: "on_reply None re tr (Some d) ?fresh = (v, load')" by fastforce
  have "loading ?fresh" "buffer ?fresh = []" by (simp_all add: start_load_def loading_phase)
  then have a: "phase load' = Loaded" "\<exists>steps. v = Some (Accepted steps) \<and> concat (map session_bytes steps) = d"
    using accepted_shows [OF _ _ _ v] by auto
  then obtain steps where "v = Some (Accepted steps)" "concat (map session_bytes steps) = d" by blast
  with assms v a(1) show "\<exists>load'. pane_load (on_scrollback dec64 now x tr rid re p) = Some load' \<and> phase load' = Loaded"
    "shown (on_scrollback dec64 now x tr rid re p) = d"
    by (simp_all add: on_scrollback_def shown_run)
qed

lemma pane_ok_scroll:
  assumes ok: "pane_ok seen (ids @ rest) used p" and ids: "ids = (case rid of Some r \<Rightarrow> [r] | None \<Rightarrow> [])"
    and dec: "dec64 (enc d) = Some d"
    and clean: "\<And>load. pane_load p = Some load \<Longrightarrow>
      \<not> (loading load \<and> rid = request_id load \<and> \<not> re \<and> buffer load \<noteq> []) \<and>
      \<not> (phase load = Failed \<and> rid = None \<and> ids @ rest \<noteq> [])"
  shows "pane_ok (Some (h, d)) rest used (on_scrollback dec64 now (enc d) tr rid re p)"
proof (cases "pane_load p")
  case None
  with ok show ?thesis by (auto simp: pane_ok_def on_scrollback_def)
next
  case (Some load)
  have set: "distinct rest" "set rest \<subseteq> used" using ok by (auto simp: pane_ok_def)
  consider (loading) "loading load" | (loaded) "phase load = Loaded" | (failed) "phase load = Failed"
    by (cases "phase load") (auto simp: loading_phase)
  then show ?thesis
  proof cases
    case loading
    then have notl: "phase load \<noteq> Loaded" by (auto simp: loading_phase)
    obtain xs r where r: "request_id load = Some r" "ids @ rest = xs @ [r]" and empty: "shown p = []"
      using ok Some loading by (auto simp: pane_ok_def)
    show ?thesis
    proof (cases rid)
      case None
      with Some loading ok ids show ?thesis using notl by (auto simp: on_scrollback_def pane_ok_def)
    next
      case (Some r')
      note rid = this
      show ?thesis
      proof (cases "r' = r")
        case False
        have "on_reply rid re tr (Some d) load = (Some Stale, load)"
          using loading False r(1) rid by (simp add: on_reply_def)
        then have "on_scrollback dec64 now (enc d) tr rid re p = p\<lparr>pane_load := Some load\<rparr>"
          using \<open>pane_load p = Some load\<close> rid dec by (simp add: on_scrollback_def)
        moreover have "\<exists>ys. rest = ys @ [r]" using r(2) ids rid False by (cases xs) auto
        ultimately show ?thesis using set empty r(1) notl by (auto simp: pane_ok_def)
      next
        case True
        have restNil: "rest = []" using r(2) ids rid True ok by (cases rest rule: rev_cases) (auto simp: pane_ok_def)
        have "re \<or> buffer load = []" using clean [OF \<open>pane_load p = Some load\<close>] loading r(1) rid True by auto
        moreover obtain v load' where v: "on_reply rid re tr (Some d) load = (v, load')" by fastforce
        ultimately have a: "phase load' = Loaded" "\<exists>steps. v = Some (Accepted steps) \<and> concat (map session_bytes steps) = d"
          using accepted_shows [OF loading _ _ v] r(1) rid True by auto
        then obtain steps where steps: "v = Some (Accepted steps)" "concat (map session_bytes steps) = d" by blast
        then have p': "on_scrollback dec64 now (enc d) tr rid re p = snd (run_load_steps steps (p\<lparr>pane_load := Some load'\<rparr>))"
          using \<open>pane_load p = Some load\<close> rid dec v by (simp add: on_scrollback_def)
        show ?thesis unfolding p' using set restNil a(1) steps(2) empty
          by (auto simp: pane_ok_def shown_run loading_phase)
      qed
    qed
  next
    case loaded
    then have nil: "ids @ rest = []" using ok Some by (auto simp: pane_ok_def)
    then have rid: "rid = None" using ids by (cases rid) auto
    show ?thesis using resync_shows [of p load rid dec64 "enc d" d now tr re, OF Some rid dec] nil loaded by (auto simp: loading_phase pane_ok_def)
  next
    case failed
    show ?thesis
    proof (cases rid)
      case None
      then have "ids @ rest = []" using clean [OF Some] failed by auto
      then show ?thesis using resync_shows [of p load rid dec64 "enc d" d now tr re, OF Some None dec] failed by (auto simp: loading_phase pane_ok_def)
    next
      case (Some r)
      with failed \<open>pane_load p = Some load\<close> have "on_scrollback dec64 now (enc d) tr rid re p = p\<lparr>pane_load := Some load\<rparr>"
        by (simp add: on_scrollback_def on_reply_def loading_phase)
      with set failed show ?thesis by (auto simp: pane_ok_def loading_phase)
    qed
  qed
qed

text \<open>A tick moves a loading pane only: to its pause, to its next request, or to giving up.\<close>

lemma advance_cases:
  assumes "advance now load = Some (steps, load')"
  shows "loading load \<and> (loading load' \<and> request_id load' = request_id load \<and> concat (map session_bytes steps) = [] \<or> phase load' = Failed \<and> Request \<notin> set steps)"
  using assms by (auto simp: advance_def finish_load_def loading_phase split: Phase.splits if_splits option.splits)

lemma pane_ok_tick:
  assumes ok: "pane_ok seen ids used p" and t: "tick_load now p = (again, p')"
  shows "\<not> again \<Longrightarrow> pane_ok seen ids used p'"
    and "again \<Longrightarrow> rid \<notin> used \<Longrightarrow> pane_ok seen (ids @ [rid]) (insert rid used) (expect_scrollback rid p')"
proof -
  have "(\<not> again \<longrightarrow> pane_ok seen ids used p') \<and>
      (again \<longrightarrow> rid \<notin> used \<longrightarrow> pane_ok seen (ids @ [rid]) (insert rid used) (expect_scrollback rid p'))"
  proof (cases "pane_load p")
    case None
    with t ok show ?thesis by (auto simp: tick_load_def)
  next
    case (Some load)
    show ?thesis
    proof (cases "advance now load")
      case None
      with Some t have "\<not> again" "p' = p" by (auto simp: tick_load_def tick_advance run_load_steps_def)
      with ok show ?thesis by simp
    next
      case (Some r)
      obtain steps load' where r: "advance now load = Some (steps, load')" using Some by (cases r) auto
      have p': "p' = snd (run_load_steps steps (p\<lparr>pane_load := Some load'\<rparr>))" and again: "again = (Request \<in> set steps)"
        using t r \<open>pane_load p = Some load\<close> by (auto simp: tick_load_def tick_advance run_load_steps_def)
      note adv = advance_cases [OF r]
      have load': "pane_load p' = Some load'" "shown p' = shown p @ concat (map session_bytes steps)"
        by (simp_all add: p' shown_run)
      show ?thesis
      proof (cases "loading load'")
        case True
        then have "phase load' \<noteq> Loaded" "phase load' \<noteq> Failed" by (auto simp: loading_phase)
        moreover have "loading (expect_reply_to rid load')" "phase (expect_reply_to rid load') = phase load'"
          "request_id (expect_reply_to rid load') = Some rid"
          using True by (auto simp: loading_phase expect_reply_to_def)
        ultimately show ?thesis
          using adv True ok load' \<open>pane_load p = Some load\<close> by (auto simp: pane_ok_def expect_scrollback_def)
      next
        case False
        with adv have "phase load' = Failed" "Request \<notin> set steps" by auto
        then show ?thesis using ok load' again by (auto simp: pane_ok_def loading_phase)
      qed
    qed
  qed
  then show "\<not> again \<Longrightarrow> pane_ok seen ids used p'"
    and "again \<Longrightarrow> rid \<notin> used \<Longrightarrow> pane_ok seen (ids @ [rid]) (insert rid used) (expect_scrollback rid p')" by blast+
qed

lemma pane_ok_attach:
  "pane_ok seen ids used p \<Longrightarrow> rid \<notin> used \<Longrightarrow> pane_ok seen (ids @ [rid]) (insert rid used) (expect_scrollback rid (attach_pane now))"
  by (auto simp: pane_ok_def attach_pane_def expect_scrollback_def expect_reply_to_def start_load_def loading_phase)

section \<open>The system\<close>

definition stream_inv :: "(string \<Rightarrow> string) \<Rightarrow> string \<Rightarrow> string \<Rightarrow> Stream \<Rightarrow> bool" where
  "stream_inv enc sid past s \<longleftrightarrow>
     (\<exists>seen base. conn_ok past (history s) base (conn s) \<and> base_ok (history s) seen \<and>
        follows enc sid (history s) seen (wire s @ out_q (conn s)) base \<and>
        pane_ok seen (outstanding sid s) (used_rids s) (pane s))"

lemma stream_inv_start: "resumable past d \<Longrightarrow> stream_inv enc sid past (start_stream d past)"
  unfolding stream_inv_def start_stream_def
  by (intro exI [of _ None])
     (auto simp: conn_ok_def life_ok_def base_ok_def follows_nil pane_ok_def released_pane_def outstanding_def lane_ok_def
        queued_def forwarder_ok_def handler_ok_def resumable_def intro: life_inv_start [unfolded resumable_def])

text \<open>A turn of the connection, with the requests it takes off the queue.\<close>

lemma stream_inv_turn:
  assumes inv: "stream_inv enc sid past s"
    and moves: "\<And>base. conn_ok past (history s) base (conn s) \<Longrightarrow> conn_moves enc sid past (history s) base (conn s) ids c'"
    and q: "concat (map req_id (in_q s)) = ids @ concat (map req_id q')"
  shows "stream_inv enc sid past (s\<lparr>conn := c', in_q := q'\<rparr>)"
proof -
  obtain seen base where i: "conn_ok past (history s) base (conn s)" "base_ok (history s) seen"
    "follows enc sid (history s) seen (wire s @ out_q (conn s)) base" "pane_ok seen (outstanding sid s) (used_rids s) (pane s)"
    using inv by (auto simp: stream_inv_def)
  obtain base' ms where m: "out_q c' = out_q (conn s) @ ms" "follows enc sid (history s) base ms base'"
    "conn_ok past (history s) base' c'"
    "concat (map (reply_id sid) ms) @ handler_id (handler c') = handler_id (handler (conn s)) @ ids"
    using moves [OF i(1)] by (auto simp: conn_moves_def)
  have "outstanding sid (s\<lparr>conn := c', in_q := q'\<rparr>) = outstanding sid s"
    using m(1,4) q by (simp add: outstanding_def)
  moreover have "follows enc sid (history s) seen ((wire s @ out_q (conn s)) @ ms) base'"
    by (rule follows_append [OF i(3) m(2)])
  ultimately show ?thesis using i m unfolding stream_inv_def by (intro exI [of _ seen] exI [of _ base']) simp
qed

lemma stream_inv_task:
  assumes inv: "stream_inv enc sid past s" and "event_fine e"
    and step: "stream_step enc dec64 sid (Task e) s = Some s'"
  shows "stream_inv enc sid past s'"
proof -
  obtain seen base where i: "conn_ok past (history s) base (conn s)" "base_ok (history s) seen"
    "follows enc sid (history s) seen (wire s @ out_q (conn s)) base" "pane_ok seen (outstanding sid s) (used_rids s) (pane s)"
    using inv by (auto simp: stream_inv_def)
  obtain l where l: "life_step e (life (conn s)) = Some l"
    and s': "s' = s\<lparr>conn := (conn s)\<lparr>life := l\<rparr>, history := history s @ out_of e\<rparr>"
    and held: "\<And>i. i \<in> forwarder_holds (forwarder (conn s)) \<union> handler_holds (handler (conn s)) \<Longrightarrow> e \<noteq> HangUp i"
    using step by (auto split: if_splits option.splits)
  let ?H = "history s @ out_of e"
  have ok: "life_ok past (history s) (life (conn s))" "forwarder_ok (life (conn s)) (history s) base (forwarder (conn s))"
    "handler_ok (life (conn s)) (history s) (forwarder (conn s)) (handler (conn s))" using i(1) by (simp_all add: conn_ok_def)
  have "conn_ok past ?H base ((conn s)\<lparr>life := l\<rparr>)"
    using life_ok_step [OF ok(1) assms(2) l] holders_step [OF ok(2,3) l held] i(1) by (simp add: conn_ok_def)
  moreover have "base_ok ?H seen"
    using i(2) by (cases seen) (auto simp: base_ok_def intro: moment_ok_mono)
  moreover have "follows enc sid ?H seen (wire s @ out_q (conn s)) base" by (rule follows_mono [OF i(3)]) simp
  moreover have "outstanding sid s' = outstanding sid s" by (simp add: s' outstanding_def)
  ultimately show ?thesis using i(4) unfolding stream_inv_def by (intro exI [of _ seen] exI [of _ base]) (simp add: s')
qed

lemma stream_inv_pump:
  assumes inv: "stream_inv enc sid past s" and step: "stream_step enc dec64 sid Pump s = Some s'"
  shows "stream_inv enc sid past s'"
proof -
  obtain m ms where q: "out_q (conn s) = m # ms"
    and s': "s' = s\<lparr>conn := (conn s)\<lparr>out_q := ms, lane := release_taken m (lane (conn s))\<rparr>, wire := wire s @ [m]\<rparr>"
    using step by (auto simp: pump_def split: list.splits)
  have "outstanding sid s' = outstanding sid s" by (simp add: s' q outstanding_def)
  with inv show ?thesis
    by (auto simp: stream_inv_def s' q conn_ok_def intro: lane_ok_pump)
qed

lemma follows_receive:
  assumes f: "follows enc sid H seen (m # ms) base" and seen: "base_ok H seen" and dec: "\<And>x. dec64 (enc x) = Some x"
    and ok: "pane_ok seen (reply_id sid m @ ids) used p"
    and clean: "\<And>x d tr rid re load. m = ScrollbackMsg x d tr rid re \<Longrightarrow> x = sid \<Longrightarrow> pane_load p = Some load \<Longrightarrow>
      \<not> (loading load \<and> rid = request_id load \<and> \<not> re \<and> buffer load \<noteq> []) \<and>
      \<not> (phase load = Failed \<and> rid = None \<and> reply_id sid m @ ids \<noteq> [])"
  shows "\<exists>seen'. follows enc sid H seen' ms base \<and> base_ok H seen' \<and> pane_ok seen' ids used (receive dec64 sid now m p)"
proof -
  consider (out) h x t where "seen = Some (h, t)" "m = PtyOutput sid (enc x)" "prefix (h @ x) H"
      "follows enc sid H (Some (h @ x, t @ x)) ms base"
    | (scroll) h d tr rid re where "m = ScrollbackMsg sid (enc d) tr rid re" "replays h (d, tr)" "prefix h H"
      "follows enc sid H (Some (h, d)) ms base"
    | (other) "\<not> about sid m" "follows enc sid H seen ms base"
    using f by (cases rule: follows.cases) auto
  then show ?thesis
  proof cases
    case out
    have "pane_ok (Some (h @ x, t @ x)) ids used (receive dec64 sid now m p)"
      using pane_ok_output [of h t ids used p dec64 enc x] ok dec out by simp
    moreover have "base_ok H (Some (h @ x, t @ x))" using seen out by (auto simp: base_ok_def intro: moment_ok_more)
    ultimately show ?thesis using out by blast
  next
    case scroll
    have rid: "reply_id sid m = (case rid of Some r \<Rightarrow> [r] | None \<Rightarrow> [])" using scroll by (cases rid) auto
    have "pane_ok (Some (h, d)) ids used (on_scrollback dec64 now (enc d) tr rid re p)"
      by (rule pane_ok_scroll [where enc = enc and ?dec64.0 = dec64, OF ok rid dec [of d]]) (use clean [OF scroll(1) refl] in blast)
    moreover have "base_ok H (Some (h, d))" using scroll by (auto simp: base_ok_def intro: moment_ok_replay)
    ultimately show ?thesis using scroll by auto
  next
    case other
    then have "receive dec64 sid now m p = p" by (cases m) auto
    moreover have "reply_id sid m = []" using other by (cases "(sid, m)" rule: reply_id.cases) auto
    ultimately show ?thesis using other ok seen by auto
  qed
qed

lemma stream_inv_receive:
  assumes inv: "stream_inv enc sid past s" and dec: "\<And>x. dec64 (enc x) = Some x"
    and step: "stream_step enc dec64 sid (Receive now) s = Some s'" and clean: "\<not> spoils sid (Receive now) s"
  shows "stream_inv enc sid past s'"
proof -
  obtain seen base where i: "conn_ok past (history s) base (conn s)" "base_ok (history s) seen"
    "follows enc sid (history s) seen (wire s @ out_q (conn s)) base" "pane_ok seen (outstanding sid s) (used_rids s) (pane s)"
    using inv by (auto simp: stream_inv_def)
  obtain m ms where w: "wire s = m # ms" and s': "s' = s\<lparr>wire := ms, pane := receive dec64 sid now m (pane s)\<rparr>"
    using step by (auto split: list.splits)
  have out: "outstanding sid s = reply_id sid m @ outstanding sid s'" by (simp add: outstanding_def w s')
  have f: "follows enc sid (history s) seen (m # ms @ out_q (conn s)) base" using i(3) w by simp
  have "\<exists>seen'. follows enc sid (history s) seen' (ms @ out_q (conn s)) base \<and> base_ok (history s) seen' \<and>
      pane_ok seen' (outstanding sid s') (used_rids s) (receive dec64 sid now m (pane s))"
    by (rule follows_receive [OF f i(2) dec]) (use i(4) clean w out in auto)
  with i(1) show ?thesis by (auto simp: stream_inv_def s')
qed

lemma on_conn_Some: "on_conn s r = Some s' \<longleftrightarrow> (\<exists>c. r = Some c \<and> s' = s\<lparr>conn := c\<rparr>)"
  by (auto simp: on_conn_def split: option.splits)

text \<open>A turn that takes no request.\<close>

lemma stream_inv_turn0:
  assumes "stream_inv enc sid past s"
    and "\<And>base. conn_ok past (history s) base (conn s) \<Longrightarrow> conn_moves enc sid past (history s) base (conn s) [] c'"
  shows "stream_inv enc sid past (s\<lparr>conn := c'\<rparr>)"
  using stream_inv_turn [OF assms, of "in_q s"] by simp

lemma stream_inv_request:
  assumes inv: "stream_inv enc sid past s"
    and p: "\<And>seen. pane_ok seen (outstanding sid s) (used_rids s) (pane s) \<Longrightarrow>
      pane_ok seen (outstanding sid s @ [rid]) (insert rid (used_rids s)) (expect_scrollback rid p')"
  shows "stream_inv enc sid past (request_scrollback rid (s\<lparr>pane := p'\<rparr>))"
proof -
  have "outstanding sid (request_scrollback rid (s\<lparr>pane := p'\<rparr>)) = outstanding sid s @ [rid]"
    by (simp add: outstanding_def request_scrollback_def)
  with inv p show ?thesis by (auto simp: stream_inv_def request_scrollback_def)
qed

lemma stream_inv_step:
  assumes inv: "stream_inv enc sid past s" and dec: "\<And>x. dec64 (enc x) = Some x"
    and fine: "stream_fine e" and clean: "\<not> spoils sid e s" and step: "stream_step enc dec64 sid e s = Some s'"
  shows "stream_inv enc sid past s'"
proof (cases e)
  case (Task x)
  with stream_inv_task [OF inv] fine step show ?thesis by simp
next
  case Forward
  with step inv show ?thesis by (auto simp: on_conn_Some intro: stream_inv_turn0 forward_moves)
next
  case (ResyncTake readable)
  with step fine inv show ?thesis by (auto simp: on_conn_Some intro: stream_inv_turn0 resync_take_moves)
next
  case ResyncSend
  with step inv show ?thesis by (auto simp: on_conn_Some intro: stream_inv_turn0 resync_send_moves)
next
  case (ResyncExited readable)
  with step fine inv show ?thesis by (auto simp: on_conn_Some intro: stream_inv_turn0 resync_exited_moves)
next
  case ResyncGone
  with step inv show ?thesis by (auto simp: on_conn_Some intro: stream_inv_turn0 resync_gone_moves)
next
  case (LoadTake readable)
  then obtain rid q c where "in_q s = LoadReq rid # q" "load_take True (Some rid) (conn s) = Some c" "s' = s\<lparr>conn := c, in_q := q\<rparr>"
    using step fine by (auto simp: on_conn_Some split: list.splits ClientReq.splits)
  with stream_inv_turn [OF inv, of "[rid]" c q] load_take_moves show ?thesis by simp
next
  case ReplyThenForward
  with step inv show ?thesis by (auto simp: on_conn_Some intro: stream_inv_turn0 reply_then_forward_moves)
next
  case (LoadFile readable)
  then obtain rid q c where "in_q s = LoadReq rid # q" "load_file enc True sid (Some rid) (conn s) = Some c" "s' = s\<lparr>conn := c, in_q := q\<rparr>"
    "\<not> unsent_chunks (conn s)"
    using step fine clean by (auto simp: on_conn_Some split: list.splits ClientReq.splits)
  with stream_inv_turn [OF inv, of "[rid]" c q] load_file_moves show ?thesis by simp
next
  case DoDetach
  then obtain q c where "in_q s = DetachReq # q" "detach (conn s) = Some c" "s' = s\<lparr>conn := c, in_q := q\<rparr>"
    using step by (auto simp: on_conn_Some split: list.splits ClientReq.splits)
  with stream_inv_turn [OF inv, of "[]" c q] detach_moves show ?thesis by simp
next
  case (Other m)
  with step inv show ?thesis by (auto simp: on_conn_Some intro: stream_inv_turn0 send_other_moves split: if_splits)
next
  case Pump
  with stream_inv_pump [OF inv] step show ?thesis by simp
next
  case (Receive now)
  with stream_inv_receive [OF inv dec] clean step show ?thesis by simp
next
  case (AttachPane now rid)
  with step show ?thesis by (auto intro!: stream_inv_request [OF inv] pane_ok_attach split: if_splits)
next
  case (TickPane now rid)
  obtain again p where t: "tick_load now (pane s) = (again, p)" by fastforce
  have new: "rid \<notin> used_rids s" and s': "s' = (if again then request_scrollback rid (s\<lparr>pane := p\<rparr>) else s\<lparr>pane := p\<rparr>)"
    using step TickPane t by (auto split: if_splits bool.splits)
  show ?thesis
  proof (cases again)
    case True
    with pane_ok_tick(2) [OF _ t _ new] show ?thesis unfolding s' by (auto intro: stream_inv_request [OF inv])
  next
    case False
    moreover have "outstanding sid (s\<lparr>pane := p\<rparr>) = outstanding sid s" by (simp add: outstanding_def)
    ultimately show ?thesis using inv pane_ok_tick(1) [OF _ t] unfolding s' by (simp add: stream_inv_def) blast
  qed
next
  case ReleasePane
  with step have s': "s' = s\<lparr>pane := released_pane, in_q := in_q s @ [DetachReq]\<rparr>" by simp
  have "outstanding sid s' = outstanding sid s" by (simp add: outstanding_def s')
  with inv show ?thesis by (auto simp: stream_inv_def s' pane_ok_def released_pane_def)
qed

lemma stream_reachable_inv:
  assumes "stream_reachable enc dec64 sid s0 s" "stream_inv enc sid past s0" "\<And>x. dec64 (enc x) = Some x"
  shows "stream_inv enc sid past s"
  using assms by (induction rule: stream_reachable.induct) (blast intro: stream_inv_step)+

text \<open>Nothing on its way, and the forwarder has sent all its channel holds: then the moment read is the whole history.\<close>

definition caught_up :: "Stream \<Rightarrow> bool" where
  "caught_up s \<longleftrightarrow> wire s = [] \<and> out_q (conn s) = [] \<and>
     (case forwarder (conn s) of Reading i k \<Rightarrow> k = length (live (snapshots (life (conn s)) ! i)) | _ \<Rightarrow> False)"

lemma stream_inv_moment:
  assumes "stream_inv enc sid past s" "pane_load (pane s) = Some load" "phase load = Loaded"
  shows "\<exists>h. moment_ok (history s) (h, shown (pane s)) \<and> (caught_up s \<longrightarrow> h = history s)"
proof -
  obtain seen base where i: "conn_ok past (history s) base (conn s)" "base_ok (history s) seen"
    "follows enc sid (history s) seen (wire s @ out_q (conn s)) base" "pane_ok seen (outstanding sid s) (used_rids s) (pane s)"
    using assms(1) by (auto simp: stream_inv_def)
  obtain h where h: "seen = Some (h, shown (pane s))" using i(4) assms(2,3) by (auto simp: pane_ok_def)
  have "h = history s" if "caught_up s"
  proof -
    have "seen = base" using i(3) that by (auto simp: caught_up_def elim: follows_NilE)
    with i(1) h that show ?thesis
      by (auto simp: conn_ok_def forwarder_ok_def held_def caught_up_def split: Forwarder.splits)
  qed
  with i(2) h show ?thesis by (auto simp: base_ok_def)
qed

lemma stream_inv_budget:
  "stream_inv enc sid past s \<Longrightarrow> queued_in x (out_q (conn s)) \<le> PTY_SESSION_BUDGET"
  by (auto simp: stream_inv_def conn_ok_def lane_ok_def)

end
