(* ===== verification/Output_Properties.thy ===== *)
theory Output_Properties
  imports Output_Invariant
begin

text \<open>
  What the output path promises: the tracer's ring keeps the newest bytes of all it was given, and
  a client that attaches to a session is replayed the end of the output so far, told where the
  paste mode stands, and then sent every later byte once.
\<close>

lemma ring_pushes:
  "let r = foldl push_chunk (with_capacity cap) chunks; out = concat chunks in
     ring_cap r = cap \<and> ring_buf r = lastn cap out \<and> written r = min (length out) (2 ^ 64 - 1) \<and>
     (overflowed r \<longleftrightarrow> cap < length out)"
proof (induction chunks rule: rev_induct)
  case Nil
  then show ?case by (simp add: with_capacity_def)
next
  case (snoc chunk chunks)
  define r where "r = foldl push_chunk (with_capacity cap) chunks"
  have r: "ring_cap r = cap" "ring_buf r = lastn cap (concat chunks)"
    "written r = min (length (concat chunks)) (2 ^ 64 - 1)" "overflowed r \<longleftrightarrow> cap < length (concat chunks)"
    using snoc by (simp_all add: r_def Let_def)
  have "ring_buf (push_chunk r chunk) = lastn cap (concat chunks @ chunk)"
    using r by (simp add: push_chunk_buf lastn_lastn_append)
  moreover have "written (push_chunk r chunk) = min (length (concat chunks @ chunk)) (2 ^ 64 - 1)"
    using r(3) by (auto simp: push_chunk_def Let_def saturating_add64_def)
  moreover have "overflowed (push_chunk r chunk) \<longleftrightarrow> cap < length (concat chunks @ chunk)"
    using r by (auto simp: push_chunk_overflowed)
  ultimately show ?case using r(1) by (simp add: Let_def flip: r_def)
qed

text \<open>
  C25: The tracer's ring implements its specification: after any sequence of pushed chunks, of
  any sizes, its snapshot is the newest \<open>cap\<close> bytes of everything pushed, its counter is the
  number of bytes pushed (stopping at the largest 64-bit value), and it reports an overflow
  exactly when more bytes were pushed than it can hold.
\<close>

theorem ring_keeps_newest:
  "snapshot_bytes (foldl push_chunk (with_capacity cap) chunks) = lastn cap (concat chunks)
   \<and> written (foldl push_chunk (with_capacity cap) chunks) = min (length (concat chunks)) (2 ^ 64 - 1)
   \<and> (overflowed (foldl push_chunk (with_capacity cap) chunks) \<longleftrightarrow> cap < length (concat chunks))"
  using ring_pushes [of cap chunks] by (simp add: Let_def snapshot_bytes_def)






text \<open>
  A fresh session: the enable sequence arrives in two chunks with a client attaching between
  them, another client attaches, more output comes and the child exits.
\<close>

definition good_disk :: ScrollDisk where
  "good_disk = \<lparr>open_ok = True, append_fails = None, trim_ok = True, flag_ok = True, reopen_ok = True, save_ok = True\<rparr>"

definition empty_dir :: SessionDir where
  "empty_dir = \<lparr>bytes_file = None, truncated_flag = False, termstate_file = None\<rparr>"











section \<open>The whole path to a pane\<close>




lemmas stream_eval = on_conn_def request_scrollback_def attach_pane_def expect_scrollback_def expect_reply_to_def start_load_def
  load_take_def take_snapshot_def on_snapshot_def build_replay_snapshot_def load_scrollback_def replay_prefix_def
  reply_then_forward_def stop_forwarder_def snapshot_reply_def scrollback_reply_def send_out_def on_chunk_def deliver_chunk_def
  send_live_def gate_write_def persist_chunk_def write_bytes_def write_inner_def open_append_def new_writer_def contents_def
  observe_paste_def last_mode_marker_def rfind_short forward_def try_charge_def queued_def pump_def release_taken_def
  on_scrollback_def on_reply_def loading_def load_state_def finish_load_def run_load_steps_def on_pty_output_def on_output_def
  start_stream_def start_life_def new_tracker_def load_termstate_def new_gate_def released_pane_def empty_dir_def good_disk_def
  MAX_SIZE_def PTY_SESSION_BUDGET_def disk_fine_def REQUEST_TIMEOUT_def Let_def



section \<open>Held-back output\<close>

definition retry_run :: "StreamEvent list" where
  "retry_run = [AttachPane 0 ''r1'', LoadTake True, ReplyThenForward, Task (Chunk good_disk ''hi''), Forward,
     TickPane 8000 ''r2'', TickPane 10000 ''r3'', Pump, Pump, Receive 10001, Receive 10002,
     Task Exited, Forward, LoadFile True, Pump, Receive 10003]"

definition retry_end :: Stream where
  "retry_end = the (stream_run (\<lambda>x. x) Some ''s'' retry_run (start_stream empty_dir []))"

text \<open>
  What the second kind of spoiling step does. A pane's first request is answered late, so the
  pane asks again; the first answer is then stale, and the output that follows it is held back for
  the second. The session exits meanwhile and the second request is answered from the file, which
  has that output already. Such an answer did not restart a forwarder, so the pane keeps what it
  held back and writes it after the file: it shows \<open>hihi\<close> where the child wrote \<open>hi\<close>.
\<close>

theorem held_output_repeated:
  "stream_run (\<lambda>x. x) Some ''s'' retry_run (start_stream empty_dir []) = Some retry_end
   \<and> history retry_end = ''hi'' \<and> wire retry_end = [] \<and> shown (pane retry_end) = ''hihi''"
  by (simp add: retry_end_def retry_run_def stream_eval tick_load_def tick_advance advance_def retry_delay_def RETRY_DELAYS_def
        on_exit_def close_writer_def load_file_def file_reply_def file_scrollback_reply_def shown_def)

section \<open>The load on its own\<close>

text \<open>
  C33: A load that is never answered ends. Over any ticks of the clock and any output, at most
  five ticks find their deadline passed; the second and the fourth of them ask the daemon again
  and no other does; the load gives up exactly at the fifth and never counts as loaded. Until then
  it writes none of the session's bytes; with what it still holds back, what it wrote in the end
  is the output since its last request.
\<close>

theorem load_gives_up:
  "case load_run es (start_load t0) of (steps, load) \<Rightarrow>
     due_ticks es (start_load t0) \<le> 5
     \<and> requests steps = due_ticks es (start_load t0) div 2
     \<and> phase load \<noteq> Loaded
     \<and> (phase load = Failed \<longleftrightarrow> due_ticks es (start_load t0) = 5)
     \<and> (if phase load = Failed then buffer load = [] else step_bytes steps = [])
     \<and> step_bytes steps @ concat (buffer load) = since_request es (start_load t0) []"
proof -
  obtain steps load where r: "load_run es (start_load t0) = (steps, load)" by force
  have "run_ok (start_load t0) []" by (simp add: run_ok_def start_load_def)
  from load_run_left [OF this r]
  have left: "run_ok load (step_bytes steps)" "5 = transitions_left (phase load) + due_ticks es (start_load t0)"
    "2 = transitions_left (phase load) div 2 + requests steps"
    "step_bytes steps @ concat (buffer load) = since_request es (start_load t0) []"
    by (simp_all add: start_load_def)
  have "phase load = Failed \<longleftrightarrow> transitions_left (phase load) = 0" "phase load \<noteq> Loaded"
    using left(1) by (cases "phase load"; auto simp: run_ok_def)+
  with left r show ?thesis by (auto simp: run_ok_def split: if_splits)
qed

end
