(* ===== verification/Account_Usage.thy ===== *)
theory Account_Usage
  imports Prelude "HOL-Library.Word"
begin

text \<open>
  What the account auto-switch engine knows of an account's usage, and when it looks for another
  account: the windows of a reading and when a reading is trusted (\<open>usage.rs\<close> and
  \<open>engine/reading.rs\<close> of \<open>crates/agents/claude/accounts/src\<close>) and the trigger classification
  (\<open>engine/trigger.rs\<close>).

  A time is a number of nanoseconds since the epoch. Three things are arguments: \<open>secs\<close>, the time
  library's conversion of a duration to \<open>f64\<close> seconds, \<open>parse_ts\<close>, its parser, and \<open>lower\<close>, the
  lower-casing of Unicode text.
\<close>

section \<open>Arithmetic of \<open>f64\<close>\<close>

fun flt_neg :: "flt \<Rightarrow> flt" where
  "flt_neg NaN = NaN"
| "flt_neg NegInf = PosInf"
| "flt_neg (Fin a) = Fin (- a)"
| "flt_neg PosInf = NegInf"

definition add64 :: "flt \<Rightarrow> flt \<Rightarrow> flt" where "add64 a b = flt_add 53 a b"
definition sub64 :: "flt \<Rightarrow> flt \<Rightarrow> flt" where "sub64 a b = flt_add 53 a (flt_neg b)"

fun sign_inf :: "rat \<Rightarrow> flt \<Rightarrow> flt" where
  "sign_inf a i = (if a = 0 then NaN else if 0 < a then i else flt_neg i)"

fun mul64 :: "flt \<Rightarrow> flt \<Rightarrow> flt" where
  "mul64 (Fin a) (Fin b) = fl 53 (a * b)"
| "mul64 NaN b = NaN"
| "mul64 a NaN = NaN"
| "mul64 (Fin a) i = sign_inf a i"
| "mul64 i (Fin a) = sign_inf a i"
| "mul64 i j = (if i = j then PosInf else NegInf)"

text \<open>\<open>f64::min\<close> and \<open>f64::max\<close>: the other value when one is NaN.\<close>

definition min64 :: "flt \<Rightarrow> flt \<Rightarrow> flt" where
  "min64 a b = (if a = NaN then b else if b = NaN then a else if flt_lt b a then b else a)"

definition max64 :: "flt \<Rightarrow> flt \<Rightarrow> flt" where
  "max64 a b = (if a = NaN then b else if b = NaN then a else if flt_lt a b then b else a)"

lemma flt_lt_trans: "flt_lt a b \<Longrightarrow> flt_lt b c \<Longrightarrow> flt_lt a c"
  by (cases a; cases b; cases c) auto

lemma flt_lt_asym: "flt_lt a b \<Longrightarrow> \<not> flt_lt b a"
  by (cases a; cases b) auto

lemma flt_lt_irrefl [simp]: "\<not> flt_lt a a"
  by (cases a) auto

lemma flt_lt_total: "a \<noteq> NaN \<Longrightarrow> b \<noteq> NaN \<Longrightarrow> flt_lt a b \<or> a = b \<or> flt_lt b a"
  by (cases a; cases b) auto

lemma flt_not_le: "a \<noteq> NaN \<Longrightarrow> b \<noteq> NaN \<Longrightarrow> \<not> flt_le a b \<longleftrightarrow> flt_lt b a"
  by (cases a; cases b) (auto simp: flt_le_def)

lemma sub64_Fin: "\<exists>c. sub64 (Fin a) (Fin b) = Fin c"
  by (simp add: sub64_def fl_def)

section \<open>JSON values\<close>

text \<open>A \<open>serde_json\<close> value; a number is an integer or a finite \<open>f64\<close>.\<close>

datatype Value = VNull | VBool bool | VInt int | VFloat rat | VStr string | VArr "Value list" | VObj "(string \<times> Value) list"

fun get_key :: "string \<Rightarrow> Value \<Rightarrow> Value option" where
  "get_key k (VObj kvs) = map_of kvs k"
| "get_key k _ = None"

fun as_object :: "Value \<Rightarrow> Value option" where
  "as_object (VObj kvs) = Some (VObj kvs)"
| "as_object _ = None"

fun as_str :: "Value \<Rightarrow> string option" where
  "as_str (VStr s) = Some s"
| "as_str _ = None"

fun as_bool :: "Value \<Rightarrow> bool option" where
  "as_bool (VBool b) = Some b"
| "as_bool _ = None"

fun as_array :: "Value \<Rightarrow> Value list option" where
  "as_array (VArr vs) = Some vs"
| "as_array _ = None"

fun value_f64 :: "Value \<Rightarrow> flt option" where
  "value_f64 (VInt n) = Some (fl 53 (of_int n))"
| "value_f64 (VFloat q) = Some (Fin q)"
| "value_f64 _ = None"

fun as_u64 :: "Value \<Rightarrow> nat option" where
  "as_u64 (VInt n) = (if 0 \<le> n \<and> n < 2 ^ 64 then Some (nat n) else None)"
| "as_u64 _ = None"

lemma value_f64_Fin: "value_f64 v = Some x \<Longrightarrow> \<exists>q. x = Fin q"
  by (cases v) (auto simp: fl_def)

section \<open>The windows of a reading\<close>

record UsageWindow =
  pct :: flt
  resets_at :: "int option"

text \<open>Option chaining with \<open>?\<close>.\<close>

definition bind_opt :: "'a option \<Rightarrow> ('a \<Rightarrow> 'b option) \<Rightarrow> 'b option" where
  "bind_opt = Option.bind"

lemma bind_opt_simps [simp]: "bind_opt None f = None" "bind_opt (Some x) f = f x"
  by (simp_all add: bind_opt_def)

lemma bind_opt_eq_Some: "bind_opt x f = Some y \<longleftrightarrow> (\<exists>z. x = Some z \<and> f z = Some y)"
  by (cases x) simp_all

definition reset_of :: "(string \<Rightarrow> int option) \<Rightarrow> Value \<Rightarrow> int option" where
  "reset_of parse_ts w = bind_opt (bind_opt (get_key ''resets_at'' w) as_str) parse_ts"

definition window_at :: "(string \<Rightarrow> int option) \<Rightarrow> Value \<Rightarrow> string \<Rightarrow> UsageWindow option" where
  "window_at parse_ts reading key =
     bind_opt (bind_opt (get_key key reading) as_object) (\<lambda>w.
     bind_opt (bind_opt (get_key ''pct'' w) value_f64) (\<lambda>p.
     Some \<lparr>pct = p, resets_at = reset_of parse_ts w\<rparr>))"

definition account_windows :: "(string \<Rightarrow> int option) \<Rightarrow> Value \<Rightarrow> UsageWindow option \<times> UsageWindow option" where
  "account_windows parse_ts reading = (window_at parse_ts reading ''five_hour'', window_at parse_ts reading ''seven_day'')"

definition scoped_window :: "(string \<Rightarrow> int option) \<Rightarrow> Value \<Rightarrow> (string \<times> UsageWindow) option" where
  "scoped_window parse_ts w =
     bind_opt (bind_opt (get_key ''name'' w) as_str) (\<lambda>name.
     bind_opt (bind_opt (get_key ''pct'' w) value_f64) (\<lambda>p.
     Some (name, \<lparr>pct = p, resets_at = reset_of parse_ts w\<rparr>)))"

definition scoped_window_counts :: "(string \<Rightarrow> string) \<Rightarrow> Value \<Rightarrow> string list \<Rightarrow> bool" where
  "scoped_window_counts lower w models =
     (case bind_opt (get_key ''name'' w) as_str of
        None \<Rightarrow> False
      | Some name \<Rightarrow> \<exists>model \<in> set models. lower model = ''all'' \<or> lower model = lower name)"

definition relevant_windows ::
  "(string \<Rightarrow> int option) \<Rightarrow> (string \<Rightarrow> string) \<Rightarrow> Value \<Rightarrow> string list \<Rightarrow> (string \<times> UsageWindow) list" where
  "relevant_windows parse_ts lower reading models =
     (case account_windows parse_ts reading of (five_hour, seven_day) \<Rightarrow>
        List.map_filter (\<lambda>(label, w). map_option (Pair label) w) [(''5h'', five_hour), (''7d'', seven_day)]
        @ List.map_filter (scoped_window parse_ts)
            (filter (\<lambda>w. scoped_window_counts lower w models)
               (case bind_opt (get_key ''scoped'' reading) as_array of Some ws \<Rightarrow> ws | None \<Rightarrow> [])))"

lemma in_map_filter: "y \<in> set (List.map_filter f xs) \<longleftrightarrow> (\<exists>x \<in> set xs. f x = Some y)"
  by (induction xs) (auto simp: List.map_filter_simps split: option.splits)

lemma window_at_Fin: "window_at parse_ts reading key = Some w \<Longrightarrow> \<exists>q. pct w = Fin q"
  by (auto simp: window_at_def bind_opt_eq_Some dest!: value_f64_Fin)

lemma scoped_window_Fin: "scoped_window parse_ts v = Some (name, w) \<Longrightarrow> \<exists>q. pct w = Fin q"
  by (auto simp: scoped_window_def bind_opt_eq_Some dest!: value_f64_Fin)

lemma relevant_windows_Fin:
  "(name, w) \<in> set (relevant_windows parse_ts lower reading models) \<Longrightarrow> \<exists>q. pct w = Fin q"
  by (auto simp: relevant_windows_def account_windows_def in_map_filter simp del: List.map_filter_simps dest: window_at_Fin scoped_window_Fin)

text \<open>One account's usage as the ranking reads it.\<close>

record AccountUsage =
  windows :: "UsageWindow list"
  weekly_reset :: "int option"

definition from_reading :: "(string \<Rightarrow> int option) \<Rightarrow> (string \<Rightarrow> string) \<Rightarrow> Value \<Rightarrow> string list \<Rightarrow> AccountUsage" where
  "from_reading parse_ts lower reading models =
     \<lparr>windows = map snd (relevant_windows parse_ts lower reading models),
      weekly_reset = bind_opt (get_key ''seven_day'' reading) (reset_of parse_ts)\<rparr>"

text \<open>The binding window is the fullest, the first of equals.\<close>

definition binding :: "AccountUsage \<Rightarrow> UsageWindow option" where
  "binding u =
     foldl (\<lambda>best w. case best of Some b \<Rightarrow> if flt_le (pct w) (pct b) then Some b else Some w | None \<Rightarrow> Some w) None (windows u)"

definition headroom :: "AccountUsage \<Rightarrow> flt option" where
  "headroom u = map_option (\<lambda>w. sub64 (Fin 100) (pct w)) (binding u)"

definition binding_recovery :: "AccountUsage option \<Rightarrow> int \<Rightarrow> int option" where
  "binding_recovery usage now =
     bind_opt (bind_opt (bind_opt usage binding) resets_at) (\<lambda>reset. if now < reset then Some reset else None)"

lemma binding_in: "binding u = Some w \<Longrightarrow> w \<in> set (windows u)"
proof -
  have "foldl (\<lambda>best w. case best of Some b \<Rightarrow> if flt_le (pct w) (pct b) then Some b else Some w | None \<Rightarrow> Some w) best ws = Some w
      \<Longrightarrow> best = Some w \<or> w \<in> set ws" for best ws
    by (induction ws arbitrary: best) (auto split: option.splits if_splits)
  then show "binding u = Some w \<Longrightarrow> w \<in> set (windows u)" by (auto simp: binding_def)
qed

lemma headroom_Fin: "headroom (from_reading parse_ts lower reading models) = Some h \<Longrightarrow> \<exists>q. h = Fin q"
  using sub64_Fin
  by (auto simp: headroom_def from_reading_def dest!: binding_in relevant_windows_Fin)

section \<open>Which readings are trusted\<close>

definition STALE_OK_S :: flt where "STALE_OK_S = Fin 300"
definition TRUST_MAX_AGE_S :: flt where "TRUST_MAX_AGE_S = Fin 3600"
definition RATE_LIMIT_TRUST_MAX_AGE_S :: flt where "RATE_LIMIT_TRUST_MAX_AGE_S = Fin 7200"
definition LEGACY_CLAIM_TTL_S :: flt where "LEGACY_CLAIM_TTL_S = Fin 10"

record UsageEntry =
  last_good :: "Value option"
  fetched_at :: "int option"
  last_attempt_at :: "int option"
  consecutive_failures :: nat
  last_error :: "string option"
  next_poll_at :: "int option"
  claim_until :: "int option"
  held_until :: "int option"

definition live_claim :: "flt option \<Rightarrow> flt option \<Rightarrow> flt \<Rightarrow> bool" where
  "live_claim until attempt now =
     (case until of
        Some until \<Rightarrow> flt_lt now until
      | None \<Rightarrow> (case attempt of Some attempt \<Rightarrow> flt_lt (sub64 now attempt) LEGACY_CLAIM_TTL_S | None \<Rightarrow> False))"

definition claimed :: "(int \<Rightarrow> flt) \<Rightarrow> int \<Rightarrow> UsageEntry \<Rightarrow> bool" where
  "claimed secs now e = live_claim (map_option secs (claim_until e)) (map_option secs (last_attempt_at e)) (secs now)"

text \<open>\<open>Iterator::min\<close>.\<close>

fun min_time :: "int list \<Rightarrow> int option" where
  "min_time [] = None"
| "min_time (t # ts) = (case min_time ts of None \<Rightarrow> Some t | Some u \<Rightarrow> Some (min t u))"

definition earliest_reset ::
  "(string \<Rightarrow> int option) \<Rightarrow> (string \<Rightarrow> string) \<Rightarrow> Value \<Rightarrow> string list \<Rightarrow> int option" where
  "earliest_reset parse_ts lower reading models =
     min_time (List.map_filter (\<lambda>(_, w). resets_at w) (relevant_windows parse_ts lower reading models))"

definition rate_limited_trust_ok ::
  "(string \<Rightarrow> int option) \<Rightarrow> (string \<Rightarrow> string) \<Rightarrow> Value option \<Rightarrow> flt \<Rightarrow> string list \<Rightarrow> int \<Rightarrow> bool" where
  "rate_limited_trust_ok parse_ts lower reading age models now =
     (flt_lt age RATE_LIMIT_TRUST_MAX_AGE_S \<and>
      (case bind_opt reading (\<lambda>r. earliest_reset parse_ts lower r models) of Some reset \<Rightarrow> now < reset | None \<Rightarrow> True))"

definition trust_extended ::
  "(int \<Rightarrow> flt) \<Rightarrow> (string \<Rightarrow> int option) \<Rightarrow> (string \<Rightarrow> string) \<Rightarrow> UsageEntry \<Rightarrow> flt \<Rightarrow> string list \<Rightarrow> int \<Rightarrow> bool" where
  "trust_extended secs parse_ts lower e age models now =
     (let within_ceiling = (if last_error e = Some ''http-429'' then rate_limited_trust_ok parse_ts lower (last_good e) age models now
                            else flt_le age TRUST_MAX_AGE_S);
          scheduled = (case next_poll_at e of Some t \<Rightarrow> now < t | None \<Rightarrow> False);
          held = (case held_until e of Some t \<Rightarrow> now < t | None \<Rightarrow> False)
      in within_ceiling \<and> (0 < consecutive_failures e \<or> scheduled \<or> claimed secs now e \<or> held))"

definition decision_value ::
  "(int \<Rightarrow> flt) \<Rightarrow> (string \<Rightarrow> int option) \<Rightarrow> (string \<Rightarrow> string) \<Rightarrow> UsageEntry \<Rightarrow> string list \<Rightarrow> int \<Rightarrow> Value option" where
  "decision_value secs parse_ts lower e models now =
     bind_opt (last_good e) (\<lambda>reading.
     bind_opt (fetched_at e) (\<lambda>fetched.
       let age = secs (now - fetched) in
       if flt_le age STALE_OK_S \<or> trust_extended secs parse_ts lower e age models now then Some reading else None))"

section \<open>The trigger\<close>

definition IDLE_HOLD_MAX_S :: flt where "IDLE_HOLD_MAX_S = Fin 1800"

datatype Strategy = Best | ConsumeFirstStrategy

record AutoSwitchSettings =
  threshold :: flt
  interval_seconds :: flt
  cooldown_seconds :: flt
  hysteresis_pct :: flt
  strategy :: Strategy
  unhealthy_ticks :: "32 word"
  models :: "string list"

datatype Trigger = AtLimit | Proactive | ConsumeFirst | Failover

fun trigger_name :: "Trigger \<Rightarrow> string" where
  "trigger_name AtLimit = ''at-limit''"
| "trigger_name Proactive = ''proactive''"
| "trigger_name ConsumeFirst = ''consume-first''"
| "trigger_name Failover = ''failover''"

definition is_escape :: "Trigger \<Rightarrow> bool" where
  "is_escape t = (t = AtLimit \<or> t = Failover)"

datatype ActiveReading = Headroom flt | TokenExpired | NoReading

record ActiveHealth =
  bad_ticks :: "32 word"
  idle_hold_since :: "int option"

definition healthy :: ActiveHealth where
  "healthy = \<lparr>bad_ticks = 0, idle_hold_since = None\<rparr>"

datatype Hold = BelowThreshold | ActiveIdle | ActiveUsageUnknown "32 word" "32 word"

datatype TriggerDecision = SwitchFor Trigger | HoldFor Hold

definition measured :: "flt \<Rightarrow> AutoSwitchSettings \<Rightarrow> TriggerDecision" where
  "measured room s =
     (if flt_lt (sub64 (Fin 100) room) (threshold s)
      then (if strategy s = ConsumeFirstStrategy then SwitchFor ConsumeFirst else HoldFor BelowThreshold)
      else SwitchFor (if flt_le room (Fin 0) then AtLimit else Proactive))"

text \<open>\<open>u32::saturating_add(1)\<close>.\<close>

definition sat_inc32 :: "32 word \<Rightarrow> 32 word" where
  "sat_inc32 n = (if n = - 1 then n else n + 1)"

definition count_unhealthy :: "ActiveHealth \<Rightarrow> AutoSwitchSettings \<Rightarrow> TriggerDecision \<times> ActiveHealth" where
  "count_unhealthy health s =
     (let ticks = sat_inc32 (bad_ticks health) in
      (if ticks < unhealthy_ticks s then HoldFor (ActiveUsageUnknown ticks (unhealthy_ticks s)) else SwitchFor Failover,
       health\<lparr>bad_ticks := ticks\<rparr>))"

definition token_expired ::
  "(int \<Rightarrow> flt) \<Rightarrow> ActiveHealth \<Rightarrow> AutoSwitchSettings \<Rightarrow> int \<Rightarrow> TriggerDecision \<times> ActiveHealth" where
  "token_expired secs health s now =
     (let since = (case idle_hold_since health of Some t \<Rightarrow> t | None \<Rightarrow> now) in
      if flt_le (secs (now - since)) IDLE_HOLD_MAX_S
      then (HoldFor ActiveIdle, \<lparr>bad_ticks = 0, idle_hold_since = Some since\<rparr>)
      else count_unhealthy (health\<lparr>idle_hold_since := Some since\<rparr>) s)"

definition classify_trigger ::
  "(int \<Rightarrow> flt) \<Rightarrow> ActiveReading \<Rightarrow> ActiveHealth \<Rightarrow> AutoSwitchSettings \<Rightarrow> int \<Rightarrow> TriggerDecision \<times> ActiveHealth" where
  "classify_trigger secs reading health s now =
     (case reading of
        Headroom room \<Rightarrow> (measured room s, healthy)
      | TokenExpired \<Rightarrow> token_expired secs health s now
      | NoReading \<Rightarrow> count_unhealthy (health\<lparr>idle_hold_since := None\<rparr>) s)"

section \<open>The trigger over a history of ticks\<close>

text \<open>The engine's memory after the ticks \<open>hs\<close>, oldest first: each a reading and its time.\<close>

definition health_after :: "(int \<Rightarrow> flt) \<Rightarrow> AutoSwitchSettings \<Rightarrow> (ActiveReading \<times> int) list \<Rightarrow> ActiveHealth" where
  "health_after secs s hs = foldl (\<lambda>health (r, now). snd (classify_trigger secs r health s now)) healthy hs"

text \<open>
  The same read off the history, newest tick first: the idle hold began at the first of the latest
  expired tokens in a row, and the bad run is the ticks since the last reading or idle hold.
\<close>

definition hold_start :: "(ActiveReading \<times> int) list \<Rightarrow> int" where
  "hold_start rh = snd (last (takeWhile (\<lambda>x. fst x = TokenExpired) rh))"

definition held_idle :: "(int \<Rightarrow> flt) \<Rightarrow> (ActiveReading \<times> int) list \<Rightarrow> bool" where
  "held_idle secs rh \<longleftrightarrow>
     (case rh of (TokenExpired, now) # _ \<Rightarrow> flt_le (secs (now - hold_start rh)) IDLE_HOLD_MAX_S | _ \<Rightarrow> False)"

fun bad_run :: "(int \<Rightarrow> flt) \<Rightarrow> (ActiveReading \<times> int) list \<Rightarrow> nat" where
  "bad_run secs [] = 0"
| "bad_run secs ((Headroom room, now) # rh) = 0"
| "bad_run secs ((NoReading, now) # rh) = Suc (bad_run secs rh)"
| "bad_run secs ((TokenExpired, now) # rh) =
     (if held_idle secs ((TokenExpired, now) # rh) then 0 else Suc (bad_run secs rh))"

definition sat32 :: "nat \<Rightarrow> 32 word" where
  "sat32 n = (if n < 2 ^ 32 then of_nat n else - 1)"

lemma sat_inc32_sat: "sat_inc32 (sat32 n) = sat32 (Suc n)"
proof (cases "n < 2 ^ 32 - 1")
  case True
  have "unat (of_nat n :: 32 word) = n" using True by (simp add: unat_of_nat take_bit_nat_eq_self)
  then have "(of_nat n :: 32 word) \<noteq> - 1" using True by (auto simp: unsigned_minus_1_eq_mask mask_eq_exp_minus_1)
  with True show ?thesis by (simp add: sat_inc32_def sat32_def add.commute)
next
  case False
  then consider "n = 2 ^ 32 - 1" | "2 ^ 32 \<le> n" by linarith
  then show ?thesis by cases (simp_all add: sat_inc32_def sat32_def)
qed

lemma sat32_less: "sat32 n < (w :: 32 word) \<longleftrightarrow> n < unat w"
proof (cases "n < 2 ^ 32")
  case True
  then have "unat (of_nat n :: 32 word) = n" by (simp add: unat_of_nat take_bit_nat_eq_self)
  with True show ?thesis by (simp add: sat32_def word_less_nat_alt)
next
  case False
  have "unat w < 2 ^ 32" using unsigned_less [of w, where ?'a = nat] by simp
  with False show ?thesis by (simp add: sat32_def)
qed

lemma hold_start_expired:
  "hold_start ((TokenExpired, now) # rh) = (case rh of (TokenExpired, _) # _ \<Rightarrow> hold_start rh | _ \<Rightarrow> now)"
  by (auto simp: hold_start_def split: list.splits prod.splits ActiveReading.splits)

lemma health_after_history:
  "health_after secs s (rev rh) =
     \<lparr>bad_ticks = sat32 (bad_run secs rh),
      idle_hold_since = (case rh of (TokenExpired, _) # _ \<Rightarrow> Some (hold_start rh) | _ \<Rightarrow> None)\<rparr>"
proof (induction rh)
  case Nil
  then show ?case by (simp add: health_after_def healthy_def sat32_def)
next
  case (Cons x rh)
  obtain r now where x: "x = (r, now)" by (cases x)
  define h where "h = health_after secs s (rev rh)"
  have step: "health_after secs s (rev rh @ [(r, now)]) = snd (classify_trigger secs r h s now)"
    by (simp add: health_after_def h_def x)
  have since: "(case idle_hold_since h of Some t \<Rightarrow> t | None \<Rightarrow> now) = hold_start ((TokenExpired, now) # rh)"
    using Cons by (auto simp: h_def hold_start_expired split: list.splits prod.splits ActiveReading.splits)
  have ticks: "sat_inc32 (bad_ticks h) = sat32 (Suc (bad_run secs rh))" using Cons by (simp add: h_def sat_inc32_sat)
  show ?case
    using step since ticks
    by (cases r) (auto simp: x classify_trigger_def token_expired_def count_unhealthy_def healthy_def Let_def
                         held_idle_def sat32_def [of 0])
qed

lemma classify_history:
  "fst (classify_trigger secs r (health_after secs s hs) s now) =
     (case r of
        Headroom room \<Rightarrow> measured room s
      | _ \<Rightarrow> let rh = (r, now) # rev hs in
             if held_idle secs rh then HoldFor ActiveIdle
             else if bad_run secs rh < unat (unhealthy_ticks s)
             then HoldFor (ActiveUsageUnknown (of_nat (bad_run secs rh)) (unhealthy_ticks s))
             else SwitchFor Failover)"
proof -
  define h where "h = health_after secs s hs"
  have h: "h = \<lparr>bad_ticks = sat32 (bad_run secs (rev hs)),
      idle_hold_since = (case rev hs of (TokenExpired, _) # _ \<Rightarrow> Some (hold_start (rev hs)) | _ \<Rightarrow> None)\<rparr>"
    using health_after_history [of secs s "rev hs"] by (simp add: h_def)
  have since: "(case idle_hold_since h of Some t \<Rightarrow> t | None \<Rightarrow> now) = hold_start ((TokenExpired, now) # rev hs)"
    by (auto simp: h hold_start_expired split: list.splits prod.splits ActiveReading.splits)
  have count: "fst (count_unhealthy (h\<lparr>idle_hold_since := i\<rparr>) s) =
      (let n = Suc (bad_run secs (rev hs)) in
       if n < unat (unhealthy_ticks s) then HoldFor (ActiveUsageUnknown (of_nat n) (unhealthy_ticks s)) else SwitchFor Failover)" for i
  proof -
    have "n < unat (unhealthy_ticks s) \<Longrightarrow> sat32 n = of_nat n" for n
      using unsigned_less [of "unhealthy_ticks s", where ?'a = nat] by (simp add: sat32_def)
    then show ?thesis by (simp add: count_unhealthy_def h sat_inc32_sat sat32_less Let_def)
  qed
  show ?thesis
    unfolding h_def [symmetric]
    using since by (cases r) (simp_all add: classify_trigger_def token_expired_def count held_idle_def Let_def)
qed

end
