(* ===== verification/Account_Rank.thy ===== *)
theory Account_Rank
  imports Account_Usage
begin

text \<open>
  Where the engine may switch to and in which order (\<open>engine/rank.rs\<close>), over the state file's record
  of the last switch (\<open>AutoswitchState\<close> of \<open>engine/state.rs\<close>): the candidate census, the ranking, the
  no-return bar and its release; and the paid fallback's account test and ranking (\<open>engine/paid.rs\<close>).
\<close>

section \<open>The state file\<close>

record QuarantineEntry =
  q_email :: string
  q_reason :: string
  q_at :: string
  refresh_token_fingerprint :: "string option"

datatype QuarantineRecord = Entry QuarantineEntry | Malformed Value

record LeaseOwner =
  lo_owner :: string
  lo_pid :: nat
  lo_started_at :: flt

record OwnerExit =
  exit_at :: flt
  opted_in :: "nat list option"

record PaidFallback =
  paid_number :: nat
  paid_from :: nat
  since :: flt
  owner_exit :: "OwnerExit option"
  lease_owner :: LeaseOwner

record AutoswitchState =
  schema_version :: "nat option"
  last_switch_at :: "flt option"
  last_switch_to :: "string option"
  last_switch_from :: "nat option"
  left_headroom :: "flt option option"
  left_recovery_at :: "flt option option"
  left_trigger :: "string option"
  quarantine :: "string \<Rightarrow> QuarantineRecord option"
  paid_fallback :: "PaidFallback option"
  extra :: "(string \<times> Value) list"

section \<open>The candidates\<close>

datatype AccountKind = Oauth | ApiKey

record CandidateAccount =
  ca_number :: nat
  kind :: AccountKind
  disabled :: bool

definition candidates :: "CandidateAccount list \<Rightarrow> nat \<Rightarrow> AutoswitchState \<Rightarrow> nat list" where
  "candidates accounts active st =
     map ca_number (filter (\<lambda>a. \<not> (disabled a \<or> ca_number a = active \<or> quarantine st (dec (ca_number a)) \<noteq> None) \<and> kind a = Oauth)
       accounts)"

record RankInputs =
  trigger :: Trigger
  active :: nat
  oauth :: "nat list"
  usage :: "nat \<Rightarrow> AccountUsage option"
  state :: AutoswitchState
  settings :: AutoSwitchSettings
  rank_now :: int

record Ranking =
  ordered :: "nat list"
  any_known :: bool
  active_weekly_reset :: "int option"

section \<open>What the state says of the last switch\<close>

definition came_from :: "AutoswitchState \<Rightarrow> nat option" where
  "came_from st = (case last_switch_from st of
     Some n \<Rightarrow> Some n
   | None \<Rightarrow> bind_opt (bind_opt (map_of (extra st) ''lastSwitchFrom'') as_str) parse_u32)"

definition landed_elsewhere :: "AutoswitchState \<Rightarrow> nat \<Rightarrow> bool" where
  "landed_elsewhere st act = (case last_switch_to st of
     Some landed \<Rightarrow> landed \<noteq> dec act
   | None \<Rightarrow> (case map_of (extra st) ''lastSwitchTo'' of
       None \<Rightarrow> False
     | Some VNull \<Rightarrow> False
     | Some landed \<Rightarrow> as_u64 landed \<noteq> Some act))"

definition left_trigger_is_failover :: "AutoswitchState \<Rightarrow> bool option" where
  "left_trigger_is_failover st = (case left_trigger st of
     Some t \<Rightarrow> Some (t = trigger_name Failover)
   | None \<Rightarrow> (case map_of (extra st) ''leftTrigger'' of
       None \<Rightarrow> None
     | Some VNull \<Rightarrow> None
     | Some _ \<Rightarrow> Some False))"

datatype Recorded = Absent | Null | Number flt | OtherValue

definition recorded :: "flt option option \<Rightarrow> AutoswitchState \<Rightarrow> string \<Rightarrow> Recorded" where
  "recorded typed st key = (case typed of
     Some (Some x) \<Rightarrow> Number x
   | Some None \<Rightarrow> Null
   | None \<Rightarrow> if map_of (extra st) key \<noteq> None then OtherValue else Absent)"

definition recorded_none :: "Recorded \<Rightarrow> bool" where
  "recorded_none r = (r = Absent \<or> r = Null)"

section \<open>The view of a tick\<close>

definition RECOVERY_HYSTERESIS_S :: flt where "RECOVERY_HYSTERESIS_S = Fin 300"
definition RECOVERY_HORIZON_S :: flt where "RECOVERY_HORIZON_S = Fin 14400"
definition HORIZON_HEADROOM_RATIO :: flt where "HORIZON_HEADROOM_RATIO = Fin 2"
definition SPENT_HEADROOM_PCT :: flt where "SPENT_HEADROOM_PCT = Fin 3"

definition view_usage :: "RankInputs \<Rightarrow> nat \<Rightarrow> AccountUsage option" where
  "view_usage i a =
     (if a = active i \<or> a \<in> set (oauth i) \<or> came_from (state i) = Some a then usage i a else None)"

definition room_of :: "RankInputs \<Rightarrow> nat \<Rightarrow> flt option" where
  "room_of i a = bind_opt (view_usage i a) headroom"

definition recovery :: "(int \<Rightarrow> flt) \<Rightarrow> RankInputs \<Rightarrow> nat \<Rightarrow> flt" where
  "recovery secs i a = (case binding_recovery (view_usage i a) (rank_now i) of Some t \<Rightarrow> secs t | None \<Rightarrow> PosInf)"

definition weekly :: "RankInputs \<Rightarrow> nat \<Rightarrow> int option" where
  "weekly i a =
     bind_opt (bind_opt (view_usage i a) weekly_reset) (\<lambda>reset. if rank_now i < reset then Some reset else None)"

definition landing_floor :: "RankInputs \<Rightarrow> flt" where
  "landing_floor i = sub64 (Fin 100) (threshold (settings i))"

definition every_account_above_threshold :: "RankInputs \<Rightarrow> bool" where
  "every_account_above_threshold i =
     (case room_of i (active i) of
        None \<Rightarrow> False
      | Some act \<Rightarrow>
          if flt_lt (sub64 (Fin 100) act) (threshold (settings i)) then False
          else let measured_rooms = List.map_filter (room_of i) (oauth i)
               in measured_rooms \<noteq> [] \<and> (\<forall>h \<in> set measured_rooms. flt_le (threshold (settings i)) (sub64 (Fin 100) h)))"

section \<open>The ranking\<close>

text \<open>\<open>Vec::sort_by\<close>: the stable sort of a weak order.\<close>

fun insert_by :: "('a \<Rightarrow> 'a \<Rightarrow> bool) \<Rightarrow> 'a \<Rightarrow> 'a list \<Rightarrow> 'a list" where
  "insert_by lt x [] = [x]"
| "insert_by lt x (y # ys) = (if lt y x then y # insert_by lt x ys else x # y # ys)"

definition sort_by :: "('a \<Rightarrow> 'a \<Rightarrow> bool) \<Rightarrow> 'a list \<Rightarrow> 'a list" where
  "sort_by lt xs = foldr (insert_by lt) xs []"

datatype Ordering = Less | Equal | Greater

definition partial_cmp :: "flt \<Rightarrow> flt \<Rightarrow> Ordering option" where
  "partial_cmp a b = (if flt_lt a b then Some Less else if flt_eq a b then Some Equal else if flt_lt b a then Some Greater else None)"

definition compare_keys :: "flt list \<Rightarrow> flt list \<Rightarrow> Ordering" where
  "compare_keys l r =
     (case List.find (\<lambda>c. c \<noteq> Equal)
             (map (\<lambda>(a, b). case partial_cmp a b of Some c \<Rightarrow> c | None \<Rightarrow> Equal) (zip l r)) of
        Some c \<Rightarrow> c | None \<Rightarrow> Equal)"

definition consume_first :: "RankInputs \<Rightarrow> bool" where
  "consume_first i = (strategy (settings i) = ConsumeFirstStrategy)"

definition active_reset :: "RankInputs \<Rightarrow> int option" where
  "active_reset i = (if consume_first i then weekly i (active i) else None)"

definition beats_active :: "RankInputs \<Rightarrow> int option \<Rightarrow> flt \<Rightarrow> bool" where
  "beats_active i reset room =
     (if consume_first i
      then trigger i \<noteq> ConsumeFirst \<or> (case (reset, active_reset i) of (Some r, Some a) \<Rightarrow> r < a | _ \<Rightarrow> False)
      else (case room_of i (active i) of None \<Rightarrow> True | Some act \<Rightarrow> flt_le (hysteresis_pct (settings i)) (sub64 room act)))"

text \<open>A candidate's key, none when it is skipped.\<close>

definition place :: "(int \<Rightarrow> flt) \<Rightarrow> RankInputs \<Rightarrow> nat \<Rightarrow> flt \<Rightarrow> flt list option" where
  "place secs i a room =
     (let reset = (if consume_first i then weekly i a else None) in
      if \<not> is_escape (trigger i) \<and> every_account_above_threshold i then None
      else if \<not> is_escape (trigger i)
              \<and> (flt_le (threshold (settings i)) (sub64 (Fin 100) room) \<or> \<not> beats_active i reset room) then None
      else if consume_first i then Some [case reset of Some t \<Rightarrow> secs t | None \<Rightarrow> PosInf, flt_neg room, Fin 0]
      else Some [flt_neg room, Fin 0, Fin 0])"

fun qualifying :: "(int \<Rightarrow> flt) \<Rightarrow> RankInputs \<Rightarrow> nat option \<Rightarrow> nat list \<Rightarrow> (flt list \<times> nat) list" where
  "qualifying secs i no_return [] = []"
| "qualifying secs i no_return (a # as) =
     (case room_of i a of
        None \<Rightarrow> qualifying secs i no_return as
      | Some room \<Rightarrow>
          if flt_le room (Fin 0) \<or> no_return = Some a then qualifying secs i no_return as
          else (case place secs i a room of
                  Some key \<Rightarrow> (key, a) # qualifying secs i no_return as
                | None \<Rightarrow> qualifying secs i no_return as))"

definition rank_view :: "(int \<Rightarrow> flt) \<Rightarrow> RankInputs \<Rightarrow> nat option \<Rightarrow> Ranking" where
  "rank_view secs i no_return =
     \<lparr>ordered = map snd (sort_by (\<lambda>x y. compare_keys (fst x) (fst y) = Less) (qualifying secs i no_return (oauth i))),
      any_known = (\<exists>a \<in> set (oauth i). room_of i a \<noteq> None),
      active_weekly_reset = active_reset i\<rparr>"

section \<open>The no-return bar\<close>

definition barred_account :: "RankInputs \<Rightarrow> bool \<Rightarrow> nat option" where
  "barred_account i recovered =
     (if is_escape (trigger i) then None
      else case came_from (state i) of
        None \<Rightarrow> None
      | Some barred \<Rightarrow>
          if landed_elsewhere (state i) (active i) then None
          else if \<not> recovered then Some barred
          else let better = (case room_of i barred of
                   None \<Rightarrow> False
                 | Some left \<Rightarrow> (case room_of i (active i) of
                       Some act \<Rightarrow> flt_le (mul64 act HORIZON_HEADROOM_RATIO) left
                     | None \<Rightarrow> flt_lt (landing_floor i) left))
               in if better then None else Some barred)"

definition is_finite :: "flt \<Rightarrow> bool" where
  "is_finite x = (case x of Fin _ \<Rightarrow> True | _ \<Rightarrow> False)"

definition failover_recovered :: "(int \<Rightarrow> flt) \<Rightarrow> RankInputs \<Rightarrow> nat \<Rightarrow> bool" where
  "failover_recovered secs i barred =
     (if (case room_of i barred of Some h \<Rightarrow> flt_lt (landing_floor i) h | None \<Rightarrow> False) then True
      else let peer = recovery secs i barred; act = recovery secs i (active i) in
        (is_finite act \<or> flt_le (sub64 peer (secs (rank_now i))) RECOVERY_HORIZON_S)
        \<and> flt_lt peer (sub64 act RECOVERY_HYSTERESIS_S))"

definition ordinary_recovered :: "(int \<Rightarrow> flt) \<Rightarrow> RankInputs \<Rightarrow> nat \<Rightarrow> Recorded \<Rightarrow> Recorded \<Rightarrow> bool" where
  "ordinary_recovered secs i barred left_room left_rec =
     (let dominant = (\<lambda>h. case room_of i (active i) of
            Some act \<Rightarrow> flt_lt (add64 (mul64 act HORIZON_HEADROOM_RATIO) SPENT_HEADROOM_PCT) h
          | None \<Rightarrow> flt_lt (landing_floor i) h);
          gained = (\<lambda>h. case left_room of
            Number left \<Rightarrow> flt_le (min64 (add64 left SPENT_HEADROOM_PCT) (Fin 100)) h
          | _ \<Rightarrow> False)
      in if (case room_of i barred of Some h \<Rightarrow> dominant h \<or> gained h | None \<Rightarrow> False) then True
         else let was = (case left_rec of Number r \<Rightarrow> r | _ \<Rightarrow> PosInf)
              in flt_lt (recovery secs i barred) (sub64 was RECOVERY_HYSTERESIS_S))"

definition left_recovered :: "(int \<Rightarrow> flt) \<Rightarrow> RankInputs \<Rightarrow> bool" where
  "left_recovered secs i =
     (let st = state i in
      case came_from st of
        None \<Rightarrow> True
      | Some barred \<Rightarrow>
          let left_room = recorded (left_headroom st) st ''leftHeadroom'' in
          if left_room = Absent then True
          else let left_rec = recorded (left_recovery_at st) st ''leftRecoveryAt'';
                   failover = (case left_trigger_is_failover st of
                       Some b \<Rightarrow> b | None \<Rightarrow> recorded_none left_room \<and> recorded_none left_rec)
               in if failover then failover_recovered secs i barred else ordinary_recovered secs i barred left_room left_rec)"

definition rank :: "(int \<Rightarrow> flt) \<Rightarrow> RankInputs \<Rightarrow> Ranking" where
  "rank secs i =
     (let recovered = left_recovered secs i;
          no_return = barred_account i recovered;
          ranking = rank_view secs i no_return
      in if no_return \<noteq> None \<and> ordered ranking = [] \<and> recovered
         then (let unbarred = rank_view secs i None in if ordered unbarred \<noteq> [] then unbarred else ranking)
         else ranking)"

section \<open>Stable sorting\<close>

lemma mset_insert_by [simp]: "mset (insert_by lt x ys) = add_mset x (mset ys)"
  by (induction ys) auto

lemma set_insert_by [simp]: "set (insert_by lt x ys) = insert x (set ys)"
  by (induction ys) auto

lemma sort_by_simps [simp]: "sort_by lt [] = []" "sort_by lt (x # xs) = insert_by lt x (sort_by lt xs)"
  by (simp_all add: sort_by_def)

lemma mset_sort_by [simp]: "mset (sort_by lt xs) = mset xs"
  by (induction xs) auto

lemma set_sort_by [simp]: "set (sort_by lt xs) = set xs"
  by (induction xs) auto

lemma insert_by_map: "insert_by lt (f x) (map f ys) = map f (insert_by (\<lambda>a b. lt (f a) (f b)) x ys)"
  by (induction ys) auto

lemma sort_by_map: "sort_by lt (map f xs) = map f (sort_by (\<lambda>a b. lt (f a) (f b)) xs)"
  by (induction xs) (simp_all add: insert_by_map)

text \<open>
  What a client of \<open>sort_by\<close> relies on: a comparison that is a weak order on the elements sorted. Then the
  result is in order and elements that compare equal keep theirs.
\<close>

locale weak_order =
  fixes lt :: "'a \<Rightarrow> 'a \<Rightarrow> bool" and D :: "'a set"
  assumes asym: "x \<in> D \<Longrightarrow> y \<in> D \<Longrightarrow> lt x y \<Longrightarrow> \<not> lt y x"
    and between: "x \<in> D \<Longrightarrow> y \<in> D \<Longrightarrow> z \<in> D \<Longrightarrow> lt x z \<Longrightarrow> lt x y \<or> lt y z"
begin

lemma insert_by_sorted:
  "x \<in> D \<Longrightarrow> set ys \<subseteq> D \<Longrightarrow> sorted_wrt (\<lambda>a b. \<not> lt b a) ys \<Longrightarrow> sorted_wrt (\<lambda>a b. \<not> lt b a) (insert_by lt x ys)"
proof (induction ys)
  case (Cons y ys)
  show ?case
  proof (cases "lt y x")
    case True
    then have "\<not> lt x y" using asym [of y x] Cons.prems(1,2) by simp
    with True Cons show ?thesis by simp
  next
    case False
    have "\<not> lt w x" if "w \<in> set ys" for w
      using that False Cons.prems between [of w y x] by auto
    with False Cons.prems(3) show ?thesis by simp
  qed
qed simp

lemma sort_by_sorted: "set xs \<subseteq> D \<Longrightarrow> sorted_wrt (\<lambda>a b. \<not> lt b a) (sort_by lt xs)"
  by (induction xs) (simp_all add: insert_by_sorted)

text \<open>A list in the order of \<open>R\<close> comes out in the order of \<open>lt\<close>, and of \<open>R\<close> where that does not decide.\<close>

lemma insert_by_refines:
  "x \<in> D \<Longrightarrow> set ys \<subseteq> D \<Longrightarrow> \<forall>y \<in> set ys. R x y \<Longrightarrow> sorted_wrt (\<lambda>a b. \<not> lt b a \<and> (lt a b \<or> R a b)) ys \<Longrightarrow>
   sorted_wrt (\<lambda>a b. \<not> lt b a \<and> (lt a b \<or> R a b)) (insert_by lt x ys)"
proof (induction ys)
  case (Cons y ys)
  show ?case
  proof (cases "lt y x")
    case True
    then have "\<not> lt x y" using asym [of y x] Cons.prems(1,2) by simp
    with True Cons show ?thesis by simp
  next
    case False
    have "\<not> lt w x" if "w \<in> set ys" for w
      using that False Cons.prems between [of w y x] by auto
    with False Cons.prems(3,4) show ?thesis by simp
  qed
qed simp

lemma sort_by_refines:
  "set xs \<subseteq> D \<Longrightarrow> sorted_wrt R xs \<Longrightarrow> sorted_wrt (\<lambda>a b. \<not> lt b a \<and> (lt a b \<or> R a b)) (sort_by lt xs)"
  by (induction xs) (simp_all add: insert_by_refines)

lemma insert_by_ties:
  "x \<in> D \<Longrightarrow> z \<in> D \<Longrightarrow> set ys \<subseteq> D \<Longrightarrow>
   filter (\<lambda>y. \<not> lt x y \<and> \<not> lt y x) (insert_by lt z ys) = filter (\<lambda>y. \<not> lt x y \<and> \<not> lt y x) (z # ys)"
proof (induction ys)
  case (Cons y ys)
  have "lt y x" if "lt y z" "\<not> lt x z" using that between [of y x z] Cons.prems by auto
  with Cons show ?case by auto
qed simp

lemma sort_by_ties:
  "x \<in> D \<Longrightarrow> set xs \<subseteq> D \<Longrightarrow>
   filter (\<lambda>y. \<not> lt x y \<and> \<not> lt y x) (sort_by lt xs) = filter (\<lambda>y. \<not> lt x y \<and> \<not> lt y x) xs"
  by (induction xs) (simp_all add: insert_by_ties)

end

section \<open>The ranking's order\<close>

definition good_key :: "flt list \<Rightarrow> bool" where
  "good_key k \<longleftrightarrow> (\<exists>a b c. k = [a, b, c] \<and> a \<noteq> NaN \<and> b \<noteq> NaN \<and> c \<noteq> NaN)"

lemma compare_keys_Less:
  "a \<noteq> NaN \<Longrightarrow> b \<noteq> NaN \<Longrightarrow> c \<noteq> NaN \<Longrightarrow> a' \<noteq> NaN \<Longrightarrow> b' \<noteq> NaN \<Longrightarrow> c' \<noteq> NaN \<Longrightarrow>
   compare_keys [a, b, c] [a', b', c'] = Less \<longleftrightarrow>
     flt_lt a a' \<or> a = a' \<and> (flt_lt b b' \<or> b = b' \<and> flt_lt c c')"
  using flt_lt_asym [of a a'] flt_lt_asym [of b b'] flt_lt_asym [of c c']
    flt_lt_total [of a a'] flt_lt_total [of b b'] flt_lt_total [of c c']
  by (auto simp: compare_keys_def partial_cmp_def flt_eq_iff)

abbreviation key_before :: "flt list \<Rightarrow> flt list \<Rightarrow> bool" where
  "key_before k l \<equiv> compare_keys k l = Less"

lemma key_before_asym: "good_key k \<Longrightarrow> good_key l \<Longrightarrow> key_before k l \<Longrightarrow> \<not> key_before l k"
  by (auto simp: good_key_def compare_keys_Less dest: flt_lt_asym)

lemma key_before_between:
  assumes "good_key k" "good_key l" "good_key m" "key_before k m"
  shows "key_before k l \<or> key_before l m"
proof -
  obtain a b c a' b' c' x y z where "k = [a, b, c]" "m = [a', b', c']" "l = [x, y, z]"
    "a \<noteq> NaN" "b \<noteq> NaN" "c \<noteq> NaN" "a' \<noteq> NaN" "b' \<noteq> NaN" "c' \<noteq> NaN" "x \<noteq> NaN" "y \<noteq> NaN" "z \<noteq> NaN"
    using assms(1-3) by (auto simp: good_key_def)
  with assms(4) show ?thesis
    using flt_lt_total [of a x] flt_lt_total [of x a'] flt_lt_total [of b y] flt_lt_total [of y b']
      flt_lt_total [of c z] flt_lt_total [of z c']
    by (auto simp: compare_keys_Less dest: flt_lt_trans)
qed

interpretation keyed: weak_order "\<lambda>a b. key_before (key a) (key b)" "{a. good_key (key a)}" for key
proof
  show "key_before (key x) (key y) \<Longrightarrow> \<not> key_before (key y) (key x)"
    if "x \<in> {a. good_key (key a)}" "y \<in> {a. good_key (key a)}" for x y
    using that key_before_asym by simp
  show "key_before (key x) (key z) \<Longrightarrow> key_before (key x) (key y) \<or> key_before (key y) (key z)"
    if "x \<in> {a. good_key (key a)}" "y \<in> {a. good_key (key a)}" "z \<in> {a. good_key (key a)}" for x y z
    using that key_before_between by simp
qed

section \<open>What the ranking lists\<close>

definition rank_key :: "(int \<Rightarrow> flt) \<Rightarrow> RankInputs \<Rightarrow> nat \<Rightarrow> flt list" where
  "rank_key secs i a =
     (let room = flt_neg (the (room_of i a)) in
      if consume_first i then [case weekly i a of Some t \<Rightarrow> secs t | None \<Rightarrow> PosInf, room, Fin 0]
      else [room, Fin 0, Fin 0])"

text \<open>
  The accounts a trigger may move to: readable, with headroom, not barred; unless it escapes, also
  below the threshold and better than the active account by the strategy's measure.
\<close>

definition qualifies :: "RankInputs \<Rightarrow> nat option \<Rightarrow> nat \<Rightarrow> bool" where
  "qualifies i bar a \<longleftrightarrow>
     (\<exists>room. room_of i a = Some room \<and> \<not> flt_le room (Fin 0) \<and> bar \<noteq> Some a \<and>
        (\<not> is_escape (trigger i) \<longrightarrow>
           \<not> flt_le (threshold (settings i)) (sub64 (Fin 100) room) \<and>
           beats_active i (if consume_first i then weekly i a else None) room))"

lemma not_all_above:
  "a \<in> set (oauth i) \<Longrightarrow> room_of i a = Some room \<Longrightarrow> \<not> flt_le (threshold (settings i)) (sub64 (Fin 100) room) \<Longrightarrow>
   \<not> every_account_above_threshold i"
  using in_map_filter [of room "room_of i" "oauth i"]
  by (auto simp: every_account_above_threshold_def Let_def split: option.splits)

lemma qualifying_eq:
  "set as \<subseteq> set (oauth i) \<Longrightarrow>
   qualifying secs i bar as = map (\<lambda>a. (rank_key secs i a, a)) (filter (qualifies i bar) as)"
proof (induction as)
  case (Cons a as)
  then have IH: "qualifying secs i bar as = map (\<lambda>a. (rank_key secs i a, a)) (filter (qualifies i bar) as)"
    and a: "a \<in> set (oauth i)" by auto
  show ?case
  proof (cases "room_of i a")
    case None
    then have "\<not> qualifies i bar a" by (simp add: qualifies_def)
    with IH None show ?thesis by simp
  next
    case (Some room)
    have q: "qualifies i bar a \<longleftrightarrow> \<not> flt_le room (Fin 0) \<and> bar \<noteq> Some a \<and>
        (\<not> is_escape (trigger i) \<longrightarrow> \<not> flt_le (threshold (settings i)) (sub64 (Fin 100) room) \<and>
           beats_active i (if consume_first i then weekly i a else None) room)"
      using Some by (simp add: qualifies_def)
    have "place secs i a room = (if qualifies i bar a then Some (rank_key secs i a) else None)"
      if "\<not> flt_le room (Fin 0)" "bar \<noteq> Some a"
      using that not_all_above [OF a Some] Some by (auto simp: q place_def rank_key_def Let_def)
    with IH Some q show ?thesis by auto
  qed
qed simp

lemma rank_view_ordered:
  "ordered (rank_view secs i bar) =
     sort_by (\<lambda>a b. key_before (rank_key secs i a) (rank_key secs i b)) (filter (qualifies i bar) (oauth i))"
  by (simp add: rank_view_def qualifying_eq sort_by_map comp_def)

text \<open>The ranking is one of the barred view or, when the account left has recovered, the unbarred one.\<close>

lemma rank_cases:
  obtains bar where "rank secs i = rank_view secs i bar"
    and "bar = barred_account i (left_recovered secs i) \<or> bar = None \<and> left_recovered secs i"
proof -
  have "rank secs i = rank_view secs i (barred_account i (left_recovered secs i)) \<or>
      rank secs i = rank_view secs i None \<and> left_recovered secs i"
    by (simp add: rank_def Let_def)
  with that show thesis by blast
qed

lemma barred_account_cases:
  "barred_account i r = None \<or> barred_account i r = came_from (state i) \<and> \<not> is_escape (trigger i)"
  by (auto simp: barred_account_def Let_def split: option.splits)

lemma barred_unless_recovered:
  "\<not> is_escape (trigger i) \<Longrightarrow> came_from (state i) = Some a \<Longrightarrow> \<not> landed_elsewhere (state i) (active i) \<Longrightarrow>
   \<not> left_recovered secs i \<Longrightarrow> a \<notin> set (ordered (rank secs i))"
  by (rule rank_cases [of secs i]) (auto simp: rank_view_ordered barred_account_def qualifies_def)

lemma good_rank_key:
  assumes "\<And>t. secs t \<noteq> NaN" "\<And>a u. usage i a = Some u \<Longrightarrow> \<exists>r. u = from_reading parse_ts lower r ms"
    and "qualifies i bar a"
  shows "good_key (rank_key secs i a)"
proof -
  obtain room where room: "room_of i a = Some room" using assms(3) by (auto simp: qualifies_def)
  then obtain u where "usage i a = Some u" "headroom u = Some room"
    by (auto simp: room_of_def view_usage_def bind_opt_eq_Some split: if_splits)
  with assms(2) [of a u] obtain q where "room = Fin q" using headroom_Fin by blast
  with room assms(1) show ?thesis
    by (auto simp: rank_key_def good_key_def Let_def split: option.splits)
qed

lemma candidates_in:
  "a \<in> set (candidates accounts act st) \<longleftrightarrow>
     (\<exists>c \<in> set accounts. ca_number c = a \<and> kind c = Oauth \<and> \<not> disabled c) \<and> a \<noteq> act \<and> quarantine st (dec a) = None"
  by (auto simp: candidates_def)

end
