(* ===== verification/Account_Paid.thy ===== *)
theory Account_Paid
  imports Account_Rank
begin

text \<open>
  The paid fallback's account test and ranking (\<open>engine/paid.rs\<close> of
  \<open>crates/agents/claude/accounts/src\<close>): whether an account may carry the fleet on its prepaid credits
  once every subscription is used up, and which account to spend on first. \<open>powi10\<close> is the
  library's power of ten, whose precision Rust leaves open.
\<close>

definition PAID_BALANCE_MAX_AGE_S :: flt where "PAID_BALANCE_MAX_AGE_S = Fin 900"
definition FUTURE_FETCH_SLACK_S :: flt where "FUTURE_FETCH_SLACK_S = Fin 60"

record PrepaidEntry =
  amount_minor :: "int option"
  exponent :: "nat option"
  currency :: "string option"
  prepaid_fetched_at :: "int option"

record AccountRecord =
  rec_kind :: AccountKind
  rec_disabled :: bool
  may_spend_credits :: bool

record PaidCandidate =
  account :: AccountRecord
  paid_reading :: "Value option"
  prepaid :: "PrepaidEntry option"
  available :: bool

record PaidBalance =
  amount :: flt
  balance_currency :: string
  age_s :: flt

datatype Ineligible =
    NotOauth | DisabledAccount | FlagOff | NotSwitchable | ExtraUsageUnknown | ExtraUsageOff | UserDisabled
  | SpendLimitReached | DisabledReasonSet | NoBalance | BalanceZero | CurrencyMissing | StaleBalance

definition record_eligible :: "PaidCandidate \<Rightarrow> Ineligible + unit" where
  "record_eligible c =
     (if rec_kind (account c) \<noteq> Oauth then Err NotOauth
      else if rec_disabled (account c) then Err DisabledAccount
      else if \<not> may_spend_credits (account c) then Err FlagOff
      else if \<not> available c then Err NotSwitchable
      else Ok ())"

definition ok_or :: "'e \<Rightarrow> 'a option \<Rightarrow> 'e + 'a" where
  "ok_or e x = (case x of Some y \<Rightarrow> Ok y | None \<Rightarrow> Err e)"

lemma ok_or_eq_Inr [simp]: "ok_or e x = Inr y \<longleftrightarrow> x = Some y"
  by (simp add: ok_or_def split: option.splits)

definition extra_flag :: "Value \<Rightarrow> string \<Rightarrow> Ineligible + bool" where
  "extra_flag v key = ok_or ExtraUsageUnknown (bind_opt (get_key key v) as_bool)"

definition extra_usage_on :: "Value option \<Rightarrow> Ineligible + unit" where
  "extra_usage_on reading =
     and_then (ok_or ExtraUsageUnknown (bind_opt (bind_opt reading (get_key ''extra_usage'')) as_object)) (\<lambda>ex.
     and_then (extra_flag ex ''enabled'') (\<lambda>enabled.
     and_then (extra_flag ex ''user_disabled'') (\<lambda>user_disabled.
     and_then (extra_flag ex ''spend_limit_reached'') (\<lambda>limit_reached.
     and_then (extra_flag ex ''disabled_reason_set'') (\<lambda>reason_set.
       if \<not> enabled then Err ExtraUsageOff
       else if user_disabled then Err UserDisabled
       else if limit_reached then Err SpendLimitReached
       else if reason_set then Err DisabledReasonSet
       else Ok ())))))"

definition extra_usage_known_off :: "Value option \<Rightarrow> bool" where
  "extra_usage_known_off reading =
     (extra_usage_on reading \<in> Inl ` {ExtraUsageOff, UserDisabled, SpendLimitReached, DisabledReasonSet})"

fun div64 :: "flt \<Rightarrow> flt \<Rightarrow> flt" where
  "div64 (Fin a) (Fin b) = (if b \<noteq> 0 then fl 53 (a / b) else if a = 0 then NaN else if 0 < a then PosInf else NegInf)"
| "div64 NaN b = NaN"
| "div64 a NaN = NaN"
| "div64 (Fin a) i = Fin 0"
| "div64 i (Fin b) = (if b < 0 then flt_neg i else i)"
| "div64 i j = NaN"

definition major_units :: "(nat \<Rightarrow> flt) \<Rightarrow> int \<Rightarrow> nat \<Rightarrow> flt" where
  "major_units powi10 n e = div64 (fl 53 (of_int n)) (powi10 e)"

text \<open>The age of a balance, and whether it is one to spend on.\<close>

definition balance_age :: "(int \<Rightarrow> flt) \<Rightarrow> int \<Rightarrow> int \<Rightarrow> flt" where
  "balance_age secs now fetched = sub64 (secs now) (secs fetched)"

definition age_in_range :: "flt \<Rightarrow> bool" where
  "age_in_range age \<longleftrightarrow> flt_le (flt_neg FUTURE_FETCH_SLACK_S) age \<and> flt_le age PAID_BALANCE_MAX_AGE_S"

definition prepaid_balance ::
  "(int \<Rightarrow> flt) \<Rightarrow> (nat \<Rightarrow> flt) \<Rightarrow> PrepaidEntry option \<Rightarrow> int \<Rightarrow> Ineligible + PaidBalance" where
  "prepaid_balance secs powi10 entry now =
     and_then (ok_or NoBalance entry) (\<lambda>e.
       case (amount_minor e, exponent e) of
         (Some n, Some ex) \<Rightarrow>
           if n \<le> 0 then Err BalanceZero
           else and_then (ok_or CurrencyMissing (currency e)) (\<lambda>cur.
                and_then (ok_or StaleBalance (prepaid_fetched_at e)) (\<lambda>fetched.
                  let age = balance_age secs now fetched in
                  if flt_lt PAID_BALANCE_MAX_AGE_S age \<or> flt_lt age (flt_neg FUTURE_FETCH_SLACK_S) then Err StaleBalance
                  else Ok \<lparr>amount = major_units powi10 n ex, balance_currency = cur, age_s = max64 age (Fin 0)\<rparr>))
       | _ \<Rightarrow> Err NoBalance)"

definition paid_eligible ::
  "(int \<Rightarrow> flt) \<Rightarrow> (nat \<Rightarrow> flt) \<Rightarrow> PaidCandidate \<Rightarrow> int \<Rightarrow> Ineligible + PaidBalance" where
  "paid_eligible secs powi10 c now =
     and_then (record_eligible c) (\<lambda>_. and_then (extra_usage_on (paid_reading c)) (\<lambda>_. prepaid_balance secs powi10 (prepaid c) now))"

definition cached_balance :: "(int \<Rightarrow> flt) \<Rightarrow> (nat \<Rightarrow> flt) \<Rightarrow> PrepaidEntry \<Rightarrow> int \<Rightarrow> PaidBalance option" where
  "cached_balance secs powi10 e now =
     (case (amount_minor e, exponent e) of
        (Some n, Some ex) \<Rightarrow>
          bind_opt (if 0 < n then currency e else None) (\<lambda>cur.
            Some \<lparr>amount = major_units powi10 n ex, balance_currency = cur,
                  age_s = (case prepaid_fetched_at e of None \<Rightarrow> PosInf | Some fetched \<Rightarrow> balance_age secs now fetched)\<rparr>)
      | _ \<Rightarrow> None)"

definition balance_still_spendable :: "(int \<Rightarrow> flt) \<Rightarrow> PrepaidEntry \<Rightarrow> int \<Rightarrow> bool" where
  "balance_still_spendable secs e now =
     (case prepaid_fetched_at e of
        None \<Rightarrow> False
      | Some fetched \<Rightarrow>
          (case amount_minor e of Some n \<Rightarrow> 0 < n | None \<Rightarrow> False) \<and> age_in_range (balance_age secs now fetched))"

definition balance_used_up :: "(int \<Rightarrow> flt) \<Rightarrow> PrepaidEntry option \<Rightarrow> int \<Rightarrow> bool" where
  "balance_used_up secs entry now =
     (case entry of
        None \<Rightarrow> False
      | Some e \<Rightarrow> (case prepaid_fetched_at e of
            None \<Rightarrow> False
          | Some fetched \<Rightarrow>
              (case amount_minor e of Some n \<Rightarrow> n \<le> 0 | None \<Rightarrow> False) \<and> age_in_range (balance_age secs now fetched)))"

text \<open>\<open>position\<close>, or the length when it is not there.\<close>

fun place_in :: "nat list \<Rightarrow> nat \<Rightarrow> nat" where
  "place_in [] n = 0"
| "place_in (x # xs) n = (if x = n then 0 else Suc (place_in xs n))"

definition paid_ranking :: "(nat \<times> PaidBalance) list \<Rightarrow> nat list \<Rightarrow> nat list" where
  "paid_ranking cs rotation =
     map fst (sort_by (\<lambda>x y. flt_lt (amount (snd y)) (amount (snd x)))
               (sort_by (\<lambda>x y. place_in rotation (fst x) < place_in rotation (fst y)) cs))"

section \<open>What the test and the ranking say\<close>

lemma paid_eligible_iff:
  "(\<exists>b. paid_eligible secs powi10 c now = Ok b) \<longleftrightarrow>
     (rec_kind (account c) = Oauth \<and> \<not> rec_disabled (account c) \<and> may_spend_credits (account c) \<and> available c) \<and>
     (\<exists>r ex. paid_reading c = Some r \<and> get_key ''extra_usage'' r = Some (VObj ex) \<and>
        map_of ex ''enabled'' = Some (VBool True) \<and> map_of ex ''user_disabled'' = Some (VBool False) \<and>
        map_of ex ''spend_limit_reached'' = Some (VBool False) \<and> map_of ex ''disabled_reason_set'' = Some (VBool False)) \<and>
     (\<exists>e n k cur fetched. prepaid c = Some e \<and> amount_minor e = Some n \<and> 0 < n \<and> exponent e = Some k \<and> currency e = Some cur \<and>
        prepaid_fetched_at e = Some fetched \<and>
        \<not> flt_lt PAID_BALANCE_MAX_AGE_S (balance_age secs now fetched) \<and>
        \<not> flt_lt (balance_age secs now fetched) (flt_neg FUTURE_FETCH_SLACK_S))"
proof -
  have obj: "as_object v = Some w \<longleftrightarrow> (\<exists>ex. v = VObj ex \<and> w = VObj ex)" for v w by (cases v) auto
  have bool: "as_bool v = Some b \<longleftrightarrow> v = VBool b" for v b by (cases v) auto
  have on: "extra_usage_on (paid_reading c) = Inr () \<longleftrightarrow>
      (\<exists>r ex. paid_reading c = Some r \<and> get_key ''extra_usage'' r = Some (VObj ex) \<and>
        map_of ex ''enabled'' = Some (VBool True) \<and> map_of ex ''user_disabled'' = Some (VBool False) \<and>
        map_of ex ''spend_limit_reached'' = Some (VBool False) \<and> map_of ex ''disabled_reason_set'' = Some (VBool False))"
    by (auto simp: extra_usage_on_def extra_flag_def and_then_eq_Inr bind_opt_eq_Some obj bool ex_bool_eq split: if_splits)
  have rec: "record_eligible c = Inr () \<longleftrightarrow>
      rec_kind (account c) = Oauth \<and> \<not> rec_disabled (account c) \<and> may_spend_credits (account c) \<and> available c"
    by (simp add: record_eligible_def)
  have bal: "(\<exists>b. prepaid_balance secs powi10 (prepaid c) now = Inr b) \<longleftrightarrow>
      (\<exists>e n k cur fetched. prepaid c = Some e \<and> amount_minor e = Some n \<and> 0 < n \<and> exponent e = Some k \<and> currency e = Some cur \<and>
        prepaid_fetched_at e = Some fetched \<and>
        \<not> flt_lt PAID_BALANCE_MAX_AGE_S (balance_age secs now fetched) \<and>
        \<not> flt_lt (balance_age secs now fetched) (flt_neg FUTURE_FETCH_SLACK_S))"
  proof (cases "prepaid c")
    case None
    then show ?thesis by (simp add: prepaid_balance_def ok_or_def)
  next
    case (Some e)
    then show ?thesis
      by (cases "amount_minor e"; cases "exponent e"; cases "currency e"; cases "prepaid_fetched_at e")
         (simp_all add: prepaid_balance_def ok_or_def Let_def not_le)
  qed
  have "(\<exists>b. paid_eligible secs powi10 c now = Inr b) \<longleftrightarrow>
      record_eligible c = Inr () \<and> extra_usage_on (paid_reading c) = Inr () \<and> (\<exists>b. prepaid_balance secs powi10 (prepaid c) now = Inr b)"
    by (simp add: paid_eligible_def and_then_eq_Inr)
  then show ?thesis unfolding on rec bal .
qed

interpretation placed: weak_order "\<lambda>x y. place_in rotation (fst x) < place_in rotation (fst y)" UNIV for rotation
  by unfold_locales auto

interpretation balances: weak_order "\<lambda>x y. flt_lt (amount (snd y)) (amount (snd x))" "{x. amount (snd x) \<noteq> NaN}"
proof
  show "flt_lt (amount (snd z)) (amount (snd x)) \<Longrightarrow>
      flt_lt (amount (snd y)) (amount (snd x)) \<or> flt_lt (amount (snd z)) (amount (snd y))"
    if "x \<in> {x. amount (snd x) \<noteq> NaN}" "y \<in> {x. amount (snd x) \<noteq> NaN}" "z \<in> {x. amount (snd x) \<noteq> NaN}" for x y z
    using that flt_lt_total [of "amount (snd y)" "amount (snd x)"] by (auto dest: flt_lt_trans)
qed (auto dest: flt_lt_asym)

lemma paid_ranking_sorted:
  assumes "\<forall>c \<in> set cs. amount (snd c) \<noteq> NaN"
  obtains ranked where "paid_ranking cs rotation = map fst ranked" "mset ranked = mset cs"
    "sorted_wrt (\<lambda>x y. flt_lt (amount (snd y)) (amount (snd x)) \<or>
       amount (snd x) = amount (snd y) \<and> place_in rotation (fst x) \<le> place_in rotation (fst y)) ranked"
proof -
  let ?place = "\<lambda>x y. place_in rotation (fst x) < place_in rotation (fst y)"
  let ?balance = "\<lambda>x y. flt_lt (amount (snd y)) (amount (snd x))"
  have placed: "sorted_wrt (\<lambda>x y. \<not> ?place y x) (sort_by ?place cs)"
    by (rule placed.sort_by_sorted) simp
  have "set (sort_by ?place cs) \<subseteq> {x. amount (snd x) \<noteq> NaN}" using assms by auto
  note both = balances.sort_by_refines [OF this placed]
  let ?ranked = "sort_by ?balance (sort_by ?place cs)"
  have "sorted_wrt (\<lambda>x y. flt_lt (amount (snd y)) (amount (snd x)) \<or>
       amount (snd x) = amount (snd y) \<and> place_in rotation (fst x) \<le> place_in rotation (fst y)) ?ranked"
    by (rule sorted_wrt_mono_rel [OF _ both]) (use assms flt_lt_total in force)
  then show thesis by (intro that [of ?ranked]) (simp_all add: paid_ranking_def)
qed

end
