(* ===== verification/Engine.thy ===== *)
theory Engine
  imports Account_Paid
begin

text \<open>
  The auto-switch engines of one account store: the lease that names the live engine
  (\<open>engine/lease.rs\<close>), the cooldown (\<open>engine/trigger.rs\<close>) and the switch under the state file's lock with
  its re-checks and its record (\<open>engine/perform.rs\<close>, \<open>engine/state.rs\<close>). Whether a lock is taken and a
  file read or written is an input; the switch of the login itself is an input with its answer.
\<close>

section \<open>The lease\<close>

definition FRESH_INTERVALS :: flt where "FRESH_INTERVALS = Fin 3"
definition START_SLACK_SECONDS :: flt where "START_SLACK_SECONDS = Fin 1"

datatype EngineError = LockError | ReadError | WriteError | StoreRefused | UnknownVersion

record LeaseHolder =
  holder_owner :: string
  holder_pid :: nat
  holder_interval :: flt

datatype LeaseState = Free | Ours | HeldByOther string nat flt

record LeaseRecord =
  lr_owner :: string
  lr_pid :: nat
  started_at :: flt
  heartbeat_at :: flt
  lr_interval :: flt

datatype StoredLease = Known LeaseRecord | Unknown string nat "flt option"

record ProcessInfo =
  proc_pid :: nat
  created :: "int option"

definition is_held_by :: "LeaseRecord \<Rightarrow> LeaseHolder \<Rightarrow> bool" where
  "is_held_by r me = (lr_owner r = holder_owner me \<and> lr_pid r = holder_pid me)"

definition holder_runs_in :: "(int \<Rightarrow> flt) \<Rightarrow> LeaseRecord \<Rightarrow> ProcessInfo list \<Rightarrow> bool" where
  "holder_runs_in secs r snapshot =
     (\<exists>p \<in> set snapshot. proc_pid p = lr_pid r \<and>
        (case created p of None \<Rightarrow> True | Some t \<Rightarrow> flt_le (secs t) (add64 (started_at r) START_SLACK_SECONDS)))"

definition state_by_time :: "LeaseRecord \<Rightarrow> LeaseHolder \<Rightarrow> flt \<Rightarrow> LeaseState" where
  "state_by_time r me now =
     (if is_held_by r me then Ours
      else let age = sub64 now (heartbeat_at r) in
        if flt_lt age (mul64 FRESH_INTERVALS (lr_interval r)) then HeldByOther (lr_owner r) (lr_pid r) age else Free)"

definition record_state :: "(int \<Rightarrow> flt) \<Rightarrow> LeaseRecord \<Rightarrow> LeaseHolder \<Rightarrow> flt \<Rightarrow> ProcessInfo list \<Rightarrow> LeaseState" where
  "record_state secs r me now snapshot =
     (case state_by_time r me now of
        HeldByOther owner pid age \<Rightarrow>
          if snapshot = [] \<or> holder_runs_in secs r snapshot then HeldByOther owner pid age else Free
      | st \<Rightarrow> st)"

definition stored_state :: "(int \<Rightarrow> flt) \<Rightarrow> StoredLease \<Rightarrow> LeaseHolder \<Rightarrow> flt \<Rightarrow> ProcessInfo list \<Rightarrow> LeaseState" where
  "stored_state secs l me now snapshot =
     (case l of
        Known r \<Rightarrow> record_state secs r me now snapshot
      | Unknown owner pid heartbeat \<Rightarrow>
          HeldByOther owner pid (case heartbeat of Some at_s \<Rightarrow> sub64 now at_s | None \<Rightarrow> Fin 0))"

text \<open>The file is absent, or holds a lease; a corrupt one reads as absent.\<close>

record LeaseDisk =
  lease_lock_ok :: bool
  lease_read_ok :: bool
  lease_refused :: bool
  lease_write_ok :: bool

definition observed :: "(int \<Rightarrow> flt) \<Rightarrow> LeaseHolder \<Rightarrow> int \<Rightarrow> ProcessInfo list \<Rightarrow> StoredLease option \<Rightarrow> LeaseState" where
  "observed secs me now snapshot file =
     (case file of None \<Rightarrow> Free | Some l \<Rightarrow> stored_state secs l me (secs now) snapshot)"

definition observe_lease ::
  "(int \<Rightarrow> flt) \<Rightarrow> LeaseDisk \<Rightarrow> LeaseHolder \<Rightarrow> int \<Rightarrow> ProcessInfo list \<Rightarrow> StoredLease option \<Rightarrow> EngineError + LeaseState" where
  "observe_lease secs d me now snapshot file =
     (if \<not> lease_lock_ok d then Err LockError
      else if \<not> lease_read_ok d then Err ReadError
      else Ok (observed secs me now snapshot file))"

definition lease_started_at :: "LeaseDisk \<Rightarrow> LeaseHolder \<Rightarrow> StoredLease option \<Rightarrow> EngineError + flt option" where
  "lease_started_at d me file =
     (if \<not> lease_lock_ok d then Err LockError
      else if \<not> lease_read_ok d then Err ReadError
      else Ok (case file of Some (Known r) \<Rightarrow> if is_held_by r me then Some (started_at r) else None | _ \<Rightarrow> None))"

definition claim_or_heartbeat ::
  "(int \<Rightarrow> flt) \<Rightarrow> LeaseDisk \<Rightarrow> LeaseHolder \<Rightarrow> int \<Rightarrow> ProcessInfo list \<Rightarrow> StoredLease option
     \<Rightarrow> (EngineError + LeaseState) \<times> StoredLease option" where
  "claim_or_heartbeat secs d me now snapshot file =
     (if \<not> lease_lock_ok d then (Err LockError, file)
      else if \<not> lease_read_ok d then (Err ReadError, file)
      else let st = observed secs me now snapshot file in
        case st of
          HeldByOther _ _ _ \<Rightarrow> (Ok st, file)
        | _ \<Rightarrow>
            let started = (case (st, file) of (Ours, Some (Known r)) \<Rightarrow> started_at r | _ \<Rightarrow> secs now);
                claimed_lease = \<lparr>lr_owner = holder_owner me, lr_pid = holder_pid me, started_at = started,
                           heartbeat_at = secs now, lr_interval = holder_interval me\<rparr>
            in if lease_refused d then (Err StoreRefused, file)
               else if \<not> lease_write_ok d then (Err WriteError, file)
               else (Ok Ours, Some (Known claimed_lease)))"

definition release_lease :: "LeaseDisk \<Rightarrow> LeaseHolder \<Rightarrow> StoredLease option \<Rightarrow> (EngineError + bool) \<times> StoredLease option" where
  "release_lease d me file =
     (if \<not> lease_lock_ok d then (Err LockError, file)
      else if \<not> lease_read_ok d then (Err ReadError, file)
      else case file of
        Some (Known r) \<Rightarrow>
          if is_held_by r me then (if lease_write_ok d then (Ok True, None) else (Err WriteError, file)) else (Ok False, file)
      | _ \<Rightarrow> (Ok False, file))"

section \<open>The cooldown\<close>

definition in_cooldown :: "(int \<Rightarrow> flt) \<Rightarrow> Trigger \<Rightarrow> flt option \<Rightarrow> AutoSwitchSettings \<Rightarrow> int \<Rightarrow> bool" where
  "in_cooldown secs t prev s now =
     (\<not> is_escape t \<and> (case prev of Some l \<Rightarrow> flt_lt (sub64 (secs now) l) (cooldown_seconds s) | None \<Rightarrow> False))"

text \<open>The later of the state file's last switch and one the engine could not record.\<close>

definition last_known_switch :: "AutoswitchState \<Rightarrow> flt option \<Rightarrow> flt option" where
  "last_known_switch st remembered =
     (case remembered of
        None \<Rightarrow> last_switch_at st
      | Some r \<Rightarrow> Some (case last_switch_at st of Some written_at \<Rightarrow> max64 written_at r | None \<Rightarrow> r))"

definition cooling ::
  "(int \<Rightarrow> flt) \<Rightarrow> Trigger \<Rightarrow> AutoswitchState \<Rightarrow> flt option \<Rightarrow> AutoSwitchSettings \<Rightarrow> int \<Rightarrow> bool" where
  "cooling secs t st remembered s now = in_cooldown secs t (last_known_switch st remembered) s now"

section \<open>The switch\<close>

record LeftSnapshot =
  snap_headroom :: "flt option"
  snap_recovery :: "int option"

definition left_snapshot :: "(nat \<Rightarrow> AccountUsage option) \<Rightarrow> int \<Rightarrow> nat \<Rightarrow> LeftSnapshot" where
  "left_snapshot readings now act =
     \<lparr>snap_headroom = bind_opt (readings act) headroom, snap_recovery = binding_recovery (readings act) now\<rparr>"

record PaidMove =
  move_from :: nat
  entered_from :: nat
  move_prepaid :: PrepaidEntry
  mover :: LeaseOwner

record PerformRequest =
  req_number :: nat
  req_trigger :: Trigger
  req_left :: LeftSnapshot
  req_settings :: AutoSwitchSettings
  req_holder :: LeaseHolder
  remembered_switch_at :: "flt option"
  req_paid :: "PaidMove option"

text \<open>What the switch of the login answered: moved (with the account it left, if managed), already there, refused or failed.\<close>

datatype SwitchAnswer = Moved "nat option" | AlreadyThere | PreconditionGone | SwitchFailed

datatype Performed =
    Switched | Unrecorded EngineError | Cooldown | Quarantined | LeaseLost LeaseState | AlreadyActive
  | PreconditionFailed | FailedSwitch | Unavailable | Refused

definition STATE_SCHEMA_VERSION :: nat where "STATE_SCHEMA_VERSION = 1"

definition known_version :: "AutoswitchState \<Rightarrow> bool" where
  "known_version st =
     (\<not> ((case schema_version st of Some v \<Rightarrow> v \<noteq> STATE_SCHEMA_VERSION | None \<Rightarrow> False) \<or> map_of (extra st) ''schemaVersion'' \<noteq> None))"

definition recheck ::
  "(int \<Rightarrow> flt) \<Rightarrow> LeaseDisk \<Rightarrow> StoredLease option \<Rightarrow> ProcessInfo list \<Rightarrow> PerformRequest \<Rightarrow> AutoswitchState \<Rightarrow> int \<Rightarrow> Performed option" where
  "recheck secs d lease snapshot req st now =
     (if cooling secs (req_trigger req) st (remembered_switch_at req) (req_settings req) now then Some Cooldown
      else if quarantine st (dec (req_number req)) \<noteq> None then Some Quarantined
      else case observe_lease secs d (req_holder req) now snapshot lease of
        Inl _ \<Rightarrow> Some Unavailable
      | Inr Ours \<Rightarrow>
          (case req_paid req of
             Some paid \<Rightarrow> if balance_still_spendable secs (move_prepaid paid) now then None else Some PreconditionFailed
           | None \<Rightarrow> None)
      | Inr lost \<Rightarrow> Some (LeaseLost lost))"

definition record_switch :: "(int \<Rightarrow> flt) \<Rightarrow> PerformRequest \<Rightarrow> nat option \<Rightarrow> int \<Rightarrow> AutoswitchState \<Rightarrow> AutoswitchState" where
  "record_switch secs req from now st =
     st\<lparr>last_switch_at := Some (secs now),
        last_switch_to := Some (dec (req_number req)),
        last_switch_from := from,
        left_headroom := Some (snap_headroom (req_left req)),
        left_recovery_at := Some (map_option secs (snap_recovery (req_left req))),
        left_trigger := Some (trigger_name (req_trigger req)),
        paid_fallback :=
          (case req_paid req of
             Some paid \<Rightarrow> Some \<lparr>paid_number = req_number req, paid_from = entered_from paid, since = secs now,
                             owner_exit = None, lease_owner = mover paid\<rparr>
           | None \<Rightarrow> (case paid_fallback st of Some p \<Rightarrow> if owner_exit p \<noteq> None then Some p else None | None \<Rightarrow> None))\<rparr>"

text \<open>The switch with the state lock held: the checks at one time, the record at a later one.\<close>

definition after_checks ::
  "(int \<Rightarrow> flt) \<Rightarrow> PerformRequest \<Rightarrow> SwitchAnswer \<Rightarrow> int \<Rightarrow> AutoswitchState \<Rightarrow> Performed \<times> AutoswitchState \<times> bool" where
  "after_checks secs req answer later st =
     (case answer of
        Moved from \<Rightarrow> (Switched, record_switch secs req from later st, True)
      | AlreadyThere \<Rightarrow> (AlreadyActive, st, False)
      | PreconditionGone \<Rightarrow> (PreconditionFailed, st, False)
      | SwitchFailed \<Rightarrow> (FailedSwitch, st, False))"

definition switch_locked ::
  "(int \<Rightarrow> flt) \<Rightarrow> LeaseDisk \<Rightarrow> StoredLease option \<Rightarrow> ProcessInfo list \<Rightarrow> PerformRequest \<Rightarrow> SwitchAnswer \<Rightarrow> int \<Rightarrow> int
     \<Rightarrow> AutoswitchState \<Rightarrow> Performed \<times> AutoswitchState \<times> bool" where
  "switch_locked secs d lease snapshot req answer now later st =
     (if \<not> known_version st then (Refused, st, False)
      else case recheck secs d lease snapshot req st now of
        Some refused \<Rightarrow> (refused, st, False)
      | None \<Rightarrow> after_checks secs req answer later st)"

record StateDisk =
  state_lock_ok :: bool
  state_read_ok :: bool
  state_refused :: bool
  state_write_ok :: bool

text \<open>\<open>AutoswitchState::update_if\<close> with the change's result, the changed state and whether to write it.\<close>

definition write_changed :: "StateDisk \<Rightarrow> AutoswitchState \<Rightarrow> AutoswitchState \<Rightarrow> EngineError + AutoswitchState" where
  "write_changed d before changed =
     (if state_refused d then Err StoreRefused
      else if \<not> known_version before then Err UnknownVersion
      else if \<not> state_write_ok d then Err WriteError
      else Ok (changed\<lparr>schema_version := Some STATE_SCHEMA_VERSION\<rparr>))"

definition perform ::
  "(int \<Rightarrow> flt) \<Rightarrow> StateDisk \<Rightarrow> LeaseDisk \<Rightarrow> StoredLease option \<Rightarrow> ProcessInfo list \<Rightarrow> PerformRequest \<Rightarrow> SwitchAnswer
     \<Rightarrow> int \<Rightarrow> int \<Rightarrow> AutoswitchState \<Rightarrow> Performed \<times> AutoswitchState" where
  "perform secs sd ld lease snapshot req answer now later st =
     (if \<not> state_lock_ok sd \<or> \<not> state_read_ok sd then (Unavailable, st)
      else case switch_locked secs ld lease snapshot req answer now later st of
        (performed, changed, write_it) \<Rightarrow>
          if \<not> write_it then (performed, st)
          else (case write_changed sd st changed of
                  Inr st' \<Rightarrow> (performed, st')
                | Inl e \<Rightarrow> (if performed = Switched then Unrecorded e else Unavailable, st)))"

section \<open>The quarantine and the paid fallback in the state file\<close>

text \<open>\<open>AutoswitchState::update\<close>.\<close>

definition update_state :: "StateDisk \<Rightarrow> (AutoswitchState \<Rightarrow> AutoswitchState) \<Rightarrow> AutoswitchState \<Rightarrow> (EngineError + unit) \<times> AutoswitchState" where
  "update_state d change st =
     (if \<not> state_lock_ok d then (Err LockError, st)
      else if state_refused d then (Err StoreRefused, st)
      else if \<not> state_read_ok d then (Err ReadError, st)
      else if \<not> known_version st then (Err UnknownVersion, st)
      else if \<not> state_write_ok d then (Err WriteError, st)
      else (Ok (), change (st\<lparr>schema_version := Some STATE_SCHEMA_VERSION\<rparr>)))"

definition quarantine_account :: "StateDisk \<Rightarrow> nat \<Rightarrow> QuarantineEntry \<Rightarrow> AutoswitchState \<Rightarrow> (EngineError + unit) \<times> AutoswitchState" where
  "quarantine_account d n entry st = update_state d (\<lambda>st. st\<lparr>quarantine := (quarantine st)(dec n \<mapsto> Entry entry)\<rparr>) st"

definition lift_quarantines :: "StateDisk \<Rightarrow> string list \<Rightarrow> AutoswitchState \<Rightarrow> (EngineError + unit) \<times> AutoswitchState" where
  "lift_quarantines d released st = update_state d (\<lambda>st. st\<lparr>quarantine := (quarantine st) |` (- set released)\<rparr>) st"

definition write_paid ::
  "(int \<Rightarrow> flt) \<Rightarrow> StateDisk \<Rightarrow> LeaseDisk \<Rightarrow> StoredLease option \<Rightarrow> ProcessInfo list \<Rightarrow> LeaseHolder \<Rightarrow> int
     \<Rightarrow> PaidFallback \<Rightarrow> PaidFallback option \<Rightarrow> AutoswitchState \<Rightarrow> AutoswitchState" where
  "write_paid secs sd ld lease snapshot me now expected next_paid st =
     (if \<not> state_lock_ok sd \<or> \<not> state_read_ok sd then st
      else if observe_lease secs ld me now snapshot lease = Ok Ours \<and> paid_fallback st = Some expected
      then (case write_changed sd st (st\<lparr>paid_fallback := next_paid\<rparr>) of Inr st' \<Rightarrow> st' | Inl _ \<Rightarrow> st)
      else st)"

end
