(* ===== verification/Engine_System.thy ===== *)
theory Engine_System
  imports Engine
begin

text \<open>
  Any number of engines on one account store. A step is what one engine does under a lock: the lease
  operations under the lease lock, and the state file's updates under the state lock, which a switch
  holds from its checks to its record. \<open>acts\<close> is the history of what was done.
\<close>

section \<open>Steps\<close>

type_synonym engine_id = "string \<times> nat"

definition id_of :: "LeaseHolder \<Rightarrow> engine_id" where
  "id_of h = (holder_owner h, holder_pid h)"

definition named_in :: "LeaseRecord \<Rightarrow> engine_id" where
  "named_in r = (lr_owner r, lr_pid r)"

datatype Act =
    TookLease engine_id "LeaseRecord option" int "ProcessInfo list"
  | LostLease
  | CheckedSwitch engine_id
  | MovedLogin engine_id flt bool
  | Restarted engine_id

record EngineSys =
  lease_file :: "StoredLease option"
  state_file :: AutoswitchState
  switching :: "(PerformRequest \<times> int) option"
  unrecorded :: "engine_id \<Rightarrow> flt option"
  acts :: "Act list"

datatype EngineEvent =
    ClaimLease LeaseHolder int "ProcessInfo list" LeaseDisk
  | ReleaseLease LeaseHolder LeaseDisk
  | NewerLease string nat "flt option"
  | CheckSwitch PerformRequest int "ProcessInfo list" LeaseDisk
  | FinishSwitch SwitchAnswer int int StateDisk
  | Quarantine nat QuarantineEntry StateDisk
  | LiftQuarantines "string list" StateDisk
  | WritePaid LeaseHolder PaidFallback "PaidFallback option" int "ProcessInfo list" LeaseDisk StateDisk
  | Restart engine_id

definition known_lease :: "StoredLease option \<Rightarrow> LeaseRecord option" where
  "known_lease file = (case file of Some (Known r) \<Rightarrow> Some r | _ \<Rightarrow> None)"

fun engine_step :: "(int \<Rightarrow> flt) \<Rightarrow> EngineEvent \<Rightarrow> EngineSys \<Rightarrow> EngineSys option" where
  "engine_step secs (ClaimLease me now procs d) s =
     (case claim_or_heartbeat secs d me now procs (lease_file s) of
        (Inr Ours, file) \<Rightarrow> Some (s\<lparr>lease_file := file, acts := acts s @ [TookLease (id_of me) (known_lease (lease_file s)) now procs]\<rparr>)
      | _ \<Rightarrow> Some s)"
| "engine_step secs (ReleaseLease me d) s =
     (case release_lease d me (lease_file s) of
        (Inr True, file) \<Rightarrow> Some (s\<lparr>lease_file := file, acts := acts s @ [LostLease]\<rparr>)
      | _ \<Rightarrow> Some s)"
| "engine_step secs (NewerLease owner pid hb) s =
     Some (s\<lparr>lease_file := Some (Unknown owner pid hb), acts := acts s @ [LostLease]\<rparr>)"
| "engine_step secs (CheckSwitch req now procs d) s =
     (if switching s \<noteq> None \<or> remembered_switch_at req \<noteq> unrecorded s (id_of (req_holder req)) \<or> \<not> known_version (state_file s)
         \<or> recheck secs d (lease_file s) procs req (state_file s) now \<noteq> None then None
      else Some (s\<lparr>switching := Some (req, now), acts := acts s @ [CheckedSwitch (id_of (req_holder req))]\<rparr>))"
| "engine_step secs (FinishSwitch answer later after d) s =
     (case switching s of
        None \<Rightarrow> None
      | Some (req, now) \<Rightarrow>
          (case after_checks secs req answer later (state_file s) of
             (_, _, False) \<Rightarrow> Some (s\<lparr>switching := None\<rparr>)
           | (_, changed, True) \<Rightarrow>
               (let me = id_of (req_holder req) in
                case write_changed d (state_file s) changed of
                  Inr st \<Rightarrow> Some (s\<lparr>switching := None, state_file := st, acts := acts s @ [MovedLogin me (secs later) True]\<rparr>)
                | Inl _ \<Rightarrow> Some (s\<lparr>switching := None, unrecorded := (unrecorded s)(me \<mapsto> secs after),
                                   acts := acts s @ [MovedLogin me (secs after) False]\<rparr>))))"
| "engine_step secs (Quarantine n entry d) s =
     (if switching s \<noteq> None then None else Some (s\<lparr>state_file := snd (quarantine_account d n entry (state_file s))\<rparr>))"
| "engine_step secs (LiftQuarantines released d) s =
     (if switching s \<noteq> None then None else Some (s\<lparr>state_file := snd (lift_quarantines d released (state_file s))\<rparr>))"
| "engine_step secs (WritePaid me expected next_paid now procs ld d) s =
     (if switching s \<noteq> None then None
      else Some (s\<lparr>state_file := write_paid secs d ld (lease_file s) procs me now expected next_paid (state_file s)\<rparr>))"
| "engine_step secs (Restart e) s =
     (case switching s of
        Some (req, _) \<Rightarrow> if id_of (req_holder req) = e then None
                         else Some (s\<lparr>unrecorded := (unrecorded s)(e := None), acts := acts s @ [Restarted e]\<rparr>)
      | None \<Rightarrow> Some (s\<lparr>unrecorded := (unrecorded s)(e := None), acts := acts s @ [Restarted e]\<rparr>))"

definition start_engines :: "AutoswitchState \<Rightarrow> EngineSys" where
  "start_engines st = \<lparr>lease_file = None, state_file = st, switching = None, unrecorded = (\<lambda>_. None), acts = []\<rparr>"

inductive engine_reachable :: "(int \<Rightarrow> flt) \<Rightarrow> AutoswitchState \<Rightarrow> EngineSys \<Rightarrow> bool" for secs st0 where
  start: "engine_reachable secs st0 (start_engines st0)"
| step: "engine_reachable secs st0 s \<Longrightarrow> engine_step secs e s = Some s' \<Longrightarrow> engine_reachable secs st0 s'"

fun engine_run :: "(int \<Rightarrow> flt) \<Rightarrow> EngineEvent list \<Rightarrow> EngineSys \<Rightarrow> EngineSys option" where
  "engine_run secs [] s = Some s"
| "engine_run secs (e # es) s = (case engine_step secs e s of None \<Rightarrow> None | Some s' \<Rightarrow> engine_run secs es s')"

lemma engine_run_reachable:
  "engine_reachable secs st0 s \<Longrightarrow> engine_run secs es s = Some s' \<Longrightarrow> engine_reachable secs st0 s'"
  by (induction es arbitrary: s) (auto split: option.splits intro: engine_reachable.step)

section \<open>What the history says\<close>

definition lease_act :: "engine_id option \<Rightarrow> Act \<Rightarrow> engine_id option" where
  "lease_act h a = (case a of TookLease e _ _ _ \<Rightarrow> Some e | LostLease \<Rightarrow> None | _ \<Rightarrow> h)"

definition lease_holder :: "Act list \<Rightarrow> engine_id option" where
  "lease_holder as = foldl lease_act None as"

definition last_recorded :: "flt option \<Rightarrow> Act list \<Rightarrow> flt option" where
  "last_recorded first as = foldl (\<lambda>l a. case a of MovedLogin _ t True \<Rightarrow> Some t | _ \<Rightarrow> l) first as"

definition own_unrecorded :: "engine_id \<Rightarrow> Act list \<Rightarrow> flt option" where
  "own_unrecorded e as =
     foldl (\<lambda>l a. case a of MovedLogin e' t False \<Rightarrow> if e' = e then Some t else l | Restarted e' \<Rightarrow> if e' = e then None else l | _ \<Rightarrow> l)
       None as"

lemma history_snoc [simp]:
  "lease_holder (as @ [a]) = lease_act (lease_holder as) a"
  "last_recorded first (as @ [a]) = (case a of MovedLogin _ t True \<Rightarrow> Some t | _ \<Rightarrow> last_recorded first as)"
  "own_unrecorded e (as @ [a]) =
     (case a of MovedLogin e' t False \<Rightarrow> if e' = e then Some t else own_unrecorded e as
      | Restarted e' \<Rightarrow> if e' = e then None else own_unrecorded e as | _ \<Rightarrow> own_unrecorded e as)"
  by (simp_all add: lease_holder_def last_recorded_def own_unrecorded_def split: Act.split bool.split)

lemma history_Nil [simp]: "lease_holder [] = None" "last_recorded first [] = first" "own_unrecorded e [] = None"
  by (simp_all add: lease_holder_def last_recorded_def own_unrecorded_def)

text \<open>
  A lease is taken from another engine only when that one has been silent for three of its
  intervals, or its process is known to be gone.
\<close>

definition takeover_ok :: "(int \<Rightarrow> flt) \<Rightarrow> engine_id option \<Rightarrow> Act \<Rightarrow> bool" where
  "takeover_ok secs h a \<longleftrightarrow>
     (case (a, h) of
        (TookLease e prev now procs, Some e') \<Rightarrow>
          e' = e \<or> (\<exists>r. prev = Some r \<and> named_in r = e' \<and>
            (\<not> flt_lt (sub64 (secs now) (heartbeat_at r)) (mul64 FRESH_INTERVALS (lr_interval r))
             \<or> procs \<noteq> [] \<and> \<not> holder_runs_in secs r procs))
      | (CheckedSwitch e, h) \<Rightarrow> h = Some e
      | _ \<Rightarrow> True)"

definition acts_ok :: "(int \<Rightarrow> flt) \<Rightarrow> Act list \<Rightarrow> bool" where
  "acts_ok secs as \<longleftrightarrow> (\<forall>before a rest. as = before @ a # rest \<longrightarrow> takeover_ok secs (lease_holder before) a)"

lemma acts_ok_Nil [simp]: "acts_ok secs []"
  by (simp add: acts_ok_def)

lemma acts_ok_snoc: "acts_ok secs (as @ [a]) \<longleftrightarrow> acts_ok secs as \<and> takeover_ok secs (lease_holder as) a"
proof
  assume ok: "acts_ok secs (as @ [a])"
  have "takeover_ok secs (lease_holder before) b" if "as = before @ b # rest" for before b rest
    using ok that unfolding acts_ok_def by (metis append_Cons append_assoc)
  with ok show "acts_ok secs as \<and> takeover_ok secs (lease_holder as) a" unfolding acts_ok_def by blast
next
  assume ok: "acts_ok secs as \<and> takeover_ok secs (lease_holder as) a"
  show "acts_ok secs (as @ [a])" unfolding acts_ok_def
  proof (intro allI impI)
    fix before b rest assume eq: "as @ [a] = before @ b # rest"
    show "takeover_ok secs (lease_holder before) b"
    proof (cases rest rule: rev_exhaust)
      case Nil
      with eq ok show ?thesis by simp
    next
      case (snoc rest' c)
      with eq have "as = before @ b # rest'" by simp
      with ok show ?thesis unfolding acts_ok_def by blast
    qed
  qed
qed

section \<open>The invariant\<close>

definition lease_named :: "StoredLease option \<Rightarrow> engine_id option" where
  "lease_named file = map_option named_in (known_lease file)"

text \<open>What a switch that passed its checks still has when the login moves.\<close>

definition switch_guarded :: "(int \<Rightarrow> flt) \<Rightarrow> AutoswitchState \<Rightarrow> EngineSys \<Rightarrow> PerformRequest \<Rightarrow> int \<Rightarrow> bool" where
  "switch_guarded secs st0 s req now \<longleftrightarrow>
     quarantine (state_file s) (dec (req_number req)) = None \<and> known_version (state_file s) \<and>
     remembered_switch_at req = unrecorded s (id_of (req_holder req)) \<and>
     \<not> cooling secs (req_trigger req) (state_file s) (remembered_switch_at req) (req_settings req) now \<and>
     (\<forall>paid. req_paid req = Some paid \<longrightarrow> balance_still_spendable secs (move_prepaid paid) now)"

definition engine_inv :: "(int \<Rightarrow> flt) \<Rightarrow> AutoswitchState \<Rightarrow> EngineSys \<Rightarrow> bool" where
  "engine_inv secs st0 s \<longleftrightarrow>
     lease_named (lease_file s) = lease_holder (acts s) \<and> acts_ok secs (acts s) \<and>
     last_switch_at (state_file s) = last_recorded (last_switch_at st0) (acts s) \<and>
     (\<forall>e. unrecorded s e = own_unrecorded e (acts s)) \<and>
     (\<forall>req now. switching s = Some (req, now) \<longrightarrow> switch_guarded secs st0 s req now)"

lemma claim_takeover:
  assumes "claim_or_heartbeat secs d me now procs file = (Inr Ours, file')"
  shows "lease_named file' = Some (id_of me)"
    and "takeover_ok secs (lease_named file) (TookLease (id_of me) (known_lease file) now procs)"
  using assms
  by (auto simp: claim_or_heartbeat_def Let_def lease_named_def known_lease_def named_in_def id_of_def takeover_ok_def
        observed_def stored_state_def record_state_def state_by_time_def is_held_by_def
      split: if_splits option.splits LeaseState.splits StoredLease.splits)

lemma release_lost: "release_lease d me file = (Inr True, file') \<Longrightarrow> lease_named file' = None"
  by (auto simp: release_lease_def lease_named_def known_lease_def split: if_splits option.splits StoredLease.splits)

lemma recheck_passed:
  assumes "recheck secs d lease procs req st now = None"
  shows "\<not> cooling secs (req_trigger req) st (remembered_switch_at req) (req_settings req) now"
    and "quarantine st (dec (req_number req)) = None"
    and "lease_named lease = Some (id_of (req_holder req))"
    and "\<forall>paid. req_paid req = Some paid \<longrightarrow> balance_still_spendable secs (move_prepaid paid) now"
  using assms
  by (auto simp: recheck_def observe_lease_def observed_def stored_state_def record_state_def state_by_time_def is_held_by_def
        lease_named_def known_lease_def named_in_def id_of_def Let_def
      split: if_splits option.splits LeaseState.splits StoredLease.splits sum.splits)

lemma write_changed_fields:
  "write_changed d st changed = Inr st' \<Longrightarrow> last_switch_at st' = last_switch_at changed \<and> quarantine st' = quarantine changed"
  by (auto simp: write_changed_def split: if_splits)

lemma state_updates_keep_switch:
  "last_switch_at (snd (quarantine_account d n entry st)) = last_switch_at st"
  "last_switch_at (snd (lift_quarantines d released st)) = last_switch_at st"
  "last_switch_at (write_paid secs sd ld lease procs me now expected next_paid st) = last_switch_at st"
  by (auto simp: quarantine_account_def lift_quarantines_def update_state_def write_paid_def
           dest!: write_changed_fields split: sum.splits)

lemma switch_guarded_acts [simp]:
  "switch_guarded secs st0 (s\<lparr>acts := as\<rparr>) req now = switch_guarded secs st0 s req now"
  "switch_guarded secs st0 (s\<lparr>lease_file := f, acts := as\<rparr>) req now = switch_guarded secs st0 s req now"
  by (simp_all add: switch_guarded_def)

lemma engine_inv_finish:
  assumes inv: "engine_inv secs st0 s" and e: "engine_step secs (FinishSwitch answer later after d) s = Some s'"
  shows "engine_inv secs st0 s'"
proof -
  obtain req now where sw: "switching s = Some (req, now)" using e by (cases "switching s") auto
  show ?thesis
  proof (cases answer)
    case (Moved left)
    define changed where "changed = record_switch secs req left later (state_file s)"
    have at_s: "last_switch_at changed = Some (secs later)" by (simp add: changed_def record_switch_def)
    show ?thesis
    proof (cases "write_changed d (state_file s) changed")
      case (Inl err)
      with e sw Moved inv show ?thesis
        by (auto simp: after_checks_def changed_def engine_inv_def Let_def acts_ok_snoc takeover_ok_def lease_act_def)
    next
      case (Inr st)
      with e sw Moved inv write_changed_fields [OF Inr] at_s show ?thesis
        by (auto simp: after_checks_def changed_def engine_inv_def Let_def acts_ok_snoc takeover_ok_def lease_act_def)
    qed
  qed (use e sw inv in \<open>auto simp: after_checks_def engine_inv_def\<close>)
qed

lemma engine_inv_lease:
  assumes inv: "engine_inv secs st0 s"
  shows "engine_step secs (ClaimLease me now procs ld) s = Some s' \<Longrightarrow> engine_inv secs st0 s'"
    and "engine_step secs (ReleaseLease me ld) s = Some s' \<Longrightarrow> engine_inv secs st0 s'"
    and "engine_step secs (NewerLease owner pid hb) s = Some s' \<Longrightarrow> engine_inv secs st0 s'"
proof -
  show "engine_inv secs st0 s'" if "engine_step secs (ClaimLease me now procs ld) s = Some s'"
    using that inv claim_takeover [of secs ld me now procs "lease_file s"]
    by (auto simp: engine_inv_def acts_ok_snoc lease_act_def switch_guarded_def split: prod.splits sum.splits LeaseState.splits)
  show "engine_inv secs st0 s'" if "engine_step secs (ReleaseLease me ld) s = Some s'"
    using that inv release_lost [of ld me "lease_file s"]
    by (auto simp: engine_inv_def acts_ok_snoc lease_act_def switch_guarded_def takeover_ok_def split: prod.splits sum.splits bool.splits)
  show "engine_inv secs st0 s'" if "engine_step secs (NewerLease owner pid hb) s = Some s'"
    using that inv
    by (auto simp: engine_inv_def acts_ok_snoc lease_act_def switch_guarded_def takeover_ok_def lease_named_def known_lease_def)
qed

lemma engine_inv_check:
  assumes inv: "engine_inv secs st0 s" and e: "engine_step secs (CheckSwitch req now procs d) s = Some s'"
  shows "engine_inv secs st0 s'"
proof -
  have "recheck secs d (lease_file s) procs req (state_file s) now = None" using e by (simp split: if_splits)
  note passed = recheck_passed [OF this]
  with e inv show ?thesis
    by (auto simp: engine_inv_def acts_ok_snoc lease_act_def takeover_ok_def switch_guarded_def split: if_splits)
qed

lemma engine_inv_restart:
  assumes inv: "engine_inv secs st0 s" and e: "engine_step secs (Restart x) s = Some s'"
  shows "engine_inv secs st0 s'"
  using e inv
  by (cases "switching s")
     (auto simp: engine_inv_def acts_ok_snoc lease_act_def takeover_ok_def switch_guarded_def split: if_splits)

lemma engine_inv_step:
  assumes "engine_inv secs st0 s" "engine_step secs e s = Some s'"
  shows "engine_inv secs st0 s'"
proof (cases e)
  case (Quarantine n entry d)
  with assms show ?thesis by (auto simp: engine_inv_def state_updates_keep_switch split: if_splits)
next
  case (LiftQuarantines released d)
  with assms show ?thesis by (auto simp: engine_inv_def state_updates_keep_switch split: if_splits)
next
  case (WritePaid me expected next_paid now procs ld d)
  with assms show ?thesis by (auto simp: engine_inv_def state_updates_keep_switch split: if_splits)
next
  case (ClaimLease me now procs d)
  with assms show ?thesis using engine_inv_lease(1) [OF assms(1)] by blast
next
  case (ReleaseLease me d)
  with assms show ?thesis using engine_inv_lease(2) [OF assms(1)] by blast
next
  case (NewerLease owner pid hb)
  with assms show ?thesis using engine_inv_lease(3) [OF assms(1)] by blast
next
  case (CheckSwitch req now procs d)
  with assms show ?thesis using engine_inv_check [OF assms(1)] by blast
next
  case (FinishSwitch answer later after d)
  with assms show ?thesis using engine_inv_finish [OF assms(1)] by blast
next
  case (Restart x)
  with assms show ?thesis using engine_inv_restart [OF assms(1)] by blast
qed

lemma engine_reachable_inv: "engine_reachable secs st0 s \<Longrightarrow> engine_inv secs st0 s"
proof (induction rule: engine_reachable.induct)
  case start
  then show ?case by (simp add: engine_inv_def start_engines_def lease_named_def known_lease_def)
next
  case (step s e s')
  then show ?case by (rule_tac engine_inv_step)
qed

end
