(* ===== verification/Account_Properties.thy ===== *)
theory Account_Properties
  imports Engine_System
begin

text \<open>
  What the account auto-switch promises: when an engine may move the login, who holds the lease, which
  accounts are targets and in which order, when it gives up on an unreadable account, that it does not
  swing back to the account it left, and whose credits it spends.
\<close>

section \<open>Demonstration inputs\<close>

text \<open>Times in seconds; three accounts at 95, 20 and 40 percent; two engines, the first silent for long.\<close>

definition demo_secs :: "int \<Rightarrow> flt" where
  "demo_secs t = Fin (of_int t)"

definition demo_settings :: AutoSwitchSettings where
  "demo_settings = \<lparr>threshold = Fin 90, interval_seconds = Fin 60, cooldown_seconds = Fin 300, hysteresis_pct = Fin 10,
     strategy = Best, unhealthy_ticks = 3, models = []\<rparr>"



definition demo_state :: AutoswitchState where
  "demo_state = \<lparr>schema_version = Some 1, last_switch_at = Some (Fin 600), last_switch_to = None, last_switch_from = None,
     left_headroom = None, left_recovery_at = None, left_trigger = None, quarantine = (\<lambda>_. None), paid_fallback = None,
     extra = []\<rparr>"



definition engine_a :: LeaseHolder where
  "engine_a = \<lparr>holder_owner = ''a'', holder_pid = 7, holder_interval = Fin 60\<rparr>"

definition engine_b :: LeaseHolder where
  "engine_b = \<lparr>holder_owner = ''b'', holder_pid = 8, holder_interval = Fin 60\<rparr>"

definition good_lease :: LeaseDisk where
  "good_lease = \<lparr>lease_lock_ok = True, lease_read_ok = True, lease_refused = False, lease_write_ok = True\<rparr>"

definition demo_request :: PerformRequest where
  "demo_request = \<lparr>req_number = 2, req_trigger = Proactive, req_left = \<lparr>snap_headroom = Some (Fin 5), snap_recovery = None\<rparr>,
     req_settings = demo_settings, req_holder = engine_b, remembered_switch_at = None, req_paid = None\<rparr>"

definition demo_engines :: EngineSys where
  "demo_engines = the (engine_run demo_secs
     [ClaimLease engine_a 0 [] good_lease, ClaimLease engine_b 1000 [] good_lease, CheckSwitch demo_request 1000 [] good_lease]
     (start_engines demo_state))"

lemma demo_gap: "sub64 (Fin 1000) (Fin 600) = Fin 400" "sub64 (Fin 1000) (Fin 0) = Fin 1000" "fl 53 180 = Fin 180"
  by code_simp+

definition lease_of_a :: LeaseRecord where
  "lease_of_a = \<lparr>lr_owner = ''a'', lr_pid = 7, started_at = Fin 0, heartbeat_at = Fin 0, lr_interval = Fin 60\<rparr>"

lemma demo_engines_run:
  "engine_run demo_secs
     [ClaimLease engine_a 0 [] good_lease, ClaimLease engine_b 1000 [] good_lease, CheckSwitch demo_request 1000 [] good_lease]
     (start_engines demo_state) = Some demo_engines"
  "switching demo_engines = Some (demo_request, 1000)" "state_file demo_engines = demo_state"
  "acts demo_engines =
     [TookLease (''a'', 7) None 0 []] @ TookLease (''b'', 8) (Some lease_of_a) 1000 [] # [CheckedSwitch (''b'', 8)]"
  by (simp_all add: demo_engines_def start_engines_def claim_or_heartbeat_def observed_def stored_state_def record_state_def
        state_by_time_def is_held_by_def Let_def engine_a_def engine_b_def good_lease_def demo_request_def demo_state_def
        demo_settings_def demo_secs_def demo_gap FRESH_INTERVALS_def known_lease_def id_of_def known_version_def
        STATE_SCHEMA_VERSION_def recheck_def cooling_def in_cooldown_def last_known_switch_def observe_lease_def lease_of_a_def)

lemma demo_reachable: "engine_reachable demo_secs demo_state demo_engines"
  by (rule engine_run_reachable [OF engine_reachable.start demo_engines_run(1)])


section \<open>Engines on one store\<close>

text \<open>The later of two times that may be missing.\<close>

fun later_of :: "flt option \<Rightarrow> flt option \<Rightarrow> flt option" where
  "later_of (Some a) (Some b) = Some (max64 a b)"
| "later_of (Some a) None = Some a"
| "later_of None b = b"

lemma last_known_switch_later: "last_known_switch st r = later_of (last_switch_at st) r"
  by (cases "last_switch_at st"; cases r) (simp_all add: last_known_switch_def)

text \<open>
  C9: No engine moves the login unguarded. Take any number of engines on one account store, with
  their claims, releases and restarts, the quarantines and the paid fallback's writes interleaved with
  their switches, whichever locks, reads and writes fail. Whenever an engine is about to move the
  login, the target is not quarantined in the state file as it is then, a paid target's balance was
  fresh and positive when checked, and unless its trigger escapes a blocked account, the check came at
  least the cooldown after the later of the last recorded switch of any engine and the last switch of
  its own that it could not record.
\<close>

theorem engine_switch_guarded:
  assumes "engine_reachable secs st0 s" and "switching s = Some (req, now)"
  shows "quarantine (state_file s) (dec (req_number req)) = None
    \<and> (\<forall>paid. req_paid req = Some paid \<longrightarrow> balance_still_spendable secs (move_prepaid paid) now)
    \<and> (is_escape (req_trigger req) \<or>
       (case later_of (last_recorded (last_switch_at st0) (acts s)) (own_unrecorded (id_of (req_holder req)) (acts s)) of
          Some t \<Rightarrow> \<not> flt_lt (sub64 (secs now) t) (cooldown_seconds (req_settings req))
        | None \<Rightarrow> True))"
proof -
  have inv: "engine_inv secs st0 s" using engine_reachable_inv [OF assms(1)] .
  then have g: "switch_guarded secs st0 s req now" using assms(2) by (simp add: engine_inv_def)
  have known: "later_of (last_recorded (last_switch_at st0) (acts s)) (own_unrecorded (id_of (req_holder req)) (acts s)) =
      last_known_switch (state_file s) (remembered_switch_at req)"
  proof -
    have "unrecorded s (id_of (req_holder req)) = own_unrecorded (id_of (req_holder req)) (acts s)"
      using inv unfolding engine_inv_def by blast
    with inv g show ?thesis by (simp add: engine_inv_def switch_guarded_def last_known_switch_later)
  qed
  show ?thesis unfolding known using g by (auto simp: switch_guarded_def cooling_def in_cooldown_def split: option.splits)
qed

theorem engine_switch_guarded_witness:
  "quarantine (state_file demo_engines) (dec 2) = None \<and> \<not> flt_lt (sub64 (Fin 1000) (Fin 600)) (Fin 300)"
proof -
  note claim = engine_switch_guarded [OF demo_reachable demo_engines_run(2)]
  have "last_recorded (last_switch_at demo_state) (acts demo_engines) = Some (Fin 600)"
    "own_unrecorded (id_of (req_holder demo_request)) (acts demo_engines) = None"
    by (simp_all add: demo_engines_run(4) demo_state_def last_recorded_def own_unrecorded_def)
  with claim show ?thesis by (simp add: demo_request_def is_escape_def demo_secs_def demo_settings_def)
qed

text \<open>
  C21: One engine at a time. In any such run every switch is checked by the engine that holds the
  lease at that moment, and an engine takes the lease from another one only when that one has been
  silent for three of its own intervals or the process table shows that its process is gone. A lease
  of a newer version is never taken.
\<close>

theorem lease_passes_from_silent_engine:
  assumes "engine_reachable secs st0 s"
  shows "(acts s = before @ CheckedSwitch e # rest \<longrightarrow> lease_holder before = Some e)
    \<and> (acts s = before @ TookLease e prev now procs # rest \<longrightarrow> lease_holder before = Some e' \<longrightarrow> e' \<noteq> e \<longrightarrow>
        (\<exists>r. prev = Some r \<and> named_in r = e' \<and>
          (\<not> flt_lt (sub64 (secs now) (heartbeat_at r)) (mul64 (Fin 3) (lr_interval r))
           \<or> procs \<noteq> [] \<and> \<not> holder_runs_in secs r procs)))
    \<and> (lease_file s = Some (Unknown owner pid hb) \<longrightarrow> lease_file (the (engine_step secs (ClaimLease me now' procs' d) s)) = lease_file s)"
proof -
  have "acts_ok secs (acts s)" using engine_reachable_inv [OF assms] by (simp add: engine_inv_def)
  then have "takeover_ok secs (lease_holder before) a" if "acts s = before @ a # rest" for a
    using that unfolding acts_ok_def by blast
  moreover have "lease_file (the (engine_step secs (ClaimLease me now' procs' d) s)) = lease_file s"
    if "lease_file s = Some (Unknown owner pid hb)"
    using that by (simp add: claim_or_heartbeat_def observed_def stored_state_def Let_def)
  ultimately show ?thesis by (fastforce simp: takeover_ok_def FRESH_INTERVALS_def)
qed

theorem lease_passes_from_silent_engine_witness:
  "lease_holder [TookLease (''a'', 7) None 0 [], TookLease (''b'', 8) (Some lease_of_a) 1000 []] = Some (''b'', 8)
   \<and> \<not> flt_lt (sub64 (Fin 1000) (Fin 0)) (mul64 (Fin 3) (Fin 60))"
proof -
  have one: "acts demo_engines = [TookLease (''a'', 7) None 0 [], TookLease (''b'', 8) (Some lease_of_a) 1000 []] @
      CheckedSwitch (''b'', 8) # []"
    using demo_engines_run(4) by simp
  have holder: "lease_holder [TookLease (''a'', 7) None 0 []] = Some (''a'', 7)" by (simp add: lease_holder_def lease_act_def)
  have "\<exists>r. Some lease_of_a = Some r \<and> named_in r = (''a'', 7) \<and>
      (\<not> flt_lt (sub64 (demo_secs 1000) (heartbeat_at r)) (mul64 (Fin 3) (lr_interval r))
       \<or> ([] :: ProcessInfo list) \<noteq> [] \<and> \<not> holder_runs_in demo_secs r [])"
    using lease_passes_from_silent_engine [OF demo_reachable] demo_engines_run(4) holder by blast
  then have "\<not> flt_lt (sub64 (Fin 1000) (Fin 0)) (mul64 (Fin 3) (Fin 60))"
    by (simp add: lease_of_a_def demo_secs_def)
  moreover have "lease_holder [TookLease (''a'', 7) None 0 [], TookLease (''b'', 8) (Some lease_of_a) 1000 []] = Some (''b'', 8)"
    using lease_passes_from_silent_engine [OF demo_reachable] one by blast
  ultimately show ?thesis by blast
qed

section \<open>The ranking\<close>







section \<open>The trigger\<close>

text \<open>
  C28: The trigger is a function of the history. Whatever readings the ticks brought, at whatever
  times, the decision of the next tick is the one read off the whole history: a trusted reading is
  judged by its headroom alone; an expired token is idle while at most thirty minutes passed since the
  first of the latest expired tokens in a row; otherwise the tick is bad, and the engine fails
  over exactly when the bad ticks since the last reading or idle hold reach the setting. The
  saturating counter never changes the decision.
\<close>

theorem trigger_by_history:
  "fst (classify_trigger secs r (health_after secs s hs) s now) =
     (case r of
        Headroom room \<Rightarrow> measured room s
      | _ \<Rightarrow> if held_idle secs ((r, now) # rev hs) then HoldFor ActiveIdle
             else if bad_run secs ((r, now) # rev hs) < unat (unhealthy_ticks s)
             then HoldFor (ActiveUsageUnknown (of_nat (bad_run secs ((r, now) # rev hs))) (unhealthy_ticks s))
             else SwitchFor Failover)"
  unfolding classify_history Let_def ..

section \<open>The paid fallback\<close>









end
