(* ===== verification/Tracer_Log.thy ===== *)
theory Tracer_Log
  imports Session "HOL-Library.Sublist"
begin

text \<open>
  Reading a session back out of its tracer's log (\<open>crates/daemon/src/tracer_log.rs\<close>): the scan of
  the log's lines, the fields of its marker lines, and the decoder of the argument list, which the
  tracer prints with \<open>{:?}\<close>. A text is its UTF-8 bytes. The delimiters are ASCII and never occur
  inside the encoding of another character, so searching and splitting by bytes is searching and
  splitting by characters.
\<close>

section \<open>Searching\<close>

text \<open>\<open>str::find\<close>, \<open>str::rfind\<close>, \<open>str::contains\<close> and \<open>str::split_once(' ')\<close>.\<close>

fun find_sub :: "string \<Rightarrow> string \<Rightarrow> nat option" where
  "find_sub pat [] = (if pat = [] then Some 0 else None)"
| "find_sub pat (c # s) = (if prefix pat (c # s) then Some 0 else map_option Suc (find_sub pat s))"

fun rfind_sub :: "string \<Rightarrow> string \<Rightarrow> nat option" where
  "rfind_sub pat [] = (if pat = [] then Some 0 else None)"
| "rfind_sub pat (c # s) =
     (case rfind_sub pat s of
        Some i \<Rightarrow> Some (Suc i)
      | None \<Rightarrow> if prefix pat (c # s) then Some 0 else None)"

definition contains_sub :: "string \<Rightarrow> string \<Rightarrow> bool" where
  "contains_sub pat s = (find_sub pat s \<noteq> None)"

text \<open>The text after the first occurrence, and the text from it on.\<close>

definition after_sub :: "string \<Rightarrow> string \<Rightarrow> string option" where
  "after_sub pat s = map_option (\<lambda>i. drop (i + length pat) s) (find_sub pat s)"

definition from_sub :: "string \<Rightarrow> string \<Rightarrow> string option" where
  "from_sub pat s = map_option (\<lambda>i. drop i s) (find_sub pat s)"

definition split_once_space :: "string \<Rightarrow> (string \<times> string) option" where
  "split_once_space s = map_option (\<lambda>i. (take i s, drop (Suc i) s)) (find_sub '' '' s)"

text \<open>\<open>str::lines\<close>: a line ends at a line feed, and a carriage return before it is dropped.\<close>

definition strip_cr :: "string \<Rightarrow> string" where
  "strip_cr l = (if l \<noteq> [] \<and> last l = CHR 0x0D then butlast l else l)"

fun lines_of :: "string \<Rightarrow> string \<Rightarrow> string list" where
  "lines_of line [] = (if line = [] then [] else [rev line])"
| "lines_of line (c # s) =
     (if c = CHR 0x0A then strip_cr (rev line) # lines_of [] s else lines_of (c # line) s)"

text \<open>\<open>str::parse::<i32>\<close>: an optional sign, then digits, in range.\<close>

definition parse_i32 :: "string \<Rightarrow> int option" where
  "parse_i32 s =
     (let neg = (s \<noteq> [] \<and> hd s = CHR ''-'');
          ds = (if s \<noteq> [] \<and> hd s \<in> {CHR ''-'', CHR ''+''} then tl s else s)
      in if ds = [] then None
         else (case digits_val 0 ds of
                 None \<Rightarrow> None
               | Some n \<Rightarrow>
                   let v = (if neg then - int n else int n)
                   in if - (2 ^ 31) \<le> v \<and> v < 2 ^ 31 then Some v else None))"

section \<open>The argument list\<close>

definition QUOTE :: char where "QUOTE = CHR 0x22"
definition BACKSLASH :: char where "BACKSLASH = CHR 0x5C"

text \<open>The UTF-8 encoding of a Unicode scalar value (\<open>String::push\<close>).\<close>

definition utf8_encode :: "nat \<Rightarrow> string" where
  "utf8_encode n = map char_of
     (if n < 0x80 then [n]
      else if n < 0x800 then [0xC0 + n div 64, 0x80 + n mod 64]
      else if n < 0x10000 then [0xE0 + n div 4096, 0x80 + n div 64 mod 64, 0x80 + n mod 64]
      else [0xF0 + n div 262144, 0x80 + n div 4096 mod 64, 0x80 + n div 64 mod 64, 0x80 + n mod 64])"

text \<open>\<open>char::from_u32\<close>: surrogates and values above \<open>0x10FFFF\<close> are no characters.\<close>

definition scalar :: "nat \<Rightarrow> bool" where
  "scalar n = (n < 0xD800 \<or> 0xE000 \<le> n \<and> n < 0x110000)"

definition hex_val :: "char \<Rightarrow> nat option" where
  "hex_val c =
     (let n = (of_char c :: nat)
      in if 48 \<le> n \<and> n \<le> 57 then Some (n - 48)
         else if 97 \<le> n \<and> n \<le> 102 then Some (n - 87)
         else if 65 \<le> n \<and> n \<le> 70 then Some (n - 55) else None)"

text \<open>The digits up to the closing brace, at most six of them: their value and what follows.\<close>

fun hex_digits :: "nat list \<Rightarrow> string \<Rightarrow> (nat list \<times> string) option" where
  "hex_digits ds [] = None"
| "hex_digits ds (c # cs) =
     (if c = CHR ''}'' then Some (ds, cs)
      else (case hex_val c of
              None \<Rightarrow> None
            | Some d \<Rightarrow> if length ds < 6 then hex_digits (ds @ [d]) cs else None))"

definition from_hex :: "nat list \<Rightarrow> nat" where
  "from_hex ds = foldl (\<lambda>n d. 16 * n + d) 0 ds"

definition parse_unicode_escape :: "string \<Rightarrow> (string \<times> string) option" where
  "parse_unicode_escape cs =
     (case cs of
        [] \<Rightarrow> None
      | c # cs' \<Rightarrow>
          if c \<noteq> CHR ''{'' then None
          else (case hex_digits [] cs' of
                  None \<Rightarrow> None
                | Some (ds, rest) \<Rightarrow>
                    if ds = [] \<or> \<not> scalar (from_hex ds) then None
                    else Some (utf8_encode (from_hex ds), rest)))"

definition parse_escape :: "string \<Rightarrow> (string \<times> string) option" where
  "parse_escape cs =
     (case cs of
        [] \<Rightarrow> None
      | c # rest \<Rightarrow>
          if c = BACKSLASH then Some ([BACKSLASH], rest)
          else if c = QUOTE then Some ([QUOTE], rest)
          else if c = CHR 0x27 then Some ([CHR 0x27], rest)
          else if c = CHR ''n'' then Some ([CHR 0x0A], rest)
          else if c = CHR ''r'' then Some ([CHR 0x0D], rest)
          else if c = CHR ''t'' then Some ([CHR 0x09], rest)
          else if c = CHR ''0'' then Some ([CHR 0x00], rest)
          else if c = CHR ''u'' then parse_unicode_escape rest
          else None)"

lemma hex_digits_shorter: "hex_digits ds cs = Some (ds', rest) \<Longrightarrow> length rest < length cs"
  by (induction ds cs rule: hex_digits.induct) (auto split: if_splits option.splits)

lemma parse_escape_shorter [termination_simp]:
  "parse_escape cs = Some (d, rest) \<Longrightarrow> length rest < length cs"
  by (auto simp: parse_escape_def parse_unicode_escape_def dest: hex_digits_shorter
      split: list.splits if_splits option.splits)

fun parse_debug_str_body :: "string \<Rightarrow> string \<Rightarrow> (string \<times> string) option" where
  "parse_debug_str_body out [] = None"
| "parse_debug_str_body out (c # cs) =
     (if c = QUOTE then Some (out, cs)
      else if c = BACKSLASH then
        (case parse_escape cs of
           None \<Rightarrow> None
         | Some (d, rest) \<Rightarrow> parse_debug_str_body (out @ d) rest)
      else parse_debug_str_body (out @ [c]) cs)"

lemma parse_debug_str_body_shorter [termination_simp]:
  "parse_debug_str_body out cs = Some (s, rest) \<Longrightarrow> length rest < length cs"
proof (induction out cs rule: parse_debug_str_body.induct)
  case (2 out c cs)
  then show ?case
    by (fastforce split: if_splits option.splits prod.splits dest: parse_escape_shorter)
qed simp

text \<open>\<open>parse_items\<close> is the loop of \<open>parse_debug_str_list\<close>.\<close>

function parse_items :: "string list \<Rightarrow> string \<Rightarrow> string list option" where
  "parse_items items cs =
     (case cs of
        [] \<Rightarrow> None
      | c # cs1 \<Rightarrow>
          if c \<noteq> QUOTE then None
          else (case parse_debug_str_body [] cs1 of
                  None \<Rightarrow> None
                | Some (item, cs2) \<Rightarrow>
                    (case cs2 of
                       [] \<Rightarrow> Some (items @ [item])
                     | d # cs3 \<Rightarrow>
                         if d \<noteq> CHR '','' then None
                         else (case cs3 of
                                 [] \<Rightarrow> None
                               | e # cs4 \<Rightarrow>
                                   if e = CHR '' '' then parse_items (items @ [item]) cs4 else None))))"
  by pat_completeness auto
termination
  by (relation "measure (\<lambda>(items, cs). length cs)") (auto dest: parse_debug_str_body_shorter)

declare parse_items.simps [simp del]

definition strip_prefix :: "string \<Rightarrow> string \<Rightarrow> string option" where
  "strip_prefix p s = (if prefix p s then Some (drop (length p) s) else None)"

definition strip_suffix :: "string \<Rightarrow> string \<Rightarrow> string option" where
  "strip_suffix p s = (if suffix p s then Some (take (length s - length p) s) else None)"

definition parse_debug_str_list :: "string \<Rightarrow> string list option" where
  "parse_debug_str_list text =
     (case Option.bind (strip_prefix ''['' text) (strip_suffix '']'') of
        None \<Rightarrow> None
      | Some inner \<Rightarrow> if inner = [] then Some [] else parse_items [] inner)"

section \<open>The lines\<close>

definition START_MARKER :: string where "START_MARKER = ''rt-tracer starting ''"
definition AGENT_NOTE_MARKER :: string where
  "AGENT_NOTE_MARKER = ''rt-tracer agent note agent_note=''"
definition SPAWN_MARKER :: string where "SPAWN_MARKER = ''supervisor: about to spawn child ''"
definition STOP_MARKER :: string where "STOP_MARKER = ''supervisor: Stop request received''"
definition EXIT_MARKER :: string where "EXIT_MARKER = ''supervisor: child exited; shutting down ''"
definition END_MARKERS :: "string list" where
  "END_MARKERS = [''discard_session: begin '', ''tracer_client: child exited '']"

record AgentNote =
  note_agent :: string
  note_options :: OptionValues
  note_trusted :: bool
  note_conversation_id :: "string option"
  note_extra_dirs :: "string list"

text \<open>
  The parsers of other crates: \<open>parse_rfc3339\<close> (\<open>chrono\<close>) gives a time in nanoseconds, and
  \<open>decode_note\<close> (\<open>serde_json\<close>) the note a JSON text starts with.
\<close>

record LogReaders =
  parse_rfc3339 :: "string \<Rightarrow> int option"
  decode_note :: "string \<Rightarrow> AgentNote option"

definition split_timestamp :: "LogReaders \<Rightarrow> string \<Rightarrow> (int \<times> string) option" where
  "split_timestamp env line =
     (case split_once_space line of
        None \<Rightarrow> None
      | Some (stamp, rest) \<Rightarrow> map_option (\<lambda>t. (t, rest)) (parse_rfc3339 env stamp))"

text \<open>The space-free value of \<open>key\<close>, when non-empty.\<close>

definition token_after :: "string \<Rightarrow> string \<Rightarrow> string option" where
  "token_after line key =
     (case after_sub key line of
        None \<Rightarrow> None
      | Some rest \<Rightarrow>
          let token = (case split_once_space rest of None \<Rightarrow> rest | Some (token, _) \<Rightarrow> token)
          in if token = [] then None else Some token)"

record TraceStart =
  start_at :: int
  start_session_id :: string
  start_cwd :: string

record TraceSpawn =
  spawn_program :: string
  spawn_args :: "string list"
  spawn_cwd :: string

definition parse_start :: "int \<Rightarrow> string \<Rightarrow> TraceStart option" where
  "parse_start t rest =
     (case from_sub START_MARKER rest of
        None \<Rightarrow> None
      | Some line \<Rightarrow>
          (case (token_after line '' session_id='', after_sub '' cwd='' line) of
             (Some sid, Some cwd_field) \<Rightarrow>
               Some \<lparr>start_at = t, start_session_id = sid,
                 start_cwd = (case find_sub '' cols='' cwd_field of
                                None \<Rightarrow> cwd_field | Some e \<Rightarrow> take e cwd_field)\<rparr>
           | _ \<Rightarrow> None))"

definition parse_spawn :: "string \<Rightarrow> TraceSpawn option" where
  "parse_spawn rest =
     (case Option.bind (after_sub SPAWN_MARKER rest) (strip_prefix ''program='') of
        None \<Rightarrow> None
      | Some program_field \<Rightarrow>
          (case find_sub '' argc='' program_field of
             None \<Rightarrow> None
           | Some argc_at \<Rightarrow>
               (let after_program = drop argc_at program_field
                in (case rfind_sub '' cwd='' after_program of
                      None \<Rightarrow> None
                    | Some cwd_at \<Rightarrow>
                        (case after_sub '' args='' (take cwd_at after_program) of
                           None \<Rightarrow> None
                         | Some list_text \<Rightarrow>
                             map_option
                               (\<lambda>argv. \<lparr>spawn_program = take argc_at program_field, spawn_args = argv,
                                  spawn_cwd = drop (cwd_at + length '' cwd='') after_program\<rparr>)
                               (parse_debug_str_list list_text))))))"

definition parse_exit :: "string \<Rightarrow> int option" where
  "parse_exit rest =
     (case from_sub EXIT_MARKER rest of
        None \<Rightarrow> None
      | Some line \<Rightarrow> Option.bind (token_after line '' exit_code='') parse_i32)"

definition note_json :: "string \<Rightarrow> string option" where
  "note_json rest = after_sub AGENT_NOTE_MARKER rest"

section \<open>The scan\<close>

datatype TracerLogEnd = LogStoppedByUser | LogExited int | LogLost

record TracerLogSummary =
  sum_session_id :: string
  sum_cwd :: string
  sum_program :: string
  sum_args :: "string list"
  sum_started_at :: int
  sum_last_line_at :: int
  sum_end :: TracerLogEnd
  sum_agent_note :: "AgentNote option"

record LogScan =
  scan_start :: "TraceStart option"
  scan_spawn :: "TraceSpawn option"
  scan_stopped :: bool
  scan_exit_code :: "int option"
  scan_last_line_at :: "int option"
  scan_note_seen :: bool
  scan_agent_note :: "AgentNote option"

definition empty_scan :: LogScan where
  "empty_scan = \<lparr>scan_start = None, scan_spawn = None, scan_stopped = False, scan_exit_code = None,
     scan_last_line_at = None, scan_note_seen = False, scan_agent_note = None\<rparr>"

definition absorb :: "LogReaders \<Rightarrow> LogScan \<Rightarrow> int \<Rightarrow> string \<Rightarrow> LogScan" where
  "absorb env s t rest =
     (let s1 = s\<lparr>scan_last_line_at := Some t\<rparr>;
          s2 = (if scan_start s1 = None then s1\<lparr>scan_start := parse_start t rest\<rparr> else s1);
          s3 = (if scan_spawn s2 = None then s2\<lparr>scan_spawn := parse_spawn rest\<rparr> else s2);
          s4 = (if contains_sub STOP_MARKER rest then s3\<lparr>scan_stopped := True\<rparr> else s3);
          s5 = (if scan_exit_code s4 = None then s4\<lparr>scan_exit_code := parse_exit rest\<rparr> else s4)
      in if scan_note_seen s5 then s5
         else (case note_json rest of
                 None \<Rightarrow> s5
               | Some json \<Rightarrow> s5\<lparr>scan_note_seen := True, scan_agent_note := decode_note env json\<rparr>))"

definition scan_end :: "bool \<Rightarrow> int option \<Rightarrow> TracerLogEnd" where
  "scan_end stopped code =
     (if stopped then LogStoppedByUser else case code of Some c \<Rightarrow> LogExited c | None \<Rightarrow> LogLost)"

definition finish_scan :: "LogScan \<Rightarrow> TracerLogSummary option" where
  "finish_scan s =
     map_option (\<lambda>st.
       \<lparr>sum_session_id = start_session_id st,
        sum_cwd = (case scan_spawn s of Some sp \<Rightarrow> spawn_cwd sp | None \<Rightarrow> start_cwd st),
        sum_program = (case scan_spawn s of Some sp \<Rightarrow> spawn_program sp | None \<Rightarrow> []),
        sum_args = (case scan_spawn s of Some sp \<Rightarrow> spawn_args sp | None \<Rightarrow> []),
        sum_started_at = start_at st,
        sum_last_line_at = (case scan_last_line_at s of Some t \<Rightarrow> t | None \<Rightarrow> start_at st),
        sum_end = scan_end (scan_stopped s) (scan_exit_code s),
        sum_agent_note = scan_agent_note s\<rparr>) (scan_start s)"

definition parse_tracer_log :: "LogReaders \<Rightarrow> string \<Rightarrow> TracerLogSummary option" where
  "parse_tracer_log env text =
     finish_scan (foldl (\<lambda>s line. case split_timestamp env line of
                                    None \<Rightarrow> s
                                  | Some (t, rest) \<Rightarrow> absorb env s t rest)
                    empty_scan (lines_of [] text))"

text \<open>The earliest end a daemon log gives each session.\<close>

definition note_end :: "LogReaders \<Rightarrow> (string \<rightharpoonup> int) \<Rightarrow> string \<Rightarrow> (string \<rightharpoonup> int)" where
  "note_end env ends line =
     (case split_timestamp env line of
        None \<Rightarrow> ends
      | Some (t, rest) \<Rightarrow>
          if \<not> list_ex (\<lambda>marker. contains_sub marker rest) END_MARKERS then ends
          else (case token_after rest '' session_id='' of
                  None \<Rightarrow> ends
                | Some sid \<Rightarrow> ends(sid \<mapsto> (case ends sid of None \<Rightarrow> t | Some e \<Rightarrow> min e t))))"

definition session_end_times :: "LogReaders \<Rightarrow> string \<Rightarrow> (string \<rightharpoonup> int)" where
  "session_end_times env text = foldl (note_end env) Map.empty (lines_of [] text)"

section \<open>What the tracer prints\<close>

text \<open>
  \<open>{:?}\<close> of a string and of a list of strings, as \<open>core::fmt\<close> writes them; which characters count as
  printable is the standard library's Unicode table.
\<close>

fun hex_lower :: "nat \<Rightarrow> string" where
  "hex_lower n =
     (let d = char_of (if n mod 16 < 10 then 48 + n mod 16 else 87 + n mod 16)
      in if n < 16 then [d] else hex_lower (n div 16) @ [d])"

declare hex_lower.simps [simp del]

definition debug_char :: "(nat \<Rightarrow> bool) \<Rightarrow> nat \<Rightarrow> string" where
  "debug_char printable n =
     (if n = 0 then [BACKSLASH, CHR ''0'']
      else if n = 9 then [BACKSLASH, CHR ''t'']
      else if n = 13 then [BACKSLASH, CHR ''r'']
      else if n = 10 then [BACKSLASH, CHR ''n'']
      else if n = 0x5C then [BACKSLASH, BACKSLASH]
      else if n = 0x22 then [BACKSLASH, QUOTE]
      else if printable n then utf8_encode n
      else [BACKSLASH, CHR ''u'', CHR ''{''] @ hex_lower n @ ''}'')"

definition debug_str :: "(nat \<Rightarrow> bool) \<Rightarrow> nat list \<Rightarrow> string" where
  "debug_str printable s = [QUOTE] @ concat (map (debug_char printable) s) @ [QUOTE]"

fun debug_items :: "(nat \<Rightarrow> bool) \<Rightarrow> nat list list \<Rightarrow> string" where
  "debug_items printable [] = []"
| "debug_items printable [s] = debug_str printable s"
| "debug_items printable (s # ss) = debug_str printable s @ '', '' @ debug_items printable ss"

definition debug_list :: "(nat \<Rightarrow> bool) \<Rightarrow> nat list list \<Rightarrow> string" where
  "debug_list printable ss = ''['' @ debug_items printable ss @ '']''"

text \<open>The bytes of a string of characters.\<close>

definition utf8 :: "nat list \<Rightarrow> string" where
  "utf8 s = concat (map utf8_encode s)"

section \<open>The decoder undoes the printing\<close>

lemma char_of_eq: "char_of (n :: nat) = c \<longleftrightarrow> n mod 256 = of_char c" "c = char_of n \<longleftrightarrow> n mod 256 = of_char c"
  by (metis char_of_char char_of_mod_256 of_char_of)+

lemma utf8_encode_bytes:
  assumes "scalar n" and "c \<in> set (utf8_encode n)" and "128 \<le> n"
  shows "128 \<le> (of_char c :: nat)"
proof -
  have n: "n < 0x110000" using assms(1) by (auto simp: scalar_def)
  have d: "n div 64 < 32" if "n < 2048" using that by simp
  have e: "n div 4096 < 16" if "n < 65536" using that by simp
  have f: "n div 262144 < 5" using n by simp
  have m: "x mod 64 < 64" for x :: nat by simp
  show ?thesis
    using assms(2,3) d e f m [of n] m [of "n div 64"] m [of "n div 4096"]
    by (auto simp: utf8_encode_def of_char_of simp del: mod_less_divisor split: if_splits)
qed

lemma utf8_encode_ascii: "n < 128 \<Longrightarrow> utf8_encode n = [char_of n]"
  by (simp add: utf8_encode_def)

lemma utf8_encode_plain:
  assumes "n \<noteq> 0x22" and "n \<noteq> 0x5C" and "scalar n"
  shows "QUOTE \<notin> set (utf8_encode n)" and "BACKSLASH \<notin> set (utf8_encode n)"
proof -
  show "QUOTE \<notin> set (utf8_encode n)"
    using assms(1) utf8_encode_bytes [OF assms(3), of QUOTE]
    by (cases "n < 128") (auto simp: utf8_encode_ascii QUOTE_def char_of_eq)
  show "BACKSLASH \<notin> set (utf8_encode n)"
    using assms(2) utf8_encode_bytes [OF assms(3), of BACKSLASH]
    by (cases "n < 128") (auto simp: utf8_encode_ascii BACKSLASH_def char_of_eq)
qed

lemma hex_val_digit:
  "d < 16 \<Longrightarrow> hex_val (char_of (if d < 10 then 48 + d else 87 + d)) = Some d"
  "d < 16 \<Longrightarrow> char_of (if d < 10 then 48 + d else 87 + d) \<noteq> CHR ''}''"
  by (simp_all add: hex_val_def char_of_eq)

fun hex_of :: "nat \<Rightarrow> nat list" where
  "hex_of n = (if n < 16 then [n] else hex_of (n div 16) @ [n mod 16])"

declare hex_of.simps [simp del]

lemma from_hex_of: "from_hex (hex_of n) = n"
proof (induction n rule: hex_of.induct)
  case (1 n)
  then show ?case by (subst hex_of.simps) (simp add: from_hex_def)
qed

lemma hex_of_digits: "d \<in> set (hex_of n) \<Longrightarrow> d < 16"
proof (induction n rule: hex_of.induct)
  case (1 n)
  then show ?case by (subst (asm) (2) hex_of.simps) (auto split: if_splits)
qed

lemma hex_of_length: "n < 16 ^ k \<Longrightarrow> 0 < k \<Longrightarrow> length (hex_of n) \<le> k"
proof (induction k arbitrary: n)
  case (Suc k)
  show ?case
  proof (cases "n < 16")
    case False
    with Suc.prems have "n div 16 < 16 ^ k" by (simp add: less_mult_imp_div_less mult.commute)
    moreover have "0 < k" using False Suc.prems by (cases k) auto
    ultimately show ?thesis using Suc.IH False by (subst hex_of.simps) simp
  qed (simp add: hex_of.simps)
qed simp

lemma hex_lower_of: "hex_lower n = map (\<lambda>d. char_of (if d < 10 then 48 + d else 87 + d)) (hex_of n)"
proof (induction n rule: hex_lower.induct)
  case (1 n)
  then show ?case by (subst hex_lower.simps, subst hex_of.simps) (simp add: Let_def)
qed

lemma hex_digits_read:
  "(\<forall>d \<in> set ds'. d < 16) \<Longrightarrow> length ds + length ds' \<le> 6 \<Longrightarrow>
     hex_digits ds (map (\<lambda>d. char_of (if d < 10 then 48 + d else 87 + d)) ds' @ CHR ''}'' # rest) = Some (ds @ ds', rest)"
proof (induction ds' arbitrary: ds)
  case (Cons d ds')
  then show ?case using hex_val_digit [of d] by simp
qed simp

lemma parse_escape_unicode:
  assumes "scalar n"
  shows "parse_escape (CHR ''u'' # CHR ''{'' # hex_lower n @ CHR ''}'' # rest) = Some (utf8_encode n, rest)"
proof -
  have "n < 16 ^ 6" using assms by (auto simp: scalar_def)
  then have "length (hex_of n) \<le> 6" by (rule hex_of_length) simp
  then have "hex_digits [] (hex_lower n @ CHR ''}'' # rest) = Some (hex_of n, rest)"
    using hex_digits_read [of "hex_of n" "[]" rest] hex_of_digits by (simp add: hex_lower_of)
  moreover have "hex_of n \<noteq> []" by (subst hex_of.simps) simp
  ultimately show ?thesis using assms
    by (simp add: parse_escape_def parse_unicode_escape_def from_hex_of BACKSLASH_def QUOTE_def)
qed

lemma body_plain:
  "QUOTE \<notin> set xs \<Longrightarrow> BACKSLASH \<notin> set xs \<Longrightarrow>
     parse_debug_str_body out (xs @ rest) = parse_debug_str_body (out @ xs) rest"
  by (induction xs arbitrary: out) auto

lemma body_char:
  assumes "scalar n"
  shows "parse_debug_str_body out (debug_char printable n @ rest) =
    parse_debug_str_body (out @ utf8_encode n) rest"
proof -
  have q: "QUOTE \<noteq> BACKSLASH" by (simp add: QUOTE_def BACKSLASH_def)
  consider "n \<in> {0, 9, 13, 10, 0x5C, 0x22}"
    | "n \<notin> {0, 9, 13, 10, 0x5C, 0x22}" "printable n" | "n \<notin> {0, 9, 13, 10, 0x5C, 0x22}" "\<not> printable n" by blast
  then show ?thesis
  proof cases
    case 1
    have "char_of (0 :: nat) = CHR 0x00" "char_of (9 :: nat) = CHR 0x09" "char_of (13 :: nat) = CHR 0x0D"
      "char_of (10 :: nat) = CHR 0x0A" "char_of (0x5C :: nat) = CHR 0x5C" "char_of (0x22 :: nat) = CHR 0x22"
      by (simp_all add: char_of_eq)
    with 1 show ?thesis
      by (auto simp: debug_char_def parse_escape_def utf8_encode_ascii QUOTE_def BACKSLASH_def)
  next
    case 2
    then show ?thesis using utf8_encode_plain [of n] assms
      by (simp add: debug_char_def body_plain)
  next
    case 3
    then show ?thesis using parse_escape_unicode [OF assms, of rest] q
      by (simp add: debug_char_def)
  qed
qed

lemma body_str:
  "(\<forall>n \<in> set s. scalar n) \<Longrightarrow>
     parse_debug_str_body out (concat (map (debug_char printable) s) @ QUOTE # rest) = Some (out @ utf8 s, rest)"
  by (induction s arbitrary: out) (simp_all add: body_char utf8_def)

lemma items_list:
  "ss \<noteq> [] \<Longrightarrow> (\<forall>s \<in> set ss. \<forall>n \<in> set s. scalar n) \<Longrightarrow>
     parse_items items (debug_items printable ss) = Some (items @ map utf8 ss)"
proof (induction printable ss arbitrary: items rule: debug_items.induct)
  case (2 printable s)
  then show ?case
    by (subst parse_items.simps) (simp add: debug_str_def body_str [where rest = "[]"])
next
  case (3 printable s t ss)
  then show ?case
    by (subst parse_items.simps)
       (simp add: debug_str_def body_str [where rest = "CHR '','' # CHR '' '' # debug_items printable (t # ss)" for ss])
qed simp

lemma debug_items_not_empty: "ss \<noteq> [] \<Longrightarrow> debug_items printable ss \<noteq> []"
  by (cases "(printable, ss)" rule: debug_items.cases) (simp_all add: debug_str_def)

lemma parse_debug_list:
  assumes "\<forall>s \<in> set ss. \<forall>n \<in> set s. scalar n"
  shows "parse_debug_str_list (debug_list printable ss) = Some (map utf8 ss)"
proof -
  have "Option.bind (strip_prefix ''['' (debug_list printable ss)) (strip_suffix '']'') = Some (debug_items printable ss)"
    by (simp add: strip_prefix_def strip_suffix_def debug_list_def)
  then show ?thesis using items_list [of ss "[]" printable] debug_items_not_empty [of ss printable] assms
    by (cases ss) (simp_all add: parse_debug_str_list_def)
qed

section \<open>Finding a marker\<close>

lemma find_sub_first:
  assumes "find_sub pat (p @ butlast pat) = None" and "pat \<noteq> []"
  shows "find_sub pat (p @ pat @ q) = Some (length p)"
  using assms(1)
proof (induction p)
  case Nil
  then show ?case using assms(2) by (cases pat) auto
next
  case (Cons c p)
  have "\<not> prefix pat (c # p @ butlast pat)" and rest: "find_sub pat (p @ butlast pat) = None"
    using Cons.prems by (simp_all split: if_splits)
  moreover have "length pat \<le> length (c # p @ butlast pat)" by (cases pat) simp_all
  moreover have "c # p @ pat @ q = (c # p @ butlast pat) @ last pat # q"
    using assms(2) by (metis append_Cons append_assoc append_butlast_last_id append_Nil)
  ultimately have "\<not> prefix pat (c # p @ pat @ q)"
    by (metis prefix_length_prefix prefixI)
  then show ?case using Cons.IH [OF rest] by simp
qed

lemma rfind_sub_last:
  assumes "find_sub pat (tl pat @ q) = None" and "pat \<noteq> []"
  shows "rfind_sub pat (s @ pat @ q) = Some (length s)"
proof -
  have none: "find_sub pat x = None \<Longrightarrow> rfind_sub pat x = None" for x
    by (induction x) (auto split: if_splits)
  have "rfind_sub pat (pat @ q) = Some 0"
    using none [OF assms(1)] assms(2) by (cases pat) simp_all
  then show ?thesis by (induction s) simp_all
qed

lemma after_sub_first:
  "find_sub pat (p @ butlast pat) = None \<Longrightarrow> pat \<noteq> [] \<Longrightarrow> after_sub pat (p @ pat @ q) = Some q"
  by (simp add: after_sub_def find_sub_first)

lemma dec_digits: "c \<in> set (dec n) \<Longrightarrow> 48 \<le> (of_char c :: nat) \<and> (of_char c :: nat) \<le> 57"
proof (induction n rule: dec.induct)
  case (1 n)
  have "n mod 10 < 10" by simp
  with 1 show ?case by (subst (asm) (2) dec.simps) (auto split: if_splits simp: of_char_of)
qed

lemma find_args_digits:
  "(\<forall>c \<in> set ds. c \<noteq> CHR '' '') \<Longrightarrow> find_sub '' args='' (ds @ '' args'') = None"
  by (induction ds) auto

text \<open>The spawn line as \<open>supervisor.rs\<close> logs it, read back.\<close>

definition spawn_line :: "(nat \<Rightarrow> bool) \<Rightarrow> string \<Rightarrow> nat list list \<Rightarrow> string \<Rightarrow> string" where
  "spawn_line printable program argv cwd =
     SPAWN_MARKER @ ''program='' @ program @ '' argc='' @ dec (length argv) @
       '' args='' @ debug_list printable argv @ '' cwd='' @ cwd"

lemma parse_spawn_line:
  assumes "find_sub SPAWN_MARKER (pre @ butlast SPAWN_MARKER) = None"
    and "find_sub '' argc='' (program @ '' argc'') = None"
    and "find_sub '' cwd='' (''cwd='' @ cwd) = None"
    and "\<forall>s \<in> set argv. \<forall>n \<in> set s. scalar n"
  shows "parse_spawn (pre @ spawn_line printable program argv cwd) =
    Some \<lparr>spawn_program = program, spawn_args = map utf8 argv, spawn_cwd = cwd\<rparr>"
proof -
  define argv_text where "argv_text = debug_list printable argv"
  define head where "head = '' argc='' @ dec (length argv) @ '' args='' @ argv_text"
  have spaces: "\<forall>c \<in> set (dec (length argv)). c \<noteq> CHR '' ''" using dec_digits by force
  have "after_sub SPAWN_MARKER (pre @ spawn_line printable program argv cwd) =
      Some (''program='' @ program @ head @ '' cwd='' @ cwd)"
    unfolding spawn_line_def
    by (subst after_sub_first) (use assms(1) in \<open>simp_all add: SPAWN_MARKER_def head_def argv_text_def\<close>)
  moreover have "find_sub '' argc='' (program @ head @ '' cwd='' @ cwd) = Some (length program)"
    using find_sub_first [of "'' argc=''" program] assms(2) by (simp add: head_def)
  moreover have "rfind_sub '' cwd='' (head @ '' cwd='' @ cwd) = Some (length head)"
    by (rule rfind_sub_last) (use assms(3) in simp_all)
  moreover have "after_sub '' args='' head = Some argv_text"
  proof -
    have "find_sub '' args='' ('' argc='' @ dec (length argv) @ '' args'') = None"
      using spaces by (simp add: find_args_digits)
    then show ?thesis
      using after_sub_first [of "'' args=''" "'' argc='' @ dec (length argv)" argv_text] by (simp add: head_def)
  qed
  moreover have "parse_debug_str_list argv_text = Some (map utf8 argv)"
    using parse_debug_list [OF assms(4)] by (simp add: argv_text_def)
  ultimately show ?thesis
    by (simp add: parse_spawn_def strip_prefix_def del: find_sub.simps rfind_sub.simps)
qed

section \<open>The scan takes the first of each line\<close>

definition first_of :: "('a \<Rightarrow> 'b option) \<Rightarrow> 'a list \<Rightarrow> 'b option" where
  "first_of f xs = (case List.map_filter f xs of [] \<Rightarrow> None | y # _ \<Rightarrow> Some y)"

lemma first_of_snoc:
  "first_of f [] = None"
  "first_of f (xs @ [x]) = (case first_of f xs of Some y \<Rightarrow> Some y | None \<Rightarrow> f x)"
  by (auto simp: first_of_def map_filter_def split: list.split option.split)

definition log_entries :: "LogReaders \<Rightarrow> string \<Rightarrow> (int \<times> string) list" where
  "log_entries env text = List.map_filter (split_timestamp env) (lines_of [] text)"

definition scan_of :: "LogReaders \<Rightarrow> (int \<times> string) list \<Rightarrow> LogScan" where
  "scan_of env es =
     \<lparr>scan_start = first_of (\<lambda>(t, rest). parse_start t rest) es,
      scan_spawn = first_of (\<lambda>(t, rest). parse_spawn rest) es,
      scan_stopped = list_ex (\<lambda>(t, rest). contains_sub STOP_MARKER rest) es,
      scan_exit_code = first_of (\<lambda>(t, rest). parse_exit rest) es,
      scan_last_line_at = (if es = [] then None else Some (fst (last es))),
      scan_note_seen = list_ex (\<lambda>(t, rest). note_json rest \<noteq> None) es,
      scan_agent_note = Option.bind (first_of (\<lambda>(t, rest). note_json rest) es) (decode_note env)\<rparr>"

lemma first_of_None: "first_of f es = None \<longleftrightarrow> \<not> list_ex (\<lambda>e. f e \<noteq> None) es"
proof (induction es rule: rev_induct)
  case (snoc e es)
  then show ?case by (auto simp: first_of_snoc split: option.split)
qed (simp add: first_of_snoc)

lemma foldl_absorb: "foldl (\<lambda>s (t, rest). absorb env s t rest) empty_scan es = scan_of env es"
proof (induction es rule: rev_induct)
  case Nil
  then show ?case by (simp add: scan_of_def empty_scan_def first_of_snoc)
next
  case (snoc e es)
  obtain t rest where e: "e = (t, rest)" by fastforce
  have "list_ex (\<lambda>(t, rest). note_json rest \<noteq> None) es \<longleftrightarrow> first_of (\<lambda>(t, rest). note_json rest) es \<noteq> None"
    unfolding first_of_None by (simp add: case_prod_beta')
  with snoc.IH show ?case
    by (auto simp: e scan_of_def absorb_def Let_def first_of_snoc split: option.split)
qed

lemma foldl_lines:
  "foldl (\<lambda>s line. case split_timestamp env line of None \<Rightarrow> s | Some (t, rest) \<Rightarrow> absorb env s t rest) s ls =
     foldl (\<lambda>s (t, rest). absorb env s t rest) s (List.map_filter (split_timestamp env) ls)"
  by (induction ls arbitrary: s) (auto simp: map_filter_def split: option.split)

lemma parse_tracer_log_scan:
  "parse_tracer_log env text = finish_scan (scan_of env (log_entries env text))"
  by (simp add: parse_tracer_log_def foldl_lines foldl_absorb log_entries_def)

end
