(* ===== verification/History.thy ===== *)
theory History
  imports Tracer_Log Registry
begin

text \<open>
  The history of ended sessions (\<open>crates/daemon/src/history.rs\<close>): one file per session, written once
  when the session ends, by whichever end path comes first; the start-up pass over sessions lost
  without an end, the import of tracer logs, pruning, sealing, and the marks a recovery or a dismissal
  leaves. Times are nanoseconds.
\<close>

section \<open>Data\<close>

datatype SessionEnd = EndExited int | EndStoppedByUser | EndTracerLost | EndDaemonShutdown | EndUnknown

datatype HistorySource = FromRecord | FromTracerLog | FromUnknown

datatype PtyExit = PtyCode int | PtyTracerLost

record HistoryEntry =
  he_session_id :: string
  he_label :: string
  he_kind :: SessionKind
  he_mode :: SessionMode
  he_agent :: "string option"
  he_spawn_config :: "SpawnConfig option"
  he_members :: "SessionMember list"
  he_workspace_id :: "string option"
  he_primary_cwd :: "string option"
  he_current_cwd :: "string option"
  he_program_name :: "string option"
  he_started_at :: "int option"
  he_ended_at :: int
  he_end :: SessionEnd
  he_conversation_id :: "string option"
  he_source :: HistorySource
  he_recovered_at :: "int option"
  he_end_time_known :: bool
  he_import_rev :: nat
  he_busy_excluded :: bool
  he_options :: "OptionValues option"
  he_trusted :: bool

text \<open>The sidecar of a session no daemon watched any more, as far as the history reads it.\<close>

record OrphanMeta =
  meta_session_id :: string
  meta_label :: string
  meta_kind :: SessionKind
  meta_mode :: SessionMode
  meta_agent :: "string option"
  meta_spawn_config :: "SpawnConfig option"
  meta_members :: "SessionMember list"
  meta_workspace_id :: "string option"
  meta_current_cwd :: "string option"
  meta_program_name :: "string option"
  meta_started_at :: int
  meta_status_since :: "int option"
  meta_conversation_id :: "string option"
  meta_busy_excluded :: bool
  meta_ended_during_host_shutdown :: bool

record RepoEntry =
  repo_id :: string
  repo_name :: string
  repo_path :: string
  repo_is_git :: bool

record WorkspaceEntry =
  ws_id :: string
  ws_member_repo_ids :: "string list"

record Registered =
  repos :: "RepoEntry list"
  workspaces :: "WorkspaceEntry list"

definition NANOS :: int where "NANOS = 10 ^ 9"
definition HISTORY_RETENTION :: int where "HISTORY_RETENTION = 7 * 24 * 3600 * NANOS"
definition SHELL_IMPORT_REV :: nat where "SHELL_IMPORT_REV = 3"
definition SHELL_STEMS :: "string list" where
  "SHELL_STEMS = [''pwsh'', ''powershell'', ''cmd'', ''bash'', ''zsh'', ''sh'']"
definition STATUS_CONTROL_C_EXIT :: int where "STATUS_CONTROL_C_EXIT = - 1073741510"

text \<open>
  The directory by file stem, and the counter that wakes the watchers of the history. An entry's stem
  is its session id.
\<close>

record HistoryDir =
  history_files :: "string \<Rightarrow> HistoryEntry stored"
  history_changes :: nat

section \<open>Building entries\<close>

definition pty_exit_code :: "PtyExit \<Rightarrow> int" where
  "pty_exit_code exit = (case exit of PtyCode code \<Rightarrow> code | PtyTracerLost \<Rightarrow> - 1)"

definition end_for_exit :: "PtyExit \<Rightarrow> SessionEnd" where
  "end_for_exit exit = (case exit of PtyCode code \<Rightarrow> EndExited code | PtyTracerLost \<Rightarrow> EndTracerLost)"

definition start_folder :: "SessionMember list \<Rightarrow> SpawnConfig option \<Rightarrow> string option" where
  "start_folder members config =
     (case members of
        first # _ \<Rightarrow> Some (worktree_path first)
      | [] \<Rightarrow>
          (case map_option cfg_target config of
             Some (StandaloneTarget (Some cwd) _) \<Rightarrow> (let c = trim cwd in if c = [] then None else Some c)
           | _ \<Rightarrow> None))"

definition entry_from_record :: "SessionRecord \<Rightarrow> SessionEnd \<Rightarrow> int \<Rightarrow> HistoryEntry" where
  "entry_from_record r e ended_at =
     \<lparr>he_session_id = rec_id r, he_label = label r, he_kind = rec_kind r, he_mode = mode r,
      he_agent = wire_agent r, he_spawn_config = spawn_config r, he_members = rec_members r,
      he_workspace_id = rec_workspace_id r,
      he_primary_cwd = start_folder (rec_members r) (spawn_config r),
      he_current_cwd = current_cwd r, he_program_name = program_name r,
      he_started_at = Some (rec_started_at r), he_ended_at = ended_at, he_end = e,
      he_conversation_id = conversation_id r, he_source = FromRecord, he_recovered_at = None,
      he_end_time_known = True, he_import_rev = 0, he_busy_excluded = busy_excluded r,
      he_options = None, he_trusted = False\<rparr>"

definition entry_from_meta :: "OrphanMeta \<Rightarrow> SessionEnd \<Rightarrow> int \<Rightarrow> HistoryEntry" where
  "entry_from_meta m e ended_at =
     \<lparr>he_session_id = meta_session_id m, he_label = meta_label m, he_kind = meta_kind m,
      he_mode = meta_mode m, he_agent = meta_agent m, he_spawn_config = meta_spawn_config m,
      he_members = meta_members m, he_workspace_id = meta_workspace_id m,
      he_primary_cwd = start_folder (meta_members m) (meta_spawn_config m),
      he_current_cwd = meta_current_cwd m, he_program_name = meta_program_name m,
      he_started_at = Some (meta_started_at m), he_ended_at = ended_at, he_end = e,
      he_conversation_id = meta_conversation_id m, he_source = FromRecord, he_recovered_at = None,
      he_end_time_known = (e \<noteq> EndTracerLost), he_import_rev = 0,
      he_busy_excluded = meta_busy_excluded m, he_options = None, he_trusted = False\<rparr>"

section \<open>Files\<close>

text \<open>\<open>ok\<close>: the file operation of this call succeeds. A failed write leaves the file it would replace.\<close>

definition write_entry_to :: "bool \<Rightarrow> HistoryDir \<Rightarrow> string \<Rightarrow> HistoryEntry \<Rightarrow> HistoryDir" where
  "write_entry_to ok dir stem e =
     (if ok then dir\<lparr>history_files := (history_files dir)(stem := Decoded e),
                    history_changes := (history_changes dir + 1) mod 2 ^ 64\<rparr>
      else dir)"

definition write_entry :: "bool \<Rightarrow> HistoryDir \<Rightarrow> HistoryEntry \<Rightarrow> HistoryDir" where
  "write_entry ok dir e = write_entry_to ok dir (he_session_id e) e"

text \<open>\<open>None\<close> is the error; otherwise whether this call wrote the entry.\<close>

definition write_if_absent :: "bool \<Rightarrow> HistoryDir \<Rightarrow> HistoryEntry \<Rightarrow> bool option \<times> HistoryDir" where
  "write_if_absent ok dir e =
     (if history_files dir (he_session_id e) \<noteq> Missing then (Some False, dir)
      else (if ok then Some True else None, write_entry ok dir e))"

definition plain_id_char :: "char \<Rightarrow> bool" where
  "plain_id_char c =
     (let n = (of_char c :: nat)
      in 48 \<le> n \<and> n \<le> 57 \<or> 65 \<le> n \<and> n \<le> 90 \<or> 97 \<le> n \<and> n \<le> 122 \<or> n = 45 \<or> n = 95)"

definition is_plain_session_id :: "string \<Rightarrow> bool" where
  "is_plain_session_id s = (s \<noteq> [] \<and> list_all plain_id_char s)"

definition read_one :: "HistoryDir \<Rightarrow> string \<Rightarrow> HistoryEntry option" where
  "read_one dir sid =
     (if \<not> is_plain_session_id sid then None
      else case history_files dir sid of Decoded e \<Rightarrow> Some e | _ \<Rightarrow> None)"

text \<open>
  A scan lists the directory: \<open>stems\<close> are its files, in the order the system gives them.
\<close>

definition scan_entries :: "HistoryDir \<Rightarrow> string list \<Rightarrow> (string \<times> HistoryEntry) list" where
  "scan_entries dir stems =
     List.map_filter (\<lambda>stem. case history_files dir stem of Decoded e \<Rightarrow> Some (stem, e) | _ \<Rightarrow> None) stems"

definition read_all :: "HistoryDir \<Rightarrow> string list \<Rightarrow> HistoryEntry list" where
  "read_all dir stems = sort_key (\<lambda>e. - he_ended_at e) (map snd (scan_entries dir stems))"

definition mark_recovered :: "bool \<Rightarrow> HistoryDir \<Rightarrow> string \<Rightarrow> int \<Rightarrow> bool \<times> HistoryDir" where
  "mark_recovered ok dir sid t =
     (case history_files dir sid of
        Decoded e \<Rightarrow> (ok, write_entry ok dir (e\<lparr>he_recovered_at := Some t\<rparr>))
      | _ \<Rightarrow> (False, dir))"

text \<open>\<open>removable\<close>: the files whose removal succeeds.\<close>

definition prune :: "(string \<Rightarrow> bool) \<Rightarrow> string list \<Rightarrow> HistoryDir \<Rightarrow> int \<Rightarrow> int \<Rightarrow> nat \<times> HistoryDir" where
  "prune removable stems dir now max_age =
     foldl (\<lambda>(n, dir) (stem, e).
         if now - he_ended_at e \<le> max_age \<or> \<not> removable stem then (n, dir)
         else (n + 1, dir\<lparr>history_files := (history_files dir)(stem := Missing)\<rparr>))
       (0, dir) (scan_entries dir stems)"

text \<open>
  \<open>seal\<close> (\<open>env_secrets.rs\<close>, over the platform's credential store) gives the rows of an entry that
  had a literal secret.
\<close>

definition seal_history_secrets ::
    "((string \<times> string) list \<Rightarrow> (string \<times> string) list option) \<Rightarrow> (string \<Rightarrow> bool) \<Rightarrow> string list
      \<Rightarrow> HistoryDir \<Rightarrow> HistoryDir" where
  "seal_history_secrets seal writable stems dir =
     foldl (\<lambda>dir (stem, e).
         case he_spawn_config e of
           None \<Rightarrow> dir
         | Some cfg \<Rightarrow>
             (case seal (cfg_extra_env cfg) of
                None \<Rightarrow> dir
              | Some rows \<Rightarrow>
                  write_entry_to (writable stem) dir stem
                    (e\<lparr>he_spawn_config := Some (cfg\<lparr>cfg_extra_env := rows\<rparr>)\<rparr>)))
       dir (scan_entries dir stems)"

text \<open>A session gone from the registry, or a headless one, is not recorded.\<close>

definition record_session_end ::
    "bool \<Rightarrow> int \<Rightarrow> SessionRecord option \<Rightarrow> SessionEnd \<Rightarrow> HistoryDir \<Rightarrow> HistoryDir" where
  "record_session_end ok now r e dir =
     (case r of
        None \<Rightarrow> dir
      | Some r \<Rightarrow>
          if mode r = Headless then dir else snd (write_if_absent ok dir (entry_from_record r e now)))"

text \<open>Whether it rewrote the entry.\<close>

definition dismiss_start_up_loss :: "bool \<Rightarrow> HistoryDir \<Rightarrow> string \<Rightarrow> bool \<times> HistoryDir" where
  "dismiss_start_up_loss ok dir sid =
     (case read_one dir sid of
        None \<Rightarrow> (False, dir)
      | Some e \<Rightarrow>
          if he_end e = EndTracerLost \<and> \<not> he_end_time_known e \<and> he_source e = FromRecord \<and>
             he_recovered_at e = None
          then (ok, write_entry ok dir (e\<lparr>he_end := EndStoppedByUser\<rparr>))
          else (False, dir))"

section \<open>Sessions lost without an end\<close>

definition is_lost :: "TracerLogEnd \<Rightarrow> bool" where
  "is_lost e = (e = LogLost \<or> e = LogExited STATUS_CONTROL_C_EXIT)"

definition end_from_log :: "TracerLogEnd \<Rightarrow> SessionEnd" where
  "end_from_log e =
     (case e of LogStoppedByUser \<Rightarrow> EndStoppedByUser | LogExited code \<Rightarrow> EndExited code | LogLost \<Rightarrow> EndTracerLost)"

text \<open>The tracer logs and the sidecars' modified times, by session id.\<close>

record LossFiles =
  log_texts :: "string \<Rightarrow> string option"
  sidecar_modified :: "string \<Rightarrow> int option"

definition session_tracer_log :: "LogReaders \<Rightarrow> LossFiles \<Rightarrow> string \<Rightarrow> TracerLogSummary option" where
  "session_tracer_log env fs sid = Option.bind (log_texts fs sid) (parse_tracer_log env)"

definition latest :: "int option \<Rightarrow> int option \<Rightarrow> int option" where
  "latest a b = (case (a, b) of (Some x, Some y) \<Rightarrow> Some (max x y) | (None, _) \<Rightarrow> b | (_, None) \<Rightarrow> a)"

definition lost_entry :: "LogReaders \<Rightarrow> LossFiles \<Rightarrow> OrphanMeta \<Rightarrow> int \<Rightarrow> HistoryEntry" where
  "lost_entry env fs m now =
     (let log = (if meta_ended_during_host_shutdown m then None
                 else session_tracer_log env fs (meta_session_id m))
      in case log of
           Some s \<Rightarrow>
             if \<not> is_lost (sum_end s) then entry_from_meta m (end_from_log (sum_end s)) (sum_last_line_at s)
             else entry_from_meta m EndTracerLost
                    (the (latest (meta_status_since m) (Some (sum_last_line_at s))))
         | None \<Rightarrow>
             entry_from_meta m EndTracerLost
               (case meta_status_since m of
                  Some t \<Rightarrow> t
                | None \<Rightarrow> (case sidecar_modified fs (meta_session_id m) of Some t \<Rightarrow> t | None \<Rightarrow> now)))"

text \<open>The ids written as lost, in order.\<close>

definition record_lost_at_start ::
    "LogReaders \<Rightarrow> LossFiles \<Rightarrow> (string \<Rightarrow> bool) \<Rightarrow> OrphanMeta list \<Rightarrow> int \<Rightarrow> HistoryDir
      \<Rightarrow> string list \<times> HistoryDir" where
  "record_lost_at_start env fs writable dead now dir =
     foldl (\<lambda>(lost, dir) m.
         let e = lost_entry env fs m now
         in if HISTORY_RETENTION < now - he_ended_at e then (lost, dir)
            else (case write_if_absent (writable (meta_session_id m)) dir e of
                    (res, dir') \<Rightarrow>
                      (if res = Some True \<and> he_end e = EndTracerLost then lost @ [he_session_id e] else lost, dir')))
       ([], dir) (filter (\<lambda>m. meta_mode m \<noteq> Headless) dead)"

end
