(* ===== verification/History_Import.thy ===== *)
theory History_Import
  imports History
begin

text \<open>
  The import of sessions that ended before the daemon kept a history, from their tracers' logs
  (\<open>crates/daemon/src/history.rs\<close>): which files may be written, what a log says of its session, and
  the registered workspace or repo its folders are. The agents' plug-ins are trait objects: what each
  answers is a parameter.
\<close>

section \<open>Plug-ins and paths\<close>

record ImportedRun =
  run_program_name :: string
  run_extra_dirs :: "string list"
  run_options :: OptionValues
  run_trusted :: bool

text \<open>
  A plug-in's descriptor and answers: whether it recognises a run (program, arguments, folder), the
  options of a recovery (recorded options, trust), and the command a shell types to resume (options,
  conversation).
\<close>

record HistoryPlugin =
  hp_agent :: string
  hp_tag :: string
  hp_label :: string
  hp_cap_shell_resume :: bool
  hp_import_rev :: nat
  import_tracer_run :: "string \<Rightarrow> string list \<Rightarrow> string \<Rightarrow> ImportedRun option"
  recovery_options :: "OptionValues option \<Rightarrow> bool \<Rightarrow> (string, OptionValues) result"
  shell_resume :: "OptionValues \<Rightarrow> string \<Rightarrow> (string, string list option) result"

text \<open>
  \<open>lowercase\<close> is \<open>str::to_lowercase\<close>, \<open>plain_folder\<close> whether a path is an existing folder without
  \<open>.git\<close>, \<open>all_plugins\<close> the registered plug-ins in order, and \<open>default_agent\<close> the agent a plain shell
  is taken to have run.
\<close>

record HistoryEnv =
  readers :: LogReaders
  on_windows :: bool
  lowercase :: "string \<Rightarrow> string"
  plain_folder :: "string \<Rightarrow> bool"
  all_plugins :: "HistoryPlugin list"
  default_agent :: string

definition find_plugin :: "HistoryEnv \<Rightarrow> string \<Rightarrow> HistoryPlugin option" where
  "find_plugin env ag = List.find (\<lambda>pl. hp_agent pl = ag) (all_plugins env)"

definition path_separator :: "char \<Rightarrow> bool" where
  "path_separator c = (c = CHR ''/'' \<or> c = BACKSLASH)"

definition normalize_path_key :: "HistoryEnv \<Rightarrow> string \<Rightarrow> string" where
  "normalize_path_key env p =
     (let trimmed = rev (dropWhile path_separator (rev p))
      in if on_windows env then map (\<lambda>c. if c = BACKSLASH then CHR ''/'' else c) (lowercase env trimmed)
         else trimmed)"

text \<open>The part after the last separator, without its extension (\<open>Path::file_stem\<close>).\<close>

definition program_stem :: "HistoryEnv \<Rightarrow> string \<Rightarrow> string option" where
  "program_stem env program =
     (let leaf = rev (takeWhile (\<lambda>c. \<not> path_separator c) (rev program))
      in if leaf \<in> {'''', ''.'', ''..''} then None
         else let stem = lowercase env (case rfind_sub ''.'' leaf of
                            None \<Rightarrow> leaf | Some 0 \<Rightarrow> leaf | Some (Suc i) \<Rightarrow> take (Suc i) leaf)
              in if stem = [] then None else Some stem)"

section \<open>Where a session ran\<close>

definition repo_at :: "HistoryEnv \<Rightarrow> RepoEntry list \<Rightarrow> string \<Rightarrow> RepoEntry option" where
  "repo_at env rs path = List.find (\<lambda>r. normalize_path_key env (repo_path r) = normalize_path_key env path) rs"

text \<open>The members' path keys, if every member is registered.\<close>

fun member_keys :: "HistoryEnv \<Rightarrow> RepoEntry list \<Rightarrow> string list \<Rightarrow> string list option" where
  "member_keys env rs [] = Some []"
| "member_keys env rs (rid # ids) =
     (case List.find (\<lambda>r. repo_id r = rid) rs of
        None \<Rightarrow> None
      | Some r \<Rightarrow> map_option (Cons (normalize_path_key env (repo_path r))) (member_keys env rs ids))"

text \<open>Two lists of keys are equal once sorted: they hold the same keys as often.\<close>

definition same_keys :: "string list \<Rightarrow> string list \<Rightarrow> bool" where
  "same_keys xs ys = (mset xs = mset ys)"

definition ws_matches :: "HistoryEnv \<Rightarrow> Registered \<Rightarrow> string \<Rightarrow> string list \<Rightarrow> WorkspaceEntry \<Rightarrow> bool" where
  "ws_matches env reg cwd add_dirs ws =
     (case member_keys env (repos reg) (ws_member_repo_ids ws) of
        Some (first # rest) \<Rightarrow>
          first = normalize_path_key env cwd \<and> same_keys rest (map (normalize_path_key env) add_dirs)
      | _ \<Rightarrow> False)"

definition match_target ::
    "HistoryEnv \<Rightarrow> string \<Rightarrow> string list \<Rightarrow> Registered \<Rightarrow> SessionKind \<times> string option" where
  "match_target env cwd add_dirs reg =
     (case List.find (ws_matches env reg cwd add_dirs) (workspaces reg) of
        Some ws \<Rightarrow> (Workspace, Some (ws_id ws))
      | None \<Rightarrow>
          if add_dirs = [] \<and> repo_at env (repos reg) cwd \<noteq> None then (Single, None)
          else (Standalone, None))"

definition folder_members :: "HistoryEnv \<Rightarrow> string \<Rightarrow> string list \<Rightarrow> RepoEntry list \<Rightarrow> SessionMember list" where
  "folder_members env cwd add_dirs rs =
     map (\<lambda>path.
       let r = repo_at env rs path
       in \<lparr>member_repo_id = (case r of None \<Rightarrow> [] | Some r \<Rightarrow> repo_id r),
           member_repo_name = (case r of None \<Rightarrow> [] | Some r \<Rightarrow> repo_name r),
           member_branch = [], worktree_path = path\<rparr>) (cwd # add_dirs)"

section \<open>The entry a log describes\<close>

record ImportEnd =
  imp_at :: int
  imp_known :: bool

definition shell_entry :: "string \<Rightarrow> TracerLogSummary \<Rightarrow> ImportEnd \<Rightarrow> HistoryEntry" where
  "shell_entry sid s e =
     \<lparr>he_session_id = sid, he_label = [], he_kind = Standalone, he_mode = PlainShell, he_agent = None,
      he_spawn_config = None, he_members = [], he_workspace_id = None,
      he_primary_cwd = Some (sum_cwd s), he_current_cwd = Some (sum_cwd s), he_program_name = None,
      he_started_at = Some (sum_started_at s), he_ended_at = imp_at e, he_end = end_from_log (sum_end s),
      he_conversation_id = None, he_source = FromTracerLog, he_recovered_at = None,
      he_end_time_known = imp_known e, he_import_rev = SHELL_IMPORT_REV, he_busy_excluded = False,
      he_options = None, he_trusted = False\<rparr>"

text \<open>The fields an agent's run sets over the shell's entry.\<close>

definition agent_entry ::
    "HistoryEnv \<Rightarrow> Registered \<Rightarrow> HistoryPlugin \<Rightarrow> string list \<Rightarrow> string \<Rightarrow> OptionValues \<Rightarrow> bool
      \<Rightarrow> string option \<Rightarrow> HistoryEntry \<Rightarrow> HistoryEntry" where
  "agent_entry env reg pl extra_dirs program options trusted conversation e =
     (let cwd = (case he_primary_cwd e of None \<Rightarrow> [] | Some c \<Rightarrow> c);
          target = match_target env cwd extra_dirs reg
      in e\<lparr>he_kind := fst target, he_mode := Interactive, he_agent := Some (hp_agent pl),
           he_members := folder_members env cwd extra_dirs (repos reg), he_workspace_id := snd target,
           he_current_cwd := None, he_program_name := Some program, he_import_rev := hp_import_rev pl,
           he_options := Some options, he_trusted := trusted, he_conversation_id := conversation\<rparr>)"

definition entry_from_agent_note ::
    "HistoryEnv \<Rightarrow> AgentNote \<Rightarrow> HistoryPlugin \<Rightarrow> HistoryEntry \<Rightarrow> Registered \<Rightarrow> HistoryEntry" where
  "entry_from_agent_note env note pl shell reg =
     agent_entry env reg pl (note_extra_dirs note) (hp_tag pl) (note_options note) (note_trusted note)
       (note_conversation_id note) shell"

fun first_recognised ::
    "HistoryPlugin list \<Rightarrow> string \<Rightarrow> string list \<Rightarrow> string \<Rightarrow> (HistoryPlugin \<times> ImportedRun) option" where
  "first_recognised [] program args cwd = None"
| "first_recognised (pl # pls) program args cwd =
     (case import_tracer_run pl program args cwd of
        Some run \<Rightarrow> Some (pl, run)
      | None \<Rightarrow> first_recognised pls program args cwd)"

definition entry_by_program ::
    "HistoryEnv \<Rightarrow> TracerLogSummary \<Rightarrow> HistoryEntry \<Rightarrow> Registered \<Rightarrow> HistoryEntry option" where
  "entry_by_program env s shell reg =
     (case first_recognised (all_plugins env) (sum_program s) (sum_args s) (sum_cwd s) of
        Some (pl, run) \<Rightarrow>
          Some (agent_entry env reg pl (run_extra_dirs run) (run_program_name run) (run_options run)
                  (run_trusted run) None shell)
      | None \<Rightarrow>
          (case program_stem env (sum_program s) of
             None \<Rightarrow> None
           | Some stem \<Rightarrow> if stem \<in> set SHELL_STEMS then Some (shell\<lparr>he_program_name := Some stem\<rparr>) else None))"

definition entry_from_tracer_log ::
    "HistoryEnv \<Rightarrow> string \<Rightarrow> TracerLogSummary \<Rightarrow> ImportEnd \<Rightarrow> Registered \<Rightarrow> HistoryEntry option" where
  "entry_from_tracer_log env sid s e reg =
     (let shell = shell_entry sid s e
      in case sum_agent_note s of
           Some note \<Rightarrow>
             (case find_plugin env (note_agent note) of
                Some pl \<Rightarrow> Some (entry_from_agent_note env note pl shell reg)
              | None \<Rightarrow> entry_by_program env s shell reg)
         | None \<Rightarrow> entry_by_program env s shell reg)"

section \<open>What may be written\<close>

definition current_import_rev :: "HistoryEnv \<Rightarrow> HistoryEntry \<Rightarrow> nat option" where
  "current_import_rev env e =
     (case he_agent e of
        None \<Rightarrow> Some SHELL_IMPORT_REV
      | Some ag \<Rightarrow> map_option hp_import_rev (find_plugin env ag))"

definition is_importable :: "HistoryEnv \<Rightarrow> HistoryEntry stored \<Rightarrow> bool" where
  "is_importable env file =
     (case file of
        Missing \<Rightarrow> True
      | Unreadable \<Rightarrow> False
      | Decoded e \<Rightarrow>
          he_source e = FromTracerLog \<and> he_recovered_at e = None \<and>
          (case current_import_rev env e of None \<Rightarrow> False | Some current \<Rightarrow> he_import_rev e < current))"

definition write_import :: "HistoryEnv \<Rightarrow> bool \<Rightarrow> HistoryDir \<Rightarrow> HistoryEntry \<Rightarrow> bool option \<times> HistoryDir" where
  "write_import env ok dir e =
     (if \<not> is_importable env (history_files dir (he_session_id e)) then (Some False, dir)
      else (if ok then Some True else None, write_entry ok dir e))"

section \<open>The import\<close>

text \<open>One file of the log folder: its name, its modified time and its text, where they can be read.\<close>

record LogFile =
  log_name :: string
  log_modified :: "int option"
  log_text :: "string option"

definition tracer_log_id :: "string \<Rightarrow> string option" where
  "tracer_log_id name =
     (case Option.bind (strip_prefix ''tracer-'' name) (strip_suffix ''.log'') of
        None \<Rightarrow> None
      | Some sid \<Rightarrow> if is_plain_session_id sid then Some sid else None)"

definition read_recent_tracer_log :: "HistoryEnv \<Rightarrow> LogFile \<Rightarrow> int \<Rightarrow> (int \<times> TracerLogSummary) option" where
  "read_recent_tracer_log env f now =
     (case log_modified f of
        None \<Rightarrow> None
      | Some modified \<Rightarrow>
          if HISTORY_RETENTION < now - modified then None
          else (case Option.bind (log_text f) (parse_tracer_log (readers env)) of
                  None \<Rightarrow> None | Some s \<Rightarrow> Some (modified, s)))"

text \<open>The earliest end each session has in the daemon's logs that can be read.\<close>

definition daemon_end_times :: "HistoryEnv \<Rightarrow> string list \<Rightarrow> (string \<rightharpoonup> int)" where
  "daemon_end_times env texts =
     foldl (\<lambda>merged text. \<lambda>sid.
         case (merged sid, session_end_times (readers env) text sid) of
           (Some a, Some b) \<Rightarrow> Some (min a b) | (None, b) \<Rightarrow> b | (a, None) \<Rightarrow> a)
       Map.empty texts"

definition import_one ::
    "HistoryEnv \<Rightarrow> Registered \<Rightarrow> string set \<Rightarrow> (string \<rightharpoonup> int) \<Rightarrow> int \<Rightarrow> (string \<Rightarrow> bool)
      \<Rightarrow> nat \<times> HistoryDir \<Rightarrow> LogFile \<Rightarrow> nat \<times> HistoryDir" where
  "import_one env reg skip ends now writable acc f =
     (case (acc, tracer_log_id (log_name f)) of
        ((n, dir), Some sid) \<Rightarrow>
          if sid \<in> skip \<or> \<not> is_importable env (history_files dir sid) then acc
          else (case read_recent_tracer_log env f now of
                  None \<Rightarrow> acc
                | Some (modified, s) \<Rightarrow>
                    (let e = (case ends sid of Some t \<Rightarrow> \<lparr>imp_at = t, imp_known = True\<rparr>
                              | None \<Rightarrow> \<lparr>imp_at = modified, imp_known = False\<rparr>)
                     in case entry_from_tracer_log env sid s e reg of
                          None \<Rightarrow> acc
                        | Some entry \<Rightarrow>
                            (case write_import env (writable sid) dir entry of
                               (res, dir') \<Rightarrow> (if res = Some True then n + 1 else n, dir'))))
      | (_, None) \<Rightarrow> acc)"

definition import_tracer_logs ::
    "HistoryEnv \<Rightarrow> Registered \<Rightarrow> string set \<Rightarrow> string list \<Rightarrow> LogFile list \<Rightarrow> int \<Rightarrow> (string \<Rightarrow> bool)
      \<Rightarrow> HistoryDir \<Rightarrow> nat \<times> HistoryDir" where
  "import_tracer_logs env reg skip daemon_logs files now writable dir =
     foldl (import_one env reg skip (daemon_end_times env daemon_logs) now writable) (0, dir) files"

end
