(* ===== verification/Discovery.thy ===== *)
theory Discovery
  imports Hooks History_Import
    "HOL-Library.List_Lexorder" "HOL-Library.Char_ord" "HOL-Library.Product_Lexorder" "HOL-Library.Multiset"
begin

text \<open>
  Finding the conversation of a session whose agent names it only after its launch
  (\<open>crates/daemon/src/conversations/discovery.rs\<close>): the waiting sessions, the arbitration of the
  conversations a folder holds, one lookup (\<open>pass\<close>) with its claims and contests, a session's final
  look, and the store of contested ids (\<open>contested.rs\<close>). What an agent's plug-in finds is a
  parameter. Times are nanoseconds.
\<close>

section \<open>Waiters\<close>

record FoundConversation =
  found_id :: string
  last_active :: int

record Waiter =
  w_session_id :: string
  w_agent :: string
  w_folder :: string
  w_folder_key :: string
  w_baseline :: "string list"
  launched_at :: int
  w_rows :: "(string \<times> string) list"
  generation :: nat

record Baseline =
  bl_ids :: "string list"
  bl_agent :: string
  bl_rows :: "(string \<times> string) list"
  bl_folder :: string
  bl_launched_at :: int

text \<open>\<open>gen\<close> is what the process-wide counter gives.\<close>

definition new_waiter :: "HistoryEnv \<Rightarrow> nat \<Rightarrow> string \<Rightarrow> Baseline \<Rightarrow> Waiter" where
  "new_waiter env gen sid b =
     \<lparr>w_session_id = sid, w_agent = bl_agent b, w_folder = bl_folder b,
      w_folder_key = normalize_path_key env (bl_folder b), w_baseline = bl_ids b,
      launched_at = bl_launched_at b, w_rows = bl_rows b, generation = gen\<rparr>"

definition may_claim :: "Waiter \<Rightarrow> FoundConversation \<Rightarrow> bool" where
  "may_claim w c = (found_id c \<notin> set (w_baseline w) \<and> launched_at w \<le> last_active c)"

text \<open>The waiters by session id, in no order of meaning.\<close>

definition register_waiter :: "Waiter \<Rightarrow> Waiter list \<Rightarrow> Waiter list" where
  "register_waiter w ws = w # filter (\<lambda>v. w_session_id v \<noteq> w_session_id w) ws"

definition deregister_waiter :: "string \<Rightarrow> Waiter list \<Rightarrow> Waiter option \<times> Waiter list" where
  "deregister_waiter sid ws =
     (List.find (\<lambda>v. w_session_id v = sid) ws, filter (\<lambda>v. w_session_id v \<noteq> sid) ws)"

definition waiter_of :: "Waiter list \<Rightarrow> string \<Rightarrow> Waiter option" where
  "waiter_of ws sid = List.find (\<lambda>v. w_session_id v = sid) ws"

section \<open>Arbitration\<close>

record Excluded =
  ex_held :: "string list"
  ex_recent :: "string list"
  ex_contested :: "string list"

definition excludes :: "Excluded \<Rightarrow> string \<Rightarrow> bool" where
  "excludes ex i = (i \<in> set (ex_held ex) \<or> i \<in> set (ex_recent ex) \<or> i \<in> set (ex_contested ex))"

datatype ArbOutcome = ClaimBy string string | Contest string

text \<open>The derived order: claims first, by session and id.\<close>

fun outcome_key :: "ArbOutcome \<Rightarrow> nat \<times> string \<times> string" where
  "outcome_key (ClaimBy sid i) = (0, sid, i)"
| "outcome_key (Contest i) = (1, i, [])"

lemma outcome_key_inject: "outcome_key a = outcome_key b \<longleftrightarrow> a = b"
  by (cases a; cases b) auto

instantiation ArbOutcome :: linorder
begin

definition less_eq_ArbOutcome :: "ArbOutcome \<Rightarrow> ArbOutcome \<Rightarrow> bool" where
  "a \<le> b \<longleftrightarrow> outcome_key a \<le> outcome_key b"

definition less_ArbOutcome :: "ArbOutcome \<Rightarrow> ArbOutcome \<Rightarrow> bool" where
  "a < b \<longleftrightarrow> outcome_key a < outcome_key b"

instance
  by standard (auto simp: less_eq_ArbOutcome_def less_ArbOutcome_def outcome_key_inject less_le_not_le)

end

definition newer :: "FoundConversation \<Rightarrow> FoundConversation \<Rightarrow> bool" where
  "newer a b = ((last_active b, found_id b) < (last_active a, found_id a))"

definition eligible :: "Waiter \<Rightarrow> Waiter list \<Rightarrow> FoundConversation \<Rightarrow> Waiter list" where
  "eligible scope ws c =
     filter (\<lambda>w. w_agent w = w_agent scope \<and> w_folder_key w = w_folder_key scope \<and> may_claim w c) ws"

text \<open>The best conversation of each session that alone is eligible for it.\<close>

fun note_sole :: "(string \<times> FoundConversation) list \<Rightarrow> string \<Rightarrow> FoundConversation
    \<Rightarrow> (string \<times> FoundConversation) list" where
  "note_sole [] sid c = [(sid, c)]"
| "note_sole ((t, best) # m) sid c =
     (if t = sid then (t, if newer c best then c else best) # m else (t, best) # note_sole m sid c)"

definition arbitrate_one ::
    "Waiter \<Rightarrow> Waiter list \<Rightarrow> Excluded \<Rightarrow> (string \<times> FoundConversation) list \<times> ArbOutcome list
      \<Rightarrow> FoundConversation \<Rightarrow> (string \<times> FoundConversation) list \<times> ArbOutcome list" where
  "arbitrate_one scope ws ex acc c =
     (case acc of (sole, outs) \<Rightarrow>
        if excludes ex (found_id c) then (sole, outs)
        else (case eligible scope ws c of
                [] \<Rightarrow> (sole, outs)
              | [only] \<Rightarrow> (note_sole sole (w_session_id only) c, outs)
              | _ \<Rightarrow> (sole, outs @ [Contest (found_id c)])))"

definition arbitrate :: "Waiter \<Rightarrow> FoundConversation list \<Rightarrow> Waiter list \<Rightarrow> Excluded \<Rightarrow> ArbOutcome list" where
  "arbitrate scope found ws ex =
     (case foldl (arbitrate_one scope ws ex) ([], []) found of
        (sole, outs) \<Rightarrow> remdups_adj (sort (outs @ map (\<lambda>(sid, c). ClaimBy sid (found_id c)) sole)))"

section \<open>The contested store\<close>

record ContestedEntry =
  contested_id :: string
  contested_at :: int

datatype ContestedFile = NoFile | CannotRead | Garbled | Entries "ContestedEntry list"

definition CONTESTED_RETENTION :: int where "CONTESTED_RETENTION = 7 * 24 * 3600 * NANOS"

text \<open>The files by agent; \<open>None\<close> is the error. An agent id that is no plain id has no file.\<close>

definition load_contested :: "(string \<Rightarrow> ContestedFile) \<Rightarrow> string \<Rightarrow> int \<Rightarrow> ContestedEntry list option" where
  "load_contested files ag now =
     (if \<not> is_plain_id ag then None
      else (case files ag of
              NoFile \<Rightarrow> Some []
            | CannotRead \<Rightarrow> None
            | Garbled \<Rightarrow> Some []
            | Entries es \<Rightarrow> Some (filter (\<lambda>e. now - contested_at e \<le> CONTESTED_RETENTION) es)))"

definition read_contested :: "(string \<Rightarrow> ContestedFile) \<Rightarrow> string \<Rightarrow> int \<Rightarrow> string list" where
  "read_contested files ag now =
     (case load_contested files ag now of None \<Rightarrow> [] | Some es \<Rightarrow> map contested_id es)"

definition add_contested ::
    "bool \<Rightarrow> (string \<Rightarrow> ContestedFile) \<Rightarrow> string \<Rightarrow> string \<Rightarrow> int \<Rightarrow> (string \<Rightarrow> ContestedFile)" where
  "add_contested ok files ag i now =
     (case load_contested files ag now of
        None \<Rightarrow> files
      | Some es \<Rightarrow>
          if \<not> ok then files
          else files(ag := Entries (if list_ex (\<lambda>e. contested_id e = i) es then es
                                    else es @ [\<lparr>contested_id = i, contested_at = now\<rparr>])))"

section \<open>Claims\<close>

text \<open>The registry, the waiters and the contested files a lookup works on.\<close>

record Discovering =
  disc_reg :: Registry
  waiters :: "Waiter list"
  contested_files :: "string \<Rightarrow> ContestedFile"

definition recent_history_ids :: "HistoryEntry list \<Rightarrow> int \<Rightarrow> string list" where
  "recent_history_ids es now =
     List.map_filter he_conversation_id (filter (\<lambda>e. now - he_ended_at e \<le> HISTORY_RETENTION) es)"

definition claim_write :: "string \<Rightarrow> SessionRecord \<Rightarrow> bool \<times> SessionRecord" where
  "claim_write i r =
     (if conversation_id r \<noteq> None then (False, r) else (True, r\<lparr>conversation_id := Some i\<rparr>))"

text \<open>Whether \<open>i\<close> was written comes first; \<open>d\<close> is the disk as this claim meets it.\<close>

definition claim ::
    "Disk \<Rightarrow> (string \<Rightarrow> bool) \<Rightarrow> int \<Rightarrow> string \<Rightarrow> string \<Rightarrow> bool \<Rightarrow> Discovering
      \<Rightarrow> bool \<times> SessionEvent list \<times> Discovering" where
  "claim d due now sid i even_if_deregistered s =
     (case deregister_waiter sid (waiters s) of
        (gone, ws) \<Rightarrow>
          let s1 = s\<lparr>waiters := ws\<rparr>
          in if gone = None \<and> \<not> even_if_deregistered then (False, [], s1)
             else let claimed = (case by_id (disc_reg s1) sid of
                                   None \<Rightarrow> False | Some r \<Rightarrow> fst (claim_write i r))
                  in (case update_if_changed d due now (disc_reg s1) sid (claim_write i) of
                        (_, evs, rg) \<Rightarrow> (claimed, evs, s1\<lparr>disc_reg := rg\<rparr>)))"

definition has_no_id :: "Registry \<Rightarrow> string \<Rightarrow> bool" where
  "has_no_id rg sid = (case by_id rg sid of None \<Rightarrow> False | Some r \<Rightarrow> conversation_id r = None)"

text \<open>\<open>listed\<close> are the registry's sessions.\<close>

definition held_ids :: "string list \<Rightarrow> Registry \<Rightarrow> string list" where
  "held_ids listed rg = List.map_filter (\<lambda>sid. Option.bind (by_id rg sid) conversation_id) listed"

datatype PassBy = Poller | FinalLook

text \<open>What a plug-in finds for a folder, a window and the rows; an id that is not plain is dropped.\<close>

type_synonym Finder = "string \<Rightarrow> string \<Rightarrow> int \<times> int \<Rightarrow> (string \<times> string) list \<Rightarrow> FoundConversation list"

definition plain_ids :: "FoundConversation list \<Rightarrow> FoundConversation list" where
  "plain_ids found = filter (\<lambda>c. is_plain_id (found_id c)) found"

definition conversation_candidates :: "Finder \<Rightarrow> string \<Rightarrow> string \<Rightarrow> int \<times> int \<Rightarrow> (string \<times> string) list \<Rightarrow> FoundConversation list" where
  "conversation_candidates finder ag folder window rows = plain_ids (finder ag folder window rows)"

text \<open>
  \<open>disks\<close> is the disk each session's sidecar meets, \<open>storable\<close> the contested ids whose store can be
  written.
\<close>

definition apply_outcome ::
    "(string \<Rightarrow> Disk) \<Rightarrow> (string \<Rightarrow> bool) \<Rightarrow> (string \<Rightarrow> bool) \<Rightarrow> int \<Rightarrow> Waiter \<Rightarrow> bool
      \<Rightarrow> SessionEvent list \<times> Discovering \<Rightarrow> ArbOutcome \<Rightarrow> SessionEvent list \<times> Discovering" where
  "apply_outcome disks storable due now w final_look acc out =
     (case acc of (evs, s) \<Rightarrow>
        (case out of
           ClaimBy sid i \<Rightarrow>
             (case claim (disks sid) due now sid i (final_look \<and> sid = w_session_id w) s of
                (_, evs', s') \<Rightarrow> (evs @ evs', s'))
         | Contest i \<Rightarrow>
             (evs, s\<lparr>contested_files := add_contested (storable i) (contested_files s) (w_agent w) i now\<rparr>)))"

definition pass_excluded :: "string list \<Rightarrow> HistoryEntry list \<Rightarrow> int \<Rightarrow> Waiter \<Rightarrow> Discovering \<Rightarrow> Excluded" where
  "pass_excluded listed entries now w s =
     \<lparr>ex_held = held_ids listed (disc_reg s), ex_recent = recent_history_ids entries now,
      ex_contested = read_contested (contested_files s) (w_agent w) now\<rparr>"

definition pass_waiters :: "Waiter \<Rightarrow> PassBy \<Rightarrow> Discovering \<Rightarrow> Waiter list" where
  "pass_waiters w by s =
     (let ws = waiters s;
          ws1 = (if by = FinalLook \<and> \<not> list_ex (\<lambda>v. w_session_id v = w_session_id w) ws then ws @ [w] else ws)
      in filter (\<lambda>v. has_no_id (disc_reg s) (w_session_id v)) ws1)"

definition pass ::
    "Finder \<Rightarrow> (string \<Rightarrow> Disk) \<Rightarrow> (string \<Rightarrow> bool) \<Rightarrow> (string \<Rightarrow> bool) \<Rightarrow> string list \<Rightarrow> HistoryEntry list
      \<Rightarrow> int \<Rightarrow> Waiter \<Rightarrow> PassBy \<Rightarrow> Discovering \<Rightarrow> SessionEvent list \<times> Discovering" where
  "pass finder disks storable due listed entries now w by s =
     (let found = conversation_candidates finder (w_agent w) (w_folder w) (launched_at w, now) (w_rows w)
      in if found = [] then ([], s)
         else foldl (apply_outcome disks storable due now w (by = FinalLook)) ([], s)
                (arbitrate w found (pass_waiters w by s) (pass_excluded listed entries now w s)))"

text \<open>A lookup that panics gives the session no id; either way it stops waiting.\<close>

definition final_look ::
    "Finder \<Rightarrow> (string \<Rightarrow> Disk) \<Rightarrow> (string \<Rightarrow> bool) \<Rightarrow> (string \<Rightarrow> bool) \<Rightarrow> string list \<Rightarrow> HistoryEntry list
      \<Rightarrow> int \<Rightarrow> string \<Rightarrow> Discovering \<Rightarrow> SessionEvent list \<times> Discovering" where
  "final_look finder disks storable due listed entries now sid s =
     (case waiter_of (waiters s) sid of
        None \<Rightarrow> ([], s)
      | Some w \<Rightarrow>
          (case (if has_no_id (disc_reg s) sid
                 then pass finder disks storable due listed entries now w FinalLook s else ([], s)) of
             (evs, s1) \<Rightarrow> (evs, s1\<lparr>waiters := snd (deregister_waiter sid (waiters s1))\<rparr>)))"

section \<open>The poller\<close>

text \<open>Durations in seconds.\<close>

definition poll_interval :: "int \<Rightarrow> int" where
  "poll_interval elapsed = (if elapsed < 300 then 2 else if elapsed < 3600 then 10 else 60)"

definition stop_reason :: "Registry \<Rightarrow> string \<Rightarrow> string option" where
  "stop_reason rg sid =
     (case by_id rg sid of
        None \<Rightarrow> Some ''the session was removed''
      | Some r \<Rightarrow>
          if status r \<in> {Stopped, Error} then Some ''the session ended''
          else if conversation_id r \<noteq> None then Some ''the session has a conversation id''
          else None)"

text \<open>One tick of the poller of a waiter's generation: whether it goes on.\<close>

definition poll_tick ::
    "Finder \<Rightarrow> (string \<Rightarrow> Disk) \<Rightarrow> (string \<Rightarrow> bool) \<Rightarrow> (string \<Rightarrow> bool) \<Rightarrow> string list \<Rightarrow> HistoryEntry list
      \<Rightarrow> int \<Rightarrow> string \<Rightarrow> nat option \<Rightarrow> Discovering \<Rightarrow> bool \<times> SessionEvent list \<times> Discovering" where
  "poll_tick finder disks storable due listed entries now sid gen s =
     (case waiter_of (waiters s) sid of
        None \<Rightarrow> (False, [], s)
      | Some w \<Rightarrow>
          if Some (generation w) \<noteq> gen then (False, [], s)
          else if stop_reason (disc_reg s) sid \<noteq> None
            then (False, [], s\<lparr>waiters := snd (deregister_waiter sid (waiters s))\<rparr>)
          else (case pass finder disks storable due listed entries now w Poller s of
                  (evs, s') \<Rightarrow> (True, evs, s')))"

definition PROMOTION_SLACK :: int where "PROMOTION_SLACK = 10 * NANOS"

definition promotion_baseline ::
    "string \<Rightarrow> (string \<times> string) list \<Rightarrow> string \<Rightarrow> int \<Rightarrow> string option \<Rightarrow> Baseline" where
  "promotion_baseline ag rows folder shown_at previous =
     \<lparr>bl_ids = (case previous of None \<Rightarrow> [] | Some i \<Rightarrow> [i]), bl_agent = ag, bl_rows = rows,
      bl_folder = folder, bl_launched_at = shown_at - PROMOTION_SLACK\<rparr>"

text \<open>
  \<open>lookup_rows\<close> resolves the stored rows, over the user's environment; \<open>dirs\<close>: the registry has
  directories. The waiter's generation is what its poller is started for.
\<close>

definition watch_promoted_shell ::
    "HistoryEnv \<Rightarrow> bool \<Rightarrow> ((string \<times> string) list \<Rightarrow> (string \<times> string) list) \<Rightarrow> nat \<Rightarrow> string \<Rightarrow> int \<Rightarrow> string option
      \<Rightarrow> Discovering \<Rightarrow> Discovering" where
  "watch_promoted_shell env dirs lookup_rows gen sid shown_at previous s =
     (case by_id (disc_reg s) sid of
        None \<Rightarrow> s
      | Some r \<Rightarrow>
          if conversation_id r \<noteq> None then s
          else let folder = (case current_cwd r of
                               Some cwd \<Rightarrow> if trim cwd = [] then start_folder (rec_members r) (spawn_config r) else Some cwd
                             | None \<Rightarrow> start_folder (rec_members r) (spawn_config r));
                   rows = (case spawn_config r of None \<Rightarrow> [] | Some cfg \<Rightarrow> cfg_extra_env cfg)
               in (case folder of
                     None \<Rightarrow> s
                   | Some f \<Rightarrow>
                       if find_plugin env (agent r) = None \<or> \<not> dirs then s
                       else s\<lparr>waiters := register_waiter
                              (new_waiter env gen sid
                                 (promotion_baseline (agent r) (lookup_rows rows) f shown_at previous))
                              (waiters s)\<rparr>))"

section \<open>What arbitration decides\<close>

definition newest_key :: "FoundConversation \<Rightarrow> int \<times> string" where
  "newest_key c = (last_active c, found_id c)"

lemma newer_key: "newer a b \<longleftrightarrow> newest_key b < newest_key a"
  by (simp add: newer_def newest_key_def)

text \<open>The session that alone is eligible for a conversation nobody is barred from.\<close>

definition sole_for :: "Waiter \<Rightarrow> Waiter list \<Rightarrow> Excluded \<Rightarrow> string \<Rightarrow> FoundConversation \<Rightarrow> bool" where
  "sole_for scope ws ex sid c \<longleftrightarrow>
     \<not> excludes ex (found_id c) \<and> (\<exists>w. eligible scope ws c = [w] \<and> w_session_id w = sid)"

definition contested_for :: "Waiter \<Rightarrow> Waiter list \<Rightarrow> Excluded \<Rightarrow> FoundConversation \<Rightarrow> bool" where
  "contested_for scope ws ex c \<longleftrightarrow> \<not> excludes ex (found_id c) \<and> 2 \<le> length (eligible scope ws c)"

text \<open>
  The specification: every conversation two or more waiters may claim is contested, and a session
  claims the newest of those it alone may claim.
\<close>

definition arb_spec :: "Waiter \<Rightarrow> FoundConversation list \<Rightarrow> Waiter list \<Rightarrow> Excluded \<Rightarrow> ArbOutcome set" where
  "arb_spec scope found ws ex =
     {Contest (found_id c) | c. c \<in> set found \<and> contested_for scope ws ex c} \<union>
     {ClaimBy sid (found_id c) | sid c. c \<in> set found \<and> sole_for scope ws ex sid c \<and>
        (\<forall>c' \<in> set found. sole_for scope ws ex sid c' \<longrightarrow> \<not> newer c' c)}"

lemma map_of_note_sole:
  "map_of (note_sole m sid c) t =
     (if t = sid then Some (case map_of m sid of None \<Rightarrow> c | Some b \<Rightarrow> if newer c b then c else b)
      else map_of m t)"
  by (induction m sid c rule: note_sole.induct) auto

lemma fst_note_sole: "set (map fst (note_sole m sid c)) = insert sid (set (map fst m))"
  by (induction m sid c rule: note_sole.induct) auto

lemma distinct_note_sole: "distinct (map fst m) \<Longrightarrow> distinct (map fst (note_sole m sid c))"
proof (induction m sid c rule: note_sole.induct)
  case (2 t best m sid c)
  then show ?case using fst_note_sole [of m sid c] by auto
qed simp

text \<open>What holds of the two accumulators once \<open>found\<close> was looked through.\<close>

definition sole_ok :: "(string \<Rightarrow> FoundConversation \<Rightarrow> bool) \<Rightarrow> FoundConversation list
    \<Rightarrow> (string \<times> FoundConversation) list \<Rightarrow> bool" where
  "sole_ok P found m \<longleftrightarrow>
     distinct (map fst m) \<and>
     (\<forall>sid. case map_of m sid of
        None \<Rightarrow> \<forall>c \<in> set found. \<not> P sid c
      | Some b \<Rightarrow> b \<in> set found \<and> P sid b \<and> (\<forall>c \<in> set found. P sid c \<longrightarrow> \<not> newer c b))"

lemma sole_ok_other: "sole_ok P found m \<Longrightarrow> (\<And>sid. \<not> P sid c) \<Longrightarrow> sole_ok P (found @ [c]) m"
  by (fastforce simp: sole_ok_def split: option.splits)

lemma sole_ok_note:
  assumes "sole_ok P found m" and P: "\<And>t. P t c \<longleftrightarrow> t = sid"
  shows "sole_ok P (found @ [c]) (note_sole m sid c)"
  unfolding sole_ok_def
proof (intro conjI allI)
  show "distinct (map fst (note_sole m sid c))" using assms(1) by (simp add: sole_ok_def distinct_note_sole)
  fix t
  have old: "case map_of m t of
        None \<Rightarrow> \<forall>c \<in> set found. \<not> P t c
      | Some b \<Rightarrow> b \<in> set found \<and> P t b \<and> (\<forall>c \<in> set found. P t c \<longrightarrow> \<not> newer c b)"
    using assms(1) by (simp add: sole_ok_def)
  show "case map_of (note_sole m sid c) t of
        None \<Rightarrow> \<forall>c \<in> set (found @ [c]). \<not> P t c
      | Some b \<Rightarrow> b \<in> set (found @ [c]) \<and> P t b \<and> (\<forall>c \<in> set (found @ [c]). P t c \<longrightarrow> \<not> newer c b)"
  proof (cases "t = sid")
    case True
    with old P show ?thesis
      by (cases "map_of m sid") (auto simp: map_of_note_sole newer_key intro: order_trans less_imp_le)
  next
    case False
    with old P show ?thesis by (auto simp: map_of_note_sole split: option.splits)
  qed
qed

lemma arbitrate_fold:
  "(case foldl (arbitrate_one scope ws ex) ([], []) found of (sole, outs) \<Rightarrow>
      sole_ok (sole_for scope ws ex) found sole \<and>
      set outs = {Contest (found_id c) | c. c \<in> set found \<and> contested_for scope ws ex c})"
proof (induction found rule: rev_induct)
  case Nil
  show ?case by (simp add: sole_ok_def)
next
  case (snoc c found)
  obtain sole outs where acc: "foldl (arbitrate_one scope ws ex) ([], []) found = (sole, outs)" by fastforce
  with snoc have ok: "sole_ok (sole_for scope ws ex) found sole"
    and outs: "set outs = {Contest (found_id c) | c. c \<in> set found \<and> contested_for scope ws ex c}" by auto
  have drop: "sole_ok (sole_for scope ws ex) (found @ [c]) sole" if "\<And>sid. \<not> sole_for scope ws ex sid c"
    using sole_ok_other [OF ok that] .
  have set_snoc: "{Contest (found_id a) | a. a \<in> set (found @ [c]) \<and> contested_for scope ws ex a} =
      (if contested_for scope ws ex c then {Contest (found_id c)} else {}) \<union> set outs"
    unfolding outs by auto
  consider "excludes ex (found_id c) \<or> eligible scope ws c = []"
    | w where "\<not> excludes ex (found_id c)" "eligible scope ws c = [w]"
    | w v vs where "\<not> excludes ex (found_id c)" "eligible scope ws c = w # v # vs"
    by (cases "eligible scope ws c" rule: remdups_adj.cases) auto
  then show ?case
  proof cases
    case 1
    then have "arbitrate_one scope ws ex (sole, outs) c = (sole, outs)" "\<not> contested_for scope ws ex c"
      and "\<And>sid. \<not> sole_for scope ws ex sid c"
      by (auto simp: arbitrate_one_def contested_for_def sole_for_def)
    with drop set_snoc acc show ?thesis by simp
  next
    case (2 w)
    then have "arbitrate_one scope ws ex (sole, outs) c = (note_sole sole (w_session_id w) c, outs)"
        "\<not> contested_for scope ws ex c" and P: "\<And>t. sole_for scope ws ex t c \<longleftrightarrow> t = w_session_id w"
      by (auto simp: arbitrate_one_def contested_for_def sole_for_def)
    with sole_ok_note [OF ok P] set_snoc acc show ?thesis by simp
  next
    case (3 w v vs)
    then have "arbitrate_one scope ws ex (sole, outs) c = (sole, outs @ [Contest (found_id c)])"
        "contested_for scope ws ex c" and "\<And>sid. \<not> sole_for scope ws ex sid c"
      by (auto simp: arbitrate_one_def contested_for_def sole_for_def)
    with drop set_snoc acc show ?thesis by simp
  qed
qed

lemma sole_ok_claims:
  assumes "sole_ok P found m"
  shows "(\<lambda>(sid, c). ClaimBy sid (found_id c)) ` set m =
     {ClaimBy sid (found_id c) | sid c. c \<in> set found \<and> P sid c \<and> (\<forall>c' \<in> set found. P sid c' \<longrightarrow> \<not> newer c' c)}"
    (is "?l = ?r")
proof (intro set_eqI iffI)
  fix x
  assume "x \<in> ?l"
  then obtain sid c where x: "x = ClaimBy sid (found_id c)" and mem: "(sid, c) \<in> set m" by auto
  then have "map_of m sid = Some c" using assms by (simp add: sole_ok_def)
  then have "c \<in> set found \<and> P sid c \<and> (\<forall>c' \<in> set found. P sid c' \<longrightarrow> \<not> newer c' c)"
    using assms by (auto simp: sole_ok_def dest!: spec [of _ sid])
  with x show "x \<in> ?r" by blast
next
  fix x
  assume "x \<in> ?r"
  then obtain sid c where x: "x = ClaimBy sid (found_id c)" and c: "c \<in> set found" "P sid c"
    and best: "\<forall>c' \<in> set found. P sid c' \<longrightarrow> \<not> newer c' c" by blast
  obtain b where b: "map_of m sid = Some b"
    using assms c by (fastforce simp: sole_ok_def split: option.splits)
  then have "b \<in> set found" "P sid b" "\<not> newer c b"
    using assms c by (auto simp: sole_ok_def dest!: spec [of _ sid])
  with best have "newest_key b = newest_key c" by (force simp: newer_key)
  then have "x = ClaimBy sid (found_id b)" using x by (simp add: newest_key_def)
  with map_of_SomeD [OF b] show "x \<in> ?l" by force
qed

lemma distinct_sorted_adj: "sorted (xs :: 'a :: linorder list) \<Longrightarrow> distinct (remdups_adj xs)"
proof (induction xs rule: remdups_adj.induct)
  case (3 x y xs)
  show ?case
  proof (cases "x = y")
    case False
    with "3.prems" have "\<forall>z \<in> set (y # xs). x < z" by fastforce
    with 3 False show ?thesis by auto
  qed (use 3 in simp)
qed simp_all

lemma remdups_adj_sort: "remdups_adj (sort xs) = sorted_list_of_set (set (xs :: 'a :: linorder list))"
  by (rule sorted_distinct_set_unique) (simp_all add: distinct_sorted_adj)

lemma arbitrate_sorted:
  "arbitrate scope found ws ex = sorted_list_of_set (arb_spec scope found ws ex)"
proof -
  obtain sole outs where acc: "foldl (arbitrate_one scope ws ex) ([], []) found = (sole, outs)" by fastforce
  then have ok: "sole_ok (sole_for scope ws ex) found sole"
    and outs: "set outs = {Contest (found_id c) | c. c \<in> set found \<and> contested_for scope ws ex c}"
    using arbitrate_fold [of scope ws ex found] by auto
  have "set (outs @ map (\<lambda>(sid, c). ClaimBy sid (found_id c)) sole) = arb_spec scope found ws ex"
    using sole_ok_claims [OF ok] outs by (simp add: arb_spec_def)
  then show ?thesis by (simp add: arbitrate_def acc remdups_adj_sort del: set_append)
qed

lemma set_arbitrate: "set (arbitrate scope found ws ex) = arb_spec scope found ws ex"
proof -
  have "arb_spec scope found ws ex \<subseteq> set (arbitrate scope found ws ex)"
    using arbitrate_fold [of scope ws ex found] sole_ok_claims [of "sole_for scope ws ex" found]
    by (fastforce simp: arb_spec_def arbitrate_def split: prod.splits)
  then have "finite (arb_spec scope found ws ex)" using finite_subset by blast
  then show ?thesis by (simp add: arbitrate_sorted)
qed

lemma eligible_order:
  assumes "mset ws = mset ws'"
  shows "mset (eligible scope ws c) = mset (eligible scope ws' c)"
  using assms by (simp add: eligible_def)

lemma arb_spec_order:
  assumes "set found = set found'" "mset ws = mset ws'"
  shows "arb_spec scope found ws ex = arb_spec scope found' ws' ex"
proof -
  note el = eligible_order [OF assms(2)]
  have "length (eligible scope ws c) = length (eligible scope ws' c)" for c
    using el by (metis size_mset)
  moreover have "eligible scope ws c = [w] \<longleftrightarrow> eligible scope ws' c = [w]" for c w
    using el [of scope c] by (metis mset_single_iff_right mset.simps(1) mset.simps(2) add_mset_add_single mset_single_iff)
  ultimately show ?thesis using assms(1) by (simp add: arb_spec_def contested_for_def sole_for_def)
qed

section \<open>What a lookup writes\<close>

definition conversation_of :: "Discovering \<Rightarrow> string \<Rightarrow> string option" where
  "conversation_of s sid = Option.bind (by_id (disc_reg s) sid) conversation_id"

text \<open>A claim writes when the session still waits, or may claim without waiting, and has no id.\<close>

definition claimable :: "Discovering \<Rightarrow> string \<Rightarrow> bool \<Rightarrow> bool" where
  "claimable s sid late \<longleftrightarrow>
     has_no_id (disc_reg s) sid \<and> (late \<or> sid \<in> set (map w_session_id (waiters s)))"

lemma find_waiter: "List.find (\<lambda>v. w_session_id v = sid) ws = None \<longleftrightarrow> sid \<notin> set (map w_session_id ws)"
  by (auto simp: find_None_iff)

lemma claim_by_id:
  "by_id (snd (snd (update_if_changed d due now rg sid (claim_write i)))) =
     (case by_id rg sid of
        None \<Rightarrow> by_id rg
      | Some r \<Rightarrow> if conversation_id r = None then (by_id rg)(sid \<mapsto> r\<lparr>conversation_id := Some i\<rparr>) else by_id rg)"
  by (auto simp: update_if_changed_def update_inner_by_id update_locked_def claim_write_def fun_upd_triv
      split: option.split)

lemma claim_eq:
  "claim d due now sid i late s =
     (if sid \<notin> set (map w_session_id (waiters s)) \<and> \<not> late
      then (False, [], s\<lparr>waiters := filter (\<lambda>v. w_session_id v \<noteq> sid) (waiters s)\<rparr>)
      else (has_no_id (disc_reg s) sid, fst (snd (update_if_changed d due now (disc_reg s) sid (claim_write i))),
            s\<lparr>waiters := filter (\<lambda>v. w_session_id v \<noteq> sid) (waiters s),
              disc_reg := snd (snd (update_if_changed d due now (disc_reg s) sid (claim_write i)))\<rparr>))"
proof -
  have "(case by_id (disc_reg s) sid of None \<Rightarrow> False | Some r \<Rightarrow> fst (claim_write i r)) = has_no_id (disc_reg s) sid"
    by (simp add: has_no_id_def claim_write_def split: option.split)
  then show ?thesis
    by (simp add: claim_def deregister_waiter_def find_waiter Let_def case_prod_beta)
qed

lemma claim_spec:
  assumes "claim d due now sid i late s = (written, evs, s')"
  shows "written \<longleftrightarrow> claimable s sid late"
    and "conversation_of s' t = (if t = sid \<and> written then Some i else conversation_of s t)"
    and "has_no_id (disc_reg s') t \<longleftrightarrow> has_no_id (disc_reg s) t \<and> \<not> (t = sid \<and> written)"
    and "waiters s' = filter (\<lambda>v. w_session_id v \<noteq> sid) (waiters s)"
    and "contested_files s' = contested_files s"
  using assms unfolding claim_eq claimable_def
  by (auto simp: claim_by_id has_no_id_def conversation_of_def split: if_splits option.splits)

text \<open>One outcome, then a list of them.\<close>

lemma apply_outcome_snd:
  "snd (apply_outcome disks storable due now w look (evs, s) (ClaimBy sid i)) =
     snd (snd (claim (disks sid) due now sid i (look \<and> sid = w_session_id w) s))"
  "snd (apply_outcome disks storable due now w look (evs, s) (Contest i)) =
     s\<lparr>contested_files := add_contested (storable i) (contested_files s) (w_agent w) i now\<rparr>"
  by (simp_all add: apply_outcome_def split: prod.split)

lemma apply_outcome_claim:
  assumes "snd (apply_outcome disks storable due now w look (evs, s) (ClaimBy sid i)) = s'"
  shows "conversation_of s' t =
      (if t = sid \<and> claimable s sid (look \<and> sid = w_session_id w) then Some i else conversation_of s t)"
    and "t \<noteq> sid \<Longrightarrow> claimable s' t late \<longleftrightarrow> claimable s t late"
    and "has_no_id (disc_reg s') t \<Longrightarrow> has_no_id (disc_reg s) t"
    and "contested_files s' = contested_files s"
proof -
  obtain written evs' where c: "claim (disks sid) due now sid i (look \<and> sid = w_session_id w) s = (written, evs', s')"
    using assms by (metis apply_outcome_snd(1) prod.collapse)
  note spec = claim_spec [OF c]
  show "conversation_of s' t =
      (if t = sid \<and> claimable s sid (look \<and> sid = w_session_id w) then Some i else conversation_of s t)"
    using spec(1,2) by simp
  show "t \<noteq> sid \<Longrightarrow> claimable s' t late \<longleftrightarrow> claimable s t late"
    using spec(3) [of t] spec(4) by (auto simp: claimable_def)
  show "has_no_id (disc_reg s') t \<Longrightarrow> has_no_id (disc_reg s) t" using spec(3) by blast
  show "contested_files s' = contested_files s" by (rule spec(5))
qed

lemma apply_outcome_contest:
  assumes "snd (apply_outcome disks storable due now w look (evs, s) (Contest i)) = s'"
  shows "conversation_of s' t = conversation_of s t"
    and "claimable s' t late \<longleftrightarrow> claimable s t late"
    and "has_no_id (disc_reg s') t \<longleftrightarrow> has_no_id (disc_reg s) t"
  using assms by (auto simp: apply_outcome_snd conversation_of_def claimable_def)

lemma has_no_id_conversation: "has_no_id (disc_reg s) t \<Longrightarrow> conversation_of s t = None"
  by (auto simp: has_no_id_def conversation_of_def split: option.splits)

lemma outcomes_conversation:
  assumes "foldl (apply_outcome disks storable due now w look) (evs, s) outs = (evs', s')"
    and "conversation_of s' t \<noteq> conversation_of s t"
  shows "\<exists>i. ClaimBy t i \<in> set outs \<and> conversation_of s' t = Some i \<and> has_no_id (disc_reg s) t"
  using assms
proof (induction outs arbitrary: evs s)
  case (Cons out outs)
  obtain evs1 s1 where first: "apply_outcome disks storable due now w look (evs, s) out = (evs1, s1)" by fastforce
  with Cons.prems(1) have rest: "foldl (apply_outcome disks storable due now w look) (evs1, s1) outs = (evs', s')"
    by simp
  show ?case
  proof (cases out)
    case (ClaimBy sid i)
    with first have "snd (apply_outcome disks storable due now w look (evs, s) (ClaimBy sid i)) = s1" by simp
    note one = apply_outcome_claim [OF this]
    show ?thesis
    proof (cases "conversation_of s' t = conversation_of s1 t")
      case True
      with Cons.prems(2) one(1) [of t] show ?thesis by (auto simp: ClaimBy claimable_def split: if_splits)
    next
      case False
      from Cons.IH [OF rest False] one(3) show ?thesis by auto
    qed
  next
    case (Contest i)
    with first have "snd (apply_outcome disks storable due now w look (evs, s) (Contest i)) = s1" by simp
    note one = apply_outcome_contest [OF this]
    from Cons.IH [OF rest] Cons.prems(2) one show ?thesis by auto
  qed
qed simp

lemma outcomes_claimed:
  assumes "foldl (apply_outcome disks storable due now w look) (evs, s) outs = (evs', s')"
    and "ClaimBy t i \<in> set outs" and "\<And>j. ClaimBy t j \<in> set outs \<Longrightarrow> j = i"
    and "claimable s t (look \<and> t = w_session_id w)"
  shows "conversation_of s' t = Some i"
  using assms
proof (induction outs arbitrary: evs s)
  case (Cons out outs)
  obtain evs1 s1 where first: "apply_outcome disks storable due now w look (evs, s) out = (evs1, s1)" by fastforce
  with Cons.prems(1) have rest: "foldl (apply_outcome disks storable due now w look) (evs1, s1) outs = (evs', s')"
    by simp
  show ?case
  proof (cases "out = ClaimBy t i")
    case True
    with first have "snd (apply_outcome disks storable due now w look (evs, s) (ClaimBy t i)) = s1" by simp
    note one = apply_outcome_claim [OF this]
    have now_set: "conversation_of s1 t = Some i" using one(1) [of t] Cons.prems(4) by simp
    have "\<not> has_no_id (disc_reg s1) t" using now_set has_no_id_conversation by fastforce
    with outcomes_conversation [OF rest] now_set show ?thesis by metis
  next
    case False
    then have other: "ClaimBy t i \<in> set outs" using Cons.prems(2) by simp
    have "claimable s1 t (look \<and> t = w_session_id w)"
    proof (cases out)
      case (ClaimBy sid j)
      with False Cons.prems(3) [of j] have "t \<noteq> sid" by auto
      moreover from ClaimBy first have "snd (apply_outcome disks storable due now w look (evs, s) (ClaimBy sid j)) = s1"
        by simp
      ultimately show ?thesis using apply_outcome_claim(2) Cons.prems(4) by blast
    next
      case (Contest j)
      with first have "snd (apply_outcome disks storable due now w look (evs, s) (Contest j)) = s1" by simp
      with Cons.prems(4) show ?thesis by (simp add: apply_outcome_contest(2))
    qed
    then show ?thesis using Cons.IH [OF rest other] Cons.prems(3) by auto
  qed
qed simp

lemma add_contested_read:
  "read_contested (add_contested ok files ag i now) ag now =
     (if ok \<and> load_contested files ag now \<noteq> None \<and> i \<notin> set (read_contested files ag now)
      then read_contested files ag now @ [i] else read_contested files ag now)"
  "load_contested (add_contested ok files ag i now) ag now = None \<longleftrightarrow> load_contested files ag now = None"
  by (auto simp: add_contested_def read_contested_def load_contested_def CONTESTED_RETENTION_def NANOS_def
        list_ex_iff filter_empty_conv intro!: filter_True split: option.splits ContestedFile.splits)

lemma outcomes_contested:
  assumes "foldl (apply_outcome disks storable due now w look) (evs, s) outs = (evs', s')"
    and "load_contested (contested_files s) (w_agent w) now \<noteq> None"
  shows "set (read_contested (contested_files s') (w_agent w) now) =
    set (read_contested (contested_files s) (w_agent w) now) \<union> {i. Contest i \<in> set outs \<and> storable i}"
  using assms
proof (induction outs arbitrary: evs s)
  case (Cons out outs)
  obtain evs1 s1 where first: "apply_outcome disks storable due now w look (evs, s) out = (evs1, s1)" by fastforce
  with Cons.prems(1) have rest: "foldl (apply_outcome disks storable due now w look) (evs1, s1) outs = (evs', s')"
    by simp
  show ?case
  proof (cases out)
    case (ClaimBy sid i)
    with first have "snd (apply_outcome disks storable due now w look (evs, s) (ClaimBy sid i)) = s1" by simp
    with Cons.IH [OF rest] Cons.prems(2) apply_outcome_claim(4) [OF this] show ?thesis by (simp add: ClaimBy)
  next
    case (Contest i)
    with first have "s1 = s\<lparr>contested_files := add_contested (storable i) (contested_files s) (w_agent w) i now\<rparr>"
      by (metis apply_outcome_snd(2) snd_conv)
    with Cons.IH [OF rest] Cons.prems(2) show ?thesis by (auto simp: Contest add_contested_read)
  qed
qed simp

section \<open>A whole lookup\<close>

lemma pass_run:
  assumes "pass finder disks storable due listed entries now w by s = (evs, s')"
  shows "let found = conversation_candidates finder (w_agent w) (w_folder w) (launched_at w, now) (w_rows w);
             outs = arbitrate w found (pass_waiters w by s) (pass_excluded listed entries now w s)
         in (found = [] \<and> s' = s) \<or>
            foldl (apply_outcome disks storable due now w (by = FinalLook)) ([], s) outs = (evs, s')"
  using assms by (auto simp: pass_def Let_def split: if_splits)

lemma pass_claim:
  assumes "pass finder disks storable due listed entries now w by s = (evs, s')"
    and "conversation_of s' sid \<noteq> conversation_of s sid"
  obtains c where
    "c \<in> set (conversation_candidates finder (w_agent w) (w_folder w) (launched_at w, now) (w_rows w))"
    "sole_for w (pass_waiters w by s) (pass_excluded listed entries now w s) sid c"
    "conversation_of s' sid = Some (found_id c)" "conversation_of s sid = None"
proof -
  let ?found = "conversation_candidates finder (w_agent w) (w_folder w) (launched_at w, now) (w_rows w)"
  let ?outs = "arbitrate w ?found (pass_waiters w by s) (pass_excluded listed entries now w s)"
  have "foldl (apply_outcome disks storable due now w (by = FinalLook)) ([], s) ?outs = (evs, s')"
    using pass_run [OF assms(1)] assms(2) by (auto simp: Let_def)
  from outcomes_conversation [OF this assms(2)] obtain i where i: "ClaimBy sid i \<in> set ?outs"
      "conversation_of s' sid = Some i" "has_no_id (disc_reg s) sid" by blast
  then obtain c where "c \<in> set ?found" "i = found_id c"
      "sole_for w (pass_waiters w by s) (pass_excluded listed entries now w s) sid c"
    by (auto simp: set_arbitrate arb_spec_def)
  with i that has_no_id_conversation show thesis by blast
qed

lemma candidates_plain: "c \<in> set (conversation_candidates finder ag f win rows) \<Longrightarrow> is_plain_id (found_id c)"
  by (simp add: conversation_candidates_def plain_ids_def)

lemma candidates_found: "set (conversation_candidates finder ag f win rows) \<subseteq> set (finder ag f win rows)"
  by (auto simp: conversation_candidates_def plain_ids_def)

lemma sole_for_eligible:
  assumes "sole_for scope ws ex sid c"
  obtains v where "v \<in> set ws" "w_session_id v = sid" "w_agent v = w_agent scope"
    "w_folder_key v = w_folder_key scope" "may_claim v c"
proof -
  from assms obtain v where one: "eligible scope ws c = [v]" and sid: "w_session_id v = sid"
    by (auto simp: sole_for_def)
  from one have "v \<in> set (eligible scope ws c)" by simp
  then have "v \<in> set ws \<and> w_agent v = w_agent scope \<and> w_folder_key v = w_folder_key scope \<and> may_claim v c"
    unfolding eligible_def by simp
  with sid that show thesis by blast
qed

text \<open>Two sessions never are both alone eligible for one conversation.\<close>

lemma sole_for_unique: "sole_for scope ws ex sid c \<Longrightarrow> sole_for scope ws ex t c \<Longrightarrow> sid = t"
  by (auto simp: sole_for_def)

lemma held_ids_mem:
  assumes "\<And>sid r. by_id rg sid = Some r \<Longrightarrow> sid \<in> set listed"
  shows "i \<in> set (held_ids listed rg) \<longleftrightarrow> (\<exists>sid r. by_id rg sid = Some r \<and> conversation_id r = Some i)"
  using assms by (force simp: held_ids_def List.map_filter_def bind_eq_Some_conv)

end
