(* ===== verification/Recovery.thy ===== *)
theory Recovery
  imports History_Import
begin

text \<open>
  The plan of a recovery (\<open>plan_recovery\<close> of \<open>crates/daemon/src/history.rs\<close>): what an ended session
  comes back as, and where. A target is pinned to the folders the session ran in.
\<close>

section \<open>Requests and plans\<close>

record SpawnRequest =
  req_label :: "string option"
  req_target :: SpawnTarget
  req_mode :: SessionMode
  req_initial_prompt :: "string option"
  req_skip_permissions :: bool
  req_agent :: "AgentSelection option"
  req_extra_env :: "(string \<times> string) list"
  req_secret_env_keys :: "string list"
  req_has_injector :: bool
  req_request_id :: "string option"
  req_resume_conversation :: "string option"

datatype RecoverAs = AsAgent | AsRegisteredAgent string | AsShellResume | AsShell | AsUnknown

record RecoverItem =
  history_id :: string
  item_conversation_id :: "string option"
  how :: RecoverAs

record RecoveryPlan =
  plan_request :: SpawnRequest
  register_repo :: "string option"
  plan_hook_agent :: "string option"
  plan_resume_conversation :: "string option"
  plan_hook_options :: OptionValues
  plan_hook_trusted :: bool

definition PINNED_BRANCH_FALLBACK :: string where "PINNED_BRANCH_FALLBACK = ''HEAD''"

definition to_clone_request :: "SpawnConfig \<Rightarrow> SpawnRequest" where
  "to_clone_request cfg =
     \<lparr>req_label = None, req_target = cfg_target cfg, req_mode = cfg_mode cfg, req_initial_prompt = None,
      req_skip_permissions = dangerously_skip_permissions cfg, req_agent = selection cfg,
      req_extra_env = cfg_extra_env cfg, req_secret_env_keys = [], req_has_injector = False,
      req_request_id = None, req_resume_conversation = None\<rparr>"

definition recorded_env :: "HistoryEntry \<Rightarrow> (string \<times> string) list" where
  "recorded_env e = (case he_spawn_config e of None \<Rightarrow> [] | Some cfg \<Rightarrow> cfg_extra_env cfg)"

definition or_else :: "'a option \<Rightarrow> 'a option \<Rightarrow> 'a option" where
  "or_else a b = (case a of None \<Rightarrow> b | Some x \<Rightarrow> Some x)"

definition entry_folder :: "HistoryEntry \<Rightarrow> string option" where
  "entry_folder e =
     (let shown = (if he_mode e \<noteq> Interactive then he_current_cwd e else None);
          first = (case he_members e of [] \<Rightarrow> None | m # _ \<Rightarrow> Some (worktree_path m));
          folder = or_else shown (or_else (he_primary_cwd e) (or_else (he_current_cwd e) first))
      in if folder = Some [] then None else folder)"

section \<open>Targets\<close>

definition unpinned_single :: "string \<Rightarrow> SpawnTarget" where
  "unpinned_single rid = SingleTarget rid [] None False None Reuse None"

definition pinned_single :: "string \<Rightarrow> string \<Rightarrow> string \<Rightarrow> SpawnTarget" where
  "pinned_single rid path branch = SingleTarget rid branch None True None Reuse (Some path)"

definition recorded_branch :: "SessionMember list \<Rightarrow> string" where
  "recorded_branch members =
     (case members of
        [] \<Rightarrow> PINNED_BRANCH_FALLBACK
      | m # _ \<Rightarrow> if member_branch m = [] then PINNED_BRANCH_FALLBACK else member_branch m)"

definition member_repo :: "HistoryEnv \<Rightarrow> SessionMember \<Rightarrow> RepoEntry list \<Rightarrow> RepoEntry option" where
  "member_repo env m rs =
     or_else (List.find (\<lambda>r. member_repo_id m \<noteq> [] \<and> repo_id r = member_repo_id m) rs)
       (repo_at env rs (worktree_path m))"

text \<open>\<open>Iterator::position\<close>.\<close>

fun position :: "('a \<Rightarrow> bool) \<Rightarrow> 'a list \<Rightarrow> nat option" where
  "position P [] = None"
| "position P (x # xs) = (if P x then Some 0 else map_option Suc (position P xs))"

text \<open>The pins of the members from the \<open>i\<close>-th on.\<close>

fun pins_from ::
    "HistoryEnv \<Rightarrow> SessionMember list \<Rightarrow> RepoEntry list \<Rightarrow> nat \<Rightarrow> string list \<Rightarrow> PinnedMemberWorktree list option" where
  "pins_from env members rs i [] = Some []"
| "pins_from env members rs i (rid # ids) =
     (case position (\<lambda>m. case member_repo env m rs of None \<Rightarrow> False | Some r \<Rightarrow> repo_id r = rid) members of
        None \<Rightarrow> None
      | Some p \<Rightarrow>
          if (i = 0) \<noteq> (p = 0) then None
          else map_option (Cons \<lparr>pin_repo_id = rid, pin_path = worktree_path (members ! p)\<rparr>)
                 (pins_from env members rs (Suc i) ids))"

definition workspace_pins ::
    "HistoryEnv \<Rightarrow> WorkspaceEntry \<Rightarrow> SessionMember list \<Rightarrow> RepoEntry list \<Rightarrow> PinnedMemberWorktree list option" where
  "workspace_pins env ws members rs =
     (if length (ws_member_repo_ids ws) \<noteq> length members then None
      else pins_from env members rs 0 (ws_member_repo_ids ws))"

definition find_workspace :: "string \<Rightarrow> Registered \<Rightarrow> WorkspaceEntry option" where
  "find_workspace wid reg = List.find (\<lambda>w. ws_id w = wid) (workspaces reg)"

definition pin_recorded ::
    "HistoryEnv \<Rightarrow> SpawnTarget \<Rightarrow> SessionMember list \<Rightarrow> Registered \<Rightarrow> SpawnTarget option" where
  "pin_recorded env target members reg =
     (case target of
        SingleTarget rid branch base _ _ reuse _ \<Rightarrow>
          (case members of
             [only] \<Rightarrow>
               (case List.find (\<lambda>r. repo_id r = rid) (repos reg) of
                  None \<Rightarrow> None
                | Some r \<Rightarrow>
                    if member_repo_id only \<noteq> rid then None
                    else if \<not> repo_is_git r then Some (unpinned_single rid)
                    else Some (SingleTarget rid branch base True None reuse (Some (worktree_path only))))
           | _ \<Rightarrow> None)
      | WorkspaceTarget wid branch base _ reuse _ \<Rightarrow>
          (case find_workspace wid reg of
             None \<Rightarrow> None
           | Some ws \<Rightarrow> map_option (WorkspaceTarget wid branch base True reuse) (workspace_pins env ws members (repos reg)))
      | StandaloneTarget _ _ \<Rightarrow> Some target)"

definition workspace_target ::
    "HistoryEnv \<Rightarrow> string option \<Rightarrow> SessionMember list \<Rightarrow> Registered \<Rightarrow> SpawnTarget option" where
  "workspace_target env workspace_id members reg =
     (case members of
        [] \<Rightarrow> None
      | first # rest \<Rightarrow>
          (let wid = (case workspace_id of
                        Some wid \<Rightarrow> Some wid
                      | None \<Rightarrow>
                          (case match_target env (worktree_path first) (map worktree_path rest) reg of
                             (Workspace, Some wid) \<Rightarrow> Some wid
                           | _ \<Rightarrow> None))
           in case Option.bind wid (\<lambda>w. find_workspace w reg) of
                None \<Rightarrow> None
              | Some ws \<Rightarrow>
                  map_option (WorkspaceTarget (ws_id ws) (recorded_branch members) None True Reuse)
                    (workspace_pins env ws members (repos reg))))"

definition standalone_folders :: "SessionMember list \<Rightarrow> SpawnTarget" where
  "standalone_folders members =
     (case members of
        [] \<Rightarrow> StandaloneTarget (Some []) []
      | first # rest \<Rightarrow> StandaloneTarget (Some (worktree_path first)) (map worktree_path rest))"

definition folder_target ::
    "HistoryEnv \<Rightarrow> HistoryEntry \<Rightarrow> SessionMember list \<Rightarrow> Registered \<Rightarrow> SpawnTarget" where
  "folder_target env e members reg =
     (case workspace_target env (he_workspace_id e) members reg of
        Some target \<Rightarrow> target
      | None \<Rightarrow>
          (case members of
             [only] \<Rightarrow>
               (case member_repo env only (repos reg) of
                  Some r \<Rightarrow>
                    if \<not> repo_is_git r then unpinned_single (repo_id r)
                    else pinned_single (repo_id r) (worktree_path only) (recorded_branch members)
                | None \<Rightarrow> standalone_folders members)
           | _ \<Rightarrow> standalone_folders members))"

definition entry_members :: "HistoryEnv \<Rightarrow> HistoryEntry \<Rightarrow> string \<Rightarrow> RepoEntry list \<Rightarrow> SessionMember list" where
  "entry_members env e folder rs =
     (if he_members e = [] then folder_members env folder [] rs else he_members e)"

section \<open>What the agent spawns with\<close>

record RecoveredSpawn =
  spawn_selection :: AgentSelection
  spawn_trusted :: bool

definition recovery_agent :: "HistoryEnv \<Rightarrow> HistoryEntry \<Rightarrow> string" where
  "recovery_agent env e = (case he_agent e of Some ag \<Rightarrow> ag | None \<Rightarrow> default_agent env)"

definition recorded_options :: "HistoryEntry \<Rightarrow> OptionValues option \<times> bool" where
  "recorded_options e =
     (case he_spawn_config e of
        Some cfg \<Rightarrow>
          if cfg_mode cfg \<noteq> PlainShell
          then (map_option snd (selection cfg), dangerously_skip_permissions cfg)
          else (he_options e, he_trusted e)
      | None \<Rightarrow> (he_options e, he_trusted e))"

definition recovery_setup ::
    "HistoryEnv \<Rightarrow> HistoryEntry \<Rightarrow> (string, string \<times> HistoryPlugin \<times> OptionValues \<times> bool) result" where
  "recovery_setup env e =
     (let ag = recovery_agent env e
      in case find_plugin env ag of
           None \<Rightarrow> Err (''no agent plugin `'' @ ag @ ''` is registered'')
         | Some pl \<Rightarrow>
             (case recorded_options e of (recorded, trusted) \<Rightarrow>
                and_then (recovery_options pl recorded trusted) (\<lambda>opts. Ok (ag, pl, opts, trusted))))"

definition shell_resume_command ::
    "HistoryPlugin \<Rightarrow> OptionValues \<Rightarrow> string \<Rightarrow> (string, string list) result" where
  "shell_resume_command pl opts conversation =
     and_then (if hp_cap_shell_resume pl then shell_resume pl opts conversation else Ok None)
       (\<lambda>cmd. case cmd of
                Some c \<Rightarrow> Ok c
              | None \<Rightarrow> Err (hp_label pl @ '' cannot resume a conversation in a shell''))"

definition shell_resume_applies :: "HistoryEnv \<Rightarrow> HistoryEntry \<Rightarrow> string option \<Rightarrow> bool" where
  "shell_resume_applies env e conversation =
     (case conversation of
        None \<Rightarrow> False
      | Some cid \<Rightarrow>
          \<not> isl (and_then (recovery_setup env e) (\<lambda>(ag, pl, opts, trusted). shell_resume_command pl opts cid)))"

definition required_conversation :: "RecoverItem \<Rightarrow> (string, string) result" where
  "required_conversation item =
     (case item_conversation_id item of None \<Rightarrow> Err ''no conversation to resume'' | Some cid \<Rightarrow> Ok cid)"

definition recovered_spawn ::
    "HistoryEnv \<Rightarrow> HistoryEntry \<Rightarrow> RecoverItem \<Rightarrow> (string, RecoveredSpawn) result" where
  "recovered_spawn env e item =
     and_then (recovery_setup env e) (\<lambda>(ag, pl, opts, trusted).
       and_then (if how item = AsShellResume
                 then and_then (required_conversation item)
                        (\<lambda>cid. and_then (shell_resume_command pl opts cid) (\<lambda>_. Ok ()))
                 else Ok ())
         (\<lambda>_. Ok \<lparr>spawn_selection = (ag, opts), spawn_trusted = trusted\<rparr>))"

text \<open>\<open>exists\<close> says whether an agent still holds a conversation for a folder.\<close>

definition existing_conversation ::
    "RecoverItem \<Rightarrow> RecoveredSpawn \<Rightarrow> string \<Rightarrow> (string \<Rightarrow> string \<Rightarrow> string \<Rightarrow> bool) \<Rightarrow> (string, string) result" where
  "existing_conversation item sp folder exists =
     and_then (required_conversation item) (\<lambda>cid.
       if exists (fst (spawn_selection sp)) folder cid then Ok cid
       else Err (''conversation '' @ cid @ '' not found for '' @ folder))"

section \<open>Requests\<close>

definition shell_request :: "HistoryEntry \<Rightarrow> string \<Rightarrow> SpawnRequest" where
  "shell_request e folder =
     \<lparr>req_label = None, req_target = StandaloneTarget (if folder = [] then None else Some folder) [],
      req_mode = PlainShell, req_initial_prompt = None, req_skip_permissions = False, req_agent = None,
      req_extra_env = recorded_env e, req_secret_env_keys = [], req_has_injector = False,
      req_request_id = None, req_resume_conversation = None\<rparr>"

definition folder_agent :: "HistoryEntry \<Rightarrow> SpawnTarget \<Rightarrow> string \<Rightarrow> RecoveredSpawn \<Rightarrow> SpawnRequest" where
  "folder_agent e target conversation sp =
     \<lparr>req_label = None, req_target = target, req_mode = Interactive, req_initial_prompt = None,
      req_skip_permissions = spawn_trusted sp, req_agent = Some (spawn_selection sp),
      req_extra_env = recorded_env e, req_secret_env_keys = [], req_has_injector = False,
      req_request_id = None, req_resume_conversation = Some conversation\<rparr>"

definition recorded_request ::
    "HistoryEnv \<Rightarrow> HistoryEntry \<Rightarrow> SpawnConfig \<Rightarrow> string \<Rightarrow> Registered \<Rightarrow> SpawnRequest" where
  "recorded_request env e cfg folder reg =
     (let members = entry_members env e folder (repos reg)
      in (to_clone_request cfg)\<lparr>req_target :=
           (case pin_recorded env (cfg_target cfg) members reg of
              Some target \<Rightarrow> target | None \<Rightarrow> folder_target env e members reg)\<rparr>)"

definition agent_request ::
    "HistoryEnv \<Rightarrow> HistoryEntry \<Rightarrow> string \<Rightarrow> string \<Rightarrow> Registered \<Rightarrow> RecoveredSpawn \<Rightarrow> SpawnRequest" where
  "agent_request env e folder conversation reg sp =
     (case he_spawn_config e of
        None \<Rightarrow> folder_agent e (folder_target env e (entry_members env e folder (repos reg)) reg) conversation sp
      | Some cfg \<Rightarrow>
          (recorded_request env e cfg folder reg)\<lparr>req_agent := Some (spawn_selection sp),
            req_skip_permissions := spawn_trusted sp, req_mode := Interactive,
            req_resume_conversation := Some conversation\<rparr>)"

section \<open>The plan\<close>

definition bare_plan :: "SpawnRequest \<Rightarrow> RecoveryPlan" where
  "bare_plan req = \<lparr>plan_request = req, register_repo = None, plan_hook_agent = None,
     plan_resume_conversation = None, plan_hook_options = [], plan_hook_trusted = False\<rparr>"

definition register_target :: "HistoryEnv \<Rightarrow> HistoryEntry \<Rightarrow> string \<Rightarrow> SpawnTarget" where
  "register_target env e path =
     (let add_dirs = map worktree_path (drop 1 (he_members e))
      in if add_dirs = [] \<and> plain_folder env path then unpinned_single []
         else if add_dirs = [] then pinned_single [] path (recorded_branch (he_members e))
         else StandaloneTarget (Some path) add_dirs)"

definition plan_recovery ::
    "HistoryEnv \<Rightarrow> HistoryEntry \<Rightarrow> RecoverItem \<Rightarrow> Registered \<Rightarrow> (string \<Rightarrow> string \<Rightarrow> string \<Rightarrow> bool)
      \<Rightarrow> (string, RecoveryPlan) result" where
  "plan_recovery env e item reg exists =
     (if he_recovered_at e \<noteq> None then Err ''already recovered''
      else if he_mode e = Headless then Err ''a headless session can't be recovered''
      else let folder = (case entry_folder e of None \<Rightarrow> [] | Some f \<Rightarrow> f)
           in case how item of
                AsUnknown \<Rightarrow> Err ''unsupported recovery kind''
              | AsShell \<Rightarrow> Ok (bare_plan (shell_request e folder))
              | AsAgent \<Rightarrow>
                  and_then (recovered_spawn env e item) (\<lambda>sp.
                  and_then (existing_conversation item sp folder exists) (\<lambda>cid.
                    Ok (bare_plan (agent_request env e folder cid reg sp))))
              | AsRegisteredAgent path \<Rightarrow>
                  if normalize_path_key env path \<noteq> normalize_path_key env folder
                  then Err (path @ '' is not the session's folder '' @ folder)
                  else and_then (recovered_spawn env e item) (\<lambda>sp.
                       and_then (existing_conversation item sp folder exists) (\<lambda>cid.
                         Ok ((bare_plan (folder_agent e (register_target env e path) cid sp))
                               \<lparr>register_repo := Some path\<rparr>)))
              | AsShellResume \<Rightarrow>
                  and_then (recovered_spawn env e item) (\<lambda>sp.
                  and_then (existing_conversation item sp folder exists) (\<lambda>cid.
                    Ok ((bare_plan (shell_request e folder))
                          \<lparr>plan_hook_agent := Some (fst (spawn_selection sp)),
                           plan_resume_conversation := Some cid,
                           plan_hook_options := snd (spawn_selection sp),
                           plan_hook_trusted := spawn_trusted sp\<rparr>))))"

text \<open>The repo a plan registers gets its id first, and a placeholder branch the one checked out.\<close>

definition bind_registered_repo :: "string \<Rightarrow> RecoveryPlan \<Rightarrow> RecoveryPlan" where
  "bind_registered_repo rid plan =
     (if register_repo plan = None then plan
      else (case req_target (plan_request plan) of
              SingleTarget _ branch base use strategy reuse pin \<Rightarrow>
                plan\<lparr>plan_request := (plan_request plan)\<lparr>req_target := SingleTarget rid branch base use strategy reuse pin\<rparr>\<rparr>
            | _ \<Rightarrow> plan))"

definition placeholder_branch_folder :: "RecoveryPlan \<Rightarrow> string option" where
  "placeholder_branch_folder plan =
     (case req_target (plan_request plan) of
        SingleTarget _ branch _ _ _ _ (Some path) \<Rightarrow> if branch = PINNED_BRANCH_FALLBACK then Some path else None
      | WorkspaceTarget _ branch _ _ _ pins \<Rightarrow>
          if branch = PINNED_BRANCH_FALLBACK
          then (case pins of [] \<Rightarrow> None | p # _ \<Rightarrow> Some (pin_path p)) else None
      | _ \<Rightarrow> None)"

definition name_branch :: "string \<Rightarrow> RecoveryPlan \<Rightarrow> RecoveryPlan" where
  "name_branch name plan =
     plan\<lparr>plan_request := (plan_request plan)\<lparr>req_target :=
       (case req_target (plan_request plan) of
          SingleTarget rid _ base use strategy reuse pin \<Rightarrow> SingleTarget rid name base use strategy reuse pin
        | WorkspaceTarget wid _ base use reuse pins \<Rightarrow> WorkspaceTarget wid name base use reuse pins
        | StandaloneTarget cwd dirs \<Rightarrow> StandaloneTarget cwd dirs)\<rparr>\<rparr>"

definition branch_or_placeholder :: "(string, string option) result \<Rightarrow> string" where
  "branch_or_placeholder current = (case current of Inr (Some branch) \<Rightarrow> branch | _ \<Rightarrow> PINNED_BRANCH_FALLBACK)"

end
