(* ===== verification/Recovery_Properties.thy ===== *)
theory Recovery_Properties
  imports Discovery Recovery Session_Properties
begin

text \<open>
  The properties of the search for a session's conversation, of the history and of a recovery, each
  with its witness at a concrete input.
\<close>

section \<open>Discovery\<close>

definition found_at :: "string \<Rightarrow> int \<Rightarrow> FoundConversation" where
  "found_at i t = \<lparr>found_id = i, last_active = t\<rparr>"

definition demo_waiter :: "string \<Rightarrow> int \<Rightarrow> Waiter" where
  "demo_waiter sid t =
     \<lparr>w_session_id = sid, w_agent = ''claude'', w_folder = ''/w'', w_folder_key = ''/w'', w_baseline = [''old''],
      launched_at = t, w_rows = [], generation = 1\<rparr>"



text \<open>
  C23: what the arbitration of a folder's conversations decides is the specification and nothing
  else, sorted: every conversation two or more waiters may claim is contested, every session that
  alone may claim one gets the newest of those (the greater id on a tie), and an excluded id goes to
  nobody. In particular the outcome depends neither on the order of the conversations nor on the
  order of the waiters.
\<close>

theorem arbitration_exact:
  assumes "set found' = set found" and "mset ws' = mset ws"
  shows "set (arbitrate scope found ws ex) = arb_spec scope found ws ex \<and>
    arbitrate scope found' ws' ex = sorted_list_of_set (arb_spec scope found ws ex)"
  using set_arbitrate [of scope found ws ex] by (simp add: arbitrate_sorted arb_spec_order [OF assms])

theorem arbitration_exact_witness:
  "arbitrate (demo_waiter ''s'' 10) [found_at ''a2'' 12, found_at ''a'' 15, found_at ''b'' 25]
     [demo_waiter ''t'' 20, demo_waiter ''s'' 10] \<lparr>ex_held = [], ex_recent = [], ex_contested = []\<rparr> =
     [ClaimBy ''s'' ''a'', Contest ''b'']"
proof -
  let ?ex = "\<lparr>ex_held = [], ex_recent = [], ex_contested = []\<rparr>"
  let ?found = "[found_at ''b'' 25, found_at ''a'' 15, found_at ''a2'' 12]"
  have "arbitrate (demo_waiter ''s'' 10) ?found [demo_waiter ''s'' 10, demo_waiter ''t'' 20] ?ex =
      [ClaimBy ''s'' ''a'', Contest ''b'']" by code_simp
  moreover have "set [found_at ''a2'' 12, found_at ''a'' 15, found_at ''b'' 25] = set ?found" by auto
  moreover have "mset [demo_waiter ''t'' 20, demo_waiter ''s'' 10] = mset [demo_waiter ''s'' 10, demo_waiter ''t'' 20]"
    by simp
  ultimately show ?thesis
    using arbitration_exact [of "[found_at ''a2'' 12, found_at ''a'' 15, found_at ''b'' 25]" ?found
        "[demo_waiter ''t'' 20, demo_waiter ''s'' 10]" "[demo_waiter ''s'' 10, demo_waiter ''t'' 20]"
        "demo_waiter ''s'' 10" ?ex]
    by (metis arbitrate_sorted)
qed





section \<open>Tracer logs\<close>

text \<open>
  C26: the spawn line a tracer logs reads back: from the line with the program, the argument vector as
  Rust prints it with \<open>{:?}\<close> (quotes, control characters and characters the printer escapes included)
  and the working folder, the reader gets the program, the same arguments as UTF-8 text, and the folder,
  when neither the text before the marker nor the program contains the marker that ends it, and the
  folder does not contain the one before it.
\<close>

theorem spawn_line_round_trip:
  assumes "find_sub SPAWN_MARKER (pre @ butlast SPAWN_MARKER) = None"
    and "find_sub '' argc='' (program @ '' argc'') = None"
    and "find_sub '' cwd='' (''cwd='' @ cwd) = None"
    and "\<forall>s \<in> set argv. \<forall>n \<in> set s. scalar n"
  shows "parse_spawn (pre @ spawn_line printable program argv cwd) =
    Some \<lparr>spawn_program = program, spawn_args = map utf8 argv, spawn_cwd = cwd\<rparr>"
  by (rule parse_spawn_line [OF assms])

theorem spawn_line_round_trip_witness:
  "parse_spawn (''INFO '' @ spawn_line (\<lambda>n. n < 200) ''pwsh'' [[45, 99], [34, 92, 9, 228, 7], []] ''/w x'') =
     Some \<lparr>spawn_program = ''pwsh'', spawn_args = map utf8 [[45, 99], [34, 92, 9, 228, 7], []], spawn_cwd = ''/w x''\<rparr>"
proof -
  have "find_sub SPAWN_MARKER (''INFO '' @ butlast SPAWN_MARKER) = None" by code_simp
  moreover have "find_sub '' argc='' (''pwsh'' @ '' argc'') = None" by code_simp
  moreover have "find_sub '' cwd='' (''cwd='' @ ''/w x'') = None" by code_simp
  moreover have "\<forall>s \<in> set [[45, 99], [34, 92, 9, 228, 7], []]. \<forall>n \<in> set s. scalar n" by (simp add: scalar_def)
  ultimately show ?thesis by (rule spawn_line_round_trip)
qed


section \<open>Recovery\<close>











text \<open>An agent with two sessions in the history: a repo of one folder, and a registered workspace.\<close>

definition demo_plugin :: HistoryPlugin where
  "demo_plugin = \<lparr>hp_agent = ''claude'', hp_tag = ''claude'', hp_label = ''Claude'', hp_cap_shell_resume = True,
     hp_import_rev = 1, import_tracer_run = (\<lambda>_ _ _. None), recovery_options = (\<lambda>_ _. Ok []),
     shell_resume = (\<lambda>_ cid. Ok (Some [''claude'', ''--resume'', cid]))\<rparr>"

definition demo_history_env :: HistoryEnv where
  "demo_history_env = \<lparr>readers = \<lparr>parse_rfc3339 = (\<lambda>_. None), decode_note = (\<lambda>_. None)\<rparr>, on_windows = False, lowercase = id, plain_folder = (\<lambda>_. False),
     all_plugins = [demo_plugin], default_agent = ''claude''\<rparr>"

definition demo_registered :: Registered where
  "demo_registered =
     \<lparr>repos = [\<lparr>repo_id = ''a'', repo_name = ''a'', repo_path = ''/a'', repo_is_git = True\<rparr>,
               \<lparr>repo_id = ''b'', repo_name = ''b'', repo_path = ''/b'', repo_is_git = True\<rparr>],
      workspaces = [\<lparr>ws_id = ''ab'', ws_member_repo_ids = [''a'', ''b'']\<rparr>]\<rparr>"

definition demo_entry :: HistoryEntry where
  "demo_entry =
     (entry_from_record demo_record (EndExited 0) 9)
       \<lparr>he_workspace_id := Some ''ab'', he_conversation_id := Some ''c1'',
        he_members := [\<lparr>member_repo_id = ''a'', member_repo_name = ''a'', member_branch = ''x'', worktree_path = ''/wt/a''\<rparr>,
                       \<lparr>member_repo_id = ''b'', member_repo_name = ''b'', member_branch = ''x'', worktree_path = ''/wt/b''\<rparr>],
        he_primary_cwd := Some ''/wt/a''\<rparr>"

definition demo_item :: "RecoverAs \<Rightarrow> RecoverItem" where
  "demo_item h = \<lparr>history_id = ''s'', item_conversation_id = Some ''c1'', how = h\<rparr>"





text \<open>
  C29: a shell resume is offered exactly when it will not be refused. For an unrecovered entry that is
  not headless, and a conversation its agent still holds for its folder, the daemon plans the resume in a
  shell exactly when the history offered it: its agent is registered, its recorded options decode, and
  the agent has a command that resumes the conversation. The plan names that agent and conversation.
\<close>

theorem offered_shell_resume_plans:
  assumes "he_recovered_at e = None" and "he_mode e \<noteq> Headless" and "how item = AsShellResume"
    and "item_conversation_id item = Some cid"
    and "exists (recovery_agent env e) (case entry_folder e of None \<Rightarrow> [] | Some f \<Rightarrow> f) cid"
  shows "shell_resume_applies env e (Some cid) \<longleftrightarrow>
    (\<exists>p. plan_recovery env e item rd exists = Ok p \<and> plan_resume_conversation p = Some cid \<and>
      plan_hook_agent p = Some (recovery_agent env e) \<and> req_mode (plan_request p) = PlainShell)"
proof -
  have ag: "ag = recovery_agent env e" if "recovery_setup env e = Ok (ag, pl, opts, trusted)" for ag pl opts trusted
    using that by (auto simp: recovery_setup_def Let_def and_then_eq_Inr split: option.splits prod.splits)
  show ?thesis
  proof (cases "recovery_setup env e")
    case (Inl msg)
    then show ?thesis using assms
      by (auto simp: shell_resume_applies_def plan_recovery_def recovered_spawn_def Let_def)
  next
    case (Inr found)
    obtain ag pl opts trusted where eq: "found = (ag, pl, opts, trusted)" by (metis prod_cases4)
    with Inr ag have "ag = recovery_agent env e" by blast
    then show ?thesis using assms Inr
      by (cases "shell_resume_command pl opts cid")
         (auto simp: eq shell_resume_applies_def plan_recovery_def recovered_spawn_def existing_conversation_def
            required_conversation_def bare_plan_def shell_request_def Let_def)
  qed
qed

theorem offered_shell_resume_plans_witness:
  "\<exists>p. plan_recovery demo_history_env demo_entry (demo_item AsShellResume) demo_registered (\<lambda>_ _ _. True) = Ok p \<and>
     plan_resume_conversation p = Some ''c1''"
proof -
  have "he_recovered_at demo_entry = None" "he_mode demo_entry \<noteq> Headless"
    by (simp_all add: demo_entry_def entry_from_record_def demo_record_def)
  moreover have "how (demo_item AsShellResume) = AsShellResume" "item_conversation_id (demo_item AsShellResume) = Some ''c1''"
    by (simp_all add: demo_item_def)
  moreover have "shell_resume_applies demo_history_env demo_entry (Some ''c1'')"
    by (simp add: shell_resume_applies_def demo_entry_def entry_from_record_def demo_record_def recovery_setup_def
        find_plugin_def demo_history_env_def demo_plugin_def recovery_agent_def wire_agent_def recorded_options_def
        shell_resume_command_def Let_def)
  ultimately show ?thesis
    using offered_shell_resume_plans [of demo_entry "demo_item AsShellResume" "''c1''" "\<lambda>_ _ _. True" demo_history_env demo_registered]
    by blast
qed

end
