(* ===== verification/History_Properties.thy ===== *)
theory History_Properties
  imports Recovery_Properties
begin

text \<open>
  What the history promises over its whole life: the operations of \<open>crates/daemon/src/history.rs\<close> as
  steps on the directory, and what each keeps of the entries.
\<close>

section \<open>The history keeps what it recorded\<close>






















lemma imported_id: "entry_from_tracer_log env sid s e rd = Some entry \<Longrightarrow> he_session_id entry = sid"
  by (auto simp: entry_from_tracer_log_def entry_by_program_def entry_from_agent_note_def agent_entry_def shell_entry_def
      Let_def split: option.splits if_splits)


















end
