(* ===== verification/Screen_Status.thy ===== *)
theory Screen_Status
  imports Hooks
begin

text \<open>
  The status writes of the screen watchers (\<open>crates/daemon/src/pty_state.rs\<close>): what a watcher reads
  of a record before it decides, the writes that are refused when the record moved since, the hand-back
  of a shell whose agent ended, and the volume classifier of a plain shell. What the screen shows is
  an input; the confirmation windows between a frame and a write are not modelled.
\<close>

section \<open>What a watcher read\<close>

text \<open>Instants and durations are nanoseconds.\<close>

definition TURN_END_CEILING :: int where "TURN_END_CEILING = 60 * 10 ^ 9"

record HeldRead =
  held_event_time :: nat
  ceiling :: int

record StatusRead =
  read_status :: SessionStatus
  read_hook_driven :: bool
  read_last_hook_time :: "nat option"
  read_held :: "HeldRead option"

text \<open>Under a held turn end its \<open>Stop\<close> stands in for the hook stamp.\<close>

definition same_read :: "StatusRead \<Rightarrow> StatusRead \<Rightarrow> bool" where
  "same_read a b =
     (read_status a = read_status b \<and> read_hook_driven a = read_hook_driven b \<and> read_held a = read_held b \<and>
      (read_held a \<noteq> None \<or> read_last_hook_time a = read_last_hook_time b))"

definition status_read :: "SessionRecord \<Rightarrow> StatusRead" where
  "status_read r =
     \<lparr>read_status = status r, read_hook_driven = hook_driven r, read_last_hook_time = last_hook_time r,
      read_held = map_option (\<lambda>held. \<lparr>held_event_time = end_time held, ceiling = held_at held + TURN_END_CEILING\<rparr>)
        (turn_end r)\<rparr>"

definition record_status :: "Registry \<Rightarrow> string \<Rightarrow> StatusRead option" where
  "record_status rg sid = map_option status_read (by_id rg sid)"

definition moved_since :: "SessionRecord \<Rightarrow> StatusRead \<Rightarrow> bool" where
  "moved_since r from_read = (\<not> same_read (status_read r) from_read \<or> status r \<in> {Stopped, Error})"

section \<open>Guarded writes\<close>

text \<open>Each is the closure the registry runs under the record's lock, then the call around it.\<close>

definition screen_write ::
    "StatusRead \<Rightarrow> SessionStatus \<Rightarrow> int \<Rightarrow> string \<Rightarrow> SessionRecord \<Rightarrow> SessionEvent option option \<times> SessionRecord" where
  "screen_write from_read next now sid r =
     (if moved_since r from_read then (None, r)
      else let held = (if next = Idle then turn_end r else None);
               r1 = (if next = Idle then r\<lparr>turn_end := None\<rparr> else r);
               r2 = snd (apply_watcher_status r1 now next)
           in (case held of
                 None \<Rightarrow> (Some None, r2)
               | Some h \<Rightarrow> (Some (map_option (alert_event sid) (end_alert h)), r2\<lparr>background := end_background h\<rparr>)))"

text \<open>Answers whether it wrote; the attention of an entry into \<open>AwaitingInput\<close> comes last.\<close>

definition apply_screen_status ::
    "Disk \<Rightarrow> (string \<Rightarrow> bool) \<Rightarrow> int \<Rightarrow> Registry \<Rightarrow> string \<Rightarrow> StatusRead \<Rightarrow> SessionStatus
      \<Rightarrow> bool \<times> HookOut list \<times> Registry" where
  "apply_screen_status d due now rg sid from_read next =
     (let wrote = (case by_id rg sid of None \<Rightarrow> False | Some r \<Rightarrow> \<not> moved_since r from_read);
          entered = (case by_id rg sid of None \<Rightarrow> False
                     | Some r \<Rightarrow> wrote \<and> next = AwaitingInput \<and> status r \<noteq> AwaitingInput)
      in (case update_inner d due now rg sid (screen_write from_read next now sid) of
            (_, evs, rg') \<Rightarrow>
              (wrote, map SessionEv evs @ (if entered then [AttentionOut sid AttAwaitingInput] else []), rg')))"

definition turn_end_write :: "StatusRead \<Rightarrow> SessionRecord \<Rightarrow> bool \<times> SessionRecord" where
  "turn_end_write from_read r =
     (if moved_since r from_read then (False, r) else (True, r\<lparr>turn_end := None\<rparr>))"

definition clear_turn_end ::
    "Disk \<Rightarrow> (string \<Rightarrow> bool) \<Rightarrow> int \<Rightarrow> Registry \<Rightarrow> string \<Rightarrow> StatusRead \<Rightarrow> bool \<times> SessionEvent list \<times> Registry" where
  "clear_turn_end d due now rg sid from_read = update_if_changed d due now rg sid (turn_end_write from_read)"

definition background_write :: "StatusRead \<Rightarrow> bool \<Rightarrow> SessionRecord \<Rightarrow> bool \<times> SessionRecord" where
  "background_write from_read on r =
     (if moved_since r from_read \<or> status r \<noteq> Idle \<or> background r = on then (False, r)
      else (True, r\<lparr>background := on\<rparr>))"

definition apply_screen_background ::
    "Disk \<Rightarrow> (string \<Rightarrow> bool) \<Rightarrow> int \<Rightarrow> Registry \<Rightarrow> string \<Rightarrow> StatusRead \<Rightarrow> bool
      \<Rightarrow> bool \<times> SessionEvent list \<times> Registry" where
  "apply_screen_background d due now rg sid from_read on =
     update_if_changed d due now rg sid (background_write from_read on)"

section \<open>A shell handed back to its classifier\<close>

definition hand_back_write ::
    "HookEnv \<Rightarrow> StatusRead \<Rightarrow> int \<Rightarrow> string \<Rightarrow> SessionRecord \<Rightarrow> SessionEvent option option \<times> SessionRecord" where
  "hand_back_write env from_read now sid r =
     (if moved_since r from_read then (None, r)
      else let in_turn = (status r \<in> {Working, AwaitingInput})
           in (case end_agent_in_shell r of (exited, r1) \<Rightarrow>
                 let r2 = (if exited then clear_agent_title env r1 else r1);
                     changed = (hook_driven r2 \<or> background r2 \<or> in_turn \<or> exited);
                     held = turn_end r2;
                     r3 = r2\<lparr>hook_driven := False, background := False, turn_end := None\<rparr>;
                     r4 = (if in_turn then snd (apply_watcher_status r3 now Idle) else r3)
                 in (if changed then Some (map_option (alert_event sid) (Option.bind held end_alert)) else None, r4)))"

definition hand_shell_back ::
    "HookEnv \<Rightarrow> Disk \<Rightarrow> (string \<Rightarrow> bool) \<Rightarrow> int \<Rightarrow> HookHub \<Rightarrow> string \<Rightarrow> StatusRead
      \<Rightarrow> StatusRead option \<times> HookOut list \<times> HookHub" where
  "hand_shell_back env d due now hub sid from_read =
     (case by_id (reg (pipe hub)) sid of
        None \<Rightarrow> (None, [], hub)
      | Some r \<Rightarrow>
          if moved_since r from_read then (None, [], hub)
          else let exited = fst (end_agent_in_shell r);
                   r' = snd (hand_back_write env from_read now sid r);
                   after = \<lparr>read_status = status r', read_hook_driven = False,
                            read_last_hook_time = last_hook_time r', read_held = None\<rparr>
               in (case update_inner d due now (reg (pipe hub)) sid (hand_back_write env from_read now sid) of
                     (_, evs, rg') \<Rightarrow>
                       (let hub1 = hub\<lparr>pipe := (pipe hub)\<lparr>reg := rg'\<rparr>\<rparr>;
                            hub2 = (if exited \<and> promoted_shell r' then deregister hub1 sid else hub1)
                        in (Some after,
                            map SessionEv evs @ (if exited then [SessionEv (AgentExited sid)] else []), hub2))))"

section \<open>The classifier of a plain shell\<close>

datatype ShellState = ShIdle | ShWorking

definition seed_plain_shell :: "SessionStatus \<Rightarrow> ShellState" where
  "seed_plain_shell st = (if st = Working then ShWorking else ShIdle)"

fun shell_status :: "ShellState \<Rightarrow> SessionStatus" where
  "shell_status ShIdle = Idle"
| "shell_status ShWorking = Working"

text \<open>The write of a transition; it is not refused for a stopped or failed record.\<close>

definition transition_write :: "StatusRead \<Rightarrow> ShellState \<Rightarrow> int \<Rightarrow> SessionRecord \<Rightarrow> SessionRecord" where
  "transition_write rd next now r =
     (if hook_driven r \<noteq> read_hook_driven rd \<or> last_hook_time r \<noteq> read_last_hook_time rd then r
      else snd (apply_watcher_status r now (shell_status next)))"

definition on_plain_shell_transition ::
    "Disk \<Rightarrow> (string \<Rightarrow> bool) \<Rightarrow> int \<Rightarrow> Registry \<Rightarrow> string \<Rightarrow> ShellState \<Rightarrow> ShellState \<Rightarrow> StatusRead
      \<Rightarrow> ShellState \<times> SessionEvent list \<times> Registry" where
  "on_plain_shell_transition d due now rg sid current next rd =
     (if next = current then (current, [], rg)
      else (case update d due now rg sid (transition_write rd next now) of
              (_, evs, rg') \<Rightarrow> (next, evs, rg')))"

definition VOLUME_WINDOW :: int where "VOLUME_WINDOW = 750 * 10 ^ 6"
definition SHELL_ECHO_BUDGET_PER_INPUT_BYTE :: nat where "SHELL_ECHO_BUDGET_PER_INPUT_BYTE = 64"
definition SHELL_MIN_WORKING_OUTPUT :: nat where "SHELL_MIN_WORKING_OUTPUT = 320"
definition SHELL_MIN_WORKING_EXCESS :: nat where "SHELL_MIN_WORKING_EXCESS = 256"

type_synonym Window = "(int \<times> nat) list"

text \<open>Byte counts are \<open>u32\<close>, oldest first.\<close>

definition push_window :: "Window \<Rightarrow> int \<Rightarrow> nat \<Rightarrow> Window" where
  "push_window w now n = w @ [(now, min n (2 ^ 32 - 1))]"

definition trim_window :: "Window \<Rightarrow> int \<Rightarrow> Window" where
  "trim_window w now = dropWhile (\<lambda>(t, _). t < now - VOLUME_WINDOW) w"

definition window_sum :: "Window \<Rightarrow> nat" where
  "window_sum w = sum_list (map snd w)"

text \<open>The budget saturates at \<open>u64::MAX\<close>.\<close>

definition shell_output_is_working :: "nat \<Rightarrow> nat \<Rightarrow> bool" where
  "shell_output_is_working input_bytes output_bytes =
     (let budget = min (min (input_bytes * SHELL_ECHO_BUDGET_PER_INPUT_BYTE) (2 ^ 64 - 1)
                         + SHELL_MIN_WORKING_EXCESS) (2 ^ 64 - 1)
      in SHELL_MIN_WORKING_OUTPUT \<le> output_bytes \<and> budget < output_bytes)"

text \<open>
  The watcher of one shell: its classifier, the silence it measures, the volume windows, the start-up
  and launch holds, and whether an agent runs in the shell.
\<close>

record ShellWatcher =
  watcher_state :: ShellState
  replay_until :: int
  quiet_from :: int
  idle_checked :: bool
  in_window :: Window
  out_window :: Window
  agent_on_screen :: bool
  launching_until :: "int option"
  seen_hooks :: bool

text \<open>The shell's classifier runs while neither hooks nor the screen show an agent.\<close>

definition shell_mode :: "ShellWatcher \<Rightarrow> bool" where
  "shell_mode w = (\<not> seen_hooks w \<and> \<not> agent_on_screen w)"

definition launching :: "ShellWatcher \<Rightarrow> int \<Rightarrow> bool" where
  "launching w now = ((case launching_until w of None \<Rightarrow> False | Some t \<Rightarrow> now < t) \<and> shell_mode w)"

definition classify ::
    "Disk \<Rightarrow> (string \<Rightarrow> bool) \<Rightarrow> int \<Rightarrow> Registry \<Rightarrow> string \<Rightarrow> ShellWatcher \<Rightarrow> bool
      \<Rightarrow> ShellWatcher \<times> SessionEvent list \<times> Registry" where
  "classify d due now rg sid w title_changed =
     (case record_status rg sid of
        None \<Rightarrow> (w, [], rg)
      | Some rd \<Rightarrow>
          if read_hook_driven rd then (w\<lparr>watcher_state := seed_plain_shell (read_status rd)\<rparr>, [], rg)
          else let next = (if shell_output_is_working (window_sum (in_window w)) (window_sum (out_window w))
                               \<or> title_changed then ShWorking else watcher_state w)
               in (case on_plain_shell_transition d due now rg sid (watcher_state w) next rd of
                     (st, evs, rg') \<Rightarrow> (w\<lparr>watcher_state := st\<rparr>, evs, rg')))"

text \<open>One chunk of output with the input pulses waiting in the channel; a replay's chunk only draws.\<close>

definition shell_output ::
    "Disk \<Rightarrow> (string \<Rightarrow> bool) \<Rightarrow> int \<Rightarrow> Registry \<Rightarrow> string \<Rightarrow> ShellWatcher \<Rightarrow> nat list \<Rightarrow> nat \<Rightarrow> bool
      \<Rightarrow> ShellWatcher \<times> SessionEvent list \<times> Registry" where
  "shell_output d due now rg sid w pulses len title_changed =
     (if now < replay_until w then (w, [], rg)
      else let w1 = w\<lparr>quiet_from := now, idle_checked := False,
                 in_window := trim_window (foldl (\<lambda>q n. push_window q now n) (in_window w) pulses) now,
                 out_window := trim_window (push_window (out_window w) now len) now\<rparr>
           in if shell_mode w \<and> \<not> launching w1 now then classify d due now rg sid w1 title_changed
              else (w1, [], rg))"

definition plain_shell_idle_due :: "Registry \<Rightarrow> string \<Rightarrow> ShellState \<Rightarrow> bool" where
  "plain_shell_idle_due rg sid st =
     (case record_status rg sid of
        Some rd \<Rightarrow> \<not> read_hook_driven rd \<and> (st = ShWorking \<or> read_status rd = Working)
      | None \<Rightarrow> st = ShWorking)"

definition on_plain_shell_idle ::
    "Disk \<Rightarrow> (string \<Rightarrow> bool) \<Rightarrow> int \<Rightarrow> Registry \<Rightarrow> string \<Rightarrow> ShellState
      \<Rightarrow> ShellState \<times> SessionEvent list \<times> Registry" where
  "on_plain_shell_idle d due now rg sid st =
     (case record_status rg sid of
        None \<Rightarrow> (st, [], rg)
      | Some rd \<Rightarrow>
          if read_hook_driven rd then (st, [], rg)
          else on_plain_shell_transition d due now rg sid (seed_plain_shell (read_status rd)) ShIdle rd)"

section \<open>The writes keep the registry's contract\<close>

lemma moved_since_refl: "status r \<notin> {Stopped, Error} \<Longrightarrow> \<not> moved_since r (status_read r)"
  by (auto simp: moved_since_def same_read_def)

lemma screen_write_ok:
  assumes "record_ok r"
  shows "written_ok (status r) (snd (screen_write from_read nxt now sid r))"
proof -
  have "record_ok (r\<lparr>turn_end := None\<rparr>)"
    using assms by (simp add: record_ok_def fields_ok_def promoted_shell_def)
  then have "written_ok (status r) (snd (apply_watcher_status (r\<lparr>turn_end := None\<rparr>) now Idle))"
    using apply_watcher_status_writer [of "r\<lparr>turn_end := None\<rparr>" now Idle] by simp
  moreover have "turn_end (snd (apply_watcher_status (r\<lparr>turn_end := None\<rparr>) now Idle)) = None"
    by (simp add: record_simps)
  ultimately have "written_ok (status r)
      ((snd (apply_watcher_status (r\<lparr>turn_end := None\<rparr>) now Idle))\<lparr>background := bg\<rparr>)" for bg
    by (simp add: written_ok_def fields_ok_def promoted_shell_def record_simps)
  then show "written_ok (status r) (snd (screen_write from_read nxt now sid r))"
    using assms apply_watcher_status_writer [OF assms, of now nxt]
      \<open>written_ok (status r) (snd (apply_watcher_status (r\<lparr>turn_end := None\<rparr>) now Idle))\<close>
    by (auto simp: screen_write_def Let_def record_ok_written split: option.split)
qed

lemma screen_write_id: "rec_id (snd (screen_write from_read nxt now sid r)) = rec_id r"
  by (auto simp: screen_write_def Let_def record_simps split: option.split)

interpretation screened: record_writer "screen_write from_read nxt now sid" for from_read nxt now sid
proof unfold_locales
  show "snd (screen_write from_read nxt now sid r) = r" if "fst (screen_write from_read nxt now sid r) = None" for r
    using that by (auto simp: screen_write_def Let_def split: if_splits option.splits)
qed (simp_all add: screen_write_ok screen_write_id)

interpretation classified: record_writer "\<lambda>r. (Some None, transition_write rd nxt now r)" for rd nxt now
  by unfold_locales
     (auto simp: transition_write_def apply_watcher_status_writer record_ok_written record_simps)

end
