(* ===== verification/Session_End.thy ===== *)
theory Session_End
  imports Screen_Status Discovery Turn_System
begin

text \<open>
  How a session ends: its exit (\<open>handle_exit_with\<close> of \<open>crates/daemon/src/session.rs\<close>), a user's stop,
  park, discard and dismiss (\<open>server/sessions.rs\<close>, \<open>server/recovery.rs\<close>), the end of a headless child
  (\<open>headless.rs\<close>), and what a client makes of the last snapshot. Every handler is composed of the
  sections it runs under a lock or as one file operation, which the system of \<open>End_System\<close> interleaves.
  Killing a process, the removal of worktrees and the hook settings file are outputs.
\<close>

section \<open>State\<close>

text \<open>
  \<open>shutdown_marks\<close>: the sidecars marked \<open>ended_during_host_shutdown\<close>. The environment of one
  section: what a lookup finds and the disk meets, the registry's sessions and the history's files as
  listed, and whether the entry can be written.
\<close>

record EndState =
  discovering :: Discovering
  history :: HistoryDir
  shutdown_marks :: "string \<Rightarrow> bool"

record EndEnv =
  end_finder :: Finder
  at_disks :: "string \<Rightarrow> Disk"
  at_storable :: "string \<Rightarrow> bool"
  at_line_due :: "string \<Rightarrow> bool"
  at_listed :: "string list"
  at_stems :: "string list"
  at_writable :: bool

datatype EndOut =
    EndEv SessionEvent
  | KillPty string
  | KillHeadless string
  | KillOrphan string
  | RemoveHookSettings string
  | ClosePanes string

datatype ExitFacts = ExitedWith int | StoppedFirst | LeftAbandoned | RecordGone

abbreviation end_reg :: "EndState \<Rightarrow> Registry" where
  "end_reg s \<equiv> disc_reg (discovering s)"

definition set_reg :: "Registry \<Rightarrow> EndState \<Rightarrow> EndState" where
  "set_reg rg s = s\<lparr>discovering := (discovering s)\<lparr>disc_reg := rg\<rparr>\<rparr>"

definition show_int :: "int \<Rightarrow> string" where
  "show_int i = (if i < 0 then CHR ''-'' # dec (nat (- i)) else dec (nat i))"

section \<open>Sections\<close>

definition run_final_look :: "EndEnv \<Rightarrow> int \<Rightarrow> string \<Rightarrow> EndState \<Rightarrow> SessionEvent list \<times> EndState" where
  "run_final_look env now sid s =
     (case final_look (end_finder env) (at_disks env) (at_storable env) (at_line_due env) (at_listed env)
             (read_all (history s) (at_stems env)) now sid (discovering s) of
        (evs, disc) \<Rightarrow> (evs, s\<lparr>discovering := disc\<rparr>))"

definition record_end :: "EndEnv \<Rightarrow> int \<Rightarrow> string \<Rightarrow> SessionEnd \<Rightarrow> EndState \<Rightarrow> SessionEvent list \<times> EndState" where
  "record_end env now sid e s =
     (if by_id (end_reg s) sid = None then ([], s)
      else (case run_final_look env now sid s of
              (evs, s1) \<Rightarrow>
                (evs, s1\<lparr>history :=
                   record_session_end (at_writable env) now (by_id (end_reg s1) sid) e (history s1)\<rparr>)))"

definition run_update ::
    "EndEnv \<Rightarrow> int \<Rightarrow> string \<Rightarrow> (SessionRecord \<Rightarrow> SessionRecord) \<Rightarrow> EndState \<Rightarrow> bool \<times> SessionEvent list \<times> EndState" where
  "run_update env now sid f s =
     (case update (at_disks env sid) (at_line_due env) now (end_reg s) sid f of
        (held, evs, rg) \<Rightarrow> (held, evs, set_reg rg s))"

definition end_sidecar :: "EndEnv \<Rightarrow> string \<Rightarrow> EndState \<Rightarrow> EndState" where
  "end_sidecar env sid s =
     (set_reg (delete_sidecar (at_disks env sid) (end_reg s) sid) s)
       \<lparr>shutdown_marks := (if persists (at_disks env sid) \<and> disk_ok (at_disks env sid)
                           then (shutdown_marks s)(sid := False) else shutdown_marks s)\<rparr>"

text \<open>The session's whole directory; its scrollback is the output lane's.\<close>

definition delete_session_dir :: "EndEnv \<Rightarrow> string \<Rightarrow> EndState \<Rightarrow> EndState" where
  "delete_session_dir env sid s =
     (if persists (at_disks env sid)
      then (set_reg (delete_sidecar_files (at_disks env sid) (end_reg s) sid) s)
             \<lparr>shutdown_marks := (if disk_ok (at_disks env sid) then (shutdown_marks s)(sid := False)
                                 else shutdown_marks s)\<rparr>
      else s)"

section \<open>The exit of a PTY session\<close>

definition kept_for_shutdown :: "bool \<Rightarrow> bool \<Rightarrow> Registry \<Rightarrow> string \<Rightarrow> bool" where
  "kept_for_shutdown shutting_down dirs rg sid =
     (shutting_down \<and> dirs \<and>
      (case by_id rg sid of None \<Rightarrow> False | Some r \<Rightarrow> pty_open r \<and> \<not> headless_open r))"

definition exit_recorded :: "EndEnv \<Rightarrow> int \<Rightarrow> string \<Rightarrow> PtyExit \<Rightarrow> bool \<Rightarrow> bool \<Rightarrow> EndState \<Rightarrow> SessionEvent list \<times> EndState" where
  "exit_recorded env now sid exit dirs kept s =
     (if \<not> dirs then ([], s)
      else if kept then run_final_look env now sid s
      else record_end env now sid (end_for_exit exit) s)"

definition exit_abandons :: "bool \<Rightarrow> PtyExit \<Rightarrow> SessionRecord \<Rightarrow> bool" where
  "exit_abandons kept exit r = (pty_open r \<and> (kept \<or> exit = PtyTracerLost))"

definition exit_user_stopped :: "SessionRecord \<Rightarrow> bool" where
  "exit_user_stopped r = (\<not> pty_open r \<and> status r = Stopped)"

definition exit_write :: "bool \<Rightarrow> PtyExit \<Rightarrow> int \<Rightarrow> SessionRecord \<Rightarrow> SessionRecord" where
  "exit_write kept exit now r =
     (let r1 = r\<lparr>status := Stopped, pending_input := None, background := False, pty_open := False\<rparr>
      in if exit_abandons kept exit r
         then push_recent_action (r1\<lparr>exit_code := None, is_abandoned := True\<rparr>) now
                (if kept then ''abandoned: host shutting down'' else ''abandoned: tracer lost'')
         else push_recent_action
                (if exit_user_stopped r then r1 else r1\<lparr>exit_code := Some (pty_exit_code exit)\<rparr>) now
                (''exited with code '' @ show_int (pty_exit_code exit)))"

text \<open>What the update found, which the rest of the handler goes by.\<close>

record ExitFound =
  fd_held :: bool
  fd_abandoned :: bool
  fd_user_stopped :: bool

definition exit_found :: "bool \<Rightarrow> PtyExit \<Rightarrow> SessionRecord option \<Rightarrow> ExitFound" where
  "exit_found kept exit found =
     (case found of
        None \<Rightarrow> \<lparr>fd_held = False, fd_abandoned = False, fd_user_stopped = False\<rparr>
      | Some r \<Rightarrow> \<lparr>fd_held = True, fd_abandoned = exit_abandons kept exit r, fd_user_stopped = exit_user_stopped r\<rparr>)"

definition exit_updated ::
    "EndEnv \<Rightarrow> int \<Rightarrow> string \<Rightarrow> PtyExit \<Rightarrow> bool \<Rightarrow> EndState \<Rightarrow> ExitFound \<times> SessionEvent list \<times> EndState" where
  "exit_updated env now sid exit kept s =
     (case run_update env now sid (exit_write kept exit now) s of
        (_, evs, s') \<Rightarrow> (exit_found kept exit (by_id (end_reg s) sid), evs, s'))"

text \<open>An unreadable sidecar, or one that cannot be written, is logged.\<close>

definition mark_ended_during_host_shutdown :: "EndEnv \<Rightarrow> bool \<Rightarrow> string \<Rightarrow> EndState \<Rightarrow> EndState" where
  "mark_ended_during_host_shutdown env dirs sid s =
     (if dirs \<and> sidecars (end_reg s) sid \<noteq> None \<and> disk_ok (at_disks env sid)
      then s\<lparr>shutdown_marks := (shutdown_marks s)(sid := True)\<rparr> else s)"

definition exit_finished ::
    "EndEnv \<Rightarrow> string \<Rightarrow> PtyExit \<Rightarrow> bool \<Rightarrow> bool \<Rightarrow> ExitFound \<Rightarrow> EndState \<Rightarrow> ExitFacts \<times> SessionEvent list \<times> EndState" where
  "exit_finished env sid exit dirs kept fd s =
     (if fd_abandoned fd then
        (if kept then (LeftAbandoned, [], mark_ended_during_host_shutdown env dirs sid s)
         else (LeftAbandoned, [Attention sid AttError], s))
      else
        (if \<not> fd_held fd then RecordGone
         else if fd_user_stopped fd then StoppedFirst else ExitedWith (pty_exit_code exit),
         if fd_user_stopped fd then [] else [Attention sid AttStopped],
         end_sidecar env sid s))"

definition handle_exit_with ::
    "EndEnv \<Rightarrow> int \<Rightarrow> string \<Rightarrow> PtyExit \<Rightarrow> bool \<Rightarrow> bool \<Rightarrow> EndState \<Rightarrow> ExitFacts \<times> SessionEvent list \<times> EndState" where
  "handle_exit_with env now sid exit dirs shutting_down s =
     (let kept = kept_for_shutdown shutting_down dirs (end_reg s) sid
      in (case exit_recorded env now sid exit dirs kept s of
            (evs1, s1) \<Rightarrow>
              (case exit_updated env now sid exit kept s1 of
                 (fd, evs2, s2) \<Rightarrow>
                   (case exit_finished env sid exit dirs kept fd s2 of
                      (facts, evs3, s3) \<Rightarrow> (facts, evs1 @ evs2 @ evs3, s3)))))"

section \<open>Stop, park, discard, dismiss\<close>

definition stop_write :: "int \<Rightarrow> SessionRecord \<Rightarrow> SessionRecord" where
  "stop_write now r =
     push_recent_action
       (r\<lparr>status := Stopped, pending_input := None, background := False, pty_open := False,
          headless_open := False, is_inactive := False\<rparr>) now ''stopped by user''"

text \<open>The handles the update took, to kill.\<close>

definition taken_kills :: "SessionRecord option \<Rightarrow> string \<Rightarrow> EndOut list" where
  "taken_kills found sid =
     (case found of
        None \<Rightarrow> []
      | Some r \<Rightarrow> (if pty_open r then [KillPty sid] else []) @ (if headless_open r then [KillHeadless sid] else []))"

definition stop_updated :: "EndEnv \<Rightarrow> int \<Rightarrow> string \<Rightarrow> EndState \<Rightarrow> EndOut list \<times> EndState" where
  "stop_updated env now sid s =
     (case run_update env now sid (stop_write now) s of
        (_, evs, s') \<Rightarrow>
          (map EndEv evs @
             (let kills = taken_kills (by_id (end_reg s) sid) sid
              in if kills \<noteq> [] then kills
                 else if sidecars (end_reg s') sid \<noteq> None then [KillOrphan sid] else []), s'))"

definition stop_finished :: "EndEnv \<Rightarrow> string \<Rightarrow> EndState \<Rightarrow> EndOut list \<times> EndState" where
  "stop_finished env sid s = ([RemoveHookSettings sid], end_sidecar env sid s)"

text \<open>\<open>None\<close> is the error \<open>unknown session\<close>.\<close>

definition stop_session :: "EndEnv \<Rightarrow> int \<Rightarrow> string \<Rightarrow> EndState \<Rightarrow> (EndOut list \<times> EndState) option" where
  "stop_session env now sid s =
     (if by_id (end_reg s) sid = None then None
      else (case record_end env now sid EndStoppedByUser s of
              (evs1, s1) \<Rightarrow>
                (case stop_updated env now sid s1 of
                   (outs2, s2) \<Rightarrow>
                     (case stop_finished env sid s2 of
                        (outs3, s3) \<Rightarrow> Some (map EndEv evs1 @ outs2 @ outs3, s3)))))"

definition live_stop_write :: "int \<Rightarrow> SessionRecord \<Rightarrow> bool \<times> SessionRecord" where
  "live_stop_write now r = (if \<not> pty_open r \<and> \<not> headless_open r then (False, r) else (True, stop_write now r))"

text \<open>Whether it stopped the session comes first.\<close>

definition live_stop_updated :: "EndEnv \<Rightarrow> int \<Rightarrow> string \<Rightarrow> EndState \<Rightarrow> bool \<times> SessionEvent list \<times> EndState" where
  "live_stop_updated env now sid s =
     (case update_if_changed (at_disks env sid) (at_line_due env) now (end_reg s) sid (live_stop_write now) of
        (_, evs, rg) \<Rightarrow>
          (case by_id (end_reg s) sid of None \<Rightarrow> False | Some r \<Rightarrow> pty_open r \<or> headless_open r, evs, set_reg rg s))"

definition stop_session_if_live :: "EndEnv \<Rightarrow> int \<Rightarrow> string \<Rightarrow> EndState \<Rightarrow> bool \<times> EndOut list \<times> EndState" where
  "stop_session_if_live env now sid s =
     (case live_stop_updated env now sid s of
        (False, evs, s1) \<Rightarrow> (False, map EndEv evs, s1)
      | (True, evs, s1) \<Rightarrow>
          (case record_end env now sid EndStoppedByUser s1 of
             (evs2, s2) \<Rightarrow>
               (True, map EndEv (evs @ evs2) @ taken_kills (by_id (end_reg s) sid) sid @ [RemoveHookSettings sid],
                end_sidecar env sid s2)))"

definition park_write :: "int \<Rightarrow> SessionRecord \<Rightarrow> SessionRecord" where
  "park_write now r =
     (let r1 = r\<lparr>is_inactive := True, pending_input := None, background := False, pty_open := False,
                 headless_open := False\<rparr>
      in push_recent_action (if status r \<in> {Stopped, Error} then r1 else r1\<lparr>status := Stopped\<rparr>) now
           (''parked '' @ [CHR 0xE2, CHR 0x80, CHR 0x94] @ '' worktree retained''))"

definition park_session :: "EndEnv \<Rightarrow> int \<Rightarrow> string \<Rightarrow> EndState \<Rightarrow> EndOut list \<times> EndState" where
  "park_session env now sid s =
     (if by_id (end_reg s) sid = None then ([], s)
      else (case record_end env now sid EndStoppedByUser s of
              (evs1, s1) \<Rightarrow>
                (case run_update env now sid (park_write now) s1 of
                   (_, evs2, s2) \<Rightarrow>
                     (map EndEv (evs1 @ evs2) @ taken_kills (by_id (end_reg s1) sid) sid @ [ClosePanes sid], s2))))"

text \<open>A session leaves the registry for good.\<close>

definition drop_session :: "EndEnv \<Rightarrow> int \<Rightarrow> string \<Rightarrow> EndState \<Rightarrow> SessionEvent list \<times> EndState" where
  "drop_session env now sid s =
     (case record_end env now sid EndStoppedByUser s of
        (evs1, s1) \<Rightarrow>
          (let s2 = delete_session_dir env sid (end_sidecar env sid s1)
           in (case remove (end_reg s2) sid of (evs2, rg) \<Rightarrow> (evs1 @ evs2, set_reg rg s2))))"

text \<open>A discard once its worktrees were removed or kept; a repeated one changes nothing.\<close>

definition discard_session :: "EndEnv \<Rightarrow> int \<Rightarrow> string \<Rightarrow> EndState \<Rightarrow> EndOut list \<times> EndState" where
  "discard_session env now sid s =
     (if by_id (end_reg s) sid = None then ([], s)
      else (case drop_session env now sid s of (evs, s') \<Rightarrow> (map EndEv evs @ [ClosePanes sid], s')))"

definition discard_abandoned :: "EndEnv \<Rightarrow> int \<Rightarrow> string \<Rightarrow> EndState \<Rightarrow> SessionEvent list \<times> EndState" where
  "discard_abandoned env now sid s = drop_session env now sid s"

text \<open>\<open>recovering\<close>: the sessions a resume has claimed. \<open>None\<close> is the error.\<close>

definition dismiss_abandoned ::
    "(string \<Rightarrow> bool) \<Rightarrow> EndEnv \<Rightarrow> int \<Rightarrow> string \<Rightarrow> EndState \<Rightarrow> (SessionEvent list \<times> EndState) option" where
  "dismiss_abandoned recovering env now sid s =
     (if recovering sid then None
      else Some (discard_abandoned env now sid
             (s\<lparr>history := snd (dismiss_start_up_loss (at_writable env) (history s) sid)\<rparr>)))"

section \<open>A headless child\<close>

datatype HeadlessEvent = HStatus SessionStatus | HRecentAction string | HMetrics

text \<open>The metrics are not part of the record here.\<close>

definition apply_headless_event :: "int \<Rightarrow> SessionRecord \<Rightarrow> HeadlessEvent \<Rightarrow> SessionRecord" where
  "apply_headless_event now r e =
     (case e of
        HStatus st \<Rightarrow> r\<lparr>status := st\<rparr>
      | HRecentAction a \<Rightarrow> push_recent_action r now a
      | HMetrics \<Rightarrow> r)"

definition headless_line :: "EndEnv \<Rightarrow> int \<Rightarrow> string \<Rightarrow> HeadlessEvent list \<Rightarrow> EndState \<Rightarrow> SessionEvent list \<times> EndState" where
  "headless_line env now sid es s =
     (if es = [] then ([], s)
      else snd (run_update env now sid (\<lambda>r. foldl (apply_headless_event now) r es) s))"

definition headless_user_stopped :: "SessionRecord \<Rightarrow> bool" where
  "headless_user_stopped r = (\<not> headless_open r \<and> status r = Stopped)"

definition headless_exit_write :: "int option \<Rightarrow> int \<Rightarrow> SessionRecord \<Rightarrow> SessionRecord" where
  "headless_exit_write exit now r =
     (let r1 = r\<lparr>status := Stopped\<rparr>
      in push_recent_action (if headless_user_stopped r then r1 else r1\<lparr>exit_code := exit\<rparr>) now
           (''exited with code '' @ (case exit of None \<Rightarrow> ''?'' | Some c \<Rightarrow> show_int c)))"

definition record_exit :: "EndEnv \<Rightarrow> int \<Rightarrow> string \<Rightarrow> int option \<Rightarrow> EndState \<Rightarrow> SessionEvent list \<times> EndState" where
  "record_exit env now sid exit s =
     (let user_stopped = (case by_id (end_reg s) sid of None \<Rightarrow> False | Some r \<Rightarrow> headless_user_stopped r)
      in (case run_update env now sid (headless_exit_write exit now) s of
            (_, evs, s1) \<Rightarrow>
              (evs @ (if user_stopped then [] else [Attention sid AttStopped]), end_sidecar env sid s1)))"

section \<open>What the client makes of it\<close>

text \<open>\<open>prev\<close> is the status of the session the sidebar holds from this connection.\<close>

definition self_exited :: "SessionStatus option \<Rightarrow> SessionSnapshot \<Rightarrow> bool" where
  "self_exited prev snap =
     ((case prev of None \<Rightarrow> False | Some st \<Rightarrow> st \<notin> {Stopped, Error}) \<and>
      snap_status snap = Stopped \<and> snap_exit_code snap \<noteq> None \<and> \<not> snap_is_inactive snap \<and>
      \<not> snap_is_abandoned snap \<and> snap_mode snap \<noteq> Headless)"

definition exit_discard :: "SessionStatus option \<Rightarrow> SessionSnapshot \<Rightarrow> bool" where
  "exit_discard prev snap = (self_exited prev snap \<and> \<not> has_per_session_worktree snap)"

end
