(* ===== verification/End_System.thy ===== *)
theory End_System
  imports Session_End
begin

text \<open>
  A session's end among everything else that writes records: the system interleaves the sections of
  stops, parks, discards and exits with the writers of the hooks, the screen watchers, the turn
  pipeline and the discovery. \<open>end_keeper\<close> is what such a writer owes a session's end; the classifier
  of a plain shell and the output of a headless child do not keep it, and run here only for the
  sessions that have one.
\<close>

section \<open>What a writer of a record leaves alone\<close>

definition end_fields :: "SessionRecord \<Rightarrow> string \<times> SessionMode \<times> bool \<times> bool \<times> bool \<times> int option \<times> bool \<times> bool \<times> SpawnConfig option" where
  "end_fields r =
     (rec_id r, mode r, shell_hosted r, pty_open r, headless_open r, exit_code r, is_abandoned r, is_inactive r,
      spawn_config r)"

text \<open>The event a writer sends after the update is at most a turn's alert.\<close>

definition is_alert :: "SessionEvent \<Rightarrow> bool" where
  "is_alert e = (case e of WaitingAlert _ _ _ _ \<Rightarrow> True | _ \<Rightarrow> False)"

locale end_keeper =
  fixes wr :: "SessionRecord \<Rightarrow> SessionEvent option option \<times> SessionRecord"
  assumes kept: "end_fields (snd (wr r)) = end_fields r"
    and stays: "status r = Stopped \<Longrightarrow> status (snd (wr r)) = Stopped"
    and follows: "pred_option (pred_option is_alert) (fst (wr r))"

lemma is_alert_alert [simp]: "is_alert (alert_event sid a)"
  by (simp add: is_alert_def alert_event_def)

lemma alerts_only [simp]: "pred_option is_alert (map_option (alert_event sid) a)"
  by (cases a) simp_all

named_theorems end_simps \<open>what the stages of a writer leave alone\<close>

lemma end_fields_update [end_simps]:
  "end_fields (r\<lparr>status := st\<rparr>) = end_fields r"
  "end_fields (r\<lparr>status_since := t\<rparr>) = end_fields r"
  "end_fields (r\<lparr>status_seq := n\<rparr>) = end_fields r"
  "end_fields (r\<lparr>recent_actions := ra\<rparr>) = end_fields r"
  "end_fields (r\<lparr>last_activity_at := la\<rparr>) = end_fields r"
  "end_fields (r\<lparr>pending_input := p\<rparr>) = end_fields r"
  "end_fields (r\<lparr>last_hook_time := ht\<rparr>) = end_fields r"
  "end_fields (r\<lparr>hook_driven := h\<rparr>) = end_fields r"
  "end_fields (r\<lparr>background := b\<rparr>) = end_fields r"
  "end_fields (r\<lparr>turn_end := te\<rparr>) = end_fields r"
  "end_fields (r\<lparr>work := wk\<rparr>) = end_fields r"
  "end_fields (r\<lparr>conversation_id := c\<rparr>) = end_fields r"
  "end_fields (r\<lparr>last_assistant_message := m\<rparr>) = end_fields r"
  "end_fields (r\<lparr>summary := sm\<rparr>) = end_fields r"
  "end_fields (r\<lparr>terminal_title := tt\<rparr>) = end_fields r"
  "end_fields (r\<lparr>program_name := pn\<rparr>) = end_fields r"
  "end_fields (r\<lparr>agent_exit_announced := ae\<rparr>) = end_fields r"
  by (simp_all add: end_fields_def shell_hosted_def)

lemma end_fields_stages [end_simps]:
  "end_fields (push_recent_action r now a) = end_fields r"
  "end_fields (snd (apply_status r now st)) = end_fields r"
  "end_fields (snd (apply_watcher_status r now st)) = end_fields r"
  "end_fields (snd (drop_provisional_line r)) = end_fields r"
  "end_fields (snd (settle_turn_end r sid)) = end_fields r"
  "end_fields (snd (stamp_change due now sid was r)) = end_fields r"
  by (auto simp: push_recent_action_def apply_status_def apply_watcher_status_def drop_provisional_line_def
        settle_turn_end_def stamp_change_def end_fields_def shell_hosted_def Let_def split: option.split prod.split)

lemma end_fields_hook_stages [end_simps]:
  "end_fields (start_agent_in_shell tg r) = end_fields r"
  "end_fields (snd (end_agent_in_shell r)) = end_fields r"
  "end_fields (clear_agent_title env r) = end_fields r"
  "end_fields (snd (land_turn_end r now keep)) = end_fields r"
  "end_fields (drop_turn_end r) = end_fields r"
  "end_fields (hold_turn_end r now bg t) = end_fields r"
  "end_fields (update_conversation_id r cid) = end_fields r"
  "end_fields (store_last_message r msg) = end_fields r"
  "end_fields (record_stop_work z r w t) = end_fields r"
  "end_fields (apply_pending u r) = end_fields r"
  "end_fields (push_summary_line r kd hl sl now) = end_fields r"
  by (auto simp: start_agent_in_shell_def end_agent_in_shell_def clear_agent_title_def land_turn_end_def
        drop_turn_end_def hold_turn_end_def update_conversation_id_def store_last_message_def record_stop_work_def
        apply_pending_def push_summary_line_def apply_status_def push_recent_action_def end_fields_def
        shell_hosted_def Let_def
      split: option.split prod.split PendingUpdate.split)

lemma end_fields_report [end_simps]:
  "end_fields (snd (settle_hook_turn_end r now rep)) = end_fields r"
  "end_fields (snd (snd (apply_agent_end env r rep))) = end_fields r"
  "end_fields (snd (apply_report_status env r rep t)) = end_fields r"
  "end_fields (snd (apply_details env r rep t)) = end_fields r"
  by (auto simp: settle_hook_turn_end_def apply_agent_end_def apply_report_status_def apply_details_def Let_def
        end_simps case_prod_beta split: option.split)

lemma end_fields_apply_report [end_simps]: "end_fields (snd (apply_report env r rep t)) = end_fields r"
  by (auto simp: apply_report_def Let_def case_prod_beta end_simps)

lemma end_fields_apply_to_record [end_simps]: "end_fields (snd (apply_to_record env r t rep)) = end_fields r"
  by (auto simp: apply_to_record_def Let_def case_prod_beta end_simps split: option.split)

lemma apply_to_record_stopped: "status r = Stopped \<Longrightarrow> status (snd (apply_to_record env r t rep)) = Stopped"
  by (auto simp: apply_to_record_def Let_def split: option.split)

section \<open>The writers that keep it\<close>

interpretation hook: end_keeper
  "\<lambda>r. (Some (map_option (alert_event sid) (turn_alert (fst (apply_to_record env r t rep)))),
        snd (apply_to_record env r t rep))" for sid env t rep
  by unfold_locales (auto simp: end_simps apply_to_record_stopped)

interpretation screen: end_keeper "screen_write from_read nxt now sid" for from_read nxt now sid
  by unfold_locales
     (auto simp: screen_write_def moved_since_def Let_def end_simps  split: option.splits)

interpretation turn_end_cleared: end_keeper
  "\<lambda>r. case turn_end_write from_read r of (ch, r') \<Rightarrow> (if ch then Some None else None, r')" for from_read
  by unfold_locales (auto simp: turn_end_write_def end_simps)

interpretation background_written: end_keeper
  "\<lambda>r. case background_write from_read on r of (ch, r') \<Rightarrow> (if ch then Some None else None, r')" for from_read on
  by unfold_locales (auto simp: background_write_def end_simps)

interpretation handed_back: end_keeper "hand_back_write env from_read now sid" for env from_read now sid
  by unfold_locales
     (auto simp: hand_back_write_def moved_since_def Let_def case_prod_beta end_simps )

interpretation line_published: end_keeper
  "\<lambda>r. case publish_line l made now sid r of (ev, r') \<Rightarrow> (Some ev, r')" for l made now sid
  by unfold_locales
     (auto simp: publish_line_def Let_def end_simps push_summary_line_def
       split: option.splits if_splits)

interpretation prompt_cleared: end_keeper
  "\<lambda>r. case clear_prompt still r of (ch, r') \<Rightarrow> (if ch then Some None else None, r')" for still
  by unfold_locales (auto simp: clear_prompt_def Let_def end_simps)

interpretation conversation_claimed: end_keeper
  "\<lambda>r. case claim_write i r of (ch, r') \<Rightarrow> (if ch then Some None else None, r')" for i
  by unfold_locales (auto simp: claim_write_def end_simps)

section \<open>The system\<close>

text \<open>
  \<open>ex_tasks\<close>: the exits being handled, each as far as it got. \<open>known\<close>: the ids in use so far;
  \<open>claimed\<close>: the sessions with a PTY of their own that a user stopped or parked while it ran, until
  they are removed.
\<close>

datatype ExitTask =
    ExitBegun string PtyExit bool bool
  | ExitRecorded string PtyExit bool bool
  | ExitUpdated string PtyExit bool bool ExitFound

record EndSys =
  est :: EndState
  ex_tasks :: "ExitTask list"
  known :: "string set"
  claimed :: "string set"

definition claims :: "SessionRecord \<Rightarrow> bool" where
  "claims r = (pty_open r \<and> \<not> shell_hosted r \<and> mode r \<noteq> Headless \<and> status r \<noteq> Error)"

definition claim_ids :: "Registry \<Rightarrow> string \<Rightarrow> string set" where
  "claim_ids rg sid = (case by_id rg sid of Some r \<Rightarrow> if claims r then {sid} else {} | None \<Rightarrow> {})"

inductive end_step :: "EndSys \<Rightarrow> SessionEvent list \<Rightarrow> EndSys \<Rightarrow> bool" where
  inserted: "rec_id r \<notin> known s \<Longrightarrow> (pty_open r \<longrightarrow> exit_code r = None \<and> mode r \<noteq> Headless) \<Longrightarrow>
     end_step s [Updated (snapshot r)]
       (s\<lparr>est := set_reg (insert_pending (end_reg (est s)) r) (est s), known := insert (rec_id r) (known s)\<rparr>)"
| written: "end_keeper wr \<Longrightarrow> update_inner d due now (end_reg (est s)) sid wr = (held, evs, rg) \<Longrightarrow>
     end_step s evs (s\<lparr>est := set_reg rg (est s)\<rparr>)"
| classified: "by_id (end_reg (est s)) sid = Some r \<Longrightarrow> shell_hosted r \<Longrightarrow>
     update d due now (end_reg (est s)) sid (transition_write rd nxt now) = (held, evs, rg) \<Longrightarrow>
     end_step s evs (s\<lparr>est := set_reg rg (est s)\<rparr>)"
| headless_output: "by_id (end_reg (est s)) sid = Some r \<Longrightarrow> mode r = Headless \<Longrightarrow>
     headless_line env now sid es (est s) = (evs, e) \<Longrightarrow> end_step s evs (s\<lparr>est := e\<rparr>)"
| headless_ended: "by_id (end_reg (est s)) sid = Some r \<Longrightarrow> mode r = Headless \<Longrightarrow>
     record_exit env now sid code (est s) = (evs, e) \<Longrightarrow> end_step s evs (s\<lparr>est := e\<rparr>)"
| looked: "run_final_look env now sid (est s) = (evs, e) \<Longrightarrow> end_step s evs (s\<lparr>est := e\<rparr>)"
| stop_recorded: "record_end env now sid EndStoppedByUser (est s) = (evs, e) \<Longrightarrow> end_step s evs (s\<lparr>est := e\<rparr>)"
| stop_claimed: "run_update env now sid (stop_write now) (est s) = (held, evs, e) \<Longrightarrow>
     end_step s evs (s\<lparr>est := e, claimed := claimed s \<union> claim_ids (end_reg (est s)) sid\<rparr>)"
| live_stop_claimed: "live_stop_updated env now sid (est s) = (stopped, evs, e) \<Longrightarrow>
     end_step s evs (s\<lparr>est := e, claimed := claimed s \<union> claim_ids (end_reg (est s)) sid\<rparr>)"
| park_claimed: "run_update env now sid (park_write now) (est s) = (held, evs, e) \<Longrightarrow>
     end_step s evs (s\<lparr>est := e, claimed := claimed s \<union> claim_ids (end_reg (est s)) sid\<rparr>)"
| sidecar_ended: "end_step s [] (s\<lparr>est := end_sidecar env sid (est s)\<rparr>)"
| dir_deleted: "end_step s [] (s\<lparr>est := delete_session_dir env sid (est s)\<rparr>)"
| removed: "remove (end_reg (est s)) sid = (evs, rg) \<Longrightarrow>
     end_step s evs (s\<lparr>est := set_reg rg (est s), claimed := claimed s - {sid}\<rparr>)"
| exit_begun: "sid \<in> known s \<Longrightarrow>
     end_step s [] (s\<lparr>ex_tasks := ex_tasks s @
       [ExitBegun sid exit dirs (kept_for_shutdown shutting_down dirs (end_reg (est s)) sid)]\<rparr>)"
| exit_recorded: "ex_tasks s = before @ ExitBegun sid exit dirs kept # after \<Longrightarrow>
     exit_recorded env now sid exit dirs kept (est s) = (evs, e) \<Longrightarrow>
     end_step s evs (s\<lparr>est := e, ex_tasks := before @ ExitRecorded sid exit dirs kept # after\<rparr>)"
| exit_updated: "ex_tasks s = before @ ExitRecorded sid exit dirs kept # after \<Longrightarrow>
     exit_updated env now sid exit kept (est s) = (fd, evs, e) \<Longrightarrow>
     end_step s evs (s\<lparr>est := e, ex_tasks := before @ ExitUpdated sid exit dirs kept fd # after\<rparr>)"
| exit_finished: "ex_tasks s = before @ ExitUpdated sid exit dirs kept fd # after \<Longrightarrow>
     exit_finished env sid exit dirs kept fd (est s) = (facts, evs, e) \<Longrightarrow>
     end_step s evs (s\<lparr>est := e, ex_tasks := before @ after\<rparr>)"

inductive_cases end_stepE: "end_step s evs s'"

inductive end_reach :: "EndSys \<Rightarrow> EndSys \<Rightarrow> bool" for s0 where
  start: "end_reach s0 s0"
| move: "end_reach s0 s \<Longrightarrow> end_step s evs s' \<Longrightarrow> end_reach s0 s'"

definition fresh_ends :: "EndSys \<Rightarrow> bool" where
  "fresh_ends s \<longleftrightarrow> by_id (end_reg (est s)) = Map.empty \<and> ex_tasks s = [] \<and> claimed s = {}"

section \<open>What an update announces\<close>

definition quiet :: "string set \<Rightarrow> SessionEvent \<Rightarrow> bool" where
  "quiet C e \<longleftrightarrow>
     (case e of
        Updated snap \<Rightarrow> snap_id snap \<in> C \<longrightarrow> snap_status snap = Stopped \<and> snap_exit_code snap = None
      | Attention sid _ \<Rightarrow> sid \<notin> C
      | _ \<Rightarrow> True)"

lemma quiet_alert: "is_alert e \<Longrightarrow> quiet C e"
  by (cases e) (simp_all add: is_alert_def quiet_def)

lemma snapshot_fields [simp]:
  "snap_id (snapshot r) = rec_id r" "snap_status (snapshot r) = status r" "snap_exit_code (snapshot r) = exit_code r"
  by (simp_all add: snapshot_def)

lemma stamp_alert: "pred_option is_alert (fst (stamp_change due now sid was r))"
  by (auto simp: stamp_change_def settle_turn_end_def Let_def case_prod_beta split: option.split)

text \<open>A change of a held record: what it becomes, and that only its snapshot and alerts go out.\<close>

lemma update_inner_events:
  assumes run: "update_inner d due now rg sid wr = (held, evs, rg')"
    and found: "by_id rg sid = Some r"
    and alerts: "pred_option (pred_option is_alert) (fst (wr r))"
  shows "\<exists>r'. by_id rg' = (by_id rg)(sid \<mapsto> r') \<and> status r' = status (snd (wr r)) \<and>
    end_fields r' = end_fields (snd (wr r)) \<and>
    set evs \<subseteq> {Updated (snapshot r')} \<union> Collect is_alert \<union>
      (if status r \<noteq> Error \<and> status r' = Error then {Attention sid AttError} else {}) \<and>
    (fst (wr r) \<noteq> None \<longrightarrow> Updated (snapshot r') \<in> set evs)"
proof -
  obtain fo r1 where wr: "wr r = (fo, r1)" by fastforce
  show ?thesis
  proof (cases fo)
    case None
    with run found wr have "by_id rg' = (by_id rg)(sid \<mapsto> r1)" "evs = []"
      by (auto simp: update_inner_def update_locked_def)
    with wr None show ?thesis by (intro exI [of _ r1]) simp
  next
    case (Some follow)
    define r2 where "r2 = (if status r1 \<noteq> status r then snd (stamp_change (due sid) now sid (status r) r1) else r1)"
    have r2: "status r2 = status r1" "end_fields r2 = end_fields r1" by (simp_all add: r2_def record_simps end_simps)
    from run found wr Some have "by_id rg' = (by_id rg)(sid \<mapsto> r2)"
      using update_inner_by_id [of d due now rg sid wr]
      by (simp add: update_locked_def Let_def case_prod_beta r2_def)
    moreover have "set evs \<subseteq> {Updated (snapshot r2)} \<union> Collect is_alert \<union>
        (if status r \<noteq> Error \<and> status r2 = Error then {Attention sid AttError} else {})"
      using run found wr Some alerts r2(1) stamp_alert [of "due sid" now sid "status r" r1]
      by (auto simp: update_inner_def update_locked_def finish_update_def Let_def case_prod_beta r2_def
            split: option.splits if_splits)
    moreover have "Updated (snapshot r2) \<in> set evs"
      using run found wr Some
      by (auto simp: update_inner_def update_locked_def finish_update_def Let_def case_prod_beta r2_def)
    ultimately show ?thesis using wr r2 by (intro exI [of _ r2]) simp
  qed
qed

lemma update_inner_gone:
  "by_id rg sid = None \<Longrightarrow> update_inner d due now rg sid wr = (held, evs, rg') \<Longrightarrow> evs = [] \<and> rg' = rg"
  by (simp add: update_inner_def)

section \<open>The invariant\<close>

definition claimed_ok :: "SessionRecord \<Rightarrow> bool" where
  "claimed_ok r \<longleftrightarrow> status r = Stopped \<and> \<not> pty_open r \<and> exit_code r = None \<and> \<not> shell_hosted r \<and> mode r \<noteq> Headless"

definition ends_ok :: "string set \<Rightarrow> Registry \<Rightarrow> bool" where
  "ends_ok C rg \<longleftrightarrow>
     (\<forall>sid r. by_id rg sid = Some r \<longrightarrow>
        rec_id r = sid \<and> (pty_open r \<longrightarrow> exit_code r = None \<and> mode r \<noteq> Headless) \<and> (sid \<in> C \<longrightarrow> claimed_ok r))"

lemma claimed_ok_cong: "status r = status r' \<Longrightarrow> end_fields r = end_fields r' \<Longrightarrow> claimed_ok r = claimed_ok r'"
  by (simp add: claimed_ok_def end_fields_def)

text \<open>A change that takes nothing from the ends: the same sessions, each with its end fields.\<close>

definition moves :: "string set \<Rightarrow> Registry \<Rightarrow> SessionEvent list \<Rightarrow> Registry \<Rightarrow> bool" where
  "moves C rg evs rg' \<longleftrightarrow>
     (\<forall>sid. case by_id rg sid of
        None \<Rightarrow> by_id rg' sid = None
      | Some r \<Rightarrow> \<exists>r'. by_id rg' sid = Some r' \<and> end_fields r' = end_fields r \<and>
          (status r = Stopped \<longrightarrow> status r' = Stopped)) \<and>
     (\<forall>e \<in> set evs. quiet C e)"

lemma moves_refl: "moves C rg [] rg"
  by (simp add: moves_def split: option.split)

lemma movesD:
  assumes "moves C rg evs rg'" and "by_id rg sid = Some r"
  obtains r' where "by_id rg' sid = Some r'" "end_fields r' = end_fields r" "status r = Stopped \<longrightarrow> status r' = Stopped"
proof -
  from assms(1) have "case by_id rg sid of
        None \<Rightarrow> by_id rg' sid = None
      | Some r \<Rightarrow> \<exists>r'. by_id rg' sid = Some r' \<and> end_fields r' = end_fields r \<and>
          (status r = Stopped \<longrightarrow> status r' = Stopped)" by (simp add: moves_def)
  with assms(2) that show thesis by auto
qed

lemma moves_None: "moves C rg evs rg' \<Longrightarrow> by_id rg' sid = None \<longleftrightarrow> by_id rg sid = None"
  by (auto simp: moves_def split: option.splits dest!: spec [of _ sid])

lemma moves_trans:
  assumes one: "moves C rg evs rg1" and two: "moves C rg1 evs' rg2"
  shows "moves C rg (evs @ evs') rg2"
  unfolding moves_def
proof (intro conjI allI)
  fix sid
  show "case by_id rg sid of
        None \<Rightarrow> by_id rg2 sid = None
      | Some r \<Rightarrow> \<exists>r'. by_id rg2 sid = Some r' \<and> end_fields r' = end_fields r \<and>
          (status r = Stopped \<longrightarrow> status r' = Stopped)"
  proof (cases "by_id rg sid")
    case None
    with moves_None [OF one] moves_None [OF two] show ?thesis by simp
  next
    case (Some r)
    from movesD [OF one Some] obtain r1 where "by_id rg1 sid = Some r1" "end_fields r1 = end_fields r"
        "status r = Stopped \<longrightarrow> status r1 = Stopped" .
    moreover from movesD [OF two this(1)] obtain r2 where "by_id rg2 sid = Some r2" "end_fields r2 = end_fields r1"
        "status r1 = Stopped \<longrightarrow> status r2 = Stopped" .
    ultimately show ?thesis using Some by simp
  qed
qed (use one two in \<open>auto simp: moves_def\<close>)

lemma moves_same: "by_id rg' = by_id rg \<Longrightarrow> moves C rg [] rg'"
  by (simp add: moves_def split: option.split)

lemma moves_ok:
  assumes "ends_ok C rg" "moves C rg evs rg'"
  shows "ends_ok C rg'"
  unfolding ends_ok_def
proof (intro allI impI)
  fix sid r'
  assume r': "by_id rg' sid = Some r'"
  with assms(2) obtain r where r: "by_id rg sid = Some r" "end_fields r' = end_fields r"
      "status r = Stopped \<longrightarrow> status r' = Stopped"
    by (force simp: moves_def split: option.splits)
  with assms(1) have "rec_id r = sid" "pty_open r \<longrightarrow> exit_code r = None \<and> mode r \<noteq> Headless" "sid \<in> C \<longrightarrow> claimed_ok r"
    by (auto simp: ends_ok_def)
  with r show "rec_id r' = sid \<and> (pty_open r' \<longrightarrow> exit_code r' = None \<and> mode r' \<noteq> Headless) \<and> (sid \<in> C \<longrightarrow> claimed_ok r')"
    by (auto simp: end_fields_def claimed_ok_def)
qed

text \<open>A held record's update seen from the ends: the record and the quiet of what goes out.\<close>

lemma update_quiet:
  assumes run: "update_inner d due now rg sid wr = (held, evs, rg')"
    and found: "by_id rg sid = Some r" and id: "rec_id (snd (wr r)) = sid"
    and alerts: "pred_option (pred_option is_alert) (fst (wr r))"
    and ok: "sid \<in> C \<longrightarrow> claimed_ok (snd (wr r))"
  obtains r' where "by_id rg' = (by_id rg)(sid \<mapsto> r')" "status r' = status (snd (wr r))"
    "end_fields r' = end_fields (snd (wr r))" "\<forall>e \<in> set evs. quiet C e"
proof -
  from update_inner_events [OF run found alerts] obtain r' where r': "by_id rg' = (by_id rg)(sid \<mapsto> r')"
      "status r' = status (snd (wr r))" "end_fields r' = end_fields (snd (wr r))"
      "set evs \<subseteq> {Updated (snapshot r')} \<union> Collect is_alert \<union>
         (if status r \<noteq> Error \<and> status r' = Error then {Attention sid AttError} else {})" by blast
  have same: "claimed_ok r' = claimed_ok (snd (wr r))" using r'(2,3) by (rule claimed_ok_cong)
  have "quiet C (Updated (snapshot r'))"
    using same ok r'(3) id by (auto simp: quiet_def claimed_ok_def end_fields_def)
  moreover have "quiet C (Attention sid AttError)" if "status r' = Error"
    using same ok that by (auto simp: quiet_def claimed_ok_def)
  ultimately have "\<forall>e \<in> set evs. quiet C e" using r'(4) quiet_alert by (auto split: if_splits)
  with r' that show thesis by blast
qed

context end_keeper begin

lemma keeper_moves:
  assumes run: "update_inner d due now rg sid wr = (held, evs, rg')" and ok: "ends_ok C rg"
  shows "moves C rg evs rg'"
proof (cases "by_id rg sid")
  case None
  with update_inner_gone [OF None run] show ?thesis using moves_refl by simp
next
  case (Some r)
  with ok have r: "rec_id r = sid" "sid \<in> C \<longrightarrow> claimed_ok r" by (auto simp: ends_ok_def)
  have "rec_id (snd (wr r)) = sid" "sid \<in> C \<longrightarrow> claimed_ok (snd (wr r))"
    using kept [of r] stays [of r] r by (auto simp: end_fields_def claimed_ok_def)
  from update_quiet [OF run Some this(1) follows this(2)] kept [of r] stays [of r]
  obtain r' where "by_id rg' = (by_id rg)(sid \<mapsto> r')" "end_fields r' = end_fields r"
      "status r = Stopped \<longrightarrow> status r' = Stopped" "\<forall>e \<in> set evs. quiet C e" by metis
  with Some show ?thesis by (auto simp: moves_def split: option.split)
qed

end

section \<open>The final look moves nothing\<close>

lemma claim_moves:
  assumes "claim d due now sid i late s = (w, evs, s')" and "ends_ok C (disc_reg s)"
  shows "moves C (disc_reg s) evs (disc_reg s')"
proof (cases "sid \<notin> set (map w_session_id (waiters s)) \<and> \<not> late")
  case True
  with assms(1) show ?thesis by (auto simp: claim_eq moves_refl)
next
  case False
  then obtain held where "update_inner d due now (disc_reg s) sid
      (\<lambda>r. case claim_write i r of (ch, r') \<Rightarrow> (if ch then Some None else None, r')) = (held, evs, disc_reg s')"
    using assms(1) by (auto simp: claim_eq update_if_changed_def prod_eq_iff)
  from conversation_claimed.keeper_moves [OF this assms(2)] show ?thesis .
qed

lemma apply_outcome_moves:
  assumes "apply_outcome disks storable due now w look (evs, s) out = (evs', s')" and "ends_ok C (disc_reg s)"
  shows "\<exists>new. evs' = evs @ new \<and> moves C (disc_reg s) new (disc_reg s')"
proof (cases out)
  case (ClaimBy sid i)
  obtain wr new s1 where "claim (disks sid) due now sid i (look \<and> sid = w_session_id w) s = (wr, new, s1)"
    by (metis prod_cases3)
  with claim_moves [OF this assms(2)] assms(1) ClaimBy show ?thesis by (auto simp: apply_outcome_def)
next
  case (Contest i)
  with assms(1) show ?thesis by (auto simp: apply_outcome_def moves_refl)
qed

lemma outcomes_moves:
  assumes "foldl (apply_outcome disks storable due now w look) (evs, s) outs = (evs', s')" and "ends_ok C (disc_reg s)"
  shows "\<exists>new. evs' = evs @ new \<and> moves C (disc_reg s) new (disc_reg s')"
  using assms
proof (induction outs arbitrary: evs s)
  case Nil
  then show ?case by (auto simp: moves_refl)
next
  case (Cons out outs)
  obtain evs1 s1 where first: "apply_outcome disks storable due now w look (evs, s) out = (evs1, s1)" by fastforce
  from apply_outcome_moves [OF first Cons.prems(2)] obtain new where new: "evs1 = evs @ new"
      "moves C (disc_reg s) new (disc_reg s1)" by blast
  with Cons.IH [of evs1 s1] Cons.prems first moves_ok obtain more where
    "evs' = evs1 @ more" "moves C (disc_reg s1) more (disc_reg s')" by auto
  with new moves_trans show ?case by fastforce
qed

lemma pass_moves:
  assumes "pass finder disks storable due listed entries now w by s = (evs, s')" and "ends_ok C (disc_reg s)"
  shows "moves C (disc_reg s) evs (disc_reg s')"
  using assms outcomes_moves [where evs = "[]" and evs' = evs, OF _ assms(2)]
  by (fastforce simp: pass_def Let_def moves_refl split: if_splits)

lemma run_final_look_moves:
  assumes "run_final_look env now sid s = (evs, s')" and "ends_ok C (end_reg s)"
  shows "moves C (end_reg s) evs (end_reg s')"
  using assms pass_moves
  by (fastforce simp: run_final_look_def final_look_def moves_refl split: prod.splits option.splits if_splits)

lemma record_end_moves:
  assumes "record_end env now sid e s = (evs, s')" and "ends_ok C (end_reg s)"
  shows "moves C (end_reg s) evs (end_reg s')"
  using assms run_final_look_moves
  by (fastforce simp: record_end_def moves_refl split: prod.splits if_splits)

lemma exit_recorded_moves:
  assumes "exit_recorded env now sid exit dirs kept s = (evs, s')" and "ends_ok C (end_reg s)"
  shows "moves C (end_reg s) evs (end_reg s')"
  using assms run_final_look_moves [of env now sid s evs s' C] record_end_moves [of env now sid _ s evs s' C]
  by (auto simp: exit_recorded_def moves_refl split: if_splits)

section \<open>The invariant of the system\<close>

fun task_session :: "ExitTask \<Rightarrow> string" where
  "task_session (ExitBegun sid _ _ _) = sid"
| "task_session (ExitRecorded sid _ _ _) = sid"
| "task_session (ExitUpdated sid _ _ _ _) = sid"

text \<open>An exit that has updated its record has closed the PTY; after a stop it found the stop.\<close>

fun task_ok :: "string set \<Rightarrow> Registry \<Rightarrow> ExitTask \<Rightarrow> bool" where
  "task_ok C rg (ExitUpdated sid _ _ _ fd) \<longleftrightarrow>
     (\<forall>r. by_id rg sid = Some r \<longrightarrow> \<not> pty_open r) \<and> (sid \<in> C \<longrightarrow> fd_user_stopped fd \<and> \<not> fd_abandoned fd)"
| "task_ok C rg _ \<longleftrightarrow> True"

definition ends_inv :: "EndSys \<Rightarrow> bool" where
  "ends_inv s \<longleftrightarrow>
     ends_ok (claimed s) (end_reg (est s)) \<and>
     (\<forall>sid. by_id (end_reg (est s)) sid \<noteq> None \<longrightarrow> sid \<in> known s) \<and>
     (\<forall>sid \<in> claimed s. by_id (end_reg (est s)) sid \<noteq> None) \<and>
     (\<forall>t \<in> set (ex_tasks s). task_session t \<in> known s \<and> task_ok (claimed s) (end_reg (est s)) t)"

lemma task_ok_mono:
  assumes "task_ok C rg t"
    and "\<And>sid r'. by_id rg' sid = Some r' \<Longrightarrow> sid = task_session t \<Longrightarrow> pty_open r' \<Longrightarrow> \<exists>r. by_id rg sid = Some r \<and> pty_open r"
    and "task_session t \<in> C' \<Longrightarrow> task_session t \<in> C \<or> (\<exists>r. by_id rg (task_session t) = Some r \<and> pty_open r)"
  shows "task_ok C' rg' t"
  using assms by (cases t) fastforce+

text \<open>A step that only moves the registry.\<close>

lemma inv_moves:
  assumes inv: "ends_inv s" and m: "moves (claimed s) (end_reg (est s)) evs (end_reg e)"
  shows "ends_inv (s\<lparr>est := e\<rparr>) \<and> (\<forall>e \<in> set evs. quiet (claimed s) e)"
proof -
  have "task_ok (claimed s) (end_reg e) t" if "t \<in> set (ex_tasks s)" for t
  proof (rule task_ok_mono)
    show "task_ok (claimed s) (end_reg (est s)) t" using inv that by (simp add: ends_inv_def)
    fix sid r' assume r': "by_id (end_reg e) sid = Some r'" "pty_open r'"
    then obtain r where r: "by_id (end_reg (est s)) sid = Some r" using moves_None [OF m, of sid] by auto
    from movesD [OF m r] r' have "end_fields r' = end_fields r" by auto
    with r r'(2) show "\<exists>r. by_id (end_reg (est s)) sid = Some r \<and> pty_open r" by (simp add: end_fields_def)
  qed simp
  then show ?thesis
    using inv m moves_ok [OF _ m] by (auto simp: ends_inv_def moves_None [OF m] moves_def [of _ _ evs])
qed

text \<open>A step that updates one record.\<close>

lemma inv_update:
  assumes inv: "ends_inv s" and run: "update_inner d due now (end_reg (est s)) sid wr = (held, evs, rg)"
    and C': "C' = claimed s \<union> (if by_id (end_reg (est s)) sid = None then {} else add)" and add: "add \<subseteq> {sid}"
    and rec: "\<And>r. by_id (end_reg (est s)) sid = Some r \<Longrightarrow> rec_id r = sid \<Longrightarrow>
      (pty_open r \<longrightarrow> exit_code r = None \<and> mode r \<noteq> Headless) \<Longrightarrow> (sid \<in> claimed s \<longrightarrow> claimed_ok r) \<Longrightarrow>
      pred_option (pred_option is_alert) (fst (wr r)) \<and> rec_id (snd (wr r)) = sid \<and>
      (pty_open (snd (wr r)) \<longrightarrow> pty_open r \<and> exit_code (snd (wr r)) = None \<and> mode (snd (wr r)) \<noteq> Headless) \<and>
      (sid \<in> claimed s \<union> add \<longrightarrow> claimed_ok (snd (wr r))) \<and> (sid \<in> add \<longrightarrow> pty_open r)"
  shows "ends_inv (s\<lparr>est := set_reg rg (est s), claimed := C'\<rparr>) \<and> (\<forall>e \<in> set evs. quiet (claimed s) e) \<and>
    (\<forall>r'. by_id rg sid = Some r' \<longrightarrow>
       (\<exists>r. by_id (end_reg (est s)) sid = Some r \<and> end_fields r' = end_fields (snd (wr r))))"
proof (cases "by_id (end_reg (est s)) sid")
  case None
  with update_inner_gone [OF None run] have "s\<lparr>est := set_reg rg (est s), claimed := C'\<rparr> = s" "evs = []"
    by (simp_all add: set_reg_def C')
  with inv None update_inner_gone [OF None run] show ?thesis by simp
next
  case (Some r)
  with inv have r: "rec_id r = sid" "pty_open r \<longrightarrow> exit_code r = None \<and> mode r \<noteq> Headless" "sid \<in> claimed s \<longrightarrow> claimed_ok r"
    by (auto simp: ends_inv_def ends_ok_def)
  note w = rec [OF Some r]
  from update_quiet [OF run Some, of "claimed s"] w obtain r' where r': "by_id rg = (by_id (end_reg (est s)))(sid \<mapsto> r')"
      "status r' = status (snd (wr r))" "end_fields r' = end_fields (snd (wr r))"
      "\<forall>e \<in> set evs. quiet (claimed s) e" by blast
  have fields: "rec_id r' = sid" "pty_open r' \<longrightarrow> pty_open r \<and> exit_code r' = None \<and> mode r' \<noteq> Headless"
    using w r'(3) by (simp_all add: end_fields_def)
  have "sid \<in> C' \<longrightarrow> claimed_ok r'" using w claimed_ok_cong [OF r'(2,3)] Some by (auto simp: C')
  with inv r'(1) fields add Some have ok: "ends_ok C' rg"
    by (auto simp: ends_inv_def ends_ok_def C' split: if_splits)
  have "task_ok C' rg t" if t: "t \<in> set (ex_tasks s)" for t
  proof (rule task_ok_mono)
    show "task_ok (claimed s) (end_reg (est s)) t" using inv t by (simp add: ends_inv_def)
    show "\<exists>q. by_id (end_reg (est s)) i = Some q \<and> pty_open q"
      if "by_id rg i = Some q'" "pty_open q'" for i q'
      using that r'(1) fields(2) Some by (cases "i = sid") auto
    show "task_session t \<in> C' \<Longrightarrow> task_session t \<in> claimed s \<or> (\<exists>q. by_id (end_reg (est s)) (task_session t) = Some q \<and> pty_open q)"
      using w add Some by (auto simp: C')
  qed
  with inv ok r'(1) Some add show ?thesis
    using r'(3,4) by (auto simp: ends_inv_def set_reg_def C' split: if_splits)
qed

lemma run_update_inner:
  "run_update env now sid f s = (held, evs, e) \<Longrightarrow>
     \<exists>rg. update_inner (at_disks env sid) (at_line_due env) now (end_reg s) sid (\<lambda>r. (Some None, f r)) = (held, evs, rg) \<and>
       e = set_reg rg s"
  by (auto simp: run_update_def update_def split: prod.splits)

text \<open>What each writer of an end makes of a record.\<close>

lemma end_writes:
  "end_fields (stop_write now r) = (rec_id r, mode r, shell_hosted r, False, False, exit_code r, is_abandoned r, False, spawn_config r)"
  "status (stop_write now r) = Stopped"
  "end_fields (park_write now r) = (rec_id r, mode r, shell_hosted r, False, False, exit_code r, is_abandoned r, True, spawn_config r)"
  "status r \<noteq> Error \<Longrightarrow> status (park_write now r) = Stopped"
  "end_fields (exit_write kept exit now r) =
     (rec_id r, mode r, shell_hosted r, False, headless_open r,
      if exit_abandons kept exit r then None else if exit_user_stopped r then exit_code r else Some (pty_exit_code exit),
      is_abandoned r \<or> exit_abandons kept exit r, is_inactive r, spawn_config r)"
  "status (exit_write kept exit now r) = Stopped"
  "end_fields (transition_write rd nxt now r) = end_fields r"
  by (auto simp: stop_write_def park_write_def exit_write_def transition_write_def end_fields_def shell_hosted_def
        push_recent_action_def apply_watcher_status_def apply_status_def Let_def)

lemma end_writes_by_field:
  "rec_id (stop_write now r) = rec_id r" "pty_open (stop_write now r) = False" "exit_code (stop_write now r) = exit_code r"
  "mode (stop_write now r) = mode r" "shell_hosted (stop_write now r) = shell_hosted r"
  "rec_id (park_write now r) = rec_id r" "pty_open (park_write now r) = False" "exit_code (park_write now r) = exit_code r"
  "mode (park_write now r) = mode r" "shell_hosted (park_write now r) = shell_hosted r"
  "rec_id (exit_write kept exit now r) = rec_id r" "pty_open (exit_write kept exit now r) = False"
  "mode (exit_write kept exit now r) = mode r" "shell_hosted (exit_write kept exit now r) = shell_hosted r"
  "exit_code (exit_write kept exit now r) =
     (if exit_abandons kept exit r then None else if exit_user_stopped r then exit_code r else Some (pty_exit_code exit))"
  "rec_id (transition_write rd nxt now r) = rec_id r" "pty_open (transition_write rd nxt now r) = pty_open r"
  "exit_code (transition_write rd nxt now r) = exit_code r" "shell_hosted (transition_write rd nxt now r) = shell_hosted r"
  using end_writes(1,3,5,7) by (simp_all add: end_fields_def)

lemma headless_writes:
  "end_fields (foldl (apply_headless_event now) r es) = end_fields r"
  "rec_id (headless_exit_write code now r) = rec_id r" "pty_open (headless_exit_write code now r) = pty_open r"
proof -
  show "end_fields (foldl (apply_headless_event now) r es) = end_fields r"
    by (induction es arbitrary: r) (simp_all add: apply_headless_event_def end_simps split: HeadlessEvent.split)
qed (simp_all add: headless_exit_write_def push_recent_action_def Let_def)

lemma claimed_no_shell: "claimed_ok r \<Longrightarrow> \<not> shell_hosted r \<and> mode r \<noteq> Headless"
  by (simp add: claimed_ok_def)

lemma claim_ids_alt:
  "claim_ids rg sid = (if by_id rg sid = None then {} else if claims (the (by_id rg sid)) then {sid} else {})"
  by (simp add: claim_ids_def split: option.split)

lemma stop_claims:
  assumes inv: "ends_inv s"
    and run: "update_inner d due now (end_reg (est s)) sid wr = (held, evs, rg)"
    and C': "C' = claimed s \<union> claim_ids (end_reg (est s)) sid"
    and wr: "\<And>r. fst (wr r) = Some None \<and> (snd (wr r) = stop_write now r \<or> snd (wr r) = park_write now r) \<or>
      fst (wr r) = None \<and> snd (wr r) = r \<and> \<not> pty_open r"
  shows "ends_inv (s\<lparr>est := set_reg rg (est s), claimed := C'\<rparr>) \<and> (\<forall>e \<in> set evs. quiet (claimed s) e)"
proof -
  define add where "add = claim_ids (end_reg (est s)) sid"
  have "C' = claimed s \<union> (if by_id (end_reg (est s)) sid = None then {} else add)"
    by (auto simp: C' add_def claim_ids_alt)
  moreover have "add \<subseteq> {sid}" by (auto simp: add_def claim_ids_alt)
  moreover have "pred_option (pred_option is_alert) (fst (wr r)) \<and> rec_id (snd (wr r)) = sid \<and>
      (pty_open (snd (wr r)) \<longrightarrow> pty_open r \<and> exit_code (snd (wr r)) = None \<and> mode (snd (wr r)) \<noteq> Headless) \<and>
      (sid \<in> claimed s \<union> add \<longrightarrow> claimed_ok (snd (wr r))) \<and> (sid \<in> add \<longrightarrow> pty_open r)"
    if r: "by_id (end_reg (est s)) sid = Some r" "rec_id r = sid"
      "pty_open r \<longrightarrow> exit_code r = None \<and> mode r \<noteq> Headless" "sid \<in> claimed s \<longrightarrow> claimed_ok r" for r
    using wr [of r] r
    by (auto simp: end_writes_by_field end_writes(2,4) claimed_ok_def add_def claim_ids_alt claims_def
          split: if_splits)
  ultimately show ?thesis using inv_update [OF inv run, of C' add] by blast
qed

lemma plain_update:
  assumes "ends_inv s" and "update_inner d due now (end_reg (est s)) sid wr = (held, evs, rg)"
    and "\<And>r. by_id (end_reg (est s)) sid = Some r \<Longrightarrow> rec_id r = sid \<Longrightarrow>
      (pty_open r \<longrightarrow> exit_code r = None \<and> mode r \<noteq> Headless) \<Longrightarrow> (sid \<in> claimed s \<longrightarrow> claimed_ok r) \<Longrightarrow>
      pred_option (pred_option is_alert) (fst (wr r)) \<and> rec_id (snd (wr r)) = sid \<and>
      (pty_open (snd (wr r)) \<longrightarrow> pty_open r \<and> exit_code (snd (wr r)) = None \<and> mode (snd (wr r)) \<noteq> Headless) \<and>
      (sid \<in> claimed s \<longrightarrow> claimed_ok (snd (wr r)))"
  shows "ends_inv (s\<lparr>est := set_reg rg (est s)\<rparr>) \<and> (\<forall>e \<in> set evs. quiet (claimed s) e)"
proof -
  have "ends_inv (s\<lparr>est := set_reg rg (est s), claimed := claimed s\<rparr>) \<and> (\<forall>e \<in> set evs. quiet (claimed s) e) \<and>
    (\<forall>r'. by_id rg sid = Some r' \<longrightarrow>
       (\<exists>r. by_id (end_reg (est s)) sid = Some r \<and> end_fields r' = end_fields (snd (wr r))))"
    using assms(3) by (intro inv_update [OF assms(1,2), where add = "{}"]) auto
  then show ?thesis by simp
qed

lemma classified_ok:
  assumes "ends_inv s" and "by_id (end_reg (est s)) sid = Some r" and "shell_hosted r"
    and "update d due now (end_reg (est s)) sid (transition_write rd nxt now) = (held, evs, rg)"
  shows "ends_inv (s\<lparr>est := set_reg rg (est s)\<rparr>) \<and> (\<forall>e \<in> set evs. quiet (claimed s) e)"
proof (rule plain_update [OF assms(1) assms(4) [unfolded update_def]])
  have "mode (transition_write rd nxt now q) = mode q" for q
    using end_writes(7) [of rd nxt now q] by (simp add: end_fields_def)
  then show "pred_option (pred_option is_alert) (fst (Some None, transition_write rd nxt now q)) \<and>
      rec_id (snd (Some (None :: SessionEvent option), transition_write rd nxt now q)) = sid \<and>
      (pty_open (snd (Some (None :: SessionEvent option), transition_write rd nxt now q)) \<longrightarrow> pty_open q \<and>
         exit_code (snd (Some (None :: SessionEvent option), transition_write rd nxt now q)) = None \<and>
         mode (snd (Some (None :: SessionEvent option), transition_write rd nxt now q)) \<noteq> Headless) \<and>
      (sid \<in> claimed s \<longrightarrow> claimed_ok (snd (Some (None :: SessionEvent option), transition_write rd nxt now q)))"
    if "by_id (end_reg (est s)) sid = Some q" "rec_id q = sid"
      "pty_open q \<longrightarrow> exit_code q = None \<and> mode q \<noteq> Headless" "sid \<in> claimed s \<longrightarrow> claimed_ok q" for q
    using that assms(2,3) claimed_no_shell by (auto simp: end_writes_by_field)
qed

lemma headless_update_ok:
  assumes "ends_inv s" and "by_id (end_reg (est s)) sid = Some r" and "mode r = Headless"
    and "run_update env now sid f (est s) = (held, evs, e)"
    and f: "\<And>q. rec_id (f q) = rec_id q \<and> pty_open (f q) = pty_open q"
  shows "ends_inv (s\<lparr>est := e\<rparr>) \<and> (\<forall>e \<in> set evs. quiet (claimed s) e) \<and> sid \<notin> claimed s"
proof -
  from run_update_inner [OF assms(4)] obtain rg where
    run: "update_inner (at_disks env sid) (at_line_due env) now (end_reg (est s)) sid (\<lambda>r. (Some None, f r)) = (held, evs, rg)"
    and e: "e = set_reg rg (est s)" by blast
  have "sid \<notin> claimed s"
    using assms(1-3) by (auto simp: ends_inv_def ends_ok_def claimed_ok_def)
  moreover have "\<not> pty_open r" using assms(1-3) by (auto simp: ends_inv_def ends_ok_def)
  ultimately show ?thesis
    unfolding e using plain_update [OF assms(1) run] assms(2) f by simp
qed

lemma exit_updated_ok:
  assumes inv: "ends_inv s" and task: "ex_tasks s = before @ ExitRecorded sid exit dirs kept # after"
    and run: "exit_updated env now sid exit kept (est s) = (fd, evs, e)"
  shows "ends_inv (s\<lparr>est := e, ex_tasks := before @ ExitUpdated sid exit dirs kept fd # after\<rparr>) \<and>
    (\<forall>e \<in> set evs. quiet (claimed s) e)"
proof -
  obtain held where upd: "run_update env now sid (exit_write kept exit now) (est s) = (held, evs, e)"
    and fd: "fd = exit_found kept exit (by_id (end_reg (est s)) sid)"
    using run by (auto simp: exit_updated_def split: prod.splits)
  from run_update_inner [OF upd] obtain rg where
    inner: "update_inner (at_disks env sid) (at_line_due env) now (end_reg (est s)) sid
       (\<lambda>r. (Some None, exit_write kept exit now r)) = (held, evs, rg)" and e: "e = set_reg rg (est s)" by blast
  have ok: "ends_inv (s\<lparr>est := e\<rparr>) \<and> (\<forall>e \<in> set evs. quiet (claimed s) e)"
    unfolding e
    by (rule plain_update [OF inv inner])
       (auto simp: end_writes_by_field end_writes(6) claimed_ok_def exit_abandons_def exit_user_stopped_def)
  have closed: "\<not> pty_open r'" if "by_id (end_reg e) sid = Some r'" for r'
  proof -
    have "end_fields r' = end_fields (exit_write kept exit now q)" if "by_id (end_reg (est s)) sid = Some q" for q
      using update_inner_events [OF inner that] \<open>by_id (end_reg e) sid = Some r'\<close> by (auto simp: e set_reg_def)
    moreover from that update_inner_by_id obtain q where "by_id (end_reg (est s)) sid = Some q"
      using update_inner_gone [OF _ inner] by (cases "by_id (end_reg (est s)) sid") (auto simp: e set_reg_def)
    ultimately show ?thesis using end_writes(5) by (simp add: end_fields_def)
  qed
  have found: "sid \<in> claimed s \<longrightarrow> fd_user_stopped fd \<and> \<not> fd_abandoned fd"
  proof
    assume c: "sid \<in> claimed s"
    with inv obtain r where "by_id (end_reg (est s)) sid = Some r" "claimed_ok r"
      by (fastforce simp: ends_inv_def ends_ok_def)
    then show "fd_user_stopped fd \<and> \<not> fd_abandoned fd"
      by (simp add: fd exit_found_def claimed_ok_def exit_user_stopped_def exit_abandons_def)
  qed
  show ?thesis using ok closed found task by (auto simp: ends_inv_def)
qed

lemma end_sidecar_by_id [simp]: "by_id (end_reg (end_sidecar env sid s)) = by_id (end_reg s)"
  by (simp add: end_sidecar_def set_reg_def)

lemma delete_session_dir_by_id [simp]: "by_id (end_reg (delete_session_dir env sid s)) = by_id (end_reg s)"
  by (simp add: delete_session_dir_def set_reg_def delete_sidecar_files_def)

lemma mark_by_id [simp]: "end_reg (mark_ended_during_host_shutdown env dirs sid s) = end_reg s"
  by (simp add: mark_ended_during_host_shutdown_def)

lemma exit_finished_ok:
  assumes inv: "ends_inv s" and task: "ex_tasks s = before @ ExitUpdated sid exit dirs kept fd # after"
    and run: "exit_finished env sid exit dirs kept fd (est s) = (facts, evs, e)"
  shows "ends_inv (s\<lparr>est := e, ex_tasks := before @ after\<rparr>) \<and> (\<forall>e \<in> set evs. quiet (claimed s) e)"
proof -
  have same: "by_id (end_reg e) = by_id (end_reg (est s))"
    using run by (auto simp: exit_finished_def split: if_splits)
  have "sid \<in> claimed s \<longrightarrow> fd_user_stopped fd \<and> \<not> fd_abandoned fd" using inv task by (simp add: ends_inv_def)
  then have "\<forall>e \<in> set evs. quiet (claimed s) e"
    using run by (auto simp: exit_finished_def quiet_def split: if_splits)
  moreover have "ends_inv (s\<lparr>est := e\<rparr>)"
    using inv_moves [OF inv moves_same [OF same]] by blast
  ultimately show ?thesis using task by (auto simp: ends_inv_def)
qed

lemma removed_ok:
  assumes inv: "ends_inv s" and run: "remove (end_reg (est s)) sid = (evs, rg)"
  shows "ends_inv (s\<lparr>est := set_reg rg (est s), claimed := claimed s - {sid}\<rparr>) \<and> (\<forall>e \<in> set evs. quiet (claimed s) e)"
proof -
  have rg: "by_id rg = (by_id (end_reg (est s)))(sid := None)" and evs: "\<forall>e \<in> set evs. quiet (claimed s) e"
    using run by (auto simp: remove_def quiet_def split: if_splits)
  have "task_ok (claimed s - {sid}) rg t" if "t \<in> set (ex_tasks s)" for t
  proof (rule task_ok_mono)
    show "task_ok (claimed s) (end_reg (est s)) t" using inv that by (simp add: ends_inv_def)
    show "\<exists>q. by_id (end_reg (est s)) i = Some q \<and> pty_open q" if "by_id rg i = Some q'" "pty_open q'" for i q'
      using that by (auto simp: rg split: if_splits)
  qed simp
  with inv evs show ?thesis by (auto simp: ends_inv_def ends_ok_def set_reg_def rg)
qed

lemma inserted_ok:
  assumes inv: "ends_inv s" and fresh: "rec_id r \<notin> known s" and r: "pty_open r \<longrightarrow> exit_code r = None \<and> mode r \<noteq> Headless"
  shows "ends_inv (s\<lparr>est := set_reg (insert_pending (end_reg (est s)) r) (est s), known := insert (rec_id r) (known s)\<rparr>) \<and>
    quiet (claimed s) (Updated (snapshot r))"
proof -
  have new: "by_id (end_reg (est s)) (rec_id r) = None" "rec_id r \<notin> claimed s"
    using inv fresh by (auto simp: ends_inv_def)
  have "task_ok (claimed s) (insert_pending (end_reg (est s)) r) t" if "t \<in> set (ex_tasks s)" for t
  proof -
    have t: "task_session t \<in> known s" "task_ok (claimed s) (end_reg (est s)) t" using inv that by (auto simp: ends_inv_def)
    with fresh have "task_session t \<noteq> rec_id r" by metis
    with t(2) show ?thesis by (intro task_ok_mono [OF t(2)]) (auto simp: insert_pending_def split: if_splits)
  qed
  with inv new r show ?thesis by (auto simp: ends_inv_def ends_ok_def set_reg_def insert_pending_def quiet_def)
qed

lemma ends_inv_ok: "ends_inv s \<Longrightarrow> ends_ok (claimed s) (end_reg (est s))"
  by (simp add: ends_inv_def)

lemma headless_ended_ok:
  assumes inv: "ends_inv s" and found: "by_id (end_reg (est s)) sid = Some r" "mode r = Headless"
    and run: "record_exit env now sid code (est s) = (evs, e)"
  shows "ends_inv (s\<lparr>est := e\<rparr>) \<and> (\<forall>e \<in> set evs. quiet (claimed s) e)"
proof -
  obtain held evs' e' where upd: "run_update env now sid (headless_exit_write code now) (est s) = (held, evs', e')"
    by (metis prod_cases3)
  from headless_update_ok [OF inv found this] headless_writes(2,3)
  have ok: "ends_inv (s\<lparr>est := e'\<rparr>)" "\<forall>e \<in> set evs'. quiet (claimed s) e" "sid \<notin> claimed s" by auto
  have "e = end_sidecar env sid e'" "set evs \<subseteq> set evs' \<union> {Attention sid AttStopped}"
    using run upd by (auto simp: record_exit_def Let_def split: if_splits)
  with ok inv_moves [OF ok(1), where e = e and evs = "[]"] show ?thesis
    by (auto simp: moves_same quiet_def)
qed

lemma live_stop_ok:
  assumes inv: "ends_inv s" and run: "live_stop_updated env now sid (est s) = (stopped, evs, e)"
  shows "ends_inv (s\<lparr>est := e, claimed := claimed s \<union> claim_ids (end_reg (est s)) sid\<rparr>) \<and>
    (\<forall>e \<in> set evs. quiet (claimed s) e)"
proof -
  define wr :: "SessionRecord \<Rightarrow> SessionEvent option option \<times> SessionRecord" where
    "wr = (\<lambda>r. case live_stop_write now r of (ch, r') \<Rightarrow> (if ch then Some None else None, r'))"
  from run obtain held rg where upd: "update_inner (at_disks env sid) (at_line_due env) now (end_reg (est s)) sid wr = (held, evs, rg)"
    and e: "e = set_reg rg (est s)"
    by (auto simp: live_stop_updated_def update_if_changed_def wr_def split: prod.splits)
  have "fst (wr r) = Some None \<and> (snd (wr r) = stop_write now r \<or> snd (wr r) = park_write now r) \<or>
      fst (wr r) = None \<and> snd (wr r) = r \<and> \<not> pty_open r" for r
    by (simp add: live_stop_write_def wr_def)
  from stop_claims [OF inv upd refl this] show ?thesis unfolding e .
qed

lemma end_step_ok:
  assumes "end_step s evs s'" and "ends_inv s"
  shows "ends_inv s' \<and> (\<forall>e \<in> set evs. quiet (claimed s) e)"
  using assms(1)
proof cases
  case (inserted r)
  with inserted_ok [OF assms(2)] show ?thesis by auto
next
  case (written wr d due now sid held rg)
  from end_keeper.keeper_moves [OF written(2,3) ends_inv_ok [OF assms(2)]] have "moves (claimed s) (end_reg (est s)) evs (end_reg (set_reg rg (est s)))"
    by (simp add: set_reg_def)
  from inv_moves [OF assms(2) this] show ?thesis unfolding written(1) .
next
  case (classified sid r d due now rd nxt held rg)
  with classified_ok [OF assms(2)] show ?thesis by simp
next
  case (headless_output sid r env now es e)
  show ?thesis
  proof (cases "es = []")
    case True
    with headless_output(4) have "e = est s" "evs = []" by (simp_all add: headless_line_def)
    then have "s' = s" "evs = []" using headless_output(1) by simp_all
    with assms(2) show ?thesis by simp
  next
    case False
    then obtain held where "run_update env now sid (\<lambda>r. foldl (apply_headless_event now) r es) (est s) = (held, evs, e)"
      using headless_output by (auto simp: headless_line_def prod_eq_iff)
    from headless_update_ok [OF assms(2) headless_output(2,3) this] headless_writes(1)
    show ?thesis using headless_output(1) by (simp add: end_fields_def)
  qed
next
  case (headless_ended sid r env now code e)
  with headless_ended_ok [OF assms(2)] show ?thesis by simp
next
  case (looked env now sid e)
  from inv_moves [OF assms(2) run_final_look_moves [OF looked(2) ends_inv_ok [OF assms(2)]]] show ?thesis unfolding looked(1) .
next
  case (stop_recorded env now sid e)
  from inv_moves [OF assms(2) record_end_moves [OF stop_recorded(2) ends_inv_ok [OF assms(2)]]] show ?thesis unfolding stop_recorded(1) .
next
  case (stop_claimed env now sid held e)
  from run_update_inner [OF stop_claimed(2)] obtain rg where
    "update_inner (at_disks env sid) (at_line_due env) now (end_reg (est s)) sid (\<lambda>r. (Some None, stop_write now r)) = (held, evs, rg)"
    "e = set_reg rg (est s)" by blast
  with stop_claims [OF assms(2) this(1) refl] stop_claimed(1) show ?thesis by simp
next
  case (live_stop_claimed env now sid stopped e)
  with live_stop_ok [OF assms(2)] show ?thesis by simp
next
  case (park_claimed env now sid held e)
  from run_update_inner [OF park_claimed(2)] obtain rg where
    "update_inner (at_disks env sid) (at_line_due env) now (end_reg (est s)) sid (\<lambda>r. (Some None, park_write now r)) = (held, evs, rg)"
    "e = set_reg rg (est s)" by blast
  with stop_claims [OF assms(2) this(1) refl] park_claimed(1) show ?thesis by simp
next
  case (sidecar_ended env sid)
  with inv_moves [OF assms(2) moves_same [OF end_sidecar_by_id]] show ?thesis by simp
next
  case (dir_deleted env sid)
  with inv_moves [OF assms(2) moves_same [OF delete_session_dir_by_id]] show ?thesis by simp
next
  case (removed sid rg)
  with removed_ok [OF assms(2)] show ?thesis by simp
next
  case (exit_begun sid exit dirs shutting_down)
  with assms(2) show ?thesis by (auto simp: ends_inv_def)
next
  case (exit_recorded before sid exit dirs kept after env now e)
  from inv_moves [OF assms(2) exit_recorded_moves [OF exit_recorded(3) ends_inv_ok [OF assms(2)]]] exit_recorded(1,2)
  show ?thesis by (auto simp: ends_inv_def)
next
  case (exit_updated before sid exit dirs kept after env now fd e)
  with exit_updated_ok [OF assms(2)] show ?thesis by simp
next
  case (exit_finished before sid exit dirs kept fd after env facts e)
  with exit_finished_ok [OF assms(2)] show ?thesis by simp
qed

lemma end_reachable_ok: "end_reach s0 s \<Longrightarrow> fresh_ends s0 \<Longrightarrow> ends_inv s"
proof (induction rule: end_reach.induct)
  case start
  then show ?case by (simp add: fresh_ends_def ends_inv_def ends_ok_def)
next
  case (move s evs s')
  with end_step_ok show ?case by blast
qed

end
