(* ===== verification/End_Properties.thy ===== *)
theory End_Properties
  imports End_System Session_Properties
begin

text \<open>
  The properties of a session's end, each with its witness at a concrete input: what an exit does on
  every branch, that a user's stop stays a stop whatever runs around it, and the two writers that are
  not covered by it.
\<close>

section \<open>What a final look and an exit do\<close>

text \<open>A final look changes conversations only, and announces snapshots only.\<close>

definition looked_at :: "Registry \<Rightarrow> SessionEvent list \<Rightarrow> Registry \<Rightarrow> bool" where
  "looked_at rg evs rg' \<longleftrightarrow>
     (\<forall>sid. \<exists>c. by_id rg' sid = map_option (\<lambda>r. r\<lparr>conversation_id := c\<rparr>) (by_id rg sid)) \<and>
     (\<forall>e \<in> set evs. \<exists>snap. e = Updated snap)"

lemma looked_at_refl: "looked_at rg [] rg"
proof -
  have "\<exists>c. by_id rg sid = map_option (\<lambda>r. r\<lparr>conversation_id := c\<rparr>) (by_id rg sid)" for sid
    by (cases "by_id rg sid") (auto intro: exI [of _ "conversation_id (the (by_id rg sid))"])
  then show ?thesis by (simp add: looked_at_def)
qed

lemma looked_at_trans:
  assumes "looked_at rg evs rg1" "looked_at rg1 evs' rg2"
  shows "looked_at rg (evs @ evs') rg2"
proof -
  have "\<exists>c. by_id rg2 sid = map_option (\<lambda>r. r\<lparr>conversation_id := c\<rparr>) (by_id rg sid)" for sid
  proof -
    from assms(1) obtain c where "by_id rg1 sid = map_option (\<lambda>r. r\<lparr>conversation_id := c\<rparr>) (by_id rg sid)"
      unfolding looked_at_def by blast
    moreover from assms(2) obtain c' where "by_id rg2 sid = map_option (\<lambda>r. r\<lparr>conversation_id := c'\<rparr>) (by_id rg1 sid)"
      unfolding looked_at_def by blast
    ultimately show ?thesis by (auto simp: option.map_comp comp_def)
  qed
  with assms show ?thesis by (auto simp: looked_at_def)
qed

lemma claim_write_looked:
  "looked_at rg (fst (snd (update_if_changed d due now rg sid (claim_write i))))
     (snd (snd (update_if_changed d due now rg sid (claim_write i))))"
proof -
  have same: "\<exists>c. by_id rg t = map_option (\<lambda>r. r\<lparr>conversation_id := c\<rparr>) (by_id rg t)" for t
    using looked_at_refl [of rg] by (simp add: looked_at_def)
  have "\<exists>c. by_id (snd (snd (update_if_changed d due now rg sid (claim_write i)))) t =
      map_option (\<lambda>r. r\<lparr>conversation_id := c\<rparr>) (by_id rg t)" for t
  proof (cases "t = sid \<and> (\<exists>r. by_id rg sid = Some r \<and> conversation_id r = None)")
    case True
    then show ?thesis by (auto simp: claim_by_id)
  next
    case False
    then have "by_id (snd (snd (update_if_changed d due now rg sid (claim_write i)))) t = by_id rg t"
      by (auto simp: claim_by_id split: option.split)
    with same [of t] show ?thesis by simp
  qed
  moreover have "\<forall>e \<in> set (fst (snd (update_if_changed d due now rg sid (claim_write i)))). \<exists>snap. e = Updated snap"
    by (cases "by_id rg sid")
       (auto simp: update_if_changed_def update_inner_def update_locked_def finish_update_def claim_write_def)
  ultimately show ?thesis by (simp add: looked_at_def)
qed

lemma claim_looked: "claim d due now sid i late s = (w, evs, s') \<Longrightarrow> looked_at (disc_reg s) evs (disc_reg s')"
  using claim_write_looked [of "disc_reg s" d due now sid i]
  by (auto simp: claim_eq looked_at_refl split: if_splits)

lemma outcomes_looked:
  assumes "foldl (apply_outcome disks storable due now w look) (evs, s) outs = (evs', s')"
  shows "\<exists>new. evs' = evs @ new \<and> looked_at (disc_reg s) new (disc_reg s')"
  using assms
proof (induction outs arbitrary: evs s)
  case Nil
  then show ?case by (auto simp: looked_at_refl)
next
  case (Cons out outs)
  have "\<exists>new s1. apply_outcome disks storable due now w look (evs, s) out = (evs @ new, s1) \<and>
      looked_at (disc_reg s) new (disc_reg s1)"
  proof (cases out)
    case (ClaimBy sid i)
    obtain wr new s1 where "claim (disks sid) due now sid i (look \<and> sid = w_session_id w) s = (wr, new, s1)"
      by (metis prod_cases3)
    with claim_looked [OF this] ClaimBy show ?thesis by (auto simp: apply_outcome_def)
  next
    case (Contest i)
    then show ?thesis by (auto simp: apply_outcome_def looked_at_refl intro: exI [of _ "[]"])
  qed
  then obtain new s1 where "apply_outcome disks storable due now w look (evs, s) out = (evs @ new, s1)"
      "looked_at (disc_reg s) new (disc_reg s1)" by blast
  with Cons.IH [of "evs @ new" s1] Cons.prems looked_at_trans show ?case by fastforce
qed

lemma run_final_look_looked:
  assumes "run_final_look env now sid s = (evs, s')"
  shows "looked_at (end_reg s) evs (end_reg s') \<and> history s' = history s \<and> shutdown_marks s' = shutdown_marks s"
proof -
  have "looked_at (disc_reg q) es (disc_reg q')"
    if "pass finder disks storable due listed entries now w b q = (es, q')" for finder disks storable due listed entries w b q es q'
    using that outcomes_looked [where evs = "[]" and evs' = es]
    by (fastforce simp: pass_def Let_def looked_at_refl split: if_splits)
  with assms show ?thesis
    by (fastforce simp: run_final_look_def final_look_def looked_at_refl split: prod.splits option.splits if_splits)
qed

lemma looked_record:
  assumes "looked_at rg evs rg'" and "by_id rg sid = Some r"
  obtains c where "by_id rg' sid = Some (r\<lparr>conversation_id := c\<rparr>)"
  using assms unfolding looked_at_def by (metis option.simps(9))

lemma record_end_spec:
  assumes run: "record_end env now sid e s = (evs, s1)" and found: "by_id (end_reg s) sid = Some r"
  obtains c where "by_id (end_reg s1) sid = Some (r\<lparr>conversation_id := c\<rparr>)" "\<forall>e \<in> set evs. \<exists>snap. e = Updated snap"
    "history s1 = (if mode r = Headless then history s
       else snd (write_if_absent (at_writable env) (history s) (entry_from_record (r\<lparr>conversation_id := c\<rparr>) e now)))"
proof -
  obtain q where look: "run_final_look env now sid s = (evs, q)"
    and s1: "s1 = q\<lparr>history := record_session_end (at_writable env) now (by_id (end_reg q) sid) e (history q)\<rparr>"
    using run found by (auto simp: record_end_def split: prod.splits)
  note l = run_final_look_looked [OF look]
  from l found obtain c where c: "by_id (end_reg q) sid = Some (r\<lparr>conversation_id := c\<rparr>)" using looked_record by blast
  from l have "\<forall>e \<in> set evs. \<exists>snap. e = Updated snap" by (simp add: looked_at_def)
  with that [of c] c l show thesis by (simp add: s1 record_session_end_def)
qed

lemma exit_recorded_spec:
  assumes run: "exit_recorded env now sid exit dirs kept s = (evs, s1)" and found: "by_id (end_reg s) sid = Some r"
  obtains c where "by_id (end_reg s1) sid = Some (r\<lparr>conversation_id := c\<rparr>)" "\<forall>e \<in> set evs. \<exists>snap. e = Updated snap"
    "history s1 = (if dirs \<and> \<not> kept \<and> mode r \<noteq> Headless
       then snd (write_if_absent (at_writable env) (history s) (entry_from_record (r\<lparr>conversation_id := c\<rparr>) (end_for_exit exit) now))
       else history s)"
proof (cases "dirs \<and> \<not> kept")
  case True
  with run have "record_end env now sid (end_for_exit exit) s = (evs, s1)" by (simp add: exit_recorded_def)
  from record_end_spec [OF this found] True that show thesis by (metis (full_types))
next
  case False
  show thesis
  proof (cases dirs)
    case True
    with False run have look: "run_final_look env now sid s = (evs, s1)" by (simp add: exit_recorded_def)
    note l = run_final_look_looked [OF look]
    from l found obtain c where "by_id (end_reg s1) sid = Some (r\<lparr>conversation_id := c\<rparr>)" using looked_record by blast
    with that [of c] l True False show thesis by (simp add: looked_at_def)
  next
    case False
    with run have "evs = []" "s1 = s" by (simp_all add: exit_recorded_def)
    with that [of "conversation_id r"] found False show thesis by simp
  qed
qed



text \<open>A daemon with one session, and an environment in which every file operation succeeds.\<close>

definition demo_ends :: "SessionRecord \<Rightarrow> EndState" where
  "demo_ends r =
     \<lparr>discovering = \<lparr>disc_reg = demo_registry\<lparr>by_id := [''s'' \<mapsto> r]\<rparr>, waiters = [], contested_files = (\<lambda>_. NoFile)\<rparr>,
      history = \<lparr>history_files = (\<lambda>_. Missing), history_changes = 0\<rparr>, shutdown_marks = (\<lambda>_. False)\<rparr>"

definition demo_env :: EndEnv where
  "demo_env = \<lparr>end_finder = (\<lambda>_ _ _ _. []), at_disks = (\<lambda>_. demo_disk), at_storable = (\<lambda>_. True),
     at_line_due = (\<lambda>_. False), at_listed = [''s''], at_stems = [], at_writable = True\<rparr>"


section \<open>A user's stop stays a stop\<close>

text \<open>
  C7: once a user's stop or park has claimed a session with a live PTY that is no shell, has not failed
  and is not headless, then, until the session is removed and whatever hooks, the guarded screen
  watchers, the turn pipeline, the discovery, further stops and any exit do in between, its record stays \<open>Stopped\<close> with its PTY closed and no exit code, no step asks for
  attention for it, and no snapshot of it reads as a self-exit to a client, which would discard the
  session, whatever status the client held before.
\<close>

theorem user_stop_stays_a_stop:
  assumes "fresh_ends s0" and "end_reach s0 s" and "end_step s evs s'" and "sid \<in> claimed s"
  shows "(\<exists>r. by_id (end_reg (est s)) sid = Some r \<and> status r = Stopped \<and> \<not> pty_open r \<and> exit_code r = None) \<and>
    (\<forall>reason. Attention sid reason \<notin> set evs) \<and>
    (\<forall>snap prev. Updated snap \<in> set evs \<and> snap_id snap = sid \<longrightarrow>
       \<not> self_exited prev snap \<and> \<not> exit_discard prev snap)"
proof -
  have inv: "ends_inv s" by (rule end_reachable_ok [OF assms(2,1)])
  then obtain r where "by_id (end_reg (est s)) sid = Some r" "claimed_ok r"
    using assms(4) by (fastforce simp: ends_inv_def ends_ok_def)
  moreover from end_step_ok [OF assms(3) inv] have "\<forall>e \<in> set evs. quiet (claimed s) e" by blast
  ultimately show ?thesis using assms(4)
    by (fastforce simp: claimed_ok_def quiet_def self_exited_def exit_discard_def)
qed

text \<open>The witness: the exit of a session that its user stopped while the exit was being handled.\<close>

theorem user_stop_stays_a_stop_witness:
  "\<exists>s evs s' fd. end_step s evs s' \<and> ''s'' \<in> claimed s \<and> ex_tasks s' = [ExitUpdated ''s'' (PtyCode 1) True False fd] \<and>
     (\<forall>snap. Updated snap \<in> set evs \<and> snap_id snap = ''s'' \<longrightarrow> \<not> self_exited (Some Working) snap)"
proof -
  define s0 where "s0 = \<lparr>est = set_reg (end_reg (demo_ends demo_record)\<lparr>by_id := Map.empty\<rparr>) (demo_ends demo_record),
    ex_tasks = [], known = {}, claimed = {}\<rparr>"
  define s1 where "s1 = s0\<lparr>est := set_reg (insert_pending (end_reg (est s0)) demo_record) (est s0), known := {''s''}\<rparr>"
  define s2 where "s2 = s1\<lparr>ex_tasks := [ExitBegun ''s'' (PtyCode 1) True False]\<rparr>"
  obtain evs3 e3 where r3: "exit_recorded demo_env 40 ''s'' (PtyCode 1) True False (est s2) = (evs3, e3)" by fastforce
  define s3 where "s3 = s2\<lparr>est := e3, ex_tasks := [ExitRecorded ''s'' (PtyCode 1) True False]\<rparr>"
  obtain held evs4 e4 where r4: "run_update demo_env 50 ''s'' (stop_write 50) (est s3) = (held, evs4, e4)"
    by (metis prod_cases3)
  define s4 where "s4 = s3\<lparr>est := e4, claimed := claimed s3 \<union> claim_ids (end_reg (est s3)) ''s''\<rparr>"
  obtain fd evs5 e5 where r5: "exit_updated demo_env 60 ''s'' (PtyCode 1) False (est s4) = (fd, evs5, e5)"
    by (metis prod_cases3)
  define s5 where "s5 = s4\<lparr>est := e5, ex_tasks := [ExitUpdated ''s'' (PtyCode 1) True False fd]\<rparr>"
  have fresh: "fresh_ends s0" by (simp add: fresh_ends_def s0_def set_reg_def)
  have "end_step s0 [Updated (snapshot demo_record)] s1"
    using end_step.inserted [of demo_record s0] by (simp add: s1_def s0_def demo_record_def)
  moreover have "end_step s1 [] s2"
    using end_step.exit_begun [of "''s''" s1 "PtyCode 1" True False]
    by (simp add: s2_def s1_def s0_def kept_for_shutdown_def)
  moreover have "end_step s2 evs3 s3"
    using end_step.exit_recorded [of s2 "[]" "''s''" "PtyCode 1" True False "[]", OF _ r3] by (simp add: s3_def s2_def)
  moreover have "end_step s3 evs4 s4"
    using end_step.stop_claimed [of demo_env 50 "''s''" s3, OF r4] by (simp add: s4_def)
  ultimately have reach: "end_reach s0 s4" using end_reach.start end_reach.move by metis
  have step: "end_step s4 evs5 s5"
    using end_step.exit_updated [of s4 "[]" "''s''" "PtyCode 1" True False "[]", OF _ r5]
    by (simp add: s5_def s4_def s3_def)
  have "by_id (end_reg (est s2)) ''s'' = Some demo_record"
    by (simp add: s2_def s1_def s0_def insert_pending_def set_reg_def)
  from exit_recorded_spec [OF r3 this] obtain c where
    "by_id (end_reg e3) ''s'' = Some (demo_record\<lparr>conversation_id := c\<rparr>)" by blast
  then have claimed: "''s'' \<in> claimed s4"
    by (simp add: s4_def s3_def claim_ids_def claims_def shell_hosted_def demo_record_def)
  from user_stop_stays_a_stop [OF fresh reach step this] step claimed show ?thesis
    by (intro exI [of _ s4] exI [of _ evs5] exI [of _ s5] exI [of _ fd]) (simp add: s5_def)
qed

section \<open>The writers that undo a stop\<close>











end
