(* ===== verification/Spec2Isabelle.thy ===== *)
theory Spec2Isabelle
  imports Tab_Properties Session_Properties Door_Properties Push_Properties Output_Properties Account_Properties History_Properties End_Properties
begin

text \<open>
  \<^bold>\<open>A verification of the rustling-tulip daemon and its client state.\<close>

  rustling-tulip runs many agent sessions side by side. A background daemon
  (\<open>crates/daemon\<close>) owns the sessions: it keeps a record of each, reads their output, takes the
  hook events of the agents, and serves clients over WebSocket connections. The desktop client
  (\<open>apps/native\<close>) and a phone show what the daemon tells them and send requests. The development
  models seven parts of this program, each as the code has it, and proves what each promises.

  \<^bold>\<open>Tabs.\<close> A client's layout is a list of tabs, each a binary tree of panes; the daemon stores it,
  changes it on request and broadcasts what changed, and the client folds the broadcasts into a copy.
    \<^item> \<open>Grid\<close>: the pane tree and its operations (\<open>crates/daemon/src/tabs.rs\<close>, data of
      \<open>crates/protocol/src/lib.rs\<close>): split, close, ratio, replace, swap, extract, insert, prune, rebind,
      rehost. Ratios are \<open>f32\<close> values with NaN and infinities. The locale \<open>pane_edit\<close> is the contract
      of the edits that keep a subset of the panes, interpreted on prune, rebind and rehost.
    \<^item> \<open>Layout\<close>: the builders of balanced strips and column grids. The locale \<open>layout_builder\<close> is what
      they share (the panes in order, ratios in bounds), interpreted on all three.
    \<^item> \<open>Tabs\<close>: the operations on the list of tabs; locale \<open>pane_select\<close> for closing the panes a
      predicate selects. \<open>Tab_Ops\<close> holds their lemmas.
    \<^item> \<open>Tab_Server\<close>: the request handlers (\<open>server/tabs.rs\<close>), the stored layouts with their two write
      disciplines (\<open>state.rs\<close>), the broadcasts, and the client's copy with its optimistic reorders
      (\<open>apps/native/src/tabs.rs\<close>). \<open>Tab_Mirror\<close> and \<open>Tab_System\<close> show that folding what a handler sends
      gives what the daemon stores, over all runs of any number of clients.
    \<^item> \<open>Tab_Properties\<close>: agreement of daemon and client, conservation of panes and sessions by every
      operation, fresh ids, layouts, bounds, refused requests.

  \<^bold>\<open>Sessions.\<close> A record per session, changed under its lock by hook events, a screen watcher and a
  summarizer pipeline, announced to clients and mirrored into a sidecar file.
    \<^item> \<open>Session\<close>: the record and its writers (\<open>session.rs\<close>, \<open>pty_state.rs\<close>, \<open>background_work.rs\<close>,
      \<open>hook_status.rs\<close>). \<open>Registry\<close>: the updates with their stamps and events, the sidecar under its gate;
      the locale \<open>record_writer\<close> is the contract of a function the registry may run on a record,
      interpreted on the writers. \<open>Sidecars\<close>: concurrent updates as a step relation.
    \<^item> \<open>Turns\<close>, \<open>Turn_System\<close>: the driver task of \<open>summarizer/turns.rs\<close> in its locked sections, and
      its runs; the locale \<open>bounded_log\<close> of the prelude is the contract of a capped queue, interpreted on
      the reports and on the recent actions.
    \<^item> \<open>Hooks\<close>, \<open>Hook_Buffer\<close>: one hook event applied to a record, and the buffer of events that come
      before their session, with its four caps.
    \<^item> \<open>Session_Properties\<close>: the record's invariant, stamps, ordering of hook events, held turn ends,
      the sidecar mirrors the record and stays deleted, one driver per session that drains its
      reports, bounds and replay of the buffer.

  \<^bold>\<open>The door.\<close> Devices of the tailnet pair once and then connect with a token.
    \<^item> \<open>Devices\<close> (the store of token digests, \<open>devices.rs\<close>), \<open>Pairing_Book\<close> (requests and codes with
      lifetimes and attempt limits), \<open>Push_Store\<close> (push subscriptions, \<open>push/store.rs\<close>), \<open>Pairing\<close> (the
      pairing connection, owner requests and the registry of served connections, \<open>server/pairing.rs\<close>,
      \<open>server/handshake.rs\<close>, \<open>server/live_devices.rs\<close>).
    \<^item> \<open>Door\<close>: all of them as one step relation, a step per locked section, with restarts.
      \<open>Door_Properties\<close>: who is served, who gets a token, how many guesses a code survives, whose
      subscriptions are kept, and the life of a token.

  \<^bold>\<open>Push.\<close> \<open>Push_Trigger\<close> models \<open>push/trigger.rs\<close> and \<open>push/send.rs\<close>: the tracker of session states,
  texts, delivery rounds with back-off and deletions, and the token cache. \<open>Push_Properties\<close>: the alerts are
  those of the session history; a round deletes exactly the subscriptions whose answers call for it.

  \<^bold>\<open>Output.\<close> A session's bytes on their way from the child to the screen.
    \<^item> \<open>Scrollback\<close>: the tracer's ring (\<open>crates/tracer/src/ring.rs\<close>) and the scrollback file with its
      trims (\<open>scrollback.rs\<close>). \<open>Replay\<close>: the bracketed-paste tracker (\<open>termstate.rs\<close>) and the lifecycle
      task that delivers, persists and snapshots (\<open>session.rs\<close>).
    \<^item> \<open>Output_Lane\<close>: one connection's lane with its budget, the forwarder with its resync, the
      handlers and the send pump (\<open>server/connection.rs\<close>, \<open>server/sessions.rs\<close>). \<open>Pane_Load\<close>: the pane
      of the client, its load with timeout and retries (\<open>apps/native/src/scrollback_load.rs\<close>,
      \<open>term_view.rs\<close>).
    \<^item> \<open>Output_System\<close> composes them with the socket; \<open>Output_Invariant\<close> is the invariant of its runs;
      \<open>Output_Properties\<close>: the ring refines its specification, an attach replays exactly, a pane
      shows its session, an unanswered load ends, and the one case in which a pane repeats output.

  \<^bold>\<open>Accounts.\<close> The auto-switch engine moves the agent's login between a user's accounts
  (\<open>crates/agents/claude/accounts\<close>); several engines may run on one account store.
    \<^item> \<open>Account_Usage\<close>: the windows of a usage reading, which readings are trusted, and the trigger
      classification (\<open>usage.rs\<close>, \<open>engine/reading.rs\<close>, \<open>engine/trigger.rs\<close>). \<open>Account_Rank\<close>: the state file, the
      census, the ranking and the no-return bar (\<open>engine/rank.rs\<close>); the locale \<open>weak_order\<close> is what the
      stable sort needs of a comparison, interpreted on the ranking's keys and on the paid balances.
      \<open>Account_Paid\<close>: whose credits may be spent (\<open>engine/paid.rs\<close>).
    \<^item> \<open>Engine\<close>: the lease, the cooldown and the switch under the state lock (\<open>engine/lease.rs\<close>,
      \<open>engine/perform.rs\<close>); \<open>Engine_System\<close>: any number of engines interleaved, with failing locks and
      files. \<open>Account_Properties\<close>: guarded switches, the lease's passing, what the ranking lists, no
      swinging back, the trigger as a function of the history, and the paid targets.

  \<^bold>\<open>Ends and recovery.\<close> A session ends by its child's exit or by a user; its end is recorded once and
  may be resumed later, with the conversation its agent held.
    \<^item> \<open>Tracer_Log\<close>: the reader of a tracer's log (\<open>tracer_log.rs\<close>). \<open>History\<close>: the files of ended
      sessions (\<open>history.rs\<close>). \<open>History_Import\<close>: the import of tracer logs, with the folders matched to
      registered repos and workspaces. \<open>Recovery\<close>: what an ended session is resumed as.
    \<^item> \<open>Discovery\<close>: which conversation belongs to which session (\<open>conversations/discovery.rs\<close>,
      \<open>conversations/contested.rs\<close>): waiters, arbitration, passes, the final look, the poller.
    \<^item> \<open>Screen_Status\<close>: the writes of the screen watchers and the classifier of a plain shell
      (\<open>pty_state.rs\<close>). \<open>Session_End\<close>: exit, stop, park, discard, dismissal and the headless child
      (\<open>session.rs\<close>, \<open>server/sessions.rs\<close>, \<open>server/recovery.rs\<close>, \<open>headless.rs\<close>), and what the client takes
      for a self-exit (\<open>apps/native/src/session_actions.rs\<close>). \<open>End_System\<close> interleaves the sections of
      these handlers with every other writer of a record; its locale \<open>end_keeper\<close> is the contract of a
      writer that leaves the end of a session alone, interpreted on the hook, screen, turn and
      discovery writers.
    \<^item> \<open>Recovery_Properties\<close>, \<open>History_Properties\<close>: what arbitration decides and what a pass may claim, the
      log's round trip, where a session comes back, and what the history keeps under all its operations.
      \<open>End_Properties\<close>: an exit on each branch, a user's stop that stays a stop under every
      interleaving with the guarded writers, and the two writers that break it.

  \<^bold>\<open>Conventions.\<close> A Rust struct is a record, an enum a datatype, \<open>Result\<close> the sum type of the
  prelude, \<open>String\<close> a byte string. Code behind a lock is one function on the state; tasks
  that interleave are step relations whose steps are the sections between their awaits. Maps are
  functions to option, or association lists where iteration order matters.

  What the sources only call is an argument of the definitions: SHA-256, UUIDs, clocks, random tokens and
  codes, the natural logarithm of \<open>f64\<close>, Base64, URL and key parsing, the time library's
  conversion and parser, Unicode lower-casing, the switch of the login, encryption, signing and the HTTP
  exchange of a push, the agent plug-ins (the reading of a hook body, the conversations found, the import
  of a run), the RFC 3339 and JSON parsers, the local calendar, and the summarizer's answer. Whether a file operation succeeds is an input of the step that makes it.
  Where a property needs something of an argument (unused UUIDs, a decoder that undoes its
  encoder), it is a hypothesis and the witness instantiates it.

  \<^bold>\<open>Bounds.\<close> No definition takes fuel. Loops are structural recursion, or have a termination proof:
  the free name search by the numbers below the list's length, balanced strips by the length of the
  list, closing panes by the number left, eviction by the number of held sessions, the load's tick by
  whether its deadline has passed. Counters that saturate in the code (\<open>u64\<close>) saturate here. Sums of
  byte lengths and times are taken over the naturals and integers: they stay far below the machine's range.

  \<^bold>\<open>Not modelled.\<close> Process creation, PTY reading and kills; the run that creates a conversation before a
  launch; the rules that read a status off a rendered screen and their confirmation windows; git, worktrees
  (their removal by a discard too), presets and settings; the chat mirror and transcript parsing; the
  account store, its polling and the switch of the login; the dashboard; remote daemons; drawing, focus, selection and input of
  the clients; the orders of the project list; serialisation of messages and files. They are I/O, calls of
  other programs, parsers of foreign formats or user interface.
\<close>

end
